(* ===== verification/Prelude.thy ===== *)
theory Prelude
  imports Main "HOL-Library.Product_Lexorder" "HOL-Library.List_Lexorder"
    "HOL-Library.Char_ord" "HOL-Library.Multiset" "HOL-Library.Code_Target_Nat"
begin

text \<open>
  What every component shares: the collections of rewrite rules, Python dictionaries as
  association lists in insertion order, \<open>dict.fromkeys\<close> as order-keeping deduplication,
  \<open>min(..., key=...)\<close> with Python's choice of the first least element, slices, and errors as
  the left summand of a sum with its bind.

  Identifiers, enum values and dictionary keys are \<open>string\<close>, on which the code uses equality,
  order and prefixes only.  Text whose character offsets matter is a list of code points and is
  the subject of the theory \<open>PyText\<close>.
\<close>

named_theorems guard_simps \<open>unfolding a component's guards and policy tables\<close>
named_theorems frame_simps \<open>the fields an operation leaves alone\<close>

section \<open>Errors as values\<close>

type_synonym ('e, 'a) result = "'e + 'a"

definition rbind :: "('e, 'a) result \<Rightarrow> ('a \<Rightarrow> ('e, 'b) result) \<Rightarrow> ('e, 'b) result" where
  "rbind r f = (case r of Inl e \<Rightarrow> Inl e | Inr x \<Rightarrow> f x)"

lemma rbind_simps [simp]:
  "rbind (Inl e) f = Inl e"
  "rbind (Inr x) f = f x"
  by (simp_all add: rbind_def)

lemma rbind_eq_Inr [simp]: "rbind r f = Inr y \<longleftrightarrow> (\<exists>x. r = Inr x \<and> f x = Inr y)"
  by (cases r) auto

lemma rbind_eq_Inl: "rbind r f = Inl e \<longleftrightarrow> r = Inl e \<or> (\<exists>x. r = Inr x \<and> f x = Inl e)"
  by (cases r) auto

text \<open>\<open>if c: raise e\<close> before the rest of a body.\<close>

definition raise_if :: "bool \<Rightarrow> 'e \<Rightarrow> ('e, unit) result" where
  "raise_if c e = (if c then Inl e else Inr ())"

lemma raise_if_simps [simp]:
  "raise_if c e = Inr u \<longleftrightarrow> \<not> c"
  "raise_if c e = Inl e' \<longleftrightarrow> c \<and> e' = e"
  by (auto simp: raise_if_def)

text \<open>A list comprehension whose element expression may raise: the first error wins.\<close>

fun rmap :: "('a \<Rightarrow> ('e, 'b) result) \<Rightarrow> 'a list \<Rightarrow> ('e, 'b list) result" where
  "rmap f [] = Inr []"
| "rmap f (x # xs) = rbind (f x) (\<lambda>y. rbind (rmap f xs) (\<lambda>ys. Inr (y # ys)))"

lemma rmap_eq_Inr:
  "rmap f xs = Inr ys \<longleftrightarrow> list_all2 (\<lambda>x y. f x = Inr y) xs ys"
  by (induction xs arbitrary: ys) (auto simp: list_all2_Cons1)

text \<open>Partners in a list relation.\<close>

lemma list_all2_partner_right:
  "list_all2 P xs ys \<Longrightarrow> x \<in> set xs \<Longrightarrow> \<exists>y \<in> set ys. P x y"
  by (induction xs ys rule: list_all2_induct) auto

lemma list_all2_partner_left:
  "list_all2 P xs ys \<Longrightarrow> y \<in> set ys \<Longrightarrow> \<exists>x \<in> set xs. P x y"
  by (induction xs ys rule: list_all2_induct) auto

lemma list_all2_choice:
  "\<forall>x \<in> set xs. \<exists>y. P x y \<Longrightarrow> \<exists>ys. list_all2 P xs ys"
proof (induction xs)
  case Nil
  have "list_all2 P [] []" by simp
  then show ?case by blast
next
  case (Cons x xs)
  then obtain y ys where "P x y" "list_all2 P xs ys" by auto
  then have "list_all2 P (x # xs) (y # ys)" by simp
  then show ?case by blast
qed

lemma distinct_map_mset:
  assumes "mset xs = mset ys"
  shows "distinct (map f xs) = distinct (map f ys)"
proof (rule mset_eq_imp_distinct_iff)
  show "mset (map f xs) = mset (map f ys)" using assms by simp
qed

section \<open>Order-keeping deduplication: \<open>dict.fromkeys\<close>\<close>

fun fromkeys :: "'a list \<Rightarrow> 'a list" where
  "fromkeys [] = []"
| "fromkeys (x # xs) = x # filter (\<lambda>y. y \<noteq> x) (fromkeys xs)"

lemma set_fromkeys [simp]: "set (fromkeys xs) = set xs"
  by (induction xs) auto

lemma distinct_fromkeys [simp]: "distinct (fromkeys xs)"
  by (induction xs) auto

lemma fromkeys_id: "distinct xs \<Longrightarrow> fromkeys xs = xs"
  by (induction xs) (auto simp: filter_id_conv)

lemma fromkeys_eq_Nil [simp]: "fromkeys xs = [] \<longleftrightarrow> xs = []"
  by (cases xs) auto

section \<open>Python's \<open>min\<close> with a key\<close>

fun min_key :: "('a \<Rightarrow> 'k::linorder) \<Rightarrow> 'a list \<Rightarrow> 'a option" where
  "min_key f [] = None"
| "min_key f (x # xs) =
     (case min_key f xs of None \<Rightarrow> Some x | Some y \<Rightarrow> Some (if f y < f x then y else x))"

lemma min_key_None [simp]: "min_key f xs = None \<longleftrightarrow> xs = []"
  by (cases xs) (auto split: option.splits)

lemma min_key_Some:
  "min_key f xs = Some y \<Longrightarrow> y \<in> set xs \<and> (\<forall>x \<in> set xs. f y \<le> f x)"
proof (induction xs arbitrary: y)
  case (Cons x xs)
  then show ?case
    by (cases "min_key f xs") (auto split: if_splits intro: less_imp_le order.trans)
qed simp

lemma min_key_exists: "xs \<noteq> [] \<Longrightarrow> \<exists>y. min_key f xs = Some y"
  by (cases "min_key f xs") auto

lemma min_key_unique:
  assumes "y \<in> set xs" and "\<forall>x \<in> set xs. f y \<le> f x" and "inj_on f (set xs)"
  shows "min_key f xs = Some y"
proof -
  from assms(1) obtain z where z: "min_key f xs = Some z"
    using min_key_exists [of xs f] by force
  from min_key_Some [OF z] assms(1,2) have "f z = f y" by (meson order.antisym)
  with min_key_Some [OF z] assms(1,3) have "z = y" by (auto dest: inj_onD)
  with z show ?thesis by simp
qed

text \<open>With distinct keys the choice depends on the elements only, not on their order.\<close>

lemma min_key_perm:
  assumes "mset xs = mset ys" and "inj_on f (set xs)"
  shows "min_key f xs = min_key f ys"
proof (cases "xs = []")
  case True
  with assms(1) show ?thesis by simp
next
  case False
  then obtain y where y: "min_key f xs = Some y" using min_key_exists by blast
  from assms(1) have s: "set xs = set ys" by (rule mset_eq_setD)
  from min_key_Some [OF y] assms(2) s have "min_key f ys = Some y"
    by (intro min_key_unique) auto
  with y show ?thesis by simp
qed

section \<open>Dictionaries in insertion order\<close>

type_synonym ('k, 'v) dict = "('k \<times> 'v) list"

fun dict_set :: "'k \<Rightarrow> 'v \<Rightarrow> ('k, 'v) dict \<Rightarrow> ('k, 'v) dict" where
  "dict_set k v [] = [(k, v)]"
| "dict_set k v ((k', v') # d) = (if k' = k then (k, v) # d else (k', v') # dict_set k v d)"

definition dict_pop :: "'k \<Rightarrow> ('k, 'v) dict \<Rightarrow> ('k, 'v) dict" where
  "dict_pop k d = filter (\<lambda>e. fst e \<noteq> k) d"

abbreviation dict_get :: "('k, 'v) dict \<Rightarrow> 'k \<Rightarrow> 'v option" where
  "dict_get d k \<equiv> map_of d k"

lemma dict_get_set [simp]: "dict_get (dict_set k v d) k' = (if k' = k then Some v else dict_get d k')"
  by (induction d) auto

text \<open>Assigning to a key keeps its place; a new key goes to the end.\<close>

lemma map_fst_dict_set:
  "map fst (dict_set k v d) = (if k \<in> fst ` set d then map fst d else map fst d @ [k])"
proof (induction d)
  case (Cons e d)
  then show ?case by (cases e) auto
qed simp

lemma keys_dict_set [simp]: "fst ` set (dict_set k v d) = insert k (fst ` set d)"
proof -
  have "fst ` set (dict_set k v d) = set (map fst (dict_set k v d))" by simp
  also have "\<dots> = insert k (fst ` set d)" unfolding map_fst_dict_set by auto
  finally show ?thesis .
qed

lemma distinct_dict_set [simp]: "distinct (map fst d) \<Longrightarrow> distinct (map fst (dict_set k v d))"
  by (auto simp: map_fst_dict_set)

lemma dict_get_pop [simp]: "dict_get (dict_pop k d) k' = (if k' = k then None else dict_get d k')"
  by (induction d) (auto simp: dict_pop_def)

lemma map_of_NoneI: "k \<notin> fst ` set d \<Longrightarrow> map_of d k = None"
  by (simp add: map_of_eq_None_iff)

section \<open>Slices and enumeration\<close>

definition slice :: "'a list \<Rightarrow> nat \<Rightarrow> nat \<Rightarrow> 'a list" where
  "slice xs a b = take (b - a) (drop a xs)"

lemma length_slice [simp]: "length (slice xs a b) = min (b - a) (length xs - a)"
  by (simp add: slice_def min.commute)

lemma slice_Nil [simp]: "b \<le> a \<Longrightarrow> slice xs a b = []"
  by (simp add: slice_def)

lemma slice_full [simp]: "slice xs 0 (length xs) = xs"
  by (simp add: slice_def)

lemma slice_append:
  "a \<le> b \<Longrightarrow> b \<le> c \<Longrightarrow> slice xs a b @ slice xs b c = slice xs a c"
proof -
  assume "a \<le> b" "b \<le> c"
  then have "drop b xs = drop (b - a) (drop a xs)" and "c - a = (b - a) + (c - b)"
    by (simp_all add: add.commute)
  then show ?thesis by (simp only: slice_def take_add)
qed

lemma slice_nth: "i < b - a \<Longrightarrow> b \<le> length xs \<Longrightarrow> slice xs a b ! i = xs ! (a + i)"
  by (simp add: slice_def)

definition enumerate0 :: "'a list \<Rightarrow> (nat \<times> 'a) list" where
  "enumerate0 xs = List.enumerate 0 xs"

lemma in_enumerate0: "(i, x) \<in> set (enumerate0 xs) \<longleftrightarrow> i < length xs \<and> xs ! i = x"
  by (auto simp: enumerate0_def in_set_enumerate_eq)

lemma sorted_wrt_nthI:
  "(\<And>i j. i < j \<Longrightarrow> j < length xs \<Longrightarrow> P (xs ! i) (xs ! j)) \<Longrightarrow> sorted_wrt P xs"
  by (simp add: sorted_wrt_iff_nth_less)

text \<open>A filtered list keeps any pairwise relation.\<close>

lemma sorted_wrt_filterI: "sorted_wrt P xs \<Longrightarrow> sorted_wrt P (filter Q xs)"
  by (induction xs) auto

section \<open>Ranges\<close>

text \<open>One range starts and ends no later than another.\<close>

definition mono_range :: "nat \<times> nat \<Rightarrow> nat \<times> nat \<Rightarrow> bool" where
  "mono_range p q \<longleftrightarrow> fst p \<le> fst q \<and> snd p \<le> snd q"

lemma mono_range_refl [simp]: "mono_range p p"
  by (simp add: mono_range_def)

lemma mono_range_trans: "mono_range p q \<Longrightarrow> mono_range q r \<Longrightarrow> mono_range p r"
  by (auto simp: mono_range_def)

lemma sorted_ranges:
  assumes "sorted_wrt mono_range ps"
  shows "sorted (map fst ps)" "sorted (map snd ps)"
  using assms by (auto simp: sorted_wrt_map mono_range_def elim: sorted_wrt_mono_rel [rotated])

text \<open>The first and the last of ordered ranges bound them all.\<close>

lemma ordered_bounds:
  assumes "sorted_wrt mono_range ps" "p \<in> set ps"
  shows "fst (hd ps) \<le> fst p \<and> snd p \<le> snd (last ps)"
proof -
  from assms(2) obtain xs ys where ps: "ps = xs @ p # ys" by (meson split_list)
  have "mono_range (hd ps) p" using assms(1) by (cases xs) (auto simp: ps)
  moreover have "mono_range p (last ps)" using assms(1) by (cases ys rule: rev_cases) (auto simp: ps sorted_wrt_append)
  ultimately show ?thesis by (simp add: mono_range_def)
qed

section \<open>String prefixes\<close>

definition starts_with :: "'a list \<Rightarrow> 'a list \<Rightarrow> bool" where
  "starts_with s p \<longleftrightarrow> take (length p) s = p"

definition removeprefix :: "'a list \<Rightarrow> 'a list \<Rightarrow> 'a list" where
  "removeprefix s p = (if starts_with s p then drop (length p) s else s)"

definition ends_with :: "'a list \<Rightarrow> 'a list \<Rightarrow> bool" where
  "ends_with s p \<longleftrightarrow> starts_with (rev s) (rev p)"

lemma starts_with_append [simp]: "starts_with (p @ s) p"
  by (simp add: starts_with_def)

lemma starts_with_iff: "starts_with s p \<longleftrightarrow> (\<exists>r. s = p @ r)"
  by (metis append_eq_conv_conj append_take_drop_id starts_with_def)

lemma removeprefix_append [simp]: "removeprefix (p @ s) p = s"
  by (simp add: removeprefix_def)

lemma starts_with_removeprefix: "starts_with s p \<Longrightarrow> p @ removeprefix s p = s"
  by (auto simp: starts_with_iff)

text \<open>Substring search, Python's \<open>p in s\<close>.\<close>

fun contains :: "'a list \<Rightarrow> 'a list \<Rightarrow> bool" where
  "contains [] p = (p = [])"
| "contains (x # xs) p = (starts_with (x # xs) p \<or> contains xs p)"

lemma contains_iff: "contains s p \<longleftrightarrow> (\<exists>a b. s = a @ p @ b)"
proof (induction s)
  case (Cons x xs)
  note IH = Cons.IH
  show ?case
  proof
    assume "contains (x # xs) p"
    then consider r where "x # xs = p @ r" | "contains xs p" by (auto simp: starts_with_iff)
    then show "\<exists>a b. x # xs = a @ p @ b"
    proof cases
      case 1
      then show ?thesis by (metis append_Nil)
    next
      case 2
      with Cons.IH obtain a b where "xs = a @ p @ b" by blast
      then have "x # xs = (x # a) @ p @ b" by simp
      then show ?thesis by blast
    qed
  next
    assume "\<exists>a b. x # xs = a @ p @ b"
    then obtain a b where "x # xs = a @ p @ b" by blast
    then show "contains (x # xs) p"
    proof (cases a)
      case Nil
      with \<open>x # xs = a @ p @ b\<close> have "starts_with (x # xs) p" by simp
      then show ?thesis by simp
    next
      case (Cons y ys)
      with \<open>x # xs = a @ p @ b\<close> have "xs = ys @ p @ b" by simp
      with IH show ?thesis by auto
    qed
  qed
qed simp

end
