(* ===== verification/PyText.thy ===== *)
theory PyText
  imports Prelude
begin

text \<open>
  Python's \<open>str\<close> where offsets matter: a list of code points.  The ASCII part of every
  character class and of case mapping is written out.  Above ASCII the classes come from the
  Unicode character database that ships with the interpreter; the record \<open>unidb\<close> is that table,
  passed to every operation that reads it, and \<open>demo_unidb\<close> is a finite instance (Latin-1 spaces,
  the Arabic block) on which closed facts are evaluated.
\<close>

type_synonym codepoint = nat
type_synonym ustr = "codepoint list"

text \<open>An ASCII literal as code points.\<close>

definition lit :: "string \<Rightarrow> ustr" where
  "lit s = map of_char s"

lemma lit_simps: "lit [] = []" "lit (c # s) = of_char c # lit s"
  by (simp_all add: lit_def)

lemma lit_append: "lit (s @ t) = lit s @ lit t"
  by (simp add: lit_def)

text \<open>Literals stay folded; comparing two of them compares the strings.\<close>

lemma lit_eq_iff [simp]: "lit s = lit t \<longleftrightarrow> s = t"
  unfolding lit_def by (rule inj_map_eq_map) (simp add: inj_def)

lemma lit_Nil_iff [simp]: "lit s = [] \<longleftrightarrow> s = []" "[] = lit s \<longleftrightarrow> s = []"
  by (auto simp: lit_def)

lemma length_lit [simp]: "length (lit s) = length s"
  by (simp add: lit_def)

lemma removeprefix_lit [simp]: "removeprefix (lit p @ s) (lit p) = s"
  by simp

record unidb =
  ud_alnum :: "codepoint \<Rightarrow> bool"      \<comment> \<open>\<open>str.isalnum\<close> of one character\<close>
  ud_space :: "codepoint \<Rightarrow> bool"      \<comment> \<open>\<open>str.isspace\<close>\<close>
  ud_digit :: "codepoint \<Rightarrow> bool"      \<comment> \<open>\<open>str.isdigit\<close>\<close>
  ud_decimal :: "codepoint \<Rightarrow> bool"    \<comment> \<open>\<open>str.isdecimal\<close>, the class \<open>\d\<close> of a regular expression\<close>
  ud_combining :: "codepoint \<Rightarrow> bool"  \<comment> \<open>\<open>unicodedata.combining(c) != 0\<close>\<close>
  ud_mark_mn :: "codepoint \<Rightarrow> bool"    \<comment> \<open>\<open>unicodedata.category(c) == "Mn"\<close>\<close>
  ud_format :: "codepoint \<Rightarrow> bool"     \<comment> \<open>\<open>unicodedata.category(c) in {"Cf", "Cc"}\<close>\<close>
  ud_lower :: "ustr \<Rightarrow> ustr"           \<comment> \<open>\<open>str.lower\<close> of a string with a character above ASCII\<close>
  ud_casefold :: "ustr \<Rightarrow> ustr"
  ud_nfc :: "ustr \<Rightarrow> ustr"             \<comment> \<open>\<open>unicodedata.normalize("NFC", s)\<close>\<close>

section \<open>Character classes\<close>

definition is_ascii :: "codepoint \<Rightarrow> bool" where
  "is_ascii c \<longleftrightarrow> c < 128"

definition ascii_upper :: "codepoint \<Rightarrow> bool" where
  "ascii_upper c \<longleftrightarrow> 65 \<le> c \<and> c \<le> 90"

definition ascii_alpha :: "codepoint \<Rightarrow> bool" where
  "ascii_alpha c \<longleftrightarrow> ascii_upper c \<or> 97 \<le> c \<and> c \<le> 122"

definition ascii_digit :: "codepoint \<Rightarrow> bool" where
  "ascii_digit c \<longleftrightarrow> 48 \<le> c \<and> c \<le> 57"

definition ascii_space :: "codepoint \<Rightarrow> bool" where
  "ascii_space c \<longleftrightarrow> 9 \<le> c \<and> c \<le> 13 \<or> 28 \<le> c \<and> c \<le> 32"

definition is_space :: "unidb \<Rightarrow> codepoint \<Rightarrow> bool" where
  "is_space U c = (if is_ascii c then ascii_space c else ud_space U c)"

definition is_alnum :: "unidb \<Rightarrow> codepoint \<Rightarrow> bool" where
  "is_alnum U c = (if is_ascii c then ascii_alpha c \<or> ascii_digit c else ud_alnum U c)"

definition is_digit :: "unidb \<Rightarrow> codepoint \<Rightarrow> bool" where
  "is_digit U c = (if is_ascii c then ascii_digit c else ud_digit U c)"

definition is_decimal :: "unidb \<Rightarrow> codepoint \<Rightarrow> bool" where
  "is_decimal U c = (if is_ascii c then ascii_digit c else ud_decimal U c)"

definition is_combining :: "unidb \<Rightarrow> codepoint \<Rightarrow> bool" where
  "is_combining U c \<longleftrightarrow> \<not> is_ascii c \<and> ud_combining U c"

text \<open>The class \<open>\w\<close> of a Unicode regular expression.\<close>

definition is_word :: "unidb \<Rightarrow> codepoint \<Rightarrow> bool" where
  "is_word U c \<longleftrightarrow> c = 95 \<or> is_alnum U c"

section \<open>Case, stripping, splitting\<close>

definition ascii_lower :: "codepoint \<Rightarrow> codepoint" where
  "ascii_lower c = (if ascii_upper c then c + 32 else c)"

definition py_lower :: "unidb \<Rightarrow> ustr \<Rightarrow> ustr" where
  "py_lower U s = (if list_all is_ascii s then map ascii_lower s else ud_lower U s)"

definition py_casefold :: "unidb \<Rightarrow> ustr \<Rightarrow> ustr" where
  "py_casefold U s = (if list_all is_ascii s then map ascii_lower s else ud_casefold U s)"

definition lstrip_by :: "(codepoint \<Rightarrow> bool) \<Rightarrow> ustr \<Rightarrow> ustr" where
  "lstrip_by P s = dropWhile P s"

definition strip_by :: "(codepoint \<Rightarrow> bool) \<Rightarrow> ustr \<Rightarrow> ustr" where
  "strip_by P s = rev (dropWhile P (rev (dropWhile P s)))"

definition py_strip :: "unidb \<Rightarrow> ustr \<Rightarrow> ustr" where
  "py_strip U s = strip_by (is_space U) s"

text \<open>The ASCII fast path of the lower-case map is idempotent.\<close>

lemma ascii_lower_idem [simp]: "ascii_lower (ascii_lower c) = ascii_lower c"
  by (simp add: ascii_lower_def ascii_upper_def)

lemma ascii_lower_ascii [simp]: "is_ascii (ascii_lower c) = is_ascii c"
  by (simp add: ascii_lower_def ascii_upper_def is_ascii_def)

lemma py_lower_ascii: "list_all is_ascii s \<Longrightarrow> py_lower U s = map ascii_lower s"
  by (simp add: py_lower_def)

lemma set_strip_by: "set (strip_by P s) \<subseteq> set s"
  by (auto simp: strip_by_def dest!: set_dropWhileD)

lemma strip_by_Nil_iff: "strip_by P s = [] \<longleftrightarrow> (\<forall>c \<in> set s. P c)"
proof
  assume "strip_by P s = []"
  then have "\<forall>c \<in> set (dropWhile P s). P c" by (simp add: strip_by_def dropWhile_eq_Nil_conv)
  then have "dropWhile P s = []"
    by (metis hd_dropWhile hd_in_set)
  then show "\<forall>c \<in> set s. P c" by (simp add: dropWhile_eq_Nil_conv)
next
  assume "\<forall>c \<in> set s. P c"
  then show "strip_by P s = []"
    by (auto simp: strip_by_def dropWhile_eq_Nil_conv dest: set_dropWhileD)
qed

lemma strip_by_idem [simp]: "strip_by P (strip_by P s) = strip_by P s"
proof -
  let ?m = "dropWhile P s" let ?r = "rev (dropWhile P (rev ?m))"
  have "dropWhile P ?r = ?r"
  proof (cases ?r)
    case Nil
    then show ?thesis by (simp only: dropWhile.simps)
  next
    case (Cons c cs)
    obtain t where t: "?m = ?r @ t"
      by (metis rev_append rev_rev_ident takeWhile_dropWhile_id)
    have "?m = c # (cs @ t)" by (subst t) (simp add: Cons)
    then have "\<not> P c" by (metis hd_dropWhile list.discI list.sel(1))
    then show ?thesis by (subst (1 2) Cons) simp
  qed
  then show ?thesis by (simp add: strip_by_def)
qed

text \<open>\<open>re.findall\<close> of a class repeated at least \<open>n\<close> times: the maximal runs, in order.\<close>

fun runs_acc :: "(codepoint \<Rightarrow> bool) \<Rightarrow> ustr \<Rightarrow> ustr \<Rightarrow> ustr list" where
  "runs_acc P cur [] = (if cur = [] then [] else [rev cur])"
| "runs_acc P cur (c # cs) =
     (if P c then runs_acc P (c # cur) cs
      else (if cur = [] then [] else [rev cur]) @ runs_acc P [] cs)"

definition find_runs :: "nat \<Rightarrow> (codepoint \<Rightarrow> bool) \<Rightarrow> ustr \<Rightarrow> ustr list" where
  "find_runs n P s = filter (\<lambda>r. n \<le> length r) (runs_acc P [] s)"

lemma runs_acc_members:
  "r \<in> set (runs_acc P cur s) \<Longrightarrow> \<forall>c \<in> set cur. P c \<Longrightarrow> r \<noteq> [] \<and> (\<forall>c \<in> set r. P c)"
proof (induction s arbitrary: cur)
  case Nil
  then show ?case by (cases "cur = []") auto
next
  case (Cons c s)
  show ?case
  proof (cases "P c")
    case True
    then have "r \<in> set (runs_acc P (c # cur) s)" and "\<forall>x \<in> set (c # cur). P x"
      using Cons.prems by auto
    then show ?thesis by (rule Cons.IH)
  next
    case False
    with Cons.prems(1) consider "cur \<noteq> []" "r = rev cur" | "r \<in> set (runs_acc P [] s)"
      by (auto split: if_splits)
    then show ?thesis
    proof cases
      case 1
      with Cons.prems(2) show ?thesis by simp
    next
      case 2
      then show ?thesis by (rule Cons.IH) simp
    qed
  qed
qed

lemma find_runs_members: "r \<in> set (find_runs n P s) \<Longrightarrow> n \<le> length r \<and> (\<forall>c \<in> set r. P c)"
  using runs_acc_members [of r P "[]" s] by (auto simp: find_runs_def)

text \<open>\<open>str.split()\<close> on whitespace.\<close>

definition split_ws :: "unidb \<Rightarrow> ustr \<Rightarrow> ustr list" where
  "split_ws U s = runs_acc (\<lambda>c. \<not> is_space U c) [] s"

section \<open>A finite instance of the character tables\<close>

text \<open>Latin-1 spaces and the letters, digits and marks of the Arabic block (U+0600 to U+06FF),
  plus ZWNJ and ZWJ as format characters.\<close>

definition arabic_mark :: "codepoint \<Rightarrow> bool" where
  "arabic_mark c \<longleftrightarrow> 1552 \<le> c \<and> c \<le> 1562 \<or> 1611 \<le> c \<and> c \<le> 1631 \<or> c = 1648"

definition arabic_letter :: "codepoint \<Rightarrow> bool" where
  "arabic_letter c \<longleftrightarrow> 1568 \<le> c \<and> c \<le> 1610 \<and> c \<noteq> 1600 \<or> 1649 \<le> c \<and> c \<le> 1747"

definition arabic_digit :: "codepoint \<Rightarrow> bool" where
  "arabic_digit c \<longleftrightarrow> 1632 \<le> c \<and> c \<le> 1641 \<or> 1776 \<le> c \<and> c \<le> 1785"

definition demo_unidb :: unidb where
  "demo_unidb = \<lparr>
     ud_alnum = (\<lambda>c. arabic_letter c \<or> arabic_digit c),
     ud_space = (\<lambda>c. c = 133 \<or> c = 160),
     ud_digit = arabic_digit,
     ud_decimal = arabic_digit,
     ud_combining = arabic_mark,
     ud_mark_mn = arabic_mark,
     ud_format = (\<lambda>c. c = 8204 \<or> c = 8205 \<or> c = 8206 \<or> c = 8207 \<or> c = 65279),
     ud_lower = map ascii_lower,
     ud_casefold = map ascii_lower,
     ud_nfc = (\<lambda>s. s)\<rparr>"

end
