(* ===== verification/TextBlocks.thy ===== *)
theory TextBlocks
  imports PyText
begin

text \<open>
  The scanner that separates prose from fenced code (\<open>textsemantics/blocks.py\<close>): lines, fence
  tokens, the pass over the lines and the blocks it leaves.  What later passes may rely on is that
  the blocks tile the text and that no line that opens a fence is left in prose.
\<close>

section \<open>Chains of ranges\<close>

text \<open>Non-empty half-open ranges that follow each other without a gap from \<open>a\<close> to \<open>b\<close>.\<close>

fun chain :: "nat \<Rightarrow> (nat \<times> nat) list \<Rightarrow> nat \<Rightarrow> bool" where
  "chain a [] b \<longleftrightarrow> a = b"
| "chain a ((s, e) # ivs) b \<longleftrightarrow> s = a \<and> s < e \<and> chain e ivs b"

lemma chain_append: "chain a (xs @ ys) c \<longleftrightarrow> (\<exists>b. chain a xs b \<and> chain b ys c)"
  by (induction xs arbitrary: a) auto

lemma chain_le: "chain a ivs b \<Longrightarrow> a \<le> b"
  by (induction ivs arbitrary: a) (auto, fastforce)

lemma chain_bounds: "chain a ivs b \<Longrightarrow> (s, e) \<in> set ivs \<Longrightarrow> a \<le> s \<and> s < e \<and> e \<le> b"
proof (induction ivs arbitrary: a)
  case (Cons iv ivs)
  obtain s' e' where iv: "iv = (s', e')" by (cases iv)
  with Cons.prems have c: "s' = a" "s' < e'" "chain e' ivs b" by auto
  from chain_le [OF c(3)] Cons.IH [OF c(3)] Cons.prems(2) c iv show ?case by fastforce
qed simp

lemma chain_slices: "chain a ivs b \<Longrightarrow> concat (map (\<lambda>(s, e). slice xs s e) ivs) = slice xs a b"
proof (induction ivs arbitrary: a)
  case (Cons iv ivs)
  obtain s e where iv: "iv = (s, e)" by (cases iv)
  with Cons.prems have c: "s = a" "s < e" "chain e ivs b" by auto
  then show ?case using Cons.IH [OF c(3)] slice_append [of a e b xs] chain_le [OF c(3)] by (simp add: iv)
qed simp

lemma chain_covers: "chain a ivs b \<Longrightarrow> a \<le> i \<Longrightarrow> i < b \<Longrightarrow> \<exists>(s, e) \<in> set ivs. s \<le> i \<and> i < e"
proof (induction ivs arbitrary: a)
  case (Cons iv ivs)
  obtain s e where iv: "iv = (s, e)" by (cases iv)
  with Cons.prems have c: "s = a" "chain e ivs b" by auto
  show ?case
  proof (cases "i < e")
    case True
    with c Cons.prems(2) iv show ?thesis by auto
  next
    case False
    with Cons.IH [OF c(2)] Cons.prems(3) obtain s' e' where "(s', e') \<in> set ivs" "s' \<le> i" "i < e'" by auto
    then show ?thesis by (auto simp: iv)
  qed
qed simp

section \<open>Lines and fences\<close>

datatype block_kind = PROSE | CODE

record text_block =
  tb_kind :: block_kind
  tb_start :: nat
  tb_end :: nat
  tb_text :: ustr

definition MAX_FENCE_INDENT :: nat where
  "MAX_FENCE_INDENT = 3"

definition block_of :: "block_kind \<Rightarrow> ustr \<Rightarrow> nat \<Rightarrow> nat \<Rightarrow> text_block" where
  "block_of kind raw s e = \<lparr>tb_kind = kind, tb_start = s, tb_end = e, tb_text = slice raw s e\<rparr>"

text \<open>A line without its newline, and the range that includes it.\<close>

function lines_from :: "nat \<Rightarrow> ustr \<Rightarrow> (ustr \<times> nat \<times> nat) list" where
  "lines_from pos s =
     (if s = [] then []
      else (let line = takeWhile (\<lambda>c. c \<noteq> 10) s; rest = dropWhile (\<lambda>c. c \<noteq> 10) s in
        if rest = [] then [(line, pos, pos + length s)]
        else (line, pos, pos + length line + 1) # lines_from (pos + length line + 1) (tl rest)))"
  by auto
termination
proof (relation "measure (\<lambda>(_, s). length s)", goal_cases)
  case (2 pos s line rest)
  then have "length rest \<le> length s" "rest \<noteq> []" by (simp_all add: length_dropWhile_le)
  then show ?case by (cases rest) auto
qed simp

declare lines_from.simps [simp del]

definition text_lines :: "ustr \<Rightarrow> (ustr \<times> nat \<times> nat) list" where
  "text_lines raw = lines_from 0 raw"

definition fence_token :: "ustr \<Rightarrow> (codepoint \<times> nat) option" where
  "fence_token line =
     (let stripped = lstrip_by (\<lambda>c. c = 32 \<or> c = 9) line in
      if MAX_FENCE_INDENT < length line - length stripped then None
      else if starts_with stripped (replicate 3 96)
      then Some (96, length stripped - length (lstrip_by (\<lambda>c. c = 96) stripped))
      else if starts_with stripped (replicate 3 126)
      then Some (126, length stripped - length (lstrip_by (\<lambda>c. c = 126) stripped))
      else None)"

definition is_bare_fence :: "unidb \<Rightarrow> ustr \<Rightarrow> bool" where
  "is_bare_fence U line =
     (case py_strip U line of [] \<Rightarrow> False
      | c # cs \<Rightarrow> (c = 96 \<or> c = 126) \<and> c # cs = replicate (length (c # cs)) c)"

section \<open>The pass over the lines\<close>

record fence_scan =
  fs_blocks :: "text_block list"
  fs_prose_start :: nat
  fs_open :: "(codepoint \<times> nat) option"
  fs_code_start :: nat

definition scan_line :: "unidb \<Rightarrow> ustr \<Rightarrow> fence_scan \<Rightarrow> ustr \<times> nat \<times> nat \<Rightarrow> fence_scan" where
  "scan_line U raw st ln =
     (case ln of (line, s, e) \<Rightarrow>
        (case fs_open st of
           None \<Rightarrow>
             (case fence_token line of None \<Rightarrow> st
              | Some f \<Rightarrow> st\<lparr>fs_blocks := fs_blocks st @
                     (if fs_prose_start st < s then [block_of PROSE raw (fs_prose_start st) s] else []),
                   fs_code_start := s, fs_open := Some f\<rparr>)
         | Some (c, n) \<Rightarrow>
             (case fence_token line of
                Some (c', n') \<Rightarrow>
                  (if c' = c \<and> n \<le> n' \<and> is_bare_fence U line
                   then st\<lparr>fs_blocks := fs_blocks st @ [block_of CODE raw (fs_code_start st) e],
                     fs_prose_start := e, fs_open := None\<rparr>
                   else st)
              | None \<Rightarrow> st)))"

definition scan_blocks :: "unidb \<Rightarrow> ustr \<Rightarrow> text_block list" where
  "scan_blocks U raw =
     (if raw = [] then []
      else (let st = foldl (scan_line U raw)
                  \<lparr>fs_blocks = [], fs_prose_start = 0, fs_open = None, fs_code_start = 0\<rparr> (text_lines raw)
            in if fs_open st \<noteq> None then fs_blocks st @ [block_of CODE raw (fs_code_start st) (length raw)]
               else if fs_prose_start st < length raw
               then fs_blocks st @ [block_of PROSE raw (fs_prose_start st) (length raw)]
               else fs_blocks st))"

definition code_ranges :: "unidb \<Rightarrow> ustr \<Rightarrow> (nat \<times> nat) list" where
  "code_ranges U raw = map (\<lambda>b. (tb_start b, tb_end b)) (filter (\<lambda>b. tb_kind b = CODE) (scan_blocks U raw))"

section \<open>The blocks tile the text\<close>

definition block_range :: "text_block \<Rightarrow> nat \<times> nat" where
  "block_range b = (tb_start b, tb_end b)"

lemma block_of_simps [simp]:
  "tb_kind (block_of k raw s e) = k" "tb_start (block_of k raw s e) = s" "tb_end (block_of k raw s e) = e"
  "tb_text (block_of k raw s e) = slice raw s e" "block_range (block_of k raw s e) = (s, e)"
  by (simp_all add: block_of_def block_range_def)

lemma lines_chain: "chain pos (map snd (lines_from pos s)) (pos + length s)"
proof (induction pos s rule: lines_from.induct)
  case (1 pos s)
  let ?l = "takeWhile (\<lambda>c. c \<noteq> 10) s" let ?r = "dropWhile (\<lambda>c. c \<noteq> 10) s"
  have len: "length s = length ?l + length ?r" by (metis length_append takeWhile_dropWhile_id)
  show ?case
  proof (cases "s = [] \<or> ?r = []")
    case True
    then show ?thesis by (subst lines_from.simps) (auto simp: Let_def)
  next
    case False
    then obtain x xs where r: "?r = x # xs" by (cases ?r) auto
    from False "1" have "chain (pos + length ?l + 1) (map snd (lines_from (pos + length ?l + 1) (tl ?r)))
        (pos + length ?l + 1 + length (tl ?r))" by blast
    then show ?thesis using False len r by (subst lines_from.simps) (simp add: Let_def add.assoc)
  qed
qed

definition cut_of :: "ustr \<Rightarrow> text_block \<Rightarrow> bool" where
  "cut_of raw b \<longleftrightarrow> tb_text b = slice raw (tb_start b) (tb_end b)"

definition in_code :: "text_block list \<Rightarrow> nat \<times> nat \<Rightarrow> bool" where
  "in_code bs iv \<longleftrightarrow> (\<exists>b \<in> set bs. tb_kind b = CODE \<and> tb_start b \<le> fst iv \<and> snd iv \<le> tb_end b)"

lemma in_code_append [simp]: "in_code (bs @ bs') iv \<longleftrightarrow> in_code bs iv \<or> in_code bs' iv"
  by (auto simp: in_code_def)

lemma in_code_single [simp]:
  "\<not> in_code [] iv" "in_code [block_of k raw s e] iv \<longleftrightarrow> k = CODE \<and> s \<le> fst iv \<and> snd iv \<le> e"
  by (auto simp: in_code_def)

lemma cut_of_block [simp]: "cut_of raw (block_of k raw s e)"
  by (simp add: cut_of_def)

text \<open>What the pass maintains before the line at \<open>pos\<close>; \<open>seen\<close> are the fence lines met so far.\<close>

definition scan_inv :: "ustr \<Rightarrow> (nat \<times> nat) set \<Rightarrow> nat \<Rightarrow> fence_scan \<Rightarrow> bool" where
  "scan_inv raw seen pos st \<longleftrightarrow> list_all (cut_of raw) (fs_blocks st) \<and>
     (case fs_open st of
        None \<Rightarrow> chain 0 (map block_range (fs_blocks st)) (fs_prose_start st) \<and> fs_prose_start st \<le> pos \<and>
          (\<forall>iv \<in> seen. in_code (fs_blocks st) iv)
      | Some _ \<Rightarrow> chain 0 (map block_range (fs_blocks st)) (fs_code_start st) \<and> fs_code_start st < pos \<and>
          (\<forall>iv \<in> seen. in_code (fs_blocks st) iv \<or> fs_code_start st \<le> fst iv \<and> snd iv \<le> pos))"

definition fence_lines :: "(ustr \<times> nat \<times> nat) list \<Rightarrow> (nat \<times> nat) set" where
  "fence_lines ls = {(s, e). \<exists>line. (line, s, e) \<in> set ls \<and> fence_token line \<noteq> None}"

lemma fence_lines_Cons:
  "fence_lines ((line, s, e) # ls) = (if fence_token line = None then {} else {(s, e)}) \<union> fence_lines ls"
  by (auto simp: fence_lines_def)

lemma scan_line_inv:
  assumes "scan_inv raw seen s st" "s < e"
  shows "scan_inv raw (seen \<union> (if fence_token line = None then {} else {(s, e)})) e (scan_line U raw st (line, s, e))"
proof (cases "fs_open st")
  case None
  with assms have st: "list_all (cut_of raw) (fs_blocks st)" "chain 0 (map block_range (fs_blocks st)) (fs_prose_start st)"
    "fs_prose_start st \<le> s" "\<forall>iv \<in> seen. in_code (fs_blocks st) iv" by (simp_all add: scan_inv_def)
  show ?thesis
  proof (cases "fence_token line")
    case t: None
    with st None assms(2) show ?thesis by (simp add: scan_inv_def scan_line_def)
  next
    case (Some f)
    with st None assms(2) show ?thesis by (auto simp: scan_inv_def scan_line_def chain_append)
  qed
next
  case (Some f)
  obtain c n where f: "f = (c, n)" by (cases f)
  from assms Some have st: "list_all (cut_of raw) (fs_blocks st)" "chain 0 (map block_range (fs_blocks st)) (fs_code_start st)"
    "fs_code_start st < s" "\<forall>iv \<in> seen. in_code (fs_blocks st) iv \<or> fs_code_start st \<le> fst iv \<and> snd iv \<le> s"
    by (simp_all add: scan_inv_def)
  then have seen: "\<forall>iv \<in> seen. in_code (fs_blocks st) iv \<or> fs_code_start st \<le> fst iv \<and> snd iv \<le> e"
    using assms(2) by fastforce
  define closes where "closes \<longleftrightarrow> (\<exists>n'. fence_token line = Some (c, n') \<and> n \<le> n' \<and> is_bare_fence U line)"
  have step: "scan_line U raw st (line, s, e) =
      (if closes then st\<lparr>fs_blocks := fs_blocks st @ [block_of CODE raw (fs_code_start st) e],
         fs_prose_start := e, fs_open := None\<rparr> else st)"
    by (auto simp: scan_line_def Some f closes_def split: option.splits)
  show ?thesis
  proof (cases closes)
    case True
    with st(1-3) seen assms(2) show ?thesis unfolding step by (auto simp: scan_inv_def chain_append)
  next
    case False
    with st(1-3) seen assms(2) Some show ?thesis unfolding step by (auto simp: scan_inv_def)
  qed
qed

lemma scan_lines_inv:
  "scan_inv raw seen pos st \<Longrightarrow> chain pos (map snd ls) stop \<Longrightarrow>
     scan_inv raw (seen \<union> fence_lines ls) stop (foldl (scan_line U raw) st ls)"
proof (induction ls arbitrary: seen pos st)
  case Nil
  then show ?case by (simp add: fence_lines_def)
next
  case (Cons ln ls)
  obtain line s e where ln: "ln = (line, s, e)" by (cases ln)
  with Cons.prems have c: "s = pos" "s < e" "chain e (map snd ls) stop" by auto
  from scan_line_inv [of raw seen s st e line U] Cons.prems(1) c
  have "scan_inv raw (seen \<union> (if fence_token line = None then {} else {(s, e)})) e (scan_line U raw st ln)"
    by (simp add: ln)
  from Cons.IH [OF this c(3)] show ?case by (simp add: ln fence_lines_Cons Un_assoc)
qed

lemma scan_blocks_tile:
  "list_all (cut_of raw) (scan_blocks U raw) \<and> chain 0 (map block_range (scan_blocks U raw)) (length raw) \<and>
   (\<forall>iv \<in> fence_lines (text_lines raw). in_code (scan_blocks U raw) iv)"
proof (cases "raw = []")
  case True
  then show ?thesis by (simp add: scan_blocks_def text_lines_def lines_from.simps fence_lines_def)
next
  case False
  let ?st0 = "\<lparr>fs_blocks = [], fs_prose_start = 0, fs_open = None, fs_code_start = 0\<rparr>"
  define st where "st = foldl (scan_line U raw) ?st0 (text_lines raw)"
  have "scan_inv raw {} 0 ?st0" by (simp add: scan_inv_def)
  from scan_lines_inv [OF this, of "text_lines raw" "length raw" U] lines_chain [of 0 raw]
  have inv: "scan_inv raw (fence_lines (text_lines raw)) (length raw) st"
    by (simp add: st_def text_lines_def)
  have eq: "scan_blocks U raw = (if fs_open st \<noteq> None
      then fs_blocks st @ [block_of CODE raw (fs_code_start st) (length raw)]
      else if fs_prose_start st < length raw
      then fs_blocks st @ [block_of PROSE raw (fs_prose_start st) (length raw)] else fs_blocks st)"
    using False by (simp add: scan_blocks_def st_def Let_def)
  show ?thesis
  proof (cases "fs_open st")
    case None
    with inv show ?thesis unfolding eq by (auto simp: scan_inv_def chain_append)
  next
    case (Some f)
    with inv show ?thesis unfolding eq by (auto simp: scan_inv_def chain_append)
  qed
qed

lemma blocks_nonempty: "b \<in> set (scan_blocks U raw) \<Longrightarrow> tb_start b < tb_end b \<and> tb_end b \<le> length raw"
  using scan_blocks_tile [of raw U] chain_bounds [of 0 _ "length raw" "tb_start b" "tb_end b"]
  by (force simp: block_range_def)

text \<open>
  Also proved (blocks_tile_text): the texts of the blocks, joined, are the raw text again; the
  blocks are non-empty and follow each other without a gap; and every line that carries a fence
  token lies in a code block, so no fence is left in prose.
\<close>

theorem blocks_tile_text:
  "concat (map tb_text (scan_blocks U raw)) = raw \<and>
   chain 0 (map block_range (scan_blocks U raw)) (length raw) \<and>
   fence_lines (text_lines raw) \<subseteq> {iv. in_code (scan_blocks U raw) iv}"
proof -
  note tile = scan_blocks_tile [of raw U]
  have eq: "map tb_text (scan_blocks U raw) = map (\<lambda>(s, e). slice raw s e) (map block_range (scan_blocks U raw))"
    using tile by (auto simp: block_range_def list_all_iff cut_of_def)
  have "concat (map tb_text (scan_blocks U raw)) = slice raw 0 (length raw)"
    unfolding eq by (rule chain_slices) (use tile in blast)
  with tile show ?thesis by auto
qed

end
