(* ===== verification/Json.thy ===== *)
theory Json
  imports PyText
begin

text \<open>
  JSON values and the Memorist I-JSON profile (\<open>validators/ijson.py\<close>): which values the
  validator admits, the canonical form that \<open>dump_ijson\<close> serialises (members sorted by name at
  every level), and \<open>canonical_hash_ijson\<close>.  SHA-256 over the serialised canonical form is the
  function argument \<open>hash\<close>; collision freedom is a named hypothesis (the locale
  \<open>fingerprinting\<close> of the theory \<open>CoverageIdentity\<close>) wherever a theorem needs it.
\<close>

text \<open>A finite float is mantissa and exponent; the profile looks at finiteness only.  The parser of
  the standard library also returns the non-finite floats, here one value.\<close>

datatype json =
    JNull
  | JBool bool
  | JInt int
  | JFloat int int
  | JNonFinite
  | JStr ustr
  | JList "json list"
  | JObj "(string \<times> json) list"

abbreviation jlit :: "string \<Rightarrow> json" where
  "jlit s \<equiv> JStr (lit s)"

abbreviation jnat :: "nat \<Rightarrow> json" where
  "jnat n \<equiv> JInt (int n)"

fun jopt :: "('a \<Rightarrow> json) \<Rightarrow> 'a option \<Rightarrow> json" where
  "jopt f None = JNull"
| "jopt f (Some x) = f x"

text \<open>\<open>Mapping.get(key)\<close>: a missing member reads as \<open>None\<close>, Python's null.\<close>

definition jget :: "(string \<times> json) list \<Rightarrow> string \<Rightarrow> json" where
  "jget d k = (case map_of d k of None \<Rightarrow> JNull | Some v \<Rightarrow> v)"

lemma jget_simps [simp]:
  "jget [] k = JNull"
  "jget ((k', v) # d) k = (if k' = k then v else jget d k)"
  by (simp_all add: jget_def)

section \<open>The I-JSON profile\<close>

datatype ijson_error =
    UnsafeInteger
  | NonFiniteFloat
  | LoneSurrogate
  | TimestampNotString
  | BadTimestamp
  | DuplicateMember string

definition MAX_SAFE_INTEGER :: int where
  "MAX_SAFE_INTEGER = 9007199254740991"

definition is_timestamp_field :: "string \<Rightarrow> bool" where
  "is_timestamp_field f \<longleftrightarrow>
     ends_with f ''_at'' \<or> ends_with f ''_from'' \<or> ends_with f ''_until''"

definition surrogate :: "codepoint \<Rightarrow> bool" where
  "surrogate c \<longleftrightarrow> 55296 \<le> c \<and> c \<le> 57343"

definition validate_string :: "ustr \<Rightarrow> (ijson_error, unit) result" where
  "validate_string s = raise_if (list_ex surrogate s) LoneSurrogate"

text \<open>
  \<open>ts_ok\<close> is the timestamp check: the RFC 3339 pattern and \<open>datetime.fromisoformat\<close>.  Member
  names are already strings here, so the checks on their type have no counterpart.
\<close>

fun validate_value :: "(ustr \<Rightarrow> bool) \<Rightarrow> string option \<Rightarrow> json \<Rightarrow> (ijson_error, unit) result"
  and validate_items :: "(ustr \<Rightarrow> bool) \<Rightarrow> json list \<Rightarrow> (ijson_error, unit) result"
  and validate_members :: "(ustr \<Rightarrow> bool) \<Rightarrow> (string \<times> json) list \<Rightarrow> (ijson_error, unit) result"
where
  "validate_value ts_ok f JNull = Inr ()"
| "validate_value ts_ok f (JBool b) = Inr ()"
| "validate_value ts_ok f (JStr s) =
     rbind (validate_string s) (\<lambda>_.
       raise_if ((case f of None \<Rightarrow> False | Some k \<Rightarrow> is_timestamp_field k) \<and> \<not> ts_ok s) BadTimestamp)"
| "validate_value ts_ok f (JInt i) =
     raise_if (i < - MAX_SAFE_INTEGER \<or> MAX_SAFE_INTEGER < i) UnsafeInteger"
| "validate_value ts_ok f (JFloat m e) = Inr ()"
| "validate_value ts_ok f JNonFinite = Inl NonFiniteFloat"
| "validate_value ts_ok f (JList xs) = validate_items ts_ok xs"
| "validate_value ts_ok f (JObj d) = validate_members ts_ok d"
| "validate_items ts_ok [] = Inr ()"
| "validate_items ts_ok (x # xs) =
     rbind (validate_value ts_ok None x) (\<lambda>_. validate_items ts_ok xs)"
| "validate_members ts_ok [] = Inr ()"
| "validate_members ts_ok ((k, v) # d) =
     rbind (raise_if (is_timestamp_field k \<and> (case v of JStr _ \<Rightarrow> False | _ \<Rightarrow> True)) TimestampNotString)
       (\<lambda>_. rbind (validate_value ts_ok (Some k) v) (\<lambda>_. validate_members ts_ok d))"

definition validate_ijson_value :: "(ustr \<Rightarrow> bool) \<Rightarrow> json \<Rightarrow> (ijson_error, unit) result" where
  "validate_ijson_value ts_ok v = validate_value ts_ok None v"

fun object_pairs_without_duplicates ::
  "(string \<times> json) list \<Rightarrow> (string \<times> json) list \<Rightarrow> (ijson_error, (string \<times> json) list) result" where
  "object_pairs_without_duplicates acc [] = Inr acc"
| "object_pairs_without_duplicates acc ((k, v) # ps) =
     (if k \<in> fst ` set acc then Inl (DuplicateMember k)
      else object_pairs_without_duplicates (acc @ [(k, v)]) ps)"

section \<open>Canonical form\<close>

fun canon :: "json \<Rightarrow> json" where
  "canon (JList xs) = JList (map canon xs)"
| "canon (JObj d) = JObj (sort_key fst (map (\<lambda>(k, v). (k, canon v)) d))"
| "canon v = v"

definition canonical_digest :: "(json \<Rightarrow> string) \<Rightarrow> json \<Rightarrow> string" where
  "canonical_digest hash v = hash (canon v)"

text \<open>\<open>dump_ijson\<close> validates before it serialises.\<close>

definition canonical_hash_ijson ::
  "(ustr \<Rightarrow> bool) \<Rightarrow> (json \<Rightarrow> string) \<Rightarrow> json \<Rightarrow> (ijson_error, string) result" where
  "canonical_hash_ijson ts_ok hash v =
     rbind (validate_ijson_value ts_ok v) (\<lambda>_. Inr (canonical_digest hash v))"

lemma object_pairs_distinct:
  "object_pairs_without_duplicates acc ps = Inr d \<Longrightarrow>
     distinct (map fst acc) \<Longrightarrow> d = acc @ ps \<and> distinct (map fst d)"
  by (induction acc ps rule: object_pairs_without_duplicates.induct)
    (auto split: if_splits simp flip: set_map)

text \<open>Two objects with the same members in a different order have one canonical form.\<close>

lemma sort_key_fst_perm:
  assumes "mset xs = mset (ys :: (string \<times> 'a) list)" and "distinct (map fst xs)"
  shows "sort_key fst xs = sort_key fst ys"
proof (rule properties_for_sort_key)
  show "mset (sort_key fst ys) = mset xs" using assms(1) by simp
  show "sorted (map fst (sort_key fst ys))" by simp
  fix k assume "k \<in> set (sort_key fst ys)"
  then have "k \<in> set ys" by simp
  have d: "distinct (map fst ys)"
    using assms mset_eq_imp_distinct_iff [of "map fst xs" "map fst ys"] by (simp only: mset_map)
  have len: "length (filter (\<lambda>x. fst k = fst x) zs) \<le> 1" if "distinct (map fst zs)" for zs :: "(string \<times> 'a) list"
    using that by (induction zs) (auto simp: filter_empty_conv image_iff)
  have m: "mset (filter (\<lambda>x. fst k = fst x) (sort_key fst ys)) = mset (filter (\<lambda>x. fst k = fst x) xs)"
    using assms(1) by (simp add: mset_filter)
  have "length (filter (\<lambda>x. fst k = fst x) xs) \<le> 1" using len assms(2) by blast
  then consider "filter (\<lambda>x. fst k = fst x) xs = []" | z where "filter (\<lambda>x. fst k = fst x) xs = [z]"
    by (cases "filter (\<lambda>x. fst k = fst x) xs") auto
  then show "filter (\<lambda>x. fst k = fst x) (sort_key fst ys) = filter (\<lambda>x. fst k = fst x) xs"
  proof cases
    case 1
    with m show ?thesis by (simp only: mset.simps mset_zero_iff)
  next
    case (2 z)
    with m show ?thesis by (simp only: mset.simps add_mset_eq_single mset_single_iff)
  qed
qed

lemma canon_member_order:
  assumes "mset d = mset d'" and "distinct (map fst d)"
  shows "canon (JObj d) = canon (JObj d')"
proof -
  let ?f = "\<lambda>(k, v). (k, canon v)"
  have "mset (map ?f d) = mset (map ?f d')" using assms(1) by (metis mset_map)
  moreover have "map fst (map ?f d) = map fst d" by (induction d) auto
  ultimately have "sort_key fst (map ?f d) = sort_key fst (map ?f d')"
    using assms(2) by (intro sort_key_fst_perm) (simp_all only:)
  then show ?thesis by simp
qed

end
