(* ===== verification/Bisect.thy ===== *)
theory Bisect
  imports Prelude
begin

text \<open>
  The library module \<open>bisect\<close> on lists of numbers.  Both searches halve the range on a predicate
  that is false and then true along the list; what they return is the place where it becomes true.
\<close>

function bisect_in :: "(nat \<Rightarrow> bool) \<Rightarrow> nat \<Rightarrow> nat \<Rightarrow> nat" where
  "bisect_in P lo hi =
     (if lo < hi then
        (let mid = (lo + hi) div 2 in if P mid then bisect_in P lo mid else bisect_in P (mid + 1) hi)
      else lo)"
  by auto
termination by (relation "measure (\<lambda>(_, lo, hi). hi - lo)") auto

declare bisect_in.simps [simp del]

lemma bisect_in_spec:
  assumes "\<And>i j. P i \<Longrightarrow> i \<le> j \<Longrightarrow> j < n \<Longrightarrow> P j" "lo \<le> hi" "hi \<le> n"
    and "\<forall>i < lo. \<not> P i" "\<forall>i. hi \<le> i \<and> i < n \<longrightarrow> P i"
  shows "bisect_in P lo hi \<le> n \<and> (\<forall>i < bisect_in P lo hi. \<not> P i) \<and>
     (\<forall>i. bisect_in P lo hi \<le> i \<and> i < n \<longrightarrow> P i)"
  using assms
proof (induction P lo hi rule: bisect_in.induct)
  case (1 P lo hi)
  let ?mid = "(lo + hi) div 2"
  show ?case
  proof (cases "lo < hi")
    case True
    then have mid: "lo \<le> ?mid" "?mid < hi" by auto
    show ?thesis
    proof (cases "P ?mid")
      case P: True
      have eq: "bisect_in P lo hi = bisect_in P lo ?mid"
        using P True by (subst bisect_in.simps) (simp add: Let_def)
      show ?thesis unfolding eq using 1(3-7) P mid by (intro 1(1) [OF True refl P]) auto
    next
      case P: False
      have "\<not> P i" if "i < ?mid + 1" for i
        using P 1(3) [of i ?mid] that mid 1(5) by auto
      moreover have eq: "bisect_in P lo hi = bisect_in P (?mid + 1) hi"
        using P True by (subst bisect_in.simps) (simp add: Let_def)
      ultimately show ?thesis
        unfolding eq using 1(3-7) mid by (intro 1(2) [OF True refl P]) auto
    qed
  next
    case False
    then have eq: "bisect_in P lo hi = lo" by (subst bisect_in.simps) simp
    show ?thesis unfolding eq using 1(3-7) False by auto
  qed
qed

definition bisect_right :: "nat list \<Rightarrow> nat \<Rightarrow> nat" where
  "bisect_right xs x = bisect_in (\<lambda>i. x < xs ! i) 0 (length xs)"

definition bisect_left :: "nat list \<Rightarrow> nat \<Rightarrow> nat" where
  "bisect_left xs x = bisect_in (\<lambda>i. x \<le> xs ! i) 0 (length xs)"

lemma bisect_right_spec:
  assumes "sorted xs"
  shows "bisect_right xs x \<le> length xs" "\<forall>i < bisect_right xs x. xs ! i \<le> x"
    "\<forall>i. bisect_right xs x \<le> i \<and> i < length xs \<longrightarrow> x < xs ! i"
proof -
  have mono: "x < xs ! j" if "x < xs ! i" "i \<le> j" "j < length xs" for i j
    using sorted_nth_mono [OF assms that(2,3)] that(1) by simp
  have "bisect_right xs x \<le> length xs \<and> (\<forall>i < bisect_right xs x. \<not> x < xs ! i) \<and>
    (\<forall>i. bisect_right xs x \<le> i \<and> i < length xs \<longrightarrow> x < xs ! i)"
    unfolding bisect_right_def by (rule bisect_in_spec) (assumption | rule mono | simp)+
  then show "bisect_right xs x \<le> length xs" "\<forall>i < bisect_right xs x. xs ! i \<le> x"
    "\<forall>i. bisect_right xs x \<le> i \<and> i < length xs \<longrightarrow> x < xs ! i" unfolding not_less by blast+
qed

lemma bisect_left_spec:
  assumes "sorted xs"
  shows "bisect_left xs x \<le> length xs" "\<forall>i < bisect_left xs x. xs ! i < x"
    "\<forall>i. bisect_left xs x \<le> i \<and> i < length xs \<longrightarrow> x \<le> xs ! i"
proof -
  have mono: "x \<le> xs ! j" if "x \<le> xs ! i" "i \<le> j" "j < length xs" for i j
    using sorted_nth_mono [OF assms that(2,3)] that(1) by simp
  have "bisect_left xs x \<le> length xs \<and> (\<forall>i < bisect_left xs x. \<not> x \<le> xs ! i) \<and>
    (\<forall>i. bisect_left xs x \<le> i \<and> i < length xs \<longrightarrow> x \<le> xs ! i)"
    unfolding bisect_left_def by (rule bisect_in_spec) (assumption | rule mono | simp)+
  then show "bisect_left xs x \<le> length xs" "\<forall>i < bisect_left xs x. xs ! i < x"
    "\<forall>i. bisect_left xs x \<le> i \<and> i < length xs \<longrightarrow> x \<le> xs ! i" unfolding not_le by blast+
qed

end
