(* ===== verification/TextNormalize.thy ===== *)
theory TextNormalize
  imports TextBlocks Json Bisect
begin

text \<open>
  Normalization with an exact map back to raw offsets (\<open>textsemantics/contract.py\<close>,
  \<open>textsemantics/normalize.py\<close>): the contract, the replacement of one character, the clusters of a
  base and its combining marks, the emitter with its held-back separator, and the two directions of
  the offset map.  The Unicode tables are the argument \<open>U\<close>.
\<close>

section \<open>The contract\<close>

datatype zwnj_policy = ZWNJ_BOUNDARY | ZWNJ_REMOVE

record norm_contract =
  nc_version :: string
  nc_unicode_form :: string
  nc_unify_persian_letters :: bool
  nc_remove_arabic_diacritics :: bool
  nc_zwnj_policy :: zwnj_policy
  nc_normalize_digits :: bool
  nc_lowercase_letters :: bool
  nc_compress_whitespace :: bool
  nc_preserve_fenced_code :: bool

definition default_contract :: norm_contract where
  "default_contract = \<lparr>nc_version = ''memorist.text.normalization.v1'', nc_unicode_form = ''NFC'',
     nc_unify_persian_letters = True, nc_remove_arabic_diacritics = True, nc_zwnj_policy = ZWNJ_BOUNDARY,
     nc_normalize_digits = True, nc_lowercase_letters = True, nc_compress_whitespace = True,
     nc_preserve_fenced_code = True\<rparr>"

fun zwnj_value :: "zwnj_policy \<Rightarrow> string" where
  "zwnj_value ZWNJ_BOUNDARY = ''boundary''"
| "zwnj_value ZWNJ_REMOVE = ''remove''"

definition contract_as_dict :: "norm_contract \<Rightarrow> json" where
  "contract_as_dict k = JObj
     [(''version'', JStr (lit (nc_version k))), (''unicode_form'', JStr (lit (nc_unicode_form k))),
      (''unify_persian_letters'', JBool (nc_unify_persian_letters k)),
      (''remove_arabic_diacritics'', JBool (nc_remove_arabic_diacritics k)),
      (''zwnj_policy'', JStr (lit (zwnj_value (nc_zwnj_policy k)))),
      (''normalize_digits'', JBool (nc_normalize_digits k)),
      (''lowercase_letters'', JBool (nc_lowercase_letters k)),
      (''compress_whitespace'', JBool (nc_compress_whitespace k)),
      (''preserve_fenced_code'', JBool (nc_preserve_fenced_code k))]"

text \<open>\<open>sha\<close> digests the sorted serialisation of a value.\<close>

definition contract_fingerprint :: "(json \<Rightarrow> string) \<Rightarrow> norm_contract \<Rightarrow> string" where
  "contract_fingerprint sha k = sha (contract_as_dict k)"

lemma zwnj_value_inj: "zwnj_value p = zwnj_value q \<Longrightarrow> p = q"
  by (cases p; cases q) simp_all

text \<open>Every field is part of what is digested: two contracts that serialise alike are equal.\<close>

lemma contract_as_dict_inj: "contract_as_dict k = contract_as_dict k' \<Longrightarrow> k = k'"
  by (cases k; cases k') (auto simp: contract_as_dict_def dest: zwnj_value_inj)

section \<open>One character\<close>

definition ZWNJ :: codepoint where "ZWNJ = 8204"
definition ZWJ :: codepoint where "ZWJ = 8205"
definition TATWEEL :: codepoint where "TATWEEL = 1600"

definition ARABIC_BLOCKS :: "(codepoint \<times> codepoint) list" where
  "ARABIC_BLOCKS = [(1536, 1791), (1872, 1919), (2208, 2303), (65136, 65279)]"

definition arabic_diacritic :: "unidb \<Rightarrow> codepoint \<Rightarrow> bool" where
  "arabic_diacritic U c \<longleftrightarrow> list_ex (\<lambda>(a, b). a \<le> c \<and> c \<le> b) ARABIC_BLOCKS \<and> ud_mark_mn U c"

text \<open>Arabic yeh and alef maksura become Farsi yeh, Arabic kaf becomes keheh.\<close>

definition PERSIAN_LETTER_MAP :: "(codepoint \<times> codepoint) list" where
  "PERSIAN_LETTER_MAP = [(1610, 1740), (1609, 1740), (1603, 1705)]"

definition digit_of :: "codepoint \<Rightarrow> codepoint option" where
  "digit_of c = (if 1776 \<le> c \<and> c \<le> 1785 then Some (c - 1776 + 48)
     else if 1632 \<le> c \<and> c \<le> 1641 then Some (c - 1632 + 48) else None)"

definition replace_char :: "unidb \<Rightarrow> norm_contract \<Rightarrow> codepoint \<Rightarrow> ustr" where
  "replace_char U k c =
     (if is_ascii c then
        (if ascii_space c then [32]
         else if c < 32 \<or> c = 127 then []
         else if nc_lowercase_letters k then [ascii_lower c] else [c])
      else if nc_remove_arabic_diacritics k \<and> arabic_diacritic U c then []
      else if c = TATWEEL then []
      else if c = ZWNJ then (if nc_zwnj_policy k = ZWNJ_BOUNDARY then [32] else [])
      else if c = ZWJ then []
      else if ud_space U c then [32]
      else if ud_format U c then []
      else if nc_unify_persian_letters k \<and> map_of PERSIAN_LETTER_MAP c \<noteq> None
      then [the (map_of PERSIAN_LETTER_MAP c)]
      else if nc_normalize_digits k \<and> digit_of c \<noteq> None then [the (digit_of c)]
      else if nc_lowercase_letters k then py_lower U [c]
      else [c])"

section \<open>Clusters\<close>

text \<open>A base with the combining marks after it, composed; \<open>s\<close> is the text from \<open>i\<close> on.\<close>

function clusters_from :: "unidb \<Rightarrow> norm_contract \<Rightarrow> nat \<Rightarrow> ustr \<Rightarrow> (ustr \<times> nat \<times> nat) list" where
  "clusters_from U k i [] = []"
| "clusters_from U k i (c # cs) =
     (let marks = takeWhile (is_combining U) cs; cluster = c # marks; stop = i + length cluster;
          composed = (if nc_unicode_form k = ''NFC'' \<and> \<not> (marks = [] \<and> is_ascii c)
                      then ud_nfc U cluster else cluster)
      in (composed, i, stop) # clusters_from U k stop (drop (length marks) cs))"
  by pat_completeness auto
termination by (relation "measure (\<lambda>(_, _, _, s). length s)") auto

definition clusters :: "unidb \<Rightarrow> norm_contract \<Rightarrow> ustr \<Rightarrow> nat \<Rightarrow> nat \<Rightarrow> (ustr \<times> nat \<times> nat) list" where
  "clusters U k raw s e = clusters_from U k s (slice raw s e)"

section \<open>The emitter\<close>

record emitter =
  em_chars :: ustr
  em_spans :: "(nat \<times> nat) list"
  em_code_spans :: "(nat \<times> nat) list"
  em_pending :: "(nat \<times> nat) option"

definition new_emitter :: emitter where
  "new_emitter = \<lparr>em_chars = [], em_spans = [], em_code_spans = [], em_pending = None\<rparr>"

definition flush :: "emitter \<Rightarrow> emitter" where
  "flush m = (case em_pending m of
       None \<Rightarrow> m\<lparr>em_pending := None\<rparr>
     | Some p \<Rightarrow> (if em_chars m = [] then m\<lparr>em_pending := None\<rparr>
         else m\<lparr>em_pending := None, em_chars := em_chars m @ [32], em_spans := em_spans m @ [p]\<rparr>))"

definition hold :: "norm_contract \<Rightarrow> nat \<Rightarrow> nat \<Rightarrow> emitter \<Rightarrow> emitter" where
  "hold k s e m =
     (if \<not> nc_compress_whitespace k then flush ((flush m)\<lparr>em_pending := Some (s, e)\<rparr>)
      else m\<lparr>em_pending := Some (case em_pending m of None \<Rightarrow> (s, e) | Some (a, _) \<Rightarrow> (a, e))\<rparr>)"

definition push :: "nat \<times> nat \<Rightarrow> emitter \<Rightarrow> codepoint \<Rightarrow> emitter" where
  "push p x c = x\<lparr>em_chars := em_chars x @ [c], em_spans := em_spans x @ [p]\<rparr>"

definition emit_verbatim :: "ustr \<Rightarrow> nat \<Rightarrow> nat \<Rightarrow> emitter \<Rightarrow> emitter" where
  "emit_verbatim raw s e m =
     (let m1 = flush m; begin = length (em_chars m1);
          m2 = foldl (\<lambda>x i. push (i, Suc i) x (raw ! i)) m1 [s..<e]
      in m2\<lparr>em_code_spans := em_code_spans m2 @ [(begin, length (em_chars m2))]\<rparr>)"

definition emit_char :: "unidb \<Rightarrow> norm_contract \<Rightarrow> nat \<Rightarrow> nat \<Rightarrow> emitter \<Rightarrow> codepoint \<Rightarrow> emitter" where
  "emit_char U k s e m c =
     (let r = replace_char U k c in
      if r = [] then m
      else if r = [32] then hold k s e m
      else foldl (push (s, e)) (flush m) r)"

definition emit_prose :: "unidb \<Rightarrow> norm_contract \<Rightarrow> ustr \<Rightarrow> nat \<Rightarrow> nat \<Rightarrow> emitter \<Rightarrow> emitter" where
  "emit_prose U k raw s e m =
     foldl (\<lambda>x (cluster, cs, ce). foldl (emit_char U k cs ce) x cluster) m (clusters U k raw s e)"

record normalized =
  nt_raw :: ustr
  nt_text :: ustr
  nt_spans :: "(nat \<times> nat) list"
  nt_contract :: norm_contract
  nt_code_spans :: "(nat \<times> nat) list"

text \<open>A separator still held back at the end is dropped.\<close>

definition finish :: "norm_contract \<Rightarrow> ustr \<Rightarrow> emitter \<Rightarrow> normalized" where
  "finish k raw m = \<lparr>nt_raw = raw, nt_text = em_chars m, nt_spans = em_spans m, nt_contract = k,
     nt_code_spans = em_code_spans m\<rparr>"

definition blocks_for :: "unidb \<Rightarrow> norm_contract \<Rightarrow> ustr \<Rightarrow> text_block list" where
  "blocks_for U k raw =
     (if raw = [] then []
      else if \<not> nc_preserve_fenced_code k then [block_of PROSE raw 0 (length raw)]
      else scan_blocks U raw)"

definition emit_block :: "unidb \<Rightarrow> norm_contract \<Rightarrow> ustr \<Rightarrow> emitter \<Rightarrow> text_block \<Rightarrow> emitter" where
  "emit_block U k raw m b =
     (if tb_kind b = CODE then emit_verbatim raw (tb_start b) (tb_end b) m
      else emit_prose U k raw (tb_start b) (tb_end b) m)"

definition normalize_with_mapping :: "unidb \<Rightarrow> norm_contract \<Rightarrow> ustr \<Rightarrow> normalized" where
  "normalize_with_mapping U k raw =
     finish k raw (foldl (emit_block U k raw) new_emitter (blocks_for U k raw))"

definition normalize_text :: "unidb \<Rightarrow> norm_contract \<Rightarrow> ustr \<Rightarrow> ustr" where
  "normalize_text U k raw = nt_text (normalize_with_mapping U k raw)"

section \<open>The two directions of the offset map\<close>

datatype span_error = InvalidNormalizedSpan int int | InvalidRawSpan int int

definition span_range :: "normalized \<Rightarrow> nat \<Rightarrow> nat \<Rightarrow> nat \<times> nat" where
  "span_range n s e = (fst (nt_spans n ! s), snd (nt_spans n ! (e - 1)))"

definition raw_span :: "normalized \<Rightarrow> int \<Rightarrow> int \<Rightarrow> (span_error, nat \<times> nat) result" where
  "raw_span n s e =
     (if s < 0 \<or> int (length (nt_text n)) < e \<or> e \<le> s then Inl (InvalidNormalizedSpan s e)
      else Inr (span_range n (nat s) (nat e)))"

definition raw_slice :: "normalized \<Rightarrow> int \<Rightarrow> int \<Rightarrow> (span_error, ustr) result" where
  "raw_slice n s e = rbind (raw_span n s e) (\<lambda>(a, b). Inr (slice (nt_raw n) a b))"

definition norm_range :: "normalized \<Rightarrow> nat \<Rightarrow> nat \<Rightarrow> (nat \<times> nat) option" where
  "norm_range n rs re =
     (let first = int (bisect_right (map snd (nt_spans n)) rs);
          last = int (bisect_left (map fst (nt_spans n)) re) - 1
      in if last < first then None else Some (nat first, nat (last + 1)))"

definition normalized_span :: "normalized \<Rightarrow> int \<Rightarrow> int \<Rightarrow> (span_error, (nat \<times> nat) option) result" where
  "normalized_span n rs re =
     (if rs < 0 \<or> int (length (nt_raw n)) < re \<or> re \<le> rs then Inl (InvalidRawSpan rs re)
      else Inr (norm_range n (nat rs) (nat re)))"

definition is_code :: "normalized \<Rightarrow> nat \<Rightarrow> bool" where
  "is_code n i = list_ex (\<lambda>(s, e). s \<le> i \<and> i < e) (nt_code_spans n)"


section \<open>What the emitter maintains\<close>

text \<open>Up to a cluster \<open>[s, e)\<close>: the spans ascend and end by \<open>e\<close>, and so does what is held back.\<close>

definition em_ok :: "nat \<Rightarrow> nat \<Rightarrow> emitter \<Rightarrow> bool" where
  "em_ok s e m \<longleftrightarrow> length (em_chars m) = length (em_spans m) \<and> sorted_wrt mono_range (em_spans m) \<and>
     (\<forall>p \<in> set (em_spans m). fst p < snd p \<and> mono_range p (s, e)) \<and>
     (\<forall>p \<in> set_option (em_pending m). fst p < snd p \<and> mono_range p (s, e) \<and>
        (\<forall>q \<in> set (em_spans m). mono_range q p))"

lemma em_ok_later: "em_ok s e m \<Longrightarrow> mono_range (s, e) (s', e') \<Longrightarrow> em_ok s' e' m"
  by (auto simp: em_ok_def intro: mono_range_trans)

lemma flush_pending [simp]: "em_pending (flush m) = None"
  by (simp add: flush_def split: option.split)

lemma flush_ok: "em_ok s e m \<Longrightarrow> em_ok s e (flush m)"
  by (auto simp: em_ok_def flush_def sorted_wrt_append split: option.split)

lemma hold_ok:
  assumes "em_ok s e m" "s < e"
  shows "em_ok s e (hold k s e m)"
proof (cases "nc_compress_whitespace k")
  case True
  with assms show ?thesis
    by (cases "em_pending m") (auto simp: em_ok_def hold_def mono_range_def)
next
  case False
  have "em_ok s e ((flush m)\<lparr>em_pending := Some (s, e)\<rparr>)"
    using flush_ok [OF assms(1)] assms(2) by (auto simp: em_ok_def mono_range_def)
  from flush_ok [OF this] show ?thesis by (simp add: hold_def False)
qed

lemma push_ok: "em_ok s e m \<Longrightarrow> em_pending m = None \<Longrightarrow> s < e \<Longrightarrow> em_ok s e (push (s, e) m c)"
  by (auto simp: em_ok_def push_def sorted_wrt_append mono_range_def)

lemma push_pending [simp]: "em_pending (push p m c) = em_pending m"
  by (simp add: push_def)

lemma pushes_ok:
  "em_ok s e m \<Longrightarrow> em_pending m = None \<Longrightarrow> s < e \<Longrightarrow> em_ok s e (foldl (push (s, e)) m cs)"
  by (induction cs arbitrary: m) (simp_all add: push_ok)

lemma emit_char_ok: "em_ok s e m \<Longrightarrow> s < e \<Longrightarrow> em_ok s e (emit_char U k s e m c)"
  by (auto simp: emit_char_def Let_def intro: hold_ok pushes_ok flush_ok)

lemma emit_cluster_ok: "em_ok s e m \<Longrightarrow> s < e \<Longrightarrow> em_ok s e (foldl (emit_char U k s e) m cs)"
  by (induction cs arbitrary: m) (auto intro: emit_char_ok)

lemma clusters_chain: "chain i (map snd (clusters_from U k i s)) (i + length s)"
proof (induction U k i s rule: clusters_from.induct)
  case (2 U k i c cs)
  let ?marks = "takeWhile (is_combining U) cs"
  have "length ?marks \<le> length cs" by (rule length_takeWhile_le)
  with 2 [OF refl refl refl refl] show ?case by (simp add: Let_def)
qed simp

lemma emit_clusters_ok:
  "em_ok a a m \<Longrightarrow> chain a (map snd cl) b \<Longrightarrow>
     em_ok b b (foldl (\<lambda>x (cluster, cs, ce). foldl (emit_char U k cs ce) x cluster) m cl)"
proof (induction cl arbitrary: a m)
  case (Cons x cl)
  obtain c s e where x: "x = (c, s, e)" by (cases x)
  with Cons.prems have ch: "s = a" "s < e" "chain e (map snd cl) b" by auto
  have "em_ok s e m" using Cons.prems(1) ch by (auto intro: em_ok_later simp: mono_range_def)
  from emit_cluster_ok [OF this ch(2), of U k c] ch(2)
  have "em_ok e e (foldl (emit_char U k s e) m c)" by (auto intro: em_ok_later simp: mono_range_def)
  from Cons.IH [OF this ch(3)] show ?case by (simp add: x)
qed simp

lemma emit_prose_ok:
  assumes "em_ok s s m" "s \<le> e" "e \<le> length raw"
  shows "em_ok e e (emit_prose U k raw s e m)"
proof -
  have "chain s (map snd (clusters U k raw s e)) e"
    using clusters_chain [of s U k "slice raw s e"] assms(2,3) by (simp add: clusters_def)
  from emit_clusters_ok [OF assms(1) this] show ?thesis by (simp add: emit_prose_def)
qed

definition verbatim_step :: "ustr \<Rightarrow> emitter \<Rightarrow> nat \<Rightarrow> emitter" where
  "verbatim_step raw x i = push (i, Suc i) x (raw ! i)"

lemma emit_verbatim_steps:
  "emit_verbatim raw s e m =
     (let m2 = foldl (verbatim_step raw) (flush m) [s..<e] in
      m2\<lparr>em_code_spans := em_code_spans m2 @ [(length (em_chars (flush m)), length (em_chars m2))]\<rparr>)"
  by (simp add: emit_verbatim_def verbatim_step_def [abs_def] Let_def)

lemma verbatim_result:
  assumes "s \<le> e" "e \<le> length raw"
  shows "em_chars (foldl (verbatim_step raw) m [s..<e]) = em_chars m @ slice raw s e"
    "em_spans (foldl (verbatim_step raw) m [s..<e]) = em_spans m @ map (\<lambda>i. (i, Suc i)) [s..<e]"
    "em_code_spans (foldl (verbatim_step raw) m [s..<e]) = em_code_spans m"
    "em_pending (foldl (verbatim_step raw) m [s..<e]) = em_pending m"
proof -
  have *: "em_chars (foldl (verbatim_step raw) m is) = em_chars m @ map ((!) raw) is \<and>
     em_spans (foldl (verbatim_step raw) m is) = em_spans m @ map (\<lambda>i. (i, Suc i)) is \<and>
     em_code_spans (foldl (verbatim_step raw) m is) = em_code_spans m \<and>
     em_pending (foldl (verbatim_step raw) m is) = em_pending m" for "is"
    by (induction "is" arbitrary: m) (simp_all add: verbatim_step_def push_def)
  have "map ((!) raw) [s..<e] = slice raw s e"
    by (rule nth_equalityI) (use assms in \<open>simp_all add: slice_nth\<close>)
  with * [of "[s..<e]"] show
    "em_chars (foldl (verbatim_step raw) m [s..<e]) = em_chars m @ slice raw s e"
    "em_spans (foldl (verbatim_step raw) m [s..<e]) = em_spans m @ map (\<lambda>i. (i, Suc i)) [s..<e]"
    "em_code_spans (foldl (verbatim_step raw) m [s..<e]) = em_code_spans m"
    "em_pending (foldl (verbatim_step raw) m [s..<e]) = em_pending m" by simp_all
qed

lemma emit_verbatim_ok:
  assumes "em_ok s s m" "s \<le> e" "e \<le> length raw"
  shows "em_ok e e (emit_verbatim raw s e m)"
proof -
  let ?f = "flush m" let ?m = "foldl (verbatim_step raw) ?f [s..<e]"
  note r = verbatim_result [OF assms(2,3), of ?f]
  have f: "em_ok s s ?f" using assms(1) by (rule flush_ok)
  have new: "sorted_wrt mono_range (map (\<lambda>i. (i, Suc i)) [s..<e])"
    by (simp add: sorted_wrt_map mono_range_def sorted_wrt_iff_nth_less)
  have "sorted_wrt mono_range (em_spans ?m)"
    using f new unfolding r(2) sorted_wrt_append by (auto simp: em_ok_def mono_range_def)
  with f r assms have "em_ok e e ?m" by (auto simp: em_ok_def mono_range_def)
  then show ?thesis by (simp add: emit_verbatim_steps Let_def em_ok_def)
qed

text \<open>Everything but a code block only appends, and keeps the code spans.\<close>

definition extends :: "emitter \<Rightarrow> emitter \<Rightarrow> bool" where
  "extends m m' \<longleftrightarrow> (\<exists>cs. em_chars m' = em_chars m @ cs) \<and> (\<exists>ps. em_spans m' = em_spans m @ ps) \<and>
     em_code_spans m' = em_code_spans m"

lemma extends_refl [simp]: "extends m m"
  by (simp add: extends_def)

lemma extends_trans: "extends m m' \<Longrightarrow> extends m' m'' \<Longrightarrow> extends m m''"
  by (auto simp: extends_def)

lemma extends_fold: "(\<And>x c. extends x (f x c)) \<Longrightarrow> extends m (foldl f m cs)"
  by (induction cs arbitrary: m) (auto intro: extends_trans)

lemma extends_flush [simp]: "extends m (flush m)"
  by (simp add: flush_def extends_def split: option.split)

lemma extends_pending [simp]: "extends m (m\<lparr>em_pending := p\<rparr>)"
  by (simp add: extends_def)

lemma extends_push [simp]: "extends m (push p m c)"
  by (simp add: extends_def push_def)

lemma extends_hold [simp]: "extends m (hold k s e m)"
  using extends_trans [OF extends_trans [OF extends_flush extends_pending] extends_flush]
  by (simp add: hold_def)

lemma extends_emit_char [simp]: "extends m (emit_char U k s e m c)"
proof -
  have "extends m (foldl (push (s, e)) (flush m) r)" for r
    by (rule extends_trans [OF extends_flush]) (rule extends_fold, simp)
  then show ?thesis by (simp add: emit_char_def Let_def)
qed

lemma extends_prose [simp]: "extends m (emit_prose U k raw s e m)"
  unfolding emit_prose_def by (rule extends_fold) (auto intro: extends_fold)

text \<open>The code spans so far point at verbatim copies of the code blocks so far.\<close>

definition copies :: "ustr \<Rightarrow> emitter \<Rightarrow> text_block \<Rightarrow> nat \<times> nat \<Rightarrow> bool" where
  "copies raw m b p \<longleftrightarrow> fst p < snd p \<and> snd p \<le> length (em_chars m) \<and>
     slice (em_chars m) (fst p) (snd p) = slice raw (tb_start b) (tb_end b) \<and>
     slice (em_spans m) (fst p) (snd p) = map (\<lambda>i. (i, Suc i)) [tb_start b..<tb_end b]"

lemma slice_append_left: "b \<le> length xs \<Longrightarrow> slice (xs @ ys) a b = slice xs a b"
  by (simp add: slice_def)

lemma slice_append_right: "slice (xs @ ys) (length xs) (length xs + length ys) = ys"
  by (simp add: slice_def)

lemma copies_extends:
  "copies raw m b p \<Longrightarrow> length (em_chars m) = length (em_spans m) \<Longrightarrow> em_chars m' = em_chars m @ cs \<Longrightarrow>
     em_spans m' = em_spans m @ ps \<Longrightarrow> copies raw m' b p"
  by (auto simp: copies_def slice_append_left)

lemma emit_block_step:
  assumes "em_ok s s m" "list_all2 (copies raw m) bs (em_code_spans m)" "block_range b = (s, e)" "s < e" "e \<le> length raw"
  shows "em_ok e e (emit_block U k raw m b) \<and>
    list_all2 (copies raw (emit_block U k raw m b)) (bs @ filter (\<lambda>b. tb_kind b = CODE) [b])
      (em_code_spans (emit_block U k raw m b))"
proof -
  have b: "tb_start b = s" "tb_end b = e" using assms(3) by (simp_all add: block_range_def)
  have len: "length (em_chars m) = length (em_spans m)" using assms(1) by (simp add: em_ok_def)
  show ?thesis
  proof (cases "tb_kind b = CODE")
    case True
    let ?f = "flush m"
    obtain cs ps where f: "em_chars ?f = em_chars m @ cs" "em_spans ?f = em_spans m @ ps"
      "em_code_spans ?f = em_code_spans m" using extends_flush [of m] by (auto simp: extends_def)
    have lf: "length (em_chars ?f) = length (em_spans ?f)" using flush_ok [OF assms(1)] by (simp add: em_ok_def)
    note r = verbatim_result [OF less_imp_le [OF assms(4)] assms(5), of ?f]
    define m' where "m' = emit_verbatim raw s e m"
    have m': "em_chars m' = em_chars ?f @ slice raw s e" "em_spans m' = em_spans ?f @ map (\<lambda>i. (i, Suc i)) [s..<e]"
      "em_code_spans m' = em_code_spans m @ [(length (em_chars ?f), length (em_chars ?f) + (e - s))]"
      using assms(4,5) f by (simp_all add: m'_def emit_verbatim_steps Let_def r)
    have "list_all2 (copies raw m') bs (em_code_spans m)"
      using assms(2) by (rule list_all2_mono) (auto intro: copies_extends [OF _ len] simp: m' f)
    moreover have "copies raw m' b (length (em_chars ?f), length (em_chars ?f) + (e - s))"
      using assms(4,5) slice_append_right [of "em_chars ?f" "slice raw s e"]
        slice_append_right [of "em_spans ?f" "map (\<lambda>i. (i, Suc i)) [s..<e]"]
      by (simp add: copies_def m' b lf)
    ultimately have "list_all2 (copies raw m') (bs @ [b]) (em_code_spans m')"
      by (simp add: m'(3) list_all2_appendI)
    moreover have "em_ok e e m'" unfolding m'_def by (rule emit_verbatim_ok) (use assms in auto)
    ultimately show ?thesis using True by (simp add: emit_block_def b m'_def)
  next
    case False
    let ?m = "emit_prose U k raw s e m"
    obtain cs ps where f: "em_chars ?m = em_chars m @ cs" "em_spans ?m = em_spans m @ ps"
      "em_code_spans ?m = em_code_spans m" using extends_prose [of m U k raw s e] by (auto simp: extends_def)
    have "list_all2 (copies raw ?m) bs (em_code_spans ?m)"
      unfolding f(3) using assms(2) by (rule list_all2_mono) (rule copies_extends [OF _ len f(1,2)])
    moreover have "em_ok e e ?m" by (rule emit_prose_ok) (use assms in auto)
    ultimately show ?thesis using False by (simp add: emit_block_def b)
  qed
qed

lemma emit_blocks:
  assumes "chain s (map block_range bs) e" "e \<le> length raw" "em_ok s s m" "list_all2 (copies raw m) seen (em_code_spans m)"
  shows "em_ok e e (foldl (emit_block U k raw) m bs) \<and>
    list_all2 (copies raw (foldl (emit_block U k raw) m bs)) (seen @ filter (\<lambda>b. tb_kind b = CODE) bs)
      (em_code_spans (foldl (emit_block U k raw) m bs))"
  using assms
proof (induction bs arbitrary: s m seen)
  case (Cons b bs)
  obtain s' e' where b: "block_range b = (s', e')" by (cases "block_range b")
  with Cons.prems(1) have c: "s' = s" "s < e'" "chain e' (map block_range bs) e" by auto
  note step = emit_block_step [OF Cons.prems(3,4) b [unfolded c(1)] c(2), of U k]
  from chain_le [OF c(3)] Cons.prems(2) have "e' \<le> length raw" by simp
  note step = step [OF this]
  from Cons.IH [OF c(3) Cons.prems(2) conjunct1 [OF step] conjunct2 [OF step]]
  show ?case by (cases "tb_kind b = CODE") simp_all
qed simp

lemma blocks_for_chain: "chain 0 (map block_range (blocks_for U k raw)) (length raw)"
  using scan_blocks_tile [of raw U] by (auto simp: blocks_for_def)

definition code_blocks :: "unidb \<Rightarrow> norm_contract \<Rightarrow> ustr \<Rightarrow> text_block list" where
  "code_blocks U k raw = filter (\<lambda>b. tb_kind b = CODE) (blocks_for U k raw)"

lemma blocks_for_cut: "b \<in> set (blocks_for U k raw) \<Longrightarrow> tb_text b = slice raw (tb_start b) (tb_end b)"
  using scan_blocks_tile [of raw U] by (auto simp: blocks_for_def list_all_iff cut_of_def split: if_splits)

lemma normalize_facts:
  fixes U k raw defines "n \<equiv> normalize_with_mapping U k raw"
  shows "nt_raw n = raw" "nt_contract n = k" "length (nt_spans n) = length (nt_text n)"
    "sorted_wrt mono_range (nt_spans n)"
    "\<And>p. p \<in> set (nt_spans n) \<Longrightarrow> fst p < snd p \<and> snd p \<le> length raw"
    "list_all2 (\<lambda>b p. fst p < snd p \<and> snd p \<le> length (nt_text n) \<and> slice (nt_text n) (fst p) (snd p) = tb_text b \<and>
       slice (nt_spans n) (fst p) (snd p) = map (\<lambda>i. (i, Suc i)) [tb_start b..<tb_end b])
       (code_blocks U k raw) (nt_code_spans n)"
proof -
  define m where "m = foldl (emit_block U k raw) new_emitter (blocks_for U k raw)"
  have n: "n = finish k raw m" by (simp add: n_def normalize_with_mapping_def m_def)
  have "em_ok 0 0 new_emitter" by (simp add: em_ok_def new_emitter_def)
  with emit_blocks [OF blocks_for_chain [of U k raw] order_refl this, where seen = "[]" and U = U and k = k]
  have m: "em_ok (length raw) (length raw) m" "list_all2 (copies raw m) (code_blocks U k raw) (em_code_spans m)"
    by (simp_all add: m_def code_blocks_def new_emitter_def)
  then show "nt_raw n = raw" "nt_contract n = k" "length (nt_spans n) = length (nt_text n)"
    "sorted_wrt mono_range (nt_spans n)"
    "\<And>p. p \<in> set (nt_spans n) \<Longrightarrow> fst p < snd p \<and> snd p \<le> length raw"
    by (auto simp: n finish_def em_ok_def mono_range_def)
  show "list_all2 (\<lambda>b p. fst p < snd p \<and> snd p \<le> length (nt_text n) \<and> slice (nt_text n) (fst p) (snd p) = tb_text b \<and>
       slice (nt_spans n) (fst p) (snd p) = map (\<lambda>i. (i, Suc i)) [tb_start b..<tb_end b])
       (code_blocks U k raw) (nt_code_spans n)"
    unfolding n finish_def normalized.simps using m(2)
    by (rule list.rel_mono_strong) (auto simp: copies_def code_blocks_def blocks_for_cut)
qed

section \<open>What callers rely on\<close>

lemma offset_map_facts:
  assumes "0 \<le> s" "s < e" "e \<le> int (length (normalize_text U k raw))"
  shows "\<exists>a b. raw_span (normalize_with_mapping U k raw) s e = Inr (a, b) \<and> a < b \<and> b \<le> length raw \<and>
       raw_slice (normalize_with_mapping U k raw) s e = Inr (slice raw a b)"
proof -
  let ?n = "normalize_with_mapping U k raw"
  note n = normalize_facts [where U = U and k = k and raw = raw]
  obtain s' e' where se: "s = int s'" "e = int e'" "s' < e'" "e' \<le> length (nt_text ?n)"
    using assms nonneg_int_cases [OF assms(1)] nonneg_int_cases [of e] by (fastforce simp: normalize_text_def)
  then have "s' < length (nt_spans ?n)" "e' - 1 < length (nt_spans ?n)" using n(3) by auto
  then have "nt_spans ?n ! s' \<in> set (nt_spans ?n)" "nt_spans ?n ! (e' - 1) \<in> set (nt_spans ?n)" by auto
  from n(5) [OF this(1)] n(5) [OF this(2)]
  have b: "fst (nt_spans ?n ! s') < snd (nt_spans ?n ! s')" "snd (nt_spans ?n ! (e' - 1)) \<le> length raw" by auto
  have "snd (nt_spans ?n ! s') \<le> snd (nt_spans ?n ! (e' - 1))"
  proof (cases "s' = e' - 1")
    case False
    with se(3) \<open>e' - 1 < _\<close> n(4) have "mono_range (nt_spans ?n ! s') (nt_spans ?n ! (e' - 1))"
      by (auto simp: sorted_wrt_iff_nth_less)
    then show ?thesis by (simp add: mono_range_def)
  qed simp
  with b n(1,3,4) se show ?thesis
    by (auto simp: raw_span_def raw_slice_def span_range_def normalize_text_def)
qed

text \<open>
  Property C34 (offset_map_wellformed): the map has one raw range per normalized character, the
  ranges ascend, and every non-empty slice of the normalized text has a non-empty raw range inside
  the raw text, whose characters are its evidence.
\<close>

theorem offset_map_wellformed:
  assumes "0 \<le> s" "s < e" "e \<le> int (length (normalize_text U k raw))"
  shows "length (nt_spans (normalize_with_mapping U k raw)) = length (normalize_text U k raw) \<and>
    sorted_wrt mono_range (nt_spans (normalize_with_mapping U k raw)) \<and>
    (\<exists>a b. raw_span (normalize_with_mapping U k raw) s e = Inr (a, b) \<and> a < b \<and> b \<le> length raw \<and>
       raw_slice (normalize_with_mapping U k raw) s e = Inr (slice raw a b))"
  using offset_map_facts [OF assms] normalize_facts(3,4) [where U = U and k = k and raw = raw]
  by (simp add: normalize_text_def)

text \<open>The ranges that meet a raw range are consecutive, and the two searches find their ends.\<close>

definition meets :: "nat \<Rightarrow> nat \<Rightarrow> nat \<times> nat \<Rightarrow> bool" where
  "meets rs re p \<longleftrightarrow> fst p < re \<and> rs < snd p"

lemma meets_between:
  assumes "sorted_wrt mono_range ps" "i < length ps"
  shows "meets rs re (ps ! i) \<longleftrightarrow> bisect_right (map snd ps) rs \<le> i \<and> i < bisect_left (map fst ps) re"
proof -
  note r = bisect_right_spec [OF sorted_ranges(2) [OF assms(1)], of rs]
  note l = bisect_left_spec [OF sorted_ranges(1) [OF assms(1)], of re]
  from assms(2) r(2,3) have "rs < snd (ps ! i) \<longleftrightarrow> bisect_right (map snd ps) rs \<le> i"
    by (metis length_map not_le nth_map)
  moreover from assms(2) l(2,3) have "fst (ps ! i) < re \<longleftrightarrow> i < bisect_left (map fst ps) re"
    by (metis length_map not_le nth_map)
  ultimately show ?thesis by (auto simp: meets_def)
qed

lemma normalized_span_facts:
  assumes "0 \<le> rs" "rs < re" "re \<le> int (length raw)"
  shows "\<exists>r. normalized_span (normalize_with_mapping U k raw) rs re = Inr r \<and>
    {i. i < length (normalize_text U k raw) \<and>
        meets (nat rs) (nat re) (nt_spans (normalize_with_mapping U k raw) ! i)} =
      (case r of None \<Rightarrow> {} | Some (a, b) \<Rightarrow> {a..<b}) \<and>
    (case r of None \<Rightarrow> True | Some (a, b) \<Rightarrow> a < b)"
proof -
  let ?n = "normalize_with_mapping U k raw"
  let ?f = "bisect_right (map snd (nt_spans ?n)) (nat rs)" and ?l = "bisect_left (map fst (nt_spans ?n)) (nat re)"
  note n = normalize_facts [where U = U and k = k and raw = raw]
  have l: "?l \<le> length (nt_spans ?n)" using bisect_left_spec(1) [OF sorted_ranges(1) [OF n(4)]] by simp
  have "{i. i < length (nt_text ?n) \<and> meets (nat rs) (nat re) (nt_spans ?n ! i)} = {?f..<?l}"
    using meets_between [OF n(4), of _ "nat rs" "nat re"] l by (auto simp: n(3))
  moreover have "normalized_span ?n rs re = Inr (if ?f < ?l then Some (?f, ?l) else None)"
    using assms n(1) by (auto simp: normalized_span_def norm_range_def Let_def)
  ultimately show ?thesis by (auto simp: normalize_text_def)
qed

text \<open>
  Also proved (normalized_span_exhaustive): for a valid raw range the two binary searches return
  the range from the first to the last normalized character whose raw range meets it, every
  character of that range meets it, and they return none exactly when no character does.
\<close>

theorem normalized_span_exhaustive:
  assumes "0 \<le> rs" "rs < re" "re \<le> int (length raw)"
  shows "\<exists>r. normalized_span (normalize_with_mapping U k raw) rs re = Inr r \<and>
    {i. i < length (normalize_text U k raw) \<and>
        meets (nat rs) (nat re) (nt_spans (normalize_with_mapping U k raw) ! i)} =
      (case r of None \<Rightarrow> {} | Some (a, b) \<Rightarrow> {a..<b}) \<and>
    (case r of None \<Rightarrow> True | Some (a, b) \<Rightarrow> a < b)"
  by (rule normalized_span_facts [OF assms])

text \<open>
  Property C35 (offset_roundtrip): mapping a normalized slice to its raw range and back gives a
  slice that contains it.
\<close>

theorem offset_roundtrip:
  assumes "0 \<le> s" "s < e" "e \<le> int (length (normalize_text U k raw))"
  shows "\<exists>a b s' e'. raw_span (normalize_with_mapping U k raw) s e = Inr (a, b) \<and>
    normalized_span (normalize_with_mapping U k raw) (int a) (int b) = Inr (Some (s', e')) \<and>
    s' \<le> nat s \<and> nat e \<le> e' \<and> e' \<le> length (normalize_text U k raw)"
proof -
  let ?n = "normalize_with_mapping U k raw"
  let ?meets = "\<lambda>a b. {i. i < length (normalize_text U k raw) \<and> meets a b (nt_spans ?n ! i)}"
  note n = normalize_facts [where U = U and k = k and raw = raw]
  obtain a b where ab: "raw_span ?n s e = Inr (a, b)" "a < b" "b \<le> length raw"
    using offset_map_facts [OF assms] by blast
  obtain r where r: "normalized_span ?n (int a) (int b) = Inr r"
    "?meets a b = (case r of None \<Rightarrow> {} | Some (a, b) \<Rightarrow> {a..<b})"
    using normalized_span_facts [of "int a" "int b" raw U k] ab by auto
  have se: "nat s < nat e" "nat e \<le> length (nt_spans ?n)" using assms n(3) by (auto simp: normalize_text_def)
  have "a = fst (nt_spans ?n ! nat s)" "b = snd (nt_spans ?n ! (nat e - 1))"
    using ab(1) by (auto simp: raw_span_def span_range_def split: if_splits)
  have "{nat s..<nat e} \<subseteq> ?meets a b"
  proof
    fix i assume i: "i \<in> {nat s..<nat e}"
    have *: "mono_range (nt_spans ?n ! i) (nt_spans ?n ! j)" if "i \<le> j" "j < length (nt_spans ?n)" for i j
      using that n(4) by (cases "i = j") (auto simp: sorted_wrt_iff_nth_less mono_range_def)
    have "nt_spans ?n ! i \<in> set (nt_spans ?n)" using i se by auto
    moreover have "i \<le> nat e - 1" "nat e - 1 < length (nt_spans ?n)" using i se by auto
    ultimately show "i \<in> ?meets a b"
      using n(5) [of "nt_spans ?n ! i"] * [of "nat s" i] * [of i "nat e - 1"] i se
      unfolding \<open>a = _\<close> \<open>b = _\<close> by (auto simp: meets_def mono_range_def normalize_text_def n(3))
  qed
  moreover have "nat s \<in> {nat s..<nat e}" "nat e - 1 \<in> {nat s..<nat e}" using se(1) by auto
  ultimately have mem: "nat s \<in> ?meets a b" "nat e - 1 \<in> ?meets a b" by blast+
  then obtain s' e' where se': "r = Some (s', e')" using r(2) by (cases r) auto
  with r(2) have m: "?meets a b = {s'..<e'}" by simp
  with mem have in_range: "nat s \<in> {s'..<e'}" "nat e - 1 \<in> {s'..<e'}" by simp_all
  then have "s' \<le> nat s" "nat e \<le> e'" by auto
  moreover have "e' - 1 \<in> {s'..<e'}" using in_range by auto
  then have "e' - 1 < length (normalize_text U k raw)" unfolding m [symmetric] by simp
  then have "e' \<le> length (normalize_text U k raw)" by simp
  ultimately show ?thesis using ab(1) r(1) se' by blast
qed

text \<open>
  Also proved (code_survives): the code spans of the normalized text are, one by one, the fenced
  blocks of the raw text: the same characters, and a code span maps back to exactly its block.
\<close>

theorem code_survives:
  "list_all2 (\<lambda>b (s, e). slice (normalize_text U k raw) s e = tb_text b \<and>
      raw_span (normalize_with_mapping U k raw) (int s) (int e) = Inr (tb_start b, tb_end b) \<and>
      raw_slice (normalize_with_mapping U k raw) (int s) (int e) = Inr (tb_text b))
    (code_blocks U k raw) (nt_code_spans (normalize_with_mapping U k raw))"
proof -
  let ?n = "normalize_with_mapping U k raw"
  note n = normalize_facts [where U = U and k = k and raw = raw]
  have "slice (nt_text ?n) s e = tb_text b \<and> raw_span ?n (int s) (int e) = Inr (tb_start b, tb_end b) \<and>
      raw_slice ?n (int s) (int e) = Inr (tb_text b)"
    if "b \<in> set (code_blocks U k raw)" "s < e" "e \<le> length (nt_text ?n)" "slice (nt_text ?n) s e = tb_text b"
      and spans: "slice (nt_spans ?n) s e = map (\<lambda>i. (i, Suc i)) [tb_start b..<tb_end b]" for b s e
  proof -
    from that(1) have b: "b \<in> set (blocks_for U k raw)" by (simp add: code_blocks_def)
    have "length (slice (nt_spans ?n) s e) = e - s" using that(3) n(3) by simp
    then have len: "tb_end b - tb_start b = e - s" by (simp add: spans)
    have nth: "nt_spans ?n ! (s + i) = (tb_start b + i, Suc (tb_start b + i))" if "i < e - s" for i
      using slice_nth [of i e s "nt_spans ?n"] that \<open>e \<le> _\<close> n(3) len by (simp add: spans)
    from nth [of 0] nth [of "e - s - 1"] that(2) len
    have "span_range ?n s e = (tb_start b, tb_end b)" by (simp add: span_range_def)
    with that(2-4) show ?thesis by (simp add: raw_span_def raw_slice_def n(1) blocks_for_cut [OF b])
  qed
  then show ?thesis
    unfolding normalize_text_def using n(6) by (auto elim!: list.rel_mono_strong)
qed

section \<open>A concrete text\<close>

text \<open>\<open>"  Ab\<^bold>\<open>TAB\<close> c"\<close>, a fence around \<open>X\<close>, and a word of Arabic letters with a diacritic.\<close>

definition demo_raw :: ustr where
  "demo_raw = [32, 32, 65, 98, 9, 32, 99, 10] @ lit ''```'' @ [10, 88, 10] @ lit ''```'' @ [10, 1603, 1614, 1610]"

lemma demo_normalized:
  "normalize_text demo_unidb default_contract demo_raw =
     lit ''ab c '' @ lit ''```'' @ [10, 88, 10] @ lit ''```'' @ [10, 1705, 1740]"
  by code_simp

lemma demo_length: "int (length (normalize_text demo_unidb default_contract demo_raw)) = 17" "length demo_raw = 21"
  by (simp only: demo_normalized, simp) (simp add: demo_raw_def)

theorem offset_map_wellformed_witness:
  "\<exists>a b. raw_span (normalize_with_mapping demo_unidb default_contract demo_raw) 1 4 = Inr (a, b) \<and> a < b \<and> b \<le> 21"
  using offset_map_wellformed [of 1 4 demo_unidb default_contract demo_raw] by (auto simp: demo_length)

theorem normalized_span_exhaustive_witness:
  "\<exists>r. normalized_span (normalize_with_mapping demo_unidb default_contract demo_raw) 4 7 = Inr r"
  using normalized_span_exhaustive [of 4 7 demo_raw demo_unidb default_contract] by (auto simp: demo_length)

theorem offset_roundtrip_witness:
  "\<exists>a b s' e'. raw_span (normalize_with_mapping demo_unidb default_contract demo_raw) 2 4 = Inr (a, b) \<and>
     normalized_span (normalize_with_mapping demo_unidb default_contract demo_raw) (int a) (int b) = Inr (Some (s', e')) \<and>
     s' \<le> 2 \<and> 4 \<le> e'"
  using offset_roundtrip [of 2 4 demo_unidb default_contract demo_raw] by (auto simp: demo_length)

end
