(* ===== verification/TextTokens.thy ===== *)
theory TextTokens
  imports TextNormalize
begin

text \<open>
  Token boundaries and the matching of tokens and phrases (\<open>textsemantics/tokens.py\<close>,
  \<open>lexicon.py\<close>, \<open>polarity.py\<close>).  A haystack is a normalized text; \<open>resolve_text\<close> is what the
  operations do with a plain string first.  A needle is normalized by the default contract.
\<close>

section \<open>Tokens\<close>

definition PHRASE_SEPARATORS :: "codepoint list" where
  "PHRASE_SEPARATORS = [95, 45, 39, 8217]"

definition IDENTIFIER_CONNECTORS :: "codepoint list" where
  "IDENTIFIER_CONNECTORS = [95, 45, 46]"

record token =
  tk_text :: ustr
  tk_key :: ustr
  tk_index :: nat
  tk_start :: nat
  tk_end :: nat
  tk_raw_start :: nat
  tk_raw_end :: nat
  tk_in_code :: bool

record lexical_match =
  lm_text :: ustr
  lm_evidence :: ustr
  lm_raw_start :: nat
  lm_raw_end :: nat
  lm_token_start :: nat
  lm_token_end :: nat

text \<open>The scan from position \<open>i\<close>, inside a token that began at \<open>s\<close> or outside.\<close>

fun token_spans :: "unidb \<Rightarrow> nat \<Rightarrow> nat option \<Rightarrow> ustr \<Rightarrow> (nat \<times> nat) list" where
  "token_spans U i None [] = []"
| "token_spans U i (Some s) [] = [(s, i)]"
| "token_spans U i st (c # cs) =
     (if is_alnum U c then token_spans U (Suc i) (Some (case st of None \<Rightarrow> i | Some s \<Rightarrow> s)) cs
      else (case st of
              None \<Rightarrow> token_spans U (Suc i) None cs
            | Some s \<Rightarrow> (if is_combining U c then token_spans U (Suc i) (Some s) cs
                else (s, i) # token_spans U (Suc i) None cs)))"

definition token_of :: "unidb \<Rightarrow> normalized \<Rightarrow> nat \<times> nat \<times> nat \<Rightarrow> token" where
  "token_of U n p =
     (case p of (i, s, e) \<Rightarrow>
        (let (rs, re) = span_range n s e; txt = slice (nt_text n) s e; code = is_code n s in
         \<lparr>tk_text = txt, tk_key = (if code then normalize_text U (nt_contract n) txt else txt),
          tk_index = i, tk_start = s, tk_end = e, tk_raw_start = rs, tk_raw_end = re, tk_in_code = code\<rparr>))"

definition all_tokens :: "unidb \<Rightarrow> normalized \<Rightarrow> token list" where
  "all_tokens U n = map (token_of U n) (enumerate0 (token_spans U 0 None (nt_text n)))"

definition tokenize :: "unidb \<Rightarrow> normalized \<Rightarrow> bool \<Rightarrow> token list" where
  "tokenize U n include_code =
     (if include_code then all_tokens U n else filter (\<lambda>t. \<not> tk_in_code t) (all_tokens U n))"

definition resolve_text :: "unidb \<Rightarrow> ustr \<Rightarrow> normalized" where
  "resolve_text U raw = normalize_with_mapping U default_contract raw"

section \<open>Matching\<close>

definition phrase_tokens :: "unidb \<Rightarrow> ustr \<Rightarrow> ustr list" where
  "phrase_tokens U phrase = map tk_key (tokenize U (resolve_text U phrase) False)"

definition gap_of :: "normalized \<Rightarrow> token \<Rightarrow> token \<Rightarrow> ustr" where
  "gap_of n a b = slice (nt_text n) (tk_end a) (tk_start b)"

fun adjacent :: "unidb \<Rightarrow> normalized \<Rightarrow> token list \<Rightarrow> bool" where
  "adjacent U n (a # b # ts) \<longleftrightarrow> tk_index b = tk_index a + 1 \<and>
     \<not> list_ex (\<lambda>c. c \<notin> set PHRASE_SEPARATORS \<and> \<not> is_space U c) (gap_of n a b) \<and> adjacent U n (b # ts)"
| "adjacent U n _ \<longleftrightarrow> True"

definition connector_joined :: "normalized \<Rightarrow> token \<Rightarrow> token \<Rightarrow> bool" where
  "connector_joined n a b \<longleftrightarrow> tk_index b = tk_index a + 1 \<and> tk_in_code a = tk_in_code b \<and>
     (case gap_of n a b of [c] \<Rightarrow> c \<in> set IDENTIFIER_CONNECTORS | _ \<Rightarrow> False)"

definition span_match :: "normalized \<Rightarrow> token list \<Rightarrow> lexical_match" where
  "span_match n window =
     (let a = hd window; b = last window in
      \<lparr>lm_text = slice (nt_text n) (tk_start a) (tk_end b),
       lm_evidence = slice (nt_raw n) (tk_raw_start a) (tk_raw_end b),
       lm_raw_start = tk_raw_start a, lm_raw_end = tk_raw_end b,
       lm_token_start = tk_index a, lm_token_end = tk_index b + 1\<rparr>)"

definition window :: "token list \<Rightarrow> nat \<Rightarrow> nat \<Rightarrow> token list" where
  "window ts width i = slice ts i (i + width)"

definition window_matches :: "unidb \<Rightarrow> normalized \<Rightarrow> token list \<Rightarrow> ustr list \<Rightarrow> nat \<Rightarrow> bool" where
  "window_matches U n ts needle i \<longleftrightarrow>
     map tk_key (window ts (length needle) i) = needle \<and> adjacent U n (window ts (length needle) i)"

definition match_tokens :: "unidb \<Rightarrow> normalized \<Rightarrow> token list \<Rightarrow> ustr list \<Rightarrow> lexical_match option" where
  "match_tokens U n ts needle =
     (if needle = [] \<or> length ts < length needle then None
      else map_option (\<lambda>i. span_match n (window ts (length needle) i))
        (List.find (window_matches U n ts needle) [0..<length ts - length needle + 1]))"

definition match_all_tokens :: "unidb \<Rightarrow> normalized \<Rightarrow> token list \<Rightarrow> ustr list \<Rightarrow> lexical_match list" where
  "match_all_tokens U n ts needle =
     (if needle = [] \<or> length ts < length needle then []
      else map (\<lambda>i. span_match n (window ts (length needle) i))
        (filter (window_matches U n ts needle) [0..<length ts - length needle + 1]))"

definition find_phrase :: "unidb \<Rightarrow> normalized \<Rightarrow> ustr \<Rightarrow> bool \<Rightarrow> lexical_match option" where
  "find_phrase U n phrase code = match_tokens U n (tokenize U n code) (phrase_tokens U phrase)"

definition contains_phrase :: "unidb \<Rightarrow> normalized \<Rightarrow> ustr \<Rightarrow> bool \<Rightarrow> bool" where
  "contains_phrase U n phrase code \<longleftrightarrow> find_phrase U n phrase code \<noteq> None"

text \<open>The number of tokens of a needle that is not a single one is the error.\<close>

definition find_token :: "unidb \<Rightarrow> normalized \<Rightarrow> ustr \<Rightarrow> bool \<Rightarrow> (nat, lexical_match option) result" where
  "find_token U n needle code =
     (let w = length (phrase_tokens U needle) in
      if w \<noteq> 1 then Inl w else Inr (find_phrase U n needle code))"

definition contains_token :: "unidb \<Rightarrow> normalized \<Rightarrow> ustr \<Rightarrow> bool \<Rightarrow> (nat, bool) result" where
  "contains_token U n needle code = rbind (find_token U n needle code) (\<lambda>m. Inr (m \<noteq> None))"

definition match_key :: "lexical_match \<Rightarrow> nat \<times> int" where
  "match_key m = (lm_token_start m, - int (lm_token_end m))"

definition better_match :: "lexical_match option \<Rightarrow> lexical_match option \<Rightarrow> lexical_match option" where
  "better_match best m =
     (case m of None \<Rightarrow> best
      | Some x \<Rightarrow> (case best of None \<Rightarrow> Some x
          | Some b \<Rightarrow> (if match_key x < match_key b then Some x else Some b)))"

definition find_any_phrase :: "unidb \<Rightarrow> normalized \<Rightarrow> ustr list \<Rightarrow> bool \<Rightarrow> lexical_match option" where
  "find_any_phrase U n phrases code =
     (let ts = tokenize U n code in
      foldl (\<lambda>best p. better_match best (match_tokens U n ts (phrase_tokens U p))) None phrases)"

definition contains_any_phrase :: "unidb \<Rightarrow> normalized \<Rightarrow> ustr list \<Rightarrow> bool \<Rightarrow> bool" where
  "contains_any_phrase U n phrases code \<longleftrightarrow> find_any_phrase U n phrases code \<noteq> None"

fun keep_free :: "nat \<Rightarrow> lexical_match list \<Rightarrow> lexical_match list" where
  "keep_free consumed [] = []"
| "keep_free consumed (m # ms) =
     (if lm_token_start m < consumed then keep_free consumed ms else m # keep_free (lm_token_end m) ms)"

definition resolve_overlaps :: "lexical_match list \<Rightarrow> lexical_match list" where
  "resolve_overlaps ms = keep_free 0 (sort_key match_key ms)"

definition find_all_phrases :: "unidb \<Rightarrow> normalized \<Rightarrow> ustr list \<Rightarrow> bool \<Rightarrow> lexical_match list" where
  "find_all_phrases U n phrases code =
     (let ts = tokenize U n code in
      resolve_overlaps (concat (map (\<lambda>p. match_all_tokens U n ts (phrase_tokens U p)) phrases)))"

definition identifier_step ::
  "normalized \<Rightarrow> token list \<Rightarrow> lexical_match list \<times> nat \<Rightarrow> nat \<Rightarrow> lexical_match list \<times> nat" where
  "identifier_step n ts st i =
     (case st of (ms, run) \<Rightarrow>
        (if i < length ts \<and> connector_joined n (ts ! (i - 1)) (ts ! i) then (ms, run)
         else (if 1 < i - run then ms @ [span_match n (slice ts run i)] else ms, i)))"

definition identifier_phrases :: "unidb \<Rightarrow> normalized \<Rightarrow> bool \<Rightarrow> lexical_match list" where
  "identifier_phrases U n code =
     (let ts = tokenize U n code in fst (foldl (identifier_step n ts) ([], 0) [1..<length ts + 1]))"

text \<open>A named lexicon is its phrases; a search is \<open>find_any_phrase\<close>.\<close>

record lexicon =
  lx_name :: string
  lx_phrases :: "ustr list"

definition lexicon_search :: "unidb \<Rightarrow> lexicon \<Rightarrow> normalized \<Rightarrow> bool \<Rightarrow> lexical_match option" where
  "lexicon_search U lx n code = find_any_phrase U n (lx_phrases lx) code"

definition lexicon_matches :: "unidb \<Rightarrow> lexicon \<Rightarrow> normalized \<Rightarrow> bool \<Rightarrow> bool" where
  "lexicon_matches U lx n code \<longleftrightarrow> lexicon_search U lx n code \<noteq> None"

section \<open>Polarity\<close>

datatype polarity = AFFIRMED | NEGATED | UNKNOWN_POLARITY

fun polarity_value :: "polarity \<Rightarrow> string" where
  "polarity_value AFFIRMED = ''affirmed''"
| "polarity_value NEGATED = ''negated''"
| "polarity_value UNKNOWN_POLARITY = ''unknown''"

definition NEGATION_PHRASES :: "ustr list" where
  "NEGATION_PHRASES =
    [lit ''not'', lit ''never'', lit ''cannot'', lit ''do not'', lit ''does not'',
     lit ''did not'', lit ''will not'', lit ''would not'', lit ''should not'', lit ''must not'',
     lit ''is not'', lit ''are not'', lit ''was not'', lit ''were not'', lit ''has not'',
     lit ''have not'', lit ''had not'', lit ''dont'', lit ''doesnt'', lit ''didnt'',
     lit ''wont'', lit ''cant'', lit ''isnt'', lit ''arent'', lit ''wasnt'', lit ''werent'',
     lit ''hasnt'', lit ''havent'', lit ''hadnt'', lit ''shouldnt'', lit ''wouldnt'',
     lit ''mustnt'', lit ''couldnt'', [1606, 1576, 1575, 1740, 1583], [1607, 1585, 1711, 1586],
     [1606, 1705, 1606], [1606, 1705, 1606, 1740, 1583], [1606, 1705, 1606, 1740, 1605],
     [1606, 1740, 1587, 1578], [1606, 1740, 1587, 1578, 1606, 1583],
     [1606, 1583, 1575, 1585, 1583], [1606, 1583, 1575, 1585, 1605],
     [1606, 1583, 1575, 1585, 1740, 1605], [1606, 1583, 1575, 1585, 1740, 1583],
     [1606, 1582, 1608, 1575, 1607, 1605], [1606, 1582, 1608, 1575, 1607, 1583],
     [1606, 1705, 1585, 1583, 1607], [1606, 1588, 1583, 1607], [1606, 1605, 1740]]"

definition NEGATION_CONTRACTIONS :: "ustr list" where
  "NEGATION_CONTRACTIONS =
    [lit ''don t'', lit ''doesn t'', lit ''didn t'', lit ''won t'', lit ''can t'',
     lit ''isn t'', lit ''aren t'', lit ''wasn t'', lit ''weren t'', lit ''hasn t'',
     lit ''haven t'', lit ''hadn t'', lit ''shouldn t'', lit ''wouldn t'', lit ''mustn t'',
     lit ''couldn t'']"

definition NEGATION_TOKEN_PREFIXES :: "ustr list" where
  "NEGATION_TOKEN_PREFIXES =
    [[1606, 1605, 1740]]"

definition HYPOTHETICAL_PHRASES :: "ustr list" where
  "HYPOTHETICAL_PHRASES =
    [lit ''if'', lit ''suppose'', lit ''hypothetically'', lit ''assuming'', [1575, 1711, 1585],
     [1601, 1585, 1590, 32, 1705, 1606, 1740, 1605],
     [1601, 1585, 1590, 32, 1705, 1606, 1740, 1583], [1575, 1581, 1578, 1605, 1575, 1604, 1575]]"

record polarity_result =
  pr_polarity :: polarity
  pr_marker :: "ustr option"
  pr_evidence :: "ustr option"
  pr_raw_start :: "nat option"
  pr_raw_end :: "nat option"

definition bare_polarity :: "polarity \<Rightarrow> polarity_result" where
  "bare_polarity p = \<lparr>pr_polarity = p, pr_marker = None, pr_evidence = None, pr_raw_start = None, pr_raw_end = None\<rparr>"

definition negated_by :: "ustr \<Rightarrow> ustr \<Rightarrow> nat \<Rightarrow> nat \<Rightarrow> polarity_result" where
  "negated_by marker evidence s e = \<lparr>pr_polarity = NEGATED, pr_marker = Some marker,
     pr_evidence = Some evidence, pr_raw_start = Some s, pr_raw_end = Some e\<rparr>"

text \<open>The first prefix a token starts with, if the token is longer than the prefix.\<close>

definition negating_prefix :: "token \<Rightarrow> ustr option" where
  "negating_prefix t =
     (case List.find (\<lambda>p. starts_with (tk_text t) p) NEGATION_TOKEN_PREFIXES of
        None \<Rightarrow> None | Some p \<Rightarrow> (if tk_text t = p then None else Some p))"

definition extract_polarity :: "unidb \<Rightarrow> normalized \<Rightarrow> polarity_result" where
  "extract_polarity U n =
     (let ts = tokenize U n False in
      if ts = [] then bare_polarity UNKNOWN_POLARITY
      else (case find_any_phrase U n (NEGATION_PHRASES @ NEGATION_CONTRACTIONS) False of
              Some m \<Rightarrow> negated_by (lm_text m) (lm_evidence m) (lm_raw_start m) (lm_raw_end m)
            | None \<Rightarrow>
                (case List.find (\<lambda>t. negating_prefix t \<noteq> None) ts of
                   Some t \<Rightarrow> negated_by (the (negating_prefix t))
                     (slice (nt_raw n) (tk_raw_start t) (tk_raw_end t)) (tk_raw_start t) (tk_raw_end t)
                 | None \<Rightarrow> bare_polarity AFFIRMED)))"

definition is_hypothetical :: "unidb \<Rightarrow> normalized \<Rightarrow> bool" where
  "is_hypothetical U n \<longleftrightarrow> find_any_phrase U n HYPOTHETICAL_PHRASES False \<noteq> None"

definition polarity_from_flag :: "bool option \<Rightarrow> polarity" where
  "polarity_from_flag negated =
     (case negated of None \<Rightarrow> UNKNOWN_POLARITY | Some b \<Rightarrow> (if b then NEGATED else AFFIRMED))"

text \<open>A stored value: a member of the enumeration, a string, or anything else.\<close>

datatype polarity_arg = PolarityMember polarity | PolarityText string | PolarityOther

definition coerce_polarity :: "polarity_arg \<Rightarrow> polarity" where
  "coerce_polarity v =
     (case v of
        PolarityMember p \<Rightarrow> p
      | PolarityText s \<Rightarrow>
          (case List.find (\<lambda>p. polarity_value p = s) [AFFIRMED, NEGATED, UNKNOWN_POLARITY] of
             Some p \<Rightarrow> p | None \<Rightarrow> UNKNOWN_POLARITY)
      | PolarityOther \<Rightarrow> UNKNOWN_POLARITY)"

lemma coerce_polarity_roundtrip [simp]: "coerce_polarity (PolarityText (polarity_value p)) = p"
  by (cases p) (simp_all add: coerce_polarity_def)

section \<open>Tokens are the maximal runs\<close>

definition part_of_token :: "unidb \<Rightarrow> codepoint \<Rightarrow> bool" where
  "part_of_token U c \<longleftrightarrow> is_alnum U c \<or> is_combining U c"

text \<open>A run starts at an alphanumeric character after none and ends where neither kind follows.\<close>

definition token_run :: "unidb \<Rightarrow> ustr \<Rightarrow> nat \<times> nat \<Rightarrow> bool" where
  "token_run U xs p \<longleftrightarrow> fst p < snd p \<and> snd p \<le> length xs \<and> is_alnum U (xs ! fst p) \<and>
     (\<forall>j. fst p \<le> j \<and> j < snd p \<longrightarrow> part_of_token U (xs ! j)) \<and>
     (fst p = 0 \<or> \<not> is_alnum U (xs ! (fst p - 1))) \<and>
     (snd p = length xs \<or> \<not> part_of_token U (xs ! snd p))"

definition scan_start :: "nat \<Rightarrow> nat option \<Rightarrow> nat" where
  "scan_start i st = (case st of None \<Rightarrow> i | Some s \<Rightarrow> s)"

definition scan_ok :: "unidb \<Rightarrow> ustr \<Rightarrow> nat \<Rightarrow> nat option \<Rightarrow> bool" where
  "scan_ok U xs i st \<longleftrightarrow>
     (case st of
        None \<Rightarrow> i = 0 \<or> \<not> is_alnum U (xs ! (i - 1))
      | Some s \<Rightarrow> s < i \<and> is_alnum U (xs ! s) \<and> (\<forall>j. s \<le> j \<and> j < i \<longrightarrow> part_of_token U (xs ! j)) \<and>
          (s = 0 \<or> \<not> is_alnum U (xs ! (s - 1))))"

definition runs_from :: "unidb \<Rightarrow> ustr \<Rightarrow> nat \<Rightarrow> (nat \<times> nat) list \<Rightarrow> bool" where
  "runs_from U xs a ps \<longleftrightarrow> (\<forall>p \<in> set ps. a \<le> fst p \<and> token_run U xs p) \<and>
     sorted_wrt (\<lambda>p q. snd p < fst q) ps \<and>
     (\<forall>j. a \<le> j \<and> j < length xs \<and> is_alnum U (xs ! j) \<longrightarrow> (\<exists>p \<in> set ps. fst p \<le> j \<and> j < snd p))"

lemma runs_from_skip:
  "runs_from U xs (Suc i) ps \<Longrightarrow> \<not> is_alnum U (xs ! i) \<Longrightarrow> runs_from U xs i ps"
  unfolding runs_from_def by (metis Suc_leD Suc_leI le_neq_implies_less)

lemma runs_from_cons:
  assumes "runs_from U xs (Suc i) ps" "token_run U xs (s, i)" "\<not> is_alnum U (xs ! i)"
  shows "runs_from U xs s ((s, i) # ps)"
  unfolding runs_from_def
proof (intro conjI allI impI ballI)
  fix p assume "p \<in> set ((s, i) # ps)"
  with assms(1,2) show "s \<le> fst p" "token_run U xs p" by (auto simp: runs_from_def token_run_def)
next
  show "sorted_wrt (\<lambda>p q. snd p < fst q) ((s, i) # ps)"
    using assms(1) by (auto simp: runs_from_def)
next
  fix j assume j: "s \<le> j \<and> j < length xs \<and> is_alnum U (xs ! j)"
  show "\<exists>p \<in> set ((s, i) # ps). fst p \<le> j \<and> j < snd p"
  proof (cases "j < i")
    case False
    with j assms(3) have "Suc i \<le> j" by (metis le_neq_implies_less not_less not_less_eq_eq)
    with j assms(1) show ?thesis by (auto simp: runs_from_def)
  qed (use j in auto)
qed

lemma token_spans_runs:
  "drop i xs = cs \<Longrightarrow> i \<le> length xs \<Longrightarrow> scan_ok U xs i st \<Longrightarrow>
     runs_from U xs (scan_start i st) (token_spans U i st cs)"
proof (induction U i st cs rule: token_spans.induct)
  case (1 U i)
  then show ?case by (simp add: runs_from_def scan_start_def)
next
  case (2 U i s)
  then have "i = length xs" by simp
  with 2 show ?case by (auto simp: runs_from_def scan_start_def scan_ok_def token_run_def)
next
  case (3 U i st c cs)
  from 3(5) have i: "i < length xs" "xs ! i = c" "drop (Suc i) xs = cs"
    by (auto simp: drop_Suc nth_via_drop tl_drop intro: ccontr) (metis drop_Suc list.sel(3) tl_drop)+
  show ?case
  proof (cases "is_alnum U c")
    case True
    have "scan_ok U xs (Suc i) (Some (case st of None \<Rightarrow> i | Some s \<Rightarrow> s))"
      using 3(7) True i by (auto simp: scan_ok_def part_of_token_def less_Suc_eq split: option.splits)
    from 3(1) [OF True i(3) _ this] i(1) True show ?thesis
      by (cases st) (simp_all add: scan_start_def)
  next
    case False
    show ?thesis
    proof (cases st)
      case None
      have "scan_ok U xs (Suc i) None" using False i by (simp add: scan_ok_def)
      from 3(2) [OF False None i(3) _ this] i(1) have "runs_from U xs (Suc i) (token_spans U (Suc i) None cs)"
        by (simp add: scan_start_def)
      from runs_from_skip [OF this] False i(2) None show ?thesis by (simp add: scan_start_def)
    next
      case (Some s)
      show ?thesis
      proof (cases "is_combining U c")
        case True
        have "scan_ok U xs (Suc i) (Some s)"
          using 3(7) Some True i by (auto simp: scan_ok_def part_of_token_def less_Suc_eq)
        from 3(3) [OF False Some True i(3) _ this] i(1) False True Some show ?thesis
          by (simp add: scan_start_def)
      next
        case c: False
        have "scan_ok U xs (Suc i) None" using False i by (simp add: scan_ok_def)
        from 3(4) [OF False Some c i(3) _ this] i(1) have "runs_from U xs (Suc i) (token_spans U (Suc i) None cs)"
          by (simp add: scan_start_def)
        moreover have "token_run U xs (s, i)"
          using 3(7) Some i False c by (auto simp: token_run_def scan_ok_def part_of_token_def)
        ultimately have "runs_from U xs s ((s, i) # token_spans U (Suc i) None cs)"
          using False i(2) by (intro runs_from_cons) auto
        with False c Some show ?thesis by (simp add: scan_start_def)
      qed
    qed
  qed
qed

lemma token_spans_all: "runs_from U xs 0 (token_spans U 0 None xs)"
  using token_spans_runs [of 0 xs xs U None] by (simp add: scan_ok_def scan_start_def)

lemma token_of_simps [simp]:
  "tk_index (token_of U n (i, p)) = i" "tk_start (token_of U n (i, p)) = fst p" "tk_end (token_of U n (i, p)) = snd p"
  "tk_raw_start (token_of U n (i, p)) = fst (span_range n (fst p) (snd p))"
  "tk_raw_end (token_of U n (i, p)) = snd (span_range n (fst p) (snd p))"
  "tk_text (token_of U n (i, p)) = slice (nt_text n) (fst p) (snd p)" "tk_in_code (token_of U n (i, p)) = is_code n (fst p)"
  by (simp_all add: token_of_def Let_def split: prod.split)

definition token_range :: "token \<Rightarrow> nat \<times> nat" where
  "token_range t = (tk_start t, tk_end t)"

lemma all_tokens_nth:
  "i < length (all_tokens U n) \<Longrightarrow> all_tokens U n ! i = token_of U n (i, token_spans U 0 None (nt_text n) ! i)"
  "length (all_tokens U n) = length (token_spans U 0 None (nt_text n))"
  by (simp_all add: all_tokens_def enumerate0_def nth_enumerate_eq)

lemma token_ranges: "map token_range (all_tokens U n) = token_spans U 0 None (nt_text n)"
  by (rule nth_equalityI) (simp_all add: all_tokens_nth token_range_def)

lemma token_indices: "map tk_index (all_tokens U n) = [0..<length (all_tokens U n)]"
  by (rule nth_equalityI) (simp_all add: all_tokens_nth)

lemma token_range_run:
  "t \<in> set (all_tokens U n) \<Longrightarrow> token_run U (nt_text n) (token_range t)"
  using token_spans_all [of U "nt_text n"] unfolding token_ranges [symmetric] runs_from_def by auto

text \<open>The raw range of a token is the raw range of its normalized range, so it is its evidence.\<close>

lemma token_raw_range:
  assumes "t \<in> set (all_tokens U n)" "n = normalize_with_mapping U k raw"
  shows "raw_span n (int (tk_start t)) (int (tk_end t)) = Inr (tk_raw_start t, tk_raw_end t)"
    "tk_raw_start t < tk_raw_end t" "tk_raw_end t \<le> length raw"
proof -
  from token_range_run [OF assms(1)] have r: "tk_start t < tk_end t" "tk_end t \<le> length (nt_text n)"
    by (simp_all add: token_run_def token_range_def)
  from assms(1) obtain i p where t: "t = token_of U n (i, p)" by (auto simp: all_tokens_def)
  with r show *: "raw_span n (int (tk_start t)) (int (tk_end t)) = Inr (tk_raw_start t, tk_raw_end t)"
    by (simp add: raw_span_def)
  from offset_map_facts [of "int (tk_start t)" "int (tk_end t)" U k raw] r * assms(2)
  show "tk_raw_start t < tk_raw_end t" "tk_raw_end t \<le> length raw" by (auto simp: normalize_text_def)
qed

text \<open>
  Also proved (tokens_are_maximal_runs): the tokens of a text, code included, are numbered in
  order and do not touch; each is a maximal run that starts with an alphanumeric character, and
  every alphanumeric character of the text is in one.  The raw range of each is the raw range of
  its normalized range, non-empty and inside the raw text.
\<close>

theorem tokens_are_maximal_runs:
  fixes U k raw defines "n \<equiv> normalize_with_mapping U k raw"
  shows "map tk_index (tokenize U n True) = [0..<length (tokenize U n True)] \<and>
    sorted_wrt (\<lambda>p q. snd p < fst q) (map token_range (tokenize U n True)) \<and>
    list_all (\<lambda>t. token_run U (nt_text n) (token_range t) \<and> tk_text t = slice (nt_text n) (tk_start t) (tk_end t) \<and>
      raw_span n (int (tk_start t)) (int (tk_end t)) = Inr (tk_raw_start t, tk_raw_end t) \<and>
      tk_raw_start t < tk_raw_end t \<and> tk_raw_end t \<le> length raw) (tokenize U n True) \<and>
    {i. i < length (nt_text n) \<and> is_alnum U (nt_text n ! i)} \<subseteq>
      (\<Union>t \<in> set (tokenize U n True). {tk_start t..<tk_end t})"
proof (intro conjI)
  note runs = token_spans_all [of U "nt_text n", folded token_ranges]
  show "map tk_index (tokenize U n True) = [0..<length (tokenize U n True)]"
    by (simp add: tokenize_def token_indices)
  show "sorted_wrt (\<lambda>p q. snd p < fst q) (map token_range (tokenize U n True))"
    using runs by (simp add: tokenize_def runs_from_def)
  show "list_all (\<lambda>t. token_run U (nt_text n) (token_range t) \<and> tk_text t = slice (nt_text n) (tk_start t) (tk_end t) \<and>
      raw_span n (int (tk_start t)) (int (tk_end t)) = Inr (tk_raw_start t, tk_raw_end t) \<and>
      tk_raw_start t < tk_raw_end t \<and> tk_raw_end t \<le> length raw) (tokenize U n True)"
    using token_range_run [of _ U n] token_raw_range [of _ U n k raw]
    by (auto simp: tokenize_def list_all_iff n_def) (auto simp: all_tokens_def)
  show "{i. i < length (nt_text n) \<and> is_alnum U (nt_text n ! i)} \<subseteq>
      (\<Union>t \<in> set (tokenize U n True). {tk_start t..<tk_end t})"
    using runs by (fastforce simp: tokenize_def runs_from_def token_range_def)
qed

section \<open>Matches\<close>

text \<open>A match is a window of consecutive tokens: it fixes, and is fixed by, its token range.\<close>

lemma tokens_filtered: "tokenize U n code = filter (\<lambda>t. code \<or> \<not> tk_in_code t) (all_tokens U n)"
  by (simp add: tokenize_def)

lemma token_index_sorted: "sorted_wrt (\<lambda>a b. tk_index a < tk_index b) (tokenize U n code)"
proof -
  have "sorted_wrt (<) (map tk_index (all_tokens U n))" unfolding token_indices by simp
  then show ?thesis unfolding tokens_filtered by (intro sorted_wrt_filterI) (simp add: sorted_wrt_map)
qed

lemma adjacent_indices:
  "adjacent U n ts \<Longrightarrow> ts \<noteq> [] \<Longrightarrow> tk_index (last ts) + 1 = tk_index (hd ts) + length ts"
proof (induction ts rule: induct_list012)
  case (3 a b ts)
  then show ?case by auto
qed auto

definition matched_at :: "unidb \<Rightarrow> normalized \<Rightarrow> token list \<Rightarrow> ustr list \<Rightarrow> nat \<Rightarrow> bool" where
  "matched_at U n ts needle i \<longleftrightarrow> needle \<noteq> [] \<and> i + length needle \<le> length ts \<and> window_matches U n ts needle i"

definition match_at :: "normalized \<Rightarrow> token list \<Rightarrow> ustr list \<Rightarrow> nat \<Rightarrow> lexical_match" where
  "match_at n ts needle i = span_match n (window ts (length needle) i)"

lemma match_all_set:
  "set (match_all_tokens U n ts needle) = match_at n ts needle ` {i. matched_at U n ts needle i}"
proof (cases "needle = [] \<or> length ts < length needle")
  case False
  then have "set (filter (window_matches U n ts needle) [0..<length ts - length needle + 1]) =
      {i. matched_at U n ts needle i}"
    by (auto simp: matched_at_def less_Suc_eq_le le_diff_conv2 simp del: upt_Suc)
  moreover have "match_all_tokens U n ts needle =
      map (match_at n ts needle) (filter (window_matches U n ts needle) [0..<length ts - length needle + 1])"
    using False by (simp add: match_all_tokens_def match_at_def)
  ultimately show ?thesis by (simp only: set_map)
qed (auto simp: match_all_tokens_def matched_at_def)

lemma window_facts:
  assumes "matched_at U n ts needle i"
  shows "length (window ts (length needle) i) = length needle" "hd (window ts (length needle) i) = ts ! i"
    "window ts (length needle) i \<noteq> []" "i < length ts"
proof -
  from assms have "0 < length needle" "i + length needle \<le> length ts" by (simp_all add: matched_at_def)
  moreover from this have "i < length ts" by linarith
  ultimately show "length (window ts (length needle) i) = length needle" "hd (window ts (length needle) i) = ts ! i"
    "window ts (length needle) i \<noteq> []" "i < length ts"
    by (auto simp: window_def slice_def hd_drop_conv_nth)
qed

lemma match_at_range:
  assumes "matched_at U n ts needle i"
  shows "lm_token_start (match_at n ts needle i) = tk_index (ts ! i)"
    "lm_token_end (match_at n ts needle i) = tk_index (ts ! i) + length needle"
  using window_facts [OF assms] adjacent_indices [of U n "window ts (length needle) i"] assms
  by (simp_all add: match_at_def span_match_def Let_def matched_at_def window_matches_def)

lemma match_at_determined:
  assumes "matched_at U n ts p i" "matched_at U n ts q j" "sorted_wrt (\<lambda>a b. tk_index a < tk_index b) ts"
    and "match_key (match_at n ts p i) = match_key (match_at n ts q j)"
  shows "match_at n ts p i = match_at n ts q j"
proof -
  from assms(4) match_at_range [OF assms(1)] match_at_range [OF assms(2)]
  have "tk_index (ts ! i) = tk_index (ts ! j)" "length p = length q" by (auto simp: match_key_def)
  moreover from assms(3) window_facts(4) [OF assms(1)] window_facts(4) [OF assms(2)] this(1) have "i = j"
    by (metis less_irrefl linorder_neqE_nat sorted_wrt_nth_less)
  ultimately show ?thesis by (simp add: match_at_def)
qed

text \<open>Both searches see the same matches; the first of a needle is its leftmost.\<close>

definition any_match :: "unidb \<Rightarrow> normalized \<Rightarrow> token list \<Rightarrow> ustr list list \<Rightarrow> lexical_match set" where
  "any_match U n ts needles = (\<Union>p \<in> set needles. match_at n ts p ` {i. matched_at U n ts p i})"

lemma match_tokens_first:
  "match_tokens U n ts needle = None \<longleftrightarrow> {i. matched_at U n ts needle i} = {}"
  "match_tokens U n ts needle = Some m \<Longrightarrow>
     \<exists>i. matched_at U n ts needle i \<and> m = match_at n ts needle i \<and> (\<forall>j. matched_at U n ts needle j \<longrightarrow> i \<le> j)"
proof -
  let ?is = "[0..<length ts - length needle + 1]"
  have iff: "i \<in> set ?is \<and> window_matches U n ts needle i \<longleftrightarrow> matched_at U n ts needle i"
    if "\<not> (needle = [] \<or> length ts < length needle)" for i
    using that by (auto simp: matched_at_def less_Suc_eq_le le_diff_conv2 simp del: upt_Suc)
  show "match_tokens U n ts needle = None \<longleftrightarrow> {i. matched_at U n ts needle i} = {}"
  proof (cases "needle = [] \<or> length ts < length needle")
    case False
    with iff show ?thesis by (auto simp: match_tokens_def find_None_iff simp del: upt_Suc set_upt)
  qed (auto simp: match_tokens_def matched_at_def)
  assume m: "match_tokens U n ts needle = Some m"
  then have ok: "\<not> (needle = [] \<or> length ts < length needle)" by (auto simp: match_tokens_def)
  with m obtain i where i: "List.find (window_matches U n ts needle) ?is = Some i" "m = match_at n ts needle i"
    by (auto simp: match_tokens_def match_at_def simp del: upt_Suc)
  then obtain k where k: "k < length ?is" "window_matches U n ts needle (?is ! k)" "i = ?is ! k"
    "\<forall>j < k. \<not> window_matches U n ts needle (?is ! j)"
    by (auto simp: find_Some_iff simp del: upt_Suc)
  have nth: "?is ! j = j" if "j < length ?is" for j using that by (simp del: upt_Suc)
  from k(1,3) nth have "i = k" by simp
  moreover have "i \<le> j" if j: "matched_at U n ts needle j" for j
  proof (rule ccontr)
    assume "\<not> i \<le> j"
    with \<open>i = k\<close> k(1) have "j < k" "?is ! j = j" using nth by auto
    with k(4) iff [OF ok, of j] j show False by metis
  qed
  moreover have "matched_at U n ts needle i"
    using k(1-3) iff [OF ok, of i] nth_mem [OF k(1)] by simp
  ultimately show "\<exists>i. matched_at U n ts needle i \<and> m = match_at n ts needle i \<and>
      (\<forall>j. matched_at U n ts needle j \<longrightarrow> i \<le> j)" using i(2) by blast
qed

lemma match_first_least:
  assumes "matched_at U n ts p i" "matched_at U n ts p j" "i \<le> j" "sorted_wrt (\<lambda>a b. tk_index a < tk_index b) ts"
  shows "match_key (match_at n ts p i) \<le> match_key (match_at n ts p j)"
proof -
  have "tk_index (ts ! i) \<le> tk_index (ts ! j)"
    using assms(3,4) window_facts(4) [OF assms(2)] sorted_wrt_nth_less [OF assms(4), of i j] by (cases "i = j") auto
  then show ?thesis using match_at_range [OF assms(1)] match_at_range [OF assms(2)]
    by (auto simp: match_key_def less_eq_prod_def)
qed

definition least_match :: "lexical_match set \<Rightarrow> lexical_match option \<Rightarrow> bool" where
  "least_match M r \<longleftrightarrow> (case r of None \<Rightarrow> M = {} | Some m \<Rightarrow> m \<in> M \<and> (\<forall>x \<in> M. match_key m \<le> match_key x))"

lemma better_match_least:
  "least_match M a \<Longrightarrow> least_match N b \<Longrightarrow> least_match (M \<union> N) (better_match a b)"
  by (fastforce simp: least_match_def better_match_def split: option.splits)

lemma match_tokens_least:
  assumes "sorted_wrt (\<lambda>a b. tk_index a < tk_index b) ts"
  shows "least_match (match_at n ts p ` {i. matched_at U n ts p i}) (match_tokens U n ts p)"
proof (cases "match_tokens U n ts p")
  case None
  then show ?thesis using match_tokens_first(1) [of U n ts p] by (simp add: least_match_def)
next
  case (Some m)
  from match_tokens_first(2) [OF Some] obtain i where i: "matched_at U n ts p i" "m = match_at n ts p i"
    "\<forall>j. matched_at U n ts p j \<longrightarrow> i \<le> j" by blast
  then show ?thesis using match_first_least [OF i(1) _ _ assms] by (auto simp: least_match_def Some)
qed

lemma any_phrase_least:
  "least_match (any_match U n (tokenize U n code) (map (phrase_tokens U) phrases)) (find_any_phrase U n phrases code)"
proof -
  let ?ts = "tokenize U n code"
  have "least_match (M \<union> any_match U n ?ts (map (phrase_tokens U) phrases))
      (foldl (\<lambda>best p. better_match best (match_tokens U n ?ts (phrase_tokens U p))) r phrases)"
    if "least_match M r" for M r
    using that
  proof (induction phrases arbitrary: M r)
    case Nil
    then show ?case by (simp add: any_match_def)
  next
    case (Cons p ps)
    from Cons.IH [OF better_match_least [OF Cons.prems match_tokens_least [OF token_index_sorted]]]
    show ?case by (simp add: any_match_def Un_assoc)
  qed
  from this [of "{}" None] show ?thesis by (simp add: least_match_def find_any_phrase_def Let_def)
qed

lemma keep_free_spec:
  "sorted_wrt (\<lambda>a b. match_key a \<le> match_key b) ms \<Longrightarrow> (\<And>m. m \<in> set ms \<Longrightarrow> lm_token_start m < lm_token_end m) \<Longrightarrow>
   set (keep_free c ms) \<subseteq> set ms \<and> (\<forall>m \<in> set (keep_free c ms). c \<le> lm_token_start m) \<and>
   sorted_wrt (\<lambda>a b. lm_token_end a \<le> lm_token_start b) (keep_free c ms) \<and>
   (\<forall>x \<in> set ms. lm_token_start x < c \<or>
      (\<exists>m \<in> set (keep_free c ms). match_key m \<le> match_key x \<and> lm_token_start x < lm_token_end m))"
proof (induction ms arbitrary: c)
  case (Cons m ms)
  have s: "sorted_wrt (\<lambda>a b. match_key a \<le> match_key b) ms" "\<And>x. x \<in> set ms \<Longrightarrow> match_key m \<le> match_key x"
    using Cons.prems(1) by auto
  note IH = Cons.IH [OF s(1) Cons.prems(2)]
  show ?case
  proof (cases "lm_token_start m < c")
    case True
    with IH [of c] show ?thesis by fastforce
  next
    case False
    let ?k = "keep_free (lm_token_end m) ms"
    have "lm_token_start m < lm_token_end m" using Cons.prems(2) by simp
    moreover have "(\<exists>k \<in> set (m # ?k). match_key k \<le> match_key x \<and> lm_token_start x < lm_token_end k)"
      if "x \<in> set (m # ms)" for x
      using that IH [of "lm_token_end m"] s(2) \<open>lm_token_start m < lm_token_end m\<close> by fastforce
    ultimately show ?thesis using False IH [of "lm_token_end m"] by fastforce
  qed
qed simp

lemma keep_free_hd: "ms \<noteq> [] \<Longrightarrow> hd (keep_free 0 ms) = hd ms \<and> keep_free 0 ms \<noteq> []"
  by (cases ms) simp_all

text \<open>
  Also proved (phrases_leftmost_longest): what is reported of all phrases is disjoint and in
  order, consists of matches, and every match starts inside a reported one that starts no later
  and, starting together, is at least as long.  The search for any phrase returns the first of
  them, and nothing exactly when there is none.
\<close>

theorem phrases_leftmost_longest:
  fixes U n phrases code
  defines "found \<equiv> find_all_phrases U n phrases code"
    and "matches \<equiv> any_match U n (tokenize U n code) (map (phrase_tokens U) phrases)"
  shows "sorted_wrt (\<lambda>a b. lm_token_end a \<le> lm_token_start b) found \<and> set found \<subseteq> matches \<and>
    matches \<subseteq> {x. \<exists>m \<in> set found. match_key m \<le> match_key x \<and> lm_token_start x < lm_token_end m} \<and>
    find_any_phrase U n phrases code = (case found of [] \<Rightarrow> None | m # _ \<Rightarrow> Some m)"
proof -
  let ?ts = "tokenize U n code"
  define ms where "ms = sort_key match_key (concat (map (\<lambda>p. match_all_tokens U n ?ts (phrase_tokens U p)) phrases))"
  have found: "found = keep_free 0 ms" by (simp add: found_def ms_def find_all_phrases_def resolve_overlaps_def Let_def)
  have ms: "set ms = matches" by (auto simp: ms_def matches_def any_match_def match_all_set)
  have sorted: "sorted_wrt (\<lambda>a b. match_key a \<le> match_key b) ms"
    using sorted_sort_key [of match_key] by (simp add: ms_def sorted_wrt_map)
  have det: "x = y" if xy: "x \<in> matches" "y \<in> matches" "match_key x = match_key y" for x y
    using xy match_at_determined [OF _ _ token_index_sorted] by (auto simp: matches_def any_match_def)
  have "lm_token_start m < lm_token_end m" if "m \<in> set ms" for m
    using that unfolding ms matches_def any_match_def by (auto simp: match_at_range matched_at_def)
  from keep_free_spec [OF sorted this, of 0]
  have 1: "sorted_wrt (\<lambda>a b. lm_token_end a \<le> lm_token_start b) found" "set found \<subseteq> matches"
    "matches \<subseteq> {x. \<exists>m \<in> set found. match_key m \<le> match_key x \<and> lm_token_start x < lm_token_end m}"
    by (auto simp: found ms)
  have least: "least_match matches (find_any_phrase U n phrases code)"
    unfolding matches_def by (rule any_phrase_least)
  have "find_any_phrase U n phrases code = (case found of [] \<Rightarrow> None | m # _ \<Rightarrow> Some m)"
  proof (cases "ms = []")
    case True
    with least ms show ?thesis by (auto simp: found least_match_def split: option.splits)
  next
    case False
    then have hd: "hd ms \<in> matches" "\<forall>x \<in> matches. match_key (hd ms) \<le> match_key x"
      using sorted by (auto simp: ms [symmetric], cases ms, auto)
    with least obtain m where m: "find_any_phrase U n phrases code = Some m" "m \<in> matches"
      "\<forall>x \<in> matches. match_key m \<le> match_key x" by (auto simp: least_match_def split: option.splits)
    with hd have "match_key m = match_key (hd ms)" by (meson antisym)
    with det m(2) hd(1) have "m = hd ms" by blast
    with m(1) keep_free_hd [OF False] show ?thesis by (cases "keep_free 0 ms") (simp_all add: found)
  qed
  with 1 show ?thesis by blast
qed

end
