(* ===== verification/PyRegex.thy ===== *)
theory PyRegex
  imports PyText
begin

text \<open>
  The part of Python's \<open>re\<close> that the code uses: character classes, sequences, alternatives,
  greedy repetition, the assertions \<open>\b\<close>, \<open>^\<close>, \<open>$\<close> and look-around of one class.  \<open>ends r s i\<close> lists
  the positions where a match of \<open>r\<close> started at \<open>i\<close> can stop, in the order in which the
  backtracking matcher tries them, so that its first member is where \<open>match\<close> and \<open>search\<close> stop.
  No pattern of the code has a repeated group that can match the empty text, which is where the
  library's own treatment of repetition is more delicate.
\<close>

section \<open>Patterns\<close>

datatype regex =
    Cls "codepoint \<Rightarrow> bool"
  | Emp
  | Seq regex regex
  | Alt regex regex
  | Rep regex nat "nat option"        \<comment> \<open>\<open>{lo,}\<close> and \<open>{lo,hi}\<close>, greedy\<close>
  | Behind "(codepoint option \<Rightarrow> bool)" \<comment> \<open>a condition on the character before, if any\<close>
  | Ahead "(codepoint option \<Rightarrow> bool)"  \<comment> \<open>a condition on the character after, if any\<close>
  | Boundary "codepoint \<Rightarrow> bool"      \<comment> \<open>\<open>\b\<close> for a class of word characters\<close>

definition char_at :: "ustr \<Rightarrow> nat \<Rightarrow> codepoint option" where
  "char_at s i = (if i < length s then Some (s ! i) else None)"

definition char_before :: "ustr \<Rightarrow> nat \<Rightarrow> codepoint option" where
  "char_before s i = (if 0 < i \<and> i \<le> length s then Some (s ! (i - 1)) else None)"

definition holds :: "('a \<Rightarrow> bool) \<Rightarrow> 'a option \<Rightarrow> bool" where
  "holds P x = (case x of None \<Rightarrow> False | Some c \<Rightarrow> P c)"

lemma holds_simps [simp]: "holds P None = False" "holds P (Some c) = P c"
  by (simp_all add: holds_def)

section \<open>Matching\<close>

text \<open>Greedy repetition: one more round first, if it makes progress, then stop.\<close>

fun repeat_from :: "(nat \<Rightarrow> nat list) \<Rightarrow> nat \<Rightarrow> nat \<Rightarrow> nat \<Rightarrow> nat list" where
  "repeat_from f 0 lo i = (if lo = 0 then [i] else [])"
| "repeat_from f (Suc n) lo i =
     concat (map (\<lambda>j. if i < j then repeat_from f n (lo - 1) j else []) (f i)) @ (if lo = 0 then [i] else [])"

primrec ends :: "regex \<Rightarrow> ustr \<Rightarrow> nat \<Rightarrow> nat list" where
  "ends (Cls P) s i = (if holds P (char_at s i) then [Suc i] else [])"
| "ends Emp s i = [i]"
| "ends (Seq a b) s i = concat (map (ends b s) (ends a s i))"
| "ends (Alt a b) s i = ends a s i @ ends b s i"
| "ends (Rep r lo hi) s i =
     repeat_from (ends r s) (case hi of None \<Rightarrow> length s - i + lo | Some n \<Rightarrow> n) lo i"
| "ends (Behind P) s i = (if P (char_before s i) then [i] else [])"
| "ends (Ahead P) s i = (if P (char_at s i) then [i] else [])"
| "ends (Boundary W) s i = (if holds W (char_before s i) \<noteq> holds W (char_at s i) then [i] else [])"

definition regex_match :: "regex \<Rightarrow> ustr \<Rightarrow> nat option" where
  "regex_match r s = (case ends r s 0 of [] \<Rightarrow> None | e # _ \<Rightarrow> Some e)"

definition regex_search :: "regex \<Rightarrow> ustr \<Rightarrow> (nat \<times> nat) option" where
  "regex_search r s =
     map_option (\<lambda>i. (i, hd (ends r s i))) (List.find (\<lambda>i. ends r s i \<noteq> []) [0..<Suc (length s)])"

definition searches :: "regex \<Rightarrow> ustr \<Rightarrow> bool" where
  "searches r s \<longleftrightarrow> list_ex (\<lambda>i. ends r s i \<noteq> []) [0..<Suc (length s)]"

definition group0 :: "regex \<Rightarrow> ustr \<Rightarrow> ustr option" where
  "group0 r s = map_option (\<lambda>(a, b). slice s a b) (regex_search r s)"

text \<open>Derived forms.\<close>

abbreviation "many0 r \<equiv> Rep r 0 None"
abbreviation "many1 r \<equiv> Rep r 1 None"
abbreviation "maybe r \<equiv> Rep r 0 (Some 1)"

fun seqs :: "regex list \<Rightarrow> regex" where
  "seqs [] = Emp"
| "seqs [r] = r"
| "seqs (r # rs) = Seq r (seqs rs)"

fun alts :: "regex list \<Rightarrow> regex" where
  "alts [] = Cls (\<lambda>_. False)"
| "alts [r] = r"
| "alts (r # rs) = Alt r (alts rs)"

definition chars :: "ustr \<Rightarrow> regex" where
  "chars s = seqs (map (\<lambda>c. Cls (\<lambda>x. x = c)) s)"

text \<open>
  Under \<open>IGNORECASE\<close> the letters \<open>i\<close>, \<open>k\<close> and \<open>s\<close> also match the dotted and dotless \<open>i\<close> (U+0130,
  U+0131), the Kelvin sign (U+212A) and the long \<open>s\<close> (U+017F).  The code's patterns put no other
  cased letter above ASCII under the flag.
\<close>

definition fold_case :: "codepoint \<Rightarrow> codepoint" where
  "fold_case c = (if c = 304 \<or> c = 305 then 105 else if c = 8490 then 107 else if c = 383 then 115
     else ascii_lower c)"

definition ichars :: "ustr \<Rightarrow> regex" where
  "ichars s = seqs (map (\<lambda>c. Cls (\<lambda>x. fold_case x = fold_case c)) s)"

definition ascii_lower_letter :: "codepoint \<Rightarrow> bool" where
  "ascii_lower_letter c \<longleftrightarrow> 97 \<le> c \<and> c \<le> 122"

text \<open>\<open>[a-z]\<close> and \<open>[A-Z]\<close> under \<open>IGNORECASE\<close>.\<close>

definition ialpha :: "codepoint \<Rightarrow> bool" where
  "ialpha c \<longleftrightarrow> ascii_lower_letter (fold_case c)"

abbreviation "word_edge U \<equiv> Boundary (is_word U)"

section \<open>What a match is\<close>

lemma repeat_from_bounds:
  assumes f: "\<And>i j. i \<le> m \<Longrightarrow> j \<in> set (f i) \<Longrightarrow> i \<le> j \<and> j \<le> m"
  shows "i \<le> m \<Longrightarrow> e \<in> set (repeat_from f n lo i) \<Longrightarrow> i \<le> e \<and> e \<le> m"
proof (induction n arbitrary: lo i)
  case (Suc n)
  from Suc.prems consider "e = i" | j where "j \<in> set (f i)" "i < j" "e \<in> set (repeat_from f n (lo - 1) j)"
    by (auto split: if_splits)
  then show ?case
  proof cases
    case 2
    with f [of i j] Suc.prems(1) Suc.IH [of j "lo - 1"] show ?thesis by auto
  qed (use Suc.prems in simp)
qed (simp split: if_splits)

text \<open>A match stays inside the text and never goes back.\<close>

lemma ends_bounds: "i \<le> length s \<Longrightarrow> e \<in> set (ends r s i) \<Longrightarrow> i \<le> e \<and> e \<le> length s"
proof (induction r arbitrary: i e)
  case (Cls P)
  then show ?case by (auto simp: char_at_def split: if_splits)
next
  case (Seq a b)
  from Seq.prems(2) obtain j where j: "j \<in> set (ends a s i)" "e \<in> set (ends b s j)" by auto
  from Seq.IH(1) [OF Seq.prems(1) j(1)] have "i \<le> j" "j \<le> length s" by simp_all
  with Seq.IH(2) [OF this(2) j(2)] show ?case by simp
next
  case (Rep r lo hi)
  from Rep.prems(2) show ?case unfolding ends.simps
    using repeat_from_bounds [where f = "ends r s" and m = "length s", OF Rep.IH Rep.prems(1)] by blast
next
  case (Alt a b)
  from Alt.prems(2) consider "e \<in> set (ends a s i)" | "e \<in> set (ends b s i)" by auto
  then show ?case using Alt.IH(1) [OF Alt.prems(1)] Alt.IH(2) [OF Alt.prems(1)] by cases
qed (simp_all split: if_splits)

lemma regex_search_bounds:
  assumes "regex_search r s = Some (a, b)"
  shows "a \<le> b \<and> b \<le> length s \<and> b \<in> set (ends r s a) \<and> (\<forall>i < a. ends r s i = [])"
proof -
  from assms obtain i where i: "List.find (\<lambda>i. ends r s i \<noteq> []) [0..<Suc (length s)] = Some i"
    and ab: "a = i" "b = hd (ends r s i)" by (auto simp: regex_search_def)
  from find_Some_iff [THEN iffD1, OF i] obtain k where k: "k < Suc (length s)" "i = [0..<Suc (length s)] ! k"
    "ends r s i \<noteq> []" "\<forall>j < k. \<not> ends r s ([0..<Suc (length s)] ! j) \<noteq> []"
    unfolding length_upt minus_nat.diff_0 by blast
  from k(1,2) have "i = k" "i \<le> length s" by (simp_all del: upt_Suc add: nth_upt)
  with k(4) have "\<forall>j < i. ends r s j = []" by (simp del: upt_Suc add: nth_upt)
  moreover have "b \<in> set (ends r s a)" unfolding ab by (rule hd_in_set) (rule k(3))
  ultimately show ?thesis using ends_bounds [of i s b r] \<open>i \<le> length s\<close> ab(1) by simp
qed

lemma searches_iff: "searches r s \<longleftrightarrow> (\<exists>i \<le> length s. ends r s i \<noteq> [])"
  by (auto simp: searches_def list_ex_iff less_Suc_eq_le simp del: upt_Suc)

lemma searches_Some: "searches r s \<longleftrightarrow> regex_search r s \<noteq> None"
  by (auto simp: searches_def regex_search_def list_ex_iff find_None_iff simp del: upt_Suc)

text \<open>Repetition of one class: a run of it, as long as allowed.\<close>

lemma repeat_from_nonempty: "f i \<noteq> [] \<Longrightarrow> lo = 0 \<Longrightarrow> repeat_from f n lo i \<noteq> []"
  by (cases n) auto

end
