(* ===== verification/Sensitivity.thy ===== *)
theory Sensitivity
  imports TextTokens PyRegex
begin

text \<open>
  How sensitive a text is (\<open>memory_worker/extraction/sensitivity.py\<close>): three lexicons and key shapes
  over the tokens of the normalized text, fenced code included, and five regular expressions.
\<close>

datatype sensitivity = NORMAL | SENSITIVE | SECRET

fun sensitivity_value :: "sensitivity \<Rightarrow> string" where
  "sensitivity_value NORMAL = ''normal''"
| "sensitivity_value SENSITIVE = ''sensitive''"
| "sensitivity_value SECRET = ''secret''"

fun sensitivity_rank :: "sensitivity \<Rightarrow> nat" where
  "sensitivity_rank NORMAL = 0"
| "sensitivity_rank SENSITIVE = 1"
| "sensitivity_rank SECRET = 2"

section \<open>Word lists\<close>

definition SECRET_LEXICON :: lexicon where
  "SECRET_LEXICON = \<lparr>lx_name = ''secret_terms'', lx_phrases =
    [lit ''api key'', lit ''api keys'', lit ''apikey'', lit ''apikeys'', lit ''password'', lit
     ''passwords'', lit ''passphrase'', lit ''passphrases'', lit ''token'', lit ''tokens'', lit
     ''secret'', lit ''secrets'', lit ''credential'', lit ''credentials'', lit ''bearer'', lit
     ''private key'', lit ''private keys'', [1585, 1605, 1586], [1585, 1605, 1586, 1607, 1575],
     [1578, 1608, 1705, 1606], [1578, 1608, 1705, 1606, 8204, 1607, 1575], [1705, 1604, 1740,
     1583, 1607, 1575]]\<rparr>"

definition SENSITIVE_LEXICON :: lexicon where
  "SENSITIVE_LEXICON = \<lparr>lx_name = ''sensitive_terms'', lx_phrases =
    [lit ''religion'', lit ''religions'', lit ''religious'', lit ''political'', lit
     ''politics'', lit ''medical'', lit ''health'', lit ''phone'', lit ''telephone'', lit
     ''mobile'', lit ''email'', lit ''e-mail'', lit ''address'', lit ''home address'', lit
     ''diagnosis'', lit ''diagnoses'', [1605, 1584, 1607, 1576], [1605, 1584, 1575, 1607, 1576],
     [1587, 1740, 1575, 1587, 1740], [1662, 1586, 1588, 1705, 1740], [1587, 1604, 1575, 1605,
     1578], [1578, 1604, 1601, 1606], [1605, 1608, 1576, 1575, 1740, 1604], [1575, 1740, 1605,
     1740, 1604], [1570, 1583, 1585, 1587], [1606, 1588, 1575, 1606, 1740]]\<rparr>"

section \<open>Shapes\<close>

definition SECRET_KEY_PREFIXES :: "ustr list" where
  "SECRET_KEY_PREFIXES = [lit ''sk'']"

definition MIN_KEY_BODY_LENGTH :: nat where
  "MIN_KEY_BODY_LENGTH = 8"

definition KEY_BODY_CHARACTERS :: "codepoint list" where
  "KEY_BODY_CHARACTERS = [45, 95]"

definition bearer_char :: "codepoint \<Rightarrow> bool" where
  "bearer_char c \<longleftrightarrow> ialpha c \<or> ascii_digit c \<or> c \<in> set (lit ''._~+/-'')"

definition BEARER_VALUE :: "unidb \<Rightarrow> regex" where
  "BEARER_VALUE U = seqs [word_edge U, ichars (lit ''bearer''), many1 (Cls (is_space U)),
     Rep (Cls bearer_char) 8 None, Rep (Cls (\<lambda>c. c = 61)) 0 (Some 2)]"

definition PRIVATE_KEY_BLOCK :: regex where
  "PRIVATE_KEY_BLOCK = seqs [ichars (lit ''-----BEGIN''),
     maybe (Seq (Cls (\<lambda>c. c = 32)) (many1 (Cls (\<lambda>c. ialpha c \<or> ascii_digit c)))),
     ichars (lit '' PRIVATE KEY-----'')]"

definition jwt_char :: "codepoint \<Rightarrow> bool" where
  "jwt_char c \<longleftrightarrow> ialpha c \<or> ascii_digit c \<or> c = 95 \<or> c = 45"

definition JWT_VALUE :: regex where
  "JWT_VALUE = seqs [Behind (\<lambda>c. \<not> holds jwt_char c), Rep (Cls jwt_char) 8 None, Cls (\<lambda>c. c = 46),
     Rep (Cls jwt_char) 8 None, Cls (\<lambda>c. c = 46), Rep (Cls jwt_char) 8 None,
     Ahead (\<lambda>c. \<not> holds jwt_char c)]"

definition EMAIL_VALUE :: "unidb \<Rightarrow> regex" where
  "EMAIL_VALUE U =
     (let local_char = (\<lambda>c. is_word U c \<or> c = 46 \<or> c = 43 \<or> c = 45); host_char = (\<lambda>c. is_word U c \<or> c = 45) in
      seqs [Behind (\<lambda>c. \<not> holds local_char c), many1 (Cls local_char), Cls (\<lambda>c. c = 64),
        many1 (Cls host_char), many1 (Seq (Cls (\<lambda>c. c = 46)) (many1 (Cls host_char))),
        Ahead (\<lambda>c. \<not> holds (\<lambda>c. is_word U c \<or> c = 46 \<or> c = 45) c)])"

definition PHONE_VALUE :: "unidb \<Rightarrow> regex" where
  "PHONE_VALUE U = seqs [Behind (\<lambda>c. \<not> holds (is_word U) c), maybe (Cls (\<lambda>c. c = 43)), Cls (is_decimal U),
     Rep (Cls (\<lambda>c. is_decimal U c \<or> is_space U c \<or> c \<in> set (lit ''().-''))) 8 None, Cls (is_decimal U),
     Ahead (\<lambda>c. \<not> holds (is_word U) c)]"

text \<open>The characters after an \<open>sk\<close> prefix, up to the first that no key contains.\<close>

definition key_body_char :: "unidb \<Rightarrow> codepoint \<Rightarrow> bool" where
  "key_body_char U c \<longleftrightarrow> is_alnum U c \<or> c \<in> set KEY_BODY_CHARACTERS"

definition key_body :: "unidb \<Rightarrow> ustr \<Rightarrow> nat \<Rightarrow> ustr" where
  "key_body U text i = takeWhile (key_body_char U) (drop i text)"

definition key_token :: "unidb \<Rightarrow> ustr \<Rightarrow> token \<Rightarrow> bool" where
  "key_token U text t \<longleftrightarrow>
     tk_key t \<in> set SECRET_KEY_PREFIXES \<and>
     (tk_end t < length text \<and> text ! tk_end t \<in> set KEY_BODY_CHARACTERS) \<and>
     MIN_KEY_BODY_LENGTH \<le> length (filter (\<lambda>c. c \<noteq> 45 \<and> c \<noteq> 95) (key_body U text (tk_end t + 1)))"

definition has_key_prefix :: "unidb \<Rightarrow> normalized \<Rightarrow> bool" where
  "has_key_prefix U n \<longleftrightarrow> list_ex (key_token U (nt_text n)) (tokenize U n True)"

definition secret_shape :: "unidb \<Rightarrow> ustr \<Rightarrow> normalized \<Rightarrow> bool" where
  "secret_shape U text n \<longleftrightarrow>
     searches (BEARER_VALUE U) (nt_text n) \<or> searches PRIVATE_KEY_BLOCK text \<or> searches JWT_VALUE (nt_text n)"

definition classify_sensitivity :: "unidb \<Rightarrow> ustr \<Rightarrow> sensitivity" where
  "classify_sensitivity U text =
     (let n = resolve_text U text in
      if secret_shape U text n then SECRET
      else if lexicon_search U SECRET_LEXICON n True \<noteq> None then SECRET
      else if has_key_prefix U n then SECRET
      else if searches (EMAIL_VALUE U) (nt_text n) \<or> searches (PHONE_VALUE U) (nt_text n) then SENSITIVE
      else if lexicon_search U SENSITIVE_LEXICON n True \<noteq> None then SENSITIVE
      else NORMAL)"

text \<open>The rank that the binding check compares.\<close>

definition text_rank :: "unidb \<Rightarrow> ustr \<Rightarrow> nat" where
  "text_rank U text = sensitivity_rank (classify_sensitivity U text)"

lemma sensitivity_value_inj [simp]: "sensitivity_value a = sensitivity_value b \<longleftrightarrow> a = b"
  by (cases a; cases b) simp_all

lemma sensitivity_value_cases: "sensitivity_value s \<in> {''normal'', ''sensitive'', ''secret''}"
  by (cases s) simp_all

end
