(* ===== verification/TextSegments.thy ===== *)
theory TextSegments
  imports TextTokens
begin

text \<open>
  Spans delimited by the writer's own boundary marks (\<open>textsemantics/segmentation.py\<close>): which marks
  end a sentence, the loop over a prose block, the sentences of a text and the index of tokens by
  raw offset.  What matters to the validation of evidence is that no visible character is lost.
\<close>

section \<open>Marks\<close>

definition SENTENCE_TERMINATORS :: "codepoint list" where
  "SENTENCE_TERMINATORS = [46, 33, 63, 1567, 1748, 8252, 8263, 8264, 8265, 12290, 65281, 65311]"

definition CLOSING_QUOTES :: "codepoint list" where
  "CLOSING_QUOTES = [34, 39, 8221, 187, 8217, 41, 93, 125]"

definition ABBREVIATIONS :: "ustr list" where
  "ABBREVIATIONS = map lit [''e.g'', ''i.e'', ''etc'', ''vs'', ''mr'', ''mrs'', ''ms'', ''dr'', ''prof'',
     ''fig'', ''no'', ''al'', ''inc'', ''ltd'']"

definition LIST_BULLETS :: "codepoint list" where
  "LIST_BULLETS = [45, 42, 43, 8226, 8212, 8211]"

definition MAX_ABBREVIATION_LOOKBACK :: nat where
  "MAX_ABBREVIATION_LOOKBACK = 16"

definition blank_or_tab :: "codepoint \<Rightarrow> bool" where
  "blank_or_tab c \<longleftrightarrow> c = 32 \<or> c = 9"

text \<open>The position after the run of characters in \<open>P\<close> that starts at \<open>i\<close>, before \<open>e\<close>.\<close>

definition run_end :: "(codepoint \<Rightarrow> bool) \<Rightarrow> ustr \<Rightarrow> nat \<Rightarrow> nat \<Rightarrow> nat" where
  "run_end P raw i e = i + length (takeWhile P (slice raw i e))"

definition consume_closing :: "ustr \<Rightarrow> nat \<Rightarrow> nat \<Rightarrow> nat" where
  "consume_closing raw i e = run_end (\<lambda>c. c \<in> set CLOSING_QUOTES) raw i e"

definition blank_run_end :: "unidb \<Rightarrow> ustr \<Rightarrow> nat \<Rightarrow> nat \<Rightarrow> nat option" where
  "blank_run_end U raw i e =
     (let run = takeWhile (is_space U) (slice raw i e) in
      if 2 \<le> count_list run 10 then Some (i + length run) else None)"

definition opens_list_item :: "unidb \<Rightarrow> ustr \<Rightarrow> nat \<Rightarrow> nat \<Rightarrow> bool" where
  "opens_list_item U raw s e =
     (let cursor = run_end blank_or_tab raw s e in
      if e \<le> cursor then False
      else if raw ! cursor \<in> set LIST_BULLETS then cursor + 1 < e \<and> blank_or_tab (raw ! (cursor + 1))
      else (let digits = run_end (is_digit U) raw cursor e in
        if digits = cursor then False
        else digits + 1 < e \<and> (raw ! digits = 46 \<or> raw ! digits = 41) \<and> blank_or_tab (raw ! (digits + 1))))"

definition preceding_abbreviation :: "unidb \<Rightarrow> ustr \<Rightarrow> nat \<Rightarrow> bool" where
  "preceding_abbreviation U raw i =
     (case rev (split_ws U (slice raw (i - MAX_ABBREVIATION_LOOKBACK) i)) of
        [] \<Rightarrow> False
      | p # _ \<Rightarrow> strip_by (\<lambda>c. c = 46) (py_lower U p) \<in> set ABBREVIATIONS)"

definition is_enumerator :: "unidb \<Rightarrow> ustr \<Rightarrow> nat \<Rightarrow> bool" where
  "is_enumerator U raw i =
     (let prefix = py_strip U (rev (takeWhile (\<lambda>c. c \<noteq> 10) (rev (take i raw)))) in
      prefix \<noteq> [] \<and> list_all (is_digit U) prefix)"

definition terminates :: "unidb \<Rightarrow> ustr \<Rightarrow> nat \<Rightarrow> nat \<Rightarrow> bool" where
  "terminates U raw i e =
     (if raw ! i = 46 \<and>
         ((0 < i \<and> is_alnum U (raw ! (i - 1))) \<and> (i + 1 < e \<and> is_alnum U (raw ! (i + 1))) \<or>
          preceding_abbreviation U raw i \<or> is_enumerator U raw i)
      then False
      else (let stop = consume_closing raw (i + 1) e in
        if e \<le> stop then True else is_space U (raw ! stop)))"

definition trim_range :: "unidb \<Rightarrow> ustr \<Rightarrow> nat \<Rightarrow> nat \<Rightarrow> (nat \<times> nat) option" where
  "trim_range U raw s e =
     (let s' = run_end (is_space U) raw s e;
          e' = e - length (takeWhile (is_space U) (rev (slice raw s' e)))
      in if s' < e' then Some (s', e') else None)"

section \<open>The loop over a prose block\<close>

record prose_scan =
  ps_ranges :: "((nat \<times> nat) \<times> string) list"
  ps_warnings :: "string list"
  ps_cursor :: nat
  ps_reason :: string
  ps_saw_boundary :: bool

definition append_range :: "unidb \<Rightarrow> ustr \<Rightarrow> nat \<Rightarrow> prose_scan \<Rightarrow> prose_scan" where
  "append_range U raw stop st =
     (case trim_range U raw (ps_cursor st) stop of
        None \<Rightarrow> st
      | Some r \<Rightarrow> st\<lparr>ps_ranges := ps_ranges st @ [(r, ps_reason st)]\<rparr>)"

definition boundary :: "nat \<Rightarrow> string \<Rightarrow> prose_scan \<Rightarrow> prose_scan" where
  "boundary cursor reason st = st\<lparr>ps_saw_boundary := True, ps_cursor := cursor, ps_reason := reason\<rparr>"

lemma run_end_ge: "i \<le> run_end P raw i e"
  by (simp add: run_end_def)

lemma blank_run_gt: "blank_run_end U raw i e = Some b \<Longrightarrow> i < b"
  by (cases "takeWhile (is_space U) (slice raw i e)") (auto simp: blank_run_end_def Let_def split: if_splits)

function prose_loop :: "unidb \<Rightarrow> ustr \<Rightarrow> nat \<Rightarrow> nat \<Rightarrow> prose_scan \<Rightarrow> prose_scan" where
  "prose_loop U raw e i st =
     (if e \<le> i then st
      else if raw ! i \<in> set SENTENCE_TERMINATORS \<and> terminates U raw i e
      then (let stop = consume_closing raw (i + 1) e in
        prose_loop U raw e stop (boundary stop ''sentence_terminator'' (append_range U raw stop st)))
      else if raw ! i = 10
      then (case blank_run_end U raw i e of
              Some b \<Rightarrow> prose_loop U raw e b (boundary b ''blank_line'' (append_range U raw i st))
            | None \<Rightarrow>
                (if opens_list_item U raw (i + 1) e
                 then prose_loop U raw e (i + 1) (boundary (i + 1) ''list_item'' (append_range U raw i st))
                 else prose_loop U raw e (i + 1)
                   (st\<lparr>ps_warnings := ps_warnings st @ [''line_break_not_a_boundary'']\<rparr>)))
      else prose_loop U raw e (i + 1) st)"
  by pat_completeness auto
termination
proof (relation "measure (\<lambda>(_, _, e, i, _). e - i)", goal_cases)
  case (2 U raw e i st stop)
  moreover have "i + 1 \<le> consume_closing raw (i + 1) e" by (simp only: consume_closing_def run_end_ge)
  ultimately show ?case by simp
qed (auto dest: blank_run_gt)

declare prose_loop.simps [simp del]

definition prose_ranges ::
  "unidb \<Rightarrow> ustr \<Rightarrow> nat \<Rightarrow> nat \<Rightarrow> string list \<Rightarrow> ((nat \<times> nat) \<times> string) list \<times> string list" where
  "prose_ranges U raw s e warnings =
     (let st = prose_loop U raw e s \<lparr>ps_ranges = [], ps_warnings = warnings, ps_cursor = s,
            ps_reason = ''block_start'', ps_saw_boundary = False\<rparr>;
          st' = append_range U raw e st
      in (ps_ranges st',
          if trim_range U raw (ps_cursor st) e \<noteq> None \<and> \<not> ps_saw_boundary st
          then ps_warnings st @ [''no_explicit_boundary_mark''] else ps_warnings st))"

section \<open>Sentences\<close>

record sentence_span =
  ss_index :: nat
  ss_raw_start :: nat
  ss_raw_end :: nat
  ss_text :: ustr
  ss_normalized_start :: "nat option"
  ss_normalized_end :: "nat option"
  ss_block_index :: nat
  ss_is_code :: bool
  ss_boundary_reason :: string
  ss_language_hints :: "string list"

text \<open>Scripts, not languages.\<close>

definition language_hints :: "ustr \<Rightarrow> string list" where
  "language_hints txt =
     (let hints = (if list_ex (\<lambda>c. 1536 \<le> c \<and> c \<le> 1791 \<or> 1872 \<le> c \<and> c \<le> 1919) txt then [''fa''] else []) @
          (if list_ex ascii_alpha txt then [''en''] else [])
      in if hints = [] then [''und''] else hints)"

definition sentence_of ::
  "ustr \<Rightarrow> normalized \<Rightarrow> nat \<Rightarrow> nat \<times> nat \<Rightarrow> nat \<Rightarrow> string \<Rightarrow> bool \<Rightarrow> sentence_span" where
  "sentence_of raw n index r block reason code =
     (case r of (s, e) \<Rightarrow> (let m = norm_range n s e; txt = slice raw s e in
        \<lparr>ss_index = index, ss_raw_start = s, ss_raw_end = e, ss_text = txt,
         ss_normalized_start = map_option fst m, ss_normalized_end = map_option snd m,
         ss_block_index = block, ss_is_code = code, ss_boundary_reason = reason,
         ss_language_hints = language_hints txt\<rparr>))"

fun append_sentences ::
  "ustr \<Rightarrow> normalized \<Rightarrow> nat \<Rightarrow> bool \<Rightarrow> ((nat \<times> nat) \<times> string) list \<Rightarrow> sentence_span list \<Rightarrow> sentence_span list" where
  "append_sentences raw n block code [] ss = ss"
| "append_sentences raw n block code ((r, reason) # rs) ss =
     append_sentences raw n block code rs (ss @ [sentence_of raw n (length ss) r block reason code])"

definition segment_block ::
  "unidb \<Rightarrow> ustr \<Rightarrow> normalized \<Rightarrow> sentence_span list \<times> string list \<Rightarrow> nat \<times> text_block
     \<Rightarrow> sentence_span list \<times> string list" where
  "segment_block U raw n st ib =
     (case st of (ss, ws) \<Rightarrow> (case ib of (i, b) \<Rightarrow>
        (if tb_kind b = CODE
         then (case trim_range U raw (tb_start b) (tb_end b) of
                 None \<Rightarrow> (ss, ws)
               | Some r \<Rightarrow> (append_sentences raw n i True [(r, ''code_block'')] ss, ws))
         else (case prose_ranges U raw (tb_start b) (tb_end b) ws of
                 (rs, ws') \<Rightarrow> (append_sentences raw n i False rs ss, ws')))))"

definition segment_sentences :: "unidb \<Rightarrow> ustr \<Rightarrow> normalized \<Rightarrow> sentence_span list \<times> string list" where
  "segment_sentences U raw n = foldl (segment_block U raw n) ([], []) (enumerate0 (scan_blocks U raw))"

section \<open>Tokens by raw offset\<close>

record token_index =
  ti_tokens :: "token list"
  ti_starts :: "nat list"

definition build_token_index :: "token list \<Rightarrow> token_index" where
  "build_token_index ts = \<lparr>ti_tokens = ts, ti_starts = map tk_raw_start ts\<rparr>"

definition in_raw_range :: "token_index \<Rightarrow> nat \<Rightarrow> nat \<Rightarrow> token list" where
  "in_raw_range ix s e =
     (let first = bisect_left (ti_starts ix) s; last = bisect_right (ti_starts ix) e in
      filter (\<lambda>t. tk_raw_end t \<le> e) (slice (ti_tokens ix) first last))"

section \<open>No visible character is lost\<close>

text \<open>Trimmed, disjoint, ascending ranges inside \<open>[a, b)\<close> that hold every visible character of it.\<close>

definition covers :: "unidb \<Rightarrow> ustr \<Rightarrow> nat \<Rightarrow> nat \<Rightarrow> (nat \<times> nat) list \<Rightarrow> bool" where
  "covers U raw a b rs \<longleftrightarrow> a \<le> b \<and>
     (\<forall>p \<in> set rs. a \<le> fst p \<and> fst p < snd p \<and> snd p \<le> b \<and> \<not> is_space U (raw ! fst p) \<and> \<not> is_space U (raw ! (snd p - 1))) \<and>
     sorted_wrt (\<lambda>p q. snd p \<le> fst q) rs \<and>
     (\<forall>i. a \<le> i \<and> i < b \<and> \<not> is_space U (raw ! i) \<longrightarrow> (\<exists>p \<in> set rs. fst p \<le> i \<and> i < snd p))"

lemma coversD:
  assumes "covers U raw a b rs"
  shows "a \<le> b" "sorted_wrt (\<lambda>p q. snd p \<le> fst q) rs"
    "\<And>p. p \<in> set rs \<Longrightarrow> a \<le> fst p \<and> fst p < snd p \<and> snd p \<le> b \<and> \<not> is_space U (raw ! fst p) \<and> \<not> is_space U (raw ! (snd p - 1))"
    "\<And>i. a \<le> i \<Longrightarrow> i < b \<Longrightarrow> \<not> is_space U (raw ! i) \<Longrightarrow> \<exists>p \<in> set rs. fst p \<le> i \<and> i < snd p"
  using assms unfolding covers_def by blast+

lemma covers_append:
  assumes "covers U raw a b rs" "covers U raw b c rs'"
  shows "covers U raw a c (rs @ rs')"
  unfolding covers_def
proof (intro conjI allI impI ballI)
  note l = coversD [OF assms(1)] and r = coversD [OF assms(2)]
  show "a \<le> c" using l(1) r(1) by simp
  have "snd p \<le> fst q" if "p \<in> set rs" "q \<in> set rs'" for p q
    using l(3) [OF that(1)] r(3) [OF that(2)] by simp
  then show "sorted_wrt (\<lambda>p q. snd p \<le> fst q) (rs @ rs')" using l(2) r(2) by (simp add: sorted_wrt_append)
  fix i assume i: "a \<le> i \<and> i < c \<and> \<not> is_space U (raw ! i)"
  show "\<exists>p \<in> set (rs @ rs'). fst p \<le> i \<and> i < snd p"
  proof (cases "i < b")
    case True
    with i l(4) [of i] show ?thesis by auto
  next
    case False
    with i r(4) [of i] show ?thesis by auto
  qed
next
  note l = coversD [OF assms(1)] and r = coversD [OF assms(2)]
  fix p assume "p \<in> set (rs @ rs')"
  then have "p \<in> set rs \<or> p \<in> set rs'" by simp
  then have "a \<le> fst p \<and> fst p < snd p \<and> snd p \<le> c \<and> \<not> is_space U (raw ! fst p) \<and> \<not> is_space U (raw ! (snd p - 1))"
    using l(1,3) r(1,3) by (metis le_trans)
  then show "a \<le> fst p" "fst p < snd p" "snd p \<le> c" "\<not> is_space U (raw ! fst p)" "\<not> is_space U (raw ! (snd p - 1))"
    by blast+
qed

lemma covers_spaces: "a \<le> b \<Longrightarrow> (\<And>i. a \<le> i \<Longrightarrow> i < b \<Longrightarrow> is_space U (raw ! i)) \<Longrightarrow> covers U raw a b []"
  by (auto simp: covers_def)

lemma run_end_facts:
  assumes "i \<le> e" "e \<le> length raw"
  shows "run_end P raw i e \<le> e" "\<And>j. i \<le> j \<Longrightarrow> j < run_end P raw i e \<Longrightarrow> P (raw ! j)"
    "run_end P raw i e < e \<Longrightarrow> \<not> P (raw ! run_end P raw i e)"
proof -
  let ?s = "slice raw i e" let ?t = "takeWhile P ?s"
  have len: "length ?s = e - i" using assms by simp
  have le: "length ?t \<le> e - i" using length_takeWhile_le [of P ?s] len by simp
  then show "run_end P raw i e \<le> e" using assms by (simp add: run_end_def)
  fix j assume j: "i \<le> j" "j < run_end P raw i e"
  then have "j - i < length ?t" by (simp add: run_end_def)
  then have "P (?s ! (j - i))" by (metis nth_mem set_takeWhileD takeWhile_nth)
  with j le assms show "P (raw ! j)" by (simp add: run_end_def slice_nth)
next
  let ?s = "slice raw i e" let ?t = "takeWhile P ?s"
  assume lt: "run_end P raw i e < e"
  then have "length ?t < length ?s" using assms by (simp add: run_end_def)
  then have "\<not> P (?s ! length ?t)" by (rule nth_length_takeWhile)
  with lt assms show "\<not> P (raw ! run_end P raw i e)" by (simp add: run_end_def slice_nth)
qed

lemma back_run:
  fixes P raw s e
  assumes "s \<le> e" "e \<le> length raw"
  defines "m \<equiv> length (takeWhile P (rev (slice raw s e)))"
  shows "m \<le> e - s" "\<And>j. e - m \<le> j \<Longrightarrow> j < e \<Longrightarrow> P (raw ! j)" "m < e - s \<Longrightarrow> \<not> P (raw ! (e - m - 1))"
proof -
  let ?s = "slice raw s e"
  have len: "length (rev ?s) = e - s" using assms by simp
  show le: "m \<le> e - s" using length_takeWhile_le [of P "rev ?s"] len by (simp add: m_def)
  have nth: "rev ?s ! k = raw ! (e - 1 - k)" if "k < e - s" for k
  proof -
    have "rev ?s ! k = ?s ! (e - s - Suc k)" using that len by (simp add: rev_nth)
    also have "\<dots> = raw ! (s + (e - s - Suc k))" using that assms(2) by (intro slice_nth) auto
    also have "s + (e - s - Suc k) = e - 1 - k" using that by simp
    finally show ?thesis .
  qed
  { fix j assume j: "e - m \<le> j" "j < e"
    then have k: "e - 1 - j < m" "e - 1 - j < e - s" using le by auto
    then have "P (rev ?s ! (e - 1 - j))" unfolding m_def by (metis nth_mem set_takeWhileD takeWhile_nth)
    with nth [OF k(2)] j show "P (raw ! j)" by simp }
  assume m: "m < e - s"
  then have "\<not> P (rev ?s ! m)" unfolding m_def using len by (intro nth_length_takeWhile) simp
  with nth [OF m] show "\<not> P (raw ! (e - m - 1))" by (simp add: diff_commute)
qed

definition option_list :: "'a option \<Rightarrow> 'a list" where
  "option_list x = (case x of None \<Rightarrow> [] | Some y \<Rightarrow> [y])"

lemma covers_trim:
  assumes "s \<le> e" "e \<le> length raw"
  shows "covers U raw s e (option_list (trim_range U raw s e))"
proof -
  define a where "a = run_end (is_space U) raw s e"
  define m where "m = length (takeWhile (is_space U) (rev (slice raw a e)))"
  note r = run_end_facts [OF assms, where P = "is_space U", folded a_def]
  have "s \<le> a" using run_end_ge by (simp add: a_def)
  note b = back_run [OF r(1) assms(2), where P = "is_space U", folded m_def]
  have t: "trim_range U raw s e = (if a < e - m then Some (a, e - m) else None)"
    by (simp add: trim_range_def Let_def a_def m_def)
  show ?thesis
  proof (cases "a < e - m")
    case True
    then have "\<not> is_space U (raw ! a)" "\<not> is_space U (raw ! (e - m - 1))" using r(3) b(3) by auto
    moreover have "a \<le> i \<and> i < e - m" if "s \<le> i" "i < e" "\<not> is_space U (raw ! i)" for i
      using that r(2) [of i] b(2) [of i] by (meson not_less)
    ultimately show ?thesis using True \<open>s \<le> a\<close> assms(1) by (simp add: covers_def t option_list_def)
  next
    case False
    have "is_space U (raw ! i)" if "s \<le> i" "i < e" for i
      using that r(2) b(2) False by (meson le_trans not_less)
    then show ?thesis unfolding t option_list_def using False assms(1) by (auto intro: covers_spaces)
  qed
qed

lemma append_range_covers:
  assumes "covers U raw a (ps_cursor st) (map fst (ps_ranges st))" "ps_cursor st \<le> stop" "stop \<le> length raw"
  shows "covers U raw a stop (map fst (ps_ranges (append_range U raw stop st)))"
proof -
  have "map fst (ps_ranges (append_range U raw stop st)) =
      map fst (ps_ranges st) @ option_list (trim_range U raw (ps_cursor st) stop)"
    by (simp add: append_range_def option_list_def split: option.split)
  with covers_append [OF assms(1) covers_trim [OF assms(2,3)]] show ?thesis by simp
qed

definition prose_inv :: "unidb \<Rightarrow> ustr \<Rightarrow> nat \<Rightarrow> nat \<Rightarrow> nat \<Rightarrow> prose_scan \<Rightarrow> bool" where
  "prose_inv U raw a e i st \<longleftrightarrow> covers U raw a (ps_cursor st) (map fst (ps_ranges st)) \<and> ps_cursor st \<le> i \<and> i \<le> e"

lemma boundary_inv:
  assumes "prose_inv U raw a e i st" "i \<le> stop" "stop \<le> next_pos" "next_pos \<le> e" "e \<le> length raw"
    and "\<And>j. stop \<le> j \<Longrightarrow> j < next_pos \<Longrightarrow> is_space U (raw ! j)"
  shows "prose_inv U raw a e next_pos (boundary next_pos reason (append_range U raw stop st))"
proof -
  have "covers U raw a stop (map fst (ps_ranges (append_range U raw stop st)))"
    using assms(1-5) by (intro append_range_covers) (auto simp: prose_inv_def)
  from covers_append [OF this covers_spaces [OF assms(3,6)]] assms(4) show ?thesis
    by (simp add: prose_inv_def boundary_def)
qed

lemma prose_loop_inv:
  "prose_inv U raw a e i st \<Longrightarrow> e \<le> length raw \<Longrightarrow>
     \<exists>j. prose_inv U raw a e j (prose_loop U raw e i st)"
proof (induction U raw e i st rule: prose_loop.induct)
  case (1 U raw e i st)
  note prems = 1(6,7)
  note step = prose_loop.simps [of U raw e i st]
  show ?case
  proof (cases "e \<le> i")
    case True
    with prems show ?thesis by (subst step) auto
  next
    case i: False
    show ?thesis
    proof (cases "raw ! i \<in> set SENTENCE_TERMINATORS \<and> terminates U raw i e")
      case True
      let ?stop = "consume_closing raw (i + 1) e"
      have "i + 1 \<le> ?stop" by (simp only: consume_closing_def run_end_ge)
      moreover have "?stop \<le> e"
        unfolding consume_closing_def by (rule run_end_facts(1)) (use i prems in auto)
      ultimately have "prose_inv U raw a e ?stop (boundary ?stop ''sentence_terminator'' (append_range U raw ?stop st))"
        using prems by (intro boundary_inv [OF prems(1)]) auto
      from 1(1) [OF i True refl this prems(2)] i True show ?thesis by (subst step) (simp add: Let_def)
    next
      case nt: False
      show ?thesis
      proof (cases "raw ! i = 10")
        case nl: True
        then have space: "is_space U (raw ! i)" by (simp add: is_space_def is_ascii_def ascii_space_def)
        show ?thesis
        proof (cases "blank_run_end U raw i e")
          case (Some b)
          then have b: "b = run_end (is_space U) raw i e" by (auto simp: blank_run_end_def run_end_def Let_def split: if_splits)
          have "i \<le> e" using i by simp
          note r = run_end_facts [OF this prems(2), where P = "is_space U", folded b]
          have "prose_inv U raw a e b (boundary b ''blank_line'' (append_range U raw i st))"
            using prems r blank_run_gt [OF Some] by (intro boundary_inv [OF prems(1)]) auto
          from 1(4) [OF i nt nl Some this prems(2)] i nt nl Some show ?thesis by (subst step) auto
        next
          case None
          show ?thesis
          proof (cases "opens_list_item U raw (i + 1) e")
            case True
            have "prose_inv U raw a e (i + 1) (boundary (i + 1) ''list_item'' (append_range U raw i st))"
              using prems i space by (intro boundary_inv [OF prems(1)]) (auto simp: less_Suc_eq)
            from 1(2) [OF i nt nl None True this prems(2)] i nt nl None True show ?thesis by (subst step) auto
          next
            case False
            have "prose_inv U raw a e (i + 1) (st\<lparr>ps_warnings := ps_warnings st @ [''line_break_not_a_boundary'']\<rparr>)"
              using prems i by (auto simp: prose_inv_def)
            from 1(3) [OF i nt nl None False this prems(2)] i nt nl None False show ?thesis by (subst step) auto
          qed
        qed
      next
        case nl: False
        have "prose_inv U raw a e (i + 1) st" using prems i by (auto simp: prose_inv_def)
        from 1(5) [OF i nt nl this prems(2)] i nt nl show ?thesis by (subst step) auto
      qed
    qed
  qed
qed

lemma prose_ranges_cover:
  assumes "prose_ranges U raw s e ws = (rs, ws')" "s \<le> e" "e \<le> length raw"
  shows "covers U raw s e (map fst rs)"
proof -
  define st0 where "st0 = \<lparr>ps_ranges = [], ps_warnings = ws, ps_cursor = s, ps_reason = ''block_start'',
    ps_saw_boundary = False\<rparr>"
  have "prose_inv U raw s e s st0" using assms(2) by (simp add: prose_inv_def st0_def covers_def)
  from prose_loop_inv [OF this assms(3)] obtain j where inv: "prose_inv U raw s e j (prose_loop U raw e s st0)" by blast
  have "rs = ps_ranges (append_range U raw e (prose_loop U raw e s st0))"
    using assms(1) by (simp add: prose_ranges_def st0_def Let_def)
  with append_range_covers [of U raw s "prose_loop U raw e s st0" e] inv assms(3) show ?thesis
    by (auto simp: prose_inv_def)
qed

definition sentence_range :: "sentence_span \<Rightarrow> nat \<times> nat" where
  "sentence_range s = (ss_raw_start s, ss_raw_end s)"

definition sentence_ok :: "ustr \<Rightarrow> sentence_span \<Rightarrow> bool" where
  "sentence_ok raw s \<longleftrightarrow> ss_text s = slice raw (ss_raw_start s) (ss_raw_end s) \<and>
     ss_language_hints s = language_hints (ss_text s)"

lemma sentence_of_simps [simp]:
  "sentence_range (sentence_of raw n i r b reason code) = r" "ss_index (sentence_of raw n i r b reason code) = i"
  "sentence_ok raw (sentence_of raw n i r b reason code)"
  by (cases r, simp add: sentence_range_def sentence_of_def sentence_ok_def Let_def)+

lemma append_sentences_facts:
  "map ss_index ss = [0..<length ss] \<Longrightarrow> list_all (sentence_ok raw) ss \<Longrightarrow>
     map sentence_range (append_sentences raw n b code rs ss) = map sentence_range ss @ map fst rs \<and>
     map ss_index (append_sentences raw n b code rs ss) = [0..<length (append_sentences raw n b code rs ss)] \<and>
     list_all (sentence_ok raw) (append_sentences raw n b code rs ss)"
  by (induction raw n b code rs ss rule: append_sentences.induct) simp_all

definition segment_inv :: "unidb \<Rightarrow> ustr \<Rightarrow> nat \<Rightarrow> sentence_span list \<Rightarrow> bool" where
  "segment_inv U raw b ss \<longleftrightarrow> covers U raw 0 b (map sentence_range ss) \<and>
     map ss_index ss = [0..<length ss] \<and> list_all (sentence_ok raw) ss"

lemma segment_block_inv:
  assumes "segment_inv U raw s ss" "block_range b = (s, e)" "s < e" "e \<le> length raw"
  shows "segment_inv U raw e (fst (segment_block U raw n (ss, ws) (i, b)))"
proof -
  have se: "tb_start b = s" "tb_end b = e" using assms(2) by (simp_all add: block_range_def)
  have ss: "map ss_index ss = [0..<length ss]" "list_all (sentence_ok raw) ss" "covers U raw 0 s (map sentence_range ss)"
    using assms(1) by (auto simp: segment_inv_def)
  have add: "segment_inv U raw e (append_sentences raw n i code rs ss)" if "covers U raw s e (map fst rs)" for code rs
    using append_sentences_facts [OF ss(1,2), of n i code rs] covers_append [OF ss(3) that] by (simp add: segment_inv_def)
  show ?thesis
  proof (cases "tb_kind b = CODE")
    case True
    have t: "covers U raw s e (option_list (trim_range U raw s e))" using assms(3,4) by (intro covers_trim) auto
    show ?thesis
    proof (cases "trim_range U raw s e")
      case None
      with t covers_append [OF ss(3), of e "[]"] ss True show ?thesis
        by (simp add: segment_block_def se option_list_def segment_inv_def)
    next
      case (Some r)
      with t add [of "[(r, ''code_block'')]" True] True show ?thesis
        by (simp add: segment_block_def se option_list_def)
    qed
  next
    case False
    obtain rs ws' where p: "prose_ranges U raw s e ws = (rs, ws')" by (cases "prose_ranges U raw s e ws")
    from prose_ranges_cover [OF p] assms(3,4) have "covers U raw s e (map fst rs)" by simp
    from add [OF this, of False] False p show ?thesis by (simp add: segment_block_def se)
  qed
qed

lemma segment_blocks_inv:
  "chain s (map (block_range \<circ> snd) ibs) e \<Longrightarrow> e \<le> length raw \<Longrightarrow> segment_inv U raw s (fst st) \<Longrightarrow>
     segment_inv U raw e (fst (foldl (segment_block U raw n) st ibs))"
proof (induction ibs arbitrary: s st)
  case (Cons ib ibs)
  obtain i b ss ws where x: "ib = (i, b)" "st = (ss, ws)" by (cases ib, cases st)
  obtain s' e' where r: "block_range b = (s', e')" by (cases "block_range b")
  with Cons.prems(1) x have c: "s' = s" "s < e'" "chain e' (map (block_range \<circ> snd) ibs) e" by (auto simp: comp_def)
  from segment_block_inv [of U raw s ss b e' n ws i] Cons.prems(2,3) chain_le [OF c(3)] x r c
  have "segment_inv U raw e' (fst (segment_block U raw n st ib))" by simp
  from Cons.IH [OF c(3) Cons.prems(2) this] show ?case by simp
qed simp

text \<open>
  Also proved (sentences_keep_everything): the sentences of a text are numbered in order, carry
  exactly their slice of the raw text with no space at either end, do not overlap, and together
  hold every character that is not white space.
\<close>

theorem sentences_keep_everything:
  "map ss_index (fst (segment_sentences U raw n)) = [0..<length (fst (segment_sentences U raw n))] \<and>
   list_all (sentence_ok raw) (fst (segment_sentences U raw n)) \<and>
   covers U raw 0 (length raw) (map sentence_range (fst (segment_sentences U raw n)))"
proof -
  have "map (block_range \<circ> snd) (enumerate0 (scan_blocks U raw)) = map block_range (scan_blocks U raw)"
    by (simp add: enumerate0_def flip: map_map)
  with scan_blocks_tile [of raw U]
  have "chain 0 (map (block_range \<circ> snd) (enumerate0 (scan_blocks U raw))) (length raw)" by simp
  from segment_blocks_inv [OF this order_refl, of U "([], [])" n]
  show ?thesis by (simp add: segment_sentences_def segment_inv_def covers_def)
qed

text \<open>
  The token index returns exactly the tokens that lie in the range, in order, when the tokens
  ascend by raw offset.
\<close>

lemma token_index_exact:
  assumes "sorted (map tk_raw_start ts)" "list_all (\<lambda>t. tk_raw_start t < tk_raw_end t) ts"
  shows "in_raw_range (build_token_index ts) s e = filter (\<lambda>t. s \<le> tk_raw_start t \<and> tk_raw_end t \<le> e) ts"
proof -
  let ?a = "bisect_left (map tk_raw_start ts) s" and ?b = "bisect_right (map tk_raw_start ts) e"
  note l = bisect_left_spec [OF assms(1), of s] and r = bisect_right_spec [OF assms(1), of e]
  let ?P = "\<lambda>t. s \<le> tk_raw_start t \<and> tk_raw_end t \<le> e"
  have len: "?a \<le> length ts" "?b \<le> length ts" using l(1) r(1) by simp_all
  have before: "\<not> ?P t" if "t \<in> set (take ?a ts)" for t
    using that l(2) len by (auto simp: in_set_conv_nth)
  have after: "\<not> ?P t" if "t \<in> set (drop ?b ts)" for t
  proof -
    from that obtain i where i: "i < length ts" "?b \<le> i" "t = ts ! i"
      by (auto simp: in_set_conv_nth) (metis add.commute le_add1 less_diff_conv)
    with r(3) have "e < tk_raw_start t" by simp
    moreover have "tk_raw_start t < tk_raw_end t" using assms(2) i by (simp add: list_all_iff)
    ultimately show ?thesis by simp
  qed
  have inside: "s \<le> tk_raw_start t" if "t \<in> set (slice ts ?a ?b)" for t
  proof -
    from that obtain i where i: "i < length ts" "?a \<le> i" "t = ts ! i"
      by (auto simp: slice_def in_set_conv_nth) (metis add.commute le_add1 less_diff_conv)
    with l(3) show ?thesis by simp
  qed
  show ?thesis
  proof (cases "?a \<le> ?b")
    case True
    have "take ?b ts = take ?a ts @ slice ts ?a ?b"
      using slice_append [of 0 ?a ?b ts] True by (simp add: slice_def)
    then have "ts = take ?a ts @ slice ts ?a ?b @ drop ?b ts" by (metis append.assoc append_take_drop_id)
    then have "filter ?P ts = filter ?P (take ?a ts) @ filter ?P (slice ts ?a ?b) @ filter ?P (drop ?b ts)"
      by (metis filter_append)
    also have "filter ?P (take ?a ts) = []" using before by (simp add: filter_empty_conv)
    also have "filter ?P (drop ?b ts) = []" using after by (simp add: filter_empty_conv)
    also have "filter ?P (slice ts ?a ?b) = filter (\<lambda>t. tk_raw_end t \<le> e) (slice ts ?a ?b)"
      by (rule filter_cong) (use inside in auto)
    finally show ?thesis by (simp add: in_raw_range_def build_token_index_def Let_def)
  next
    case False
    have "\<not> ?P t" if "t \<in> set ts" for t
    proof -
      from that have "t \<in> set (take ?a ts) \<or> t \<in> set (drop ?b ts)"
        using False len by (metis Un_iff append_take_drop_id nat_le_linear set_append set_take_subset_set_take subsetD)
      with before after show ?thesis by blast
    qed
    then have "filter ?P ts = []" by (auto simp: filter_empty_conv)
    with False show ?thesis by (simp add: in_raw_range_def build_token_index_def Let_def)
  qed
qed

end
