(* ===== verification/EvidenceValidation.thy ===== *)
theory EvidenceValidation
  imports Json
begin

text \<open>
  The evidence-integrity validator (\<open>textsemantics/validation.py\<close>): which semantic units,
  references and relations a model returned are admissible against the immutable raw text.  A
  payload is a JSON object, as in the code; the accepted units are the code's dictionary from
  unit id to span, in insertion order.

  The detail text of a rejection is kept as a value with the interpolated numbers, and its
  \<open>record_id\<close> as the value whose \<open>str()\<close> the code stores.
\<close>

datatype violation =
    SPAN_OUT_OF_RANGE | SPAN_INVERTED | EVIDENCE_NOT_A_SLICE | EVIDENCE_MISSING
  | UNITS_OVERLAP | DUPLICATE_UNIT_ID | UNKNOWN_UNIT_ID | CANDIDATE_LIST_REQUIRED
  | UNKNOWN_CANDIDATE_UNIT_ID | REFERENT_NOT_A_CANDIDATE | RESOLVED_WITHOUT_TARGET
  | MALFORMED_RECORD

datatype semantic_fallback = RETAIN_RAW_ONLY | NEEDS_REVIEW | ABSTAIN

datatype record_kind = KUnit | KReference | KRelation

datatype detail =
    AtIndex nat | MissingId nat | IdSeenTwice | SpanNotIntegers | SpanText int int
  | Outside int int nat | NoEvidence string | NotAString string | SliceMismatch string ustr ustr
  | OverlapsUnit ustr int int | BadCandidate json | NoTarget | BadTarget json | NoCandidates
  | TargetNotOffered json | BadSource json

record rejection =
  rj_violation :: violation
  rj_kind :: record_kind
  rj_record_id :: "json option"
  rj_detail :: detail

record validation_report =
  accepted_unit_ids :: "ustr list"
  accepted_reference_indexes :: "nat list"
  accepted_relation_indexes :: "nat list"
  rejections :: "rejection list"

definition reject :: "violation \<Rightarrow> record_kind \<Rightarrow> json option \<Rightarrow> detail \<Rightarrow> rejection" where
  "reject v k i d = \<lparr>rj_violation = v, rj_kind = k, rj_record_id = i, rj_detail = d\<rparr>"

definition report_ok :: "validation_report \<Rightarrow> bool" where
  "report_ok r \<longleftrightarrow> rejections r = []"

definition report_fallback :: "validation_report \<Rightarrow> semantic_fallback option" where
  "report_fallback r =
     (if accepted_unit_ids r \<noteq> [] then None
      else Some (if rejections r \<noteq> [] then RETAIN_RAW_ONLY else ABSTAIN))"

type_synonym spans = "(ustr \<times> int \<times> int) list"

section \<open>The shared checks\<close>

fun as_sequence :: "json \<Rightarrow> json list" where
  "as_sequence (JList xs) = xs"
| "as_sequence _ = []"

fun as_span :: "json \<Rightarrow> json \<Rightarrow> (int \<times> int) option" where
  "as_span (JInt s) (JInt e) = Some (s, e)"
| "as_span _ _ = None"

fun truthy :: "json \<Rightarrow> bool" where
  "truthy JNull = False"
| "truthy (JBool b) = b"
| "truthy (JInt i) = (i \<noteq> 0)"
| "truthy (JFloat m e) = (m \<noteq> 0)"
| "truthy JNonFinite = True"
| "truthy (JStr s) = (s \<noteq> [])"
| "truthy (JList xs) = (xs \<noteq> [])"
| "truthy (JObj d) = (d \<noteq> [])"

definition raw_slice :: "ustr \<Rightarrow> int \<Rightarrow> int \<Rightarrow> ustr" where
  "raw_slice raw s e = slice raw (nat s) (nat e)"

definition check_evidence ::
  "ustr \<Rightarrow> (string \<times> json) list \<Rightarrow> json \<Rightarrow> int \<Rightarrow> int \<Rightarrow> record_kind \<Rightarrow> string \<Rightarrow> rejection option" where
  "check_evidence raw rec label s e kind key =
     (case jget rec key of
        JNull \<Rightarrow> Some (reject EVIDENCE_MISSING kind (Some label) (NoEvidence key))
      | JStr evidence \<Rightarrow>
          (if evidence \<noteq> raw_slice raw s e
           then Some (reject EVIDENCE_NOT_A_SLICE kind (Some label)
                        (SliceMismatch key evidence (raw_slice raw s e)))
           else None)
      | _ \<Rightarrow> Some (reject MALFORMED_RECORD kind (Some label) (NotAString key)))"

definition known_referent :: "ustr \<Rightarrow> spans \<Rightarrow> ustr list option \<Rightarrow> bool" where
  "known_referent r accepted allowed \<longleftrightarrow>
     r \<in> fst ` set accepted \<or> removeprefix r (lit ''current_unit:'') \<in> fst ` set accepted \<or>
     (case allowed of None \<Rightarrow> False | Some ids \<Rightarrow> r \<in> set ids)"

definition overlaps :: "int \<Rightarrow> int \<Rightarrow> int \<Rightarrow> int \<Rightarrow> bool" where
  "overlaps s e s' e' \<longleftrightarrow> s < e' \<and> s' < e"

text \<open>The range tests every kind of record shares, in the code's order.\<close>

definition check_range ::
  "ustr \<Rightarrow> int \<Rightarrow> int \<Rightarrow> record_kind \<Rightarrow> json \<Rightarrow> rejection option" where
  "check_range raw s e kind label =
     (if s \<ge> e then Some (reject SPAN_INVERTED kind (Some label) (SpanText s e))
      else if s < 0 \<or> e > int (length raw)
      then Some (reject SPAN_OUT_OF_RANGE kind (Some label) (Outside s e (length raw)))
      else None)"

section \<open>Units\<close>

definition validate_unit ::
  "ustr \<Rightarrow> json \<Rightarrow> nat \<Rightarrow> spans \<Rightarrow> rejection + (ustr \<times> int \<times> int)" where
  "validate_unit raw unit position accepted =
     (case unit of
        JObj u \<Rightarrow>
          (case jget u ''id'' of
             JStr unit_id \<Rightarrow>
               (if unit_id = [] then Inl (reject MALFORMED_RECORD KUnit None (MissingId position))
                else if unit_id \<in> fst ` set accepted
                then Inl (reject DUPLICATE_UNIT_ID KUnit (Some (JStr unit_id)) IdSeenTwice)
                else (case as_span (jget u ''raw_start'') (jget u ''raw_end'') of
                        None \<Rightarrow> Inl (reject MALFORMED_RECORD KUnit (Some (JStr unit_id)) SpanNotIntegers)
                      | Some (s, e) \<Rightarrow>
                          (case check_range raw s e KUnit (JStr unit_id) of
                             Some r \<Rightarrow> Inl r
                           | None \<Rightarrow>
                               (case check_evidence raw u (JStr unit_id) s e KUnit ''evidence'' of
                                  Some r \<Rightarrow> Inl r
                                | None \<Rightarrow>
                                    (case List.find (\<lambda>(i, s', e'). overlaps s e s' e') accepted of
                                       Some (i, s', e') \<Rightarrow>
                                         Inl (reject UNITS_OVERLAP KUnit (Some (JStr unit_id))
                                                (OverlapsUnit i s' e'))
                                     | None \<Rightarrow> Inr (unit_id, s, e))))))
           | _ \<Rightarrow> Inl (reject MALFORMED_RECORD KUnit None (MissingId position)))
      | _ \<Rightarrow> Inl (reject MALFORMED_RECORD KUnit None (AtIndex position)))"

fun accept_units ::
  "ustr \<Rightarrow> (nat \<times> json) list \<Rightarrow> spans \<Rightarrow> rejection list \<Rightarrow> spans \<times> rejection list" where
  "accept_units raw [] accepted rejs = (accepted, rejs)"
| "accept_units raw ((p, u) # us) accepted rejs =
     (case validate_unit raw u p accepted of
        Inl r \<Rightarrow> accept_units raw us accepted (rejs @ [r])
      | Inr a \<Rightarrow> accept_units raw us (accepted @ [a]) rejs)"

section \<open>References and relations\<close>

definition reference_target :: "(string \<times> json) list \<Rightarrow> json" where
  "reference_target d =
     (if ''selected_referent_id'' \<in> fst ` set d \<or> ''candidate_referent_ids'' \<in> fst ` set d
      then jget d ''selected_referent_id'' else jget d ''target_unit_id'')"

definition reference_offered :: "(string \<times> json) list \<Rightarrow> json list" where
  "reference_offered d =
     as_sequence (if ''selected_referent_id'' \<in> fst ` set d \<or> ''candidate_referent_ids'' \<in> fst ` set d
       then jget d ''candidate_referent_ids'' else jget d ''candidate_unit_ids'')"

definition candidate_known :: "spans \<Rightarrow> ustr list option \<Rightarrow> json \<Rightarrow> bool" where
  "candidate_known accepted allowed c =
     (case c of JStr r \<Rightarrow> known_referent r accepted allowed | _ \<Rightarrow> False)"

definition check_resolution ::
  "json \<Rightarrow> (string \<times> json) list \<Rightarrow> spans \<Rightarrow> ustr list option \<Rightarrow> rejection option" where
  "check_resolution label d accepted allowed =
     (let target = reference_target d; offered = reference_offered d;
          rej = (\<lambda>v t. Some (reject v KReference (Some label) t))
      in case List.find (\<lambda>c. \<not> candidate_known accepted allowed c) offered of
           Some c \<Rightarrow> rej UNKNOWN_CANDIDATE_UNIT_ID (BadCandidate c)
         | None \<Rightarrow>
             (if jget d ''status'' \<noteq> jlit ''resolved'' then None
              else case target of
                JStr t \<Rightarrow>
                  (if t = [] then rej RESOLVED_WITHOUT_TARGET NoTarget
                   else if \<not> known_referent t accepted allowed then rej UNKNOWN_UNIT_ID (BadTarget target)
                   else if offered = [] then rej CANDIDATE_LIST_REQUIRED NoCandidates
                   else if target \<notin> set offered
                   then rej REFERENT_NOT_A_CANDIDATE (TargetNotOffered target)
                   else None)
              | _ \<Rightarrow> rej RESOLVED_WITHOUT_TARGET NoTarget))"

definition validate_reference ::
  "ustr \<Rightarrow> json \<Rightarrow> nat \<Rightarrow> spans \<Rightarrow> ustr list option \<Rightarrow> rejection option" where
  "validate_reference raw reference position accepted allowed =
     (case reference of
        JObj d \<Rightarrow>
          (let label = jnat position in
           case as_span (jget d ''marker_start'') (jget d ''marker_end'') of
             None \<Rightarrow> Some (reject MALFORMED_RECORD KReference (Some label) SpanNotIntegers)
           | Some (s, e) \<Rightarrow>
               (case check_range raw s e KReference label of
                  Some r \<Rightarrow> Some r
                | None \<Rightarrow>
                    (case check_evidence raw d label s e KReference ''marker_evidence'' of
                       Some r \<Rightarrow> Some r
                     | None \<Rightarrow> check_resolution label d accepted allowed)))
      | _ \<Rightarrow> Some (reject MALFORMED_RECORD KReference None (AtIndex position)))"

definition relation_label :: "(string \<times> json) list \<Rightarrow> nat \<Rightarrow> json" where
  "relation_label d position = (if truthy (jget d ''id'') then jget d ''id'' else jnat position)"

definition source_known :: "spans \<Rightarrow> json \<Rightarrow> bool" where
  "source_known accepted v = (case v of JStr r \<Rightarrow> r \<in> fst ` set accepted | _ \<Rightarrow> False)"

definition validate_relation ::
  "ustr \<Rightarrow> json \<Rightarrow> nat \<Rightarrow> spans \<Rightarrow> ustr list option \<Rightarrow> rejection option" where
  "validate_relation raw relation position accepted allowed =
     (case relation of
        JObj d \<Rightarrow>
          (let label = relation_label d position;
               source = jget d ''source_unit_id''; target = jget d ''target_referent_id'' in
           if \<not> source_known accepted source
           then Some (reject UNKNOWN_UNIT_ID KRelation (Some label) (BadSource source))
           else if \<not> candidate_known accepted allowed target
           then Some (reject UNKNOWN_UNIT_ID KRelation (Some label) (BadTarget target))
           else case as_span (jget d ''evidence_start'') (jget d ''evidence_end'') of
             None \<Rightarrow> Some (reject MALFORMED_RECORD KRelation (Some label) SpanNotIntegers)
           | Some (s, e) \<Rightarrow>
               (case check_range raw s e KRelation label of
                  Some r \<Rightarrow> Some r
                | None \<Rightarrow> check_evidence raw d label s e KRelation ''evidence''))
      | _ \<Rightarrow> Some (reject MALFORMED_RECORD KRelation None (AtIndex position)))"

fun accept_by ::
  "(json \<Rightarrow> nat \<Rightarrow> rejection option) \<Rightarrow> (nat \<times> json) list \<Rightarrow> nat list \<Rightarrow> rejection list
     \<Rightarrow> nat list \<times> rejection list" where
  "accept_by check [] acc rejs = (acc, rejs)"
| "accept_by check ((p, r) # rs) acc rejs =
     (case check r p of
        Some j \<Rightarrow> accept_by check rs acc (rejs @ [j])
      | None \<Rightarrow> accept_by check rs (acc @ [p]) rejs)"

definition accepted_spans :: "ustr \<Rightarrow> (string \<times> json) list \<Rightarrow> spans" where
  "accepted_spans raw payload =
     fst (accept_units raw (enumerate0 (as_sequence (jget payload ''semantic_units''))) [] [])"

definition validate_semantic_evidence ::
  "ustr \<Rightarrow> (string \<times> json) list \<Rightarrow> ustr list option \<Rightarrow> validation_report" where
  "validate_semantic_evidence raw payload allowed =
     (let us = as_sequence (jget payload ''semantic_units'');
          refs = as_sequence (jget payload ''references'');
          rels = as_sequence (jget payload ''relations'');
          (accepted, rej1) = accept_units raw (enumerate0 us) [] [];
          (arefs, rej2) = accept_by (\<lambda>r p. validate_reference raw r p accepted allowed)
                            (enumerate0 refs) [] rej1;
          (arels, rej3) = accept_by (\<lambda>r p. validate_relation raw r p accepted allowed)
                            (enumerate0 rels) [] rej2
      in \<lparr>accepted_unit_ids = map fst accepted, accepted_reference_indexes = arefs,
          accepted_relation_indexes = arels, rejections = rej3\<rparr>)"


section \<open>What the checks establish\<close>

text \<open>A record cites raw text exactly: integer offsets in range and the quoted slice itself.\<close>

definition exact_citation ::
  "ustr \<Rightarrow> (string \<times> json) list \<Rightarrow> string \<Rightarrow> string \<Rightarrow> string \<Rightarrow> int \<Rightarrow> int \<Rightarrow> bool" where
  "exact_citation raw d ks ke kv s e \<longleftrightarrow>
     jget d ks = JInt s \<and> jget d ke = JInt e \<and> 0 \<le> s \<and> s < e \<and> e \<le> int (length raw) \<and>
     jget d kv = JStr (raw_slice raw s e)"

abbreviation exact_unit :: "ustr \<Rightarrow> json \<Rightarrow> ustr \<times> int \<times> int \<Rightarrow> bool" where
  "exact_unit raw u a \<equiv>
     (case a of (i, s, e) \<Rightarrow>
        i \<noteq> [] \<and> (\<exists>d. u = JObj d \<and> jget d ''id'' = JStr i \<and>
                     exact_citation raw d ''raw_start'' ''raw_end'' ''evidence'' s e))"

lemma as_span_Some [simp]: "as_span a b = Some (s, e) \<longleftrightarrow> a = JInt s \<and> b = JInt e"
  by (cases "(a, b)" rule: as_span.cases) auto

lemma check_range_None: "check_range raw s e k l = None \<longleftrightarrow> 0 \<le> s \<and> s < e \<and> e \<le> int (length raw)"
  by (auto simp: check_range_def)

lemma check_evidence_None:
  "check_evidence raw d l s e k key = None \<longleftrightarrow> jget d key = JStr (raw_slice raw s e)"
  by (auto simp: check_evidence_def split: json.splits)

lemmas check_None = check_range_None check_evidence_None

lemma check_SomeD:
  "check_range raw s e k l = Some r \<Longrightarrow> \<not> (0 \<le> s \<and> s < e \<and> e \<le> int (length raw))"
  "check_evidence raw d l s e k key = Some r \<Longrightarrow> jget d key \<noteq> JStr (raw_slice raw s e)"
  using check_range_None [of raw s e k l] check_evidence_None [of raw d l s e k key] by auto

text \<open>A unit is admitted exactly when its id is fresh, its citation exact and its span free.\<close>

lemma validate_unit_Inr:
  "validate_unit raw u p acc = Inr a \<longleftrightarrow>
     exact_unit raw u a \<and> fst a \<notin> fst ` set acc \<and>
     (\<forall>(i, s, e) \<in> set acc. \<not> overlaps (fst (snd a)) (snd (snd a)) s e)"
proof -
  obtain i s e where a: "a = (i, s, e)" by (cases a)
  have free: "List.find (\<lambda>(i, s', e'). overlaps s e s' e') acc = None \<longleftrightarrow>
      (\<forall>(i, s', e') \<in> set acc. \<not> overlaps s e s' e')" for s e
    by (auto simp: find_None_iff)
  show ?thesis
  proof (cases u)
    case (JObj d)
    show ?thesis
    proof (cases "jget d ''id''")
      case (JStr j)
      show ?thesis
        using free [of s e]
        by (auto simp: validate_unit_def JObj JStr a check_None exact_citation_def
            split: option.splits if_splits dest: check_SomeD)
    qed (auto simp: validate_unit_def JObj a)
  qed (auto simp: validate_unit_def a)
qed

definition spans_ok :: "ustr \<Rightarrow> json list \<Rightarrow> spans \<Rightarrow> bool" where
  "spans_ok raw us acc \<longleftrightarrow>
     distinct (map fst acc) \<and>
     (\<forall>a \<in> set acc. \<exists>u \<in> set us. exact_unit raw u a) \<and>
     sorted_wrt (\<lambda>(_, s, e) (_, s', e'). \<not> overlaps s e s' e') acc"

lemma overlaps_commute: "overlaps s e s' e' = overlaps s' e' s e"
  by (auto simp: overlaps_def)

lemma spans_ok_snoc:
  assumes "spans_ok raw us acc" and "validate_unit raw u p acc = Inr a" and "u \<in> set us"
  shows "spans_ok raw us (acc @ [a])"
proof -
  obtain i s e where a: "a = (i, s, e)" by (cases a)
  from assms(2) have v: "exact_unit raw u a" "i \<notin> fst ` set acc"
    "\<forall>(j, s', e') \<in> set acc. \<not> overlaps s e s' e'"
    by (auto simp: validate_unit_Inr a)
  have "\<forall>x \<in> set acc. (\<lambda>(_, s, e) (_, s', e'). \<not> overlaps s e s' e') x a"
    using v(3) by (auto simp: a overlaps_commute)
  with assms(1,3) v(1,2) show ?thesis
    by (auto simp: spans_ok_def sorted_wrt_append a)
qed

lemma accept_units_ok:
  assumes "spans_ok raw us acc" and "snd ` set ps \<subseteq> set us"
    and "accept_units raw ps acc rejs = (acc', rejs')"
  shows "spans_ok raw us acc'"
  using assms
proof (induction raw ps acc rejs rule: accept_units.induct)
  case (2 raw p u ps acc rejs)
  then show ?case
    by (cases "validate_unit raw u p acc") (auto intro: spans_ok_snoc)
qed simp

lemma accept_units_count:
  "accept_units raw ps acc rejs = (acc', rejs') \<Longrightarrow>
     length acc' + length rejs' = length acc + length rejs + length ps"
  by (induction raw ps acc rejs rule: accept_units.induct) (auto split: sum.splits)

lemma accept_by_count:
  "accept_by check ps acc rejs = (acc', rejs') \<Longrightarrow>
     length acc' + length rejs' = length acc + length rejs + length ps"
  by (induction check ps acc rejs rule: accept_by.induct) (auto split: option.splits)

lemma accept_by_members:
  "accept_by check ps acc rejs = (acc', rejs') \<Longrightarrow>
     acc' = acc @ map fst (filter (\<lambda>(p, r). check r p = None) ps)"
  by (induction check ps acc rejs arbitrary: acc' rejs' rule: accept_by.induct)
    (auto split: option.splits)

lemma accepted_enumerate:
  assumes "accept_by check (enumerate0 xs) [] rejs = (acc', rejs')"
  shows "i \<in> set acc' \<longleftrightarrow> i < length xs \<and> check (xs ! i) i = None"
proof -
  from accept_by_members [OF assms] have
    "acc' = map fst (filter (\<lambda>(p, r). check r p = None) (enumerate0 xs))" by simp
  then show ?thesis by (force simp: in_enumerate0 image_iff)
qed

text \<open>The report, with the folds named.\<close>

lemma report_eq:
  "\<exists>rej1 rej2. let r = validate_semantic_evidence raw payload allowed;
       A = accepted_spans raw payload in
     accept_units raw (enumerate0 (as_sequence (jget payload ''semantic_units''))) [] [] = (A, rej1) \<and>
     accept_by (\<lambda>x p. validate_reference raw x p A allowed)
       (enumerate0 (as_sequence (jget payload ''references''))) [] rej1
       = (accepted_reference_indexes r, rej2) \<and>
     accept_by (\<lambda>x p. validate_relation raw x p A allowed)
       (enumerate0 (as_sequence (jget payload ''relations''))) [] rej2
       = (accepted_relation_indexes r, rejections r) \<and>
     accepted_unit_ids r = map fst A"
  by (simp add: validate_semantic_evidence_def accepted_spans_def Let_def split: prod.splits)

lemma accepted_spans_ok:
  "spans_ok raw (as_sequence (jget payload ''semantic_units'')) (accepted_spans raw payload)"
proof -
  let ?us = "as_sequence (jget payload ''semantic_units'')"
  obtain rej where run:
    "accept_units raw (enumerate0 ?us) [] [] = (accepted_spans raw payload, rej)"
    by (cases "accept_units raw (enumerate0 ?us) [] []") (simp add: accepted_spans_def)
  have sub: "snd ` set (enumerate0 ?us) \<subseteq> set ?us" by (auto simp: in_enumerate0)
  have init: "spans_ok raw ?us []" by (simp add: spans_ok_def)
  show ?thesis by (rule accept_units_ok [OF init sub run])
qed

lemma check_resolution_None:
  "check_resolution label d acc allowed = None \<longleftrightarrow>
     (\<forall>c \<in> set (reference_offered d). candidate_known acc allowed c) \<and>
     (jget d ''status'' = jlit ''resolved'' \<longrightarrow>
        (\<exists>t. reference_target d = JStr t \<and> t \<noteq> [] \<and> known_referent t acc allowed \<and>
             JStr t \<in> set (reference_offered d)))"
proof -
  let ?bad = "List.find (\<lambda>c. \<not> candidate_known acc allowed c) (reference_offered d)"
  have bad: "?bad = None \<longleftrightarrow> (\<forall>c \<in> set (reference_offered d). candidate_known acc allowed c)"
    by (auto simp: find_None_iff)
  show ?thesis
  proof (cases ?bad)
    case None
    then show ?thesis
      using bad by (cases "reference_target d") (auto simp: check_resolution_def Let_def)
  next
    case (Some c)
    then show ?thesis using bad by (auto simp: check_resolution_def Let_def)
  qed
qed

lemma validate_reference_None:
  "validate_reference raw r p acc allowed = None \<longleftrightarrow>
     (\<exists>d s e. r = JObj d \<and> exact_citation raw d ''marker_start'' ''marker_end'' ''marker_evidence'' s e \<and>
        check_resolution (jnat p) d acc allowed = None)"
  by (auto simp: validate_reference_def exact_citation_def check_None Let_def
      split: json.splits option.splits dest: check_SomeD)

lemma validate_relation_None:
  "validate_relation raw r p acc allowed = None \<longleftrightarrow>
     (\<exists>d s e. r = JObj d \<and> exact_citation raw d ''evidence_start'' ''evidence_end'' ''evidence'' s e \<and>
        source_known acc (jget d ''source_unit_id'') \<and>
        candidate_known acc allowed (jget d ''target_referent_id''))"
  by (auto simp: validate_relation_def exact_citation_def check_None Let_def
      split: json.splits option.splits dest: check_SomeD)


text \<open>A report without rejections accepted everything, in order.\<close>

lemma accept_units_clean:
  "accept_units raw ps acc rejs = (acc', []) \<Longrightarrow>
     rejs = [] \<and> (\<exists>new. acc' = acc @ new \<and> list_all2 (\<lambda>p a. exact_unit raw (snd p) a) ps new)"
proof (induction raw ps acc rejs rule: accept_units.induct)
  case (2 raw p u ps acc rejs)
  show ?case
  proof (cases "validate_unit raw u p acc")
    case (Inl r)
    with 2 show ?thesis by auto
  next
    case (Inr a)
    with 2 obtain new where
      "rejs = []" "acc' = (acc @ [a]) @ new" "list_all2 (\<lambda>p a. exact_unit raw (snd p) a) ps new"
      by auto
    moreover from Inr have "exact_unit raw u a" by (simp add: validate_unit_Inr)
    ultimately show ?thesis by (intro conjI exI [of _ "a # new"]) simp_all
  qed
qed simp

lemma accept_by_clean:
  "accept_by check ps acc rejs = (acc', []) \<Longrightarrow> rejs = [] \<and> acc' = acc @ map fst ps"
  by (induction check ps acc rejs rule: accept_by.induct) (auto split: option.splits)

lemma clean_report:
  assumes "report_ok (validate_semantic_evidence raw payload allowed)"
  defines "r \<equiv> validate_semantic_evidence raw payload allowed"
  shows "list_all2 (exact_unit raw) (as_sequence (jget payload ''semantic_units'')) (accepted_spans raw payload)"
    and "accepted_unit_ids r = map fst (accepted_spans raw payload)"
    and "accepted_reference_indexes r = [0..<length (as_sequence (jget payload ''references''))]"
    and "accepted_relation_indexes r = [0..<length (as_sequence (jget payload ''relations''))]"
proof -
  let ?us = "as_sequence (jget payload ''semantic_units'')"
  let ?refs = "as_sequence (jget payload ''references'')"
  let ?rels = "as_sequence (jget payload ''relations'')"
  let ?A = "accepted_spans raw payload"
  obtain rej1 rej2 where
    u: "accept_units raw (enumerate0 ?us) [] [] = (?A, rej1)" and
    f: "accept_by (\<lambda>x p. validate_reference raw x p ?A allowed) (enumerate0 ?refs) [] rej1
       = (accepted_reference_indexes r, rej2)" and
    l: "accept_by (\<lambda>x p. validate_relation raw x p ?A allowed) (enumerate0 ?rels) [] rej2
       = (accepted_relation_indexes r, rejections r)" and
    "accepted_unit_ids r = map fst ?A"
    using report_eq [of raw payload allowed] unfolding r_def by (auto simp: Let_def)
  then show "accepted_unit_ids r = map fst ?A" by simp
  have "rejections r = []" using assms(1) by (simp add: r_def report_ok_def)
  with l have l2: "rej2 = []" "accepted_relation_indexes r = map fst (enumerate0 ?rels)"
    using accept_by_clean by fastforce+
  with f have f2: "rej1 = []" "accepted_reference_indexes r = map fst (enumerate0 ?refs)"
    using accept_by_clean by fastforce+
  have fst_enum: "map fst (enumerate0 xs) = [0..<length xs]" for xs :: "json list"
    by (simp add: enumerate0_def)
  show "accepted_relation_indexes r = [0..<length ?rels]" "accepted_reference_indexes r = [0..<length ?refs]"
    using l2 f2 fst_enum by simp_all
  from u f2 have "list_all2 (\<lambda>p a. exact_unit raw (snd p) a) (enumerate0 ?us) ?A"
    using accept_units_clean by fastforce
  then have "list_all2 (exact_unit raw) (map snd (enumerate0 ?us)) ?A"
    by (simp add: list_all2_map1)
  then show "list_all2 (exact_unit raw) ?us ?A" by (simp add: enumerate0_def)
qed


section \<open>Properties\<close>

text \<open>A payload with two units of \<open>"I like tea. It helps."\<close> and a reference between them.\<close>

definition demo_raw :: ustr where
  "demo_raw = lit ''I like tea. It helps.''"

definition demo_unit :: "string \<Rightarrow> nat \<Rightarrow> nat \<Rightarrow> json" where
  "demo_unit i s e = JObj [(''id'', jlit i), (''raw_start'', jnat s), (''raw_end'', jnat e),
     (''evidence'', JStr (slice demo_raw s e))]"

definition demo_payload :: "(string \<times> json) list" where
  "demo_payload =
     [(''semantic_units'', JList [demo_unit ''u1'' 0 11, demo_unit ''u2'' 12 21, demo_unit ''u3'' 5 9]),
      (''references'', JList [JObj [(''marker_start'', JInt 12), (''marker_end'', JInt 14),
         (''marker_evidence'', jlit ''It''), (''status'', jlit ''resolved''),
         (''selected_referent_id'', jlit ''current_unit:u1''),
         (''candidate_referent_ids'', JList [jlit ''current_unit:u1''])]]),
      (''relations'', JList [])]"

lemma demo_report:
  "validate_semantic_evidence demo_raw demo_payload None =
     \<lparr>accepted_unit_ids = [lit ''u1'', lit ''u2''], accepted_reference_indexes = [0],
      accepted_relation_indexes = [],
      rejections = [reject UNITS_OVERLAP KUnit (Some (jlit ''u3'')) (OverlapsUnit (lit ''u1'') 0 11)]\<rparr>"
  by code_simp

lemma demo_spans:
  "accepted_spans demo_raw demo_payload = [(lit ''u1'', 0, 11), (lit ''u2'', 12, 21)]"
  by code_simp

text \<open>
  Property C20 (evidence_units_exact): the accepted unit ids are distinct, every accepted unit
  comes from a unit of the payload whose span lies inside the raw text and whose evidence is the
  exact slice of it, and no two accepted units overlap.
\<close>

theorem evidence_units_exact:
  "let A = accepted_spans raw payload in
     accepted_unit_ids (validate_semantic_evidence raw payload allowed) = map fst A \<and>
     distinct (map fst A) \<and>
     (\<forall>(i, s, e) \<in> set A. 0 \<le> s \<and> s < e \<and> e \<le> int (length raw) \<and>
        (\<exists>u \<in> set (as_sequence (jget payload ''semantic_units'')). exact_unit raw u (i, s, e))) \<and>
     sorted_wrt (\<lambda>(_, s, e) (_, s', e'). \<not> overlaps s e s' e') A"
proof -
  let ?A = "accepted_spans raw payload" and ?us = "as_sequence (jget payload ''semantic_units'')"
  have ok: "spans_ok raw ?us ?A" by (rule accepted_spans_ok)
  have "0 \<le> s \<and> s < e \<and> e \<le> int (length raw)" if "exact_unit raw u (i, s, e)" for u i s e
    using that by (auto simp: exact_citation_def)
  with ok have "\<forall>(i, s, e) \<in> set ?A. 0 \<le> s \<and> s < e \<and> e \<le> int (length raw) \<and>
      (\<exists>u \<in> set ?us. exact_unit raw u (i, s, e))"
    unfolding spans_ok_def by fast
  with ok report_eq [of raw payload allowed] show ?thesis
    by (auto simp: Let_def spans_ok_def)
qed

theorem evidence_units_exact_witness:
  "(lit ''u2'', 12, 21) \<in> set (accepted_spans demo_raw demo_payload) \<and>
   (\<exists>u \<in> set (as_sequence (jget demo_payload ''semantic_units'')). exact_unit demo_raw u (lit ''u2'', 12, 21))"
proof -
  have m: "(lit ''u2'', 12, 21) \<in> set (accepted_spans demo_raw demo_payload)"
    by (simp add: demo_spans)
  with evidence_units_exact [of demo_raw demo_payload None] show ?thesis
    unfolding Let_def by fast
qed

text \<open>
  Also proved (evidence_links_admissible): an accepted reference cites its marker exactly, offers
  only known referents and, when resolved, selects one of the referents it offers; an accepted
  relation cites its evidence exactly, starts at an accepted unit and ends at a known referent.
\<close>

theorem evidence_links_admissible:
  fixes raw payload allowed
  defines "r \<equiv> validate_semantic_evidence raw payload allowed"
    and "A \<equiv> accepted_spans raw payload"
    and "refs \<equiv> as_sequence (jget payload ''references'')"
    and "rels \<equiv> as_sequence (jget payload ''relations'')"
  shows "(\<forall>i \<in> set (accepted_reference_indexes r). i < length refs \<and>
      (\<exists>d s e. refs ! i = JObj d \<and>
         exact_citation raw d ''marker_start'' ''marker_end'' ''marker_evidence'' s e \<and>
         (\<forall>c \<in> set (reference_offered d). candidate_known A allowed c) \<and>
         (jget d ''status'' = jlit ''resolved'' \<longrightarrow>
            (\<exists>t. reference_target d = JStr t \<and> known_referent t A allowed \<and>
                 JStr t \<in> set (reference_offered d))))) \<and>
    (\<forall>i \<in> set (accepted_relation_indexes r). i < length rels \<and>
      (\<exists>d s e. rels ! i = JObj d \<and>
         exact_citation raw d ''evidence_start'' ''evidence_end'' ''evidence'' s e \<and>
         source_known A (jget d ''source_unit_id'') \<and>
         candidate_known A allowed (jget d ''target_referent_id'')))"
proof -
  obtain rej1 rej2 where
    refs: "accept_by (\<lambda>x p. validate_reference raw x p A allowed) (enumerate0 refs) [] rej1
       = (accepted_reference_indexes r, rej2)" and
    rels: "accept_by (\<lambda>x p. validate_relation raw x p A allowed) (enumerate0 rels) [] rej2
       = (accepted_relation_indexes r, rejections r)"
    using report_eq [of raw payload allowed] by (auto simp: Let_def r_def A_def refs_def rels_def)
  show ?thesis
    by (intro conjI ballI; drule accepted_enumerate [OF refs, THEN iffD1] accepted_enumerate [OF rels, THEN iffD1])
      (blast dest: validate_reference_None [THEN iffD1] validate_relation_None [THEN iffD1]
        check_resolution_None [THEN iffD1])+
qed

theorem evidence_links_admissible_witness:
  "\<exists>d. as_sequence (jget demo_payload ''references'') ! 0 = JObj d \<and>
     (\<exists>t. reference_target d = JStr t \<and> JStr t \<in> set (reference_offered d))"
proof -
  have m: "0 \<in> set (accepted_reference_indexes (validate_semantic_evidence demo_raw demo_payload None))"
    by (simp add: demo_report)
  obtain d where d: "as_sequence (jget demo_payload ''references'') ! 0 = JObj d"
    by (simp add: demo_payload_def)
  then have "jget d ''status'' = jlit ''resolved''" by (auto simp: demo_payload_def)
  with d m evidence_links_admissible [of demo_raw demo_payload None] show ?thesis by fastforce
qed

text \<open>
  Also proved (evidence_no_silent_drop): every unit, reference and relation of the payload is
  either accepted or named by exactly one rejection.
\<close>

theorem evidence_no_silent_drop:
  "let r = validate_semantic_evidence raw payload allowed in
     length (accepted_unit_ids r) + length (accepted_reference_indexes r) +
     length (accepted_relation_indexes r) + length (rejections r) =
     length (as_sequence (jget payload ''semantic_units'')) +
     length (as_sequence (jget payload ''references'')) +
     length (as_sequence (jget payload ''relations''))"
proof -
  obtain rej1 rej2 where
    "accept_units raw (enumerate0 (as_sequence (jget payload ''semantic_units''))) [] []
       = (accepted_spans raw payload, rej1)"
    "accept_by (\<lambda>x p. validate_reference raw x p (accepted_spans raw payload) allowed)
       (enumerate0 (as_sequence (jget payload ''references''))) [] rej1
       = (accepted_reference_indexes (validate_semantic_evidence raw payload allowed), rej2)"
    "accept_by (\<lambda>x p. validate_relation raw x p (accepted_spans raw payload) allowed)
       (enumerate0 (as_sequence (jget payload ''relations''))) [] rej2
       = (accepted_relation_indexes (validate_semantic_evidence raw payload allowed),
          rejections (validate_semantic_evidence raw payload allowed))"
    "accepted_unit_ids (validate_semantic_evidence raw payload allowed)
       = map fst (accepted_spans raw payload)"
    using report_eq [of raw payload allowed] by (auto simp: Let_def)
  then show ?thesis
    by (auto simp: Let_def enumerate0_def dest!: accept_units_count accept_by_count)
qed

end
