(* ===== verification/CandidatePolicy.thy ===== *)
theory CandidatePolicy
  imports PyText
begin

text \<open>
  The closed policies between a routed, gated text unit and a candidate: the gate policy
  (\<open>semantic/gate_policy.py\<close>), the source-trust policy (\<open>semantic/provenance_policy.py\<close>), the
  route-to-candidate mapping (\<open>semantic/candidate_mapping.py\<close>), the choice of the authoritative
  route (\<open>semantic/authority.py\<close>).  Enumerations are the enums of \<open>models/memory_worker.py\<close>; an
  argument typed \<open>Enum | str | None\<close> is an \<open>enum_arg\<close>.
\<close>

section \<open>Enumerations\<close>

datatype gate_decision = GD_DISCARD | GD_RETAIN_RAW_ONLY | GD_ANALYZE | GD_ANALYZE_HIGH_CONFIDENCE
  | GD_MANUAL_REVIEW

datatype route_type = RT_IGNORE | RT_PROJECT_CONTEXT | RT_WORKFLOW_POLICY | RT_TEAM_OBLIGATION
  | RT_PROMPT_INSTRUCTION | RT_STYLE_POLICY | RT_TERMINOLOGY_RULE | RT_USER_PREFERENCE
  | RT_EMOTIONAL_STANCE | RT_PROCESS_FACT | RT_JIRA_CONFIGURATION | RT_TASK_CONSTRAINT
  | RT_RESOURCE_REFERENCE | RT_PRIVACY_REVIEW | RT_MANUAL_REVIEW

datatype route_status = RS_PENDING | RS_READY | RS_IGNORED | RS_FAILED

datatype candidate_status = CS_PENDING | CS_VALIDATED | CS_REJECTED | CS_NEEDS_REVIEW
  | CS_READY_FOR_CONSOLIDATION

datatype candidate_type = CT_FACT | CT_PREFERENCE | CT_GOAL | CT_CONSTRAINT | CT_DECISION
  | CT_INSTRUCTION | CT_DEFINITION | CT_EPISODE | CT_FEEDBACK | CT_RELATIONSHIP | CT_IDENTITY
  | CT_STYLE | CT_UNRESOLVED_QUESTION

datatype source_authority = SA_USER_EXPLICIT | SA_USER_IMPLIED | SA_ASSISTANT_CLAIM
  | SA_TOOL_OBSERVATION | SA_SYSTEM_INSTRUCTION | SA_IMPORTED_RECORD

datatype explicitness = EX_EXPLICIT | EX_IMPLIED | EX_INFERRED

fun gate_value :: "gate_decision \<Rightarrow> string" where
  "gate_value GD_DISCARD = ''discard''"
| "gate_value GD_RETAIN_RAW_ONLY = ''retain_raw_only''"
| "gate_value GD_ANALYZE = ''analyze''"
| "gate_value GD_ANALYZE_HIGH_CONFIDENCE = ''analyze_high_confidence''"
| "gate_value GD_MANUAL_REVIEW = ''manual_review''"

fun route_type_value :: "route_type \<Rightarrow> string" where
  "route_type_value RT_IGNORE = ''ignore''"
| "route_type_value RT_PROJECT_CONTEXT = ''project_context''"
| "route_type_value RT_WORKFLOW_POLICY = ''workflow_policy''"
| "route_type_value RT_TEAM_OBLIGATION = ''team_obligation''"
| "route_type_value RT_PROMPT_INSTRUCTION = ''prompt_instruction''"
| "route_type_value RT_STYLE_POLICY = ''style_policy''"
| "route_type_value RT_TERMINOLOGY_RULE = ''terminology_rule''"
| "route_type_value RT_USER_PREFERENCE = ''user_preference''"
| "route_type_value RT_EMOTIONAL_STANCE = ''emotional_stance''"
| "route_type_value RT_PROCESS_FACT = ''process_fact''"
| "route_type_value RT_JIRA_CONFIGURATION = ''jira_configuration''"
| "route_type_value RT_TASK_CONSTRAINT = ''task_constraint''"
| "route_type_value RT_RESOURCE_REFERENCE = ''resource_reference''"
| "route_type_value RT_PRIVACY_REVIEW = ''privacy_review''"
| "route_type_value RT_MANUAL_REVIEW = ''manual_review''"

fun route_status_value :: "route_status \<Rightarrow> string" where
  "route_status_value RS_PENDING = ''pending''"
| "route_status_value RS_READY = ''ready''"
| "route_status_value RS_IGNORED = ''ignored''"
| "route_status_value RS_FAILED = ''failed''"

fun candidate_status_value :: "candidate_status \<Rightarrow> string" where
  "candidate_status_value CS_PENDING = ''pending''"
| "candidate_status_value CS_VALIDATED = ''validated''"
| "candidate_status_value CS_REJECTED = ''rejected''"
| "candidate_status_value CS_NEEDS_REVIEW = ''needs_review''"
| "candidate_status_value CS_READY_FOR_CONSOLIDATION = ''ready_for_consolidation''"

fun candidate_type_value :: "candidate_type \<Rightarrow> string" where
  "candidate_type_value CT_FACT = ''fact''"
| "candidate_type_value CT_PREFERENCE = ''preference''"
| "candidate_type_value CT_GOAL = ''goal''"
| "candidate_type_value CT_CONSTRAINT = ''constraint''"
| "candidate_type_value CT_DECISION = ''decision''"
| "candidate_type_value CT_INSTRUCTION = ''instruction''"
| "candidate_type_value CT_DEFINITION = ''definition''"
| "candidate_type_value CT_EPISODE = ''episode''"
| "candidate_type_value CT_FEEDBACK = ''feedback''"
| "candidate_type_value CT_RELATIONSHIP = ''relationship''"
| "candidate_type_value CT_IDENTITY = ''identity''"
| "candidate_type_value CT_STYLE = ''style''"
| "candidate_type_value CT_UNRESOLVED_QUESTION = ''unresolved_question''"

fun source_authority_value :: "source_authority \<Rightarrow> string" where
  "source_authority_value SA_USER_EXPLICIT = ''user_explicit''"
| "source_authority_value SA_USER_IMPLIED = ''user_implied''"
| "source_authority_value SA_ASSISTANT_CLAIM = ''assistant_claim''"
| "source_authority_value SA_TOOL_OBSERVATION = ''tool_observation''"
| "source_authority_value SA_SYSTEM_INSTRUCTION = ''system_instruction''"
| "source_authority_value SA_IMPORTED_RECORD = ''imported_record''"

fun explicitness_value :: "explicitness \<Rightarrow> string" where
  "explicitness_value EX_EXPLICIT = ''explicit''"
| "explicitness_value EX_IMPLIED = ''implied''"
| "explicitness_value EX_INFERRED = ''inferred''"

definition all_gate_decisions :: "gate_decision list" where
  "all_gate_decisions = [GD_DISCARD, GD_RETAIN_RAW_ONLY, GD_ANALYZE, GD_ANALYZE_HIGH_CONFIDENCE,
     GD_MANUAL_REVIEW]"

definition all_route_types :: "route_type list" where
  "all_route_types = [RT_IGNORE, RT_PROJECT_CONTEXT, RT_WORKFLOW_POLICY, RT_TEAM_OBLIGATION,
     RT_PROMPT_INSTRUCTION, RT_STYLE_POLICY, RT_TERMINOLOGY_RULE, RT_USER_PREFERENCE,
     RT_EMOTIONAL_STANCE, RT_PROCESS_FACT, RT_JIRA_CONFIGURATION, RT_TASK_CONSTRAINT,
     RT_RESOURCE_REFERENCE, RT_PRIVACY_REVIEW, RT_MANUAL_REVIEW]"

text \<open>\<open>SomeStrEnum(text)\<close>: the member whose value is the text, or the \<open>ValueError\<close>.\<close>

definition enum_parse :: "('e \<Rightarrow> string) \<Rightarrow> 'e list \<Rightarrow> string \<Rightarrow> 'e option" where
  "enum_parse val members s = List.find (\<lambda>e. val e = s) members"

datatype 'e enum_arg = AsEnum 'e | AsStr string | AsNone

lemma enum_parse_Some: "enum_parse val ms s = Some e \<Longrightarrow> val e = s \<and> e \<in> set ms"
  by (auto simp: enum_parse_def find_Some_iff)

lemma route_type_roundtrip: "enum_parse route_type_value all_route_types (route_type_value r) = Some r"
  by (cases r) (simp_all add: enum_parse_def all_route_types_def)

lemma gate_roundtrip: "enum_parse gate_value all_gate_decisions (gate_value g) = Some g"
  by (cases g) (simp_all add: enum_parse_def all_gate_decisions_def)

section \<open>Gate policy\<close>

record gate_candidate_policy =
  gcp_gate_decision :: "string option"
  gcp_route_type :: "string option"
  gcp_route_status :: "string option"
  allows_analysis :: bool
  allows_candidate_creation :: bool
  allows_automatic_memory_creation :: bool
  requires_high_confidence_pass :: bool
  gcp_reason_codes :: "string list"

fun gate_arg :: "gate_decision enum_arg \<Rightarrow> gate_decision option" where
  "gate_arg (AsEnum g) = Some g"
| "gate_arg AsNone = None"
| "gate_arg (AsStr s) = enum_parse gate_value all_gate_decisions s"

fun arg_value :: "('e \<Rightarrow> string) \<Rightarrow> 'e enum_arg \<Rightarrow> string option" where
  "arg_value val (AsEnum e) = Some (val e)"
| "arg_value val AsNone = None"
| "arg_value val (AsStr s) = Some s"

definition analysis_gates :: "gate_decision set" where
  "analysis_gates = {GD_ANALYZE, GD_ANALYZE_HIGH_CONFIDENCE, GD_MANUAL_REVIEW}"

definition candidate_gates :: "gate_decision set" where
  "candidate_gates = {GD_ANALYZE, GD_ANALYZE_HIGH_CONFIDENCE}"

definition gate_in :: "gate_decision option \<Rightarrow> gate_decision set \<Rightarrow> bool" where
  "gate_in g G = (case g of None \<Rightarrow> False | Some x \<Rightarrow> x \<in> G)"

definition gate_allows_analysis :: "gate_decision enum_arg \<Rightarrow> bool" where
  "gate_allows_analysis a = gate_in (gate_arg a) analysis_gates"

definition gate_allows_candidate_creation :: "gate_decision enum_arg \<Rightarrow> bool" where
  "gate_allows_candidate_creation a = gate_in (gate_arg a) candidate_gates"

definition gate_reasons :: "gate_decision option \<Rightarrow> bool \<Rightarrow> string list" where
  "gate_reasons gate high =
     (case gate of
        None \<Rightarrow> [''missing_gate_decision'']
      | Some GD_DISCARD \<Rightarrow> [''gate_discard'']
      | Some GD_RETAIN_RAW_ONLY \<Rightarrow> [''gate_retain_raw_only'']
      | Some GD_MANUAL_REVIEW \<Rightarrow> [''gate_manual_review_blocks_automatic_candidates'']
      | Some GD_ANALYZE_HIGH_CONFIDENCE \<Rightarrow> [''gate_requires_high_confidence_pass'']
      | Some GD_ANALYZE \<Rightarrow> (if high then [''gate_requires_high_confidence_pass''] else []))"

definition candidate_policy_for_gate_and_route ::
  "gate_decision enum_arg \<Rightarrow> route_type enum_arg \<Rightarrow> route_status enum_arg \<Rightarrow> bool
     \<Rightarrow> gate_candidate_policy" where
  "candidate_policy_for_gate_and_route gate_decision rtype rstatus high =
     (let gate = gate_arg gate_decision;
          rt = arg_value route_type_value rtype;
          rs = arg_value route_status_value rstatus;
          ignored = (rt = Some (route_type_value RT_IGNORE) \<or> rs = Some (route_status_value RS_IGNORED));
          not_ready = (rs \<noteq> Some (route_status_value RS_READY));
          allowed = gate_in gate candidate_gates \<and> \<not> ignored \<and> \<not> not_ready;
          reasons = gate_reasons gate high @
            (if ignored then [''route_ignored''] else if not_ready then [''route_not_ready''] else []);
          reasons' = (if \<not> allowed \<and> reasons = [] then [''candidate_creation_not_allowed''] else reasons)
      in \<lparr>gcp_gate_decision = map_option gate_value gate,
          gcp_route_type = rt, gcp_route_status = rs,
          allows_analysis = gate_in gate analysis_gates,
          allows_candidate_creation = allowed,
          allows_automatic_memory_creation = allowed,
          requires_high_confidence_pass = (high \<or> gate = Some GD_ANALYZE_HIGH_CONFIDENCE),
          gcp_reason_codes = reasons'\<rparr>)"


section \<open>Provenance policy\<close>

definition factual_tool_routes :: "route_type set" where
  "factual_tool_routes =
     {RT_JIRA_CONFIGURATION, RT_PROCESS_FACT, RT_PROJECT_CONTEXT, RT_RESOURCE_REFERENCE}"

definition system_directive_routes :: "route_type set" where
  "system_directive_routes =
     {RT_PROMPT_INSTRUCTION, RT_STYLE_POLICY, RT_TASK_CONSTRAINT, RT_TERMINOLOGY_RULE,
      RT_WORKFLOW_POLICY}"

definition review_routes :: "route_type set" where
  "review_routes = {RT_MANUAL_REVIEW, RT_PRIVACY_REVIEW}"

definition assistant_artifact_routes :: "route_type set" where
  "assistant_artifact_routes = {RT_PROJECT_CONTEXT, RT_PROCESS_FACT, RT_RESOURCE_REFERENCE}"

lemmas route_sets = factual_tool_routes_def system_directive_routes_def review_routes_def
  assistant_artifact_routes_def

record provenance_decision =
  pd_source_authority :: source_authority
  pd_explicitness :: explicitness
  pd_status :: candidate_status
  pd_allows_candidate :: bool
  pd_allows_memory :: bool
  pd_reason_codes :: "string list"

text \<open>The branch on the origin of the text: authority, explicitness, status, the two permissions
  and the reasons, before the routes that need review.\<close>

definition provenance_by_origin ::
  "string \<Rightarrow> route_type \<Rightarrow> candidate_status \<Rightarrow> bool
     \<Rightarrow> source_authority \<times> explicitness \<times> candidate_status \<times> bool \<times> bool \<times> string list" where
  "provenance_by_origin role rt st imported =
     (let ready = (st = CS_READY_FOR_CONSOLIDATION) in
      if imported then (SA_IMPORTED_RECORD, EX_INFERRED, st, True, ready, [])
      else if role = ''assistant'' then
        (if rt \<in> assistant_artifact_routes
         then (SA_ASSISTANT_CLAIM, EX_INFERRED, st, True, ready, [''assistant_project_artifact''])
         else (SA_ASSISTANT_CLAIM, EX_INFERRED, CS_REJECTED, True, False,
               [''assistant_claim_not_user_authoritative'']))
      else if role = ''tool'' then
        (if rt \<notin> factual_tool_routes
         then (SA_TOOL_OBSERVATION, EX_EXPLICIT, st, False, False,
               [''tool_route_not_provenance_compatible''])
         else (SA_TOOL_OBSERVATION, EX_EXPLICIT, st, True, ready, []))
      else if role = ''system'' then
        (if rt \<notin> system_directive_routes
         then (SA_SYSTEM_INSTRUCTION, EX_EXPLICIT, st, False, False,
               [''system_route_not_provenance_compatible''])
         else (SA_SYSTEM_INSTRUCTION, EX_EXPLICIT, st, True, ready, []))
      else (SA_USER_EXPLICIT, EX_EXPLICIT, st, True, ready, []))"

definition decide_candidate_provenance ::
  "string \<Rightarrow> route_type \<Rightarrow> candidate_status \<Rightarrow> bool \<Rightarrow> provenance_decision" where
  "decide_candidate_provenance role rt st imported =
     (let (auth, ex, st1, cand, mem, rs) = provenance_by_origin role rt st imported;
          review = (rt \<in> review_routes);
          st2 = (if review \<and> st1 \<noteq> CS_REJECTED then CS_NEEDS_REVIEW else st1);
          mem2 = (mem \<and> \<not> review);
          rs2 = (if review then rs @ [''route_requires_manual_review''] else rs)
      in \<lparr>pd_source_authority = auth, pd_explicitness = ex, pd_status = st2,
          pd_allows_candidate = cand, pd_allows_memory = (mem2 \<and> cand), pd_reason_codes = rs2\<rparr>)"

section \<open>From a route to the shape of a candidate\<close>

text \<open>\<open>importance\<close> is kept in hundredths: the code stores the literal and never computes with it.\<close>

record route_candidate_mapping =
  rcm_route_type :: route_type
  rcm_candidate_type :: candidate_type
  rcm_subject_key :: string
  rcm_predicate :: string
  rcm_object_value :: ustr
  rcm_normalized_text :: ustr
  rcm_importance :: nat
  rcm_status :: candidate_status
  rcm_rejection_reason_codes :: "string list"

definition message_subject :: "string option \<Rightarrow> string" where
  "message_subject m =
     (case m of None \<Rightarrow> ''message'' | Some u \<Rightarrow> (if u = [] then ''message'' else ''message:'' @ u))"

fun route_value :: "route_type enum_arg \<Rightarrow> route_type option" where
  "route_value (AsEnum r) = Some r"
| "route_value AsNone = None"
| "route_value (AsStr s) = enum_parse route_type_value all_route_types s"

definition candidate_profile ::
  "route_type \<Rightarrow> string option \<Rightarrow> candidate_type \<times> string \<times> string \<times> nat" where
  "candidate_profile r m =
     (case r of
        RT_USER_PREFERENCE \<Rightarrow> (CT_PREFERENCE, ''user'', ''preference'', 70)
      | RT_STYLE_POLICY \<Rightarrow> (CT_STYLE, ''user'', ''style_policy'', 72)
      | RT_TERMINOLOGY_RULE \<Rightarrow> (CT_DEFINITION, ''term'', ''meaning'', 70)
      | RT_TASK_CONSTRAINT \<Rightarrow> (CT_CONSTRAINT, ''project'', ''constraint'', 85)
      | RT_WORKFLOW_POLICY \<Rightarrow> (CT_CONSTRAINT, ''project'', ''constraint'', 85)
      | RT_TEAM_OBLIGATION \<Rightarrow> (CT_GOAL, ''team'', ''obligation'', 84)
      | RT_PROMPT_INSTRUCTION \<Rightarrow> (CT_INSTRUCTION, ''prompt'', ''instruction'', 82)
      | RT_JIRA_CONFIGURATION \<Rightarrow> (CT_FACT, ''jira'', ''configuration'', 68)
      | RT_RESOURCE_REFERENCE \<Rightarrow> (CT_FACT, ''resource'', ''reference'', 62)
      | RT_PROJECT_CONTEXT \<Rightarrow> (CT_FACT, ''project'', ''context'', 62)
      | RT_EMOTIONAL_STANCE \<Rightarrow> (CT_FEEDBACK, ''user'', ''emotional_stance'', 55)
      | RT_PRIVACY_REVIEW \<Rightarrow> (CT_INSTRUCTION, ''privacy'', ''review_request'', 90)
      | RT_MANUAL_REVIEW \<Rightarrow> (CT_FACT, message_subject m, ''manual_review'', 50)
      | _ \<Rightarrow> (CT_FACT, message_subject m, ''states'', 55))"

definition normalized_text_of :: "unidb \<Rightarrow> candidate_type \<Rightarrow> string \<Rightarrow> string \<Rightarrow> ustr \<Rightarrow> ustr" where
  "normalized_text_of U ct subject predicate v =
     py_strip U (lit (candidate_type_value ct @ '':'' @ subject @ '':'' @ predicate @ '':'') @ v)"

definition candidate_mapping_for_route ::
  "unidb \<Rightarrow> route_type enum_arg \<Rightarrow> ustr \<Rightarrow> string option \<Rightarrow> route_candidate_mapping option" where
  "candidate_mapping_for_route U rt text m =
     (let v = py_strip U text in
      case route_value rt of
        None \<Rightarrow> None
      | Some r \<Rightarrow>
          if r = RT_IGNORE \<or> v = [] then None
          else
            (let (ct, subject, predicate, importance) = candidate_profile r m;
                 review = (r \<in> {RT_PRIVACY_REVIEW, RT_MANUAL_REVIEW})
             in Some \<lparr>rcm_route_type = r, rcm_candidate_type = ct, rcm_subject_key = subject,
                  rcm_predicate = predicate, rcm_object_value = v,
                  rcm_normalized_text = normalized_text_of U ct subject predicate v,
                  rcm_importance = importance,
                  rcm_status = (if review then CS_NEEDS_REVIEW else CS_READY_FOR_CONSOLIDATION),
                  rcm_rejection_reason_codes =
                    (if review then [route_type_value r @ ''_requires_manual_review''] else [])\<rparr>))"

definition context_kinds :: "string set" where
  "context_kinds = {''Decision'', ''ProjectArtifact'', ''ProjectState'', ''FactClaim'', ''Hypothesis'',
     ''Correction'', ''Retraction'', ''statement'', ''explanation''}"

definition route_for_kind :: "string \<Rightarrow> route_type option" where
  "route_for_kind kind =
     (if kind = ''Instruction'' \<or> kind = ''instruction'' then Some RT_PROMPT_INSTRUCTION
      else if kind \<in> {''Need'', ''LearningGoal''} then Some RT_TEAM_OBLIGATION
      else if kind = ''Preference'' then Some RT_USER_PREFERENCE
      else if kind = ''Constraint'' then Some RT_TASK_CONSTRAINT
      else if kind = ''Feedback'' then Some RT_EMOTIONAL_STANCE
      else if kind \<in> context_kinds then Some RT_PROJECT_CONTEXT
      else None)"

definition candidate_mapping_for_semantic_unit ::
  "unidb \<Rightarrow> string \<Rightarrow> ustr \<Rightarrow> string \<Rightarrow> string option \<Rightarrow> route_candidate_mapping option" where
  "candidate_mapping_for_semantic_unit U unit_type text m memory_kind =
     (let kind = (case memory_kind of None \<Rightarrow> unit_type | Some k \<Rightarrow> (if k = [] then unit_type else k)) in
      case route_for_kind kind of
        None \<Rightarrow> None
      | Some r \<Rightarrow> candidate_mapping_for_route U (AsEnum r) text (Some m))"

section \<open>The authoritative route of a unit\<close>

record route_reference =
  rr_route_uuid :: string
  rr_annotation_uuid :: string
  rr_route_type :: route_type
  rr_route_status :: route_status
  rr_priority :: int

definition route_rank :: "route_reference \<Rightarrow> bool \<times> bool \<times> int \<times> string" where
  "route_rank r = (rr_route_status r \<noteq> RS_READY, rr_route_type r = RT_IGNORE,
                   - rr_priority r, rr_route_uuid r)"

definition select_authoritative_route :: "route_reference list \<Rightarrow> route_reference option" where
  "select_authoritative_route routes =
     (if routes = [] then None else Some (hd (sort_key route_rank routes)))"

text \<open>
  The Lite resolver reads four tables.  A repository query is the selection and the \<open>ORDER BY\<close>
  of its SQL on the rows in insertion order (the order SQLite keeps between equal keys).
\<close>

record gate_row =
  gr_text_unit_uuid :: string
  gr_processing_run_uuid :: string
  gr_created_at :: string
  gr_decision :: gate_decision
  gr_requires_high_confidence_pass :: bool

record annotation_row =
  an_annotation_uuid :: string
  an_analysis_run_uuid :: string
  an_unit_uuid :: string
  an_sentence_index :: nat

record route_row =
  ro_route_uuid :: string
  ro_annotation_uuid :: string
  ro_route_type :: route_type
  ro_status :: route_status
  ro_priority :: int
  ro_created_at :: string

record run_row =
  ru_analysis_run_uuid :: string
  ru_prompt_execution_uuid :: "string option"

record authority_store =
  as_gates :: "gate_row list"
  as_annotations :: "annotation_row list"
  as_routes :: "route_row list"
  as_runs :: "run_row list"

definition list_decisions_for_unit :: "authority_store \<Rightarrow> string \<Rightarrow> gate_row list" where
  "list_decisions_for_unit db u =
     sort_key gr_created_at (filter (\<lambda>g. gr_text_unit_uuid g = u) (as_gates db))"

definition list_annotations_for_run :: "authority_store \<Rightarrow> string \<Rightarrow> annotation_row list" where
  "list_annotations_for_run db run =
     sort_key (\<lambda>a. (an_sentence_index a, an_annotation_uuid a))
       (filter (\<lambda>a. an_analysis_run_uuid a = run) (as_annotations db))"

definition list_for_annotation :: "authority_store \<Rightarrow> string \<Rightarrow> route_row list" where
  "list_for_annotation db a =
     sort_key (\<lambda>r. (- ro_priority r, ro_created_at r, ro_route_uuid r))
       (filter (\<lambda>r. ro_annotation_uuid r = a) (as_routes db))"

definition analysis_run :: "authority_store \<Rightarrow> string \<Rightarrow> run_row option" where
  "analysis_run db run = List.find (\<lambda>r. ru_analysis_run_uuid r = run) (as_runs db)"

definition route_reference_of :: "route_row \<Rightarrow> route_reference" where
  "route_reference_of r =
     \<lparr>rr_route_uuid = ro_route_uuid r, rr_annotation_uuid = ro_annotation_uuid r,
      rr_route_type = ro_route_type r, rr_route_status = ro_status r, rr_priority = ro_priority r\<rparr>"

record authority_context =
  ac_gate_decision :: "gate_decision option"
  ac_requires_high_confidence_pass :: bool
  ac_selected_route :: "route_reference option"
  ac_analysis_run_uuid :: "string option"
  ac_prompt_execution_uuid :: "string option"

definition resolve_authority ::
  "authority_store \<Rightarrow> string \<Rightarrow> string \<Rightarrow> string \<Rightarrow> authority_context" where
  "resolve_authority db text_unit processing_run arun =
     (let gate = List.find (\<lambda>g. gr_processing_run_uuid g = processing_run)
                   (list_decisions_for_unit db text_unit);
          annotation = List.find (\<lambda>a. an_unit_uuid a = text_unit) (list_annotations_for_run db arun);
          routes = (case annotation of None \<Rightarrow> []
                    | Some a \<Rightarrow> list_for_annotation db (an_annotation_uuid a));
          run = analysis_run db arun
      in \<lparr>ac_gate_decision = map_option gr_decision gate,
          ac_requires_high_confidence_pass =
            (case gate of None \<Rightarrow> False | Some g \<Rightarrow> gr_requires_high_confidence_pass g),
          ac_selected_route = select_authoritative_route (map route_reference_of routes),
          ac_analysis_run_uuid = (case run of None \<Rightarrow> None | Some _ \<Rightarrow> Some arun),
          ac_prompt_execution_uuid = (case run of None \<Rightarrow> None | Some r \<Rightarrow> ru_prompt_execution_uuid r)\<rparr>)"

section \<open>What the policies guarantee\<close>

lemma route_rank_inj: "route_rank r = route_rank r' \<Longrightarrow> rr_route_uuid r = rr_route_uuid r'"
  by (simp add: route_rank_def)

lemma select_authoritative_route_Some:
  assumes "select_authoritative_route routes = Some r"
  shows "r \<in> set routes \<and> (\<forall>r' \<in> set routes. route_rank r \<le> route_rank r')"
proof -
  from assms have ne: "routes \<noteq> []" and r: "r = hd (sort_key route_rank routes)"
    by (auto simp: select_authoritative_route_def split: if_splits)
  obtain x xs where xs: "sort_key route_rank routes = x # xs"
    using ne by (cases "sort_key route_rank routes") (auto dest: arg_cong [where f = length])
  have "sorted (map route_rank (x # xs))" unfolding xs [symmetric] by simp
  moreover have "set routes = set (x # xs)" by (simp flip: xs)
  ultimately show ?thesis using r xs by auto
qed

text \<open>
  Also proved (candidate_creation_fail_closed): a candidate may be created exactly when the gate
  decided \<open>analyze\<close> or \<open>analyze_high_confidence\<close> and the route is ready and not ignored; this
  implies that analysis was allowed, and every refusal carries at least one reason code.
\<close>

theorem candidate_creation_fail_closed:
  "let p = candidate_policy_for_gate_and_route g rt rs high in
     (allows_candidate_creation p \<longleftrightarrow>
        gate_arg g \<in> {Some GD_ANALYZE, Some GD_ANALYZE_HIGH_CONFIDENCE} \<and>
        arg_value route_type_value rt \<noteq> Some ''ignore'' \<and>
        arg_value route_status_value rs = Some ''ready'') \<and>
     allows_automatic_memory_creation p = allows_candidate_creation p \<and>
     (allows_candidate_creation p \<longrightarrow> allows_analysis p) \<and>
     (\<not> allows_candidate_creation p \<longrightarrow> gcp_reason_codes p \<noteq> [])"
  by (auto simp: candidate_policy_for_gate_and_route_def Let_def gate_in_def candidate_gates_def
      analysis_gates_def split: option.splits)

theorem candidate_creation_fail_closed_witness:
  "allows_analysis (candidate_policy_for_gate_and_route (AsEnum GD_ANALYZE) (AsStr ''project_context'')
     (AsEnum RS_READY) False) \<and>
   gcp_reason_codes (candidate_policy_for_gate_and_route (AsStr ''maybe'') AsNone AsNone False) \<noteq> []"
  using candidate_creation_fail_closed
      [of "AsEnum GD_ANALYZE" "AsStr ''project_context''" "AsEnum RS_READY" False]
    candidate_creation_fail_closed [of "AsStr ''maybe''" AsNone AsNone False]
  by (simp add: Let_def enum_parse_def all_gate_decisions_def)

text \<open>
  Property C23 (provenance_no_laundering): text of an assistant, a tool, the system or an import
  never gets a user's authority; and memory is created automatically only for a candidate that is
  ready, on a route that needs no review and that the origin of the text is trusted for.
\<close>

theorem provenance_no_laundering:
  "let d = decide_candidate_provenance role rt st imported in
     (imported \<or> role \<in> {''assistant'', ''tool'', ''system''} \<longrightarrow>
        pd_source_authority d \<notin> {SA_USER_EXPLICIT, SA_USER_IMPLIED}) \<and>
     (pd_allows_memory d \<longrightarrow>
        pd_allows_candidate d \<and> pd_status d = CS_READY_FOR_CONSOLIDATION \<and>
        st = CS_READY_FOR_CONSOLIDATION \<and> rt \<notin> review_routes \<and>
        (imported \<or>
          (role = ''assistant'' \<longrightarrow> rt \<in> assistant_artifact_routes) \<and>
          (role = ''tool'' \<longrightarrow> rt \<in> factual_tool_routes) \<and>
          (role = ''system'' \<longrightarrow> rt \<in> system_directive_routes)))"
  by (auto simp: decide_candidate_provenance_def provenance_by_origin_def Let_def)

theorem provenance_no_laundering_witness:
  "pd_source_authority (decide_candidate_provenance ''assistant'' RT_PROJECT_CONTEXT
      CS_READY_FOR_CONSOLIDATION False) \<notin> {SA_USER_EXPLICIT, SA_USER_IMPLIED} \<and>
   RT_PROJECT_CONTEXT \<in> assistant_artifact_routes"
proof -
  have "pd_allows_memory (decide_candidate_provenance ''assistant'' RT_PROJECT_CONTEXT
      CS_READY_FOR_CONSOLIDATION False)"
    by code_simp
  then show ?thesis
    using provenance_no_laundering [of "''assistant''" RT_PROJECT_CONTEXT CS_READY_FOR_CONSOLIDATION False]
    by (simp add: Let_def)
qed

text \<open>
  Also proved (authoritative_route_deterministic): among routes with distinct ids the selection
  is a member, is ready whenever some route is, and does not depend on the order of the rows.
\<close>

theorem authoritative_route_deterministic:
  assumes "distinct (map rr_route_uuid routes)" and "mset routes' = mset routes" and "routes \<noteq> []"
  shows "\<exists>r \<in> set routes. select_authoritative_route routes = Some r \<and>
     select_authoritative_route routes' = Some r \<and>
     ((\<exists>r' \<in> set routes. rr_route_status r' = RS_READY) \<longrightarrow> rr_route_status r = RS_READY)"
proof -
  have s: "set routes' = set routes" using assms(2) by (rule mset_eq_setD)
  with assms(3) have "routes' \<noteq> []" by auto
  with assms(3) obtain r r2 where
    r: "select_authoritative_route routes = Some r" and r2: "select_authoritative_route routes' = Some r2"
    by (auto simp: select_authoritative_route_def)
  note best = select_authoritative_route_Some [OF r]
  note best2 = select_authoritative_route_Some [OF r2]
  have "route_rank r = route_rank r2" using best best2 s by (auto intro: order.antisym)
  then have "rr_route_uuid r = rr_route_uuid r2" by (rule route_rank_inj)
  with best best2 s assms(1) have "r = r2"
    by (auto simp: distinct_map dest: inj_onD)
  moreover have "rr_route_status r = RS_READY"
    if "r' \<in> set routes" "rr_route_status r' = RS_READY" for r'
    using best that by (auto simp: route_rank_def)
  ultimately show ?thesis using best r r2 by blast
qed

definition demo_routes :: "route_reference list" where
  "demo_routes =
     [\<lparr>rr_route_uuid = ''r1'', rr_annotation_uuid = ''a'', rr_route_type = RT_PRIVACY_REVIEW,
       rr_route_status = RS_PENDING, rr_priority = 90\<rparr>,
      \<lparr>rr_route_uuid = ''r2'', rr_annotation_uuid = ''a'', rr_route_type = RT_USER_PREFERENCE,
       rr_route_status = RS_READY, rr_priority = 10\<rparr>]"

theorem authoritative_route_deterministic_witness:
  "\<exists>r. select_authoritative_route (rev demo_routes) = Some r \<and> rr_route_status r = RS_READY"
proof -
  have "\<exists>r' \<in> set demo_routes. rr_route_status r' = RS_READY" by (simp add: demo_routes_def)
  then show ?thesis
    using authoritative_route_deterministic [of demo_routes "rev demo_routes"]
    by (auto simp: demo_routes_def)
qed

end
