(* ===== verification/SemanticContract.thy ===== *)
theory SemanticContract
  imports EvidenceValidation CandidatePolicy
begin

text \<open>
  The frozen contract of the semantic analysis (\<open>memory_worker/prompts/contracts.py\<close>) and of its
  input (\<open>memory_worker/semantic_contract.py\<close>): the records, the constraints their fields and
  model validators put on them, and \<open>validate_semantic_binding\<close>, which checks a model's output
  against its input before anything is planned from it.

  The library that turns a mapping into a record (pydantic) is not modelled: an operation takes
  the record, and the constraints declared on its fields are the first check it makes.  The
  number of a float is its mantissa and its binary exponent.  Free text and the identifiers a
  model chooses are code points; members of a \<open>Literal\<close> are strings.
\<close>

type_synonym binfloat = "int \<times> int"

text \<open>\<open>Field(ge=0, le=1)\<close> on a float.\<close>

definition in_unit_interval :: "binfloat \<Rightarrow> bool" where
  "in_unit_interval x =
     (case x of (m, e) \<Rightarrow> 0 \<le> m \<and> (if 0 \<le> e then m * 2 ^ nat e \<le> 1 else m \<le> 2 ^ nat (- e)))"

section \<open>Records of the output\<close>

record semantic_unit =
  su_id :: ustr
  su_raw_start :: nat
  su_raw_end :: nat
  su_evidence :: ustr
  su_proposition :: ustr
  su_unit_type :: string
  su_durability :: string
  su_polarity :: string
  su_epistemic_status :: string
  su_memory_kind :: "string option"
  su_lifecycle_status :: ustr

record semantic_reference =
  sr_id :: ustr
  sr_source_unit_id :: ustr
  sr_marker_start :: nat
  sr_marker_end :: nat
  sr_marker_evidence :: ustr
  sr_status :: string
  sr_candidate_referent_ids :: "ustr list"
  sr_selected_referent_id :: "ustr option"

record semantic_relation =
  sl_id :: ustr
  sl_relation_type :: string
  sl_source_unit_id :: ustr
  sl_target_referent_id :: ustr
  sl_evidence_start :: nat
  sl_evidence_end :: nat
  sl_evidence :: ustr

record category_tag =
  ct_category :: string
  ct_normalized_label :: ustr
  ct_confidence :: binfloat

record concept_tag =
  cn_canonical_label :: ustr
  cn_aliases :: "ustr list"
  cn_confidence :: binfloat
  cn_raw_start :: "nat option"
  cn_raw_end :: "nat option"

record message_entity =
  en_canonical_name :: ustr
  en_entity_type :: ustr
  en_aliases :: "ustr list"
  en_confidence :: binfloat
  en_raw_start :: "nat option"
  en_raw_end :: "nat option"

record process_reference =
  pr_process_label :: ustr
  pr_aliases :: "ustr list"
  pr_stage_label :: "ustr option"
  pr_stage_ordinal :: "nat option"
  pr_confidence :: binfloat
  pr_raw_start :: "nat option"
  pr_raw_end :: "nat option"

record semantic_analysis =
  sa_schema_version :: string
  sa_prompt_id :: string
  sa_prompt_version :: string
  sa_status :: string
  sa_warnings :: "ustr list"
  sa_intent :: ustr
  sa_primary_topic :: ustr
  sa_secondary_topic :: ustr
  sa_one_line_summary :: ustr
  sa_message_categories :: "category_tag list"
  sa_concept_tags :: "concept_tag list"
  sa_entities :: "message_entity list"
  sa_process_references :: "process_reference list"
  sa_epistemic_status :: string
  sa_temporal_status :: ustr
  sa_importance :: binfloat
  sa_explicit_memory_request :: bool
  sa_semantic_units :: "semantic_unit list"
  sa_references :: "semantic_reference list"
  sa_relations :: "semantic_relation list"

section \<open>Field constraints of the output\<close>

definition unit_types :: "string list" where
  "unit_types = [''statement'', ''instruction'', ''question'', ''explanation'', ''heading'',
     ''list_item'', ''table_row'', ''code_block'', ''fragment'']"

definition durabilities :: "string list" where
  "durabilities = [''durable'', ''transient'', ''context_only'', ''unknown'']"

definition polarities :: "string list" where
  "polarities = [''affirmed'', ''negated'', ''unknown'']"

definition epistemic_statuses :: "string list" where
  "epistemic_statuses = [''asserted'', ''hedged'', ''hypothetical'', ''questioned'', ''unknown'']"

definition reference_statuses :: "string list" where
  "reference_statuses = [''resolved'', ''unresolved'', ''ambiguous'']"

definition relation_types :: "string list" where
  "relation_types = [''ratifies'', ''corrects'', ''supersedes'', ''contradicts'', ''elaborates'']"

definition message_categories :: "string list" where
  "message_categories = [''Instruction'', ''Need'', ''Preference'', ''Decision'', ''ProjectArtifact'',
     ''ProjectState'', ''FactClaim'', ''Hypothesis'', ''Constraint'', ''Question'', ''LearningGoal'',
     ''Feedback'', ''Correction'', ''Retraction'', ''Process'', ''Other'']"

definition message_epistemic_statuses :: "string list" where
  "message_epistemic_statuses = [''asserted'', ''proposed'', ''hypothetical'', ''hedged'',
     ''questioned'', ''unvalidated'', ''confirmed'', ''corrected'', ''contradicted'', ''retracted'',
     ''unknown'']"

definition memory_kinds :: "string list" where
  "memory_kinds = [''Instruction'', ''Need'', ''Preference'', ''Decision'', ''ProjectArtifact'',
     ''ProjectState'', ''FactClaim'', ''Hypothesis'', ''Constraint'', ''Question'', ''LearningGoal'',
     ''Feedback'', ''Correction'', ''Retraction'']"

definition unit_fields_ok :: "semantic_unit \<Rightarrow> bool" where
  "unit_fields_ok u \<longleftrightarrow>
     su_id u \<noteq> [] \<and> 0 < su_raw_end u \<and> su_evidence u \<noteq> [] \<and> su_proposition u \<noteq> [] \<and>
     su_unit_type u \<in> set unit_types \<and> su_durability u \<in> set durabilities \<and>
     su_polarity u \<in> set polarities \<and> su_epistemic_status u \<in> set epistemic_statuses \<and>
     (case su_memory_kind u of None \<Rightarrow> True | Some k \<Rightarrow> k \<in> set memory_kinds)"

definition reference_fields_ok :: "semantic_reference \<Rightarrow> bool" where
  "reference_fields_ok r \<longleftrightarrow>
     sr_id r \<noteq> [] \<and> sr_source_unit_id r \<noteq> [] \<and> 0 < sr_marker_end r \<and> sr_marker_evidence r \<noteq> [] \<and>
     sr_status r \<in> set reference_statuses"

definition relation_fields_ok :: "semantic_relation \<Rightarrow> bool" where
  "relation_fields_ok r \<longleftrightarrow>
     sl_id r \<noteq> [] \<and> sl_relation_type r \<in> set relation_types \<and> sl_source_unit_id r \<noteq> [] \<and>
     sl_target_referent_id r \<noteq> [] \<and> 0 < sl_evidence_end r \<and> sl_evidence r \<noteq> []"

fun positive_opt :: "nat option \<Rightarrow> bool" where
  "positive_opt None = True"
| "positive_opt (Some n) = (0 < n)"

text \<open>A span of two optional ends: complete or omitted, and then in order.\<close>

definition span_complete :: "nat option \<Rightarrow> nat option \<Rightarrow> bool" where
  "span_complete s e \<longleftrightarrow> (s = None) = (e = None)"

definition span_inverted :: "nat option \<Rightarrow> nat option \<Rightarrow> bool" where
  "span_inverted s e = (case (s, e) of (Some a, Some b) \<Rightarrow> a \<ge> b | _ \<Rightarrow> False)"

definition category_fields_ok :: "category_tag \<Rightarrow> bool" where
  "category_fields_ok c \<longleftrightarrow> ct_category c \<in> set message_categories \<and> in_unit_interval (ct_confidence c)"

definition concept_fields_ok :: "concept_tag \<Rightarrow> bool" where
  "concept_fields_ok c \<longleftrightarrow>
     cn_canonical_label c \<noteq> [] \<and> in_unit_interval (cn_confidence c) \<and> positive_opt (cn_raw_end c) \<and>
     span_complete (cn_raw_start c) (cn_raw_end c) \<and>
     \<not> span_inverted (cn_raw_start c) (cn_raw_end c)"

definition entity_fields_ok :: "message_entity \<Rightarrow> bool" where
  "entity_fields_ok e \<longleftrightarrow>
     en_canonical_name e \<noteq> [] \<and> in_unit_interval (en_confidence e) \<and> positive_opt (en_raw_end e)"

definition process_fields_ok :: "process_reference \<Rightarrow> bool" where
  "process_fields_ok p \<longleftrightarrow>
     pr_process_label p \<noteq> [] \<and> positive_opt (pr_stage_ordinal p) \<and>
     in_unit_interval (pr_confidence p) \<and> positive_opt (pr_raw_end p)"

text \<open>\<open>str.count\<close>: occurrences of a non-empty substring that do not overlap.\<close>

function count_sub :: "ustr \<Rightarrow> ustr \<Rightarrow> nat" where
  "count_sub p s =
     (if p = [] \<or> s = [] then 0
      else if starts_with s p then Suc (count_sub p (drop (length p) s))
      else count_sub p (tl s))"
  by auto
termination by (relation "measure (length \<circ> snd)") (auto simp: starts_with_def)

declare count_sub.simps [simp del]

definition analysis_fields_ok :: "semantic_analysis \<Rightarrow> bool" where
  "analysis_fields_ok a \<longleftrightarrow>
     sa_schema_version a = ''1.0'' \<and> sa_prompt_id a = ''memorist.semantic_candidate_analysis'' \<and>
     sa_prompt_version a = ''1.1'' \<and> sa_status a \<in> {''ok'', ''abstain''} \<and>
     list_all category_fields_ok (sa_message_categories a) \<and>
     list_all concept_fields_ok (sa_concept_tags a) \<and>
     list_all entity_fields_ok (sa_entities a) \<and>
     list_all process_fields_ok (sa_process_references a) \<and>
     sa_epistemic_status a \<in> set message_epistemic_statuses \<and>
     in_unit_interval (sa_importance a) \<and>
     list_all unit_fields_ok (sa_semantic_units a) \<and>
     list_all reference_fields_ok (sa_references a) \<and>
     list_all relation_fields_ok (sa_relations a) \<and>
     length (sa_concept_tags a) \<le> 5 \<and>
     count_sub (lit '' > '') (sa_one_line_summary a) = 2"

section \<open>The bounded context and the input\<close>

record context_item =
  ci_context_item_id :: ustr
  ci_user_uuid :: string
  ci_session_uuid :: string
  ci_workspace_uuid :: "string option"
  ci_project_uuid :: "string option"
  ci_message_uuid :: string
  ci_message_version_uuid :: "string option"
  ci_text_unit_uuid :: string
  ci_role :: string
  ci_turn_index :: nat
  ci_unit_index :: nat
  ci_raw_start :: nat
  ci_raw_end :: nat
  ci_text :: ustr
  ci_raw_text_hash :: string
  ci_source_authority_ceiling :: string

definition role_ceiling :: "string \<Rightarrow> string option" where
  "role_ceiling role = map_of [(''user'', ''user_explicit''), (''assistant'', ''assistant_claim''),
     (''tool'', ''tool_observation'')] role"

text \<open>\<open>text_hash\<close> is the hexadecimal SHA-256 of the UTF-8 text.\<close>

definition context_item_ok :: "(ustr \<Rightarrow> string) \<Rightarrow> context_item \<Rightarrow> bool" where
  "context_item_ok text_hash c \<longleftrightarrow>
     ci_context_item_id c \<noteq> [] \<and> ci_user_uuid c \<noteq> [] \<and> ci_session_uuid c \<noteq> [] \<and>
     ci_message_uuid c \<noteq> [] \<and> ci_text_unit_uuid c \<noteq> [] \<and>
     ci_raw_start c < ci_raw_end c \<and> text_hash (ci_text c) = ci_raw_text_hash c \<and>
     role_ceiling (ci_role c) = Some (ci_source_authority_ceiling c)"

record context_boundary =
  cb_user_uuid :: string
  cb_session_uuid :: string
  cb_workspace_uuid :: "string option"
  cb_project_uuid :: "string option"
  cb_baseline_limit :: nat
  cb_effective_limit :: nat
  cb_dependency_expansion :: bool

definition boundary_ok :: "context_boundary \<Rightarrow> bool" where
  "boundary_ok b \<longleftrightarrow>
     cb_user_uuid b \<noteq> [] \<and> cb_session_uuid b \<noteq> [] \<and> cb_baseline_limit b = 2 \<and>
     cb_effective_limit b \<in> {2, 6} \<and>
     cb_dependency_expansion b = (cb_effective_limit b = 6)"

record contract_versions =
  cv_semantic_input :: string
  cv_semantic_prompt :: string
  cv_jakobson :: string
  cv_text_envelope :: string
  cv_evidence_validator :: string

definition active_versions :: contract_versions where
  "active_versions =
     \<lparr>cv_semantic_input = ''memorist.semantic_candidate_input.v1'', cv_semantic_prompt = ''1.1'',
      cv_jakobson = ''3.0'', cv_text_envelope = ''memorist.text.envelope.v3'',
      cv_evidence_validator = ''memorist.text.semantic_evidence_validation.v1''\<rparr>"

record semantic_input =
  si_message_uuid :: string
  si_message_version_uuid :: "string option"
  si_raw_text :: ustr
  si_text_envelope :: "(string \<times> json) list"
  si_context_items :: "context_item list"
  si_boundary :: context_boundary
  si_contract_versions :: contract_versions

datatype input_error = EnvelopeHashMismatch | EnvelopeVersion | ContextTooLong | DuplicateContextId
  | ContextNotAscending | CurrentMessageInContext | CrossesBoundary | BadField

definition same_authority :: "context_boundary \<Rightarrow> context_item \<Rightarrow> bool" where
  "same_authority b c \<longleftrightarrow>
     ci_user_uuid c = cb_user_uuid b \<and> ci_session_uuid c = cb_session_uuid b \<and>
     ci_workspace_uuid c = cb_workspace_uuid b \<and> ci_project_uuid c = cb_project_uuid b"

fun check_context_items ::
  "string \<Rightarrow> context_boundary \<Rightarrow> ustr list \<Rightarrow> (nat \<times> nat) option \<Rightarrow> context_item list
     \<Rightarrow> (input_error, unit) result" where
  "check_context_items msg b seen prior [] = Inr ()"
| "check_context_items msg b seen prior (c # cs) =
     rbind (raise_if (ci_context_item_id c \<in> set seen) DuplicateContextId) (\<lambda>_.
     rbind (raise_if (case prior of None \<Rightarrow> False
              | Some p \<Rightarrow> (ci_turn_index c, ci_unit_index c) \<le> p) ContextNotAscending) (\<lambda>_.
     rbind (raise_if (ci_message_uuid c = msg) CurrentMessageInContext) (\<lambda>_.
     rbind (raise_if (\<not> same_authority b c) CrossesBoundary) (\<lambda>_.
       check_context_items msg b (ci_context_item_id c # seen)
         (Some (ci_turn_index c, ci_unit_index c)) cs))))"

definition manifest_integrity ::
  "(ustr \<Rightarrow> string) \<Rightarrow> semantic_input \<Rightarrow> (input_error, unit) result" where
  "manifest_integrity text_hash i =
     rbind (raise_if (jget (si_text_envelope i) ''raw_text_hash'' \<noteq> jlit (text_hash (si_raw_text i)))
        EnvelopeHashMismatch) (\<lambda>_.
     rbind (raise_if (jget (si_text_envelope i) ''contract_version'' \<noteq> jlit ''memorist.text.envelope.v3'')
        EnvelopeVersion) (\<lambda>_.
     rbind (raise_if (cb_effective_limit (si_boundary i) < length (si_context_items i))
        ContextTooLong) (\<lambda>_.
       check_context_items (si_message_uuid i) (si_boundary i) [] None (si_context_items i))))"

text \<open>Field constraints come before the validator of the whole model.\<close>

definition validate_input :: "(ustr \<Rightarrow> string) \<Rightarrow> semantic_input \<Rightarrow> (input_error, unit) result" where
  "validate_input text_hash i =
     rbind (raise_if (\<not> (si_message_uuid i \<noteq> [] \<and> list_all (context_item_ok text_hash) (si_context_items i) \<and>
         boundary_ok (si_boundary i) \<and> si_contract_versions i = active_versions)) BadField)
       (\<lambda>_. manifest_integrity text_hash i)"

definition build_semantic_input ::
  "(ustr \<Rightarrow> string) \<Rightarrow> string \<Rightarrow> string option \<Rightarrow> ustr \<Rightarrow> (string \<times> json) list \<Rightarrow> context_item list
     \<Rightarrow> context_boundary \<Rightarrow> (input_error, semantic_input) result" where
  "build_semantic_input text_hash msg version raw envelope items boundary =
     (let i = \<lparr>si_message_uuid = msg, si_message_version_uuid = version, si_raw_text = raw,
               si_text_envelope = envelope, si_context_items = items, si_boundary = boundary,
               si_contract_versions = active_versions\<rparr>
      in rbind (validate_input text_hash i) (\<lambda>_. Inr i))"

end
