(* ===== verification/SemanticBinding.thy ===== *)
theory SemanticBinding
  imports SemanticContract
begin

text \<open>
  \<open>validate_semantic_binding\<close> (\<open>memory_worker/semantic_contract.py\<close>): the checks that bind a
  model's output to the message it was asked about, ending in the evidence validator on the JSON
  form of the output.  Sets of the code that are only tested for membership are lists.
  \<open>classify\<close> is the sensitivity of a text as its rank (0 normal, 1 sensitive, 2 secret).
\<close>

section \<open>The JSON form of the output\<close>

definition jstrs :: "ustr list \<Rightarrow> json" where
  "jstrs xs = JList (map JStr xs)"

abbreviation jfloat :: "binfloat \<Rightarrow> json" where
  "jfloat x \<equiv> JFloat (fst x) (snd x)"

definition unit_json :: "semantic_unit \<Rightarrow> json" where
  "unit_json u = JObj
     [(''id'', JStr (su_id u)), (''raw_start'', jnat (su_raw_start u)), (''raw_end'', jnat (su_raw_end u)),
      (''evidence'', JStr (su_evidence u)), (''proposition'', JStr (su_proposition u)),
      (''unit_type'', jlit (su_unit_type u)), (''durability'', jlit (su_durability u)),
      (''polarity'', jlit (su_polarity u)), (''epistemic_status'', jlit (su_epistemic_status u)),
      (''memory_kind'', jopt jlit (su_memory_kind u)), (''lifecycle_status'', JStr (su_lifecycle_status u))]"

definition reference_json :: "semantic_reference \<Rightarrow> json" where
  "reference_json r = JObj
     [(''id'', JStr (sr_id r)), (''source_unit_id'', JStr (sr_source_unit_id r)),
      (''marker_start'', jnat (sr_marker_start r)), (''marker_end'', jnat (sr_marker_end r)),
      (''marker_evidence'', JStr (sr_marker_evidence r)), (''status'', jlit (sr_status r)),
      (''candidate_referent_ids'', jstrs (sr_candidate_referent_ids r)),
      (''selected_referent_id'', jopt JStr (sr_selected_referent_id r))]"

definition relation_json :: "semantic_relation \<Rightarrow> json" where
  "relation_json r = JObj
     [(''id'', JStr (sl_id r)), (''relation_type'', jlit (sl_relation_type r)),
      (''source_unit_id'', JStr (sl_source_unit_id r)),
      (''target_referent_id'', JStr (sl_target_referent_id r)),
      (''evidence_start'', jnat (sl_evidence_start r)), (''evidence_end'', jnat (sl_evidence_end r)),
      (''evidence'', JStr (sl_evidence r))]"

definition category_json :: "category_tag \<Rightarrow> json" where
  "category_json c = JObj
     [(''category'', jlit (ct_category c)), (''normalized_label'', JStr (ct_normalized_label c)),
      (''confidence'', jfloat (ct_confidence c))]"

definition concept_json :: "concept_tag \<Rightarrow> json" where
  "concept_json c = JObj
     [(''canonical_label'', JStr (cn_canonical_label c)), (''aliases'', jstrs (cn_aliases c)),
      (''confidence'', jfloat (cn_confidence c)), (''raw_start'', jopt jnat (cn_raw_start c)),
      (''raw_end'', jopt jnat (cn_raw_end c))]"

definition entity_json :: "message_entity \<Rightarrow> json" where
  "entity_json e = JObj
     [(''canonical_name'', JStr (en_canonical_name e)), (''entity_type'', JStr (en_entity_type e)),
      (''aliases'', jstrs (en_aliases e)), (''confidence'', jfloat (en_confidence e)),
      (''raw_start'', jopt jnat (en_raw_start e)), (''raw_end'', jopt jnat (en_raw_end e))]"

definition process_json :: "process_reference \<Rightarrow> json" where
  "process_json p = JObj
     [(''process_label'', JStr (pr_process_label p)), (''aliases'', jstrs (pr_aliases p)),
      (''stage_label'', jopt JStr (pr_stage_label p)), (''stage_ordinal'', jopt jnat (pr_stage_ordinal p)),
      (''confidence'', jfloat (pr_confidence p)), (''raw_start'', jopt jnat (pr_raw_start p)),
      (''raw_end'', jopt jnat (pr_raw_end p))]"

definition analysis_json :: "semantic_analysis \<Rightarrow> (string \<times> json) list" where
  "analysis_json a =
     [(''schema_version'', jlit (sa_schema_version a)), (''prompt_id'', jlit (sa_prompt_id a)),
      (''prompt_version'', jlit (sa_prompt_version a)), (''status'', jlit (sa_status a)),
      (''warnings'', jstrs (sa_warnings a)), (''intent'', JStr (sa_intent a)),
      (''primary_topic'', JStr (sa_primary_topic a)), (''secondary_topic'', JStr (sa_secondary_topic a)),
      (''one_line_summary'', JStr (sa_one_line_summary a)),
      (''message_categories'', JList (map category_json (sa_message_categories a))),
      (''concept_tags'', JList (map concept_json (sa_concept_tags a))),
      (''entities'', JList (map entity_json (sa_entities a))),
      (''process_references'', JList (map process_json (sa_process_references a))),
      (''epistemic_status'', jlit (sa_epistemic_status a)), (''temporal_status'', JStr (sa_temporal_status a)),
      (''importance'', jfloat (sa_importance a)),
      (''explicit_memory_request'', JBool (sa_explicit_memory_request a)),
      (''semantic_units'', JList (map unit_json (sa_semantic_units a))),
      (''references'', JList (map reference_json (sa_references a))),
      (''relations'', JList (map relation_json (sa_relations a)))]"

section \<open>The binding checks\<close>

datatype binding_error =
    BadInput input_error | BadOutput | OkWithoutUnits | AbstainWithRecords | UnitIdsNotUnique
  | UnitsNotOrdered | UnitOutsideMessage | MetaSpanIncomplete string | MetaSpanOutside string
  | PropositionExceedsPrivacy | ReferenceIdsNotUnique | ReferenceSourceUnknown | MarkerOutsideSource
  | ReferenceCandidateUnknown | ResolvedWithoutCandidate | ResolvedToItself | UnresolvedSelects
  | RelationIdsNotUnique | RelationSourceUnknown | RelationOutsideSource | RelationTargetUnknown
  | EvidenceRejected record_kind violation

type_synonym 'a binding = "(binding_error, 'a) result"

definition unit_span :: "semantic_unit \<Rightarrow> nat \<times> nat" where
  "unit_span u = (su_raw_start u, su_raw_end u)"

definition unit_spans :: "semantic_unit list \<Rightarrow> ustr \<Rightarrow> (nat \<times> nat) option" where
  "unit_spans us i = map_of (rev (map (\<lambda>u. (su_id u, unit_span u)) us)) i"

definition check_units :: "semantic_analysis \<Rightarrow> nat \<Rightarrow> unit binding" where
  "check_units a raw_length =
     (let us = sa_semantic_units a; spans = map unit_span us in
      rbind (raise_if (sa_status a = ''ok'' \<and> us = []) OkWithoutUnits) (\<lambda>_.
      rbind (raise_if (sa_status a = ''abstain'' \<and>
               (us \<noteq> [] \<or> sa_references a \<noteq> [] \<or> sa_relations a \<noteq> [])) AbstainWithRecords) (\<lambda>_.
      rbind (raise_if (\<not> distinct (map su_id us)) UnitIdsNotUnique) (\<lambda>_.
      rbind (raise_if (spans \<noteq> sort spans) UnitsNotOrdered) (\<lambda>_.
        raise_if (list_ex (\<lambda>u. su_raw_end u \<le> su_raw_start u \<or> raw_length < su_raw_end u) us)
          UnitOutsideMessage)))))"

fun check_meta_spans :: "string \<Rightarrow> nat \<Rightarrow> (nat option \<times> nat option) list \<Rightarrow> unit binding" where
  "check_meta_spans name raw_length [] = Inr ()"
| "check_meta_spans name raw_length ((s, e) # rs) =
     rbind (raise_if (\<not> span_complete s e) (MetaSpanIncomplete name)) (\<lambda>_.
     rbind (raise_if (case (s, e) of (Some a, Some b) \<Rightarrow> b \<le> a \<or> raw_length < b | _ \<Rightarrow> False)
        (MetaSpanOutside name)) (\<lambda>_.
       check_meta_spans name raw_length rs))"

definition check_metadata :: "semantic_analysis \<Rightarrow> nat \<Rightarrow> unit binding" where
  "check_metadata a raw_length =
     rbind (check_meta_spans ''concept'' raw_length
        (map (\<lambda>c. (cn_raw_start c, cn_raw_end c)) (sa_concept_tags a))) (\<lambda>_.
     rbind (check_meta_spans ''entity'' raw_length
        (map (\<lambda>c. (en_raw_start c, en_raw_end c)) (sa_entities a))) (\<lambda>_.
       check_meta_spans ''process'' raw_length
        (map (\<lambda>c. (pr_raw_start c, pr_raw_end c)) (sa_process_references a))))"

definition check_privacy :: "(ustr \<Rightarrow> nat) \<Rightarrow> semantic_unit list \<Rightarrow> unit binding" where
  "check_privacy classify us =
     raise_if (list_ex (\<lambda>u. classify (su_evidence u) < classify (su_proposition u)) us)
       PropositionExceedsPrivacy"

definition allowed_referents :: "semantic_unit list \<Rightarrow> context_item list \<Rightarrow> ustr list" where
  "allowed_referents us cs =
     map (\<lambda>u. lit ''current_unit:'' @ su_id u) us @
     map (\<lambda>c. lit ''prior_context:'' @ ci_context_item_id c) cs"

definition marker_within :: "(nat \<times> nat) option \<Rightarrow> nat \<Rightarrow> nat \<Rightarrow> bool" where
  "marker_within span s e = (case span of None \<Rightarrow> False | Some (a, b) \<Rightarrow> a \<le> s \<and> e \<le> b)"

definition check_selection :: "semantic_reference \<Rightarrow> unit binding" where
  "check_selection r =
     (if sr_status r = ''resolved'' then
        (case sr_selected_referent_id r of
           None \<Rightarrow> Inl ResolvedWithoutCandidate
         | Some t \<Rightarrow>
             (if t \<notin> set (sr_candidate_referent_ids r) then Inl ResolvedWithoutCandidate
              else raise_if (t = lit ''current_unit:'' @ sr_source_unit_id r) ResolvedToItself))
      else raise_if (sr_selected_referent_id r \<noteq> None) UnresolvedSelects)"

fun check_references ::
  "semantic_unit list \<Rightarrow> ustr list \<Rightarrow> ustr list \<Rightarrow> semantic_reference list \<Rightarrow> unit binding" where
  "check_references us allowed seen [] = Inr ()"
| "check_references us allowed seen (r # rs) =
     rbind (raise_if (sr_id r \<in> set seen) ReferenceIdsNotUnique) (\<lambda>_.
     rbind (raise_if (sr_source_unit_id r \<notin> set (map su_id us)) ReferenceSourceUnknown) (\<lambda>_.
     rbind (raise_if (\<not> marker_within (unit_spans us (sr_source_unit_id r)) (sr_marker_start r) (sr_marker_end r))
        MarkerOutsideSource) (\<lambda>_.
     rbind (raise_if (list_ex (\<lambda>c. c \<notin> set allowed) (sr_candidate_referent_ids r))
        ReferenceCandidateUnknown) (\<lambda>_.
     rbind (check_selection r) (\<lambda>_.
       check_references us allowed (sr_id r # seen) rs)))))"

fun check_relations ::
  "semantic_unit list \<Rightarrow> ustr list \<Rightarrow> ustr list \<Rightarrow> semantic_relation list \<Rightarrow> unit binding" where
  "check_relations us allowed seen [] = Inr ()"
| "check_relations us allowed seen (r # rs) =
     rbind (raise_if (sl_id r \<in> set seen) RelationIdsNotUnique) (\<lambda>_.
     rbind (raise_if (sl_source_unit_id r \<notin> set (map su_id us)) RelationSourceUnknown) (\<lambda>_.
     rbind (raise_if (\<not> marker_within (unit_spans us (sl_source_unit_id r)) (sl_evidence_start r) (sl_evidence_end r))
        RelationOutsideSource) (\<lambda>_.
     rbind (raise_if (sl_target_referent_id r \<notin> set allowed) RelationTargetUnknown) (\<lambda>_.
       check_relations us allowed (sl_id r # seen) rs))))"

definition validate_semantic_binding ::
  "(ustr \<Rightarrow> string) \<Rightarrow> (ustr \<Rightarrow> nat) \<Rightarrow> semantic_input \<Rightarrow> semantic_analysis
     \<Rightarrow> validation_report binding" where
  "validate_semantic_binding text_hash classify i a =
     (case validate_input text_hash i of
        Inl e \<Rightarrow> Inl (BadInput e)
      | Inr _ \<Rightarrow>
        (let us = sa_semantic_units a; raw = si_raw_text i;
             allowed = allowed_referents us (si_context_items i) in
         rbind (raise_if (\<not> analysis_fields_ok a) BadOutput) (\<lambda>_.
         rbind (check_units a (length raw)) (\<lambda>_.
         rbind (check_metadata a (length raw)) (\<lambda>_.
         rbind (check_privacy classify us) (\<lambda>_.
         rbind (check_references us allowed [] (sa_references a)) (\<lambda>_.
         rbind (check_relations us allowed [] (sa_relations a)) (\<lambda>_.
           (let report = validate_semantic_evidence raw (analysis_json a) (Some allowed) in
            case rejections report of
              [] \<Rightarrow> Inr report
            | j # _ \<Rightarrow> Inl (EvidenceRejected (rj_kind j) (rj_violation j)))))))))))"

definition semantic_validation_issues ::
  "(ustr \<Rightarrow> string) \<Rightarrow> (ustr \<Rightarrow> nat) \<Rightarrow> semantic_input \<Rightarrow> semantic_analysis \<Rightarrow> binding_error list" where
  "semantic_validation_issues text_hash classify i a =
     (case validate_semantic_binding text_hash classify i a of Inl e \<Rightarrow> [e] | Inr _ \<Rightarrow> [])"

section \<open>What a bound output satisfies\<close>

text \<open>A unit quotes the raw message exactly.\<close>

definition unit_exact :: "ustr \<Rightarrow> semantic_unit \<Rightarrow> bool" where
  "unit_exact raw u \<longleftrightarrow>
     su_raw_start u < su_raw_end u \<and> su_raw_end u \<le> length raw \<and>
     su_evidence u = slice raw (su_raw_start u) (su_raw_end u)"

abbreviation unit_accepted :: "semantic_unit \<Rightarrow> ustr \<times> int \<times> int" where
  "unit_accepted u \<equiv> (su_id u, int (su_raw_start u), int (su_raw_end u))"

lemma analysis_json_collections [simp]:
  "as_sequence (jget (analysis_json a) ''semantic_units'') = map unit_json (sa_semantic_units a)"
  "as_sequence (jget (analysis_json a) ''references'') = map reference_json (sa_references a)"
  "as_sequence (jget (analysis_json a) ''relations'') = map relation_json (sa_relations a)"
  by (simp_all add: analysis_json_def)

lemma exact_unit_json:
  "exact_unit raw (unit_json u) x \<Longrightarrow> x = unit_accepted u \<and> unit_exact raw u"
  by (auto simp: unit_json_def exact_citation_def unit_exact_def raw_slice_def)

lemma exact_units_json:
  "list_all2 (exact_unit raw) (map unit_json us) A \<Longrightarrow>
     A = map unit_accepted us \<and> (\<forall>u \<in> set us. unit_exact raw u)"
proof (induction us arbitrary: A)
  case (Cons u us)
  then obtain x A' where A: "A = x # A'" "exact_unit raw (unit_json u) x"
    "list_all2 (exact_unit raw) (map unit_json us) A'"
    by (auto simp: list_all2_Cons1)
  from exact_unit_json [OF A(2)] Cons.IH [OF A(3)] A(1) show ?case by simp
qed simp

lemma ordered_spans_disjoint:
  assumes "sorted (map unit_span us)" and "\<forall>u \<in> set us. unit_exact raw u"
    and "sorted_wrt (\<lambda>(_, s, e) (_, s', e'). \<not> overlaps s e s' e') (map unit_accepted us)"
  shows "sorted_wrt (\<lambda>u v. su_raw_end u \<le> su_raw_start v) us"
  using assms
proof (induction us)
  case (Cons u us)
  have "su_raw_end u \<le> su_raw_start v" if "v \<in> set us" for v
  proof -
    from that Cons.prems(1) have "unit_span u \<le> unit_span v" by simp
    then have "su_raw_start u \<le> su_raw_start v" by (auto simp: unit_span_def less_eq_prod_def)
    moreover from that Cons.prems(2) have "su_raw_start v < su_raw_end v"
      by (simp add: unit_exact_def)
    moreover from that Cons.prems(3) have "\<not> overlaps (int (su_raw_start u)) (int (su_raw_end u))
        (int (su_raw_start v)) (int (su_raw_end v))"
      by (auto simp: sorted_wrt_map)
    ultimately show ?thesis by (simp add: overlaps_def)
  qed
  with Cons show ?case by simp
qed simp

definition reference_bound :: "semantic_unit list \<Rightarrow> ustr list \<Rightarrow> semantic_reference \<Rightarrow> bool" where
  "reference_bound us allowed r \<longleftrightarrow>
     (\<exists>a b. unit_spans us (sr_source_unit_id r) = Some (a, b) \<and>
            a \<le> sr_marker_start r \<and> sr_marker_end r \<le> b) \<and>
     set (sr_candidate_referent_ids r) \<subseteq> set allowed \<and>
     (if sr_status r = ''resolved''
      then \<exists>t \<in> set (sr_candidate_referent_ids r). sr_selected_referent_id r = Some t \<and>
             t \<noteq> lit ''current_unit:'' @ sr_source_unit_id r
      else sr_selected_referent_id r = None)"

definition relation_bound :: "semantic_unit list \<Rightarrow> ustr list \<Rightarrow> semantic_relation \<Rightarrow> bool" where
  "relation_bound us allowed r \<longleftrightarrow>
     (\<exists>a b. unit_spans us (sl_source_unit_id r) = Some (a, b) \<and>
            a \<le> sl_evidence_start r \<and> sl_evidence_end r \<le> b) \<and>
     sl_target_referent_id r \<in> set allowed"

lemma marker_within_iff:
  "marker_within sp s e \<longleftrightarrow> (\<exists>a b. sp = Some (a, b) \<and> a \<le> s \<and> e \<le> b)"
  by (auto simp: marker_within_def split: option.splits)

lemma check_selection_Inr:
  "check_selection r = Inr u \<longleftrightarrow>
     (if sr_status r = ''resolved''
      then \<exists>t \<in> set (sr_candidate_referent_ids r). sr_selected_referent_id r = Some t \<and>
             t \<noteq> lit ''current_unit:'' @ sr_source_unit_id r
      else sr_selected_referent_id r = None)"
  by (auto simp: check_selection_def split: option.splits)

lemma check_references_Inr:
  "check_references us allowed seen rs = Inr u \<Longrightarrow>
     (\<forall>r \<in> set rs. sr_source_unit_id r \<in> su_id ` set us \<and> reference_bound us allowed r) \<and>
     distinct (map sr_id rs) \<and> set (map sr_id rs) \<inter> set seen = {}"
proof (induction rs arbitrary: seen)
  case (Cons r rs)
  then have "check_references us allowed (sr_id r # seen) rs = Inr u"
    and r: "sr_id r \<notin> set seen" "sr_source_unit_id r \<in> su_id ` set us" "reference_bound us allowed r"
    by (auto simp: reference_bound_def marker_within_iff check_selection_Inr list_ex_iff)
  from Cons.IH [OF this(1)] r show ?case by auto
qed simp

lemma check_relations_Inr:
  "check_relations us allowed seen rs = Inr u \<Longrightarrow>
     (\<forall>r \<in> set rs. sl_source_unit_id r \<in> su_id ` set us \<and> relation_bound us allowed r) \<and>
     distinct (map sl_id rs) \<and> set (map sl_id rs) \<inter> set seen = {}"
proof (induction rs arbitrary: seen)
  case (Cons r rs)
  then have "check_relations us allowed (sl_id r # seen) rs = Inr u"
    and r: "sl_id r \<notin> set seen" "sl_source_unit_id r \<in> su_id ` set us" "relation_bound us allowed r"
    by (auto simp: relation_bound_def marker_within_iff)
  from Cons.IH [OF this(1)] r show ?case by auto
qed simp

text \<open>The context items: one authority boundary, ascending, without the current message.\<close>

definition context_ok :: "(ustr \<Rightarrow> string) \<Rightarrow> semantic_input \<Rightarrow> bool" where
  "context_ok text_hash i \<longleftrightarrow>
     length (si_context_items i) \<le> 6 \<and>
     distinct (map ci_context_item_id (si_context_items i)) \<and>
     sorted_wrt (\<lambda>c d. (ci_turn_index c, ci_unit_index c) < (ci_turn_index d, ci_unit_index d))
       (si_context_items i) \<and>
     (\<forall>c \<in> set (si_context_items i).
        same_authority (si_boundary i) c \<and> ci_message_uuid c \<noteq> si_message_uuid i \<and>
        role_ceiling (ci_role c) = Some (ci_source_authority_ceiling c) \<and>
        text_hash (ci_text c) = ci_raw_text_hash c)"

lemma check_context_items_Inr:
  "check_context_items msg b seen prior cs = Inr u \<Longrightarrow>
     distinct (map ci_context_item_id cs) \<and> ci_context_item_id ` set cs \<inter> set seen = {} \<and>
     sorted_wrt (\<lambda>c d. (ci_turn_index c, ci_unit_index c) < (ci_turn_index d, ci_unit_index d)) cs \<and>
     (\<forall>c \<in> set cs. same_authority b c \<and> ci_message_uuid c \<noteq> msg \<and>
        (\<forall>p. prior = Some p \<longrightarrow> p < (ci_turn_index c, ci_unit_index c)))"
proof (induction cs arbitrary: seen prior)
  case (Cons c cs)
  let ?o = "(ci_turn_index c, ci_unit_index c)"
  from Cons.prems have rest:
    "check_context_items msg b (ci_context_item_id c # seen) (Some ?o) cs = Inr u"
    and c: "ci_context_item_id c \<notin> set seen" "same_authority b c" "ci_message_uuid c \<noteq> msg"
      "\<forall>p. prior = Some p \<longrightarrow> p < ?o"
    by (auto split: option.splits simp: not_le)
  from Cons.IH [OF rest] have ih:
    "distinct (map ci_context_item_id cs)" "ci_context_item_id ` set cs \<inter> set (ci_context_item_id c # seen) = {}"
    "sorted_wrt (\<lambda>c d. (ci_turn_index c, ci_unit_index c) < (ci_turn_index d, ci_unit_index d)) cs"
    "\<And>d. d \<in> set cs \<Longrightarrow> same_authority b d \<and> ci_message_uuid d \<noteq> msg \<and> ?o < (ci_turn_index d, ci_unit_index d)"
    by auto
  have lt: "p < (ci_turn_index d, ci_unit_index d)" if "d \<in> set cs" "prior = Some p" for d p
  proof -
    from c(4) that(2) have "p < ?o" by blast
    also from ih(4) [OF that(1)] have "?o < (ci_turn_index d, ci_unit_index d)" by blast
    finally show ?thesis .
  qed
  from ih c lt show ?case by (auto simp del: less_prod_simp split_paired_All)
qed simp

lemma validate_input_Inr:
  assumes "validate_input text_hash i = Inr u"
  shows "context_ok text_hash i"
proof -
  from assms have ok: "list_all (context_item_ok text_hash) (si_context_items i)"
    "boundary_ok (si_boundary i)" "manifest_integrity text_hash i = Inr u"
    by (auto simp: validate_input_def)
  then have lim: "length (si_context_items i) \<le> 6"
    by (auto simp: manifest_integrity_def boundary_ok_def)
  from ok(3) have "check_context_items (si_message_uuid i) (si_boundary i) [] None (si_context_items i) = Inr u"
    by (auto simp: manifest_integrity_def)
  from check_context_items_Inr [OF this] ok(1) lim show ?thesis
    by (auto simp: context_ok_def context_item_ok_def list_all_iff)
qed

text \<open>The stages of the check, each with what it left.\<close>

lemma binding_stages:
  assumes "validate_semantic_binding text_hash classify i a = Inr r"
  defines "us \<equiv> sa_semantic_units a" and "allowed \<equiv> allowed_referents (sa_semantic_units a) (si_context_items i)"
  shows "context_ok text_hash i" "distinct (map su_id us)" "sorted (map unit_span us)"
    "\<forall>u \<in> set us. classify (su_proposition u) \<le> classify (su_evidence u)"
    "check_references us allowed [] (sa_references a) = Inr ()"
    "check_relations us allowed [] (sa_relations a) = Inr ()"
    "r = validate_semantic_evidence (si_raw_text i) (analysis_json a) (Some allowed)"
    "report_ok r" "analysis_fields_ok a"
proof -
  have srt: "sorted xs \<longleftrightarrow> xs = sort xs" for xs :: "(nat \<times> nat) list"
    by (metis sorted_sort sorted_sort_id)
  show "context_ok text_hash i" "distinct (map su_id us)" "sorted (map unit_span us)"
    "\<forall>u \<in> set us. classify (su_proposition u) \<le> classify (su_evidence u)"
    "check_references us allowed [] (sa_references a) = Inr ()"
    "check_relations us allowed [] (sa_relations a) = Inr ()"
    "r = validate_semantic_evidence (si_raw_text i) (analysis_json a) (Some allowed)"
    "report_ok r" "analysis_fields_ok a"
    using assms(1)
    by (auto simp: validate_semantic_binding_def Let_def us_def allowed_def check_units_def srt
        check_privacy_def list_ex_iff not_less report_ok_def
        split: sum.splits list.splits dest: validate_input_Inr)
qed

text \<open>What the accepted report says, with the hash the envelope carries.\<close>

lemma bound_units:
  assumes "validate_semantic_binding text_hash classify i a = Inr r"
  shows "distinct (map su_id (sa_semantic_units a)) \<and>
     (\<forall>u \<in> set (sa_semantic_units a). unit_exact (si_raw_text i) u) \<and>
     sorted_wrt (\<lambda>u v. su_raw_end u \<le> su_raw_start v) (sa_semantic_units a) \<and>
     accepted_unit_ids r = map su_id (sa_semantic_units a) \<and>
     accepted_reference_indexes r = [0..<length (sa_references a)] \<and>
     accepted_relation_indexes r = [0..<length (sa_relations a)] \<and>
     jget (si_text_envelope i) ''raw_text_hash'' = jlit (text_hash (si_raw_text i))"
proof -
  note st = binding_stages [OF assms]
  let ?allowed = "allowed_referents (sa_semantic_units a) (si_context_items i)"
  let ?A = "accepted_spans (si_raw_text i) (analysis_json a)"
  note clean = clean_report [OF st(8) [unfolded st(7)]]
  from clean(1) have all: "list_all2 (exact_unit (si_raw_text i)) (map unit_json (sa_semantic_units a)) ?A"
    by (simp only: analysis_json_collections)
  note ex = exact_units_json [OF all]
  have "sorted_wrt (\<lambda>(_, s, e) (_, s', e'). \<not> overlaps s e s' e') ?A"
    using accepted_spans_ok unfolding spans_ok_def by blast
  then have "sorted_wrt (\<lambda>u v. su_raw_end u \<le> su_raw_start v) (sa_semantic_units a)"
    using ex st(3) by (intro ordered_spans_disjoint [where raw = "si_raw_text i"]) simp_all
  moreover have "accepted_unit_ids r = map su_id (sa_semantic_units a)"
    using clean(2) ex by (simp add: st(7) comp_def)
  moreover have "jget (si_text_envelope i) ''raw_text_hash'' = jlit (text_hash (si_raw_text i))"
    using assms by (auto simp: validate_semantic_binding_def validate_input_def manifest_integrity_def
        split: sum.splits)
  ultimately show ?thesis using st(2) ex clean(3,4) by (simp add: st(7))
qed

section \<open>Properties\<close>

text \<open>
  Property C21 (bound_units_partition): a bound output has units with distinct ids whose evidence
  is the exact slice of the message, in order and pairwise disjoint, and the report accepts
  exactly these units, all references and all relations, in the order of the output: what the
  coverage planner requires of its input.
\<close>

theorem bound_units_partition:
  assumes "validate_semantic_binding text_hash classify i a = Inr r"
  shows "distinct (map su_id (sa_semantic_units a)) \<and>
     (\<forall>u \<in> set (sa_semantic_units a). unit_exact (si_raw_text i) u) \<and>
     sorted_wrt (\<lambda>u v. su_raw_end u \<le> su_raw_start v) (sa_semantic_units a) \<and>
     accepted_unit_ids r = map su_id (sa_semantic_units a) \<and>
     accepted_reference_indexes r = [0..<length (sa_references a)] \<and>
     accepted_relation_indexes r = [0..<length (sa_relations a)]"
  using bound_units [OF assms] by blast

text \<open>
  Also proved (bound_links_supplied): in a bound output every reference has its marker, and every
  relation its evidence, inside the span of its own source unit; every offered referent and every
  relation target was supplied; a resolved reference selects one of its candidates and never its
  own unit, any other selects nothing.
\<close>

theorem bound_links_supplied:
  assumes "validate_semantic_binding text_hash classify i a = Inr r"
  shows "let us = sa_semantic_units a; allowed = allowed_referents us (si_context_items i) in
     (\<forall>x \<in> set (sa_references a). sr_source_unit_id x \<in> su_id ` set us \<and> reference_bound us allowed x) \<and>
     (\<forall>x \<in> set (sa_relations a). sl_source_unit_id x \<in> su_id ` set us \<and> relation_bound us allowed x)"
  using check_references_Inr [OF binding_stages(5) [OF assms]]
    check_relations_Inr [OF binding_stages(6) [OF assms]]
  by (simp add: Let_def)

text \<open>
  Also proved (bound_context_isolated): a bound output was made from at most six context items of
  the same user, session, workspace and project, ascending, never the current message and never
  above the authority of their role; and no proposition is more sensitive than its evidence.
\<close>

theorem bound_context_isolated:
  assumes "validate_semantic_binding text_hash classify i a = Inr r"
  shows "context_ok text_hash i \<and>
     (\<forall>u \<in> set (sa_semantic_units a). classify (su_proposition u) \<le> classify (su_evidence u))"
  using binding_stages(1,4) [OF assms] by blast

section \<open>A bound message\<close>

text \<open>\<open>"Use tabs. It helps."\<close> with two units; the second refers to the first.  The hash of the
  instance is the text itself, as a string.\<close>

definition demo_hash :: "ustr \<Rightarrow> string" where
  "demo_hash s = map char_of s"

definition demo_text :: ustr where
  "demo_text = lit ''Use tabs. It helps.''"

definition demo_context :: context_item where
  "demo_context =
     \<lparr>ci_context_item_id = lit ''c1'', ci_user_uuid = ''user'', ci_session_uuid = ''session'',
      ci_workspace_uuid = None, ci_project_uuid = None, ci_message_uuid = ''m0'',
      ci_message_version_uuid = None, ci_text_unit_uuid = ''tu0'', ci_role = ''assistant'',
      ci_turn_index = 0, ci_unit_index = 0, ci_raw_start = 0, ci_raw_end = 14,
      ci_text = lit ''tabs or spaces'', ci_raw_text_hash = ''tabs or spaces'',
      ci_source_authority_ceiling = ''assistant_claim''\<rparr>"

definition demo_semantic_unit :: "string \<Rightarrow> nat \<Rightarrow> nat \<Rightarrow> semantic_unit" where
  "demo_semantic_unit i s e =
     \<lparr>su_id = lit i, su_raw_start = s, su_raw_end = e, su_evidence = slice demo_text s e,
      su_proposition = slice demo_text s e, su_unit_type = ''statement'', su_durability = ''durable'',
      su_polarity = ''affirmed'', su_epistemic_status = ''asserted'',
      su_memory_kind = Some ''Preference'', su_lifecycle_status = lit ''unknown''\<rparr>"

definition demo_reference :: semantic_reference where
  "demo_reference =
     \<lparr>sr_id = lit ''ref1'', sr_source_unit_id = lit ''u2'', sr_marker_start = 10, sr_marker_end = 12,
      sr_marker_evidence = lit ''It'', sr_status = ''resolved'',
      sr_candidate_referent_ids = [lit ''current_unit:u1''],
      sr_selected_referent_id = Some (lit ''current_unit:u1'')\<rparr>"

definition demo_analysis :: semantic_analysis where
  "demo_analysis =
     \<lparr>sa_schema_version = ''1.0'', sa_prompt_id = ''memorist.semantic_candidate_analysis'',
      sa_prompt_version = ''1.1'', sa_status = ''ok'', sa_warnings = [], sa_intent = lit ''unknown'',
      sa_primary_topic = lit ''unknown'', sa_secondary_topic = lit ''unknown'',
      sa_one_line_summary = lit ''unknown > unknown > unknown'', sa_message_categories = [],
      sa_concept_tags = [], sa_entities = [], sa_process_references = [],
      sa_epistemic_status = ''unknown'', sa_temporal_status = lit ''unknown'',
      sa_importance = (1, -1), sa_explicit_memory_request = False,
      sa_semantic_units = [demo_semantic_unit ''u1'' 0 9, demo_semantic_unit ''u2'' 10 19],
      sa_references = [demo_reference], sa_relations = []\<rparr>"

definition demo_span :: "nat \<Rightarrow> nat \<Rightarrow> json" where
  "demo_span s e = JObj [(''raw_start'', jnat s), (''raw_end'', jnat e)]"

definition demo_input :: semantic_input where
  "demo_input =
     \<lparr>si_message_uuid = ''m1'', si_message_version_uuid = None, si_raw_text = demo_text,
      si_text_envelope = [(''raw_text_hash'', JStr demo_text),
        (''contract_version'', jlit ''memorist.text.envelope.v3''),
        (''tokens'', JList [demo_span 0 3, demo_span 4 8, demo_span 10 12, demo_span 13 18]),
        (''context_dependency_hints'', JList [demo_span 10 12])],
      si_context_items = [demo_context],
      si_boundary = \<lparr>cb_user_uuid = ''user'', cb_session_uuid = ''session'', cb_workspace_uuid = None,
        cb_project_uuid = None, cb_baseline_limit = 2, cb_effective_limit = 2,
        cb_dependency_expansion = False\<rparr>,
      si_contract_versions = active_versions\<rparr>"

lemma demo_bound:
  "validate_semantic_binding demo_hash (\<lambda>_. 0) demo_input demo_analysis =
     Inr \<lparr>accepted_unit_ids = [lit ''u1'', lit ''u2''], accepted_reference_indexes = [0],
          accepted_relation_indexes = [], rejections = []\<rparr>"
  by code_simp

theorem bound_units_partition_witness:
  "unit_exact demo_text (demo_semantic_unit ''u1'' 0 9) \<and>
   su_raw_end (demo_semantic_unit ''u1'' 0 9) \<le> su_raw_start (demo_semantic_unit ''u2'' 10 19)"
  using bound_units_partition [OF demo_bound] by (simp add: demo_analysis_def demo_input_def)

theorem bound_links_supplied_witness:
  "reference_bound (sa_semantic_units demo_analysis)
     (allowed_referents (sa_semantic_units demo_analysis) (si_context_items demo_input)) demo_reference"
  using bound_links_supplied [OF demo_bound] by (simp add: Let_def demo_analysis_def)

theorem bound_context_isolated_witness: "context_ok demo_hash demo_input"
  using bound_context_isolated [OF demo_bound] by simp

end
