(* ===== verification/CoverageIdentity.thy ===== *)
theory CoverageIdentity
  imports SemanticBinding
begin

text \<open>
  The coverage contracts (\<open>semantic/coverage/contracts.py\<close>), the closed disposition policy
  (\<open>semantic/coverage/policy.py\<close>) and the canonical identities (\<open>semantic/coverage/identity.py\<close>).
  A digest function is an argument: \<open>d_text\<close> is SHA-256 of UTF-8 text, \<open>d_json\<close> SHA-256 of the
  serialised canonical form, \<open>d_uuid5\<close> the UUID of a namespace and a name.
\<close>

section \<open>Contracts\<close>

datatype disposition = DURABLE_CANDIDATE | CONTEXT_ONLY | TRANSIENT_INSTRUCTION
  | UNRESOLVED_REFERENCE | REJECTED_BY_GATE | NEEDS_REVIEW_ITEM | UNSUPPORTED

fun disposition_value :: "disposition \<Rightarrow> string" where
  "disposition_value DURABLE_CANDIDATE = ''durable_candidate''"
| "disposition_value CONTEXT_ONLY = ''context_only''"
| "disposition_value TRANSIENT_INSTRUCTION = ''transient_instruction''"
| "disposition_value UNRESOLVED_REFERENCE = ''unresolved_reference''"
| "disposition_value REJECTED_BY_GATE = ''rejected_by_gate''"
| "disposition_value NEEDS_REVIEW_ITEM = ''needs_review''"
| "disposition_value UNSUPPORTED = ''unsupported''"

record unit_authority =
  pa_text_unit_uuid :: string
  pa_raw_start :: nat
  pa_raw_end :: nat
  pa_annotation_uuid :: "string option"
  pa_gate_decision_uuid :: "string option"
  pa_gate_decision :: "string option"
  pa_route_uuid :: "string option"
  pa_route_type :: "string option"
  pa_route_status :: "string option"
  pa_privacy_ceiling :: string
  pa_privacy_storage_allowed :: bool
  pa_conflicting_authority :: bool

definition authority_fields_ok :: "unit_authority \<Rightarrow> bool" where
  "authority_fields_ok a \<longleftrightarrow>
     pa_text_unit_uuid a \<noteq> [] \<and> pa_privacy_ceiling a \<in> {''normal'', ''sensitive'', ''secret''} \<and>
     pa_raw_start a < pa_raw_end a"

record planner_input =
  pi_message_uuid :: string
  pi_message_version_uuid :: "string option"
  pi_message_role :: string
  pi_processing_run_uuid :: string
  pi_raw_text :: ustr
  pi_text_envelope :: "(string \<times> json) list"
  pi_analysis :: semantic_analysis
  pi_accepted_unit_ids :: "ustr list"
  pi_accepted_reference_indexes :: "nat list"
  pi_accepted_relation_indexes :: "nat list"
  pi_authorities :: "unit_authority list"
  pi_prompt_execution_uuid :: "string option"
  pi_contract_hash :: string
  pi_context_items :: "context_item list"
  pi_imported_record :: bool
  pi_route_mapping_version :: string
  pi_provenance_policy_version :: string
  pi_privacy_policy_version :: string

record coverage_item =
  it_id :: string
  it_semantic_unit_id :: "ustr option"
  it_raw_start :: nat
  it_raw_end :: nat
  it_disposition :: disposition
  it_reason_codes :: "string list"
  it_gate_decision_uuid :: "string option"
  it_route_uuid :: "string option"
  it_proposal_id :: "string option"

record coverage_plan =
  cp_version :: string
  cp_message_uuid :: string
  cp_raw_text_hash :: string
  cp_processing_run_uuid :: string
  cp_prompt_execution_uuid :: "string option"
  cp_contract_hash :: string
  cp_status :: string
  cp_items :: "coverage_item list"
  cp_warnings :: "string list"
  cp_coverage_hash :: string

record candidate_proposal =
  pp_proposal_id :: string
  pp_semantic_unit_id :: ustr
  pp_message_uuid :: string
  pp_text_unit_uuid :: string
  pp_raw_start :: nat
  pp_raw_end :: nat
  pp_evidence :: ustr
  pp_candidate_type :: string
  pp_subject_key :: string
  pp_predicate :: string
  pp_object_payload :: "(string \<times> json) list"
  pp_normalized_text :: ustr
  pp_polarity :: string
  pp_epistemic_status :: string
  pp_durability :: string
  pp_source_authority :: string
  pp_explicitness :: string
  pp_privacy_ceiling :: string
  pp_status :: string
  pp_gate_decision_uuid :: "string option"
  pp_route_uuid :: "string option"
  pp_annotation_uuid :: "string option"
  pp_prompt_execution_uuid :: string
  pp_context_lineage :: "json list"
  pp_reason_codes :: "string list"
  pp_automatic_creation_allowed :: bool
  pp_unit_fingerprint :: string

text \<open>The constraints on the fields of a proposal that its sources do not already guarantee.\<close>

fun nonempty_opt :: "string option \<Rightarrow> bool" where
  "nonempty_opt None = True"
| "nonempty_opt (Some s) = (s \<noteq> [])"

definition proposal_fields_ok :: "candidate_proposal \<Rightarrow> bool" where
  "proposal_fields_ok p \<longleftrightarrow>
     pp_semantic_unit_id p \<noteq> [] \<and> pp_message_uuid p \<noteq> [] \<and> pp_text_unit_uuid p \<noteq> [] \<and>
     0 < pp_raw_end p \<and> pp_evidence p \<noteq> [] \<and>
     nonempty_opt (pp_gate_decision_uuid p) \<and> nonempty_opt (pp_route_uuid p) \<and>
     nonempty_opt (pp_annotation_uuid p) \<and> pp_prompt_execution_uuid p \<noteq> []"

definition COVERAGE_PLAN_VERSION :: string where
  "COVERAGE_PLAN_VERSION = ''memorist.semantic_candidate.coverage_plan.v1''"

definition COVERAGE_PLANNER_VERSION :: string where
  "COVERAGE_PLANNER_VERSION = ''memorist.semantic_candidate.coverage_planner.v1''"

section \<open>Disposition policy\<close>

definition authority_review_reasons :: "unit_authority option \<Rightarrow> nat \<Rightarrow> string list" where
  "authority_review_reasons auth cnt =
     (if auth = None \<or> cnt = 0 then [''missing_persisted_authority''] else []) @
     (if 1 < cnt then [''cross_authority_span''] else []) @
     (case auth of None \<Rightarrow> []
      | Some a \<Rightarrow>
          (if pa_conflicting_authority a then [''conflicting_persisted_authority''] else []) @
          (if pa_privacy_ceiling a \<noteq> ''normal'' \<or> \<not> pa_privacy_storage_allowed a
           then [''privacy_or_sensitivity_ceiling''] else []))"

definition authority_blocks :: "unit_authority option \<Rightarrow> nat \<Rightarrow> bool" where
  "authority_blocks auth cnt \<longleftrightarrow>
     (case auth of None \<Rightarrow> True
      | Some a \<Rightarrow> cnt \<noteq> 1 \<or> pa_conflicting_authority a \<or> \<not> pa_privacy_storage_allowed a \<or>
          pa_privacy_ceiling a \<in> {''sensitive'', ''secret''})"

definition disposition_for_unit ::
  "semantic_unit \<Rightarrow> unit_authority option \<Rightarrow> nat \<Rightarrow> bool \<Rightarrow> bool \<Rightarrow> disposition \<times> string list" where
  "disposition_for_unit u auth cnt unresolved supported =
     (if authority_blocks auth cnt then
        (let rs = authority_review_reasons auth cnt in
         (NEEDS_REVIEW_ITEM, fromkeys (if rs = [] then [''authority_requires_review''] else rs)))
      else if unresolved then (UNRESOLVED_REFERENCE, [''ambiguous_or_unresolved_reference''])
      else if su_durability u = ''context_only'' then (CONTEXT_ONLY, [''context_only''])
      else if su_unit_type u = ''instruction'' \<and> su_durability u = ''transient''
      then (TRANSIENT_INSTRUCTION, [''transient_instruction''])
      else if su_unit_type u = ''question'' \<or> su_epistemic_status u \<in> {''hypothetical'', ''questioned''}
      then (CONTEXT_ONLY, [''non_asserted_or_question''])
      else if su_durability u = ''unknown'' \<or> su_epistemic_status u = ''unknown''
      then (NEEDS_REVIEW_ITEM, [''unknown_durability_or_epistemic_status''])
      else if \<not> supported then (UNSUPPORTED, [''route_mapping_unsupported''])
      else if su_durability u \<noteq> ''durable'' then (UNSUPPORTED, [''durability_not_candidate_eligible''])
      else (DURABLE_CANDIDATE, [''durable_policy_eligible'']))"

section \<open>Identities\<close>

text \<open>
  The digests are arguments.  The material hashed here consists of offsets, of enum values and of
  strings that the records' validation (pydantic) has already refused to admit with unpaired
  surrogates, and it has no timestamp members; so the profile check in \<open>dump_ijson\<close> passes and the
  definitions use \<open>canonical_digest\<close> directly.
\<close>

record digests =
  d_text :: "ustr \<Rightarrow> string"
  d_json :: "json \<Rightarrow> string"
  d_uuid5 :: "string \<Rightarrow> string \<Rightarrow> string"

abbreviation canonical_hash :: "digests \<Rightarrow> json \<Rightarrow> string" where
  "canonical_hash D v \<equiv> canonical_digest (d_json D) v"

definition PROPOSAL_NAMESPACE :: string where
  "PROPOSAL_NAMESPACE = ''6ba7b811-9dad-11d1-80b4-00c04fd430c8''"

definition COVERAGE_ITEM_NAMESPACE :: string where
  "COVERAGE_ITEM_NAMESPACE = ''0e4f3e9a-c687-53a0-a948-bc544393f77d''"

text \<open>\<open>{item.id: item}\<close>: for a repeated key the last item.\<close>

definition index_by :: "('a \<Rightarrow> 'k) \<Rightarrow> 'a list \<Rightarrow> 'k \<Rightarrow> 'a option" where
  "index_by key xs k = map_of (rev (map (\<lambda>x. (key x, x)) xs)) k"

definition unit_content :: "digests \<Rightarrow> semantic_unit \<Rightarrow> (string \<times> json) list" where
  "unit_content D u =
     [(''raw_start'', jnat (su_raw_start u)), (''raw_end'', jnat (su_raw_end u)),
      (''evidence_hash'', jlit (d_text D (su_evidence u))), (''proposition'', JStr (su_proposition u)),
      (''unit_type'', jlit (su_unit_type u)), (''durability'', jlit (su_durability u)),
      (''polarity'', jlit (su_polarity u)), (''epistemic_status'', jlit (su_epistemic_status u))]"

definition invalid_target :: json where
  "invalid_target = JObj [(''kind'', jlit ''invalid'')]"

definition target_fingerprint ::
  "digests \<Rightarrow> semantic_unit list \<Rightarrow> context_item list \<Rightarrow> ustr option \<Rightarrow> json" where
  "target_fingerprint D us cs ref =
     (case ref of None \<Rightarrow> JNull
      | Some r \<Rightarrow>
         (if starts_with r (lit ''current_unit:'') then
            (case index_by su_id us (removeprefix r (lit ''current_unit:'')) of
               None \<Rightarrow> invalid_target
             | Some u \<Rightarrow> JObj [(''kind'', jlit ''current_unit''),
                 (''fingerprint'', jlit (canonical_hash D (JObj (unit_content D u))))])
          else if starts_with r (lit ''prior_context:'') then
            (case index_by ci_context_item_id cs (removeprefix r (lit ''prior_context:'')) of
               None \<Rightarrow> invalid_target
             | Some c \<Rightarrow> JObj
                 [(''kind'', jlit ''prior_context''), (''context_item_id'', JStr (ci_context_item_id c)),
                  (''message_uuid'', jlit (ci_message_uuid c)),
                  (''message_version_uuid'', jopt jlit (ci_message_version_uuid c)),
                  (''text_unit_uuid'', jlit (ci_text_unit_uuid c)),
                  (''raw_start'', jnat (ci_raw_start c)), (''raw_end'', jnat (ci_raw_end c)),
                  (''raw_text_hash'', jlit (ci_raw_text_hash c)), (''role'', jlit (ci_role c)),
                  (''source_authority_ceiling'', jlit (ci_source_authority_ceiling c))])
          else invalid_target))"

definition semantic_unit_fingerprint ::
  "digests \<Rightarrow> semantic_unit \<Rightarrow> semantic_analysis \<Rightarrow> nat list \<Rightarrow> nat list \<Rightarrow> context_item list \<Rightarrow> string" where
  "semantic_unit_fingerprint D u a ref_ixs rel_ixs cs =
     (let us = sa_semantic_units a;
          refs = filter (\<lambda>r. sr_source_unit_id r = su_id u) (map (\<lambda>i. sa_references a ! i) ref_ixs);
          rels = filter (\<lambda>r. sl_source_unit_id r = su_id u) (map (\<lambda>i. sa_relations a ! i) rel_ixs);
          jrefs = map (\<lambda>r. JObj
            [(''marker_start'', jnat (sr_marker_start r)), (''marker_end'', jnat (sr_marker_end r)),
             (''marker_hash'', jlit (d_text D (sr_marker_evidence r))), (''status'', jlit (sr_status r)),
             (''selected_target'', target_fingerprint D us cs (sr_selected_referent_id r))]) refs;
          jrels = map (\<lambda>r. JObj
            [(''relation_type'', jlit (sl_relation_type r)), (''evidence_start'', jnat (sl_evidence_start r)),
             (''evidence_end'', jnat (sl_evidence_end r)),
             (''evidence_hash'', jlit (d_text D (sl_evidence r))),
             (''target'', target_fingerprint D us cs (Some (sl_target_referent_id r)))]) rels
      in canonical_hash D (JObj (unit_content D u @
           [(''references'', JList (sort_key (canonical_hash D) jrefs)),
            (''relations'', JList (sort_key (canonical_hash D) jrels))])))"

definition proposal_material ::
  "string \<Rightarrow> string \<Rightarrow> string \<Rightarrow> string \<Rightarrow> string \<Rightarrow> nat \<Rightarrow> nat \<Rightarrow> string \<Rightarrow> string \<Rightarrow> string \<Rightarrow> string
     \<Rightarrow> string \<Rightarrow> json" where
  "proposal_material planner message raw_hash contract fingerprint s e rt rs gate authority disp = JObj
     [(''identity_version'', jlit ''memorist.semantic_candidate.proposal_identity.v1''),
      (''planner_version'', jlit planner), (''message_uuid'', jlit message),
      (''raw_text_hash'', jlit raw_hash), (''semantic_contract_hash'', jlit contract),
      (''semantic_unit_fingerprint'', jlit fingerprint), (''raw_start'', jnat s), (''raw_end'', jnat e),
      (''route_type'', jlit rt), (''route_status'', jlit rs), (''gate_decision'', jlit gate),
      (''source_authority'', jlit authority), (''coverage_disposition'', jlit disp)]"

definition proposal_identity :: "digests \<Rightarrow> json \<Rightarrow> string \<times> string" where
  "proposal_identity D material =
     (let digest = canonical_hash D material in
      (d_uuid5 D PROPOSAL_NAMESPACE (''memorist:semantic-candidate-proposal:v1:'' @ digest), digest))"

definition coverage_item_identity :: "digests \<Rightarrow> (string \<times> json) list \<Rightarrow> string" where
  "coverage_item_identity D material =
     d_uuid5 D COVERAGE_ITEM_NAMESPACE (canonical_hash D (JObj
       ((''identity_version'', jlit ''memorist.semantic_candidate.coverage_item_identity.v1'') # material)))"

definition coverage_plan_hash :: "digests \<Rightarrow> (string \<times> json) list \<Rightarrow> string" where
  "coverage_plan_hash D material = canonical_hash D (JObj material)"

text \<open>Only a unit whose one authority neither conflicts nor forbids storage can be durable.\<close>

lemma disposition_durable:
  "disposition_for_unit u auth cnt unresolved supported = (DURABLE_CANDIDATE, rs) \<Longrightarrow>
     \<exists>a. auth = Some a \<and> cnt = 1 \<and> \<not> pa_conflicting_authority a \<and> pa_privacy_storage_allowed a \<and>
       pa_privacy_ceiling a \<notin> {''sensitive'', ''secret''} \<and> \<not> unresolved \<and> supported \<and>
       su_durability u = ''durable'' \<and> su_unit_type u \<noteq> ''question'' \<and>
       su_epistemic_status u \<notin> {''hypothetical'', ''questioned'', ''unknown''}"
  by (auto simp: disposition_for_unit_def authority_blocks_def Let_def split: if_splits option.splits)

lemma disposition_conflicting [simp]:
  "pa_conflicting_authority a \<Longrightarrow>
     fst (disposition_for_unit u (Some a) cnt unresolved supported) = NEEDS_REVIEW_ITEM"
  by (simp add: disposition_for_unit_def authority_blocks_def Let_def)

lemma disposition_not_gate [simp]:
  "fst (disposition_for_unit u auth cnt unresolved supported) \<noteq> REJECTED_BY_GATE"
  by (simp add: disposition_for_unit_def Let_def)

end
