(* ===== verification/CoverageIndex.thy ===== *)
theory CoverageIndex
  imports CoverageIdentity Bisect
begin

text \<open>
  The span machinery of the coverage planner (\<open>semantic/coverage/planner.py\<close>): the authority
  index with its binary search, the merging of unit spans, the search for uncovered tokens and
  their grouping.  Each optimised routine is related to the exhaustive definition it stands for.
  The interface of a span lookup is the locale \<open>span_lookup\<close>; the authority index provides it.
\<close>

section \<open>The interface of a span lookup\<close>

text \<open>\<open>containing (build xs) s e\<close> finds the spans of \<open>xs\<close> around a non-empty query.\<close>

locale span_lookup =
  fixes lo hi :: "'a \<Rightarrow> nat"
    and build :: "'a list \<Rightarrow> 'ix"
    and containing :: "'ix \<Rightarrow> nat \<Rightarrow> nat \<Rightarrow> 'a list"
  assumes exhaustive: "\<forall>x \<in> set xs. lo x < hi x \<Longrightarrow> s < e \<Longrightarrow>
      mset (containing (build xs) s e) = mset (filter (\<lambda>x. lo x \<le> s \<and> e \<le> hi x) xs)"
begin

lemma members:
  assumes "\<forall>x \<in> set xs. lo x < hi x" and "s < e"
  shows "set (containing (build xs) s e) = {x \<in> set xs. lo x \<le> s \<and> e \<le> hi x}"
  using mset_eq_setD [OF exhaustive [OF assms]] by auto

text \<open>A narrower query keeps every answer.\<close>

lemma narrower:
  assumes "\<forall>x \<in> set xs. lo x < hi x" and "s \<le> s'" "s' < e'" "e' \<le> e"
    and "x \<in> set (containing (build xs) s e)"
  shows "x \<in> set (containing (build xs) s' e')"
  using assms members [of xs s e] members [of xs s' e'] by auto

text \<open>The order in which the spans were supplied is irrelevant.\<close>

lemma order_free:
  assumes "\<forall>x \<in> set xs. lo x < hi x" and "mset xs = mset ys" and "s < e"
  shows "mset (containing (build xs) s e) = mset (containing (build ys) s e)"
proof -
  from assms(1,2) have "\<forall>y \<in> set ys. lo y < hi y" by (metis mset_eq_setD)
  then show ?thesis using assms exhaustive [of xs s e] exhaustive [of ys s e]
    by (simp add: mset_filter)
qed

text \<open>One answer means exactly one span of the list contains the query.\<close>

lemma single:
  assumes "\<forall>x \<in> set xs. lo x < hi x" and "s < e" and "containing (build xs) s e = [x]"
  shows "filter (\<lambda>x. lo x \<le> s \<and> e \<le> hi x) xs = [x]"
proof -
  have "mset (filter (\<lambda>x. lo x \<le> s \<and> e \<le> hi x) xs) = {#x#}"
    using exhaustive [OF assms(1,2)] unfolding assms(3) by (simp only: mset.simps)
  then show ?thesis by (simp only: mset_single_iff)
qed

end

section \<open>The authority index\<close>

record authority_index =
  ax_authorities :: "unit_authority list"
  ax_starts :: "nat list"
  ax_overlapping :: bool

definition authority_key :: "unit_authority \<Rightarrow> nat \<times> nat \<times> string" where
  "authority_key a = (pa_raw_start a, pa_raw_end a, pa_text_unit_uuid a)"

definition adjacent_overlap :: "unit_authority list \<Rightarrow> bool" where
  "adjacent_overlap as = list_ex (\<lambda>(p, c). pa_raw_start c < pa_raw_end p) (zip as (tl as))"

definition make_index :: "unit_authority list \<Rightarrow> authority_index" where
  "make_index as =
     (let sorted_as = sort_key authority_key as in
      \<lparr>ax_authorities = sorted_as, ax_starts = map pa_raw_start sorted_as,
       ax_overlapping = adjacent_overlap sorted_as\<rparr>)"

definition containing :: "authority_index \<Rightarrow> nat \<Rightarrow> nat \<Rightarrow> unit_authority list" where
  "containing ix s e =
     (if ax_overlapping ix
      then filter (\<lambda>a. pa_raw_start a \<le> s \<and> e \<le> pa_raw_end a) (ax_authorities ix)
      else (let n = bisect_right (ax_starts ix) s in
            if n = 0 then []
            else (let a = ax_authorities ix ! (n - 1) in if e \<le> pa_raw_end a then [a] else [])))"

lemma adjacent_ordered:
  assumes "\<not> adjacent_overlap as" and "\<forall>a \<in> set as. pa_raw_start a < pa_raw_end a"
  shows "sorted_wrt (\<lambda>a b. pa_raw_end a \<le> pa_raw_start b) as"
  using assms
proof (induction as)
  case (Cons a as)
  have rest: "sorted_wrt (\<lambda>a b. pa_raw_end a \<le> pa_raw_start b) as"
    using Cons by (cases as) (auto simp: adjacent_overlap_def)
  have "pa_raw_end a \<le> pa_raw_start b" if "b \<in> set as" for b
  proof (cases as)
    case (Cons c cs)
    with Cons.prems have "pa_raw_end a \<le> pa_raw_start c" "pa_raw_start c < pa_raw_end c"
      by (auto simp: adjacent_overlap_def)
    then show ?thesis using that rest Cons by auto
  qed (use that in simp)
  with rest show ?case by simp
qed simp

text \<open>In a list of ordered spans the last one that starts at or before a query is the only one
  that can contain it.\<close>

lemma ordered_filter_single:
  assumes ord: "sorted_wrt (\<lambda>a b. pa_raw_end a \<le> pa_raw_start b) as"
    and "n < length as" "s < e"
    and le: "\<forall>i \<le> n. pa_raw_start (as ! i) \<le> s"
    and gt: "\<forall>i. n < i \<and> i < length as \<longrightarrow> s < pa_raw_start (as ! i)"
  shows "filter (\<lambda>a. pa_raw_start a \<le> s \<and> e \<le> pa_raw_end a) as =
         (if e \<le> pa_raw_end (as ! n) then [as ! n] else [])"
proof -
  let ?P = "\<lambda>a. pa_raw_start a \<le> s \<and> e \<le> pa_raw_end a"
  have split: "as = take n as @ as ! n # drop (Suc n) as"
    using assms(2) by (rule id_take_nth_drop)
  have "\<not> ?P (as ! i)" if "i < n" for i
  proof -
    have "pa_raw_end (as ! i) \<le> pa_raw_start (as ! n)"
      using ord that assms(2) by (simp add: sorted_wrt_iff_nth_less)
    with le assms(3) show ?thesis by force
  qed
  then have "filter ?P (take n as) = []"
    by (auto simp: filter_empty_conv in_set_conv_nth)
  moreover have "filter ?P (drop (Suc n) as) = []"
    using gt assms(2) by (auto simp: filter_empty_conv in_set_conv_nth) (metis add_Suc_right less_Suc_eq_le less_add_Suc1 add.commute less_diff_conv not_less)
  ultimately show ?thesis using le by (subst split) simp
qed

lemma containing_make_index:
  assumes "\<forall>a \<in> set as. pa_raw_start a < pa_raw_end a" and "s < e"
  shows "containing (make_index as) s e =
     filter (\<lambda>a. pa_raw_start a \<le> s \<and> e \<le> pa_raw_end a) (sort_key authority_key as)"
proof (cases "adjacent_overlap (sort_key authority_key as)")
  case True
  then show ?thesis by (simp add: containing_def make_index_def Let_def)
next
  case False
  let ?as = "sort_key authority_key as" and ?starts = "map pa_raw_start (sort_key authority_key as)"
  let ?n = "bisect_right ?starts s"
  have ord: "sorted_wrt (\<lambda>a b. pa_raw_end a \<le> pa_raw_start b) ?as"
    using False assms(1) by (intro adjacent_ordered) simp_all
  have "sorted ?starts"
    unfolding sorted_map
    by (rule sorted_wrt_mono_rel [OF _ ord]) (use assms(1) in \<open>force dest: less_imp_le\<close>)
  note b = bisect_right_spec [OF this, of s]
  show ?thesis
  proof (cases "?n = 0")
    case True
    then have "\<forall>a \<in> set ?as. s < pa_raw_start a"
      using b(3) by (auto simp: in_set_conv_nth simp del: set_sort)
    then have "filter (\<lambda>a. pa_raw_start a \<le> s \<and> e \<le> pa_raw_end a) ?as = []"
      by (auto simp: filter_empty_conv)
    then show ?thesis using True False by (simp add: containing_def make_index_def Let_def)
  next
    case n: False
    have "filter (\<lambda>a. pa_raw_start a \<le> s \<and> e \<le> pa_raw_end a) ?as =
         (if e \<le> pa_raw_end (?as ! (?n - 1)) then [?as ! (?n - 1)] else [])"
    proof (rule ordered_filter_single [OF ord _ assms(2)])
      show "?n - 1 < length ?as" using b(1) n by simp
      show "\<forall>i \<le> ?n - 1. pa_raw_start (?as ! i) \<le> s"
        using b(1,2) n by (metis Suc_pred' le_imp_less_Suc length_map less_le_trans neq0_conv nth_map)
      show "\<forall>i. ?n - 1 < i \<and> i < length ?as \<longrightarrow> s < pa_raw_start (?as ! i)"
        using b(3) n by (metis Suc_leI Suc_pred' length_map neq0_conv nth_map)
    qed
    then show ?thesis using False n by (simp add: containing_def make_index_def Let_def)
  qed
qed

interpretation authority: span_lookup pa_raw_start pa_raw_end make_index containing
  by unfold_locales (simp add: containing_make_index mset_filter)

section \<open>Merging spans\<close>

type_synonym interval = "nat \<times> nat"

definition merge_step :: "interval list \<Rightarrow> interval \<Rightarrow> interval list" where
  "merge_step merged iv =
     (case iv of (s, e) \<Rightarrow>
        if merged = [] \<or> snd (last merged) < s then merged @ [(s, e)]
        else butlast merged @ [(fst (last merged), max (snd (last merged)) e)])"

definition merge_intervals :: "interval list \<Rightarrow> interval list" where
  "merge_intervals ivs = foldl merge_step [] (sort ivs)"

definition points :: "interval list \<Rightarrow> nat set" where
  "points ivs = {x. \<exists>(s, e) \<in> set ivs. s \<le> x \<and> x < e}"

lemma points_simps [simp]:
  "points [] = {}"
  "points (iv # ivs) = {fst iv..<snd iv} \<union> points ivs"
  "points (ivs @ ivs') = points ivs \<union> points ivs'"
  by (auto simp: points_def)

lemma points_set: "set xs = set ys \<Longrightarrow> points xs = points ys"
  by (simp add: points_def)

abbreviation gapped :: "interval list \<Rightarrow> bool" where
  "gapped \<equiv> sorted_wrt (\<lambda>i j. snd i < fst j)"

abbreviation proper :: "interval list \<Rightarrow> bool" where
  "proper ivs \<equiv> \<forall>(s, e) \<in> set ivs. s < e"

text \<open>One step keeps the merged list gapped and proper and adds exactly the new points.\<close>

lemma merge_step_inv:
  assumes "gapped merged" "proper merged" "s < e" "\<forall>i \<in> set merged. fst i \<le> s"
  shows "gapped (merge_step merged (s, e)) \<and> proper (merge_step merged (s, e)) \<and>
     points (merge_step merged (s, e)) = points merged \<union> {s..<e} \<and>
     (\<forall>i \<in> set (merge_step merged (s, e)). fst i \<le> s)"
proof (cases merged rule: rev_cases)
  case Nil
  with assms(3) show ?thesis by (simp add: merge_step_def)
next
  case (snoc ms l)
  obtain a b where l: "l = (a, b)" by (cases l)
  have lt: "snd i < a" if "i \<in> set ms" for i
    using assms(1) that by (auto simp: snoc l sorted_wrt_append)
  have ab: "a < b" "a \<le> s" using assms(2,4) by (auto simp: snoc l)
  show ?thesis
  proof (cases "b < s")
    case True
    have "snd i < s" if "i \<in> set ms" for i using lt [OF that] ab by simp
    with True assms show ?thesis by (auto simp: merge_step_def snoc l sorted_wrt_append)
  next
    case False
    then have "{a..<max b e} = {a..<b} \<union> {s..<e}" using ab by auto
    with False assms lt ab show ?thesis
      by (auto simp: merge_step_def snoc l sorted_wrt_append)
  qed
qed

lemma merge_fold:
  assumes "gapped merged" "proper merged" "proper ivs" "sorted ivs"
    "\<forall>i \<in> set merged. \<forall>j \<in> set ivs. fst i \<le> fst j"
  shows "gapped (foldl merge_step merged ivs) \<and> proper (foldl merge_step merged ivs) \<and>
     points (foldl merge_step merged ivs) = points merged \<union> points ivs"
  using assms
proof (induction ivs arbitrary: merged)
  case (Cons iv ivs)
  obtain s e where iv: "iv = (s, e)" by (cases iv)
  have "\<forall>i \<in> set merged. fst i \<le> s" using Cons.prems(5) iv by simp
  with Cons.prems iv have step: "gapped (merge_step merged iv)" "proper (merge_step merged iv)"
    "points (merge_step merged iv) = points merged \<union> {s..<e}"
    "\<forall>i \<in> set (merge_step merged iv). fst i \<le> s"
    using merge_step_inv [of merged s e] by auto
  have "s \<le> fst j" if "j \<in> set ivs" for j
    using Cons.prems(4) that iv by (auto simp: less_eq_prod_def)
  with step(4) have "\<forall>i \<in> set (merge_step merged iv). \<forall>j \<in> set ivs. fst i \<le> fst j"
    by (meson order.trans)
  then have "gapped (foldl merge_step (merge_step merged iv) ivs) \<and>
      proper (foldl merge_step (merge_step merged iv) ivs) \<and>
      points (foldl merge_step (merge_step merged iv) ivs) = points (merge_step merged iv) \<union> points ivs"
    using Cons.prems by (intro Cons.IH step) auto
  with step(3) iv show ?case by (auto simp: Un_assoc)
qed simp

lemma merge_intervals_spec:
  assumes "proper ivs"
  shows "gapped (merge_intervals ivs) \<and> proper (merge_intervals ivs) \<and>
     points (merge_intervals ivs) = points ivs"
  using merge_fold [of "[]" "sort ivs"] assms points_set [of "sort ivs" ivs]
  by (simp add: merge_intervals_def)

section \<open>Tokens outside the covered spans\<close>

text \<open>The loop's index into the covered spans is the rest of their list.\<close>

fun tokens_outside_intervals :: "interval list \<Rightarrow> interval list \<Rightarrow> interval list" where
  "tokens_outside_intervals [] covered = []"
| "tokens_outside_intervals ((s, e) # ts) covered =
     (let rest = dropWhile (\<lambda>c. snd c \<le> s) covered;
          hit = (case rest of [] \<Rightarrow> False | (a, b) # _ \<Rightarrow> s < b \<and> a < e)
      in if hit then tokens_outside_intervals ts rest
         else (s, e) # tokens_outside_intervals ts rest)"

definition token_covered :: "interval list \<Rightarrow> interval \<Rightarrow> bool" where
  "token_covered covered t \<longleftrightarrow> (\<exists>(a, b) \<in> set covered. fst t < b \<and> a < snd t)"

lemma token_covered_points:
  "proper covered \<Longrightarrow> s < e \<Longrightarrow> token_covered covered (s, e) \<longleftrightarrow> points covered \<inter> {s..<e} \<noteq> {}"
proof -
  assume p: "proper covered" "s < e"
  have "s < b \<and> a < e \<longleftrightarrow> (\<exists>x. a \<le> x \<and> x < b \<and> s \<le> x \<and> x < e)" if "(a, b) \<in> set covered" for a b
    using p(2) bspec [OF p(1) that, simplified] by (metis le_less_trans less_imp_le_nat max.cobounded1 max.cobounded2 max_def order_less_le_trans)
  then have "token_covered covered (s, e) \<longleftrightarrow>
      (\<exists>(a, b) \<in> set covered. \<exists>x. a \<le> x \<and> x < b \<and> s \<le> x \<and> x < e)"
    unfolding token_covered_def by (intro bex_cong refl) auto
  also have "\<dots> \<longleftrightarrow> points covered \<inter> {s..<e} \<noteq> {}"
  proof -
    have "x \<in> points covered \<longleftrightarrow> (\<exists>c \<in> set covered. fst c \<le> x \<and> x < snd c)" for x
      by (simp add: points_def case_prod_unfold)
    then show ?thesis by (simp add: case_prod_unfold set_eq_iff) metis
  qed
  finally show ?thesis .
qed

lemma tokens_outside_filter:
  assumes "gapped covered" "proper covered" "sorted (map fst ts)" "proper ts"
  shows "tokens_outside_intervals ts covered = filter (\<lambda>t. \<not> token_covered covered t) ts"
  using assms
proof (induction ts covered rule: tokens_outside_intervals.induct)
  case (2 s e ts covered)
  define rest where "rest = dropWhile (\<lambda>c. snd c \<le> s) covered"
  define dropped where "dropped = takeWhile (\<lambda>c. snd c \<le> s) covered"
  have cov: "covered = dropped @ rest" by (simp add: dropped_def rest_def)
  have dropped: "snd c \<le> s" if "c \<in> set dropped" for c
    using that by (auto simp: dropped_def dest: set_takeWhileD)
  have gp: "gapped rest" "proper rest"
    using 2(3,4) by (auto simp: cov sorted_wrt_append)
  have later: "token_covered covered t = token_covered rest t" if "s \<le> fst t" for t
  proof -
    have "\<not> (fst t < snd c)" if "c \<in> set dropped" for c
      using dropped [OF that] \<open>s \<le> fst t\<close> by simp
    then show ?thesis unfolding token_covered_def cov by fastforce
  qed
  have ts: "sorted (map fst ts)" "proper ts" using 2(5,6) by auto
  have IH: "tokens_outside_intervals ts rest = filter (\<lambda>t. \<not> token_covered rest t) ts"
    using 2(1,2) gp ts unfolding rest_def by blast
  have tail: "filter (\<lambda>t. \<not> token_covered rest t) ts = filter (\<lambda>t. \<not> token_covered covered t) ts"
    by (rule filter_cong [OF refl]) (use later 2(5) in auto)
  have hit: "(case rest of [] \<Rightarrow> False | (a, b) # _ \<Rightarrow> s < b \<and> a < e) = token_covered rest (s, e)"
  proof (cases rest)
    case (Cons c cs)
    obtain a b where c: "c = (a, b)" by (cases c)
    have "s < b" using Cons c by (auto simp: rest_def dropWhile_eq_Cons_conv)
    have "a < e" if "d \<in> set cs" "fst d < e" for d
    proof -
      have "b < fst d" using gp(1) that(1) by (simp add: Cons c)
      moreover have "a < b" using gp(2) by (simp add: Cons c)
      ultimately show ?thesis using that(2) by simp
    qed
    then show ?thesis using \<open>s < b\<close> by (auto simp: Cons c token_covered_def)
  qed (simp add: token_covered_def)
  show ?case
    using IH tail hit later [of "(s, e)"] by (simp add: Let_def flip: rest_def)
qed simp

section \<open>Grouping uncovered tokens\<close>

type_synonym token_group = "string option \<times> interval list"

definition token_authority_key :: "authority_index \<Rightarrow> interval \<Rightarrow> string option" where
  "token_authority_key ix t =
     (case containing ix (fst t) (snd t) of [a] \<Rightarrow> Some (pa_text_unit_uuid a) | _ \<Rightarrow> None)"

definition group_step ::
  "unidb \<Rightarrow> ustr \<Rightarrow> authority_index \<Rightarrow> token_group list \<Rightarrow> interval \<Rightarrow> token_group list" where
  "group_step U raw ix groups t =
     (let key = token_authority_key ix t in
      if groups = [] then [(key, [t])]
      else (let (k, g) = last groups; gap = slice raw (snd (last g)) (fst t) in
            if key = k \<and> \<not> list_ex (is_alnum U) gap
            then butlast groups @ [(k, g @ [t])] else groups @ [(key, [t])]))"

definition token_groups ::
  "unidb \<Rightarrow> ustr \<Rightarrow> authority_index \<Rightarrow> interval list \<Rightarrow> token_group list" where
  "token_groups U raw ix ts = foldl (group_step U raw ix) [] ts"

definition group_span :: "token_group \<Rightarrow> interval" where
  "group_span g = (fst (hd (snd g)), snd (last (snd g)))"

text \<open>The groups cut the token list into non-empty pieces.\<close>

lemma group_step_concat:
  "concat (map snd (group_step U raw ix groups t)) = concat (map snd groups) @ [t]"
proof (cases groups rule: rev_cases)
  case (snoc gs g)
  then show ?thesis by (cases g) (simp add: group_step_def Let_def)
qed (simp add: group_step_def Let_def)

lemma group_step_nonempty:
  "\<forall>g \<in> set groups. snd g \<noteq> [] \<Longrightarrow> \<forall>g \<in> set (group_step U raw ix groups t). snd g \<noteq> []"
proof (cases groups rule: rev_cases)
  case (snoc gs g)
  moreover assume "\<forall>g \<in> set groups. snd g \<noteq> []"
  ultimately show ?thesis by (cases g) (auto simp: group_step_def Let_def)
qed (simp add: group_step_def Let_def)

lemma token_groups_spec:
  "concat (map snd (token_groups U raw ix ts)) = ts \<and>
   (\<forall>g \<in> set (token_groups U raw ix ts). snd g \<noteq> [])"
proof -
  have "concat (map snd (foldl (group_step U raw ix) groups ts)) = concat (map snd groups) @ ts \<and>
      (\<forall>g \<in> set (foldl (group_step U raw ix) groups ts). snd g \<noteq> [])"
    if "\<forall>g \<in> set groups. snd g \<noteq> []" for groups
    using that
  proof (induction ts arbitrary: groups)
    case (Cons t ts)
    from Cons.IH [OF group_step_nonempty [OF Cons.prems]] show ?case
      by (simp add: group_step_concat)
  qed simp
  from this [of "[]"] show ?thesis by (simp add: token_groups_def)
qed

text \<open>With ascending disjoint tokens, a token lies inside the span of its group, and the spans of
  the groups ascend.\<close>

abbreviation ascending :: "interval list \<Rightarrow> bool" where
  "ascending \<equiv> sorted_wrt (\<lambda>i j. snd i \<le> fst j)"

lemma ascending_bounds:
  assumes "ascending ts" "proper ts" "t \<in> set ts"
  shows "fst (hd ts) \<le> fst t \<and> snd t \<le> snd (last ts)"
proof -
  from assms(3) obtain xs ys where ts: "ts = xs @ t # ys" by (meson split_list)
  have t: "fst t < snd t" using assms(2,3) by (cases t) auto
  have "fst (hd ts) \<le> fst t"
  proof (cases xs)
    case (Cons x xs')
    have "fst x < snd x" "snd x \<le> fst t" using assms(1,2) by (auto simp: ts Cons)
    then show ?thesis by (simp add: ts Cons)
  qed (simp add: ts)
  moreover have "snd t \<le> snd (last ts)"
  proof (cases ys rule: rev_cases)
    case (snoc ys' y)
    have "fst y < snd y" "snd t \<le> fst y" using assms(1,2) by (auto simp: ts snoc sorted_wrt_append)
    then show ?thesis by (simp add: ts snoc)
  qed (simp add: ts)
  ultimately show ?thesis ..
qed

lemma groups_ascending:
  assumes "ascending (concat (map snd gs))" "\<forall>g \<in> set gs. snd g \<noteq> []"
  shows "ascending (map group_span gs)"
  using assms
proof (induction gs)
  case (Cons g gs)
  have "snd (group_span g) \<le> fst (group_span h)" if "h \<in> set gs" for h
  proof -
    have "last (snd g) \<in> set (snd g)" using Cons.prems(2) by simp
    moreover have "hd (snd h) \<in> set (concat (map snd gs))" using that Cons.prems(2) by force
    ultimately show ?thesis using Cons.prems(1) by (auto simp: sorted_wrt_append group_span_def)
  qed
  with Cons show ?case by (auto simp: sorted_wrt_append)
qed simp

section \<open>Properties\<close>

text \<open>
  Property C22 (authority_lookup_exhaustive): on well-formed authorities, overlapping or not, in
  any order, the binary search of the index returns exactly the authorities a scan of the whole
  list would find around a non-empty span.
\<close>

theorem authority_lookup_exhaustive:
  assumes "\<forall>a \<in> set as. pa_raw_start a < pa_raw_end a" and "mset as' = mset as" and "s < e"
  shows "set (containing (make_index as') s e) = {a \<in> set as. pa_raw_start a \<le> s \<and> e \<le> pa_raw_end a} \<and>
     length (containing (make_index as') s e) =
       length (filter (\<lambda>a. pa_raw_start a \<le> s \<and> e \<le> pa_raw_end a) as)"
proof -
  have m: "mset (containing (make_index as') s e) = mset (containing (make_index as) s e)"
    using authority.order_free [OF assms(1) assms(2) [symmetric] assms(3)] by simp
  then have "set (containing (make_index as') s e) = set (containing (make_index as) s e)"
    by (rule mset_eq_setD)
  moreover have "length (containing (make_index as') s e) =
      length (filter (\<lambda>a. pa_raw_start a \<le> s \<and> e \<le> pa_raw_end a) as)"
    using m authority.exhaustive [OF assms(1,3)] by (metis mset_eq_length)
  ultimately show ?thesis using authority.members [OF assms(1,3)] by simp
qed

definition demo_span_authority :: "nat \<Rightarrow> nat \<Rightarrow> unit_authority" where
  "demo_span_authority s e =
     \<lparr>pa_text_unit_uuid = ''t'', pa_raw_start = s, pa_raw_end = e, pa_annotation_uuid = None,
      pa_gate_decision_uuid = None, pa_gate_decision = None, pa_route_uuid = None,
      pa_route_type = None, pa_route_status = None, pa_privacy_ceiling = ''normal'',
      pa_privacy_storage_allowed = True, pa_conflicting_authority = False\<rparr>"

theorem authority_lookup_exhaustive_witness:
  "demo_span_authority 5 9 \<in>
     set (containing (make_index [demo_span_authority 9 12, demo_span_authority 0 5, demo_span_authority 5 9]) 6 8)"
  using authority_lookup_exhaustive
    [of "[demo_span_authority 9 12, demo_span_authority 0 5, demo_span_authority 5 9]"
        "[demo_span_authority 9 12, demo_span_authority 0 5, demo_span_authority 5 9]" 6 8]
  by (simp add: demo_span_authority_def)

text \<open>
  Also proved (uncovered_tokens_exact): the one-pass scan over the merged unit spans keeps exactly
  the tokens that no unit overlaps, whatever the order of the units and however they touch.
\<close>

theorem uncovered_tokens_exact:
  assumes "\<forall>u \<in> set us. su_raw_start u < su_raw_end u" and "sorted (map fst ts)"
    and "\<forall>(s, e) \<in> set ts. s < e"
  shows "tokens_outside_intervals ts (merge_intervals (map unit_span us)) =
     filter (\<lambda>(s, e). \<not> (\<exists>u \<in> set us. s < su_raw_end u \<and> su_raw_start u < e)) ts"
proof -
  have pu: "proper (map unit_span us)" using assms(1) by (auto simp: unit_span_def)
  note cov = merge_intervals_spec [OF pu]
  have "tokens_outside_intervals ts (merge_intervals (map unit_span us)) =
      filter (\<lambda>t. \<not> token_covered (merge_intervals (map unit_span us)) t) ts"
    using cov assms(2,3) by (intro tokens_outside_filter) blast+
  also have "\<dots> = filter (\<lambda>(s, e). \<not> (\<exists>u \<in> set us. s < su_raw_end u \<and> su_raw_start u < e)) ts"
  proof (rule filter_cong [OF refl])
    fix t assume "t \<in> set ts"
    then obtain s e where t: "t = (s, e)" "s < e" using assms(3) by (cases t) auto
    with cov pu have "token_covered (merge_intervals (map unit_span us)) t = token_covered (map unit_span us) t"
      by (simp add: token_covered_points)
    then show "(\<not> token_covered (merge_intervals (map unit_span us)) t) =
        (case t of (s, e) \<Rightarrow> \<not> (\<exists>u \<in> set us. s < su_raw_end u \<and> su_raw_start u < e))"
      by (auto simp: t token_covered_def unit_span_def)
  qed
  finally show ?thesis .
qed

theorem uncovered_tokens_exact_witness:
  "tokens_outside_intervals [(0, 3), (9, 10), (13, 18)]
     (merge_intervals (map unit_span [demo_semantic_unit ''u2'' 10 19, demo_semantic_unit ''u1'' 0 9])) = [(9, 10)]"
  using uncovered_tokens_exact
    [of "[demo_semantic_unit ''u2'' 10 19, demo_semantic_unit ''u1'' 0 9]" "[(0, 3), (9, 10), (13, 18)]"]
  by (simp add: demo_semantic_unit_def)

end
