(* ===== verification/CoveragePlanner.thy ===== *)
theory CoveragePlanner
  imports CoverageIndex
begin

text \<open>
  \<open>plan_candidate_coverage\<close> (\<open>semantic/coverage/planner.py\<close>): every unit of a bound semantic output
  gets exactly one coverage item, a durable one also a candidate proposal, and every token no unit
  covers is grouped into an unsupported item.  The body of the loop over the units is
  \<open>plan_unit\<close>; the completeness check and the assembly of the plan follow it.

  The envelope is a JSON object; a token or hint without two non-negative integer offsets is the
  error \<open>MalformedEnvelope\<close> at the place where the code reads it.
\<close>

datatype planner_error =
    EnvelopeUnbound | UnitIdsNotCovered | ReferenceIndexesNotCovered | RelationIndexesNotCovered
  | AcceptedNotUnits | MalformedEnvelope | AssertionFailed | ProposalInvalid | ItemInvalid
  | ItemsNotPerUnit | DuplicateUnitItems | ItemIdentityCollision | DurableInconsistent
  | NonDurableProposal

type_synonym 'a planned = "(planner_error, 'a) result"

section \<open>Reading the envelope\<close>

definition span_of_json :: "json \<Rightarrow> interval option" where
  "span_of_json j =
     (case j of
        JObj d \<Rightarrow> (case (jget d ''raw_start'', jget d ''raw_end'') of
           (JInt s, JInt e) \<Rightarrow> (if 0 \<le> s \<and> 0 \<le> e then Some (nat s, nat e) else None)
         | _ \<Rightarrow> None)
      | _ \<Rightarrow> None)"

definition envelope_spans :: "(string \<times> json) list \<Rightarrow> string \<Rightarrow> interval list planned" where
  "envelope_spans env key =
     (case map_of env key of
        None \<Rightarrow> Inr []
      | Some (JList xs) \<Rightarrow>
          (case those (map span_of_json xs) of None \<Rightarrow> Inl MalformedEnvelope | Some ts \<Rightarrow> Inr ts)
      | Some _ \<Rightarrow> Inl MalformedEnvelope)"

section \<open>References and relations of a unit\<close>

definition indexes_by_source :: "(nat \<Rightarrow> ustr) \<Rightarrow> nat list \<Rightarrow> (ustr, nat list) dict" where
  "indexes_by_source source ixs =
     foldl (\<lambda>d i. dict_set (source i)
        ((case dict_get d (source i) of None \<Rightarrow> [] | Some l \<Rightarrow> l) @ [i]) d) [] ixs"

definition indexes_of :: "(ustr, nat list) dict \<Rightarrow> ustr \<Rightarrow> nat list" where
  "indexes_of d k = (case dict_get d k of None \<Rightarrow> [] | Some l \<Rightarrow> l)"

abbreviation ref_at :: "planner_input \<Rightarrow> nat \<Rightarrow> semantic_reference" where
  "ref_at inp i \<equiv> sa_references (pi_analysis inp) ! i"

abbreviation rel_at :: "planner_input \<Rightarrow> nat \<Rightarrow> semantic_relation" where
  "rel_at inp i \<equiv> sa_relations (pi_analysis inp) ! i"

definition hint_uncovered :: "planner_input \<Rightarrow> nat list \<Rightarrow> interval \<Rightarrow> bool" where
  "hint_uncovered inp ixs h \<longleftrightarrow>
     \<not> list_ex (\<lambda>i. sr_marker_start (ref_at inp i) \<le> fst h \<and> snd h \<le> sr_marker_end (ref_at inp i)) ixs"

definition dependency_hint_without_reference ::
  "planner_input \<Rightarrow> nat \<Rightarrow> nat \<Rightarrow> nat list \<Rightarrow> bool planned" where
  "dependency_hint_without_reference inp s e ixs =
     rbind (envelope_spans (pi_text_envelope inp) ''context_dependency_hints'') (\<lambda>hints.
       Inr (list_ex (hint_uncovered inp ixs) (filter (\<lambda>h. s \<le> fst h \<and> snd h \<le> e) hints)))"

definition unit_unresolved :: "planner_input \<Rightarrow> semantic_unit \<Rightarrow> nat list \<Rightarrow> bool planned" where
  "unit_unresolved inp u ixs =
     (if list_ex (\<lambda>i. sr_status (ref_at inp i) \<noteq> ''resolved'') ixs then Inr True
      else dependency_hint_without_reference inp (su_raw_start u) (su_raw_end u) ixs)"

definition prior_prefix :: ustr where
  "prior_prefix = lit ''prior_context:''"

definition context_of :: "planner_input \<Rightarrow> ustr \<Rightarrow> context_item option" where
  "context_of inp t = index_by ci_context_item_id (pi_context_items inp) (removeprefix t prior_prefix)"

definition lineage_json :: "planner_input \<Rightarrow> semantic_reference \<Rightarrow> context_item \<Rightarrow> json" where
  "lineage_json inp r c = JObj
     [(''context_item_id'', JStr (ci_context_item_id c)), (''message_uuid'', jlit (ci_message_uuid c)),
      (''message_version_uuid'', jopt jlit (ci_message_version_uuid c)),
      (''text_unit_uuid'', jlit (ci_text_unit_uuid c)), (''role'', jlit (ci_role c)),
      (''raw_start'', jnat (ci_raw_start c)), (''raw_end'', jnat (ci_raw_end c)),
      (''raw_text_hash'', jlit (ci_raw_text_hash c)),
      (''source_authority_ceiling'', jlit (ci_source_authority_ceiling c)),
      (''reference_marker_start'', jnat (sr_marker_start r)),
      (''reference_marker_end'', jnat (sr_marker_end r)),
      (''semantic_contract_hash'', jlit (pi_contract_hash inp))]"

definition lineage_entry :: "planner_input \<Rightarrow> ustr \<Rightarrow> nat \<Rightarrow> json option" where
  "lineage_entry inp uid i =
     (let r = ref_at inp i in
      if sr_source_unit_id r \<noteq> uid then None
      else case sr_selected_referent_id r of
        None \<Rightarrow> None
      | Some t \<Rightarrow> (if \<not> starts_with t prior_prefix then None
                  else map_option (lineage_json inp r) (context_of inp t)))"

definition context_lineage :: "planner_input \<Rightarrow> ustr \<Rightarrow> nat list \<Rightarrow> json list" where
  "context_lineage inp uid ixs = List.map_filter (lineage_entry inp uid) ixs"

section \<open>Material that came from the assistant\<close>

definition acknowledgement_tokens :: "ustr list" where
  "acknowledgement_tokens = map lit [''agreed'', ''confirmed'', ''fine'', ''no'', ''ok'', ''okay'',
     ''sure'', ''understood'', ''yeah'', ''yep'', ''yes''] @
     [[1570, 1585, 1607], [1576, 1575, 1588, 1607], [1576, 1604, 1607], [1582, 1608, 1576, 1607],
      [1582, 1740, 1585], [1588, 1583, 1605], [1605, 1578, 1608, 1580, 1607], [1606, 1607]]"

definition non_meaningful_tokens :: "ustr list" where
  "non_meaningful_tokens = map lit [''a'', ''an'', ''and'', ''are'', ''as'', ''at'', ''be'', ''by'',
     ''for'', ''from'', ''in'', ''is'', ''it'', ''of'', ''on'', ''or'', ''that'', ''the'', ''this'',
     ''to'', ''was'', ''were'', ''with''] @
     [[1570, 1606], [1575, 1586], [1575, 1587, 1578], [1575, 1740, 1606], [1576, 1575],
      [1576, 1585, 1575, 1740], [1576, 1607], [1583, 1585], [1585, 1575], [1608], [1705, 1607]]"

definition acknowledgement_only :: "unidb \<Rightarrow> ustr \<Rightarrow> bool" where
  "acknowledgement_only U text =
     (let ts = map (py_casefold U) (find_runs 1 (is_alnum U) text)
      in ts \<noteq> [] \<and> list_all (\<lambda>t. t \<in> set acknowledgement_tokens) ts)"

definition meaningful_tokens :: "unidb \<Rightarrow> ustr \<Rightarrow> ustr list" where
  "meaningful_tokens U text =
     filter (\<lambda>t. t \<notin> set non_meaningful_tokens) (map (py_casefold U) (find_runs 2 (is_word U) text))"

definition assistant_context_ids :: "planner_input \<Rightarrow> ustr list" where
  "assistant_context_ids inp =
     map (\<lambda>c. prior_prefix @ ci_context_item_id c)
       (filter (\<lambda>c. ci_role c = ''assistant'') (pi_context_items inp))"

text \<open>The target of a reference when it is a resolved one to an assistant's context item.\<close>

definition assistant_target :: "planner_input \<Rightarrow> ustr \<Rightarrow> semantic_reference \<Rightarrow> ustr option" where
  "assistant_target inp uid r =
     (if sr_source_unit_id r \<noteq> uid \<or> sr_status r \<noteq> ''resolved'' then None
      else case sr_selected_referent_id r of
        None \<Rightarrow> None
      | Some t \<Rightarrow> (if \<not> starts_with t prior_prefix then None
                  else case context_of inp t of
                    None \<Rightarrow> None
                  | Some c \<Rightarrow> (if ci_role c = ''assistant'' then Some t else None)))"

text \<open>The loop over the references; \<open>None\<close> is its early \<open>return True\<close>.\<close>

fun collect_targets ::
  "planner_input \<Rightarrow> ustr \<Rightarrow> semantic_reference list \<Rightarrow> ustr list \<Rightarrow> ustr list option" where
  "collect_targets inp uid [] targets = Some targets"
| "collect_targets inp uid (r # rs) targets =
     (case assistant_target inp uid r of
        None \<Rightarrow> collect_targets inp uid rs targets
      | Some t \<Rightarrow>
          (if length (sr_candidate_referent_ids r) \<noteq> 1 \<or>
              length (remdups (assistant_context_ids inp)) \<noteq> 1 \<or> t \<notin> set (assistant_context_ids inp)
           then None else collect_targets inp uid rs (List.insert t targets)))"

definition ratifies :: "planner_input \<Rightarrow> ustr \<Rightarrow> (ustr \<Rightarrow> bool) \<Rightarrow> nat \<Rightarrow> bool" where
  "ratifies inp uid target i \<longleftrightarrow>
     sl_source_unit_id (rel_at inp i) = uid \<and>
     sl_relation_type (rel_at inp i) \<in> {''ratifies'', ''corrects''} \<and>
     target (sl_target_referent_id (rel_at inp i))"

definition assistant_reference_is_not_ratified ::
  "unidb \<Rightarrow> planner_input \<Rightarrow> semantic_unit \<Rightarrow> nat list \<Rightarrow> nat list \<Rightarrow> bool" where
  "assistant_reference_is_not_ratified U inp u ref_ixs rel_ixs =
     (case collect_targets inp (su_id u) (map (ref_at inp) ref_ixs) [] of
        None \<Rightarrow> True
      | Some targets \<Rightarrow>
          (if targets = [] then False
           else if pi_message_role inp \<noteq> ''user'' \<or> length targets \<noteq> 1 then True
           else if acknowledgement_only U (su_evidence u) then True
           else \<not> list_ex (ratifies inp (su_id u) (\<lambda>t. t \<in> set targets)) rel_ixs))"

definition shares_two :: "ustr list \<Rightarrow> ustr list \<Rightarrow> bool" where
  "shares_two xs ys \<longleftrightarrow> 2 \<le> length (remdups (filter (\<lambda>t. t \<in> set ys) xs))"

definition referenced_and_ratified ::
  "planner_input \<Rightarrow> ustr \<Rightarrow> nat list \<Rightarrow> nat list \<Rightarrow> ustr \<Rightarrow> bool" where
  "referenced_and_ratified inp uid ref_ixs rel_ixs target \<longleftrightarrow>
     list_ex (\<lambda>i. sr_source_unit_id (ref_at inp i) = uid \<and> sr_status (ref_at inp i) = ''resolved'' \<and>
                  sr_selected_referent_id (ref_at inp i) = Some target) ref_ixs \<and>
     list_ex (ratifies inp uid (\<lambda>t. t = target)) rel_ixs"

definition assistant_proposition_injection ::
  "unidb \<Rightarrow> planner_input \<Rightarrow> semantic_unit \<Rightarrow> nat list \<Rightarrow> nat list \<Rightarrow> bool" where
  "assistant_proposition_injection U inp u ref_ixs rel_ixs =
     (let evidence = meaningful_tokens U (su_evidence u);
          only = remdups (filter (\<lambda>t. t \<notin> set evidence) (meaningful_tokens U (su_proposition u)))
      in if length only < 2 then False
         else list_ex (\<lambda>c. ci_role c = ''assistant'' \<and> shares_two only (meaningful_tokens U (ci_text c)) \<and>
                \<not> referenced_and_ratified inp (su_id u) ref_ixs rel_ixs (prior_prefix @ ci_context_item_id c))
              (pi_context_items inp))"

section \<open>One unit\<close>

definition mark_conflicting :: "unit_authority \<Rightarrow> unit_authority" where
  "mark_conflicting a = a\<lparr>pa_conflicting_authority := True\<rparr>"

definition effective_authority ::
  "unidb \<Rightarrow> planner_input \<Rightarrow> semantic_unit \<Rightarrow> nat list \<Rightarrow> nat list \<Rightarrow> unit_authority list
     \<Rightarrow> unit_authority option" where
  "effective_authority U inp u ref_ixs rel_ixs found =
     (case found of
        [a] \<Rightarrow> Some (if pi_prompt_execution_uuid inp = None \<or>
                       assistant_reference_is_not_ratified U inp u ref_ixs rel_ixs \<or>
                       assistant_proposition_injection U inp u ref_ixs rel_ixs
                    then mark_conflicting a else a)
      | _ \<Rightarrow> None)"

fun str_arg :: "string option \<Rightarrow> 'e enum_arg" where
  "str_arg None = AsNone"
| "str_arg (Some s) = AsStr s"

definition semantic_mapping ::
  "unidb \<Rightarrow> planner_input \<Rightarrow> semantic_unit \<Rightarrow> route_candidate_mapping option" where
  "semantic_mapping U inp u =
     (if su_memory_kind u = None then None
      else candidate_mapping_for_semantic_unit U (su_unit_type u) (su_proposition u)
             (pi_message_uuid inp) (su_memory_kind u))"

definition unit_mapping ::
  "unidb \<Rightarrow> planner_input \<Rightarrow> semantic_unit \<Rightarrow> unit_authority option
     \<Rightarrow> route_candidate_mapping option" where
  "unit_mapping U inp u auth =
     (case semantic_mapping U inp u of
        Some m \<Rightarrow> Some m
      | None \<Rightarrow>
          (case (case auth of None \<Rightarrow> None
                 | Some a \<Rightarrow> candidate_mapping_for_route U (str_arg (pa_route_type a))
                              (su_proposition u) (Some (pi_message_uuid inp))) of
             Some m \<Rightarrow> Some m
           | None \<Rightarrow> candidate_mapping_for_semantic_unit U (su_unit_type u) (su_proposition u)
                       (pi_message_uuid inp) None))"

definition py_str_opt :: "string option \<Rightarrow> string" where
  "py_str_opt x = (case x of None \<Rightarrow> ''None'' | Some s \<Rightarrow> s)"

definition or_str :: "string option \<Rightarrow> string \<Rightarrow> string" where
  "or_str x d = (case x of None \<Rightarrow> d | Some s \<Rightarrow> (if s = [] then d else s))"

definition coverage_item_of ::
  "digests \<Rightarrow> planner_input \<Rightarrow> string \<Rightarrow> ustr option \<Rightarrow> string option \<Rightarrow> nat \<Rightarrow> nat \<Rightarrow> disposition
     \<Rightarrow> string list \<Rightarrow> unit_authority option \<Rightarrow> string option \<Rightarrow> coverage_item planned" where
  "coverage_item_of D inp raw_hash uid fingerprint s e disp reasons auth pid =
     rbind (raise_if (e = 0) ItemInvalid) (\<lambda>_. Inr
       \<lparr>it_id = coverage_item_identity D
          [(''planner_version'', jlit COVERAGE_PLANNER_VERSION), (''message_uuid'', jlit (pi_message_uuid inp)),
           (''raw_text_hash'', jlit raw_hash), (''semantic_contract_hash'', jlit (pi_contract_hash inp)),
           (''semantic_unit_fingerprint'', jopt jlit fingerprint), (''raw_start'', jnat s), (''raw_end'', jnat e),
           (''disposition'', jlit (disposition_value disp)), (''reason_codes'', JList (map jlit reasons)),
           (''proposal_id'', jopt jlit pid)],
        it_semantic_unit_id = uid, it_raw_start = s, it_raw_end = e, it_disposition = disp,
        it_reason_codes = reasons,
        it_gate_decision_uuid = (case auth of None \<Rightarrow> None | Some a \<Rightarrow> pa_gate_decision_uuid a),
        it_route_uuid = (case auth of None \<Rightarrow> None | Some a \<Rightarrow> pa_route_uuid a),
        it_proposal_id = pid\<rparr>)"

definition make_proposal ::
  "digests \<Rightarrow> unidb \<Rightarrow> planner_input \<Rightarrow> string \<Rightarrow> semantic_unit \<Rightarrow> nat list \<Rightarrow> unit_authority
     \<Rightarrow> route_candidate_mapping \<Rightarrow> provenance_decision \<Rightarrow> string \<Rightarrow> string list \<Rightarrow> candidate_proposal" where
  "make_proposal D U inp raw_hash u ref_ixs a m prov fingerprint reasons =
     (let semantic = (semantic_mapping U inp u \<noteq> None);
          pid = fst (proposal_identity D (proposal_material COVERAGE_PLANNER_VERSION (pi_message_uuid inp)
            raw_hash (pi_contract_hash inp) fingerprint (su_raw_start u) (su_raw_end u)
            (if semantic then route_type_value (rcm_route_type m) else py_str_opt (pa_route_type a))
            (if semantic then candidate_status_value (rcm_status m) else py_str_opt (pa_route_status a))
            (or_str (pa_gate_decision a) ''semantic_model_led'')
            (source_authority_value (pd_source_authority prov)) (disposition_value DURABLE_CANDIDATE)))
      in \<lparr>pp_proposal_id = pid, pp_semantic_unit_id = su_id u, pp_message_uuid = pi_message_uuid inp,
          pp_text_unit_uuid = pa_text_unit_uuid a, pp_raw_start = su_raw_start u, pp_raw_end = su_raw_end u,
          pp_evidence = su_evidence u, pp_candidate_type = candidate_type_value (rcm_candidate_type m),
          pp_subject_key = rcm_subject_key m, pp_predicate = rcm_predicate m,
          pp_object_payload = [(''value'', JStr (rcm_object_value m))],
          pp_normalized_text = rcm_normalized_text m, pp_polarity = su_polarity u,
          pp_epistemic_status = su_epistemic_status u, pp_durability = su_durability u,
          pp_source_authority = source_authority_value (pd_source_authority prov),
          pp_explicitness = explicitness_value (pd_explicitness prov),
          pp_privacy_ceiling = pa_privacy_ceiling a, pp_status = candidate_status_value (pd_status prov),
          pp_gate_decision_uuid = pa_gate_decision_uuid a, pp_route_uuid = pa_route_uuid a,
          pp_annotation_uuid = pa_annotation_uuid a,
          pp_prompt_execution_uuid = py_str_opt (pi_prompt_execution_uuid inp),
          pp_context_lineage = context_lineage inp (su_id u) ref_ixs,
          pp_reason_codes = fromkeys (reasons @ pd_reason_codes prov),
          pp_automatic_creation_allowed = True, pp_unit_fingerprint = fingerprint\<rparr>)"

definition provenance_refuses :: "provenance_decision \<Rightarrow> route_candidate_mapping \<Rightarrow> bool" where
  "provenance_refuses prov m \<longleftrightarrow>
     \<not> pd_allows_candidate prov \<or> \<not> pd_allows_memory prov \<or> rcm_status m \<noteq> CS_READY_FOR_CONSOLIDATION"

definition plan_unit ::
  "digests \<Rightarrow> unidb \<Rightarrow> planner_input \<Rightarrow> string \<Rightarrow> authority_index \<Rightarrow> (ustr, nat list) dict
     \<Rightarrow> (ustr, nat list) dict \<Rightarrow> semantic_unit \<Rightarrow> (coverage_item \<times> candidate_proposal option) planned" where
  "plan_unit D U inp raw_hash ix ref_dict rel_dict u =
     (let refs = indexes_of ref_dict (su_id u); rels = indexes_of rel_dict (su_id u);
          found = containing ix (su_raw_start u) (su_raw_end u);
          auth = effective_authority U inp u refs rels found;
          mapping = unit_mapping U inp u auth
      in rbind (unit_unresolved inp u refs) (\<lambda>unresolved.
        let (disp, reasons) = disposition_for_unit u auth (length found) unresolved (mapping \<noteq> None);
            fingerprint = semantic_unit_fingerprint D u (pi_analysis inp) refs rels (pi_context_items inp);
            item = (\<lambda>disp reasons pid. coverage_item_of D inp raw_hash (Some (su_id u)) (Some fingerprint)
                      (su_raw_start u) (su_raw_end u) disp (fromkeys reasons) auth pid)
        in if disp \<noteq> DURABLE_CANDIDATE then rbind (item disp reasons None) (\<lambda>i. Inr (i, None))
           else case (auth, mapping) of
             (Some a, Some m) \<Rightarrow>
               (let prov = decide_candidate_provenance (pi_message_role inp) (rcm_route_type m)
                             (rcm_status m) (pi_imported_record inp)
                in if provenance_refuses prov m then
                     (let (disp', rs) = disposition_for_unit u (Some (mark_conflicting a)) 1 False True
                      in rbind (item disp' (rs @ pd_reason_codes prov) None) (\<lambda>i. Inr (i, None)))
                   else
                     (let p = make_proposal D U inp raw_hash u refs a m prov fingerprint reasons
                      in rbind (raise_if (\<not> proposal_fields_ok p) ProposalInvalid) (\<lambda>_.
                         rbind (item disp reasons (Some (pp_proposal_id p))) (\<lambda>i. Inr (i, Some p)))))
           | _ \<Rightarrow> Inl AssertionFailed))"

section \<open>Uncovered material, completeness, the plan\<close>

definition uncovered_item ::
  "digests \<Rightarrow> planner_input \<Rightarrow> string \<Rightarrow> authority_index \<Rightarrow> token_group \<Rightarrow> coverage_item planned" where
  "uncovered_item D inp raw_hash ix g =
     (let (s, e) = group_span g;
          auth = (case containing ix s e of [a] \<Rightarrow> Some a | _ \<Rightarrow> None)
      in coverage_item_of D inp raw_hash None None s e UNSUPPORTED [''uncovered_material''] auth None)"

definition uncovered_items ::
  "digests \<Rightarrow> unidb \<Rightarrow> planner_input \<Rightarrow> string \<Rightarrow> authority_index \<Rightarrow> semantic_unit list
     \<Rightarrow> coverage_item list planned" where
  "uncovered_items D U inp raw_hash ix us =
     (let covered = merge_intervals (map unit_span us) in
      rbind (envelope_spans (pi_text_envelope inp) ''tokens'') (\<lambda>tokens.
        rmap (uncovered_item D inp raw_hash ix)
          (token_groups U (pi_raw_text inp) ix (tokens_outside_intervals tokens covered))))"

definition item_key :: "coverage_item \<Rightarrow> nat \<times> nat \<times> ustr" where
  "item_key i = (it_raw_start i, it_raw_end i,
     case it_semantic_unit_id i of None \<Rightarrow> [] | Some u \<Rightarrow> u)"

definition assert_complete ::
  "planner_input \<Rightarrow> coverage_item list \<Rightarrow> candidate_proposal list \<Rightarrow> unit planned" where
  "assert_complete inp items proposals =
     (let unit_items = filter (\<lambda>i. it_semantic_unit_id i \<noteq> None) items;
          durable_ids = map it_proposal_id (filter (\<lambda>i. it_disposition i = DURABLE_CANDIDATE) items)
      in
      rbind (raise_if (length unit_items \<noteq> length (pi_accepted_unit_ids inp)) ItemsNotPerUnit) (\<lambda>_.
      rbind (raise_if (\<not> distinct (map it_semantic_unit_id unit_items)) DuplicateUnitItems) (\<lambda>_.
      rbind (raise_if (\<not> distinct (map it_id items)) ItemIdentityCollision) (\<lambda>_.
      rbind (raise_if (None \<in> set durable_ids \<or>
               set durable_ids \<noteq> set (map (Some \<circ> pp_proposal_id) proposals)) DurableInconsistent) (\<lambda>_.
        raise_if (list_ex (\<lambda>i. it_proposal_id i \<noteq> None \<and> it_disposition i \<noteq> DURABLE_CANDIDATE) items)
          NonDurableProposal)))))"

definition plan_status :: "planner_input \<Rightarrow> coverage_item list \<Rightarrow> string" where
  "plan_status inp items =
     (if sa_status (pi_analysis inp) = ''abstain'' then ''abstain''
      else (let ds = map it_disposition items in
        if NEEDS_REVIEW_ITEM \<in> set ds then ''needs_review''
        else if ds \<noteq> [] \<and> set ds \<subseteq> {REJECTED_BY_GATE} then ''retain_raw_only''
        else ''complete''))"

definition item_json :: "coverage_item \<Rightarrow> json" where
  "item_json i = JObj
     [(''coverage_item_id'', jlit (it_id i)), (''semantic_unit_id'', jopt JStr (it_semantic_unit_id i)),
      (''raw_start'', jnat (it_raw_start i)), (''raw_end'', jnat (it_raw_end i)),
      (''disposition'', jlit (disposition_value (it_disposition i))),
      (''reason_codes'', JList (map jlit (it_reason_codes i))),
      (''gate_decision_uuid'', jopt jlit (it_gate_decision_uuid i)),
      (''route_uuid'', jopt jlit (it_route_uuid i)), (''proposal_id'', jopt jlit (it_proposal_id i))]"

definition plan_warnings :: "planner_input \<Rightarrow> string list" where
  "plan_warnings inp =
     (if sa_status (pi_analysis inp) = ''abstain'' then [''semantic_model_abstained''] else [])"

definition make_plan :: "digests \<Rightarrow> planner_input \<Rightarrow> string \<Rightarrow> coverage_item list \<Rightarrow> coverage_plan" where
  "make_plan D inp raw_hash items =
     (let status = plan_status inp items in
      \<lparr>cp_version = COVERAGE_PLAN_VERSION, cp_message_uuid = pi_message_uuid inp,
       cp_raw_text_hash = raw_hash, cp_processing_run_uuid = pi_processing_run_uuid inp,
       cp_prompt_execution_uuid = pi_prompt_execution_uuid inp, cp_contract_hash = pi_contract_hash inp,
       cp_status = status, cp_items = items, cp_warnings = plan_warnings inp,
       cp_coverage_hash = coverage_plan_hash D
         [(''coverage_plan_version'', jlit COVERAGE_PLAN_VERSION),
          (''message_uuid'', jlit (pi_message_uuid inp)), (''raw_text_hash'', jlit raw_hash),
          (''processing_run_uuid'', jlit (pi_processing_run_uuid inp)),
          (''semantic_prompt_execution_uuid'', jopt jlit (pi_prompt_execution_uuid inp)),
          (''semantic_contract_hash'', jlit (pi_contract_hash inp)), (''status'', jlit status),
          (''items'', JList (map item_json items)), (''warnings'', JList (map jlit (plan_warnings inp)))]\<rparr>)"

definition check_planner_input :: "digests \<Rightarrow> planner_input \<Rightarrow> unit planned" where
  "check_planner_input D inp =
     (let a = pi_analysis inp in
      rbind (raise_if (jget (pi_text_envelope inp) ''raw_text_hash'' \<noteq> jlit (d_text D (pi_raw_text inp)))
         EnvelopeUnbound) (\<lambda>_.
      rbind (raise_if (pi_accepted_unit_ids inp \<noteq> map su_id (sa_semantic_units a)) UnitIdsNotCovered) (\<lambda>_.
      rbind (raise_if (pi_accepted_reference_indexes inp \<noteq> [0..<length (sa_references a)])
         ReferenceIndexesNotCovered) (\<lambda>_.
      rbind (raise_if (pi_accepted_relation_indexes inp \<noteq> [0..<length (sa_relations a)])
         RelationIndexesNotCovered) (\<lambda>_.
        raise_if (length (filter (\<lambda>u. su_id u \<in> set (pi_accepted_unit_ids inp)) (sa_semantic_units a))
                    \<noteq> card (set (pi_accepted_unit_ids inp))) AcceptedNotUnits)))))"

definition plan_candidate_coverage ::
  "digests \<Rightarrow> unidb \<Rightarrow> planner_input \<Rightarrow> (coverage_plan \<times> candidate_proposal list) planned" where
  "plan_candidate_coverage D U inp =
     rbind (check_planner_input D inp) (\<lambda>_.
       let raw_hash = d_text D (pi_raw_text inp); a = pi_analysis inp;
           us = filter (\<lambda>u. su_id u \<in> set (pi_accepted_unit_ids inp)) (sa_semantic_units a);
           refs = indexes_by_source (\<lambda>i. sr_source_unit_id (ref_at inp i)) (pi_accepted_reference_indexes inp);
           rels = indexes_by_source (\<lambda>i. sl_source_unit_id (rel_at inp i)) (pi_accepted_relation_indexes inp);
           ix = make_index (pi_authorities inp)
       in rbind (rmap (plan_unit D U inp raw_hash ix refs rels) us) (\<lambda>planned.
          rbind (uncovered_items D U inp raw_hash ix us) (\<lambda>extra.
            let items = sort_key item_key (map fst planned @ extra);
                proposals = List.map_filter snd planned
            in rbind (assert_complete inp items proposals) (\<lambda>_.
                 Inr (make_plan D inp raw_hash items, proposals)))))"

section \<open>A planned message\<close>

text \<open>A digest for the instance: the integers of the value, in order, as characters.\<close>

fun demo_json_digest :: "json \<Rightarrow> string" where
  "demo_json_digest (JInt i) = [char_of (nat i)]"
| "demo_json_digest (JList xs) = concat (map demo_json_digest xs)"
| "demo_json_digest (JObj d) = concat (map (\<lambda>(k, v). demo_json_digest v) d)"
| "demo_json_digest _ = []"

definition demo_digests :: digests where
  "demo_digests = \<lparr>d_text = demo_hash, d_json = demo_json_digest, d_uuid5 = (\<lambda>ns name. name)\<rparr>"

definition demo_authority :: "string \<Rightarrow> nat \<Rightarrow> nat \<Rightarrow> unit_authority" where
  "demo_authority i s e =
     \<lparr>pa_text_unit_uuid = i, pa_raw_start = s, pa_raw_end = e, pa_annotation_uuid = None,
      pa_gate_decision_uuid = Some ''g1'', pa_gate_decision = Some ''analyze'', pa_route_uuid = None,
      pa_route_type = None, pa_route_status = None, pa_privacy_ceiling = ''normal'',
      pa_privacy_storage_allowed = True, pa_conflicting_authority = False\<rparr>"

definition demo_planner_input :: planner_input where
  "demo_planner_input =
     \<lparr>pi_message_uuid = ''m1'', pi_message_version_uuid = None, pi_message_role = ''user'',
      pi_processing_run_uuid = ''run1'', pi_raw_text = demo_text,
      pi_text_envelope = si_text_envelope demo_input, pi_analysis = demo_analysis,
      pi_accepted_unit_ids = [lit ''u1'', lit ''u2''], pi_accepted_reference_indexes = [0],
      pi_accepted_relation_indexes = [],
      pi_authorities = [demo_authority ''t2'' 10 19, demo_authority ''t1'' 0 9],
      pi_prompt_execution_uuid = Some ''pe1'', pi_contract_hash = ''c'',
      pi_context_items = [demo_context], pi_imported_record = False,
      pi_route_mapping_version = ''v1'', pi_provenance_policy_version = ''v1'',
      pi_privacy_policy_version = ''v1''\<rparr>"

lemma demo_planned:
  "map_sum id (\<lambda>(plan, ps). (cp_status plan,
       map (\<lambda>i. (it_raw_start i, it_raw_end i, it_disposition i)) (cp_items plan),
       map pp_semantic_unit_id ps)) (plan_candidate_coverage demo_digests demo_unidb demo_planner_input) =
     Inr (''complete'', [(0, 9, DURABLE_CANDIDATE), (10, 19, DURABLE_CANDIDATE)], [lit ''u1'', lit ''u2''])"
  by code_simp


lemma demo_tokens [simp]:
  "envelope_spans (si_text_envelope demo_input) ''tokens'' = Inr [(0, 3), (4, 8), (10, 12), (13, 18)]"
  "envelope_spans (si_text_envelope demo_input) ''context_dependency_hints'' = Inr [(10, 12)]"
  by (simp_all add: demo_input_def envelope_spans_def span_of_json_def demo_span_def)

lemma demo_plan_cases:
  obtains plan ps where "plan_candidate_coverage demo_digests demo_unidb demo_planner_input = Inr (plan, ps)"
    "map pp_semantic_unit_id ps = [lit ''u1'', lit ''u2'']"
    "map (\<lambda>i. (it_raw_start i, it_raw_end i, it_disposition i)) (cp_items plan) =
       [(0, 9, DURABLE_CANDIDATE), (10, 19, DURABLE_CANDIDATE)]"
  using demo_planned
  by (cases "plan_candidate_coverage demo_digests demo_unidb demo_planner_input") auto

end
