(* ===== verification/CoverageProperties.thy ===== *)
theory CoverageProperties
  imports CoveragePlanner
begin

text \<open>
  What the coverage planner guarantees: one item per unit and a proposal exactly for the durable
  ones, no token without an item, durable memory only on trusted and unambiguous ground, and
  totality on every bound input.
\<close>

section \<open>Grouping of references and relations by their source\<close>

lemma indexes_by_source_get:
  "indexes_of (indexes_by_source source ixs) k = filter (\<lambda>i. source i = k) ixs"
proof -
  let ?step = "\<lambda>d i. dict_set (source i) ((case dict_get d (source i) of None \<Rightarrow> [] | Some l \<Rightarrow> l) @ [i]) d"
  have "indexes_of (foldl ?step d ixs) k = indexes_of d k @ filter (\<lambda>i. source i = k) ixs" for d
    by (induction ixs arbitrary: d) (auto simp: indexes_of_def)
  from this [of "[]"] show ?thesis by (simp add: indexes_by_source_def indexes_of_def)
qed

section \<open>One unit\<close>

text \<open>The ground on which a unit becomes durable.\<close>

text \<open>Which origin of a message may create memory on which route, and what the memory says of its
  origin; stated from the roles, not from the decision table of the policy.\<close>

definition trusted_origin :: "string \<Rightarrow> bool \<Rightarrow> route_type \<Rightarrow> bool" where
  "trusted_origin role imported rt \<longleftrightarrow> rt \<notin> review_routes \<and>
     (imported \<or> role \<notin> {''assistant'', ''tool'', ''system''} \<or>
      role = ''assistant'' \<and> rt \<in> assistant_artifact_routes \<or> role = ''tool'' \<and> rt \<in> factual_tool_routes \<or>
      role = ''system'' \<and> rt \<in> system_directive_routes)"

definition origin_authority :: "string \<Rightarrow> bool \<Rightarrow> string" where
  "origin_authority role imported =
     (if imported then ''imported_record'' else if role = ''assistant'' then ''assistant_claim''
      else if role = ''tool'' then ''tool_observation'' else if role = ''system'' then ''system_instruction''
      else ''user_explicit'')"

lemma allowed_origin:
  assumes "pd_allows_memory (decide_candidate_provenance role rt st imported)"
  shows "trusted_origin role imported rt \<and>
    source_authority_value (pd_source_authority (decide_candidate_provenance role rt st imported)) = origin_authority role imported"
  using assms
  by (auto simp: decide_candidate_provenance_def provenance_by_origin_def trusted_origin_def origin_authority_def Let_def
      split: if_splits)

definition durable_ground ::
  "unidb \<Rightarrow> planner_input \<Rightarrow> authority_index \<Rightarrow> nat list \<Rightarrow> nat list \<Rightarrow> semantic_unit
     \<Rightarrow> candidate_proposal \<Rightarrow> bool" where
  "durable_ground U inp ix refs rels u p \<longleftrightarrow>
     (\<exists>a m. containing ix (su_raw_start u) (su_raw_end u) = [a] \<and>
        \<not> pa_conflicting_authority a \<and> pa_privacy_storage_allowed a \<and>
        pa_privacy_ceiling a \<notin> {''sensitive'', ''secret''} \<and>
        pp_text_unit_uuid p = pa_text_unit_uuid a \<and> pp_privacy_ceiling p = pa_privacy_ceiling a \<and>
        unit_mapping U inp u (Some a) = Some m \<and> rcm_status m = CS_READY_FOR_CONSOLIDATION \<and>
        pp_candidate_type p = candidate_type_value (rcm_candidate_type m) \<and>
        pp_subject_key p = rcm_subject_key m \<and> pp_predicate p = rcm_predicate m \<and>
        pp_normalized_text p = rcm_normalized_text m \<and>
        trusted_origin (pi_message_role inp) (pi_imported_record inp) (rcm_route_type m)) \<and>
     pp_source_authority p = origin_authority (pi_message_role inp) (pi_imported_record inp) \<and>
     pi_prompt_execution_uuid inp \<noteq> None \<and>
     \<not> assistant_reference_is_not_ratified U inp u refs rels \<and>
     \<not> assistant_proposition_injection U inp u refs rels \<and>
     unit_unresolved inp u refs = Inr False \<and>
     su_durability u = ''durable'' \<and> su_unit_type u \<noteq> ''question'' \<and>
     su_epistemic_status u \<notin> {''hypothetical'', ''questioned'', ''unknown''} \<and>
     pp_semantic_unit_id p = su_id u \<and> pp_evidence p = su_evidence u \<and>
     pp_raw_start p = su_raw_start u \<and> pp_raw_end p = su_raw_end u"

definition item_material ::
  "planner_input \<Rightarrow> string \<Rightarrow> string option \<Rightarrow> nat \<Rightarrow> nat \<Rightarrow> disposition \<Rightarrow> string list \<Rightarrow> string option
     \<Rightarrow> (string \<times> json) list" where
  "item_material inp raw_hash fingerprint s e disp reasons pid =
     [(''planner_version'', jlit COVERAGE_PLANNER_VERSION), (''message_uuid'', jlit (pi_message_uuid inp)),
      (''raw_text_hash'', jlit raw_hash), (''semantic_contract_hash'', jlit (pi_contract_hash inp)),
      (''semantic_unit_fingerprint'', jopt jlit fingerprint), (''raw_start'', jnat s), (''raw_end'', jnat e),
      (''disposition'', jlit (disposition_value disp)), (''reason_codes'', JList (map jlit reasons)),
      (''proposal_id'', jopt jlit pid)]"

text \<open>An item whose identity comes from material with its own start offset.\<close>

definition item_identified :: "digests \<Rightarrow> coverage_item \<Rightarrow> bool" where
  "item_identified D i \<longleftrightarrow>
     (\<exists>(inp :: planner_input) raw_hash fp e disp reasons pid.
        it_id i = coverage_item_identity D (item_material inp raw_hash fp (it_raw_start i) e disp reasons pid))"

lemma coverage_item_of_Inr:
  "coverage_item_of D inp rh uid fp s e disp reasons auth pid = Inr i \<longleftrightarrow>
     0 < e \<and> i = \<lparr>it_id = coverage_item_identity D (item_material inp rh fp s e disp reasons pid),
        it_semantic_unit_id = uid, it_raw_start = s, it_raw_end = e, it_disposition = disp,
        it_reason_codes = reasons,
        it_gate_decision_uuid = (case auth of None \<Rightarrow> None | Some a \<Rightarrow> pa_gate_decision_uuid a),
        it_route_uuid = (case auth of None \<Rightarrow> None | Some a \<Rightarrow> pa_route_uuid a),
        it_proposal_id = pid\<rparr>"
  by (auto simp: coverage_item_of_def item_material_def)

lemma coverage_item_of_InrD:
  assumes "coverage_item_of D inp rh uid fp s e disp reasons auth pid = Inr i"
  shows "it_semantic_unit_id i = uid \<and> it_raw_start i = s \<and> it_raw_end i = e \<and> 0 < e \<and>
     it_disposition i = disp \<and> it_proposal_id i = pid \<and> item_identified D i"
proof -
  from assms have "it_id i = coverage_item_identity D (item_material inp rh fp (it_raw_start i) e disp reasons pid)"
    by (auto simp: coverage_item_of_Inr)
  then have "item_identified D i" unfolding item_identified_def by blast
  with assms show ?thesis by (auto simp: coverage_item_of_Inr)
qed

lemma make_proposal_fields [simp]:
  "pp_semantic_unit_id (make_proposal D U inp rh u refs a m prov fp reasons) = su_id u"
  "pp_text_unit_uuid (make_proposal D U inp rh u refs a m prov fp reasons) = pa_text_unit_uuid a"
  "pp_evidence (make_proposal D U inp rh u refs a m prov fp reasons) = su_evidence u"
  "pp_raw_start (make_proposal D U inp rh u refs a m prov fp reasons) = su_raw_start u"
  "pp_raw_end (make_proposal D U inp rh u refs a m prov fp reasons) = su_raw_end u"
  "pp_source_authority (make_proposal D U inp rh u refs a m prov fp reasons) =
     source_authority_value (pd_source_authority prov)"
  "pp_message_uuid (make_proposal D U inp rh u refs a m prov fp reasons) = pi_message_uuid inp"
  "pp_gate_decision_uuid (make_proposal D U inp rh u refs a m prov fp reasons) = pa_gate_decision_uuid a"
  "pp_route_uuid (make_proposal D U inp rh u refs a m prov fp reasons) = pa_route_uuid a"
  "pp_annotation_uuid (make_proposal D U inp rh u refs a m prov fp reasons) = pa_annotation_uuid a"
  "pp_prompt_execution_uuid (make_proposal D U inp rh u refs a m prov fp reasons) =
     py_str_opt (pi_prompt_execution_uuid inp)"
  "pp_privacy_ceiling (make_proposal D U inp rh u refs a m prov fp reasons) = pa_privacy_ceiling a"
  "pp_candidate_type (make_proposal D U inp rh u refs a m prov fp reasons) = candidate_type_value (rcm_candidate_type m)"
  "pp_subject_key (make_proposal D U inp rh u refs a m prov fp reasons) = rcm_subject_key m"
  "pp_predicate (make_proposal D U inp rh u refs a m prov fp reasons) = rcm_predicate m"
  "pp_normalized_text (make_proposal D U inp rh u refs a m prov fp reasons) = rcm_normalized_text m"
  by (simp_all add: make_proposal_def Let_def)

lemma effective_authority_clear:
  assumes "effective_authority U inp u refs rels found = Some a" and "\<not> pa_conflicting_authority a"
  shows "found = [a]" "pi_prompt_execution_uuid inp \<noteq> None"
    "\<not> assistant_reference_is_not_ratified U inp u refs rels"
    "\<not> assistant_proposition_injection U inp u refs rels"
  using assms by (auto simp: effective_authority_def mark_conflicting_def split: list.splits if_splits)

text \<open>The three ways through the body of the loop.\<close>

lemma plan_unit_cases:
  assumes "plan_unit D U inp rh ix rd ld u = Inr (i, po)"
  defines "refs \<equiv> indexes_of rd (su_id u)" and "rels \<equiv> indexes_of ld (su_id u)"
  shows "it_semantic_unit_id i = Some (su_id u) \<and> it_raw_start i = su_raw_start u \<and>
     it_raw_end i = su_raw_end u \<and> item_identified D i \<and> it_disposition i \<noteq> REJECTED_BY_GATE \<and>
     (case po of
        None \<Rightarrow> it_disposition i \<noteq> DURABLE_CANDIDATE \<and> it_proposal_id i = None
      | Some p \<Rightarrow> it_disposition i = DURABLE_CANDIDATE \<and> it_proposal_id i = Some (pp_proposal_id p) \<and>
          durable_ground U inp ix refs rels u p)"
proof -
  define found where "found = containing ix (su_raw_start u) (su_raw_end u)"
  define auth where "auth = effective_authority U inp u refs rels found"
  define mapping where "mapping = unit_mapping U inp u auth"
  from assms(1) obtain unresolved where un: "unit_unresolved inp u refs = Inr unresolved"
    by (auto simp: plan_unit_def Let_def refs_def)
  obtain disp reasons where d:
    "disposition_for_unit u auth (length found) unresolved (mapping \<noteq> None) = (disp, reasons)"
    by (cases "disposition_for_unit u auth (length found) unresolved (mapping \<noteq> None)")
  note run = assms(1) [unfolded plan_unit_def Let_def, folded refs_def rels_def, folded found_def,
      folded auth_def, folded mapping_def, unfolded un rbind_simps d prod.case]
  show ?thesis
  proof (cases "disp = DURABLE_CANDIDATE")
    case False
    moreover have "disp \<noteq> REJECTED_BY_GATE" using d disposition_not_gate by (metis fst_conv)
    ultimately show ?thesis using run
      by (auto dest!: coverage_item_of_InrD)
  next
    case True
    note dur = disposition_durable [OF d [unfolded True]]
    then obtain a m where am: "auth = Some a" "mapping = Some m" by auto
    define prov where "prov = decide_candidate_provenance (pi_message_role inp) (rcm_route_type m)
        (rcm_status m) (pi_imported_record inp)"
    show ?thesis
    proof (cases "provenance_refuses prov m")
      case refused: True
      obtain disp' rs where d': "disposition_for_unit u (Some (mark_conflicting a)) 1 False True = (disp', rs)"
        by (cases "disposition_for_unit u (Some (mark_conflicting a)) 1 False True")
      then have "disp' = NEEDS_REVIEW_ITEM"
        using disposition_conflicting [of "mark_conflicting a" u 1 False True]
        by (simp add: mark_conflicting_def)
      then show ?thesis using run True am refused d'
        by (auto simp: prov_def [symmetric] dest!: coverage_item_of_InrD)
    next
      case False
      from dur am have clear: "\<not> pa_conflicting_authority a" by auto
      note eff = effective_authority_clear [OF am(1) [unfolded auth_def] clear]
      have refused: "pd_allows_memory prov" "rcm_status m = CS_READY_FOR_CONSOLIDATION"
        using False by (simp_all add: provenance_refuses_def)
      have origin: "trusted_origin (pi_message_role inp) (pi_imported_record inp) (rcm_route_type m)"
        "source_authority_value (pd_source_authority prov) = origin_authority (pi_message_role inp) (pi_imported_record inp)"
        using allowed_origin [OF refused(1) [unfolded prov_def]] by (simp_all add: prov_def)
      have mapped: "unit_mapping U inp u (Some a) = Some m" using am by (simp add: mapping_def)
      let ?fp = "semantic_unit_fingerprint D u (pi_analysis inp) refs rels (pi_context_items inp)"
      let ?p = "make_proposal D U inp rh u refs a m prov ?fp reasons"
      from run True am False have po: "po = Some ?p" and item: "coverage_item_of D inp rh (Some (su_id u)) (Some ?fp)
          (su_raw_start u) (su_raw_end u) DURABLE_CANDIDATE (fromkeys reasons) (Some a) (Some (pp_proposal_id ?p)) = Inr i"
        by (auto simp: prov_def [symmetric])
      have only: "containing ix (su_raw_start u) (su_raw_end u) = [a]" using eff(1) by (simp add: found_def)
      have "durable_ground U inp ix refs rels u ?p"
        unfolding durable_ground_def using dur am eff un origin refused(2) mapped only
        by (intro conjI exI [of _ a] exI [of _ m]) auto
      then show ?thesis using coverage_item_of_InrD [OF item] po by simp
    qed
  qed
qed


section \<open>The whole plan\<close>

lemma map_filter_snd: "List.map_filter snd xs = map (the \<circ> snd) (filter (\<lambda>x. snd x \<noteq> None) xs)"
  by (induction xs) (auto simp: List.map_filter_def)

lemma in_map_filter_snd: "p \<in> set (List.map_filter snd xs) \<longleftrightarrow> (\<exists>x. (x, Some p) \<in> set xs)"
  by (force simp: List.map_filter_def)

lemma uncovered_items_Inr:
  assumes "uncovered_items D U inp rh ix us = Inr extra"
  obtains tokens where "envelope_spans (pi_text_envelope inp) ''tokens'' = Inr tokens"
    "list_all2 (\<lambda>g i. it_raw_start i = fst (group_span g) \<and> it_raw_end i = snd (group_span g) \<and>
        it_semantic_unit_id i = None \<and> it_disposition i = UNSUPPORTED \<and> it_proposal_id i = None \<and>
        item_identified D i)
      (token_groups U (pi_raw_text inp) ix (tokens_outside_intervals tokens (merge_intervals (map unit_span us))))
      extra"
proof -
  from assms obtain tokens where t: "envelope_spans (pi_text_envelope inp) ''tokens'' = Inr tokens"
    and r: "list_all2 (\<lambda>g i. uncovered_item D inp rh ix g = Inr i)
      (token_groups U (pi_raw_text inp) ix (tokens_outside_intervals tokens (merge_intervals (map unit_span us))))
      extra"
    by (auto simp: uncovered_items_def Let_def rmap_eq_Inr)
  show thesis
    by (rule that [OF t list_all2_mono [OF r]])
      (auto simp: uncovered_item_def Let_def split: prod.splits dest!: coverage_item_of_InrD)
qed

text \<open>A unit and what the loop made of it.\<close>

definition unit_outcome :: "semantic_unit \<Rightarrow> coverage_item \<times> candidate_proposal option \<Rightarrow> bool" where
  "unit_outcome u x \<longleftrightarrow>
     it_semantic_unit_id (fst x) = Some (su_id u) \<and> it_raw_start (fst x) = su_raw_start u \<and>
     it_raw_end (fst x) = su_raw_end u \<and>
     (it_disposition (fst x) = DURABLE_CANDIDATE \<longleftrightarrow> snd x \<noteq> None) \<and>
     (snd x = None \<longrightarrow> it_proposal_id (fst x) = None) \<and>
     (\<forall>p. snd x = Some p \<longrightarrow> pp_semantic_unit_id p = su_id u \<and>
        it_proposal_id (fst x) = Some (pp_proposal_id p))"

lemma outcome_spans:
  "list_all2 unit_outcome us planned \<Longrightarrow>
     map (\<lambda>i. (the (it_semantic_unit_id i), it_raw_start i, it_raw_end i)) (map fst planned) =
     map (\<lambda>u. (su_id u, su_raw_start u, su_raw_end u)) us"
  by (induction us planned rule: list_all2_induct) (auto simp: unit_outcome_def)

lemma outcome_proposals:
  "list_all2 unit_outcome us planned \<Longrightarrow>
     set (map pp_semantic_unit_id (List.map_filter snd planned)) \<subseteq> su_id ` set us \<and>
     (distinct (map su_id us) \<longrightarrow> distinct (map pp_semantic_unit_id (List.map_filter snd planned)))"
  by (induction us planned rule: list_all2_induct)
    (auto simp: unit_outcome_def List.map_filter_def split: option.splits)

lemma outcome_durable:
  assumes "list_all2 unit_outcome us planned" and "distinct (map su_id us)" and "x \<in> set planned"
  shows "it_disposition (fst x) = DURABLE_CANDIDATE \<longleftrightarrow>
     (\<exists>p \<in> set (List.map_filter snd planned). it_semantic_unit_id (fst x) = Some (pp_semantic_unit_id p) \<and>
        it_proposal_id (fst x) = Some (pp_proposal_id p))"
proof -
  from assms(3) obtain k where k: "k < length planned" "planned ! k = x" by (auto simp: in_set_conv_nth)
  from assms(1) have len: "length us = length planned" by (rule list_all2_lengthD)
  have out: "unit_outcome (us ! j) (planned ! j)" if "j < length planned" for j
    using assms(1) that len by (auto simp: list_all2_conv_all_nth)
  have same: "snd x = Some p" if p: "p \<in> set (List.map_filter snd planned)"
    and "it_semantic_unit_id (fst x) = Some (pp_semantic_unit_id p)" for p
  proof -
    from p obtain y where "(y, Some p) \<in> set planned" by (auto simp: in_map_filter_snd)
    then obtain j where j: "j < length planned" "snd (planned ! j) = Some p"
      by (metis in_set_conv_nth snd_conv)
    with out [OF j(1)] out [OF k(1)] that(2) k(2) have "su_id (us ! j) = su_id (us ! k)"
      by (auto simp: unit_outcome_def)
    with assms(2) j(1) k(1) len have "j = k" by (simp add: distinct_conv_nth) blast
    with j k show ?thesis by simp
  qed
  have mem: "snd x = Some p \<Longrightarrow> p \<in> set (List.map_filter snd planned)" for p
    using assms(3) by (metis in_map_filter_snd prod.collapse)
  from out [OF k(1)] k(2) have o: "unit_outcome (us ! k) x" by simp
  show ?thesis
  proof (cases "snd x")
    case None
    with o have "it_disposition (fst x) \<noteq> DURABLE_CANDIDATE" by (simp add: unit_outcome_def)
    with same None show ?thesis by auto
  next
    case (Some p)
    with o have "it_disposition (fst x) = DURABLE_CANDIDATE" "it_proposal_id (fst x) = Some (pp_proposal_id p)"
      "it_semantic_unit_id (fst x) = Some (pp_semantic_unit_id p)"
      by (simp_all add: unit_outcome_def)
    with mem [OF Some] show ?thesis by blast
  qed
qed

lemma check_planner_input_Inr:
  "check_planner_input D inp = Inr u \<longleftrightarrow>
     jget (pi_text_envelope inp) ''raw_text_hash'' = jlit (d_text D (pi_raw_text inp)) \<and>
     pi_accepted_unit_ids inp = map su_id (sa_semantic_units (pi_analysis inp)) \<and>
     pi_accepted_reference_indexes inp = [0..<length (sa_references (pi_analysis inp))] \<and>
     pi_accepted_relation_indexes inp = [0..<length (sa_relations (pi_analysis inp))] \<and>
     distinct (map su_id (sa_semantic_units (pi_analysis inp)))"
proof -
  let ?us = "sa_semantic_units (pi_analysis inp)"
  have "filter (\<lambda>u. su_id u \<in> set (map su_id ?us)) ?us = ?us"
    by (simp add: filter_id_conv)
  moreover have "length ?us = card (set (map su_id ?us)) \<longleftrightarrow> distinct (map su_id ?us)"
    by (metis card_distinct distinct_card length_map)
  ultimately have K: "length (filter (\<lambda>u. su_id u \<in> set (map su_id ?us)) ?us) = card (set (map su_id ?us)) \<longleftrightarrow>
      distinct (map su_id ?us)"
    by (simp only:)
  show ?thesis
  proof (cases "pi_accepted_unit_ids inp = map su_id ?us")
    case True
    show ?thesis unfolding check_planner_input_def Let_def True using K by (simp del: set_map)
  qed (simp add: check_planner_input_def Let_def)
qed

text \<open>The parts of a successful run.\<close>

lemma plan_parts:
  assumes "plan_candidate_coverage D U inp = Inr (plan, ps)"
  defines "us \<equiv> sa_semantic_units (pi_analysis inp)" and "ix \<equiv> make_index (pi_authorities inp)"
    and "rh \<equiv> d_text D (pi_raw_text inp)"
    and "rd \<equiv> indexes_by_source (\<lambda>i. sr_source_unit_id (ref_at inp i)) [0..<length (sa_references (pi_analysis inp))]"
    and "ld \<equiv> indexes_by_source (\<lambda>i. sl_source_unit_id (rel_at inp i)) [0..<length (sa_relations (pi_analysis inp))]"
  obtains planned extra where
    "check_planner_input D inp = Inr ()" "distinct (map su_id us)"
    "list_all2 (\<lambda>u x. plan_unit D U inp rh ix rd ld u = Inr x) us planned"
    "uncovered_items D U inp rh ix us = Inr extra"
    "cp_items plan = sort_key item_key (map fst planned @ extra)"
    "ps = List.map_filter snd planned" "assert_complete inp (cp_items plan) ps = Inr ()"
    "plan = make_plan D inp rh (cp_items plan)"
proof -
  have c: "check_planner_input D inp = Inr ()" using assms(1) by (simp add: plan_candidate_coverage_def)
  then have ids: "pi_accepted_unit_ids inp = map su_id us"
    "pi_accepted_reference_indexes inp = [0..<length (sa_references (pi_analysis inp))]"
    "pi_accepted_relation_indexes inp = [0..<length (sa_relations (pi_analysis inp))]"
    and d: "distinct (map su_id us)"
    by (simp_all add: check_planner_input_Inr us_def)
  have all: "filter (\<lambda>u. su_id u \<in> set (pi_accepted_unit_ids inp)) us = us"
    by (simp add: ids filter_id_conv)
  define items where "items = (\<lambda>(planned :: (coverage_item \<times> candidate_proposal option) list) extra. sort_key item_key (map fst planned @ extra))"
  from assms(1) c all ids obtain planned extra where
    run: "list_all2 (\<lambda>u x. plan_unit D U inp rh ix rd ld u = Inr x) us planned"
      "uncovered_items D U inp rh ix us = Inr extra"
      "assert_complete inp (items planned extra) (List.map_filter snd planned) = Inr ()"
      "plan = make_plan D inp rh (items planned extra)" "ps = List.map_filter snd planned"
    by (auto simp: plan_candidate_coverage_def Let_def rmap_eq_Inr us_def ix_def rh_def rd_def ld_def items_def)
  moreover have "cp_items plan = items planned extra" by (simp add: run(4) make_plan_def Let_def)
  ultimately show thesis using c d by (intro that) (simp_all add: items_def)
qed

text \<open>
  Property C1 (coverage_exactly_once): a plan has, in the order of the units, exactly one item
  with the span of each unit; its items have distinct ids; an item is durable exactly when one of
  the returned proposals is linked to it; and every unit has at most one proposal.
\<close>

theorem coverage_exactly_once:
  assumes "plan_candidate_coverage D U inp = Inr (plan, ps)"
  shows "distinct (map it_id (cp_items plan)) \<and>
     mset (map (\<lambda>i. (the (it_semantic_unit_id i), it_raw_start i, it_raw_end i))
             (filter (\<lambda>i. it_semantic_unit_id i \<noteq> None) (cp_items plan))) =
       mset (map (\<lambda>u. (su_id u, su_raw_start u, su_raw_end u)) (sa_semantic_units (pi_analysis inp))) \<and>
     distinct (map su_id (sa_semantic_units (pi_analysis inp))) \<and>
     (\<forall>i \<in> set (cp_items plan). it_disposition i = DURABLE_CANDIDATE \<longleftrightarrow>
        (\<exists>p \<in> set ps. it_semantic_unit_id i = Some (pp_semantic_unit_id p) \<and>
                      it_proposal_id i = Some (pp_proposal_id p))) \<and>
     distinct (map pp_semantic_unit_id ps)"
proof -
  let ?us = "sa_semantic_units (pi_analysis inp)"
  obtain planned extra where parts:
    "distinct (map su_id ?us)"
    "list_all2 (\<lambda>u x. plan_unit D U inp (d_text D (pi_raw_text inp)) (make_index (pi_authorities inp))
       (indexes_by_source (\<lambda>i. sr_source_unit_id (ref_at inp i)) [0..<length (sa_references (pi_analysis inp))])
       (indexes_by_source (\<lambda>i. sl_source_unit_id (rel_at inp i)) [0..<length (sa_relations (pi_analysis inp))])
       u = Inr x) ?us planned"
    "uncovered_items D U inp (d_text D (pi_raw_text inp)) (make_index (pi_authorities inp)) ?us = Inr extra"
    "cp_items plan = sort_key item_key (map fst planned @ extra)"
    "ps = List.map_filter snd planned" "assert_complete inp (cp_items plan) ps = Inr ()"
    by (rule plan_parts [OF assms])
  have one: "list_all2 unit_outcome ?us planned"
    by (rule list_all2_mono [OF parts(2)])
      (auto dest!: plan_unit_cases split: option.splits simp: durable_ground_def unit_outcome_def)
  have none: "it_semantic_unit_id i = None \<and> it_disposition i = UNSUPPORTED" if "i \<in> set extra" for i
    by (rule uncovered_items_Inr [OF parts(3)])
      (use that in \<open>auto simp: list_all2_conv_all_nth in_set_conv_nth\<close>)
  have "\<forall>x \<in> set planned. it_semantic_unit_id (fst x) \<noteq> None"
    using one by (fastforce simp: list_all2_conv_all_nth in_set_conv_nth unit_outcome_def)
  moreover have "filter (\<lambda>i. it_semantic_unit_id i \<noteq> None) extra = []"
    using none by (simp add: filter_empty_conv)
  ultimately have unit_items:
    "filter (\<lambda>i. it_semantic_unit_id i \<noteq> None) (map fst planned @ extra) = map fst planned"
    by (simp add: filter_id_conv)
  have "mset (filter (\<lambda>i. it_semantic_unit_id i \<noteq> None) (cp_items plan)) = mset (map fst planned)"
  proof -
    have "mset (filter (\<lambda>i. it_semantic_unit_id i \<noteq> None) (cp_items plan)) =
        mset (filter (\<lambda>i. it_semantic_unit_id i \<noteq> None) (map fst planned @ extra))"
      unfolding parts(4) mset_filter mset_sort ..
    then show ?thesis unfolding unit_items .
  qed
  then have "mset (map (\<lambda>i. (the (it_semantic_unit_id i), it_raw_start i, it_raw_end i))
             (filter (\<lambda>i. it_semantic_unit_id i \<noteq> None) (cp_items plan))) =
       mset (map (\<lambda>u. (su_id u, su_raw_start u, su_raw_end u)) ?us)"
    unfolding outcome_spans [OF one, symmetric] mset_map by (rule arg_cong)
  moreover have "distinct (map it_id (cp_items plan))"
    using parts(6) by (simp add: assert_complete_def Let_def)
  moreover have "it_disposition i = DURABLE_CANDIDATE \<longleftrightarrow>
        (\<exists>p \<in> set ps. it_semantic_unit_id i = Some (pp_semantic_unit_id p) \<and>
                      it_proposal_id i = Some (pp_proposal_id p))" if "i \<in> set (cp_items plan)" for i
  proof -
    from that consider x where "x \<in> set planned" "i = fst x" | "i \<in> set extra"
      unfolding parts(4) by auto
    then show ?thesis
    proof cases
      case 1
      with outcome_durable [OF one parts(1)] show ?thesis by (simp add: parts(5))
    next
      case 2
      with none show ?thesis by simp
    qed
  qed
  moreover have "distinct (map pp_semantic_unit_id ps)"
    using outcome_proposals [OF one] parts(1) by (simp add: parts(5))
  ultimately show ?thesis using parts(1) by (intro conjI ballI)
qed

theorem coverage_exactly_once_witness:
  "\<exists>plan ps. plan_candidate_coverage demo_digests demo_unidb demo_planner_input = Inr (plan, ps) \<and>
     distinct (map it_id (cp_items plan)) \<and> distinct (map pp_semantic_unit_id ps) \<and> length ps = 2"
proof (rule demo_plan_cases)
  fix plan ps
  assume run: "plan_candidate_coverage demo_digests demo_unidb demo_planner_input = Inr (plan, ps)"
    and ps: "map pp_semantic_unit_id ps = [lit ''u1'', lit ''u2'']"
  from arg_cong [OF ps, of length] have "length ps = 2" by simp
  with run coverage_exactly_once [OF run] show ?thesis by blast
qed

text \<open>
  Property C2 (durable_memory_grounded): a proposal exists only for a unit of the analysis that
  exactly one stored authority contains, an authority that neither conflicts nor is sensitive nor
  forbids storage.  The unit is durable, no question, and neither hypothetical, questioned nor of
  unknown status; its references are resolved, a prompt execution is recorded, and nothing the
  assistant said entered it without being referenced and ratified by the user.  The proposal is of
  the type, subject, predicate and text of the mapping the planner finds for this unit under this
  authority, a mapping that is ready and needs no review, and whose route the origin of the message
  is trusted for; it names that origin as its source.
\<close>

theorem durable_memory_grounded:
  assumes "plan_candidate_coverage D U inp = Inr (plan, ps)" and "p \<in> set ps"
  shows "\<exists>u \<in> set (sa_semantic_units (pi_analysis inp)).
     durable_ground U inp (make_index (pi_authorities inp))
       (filter (\<lambda>i. sr_source_unit_id (ref_at inp i) = su_id u) [0..<length (sa_references (pi_analysis inp))])
       (filter (\<lambda>i. sl_source_unit_id (rel_at inp i) = su_id u) [0..<length (sa_relations (pi_analysis inp))])
       u p"
proof -
  obtain planned where parts:
    "list_all2 (\<lambda>u x. plan_unit D U inp (d_text D (pi_raw_text inp)) (make_index (pi_authorities inp))
       (indexes_by_source (\<lambda>i. sr_source_unit_id (ref_at inp i)) [0..<length (sa_references (pi_analysis inp))])
       (indexes_by_source (\<lambda>i. sl_source_unit_id (rel_at inp i)) [0..<length (sa_relations (pi_analysis inp))])
       u = Inr x) (sa_semantic_units (pi_analysis inp)) planned" "ps = List.map_filter snd planned"
    by (rule plan_parts [OF assms(1)])
  from assms(2) obtain i where "(i, Some p) \<in> set planned" by (auto simp: parts(2) in_map_filter_snd)
  then obtain u where u: "u \<in> set (sa_semantic_units (pi_analysis inp))"
    "plan_unit D U inp (d_text D (pi_raw_text inp)) (make_index (pi_authorities inp))
       (indexes_by_source (\<lambda>i. sr_source_unit_id (ref_at inp i)) [0..<length (sa_references (pi_analysis inp))])
       (indexes_by_source (\<lambda>i. sl_source_unit_id (rel_at inp i)) [0..<length (sa_relations (pi_analysis inp))])
       u = Inr (i, Some p)"
    using list_all2_partner_left [OF parts(1)] by blast
  from plan_unit_cases [OF u(2)] u(1) show ?thesis
    by (auto simp: indexes_by_source_get)
qed

theorem durable_memory_grounded_witness:
  "\<exists>plan ps p. plan_candidate_coverage demo_digests demo_unidb demo_planner_input = Inr (plan, ps) \<and>
     p \<in> set ps \<and> (\<exists>u \<in> set (sa_semantic_units demo_analysis). su_durability u = ''durable'' \<and>
       pp_evidence p = su_evidence u)"
proof (rule demo_plan_cases)
  fix plan ps
  assume run: "plan_candidate_coverage demo_digests demo_unidb demo_planner_input = Inr (plan, ps)"
    and ps: "map pp_semantic_unit_id ps = [lit ''u1'', lit ''u2'']"
  then obtain p where p: "p \<in> set ps" by (cases ps) auto
  from durable_memory_grounded [OF run p] run p show ?thesis
    by (auto simp: durable_ground_def demo_planner_input_def)
qed

lemma tokens_itemised:
  assumes "plan_candidate_coverage D U inp = Inr (plan, ps)"
    and "envelope_spans (pi_text_envelope inp) ''tokens'' = Inr tokens"
    and "sorted_wrt mono_range tokens" "proper tokens"
    and "\<forall>u \<in> set (sa_semantic_units (pi_analysis inp)). su_raw_start u < su_raw_end u"
    and "t \<in> set tokens"
  shows "\<exists>i \<in> set (cp_items plan). it_raw_start i < snd t \<and> fst t < it_raw_end i"
proof -
  let ?us = "sa_semantic_units (pi_analysis inp)" and ?ix = "make_index (pi_authorities inp)"
  let ?cov = "merge_intervals (map unit_span ?us)"
  obtain planned extra where parts:
    "list_all2 (\<lambda>u x. plan_unit D U inp (d_text D (pi_raw_text inp)) ?ix
       (indexes_by_source (\<lambda>i. sr_source_unit_id (ref_at inp i)) [0..<length (sa_references (pi_analysis inp))])
       (indexes_by_source (\<lambda>i. sl_source_unit_id (rel_at inp i)) [0..<length (sa_relations (pi_analysis inp))])
       u = Inr x) ?us planned"
    "uncovered_items D U inp (d_text D (pi_raw_text inp)) ?ix ?us = Inr extra"
    "cp_items plan = sort_key item_key (map fst planned @ extra)"
    by (rule plan_parts [OF assms(1)])
  have pu: "proper (map unit_span ?us)" using assms(5) by (auto simp: unit_span_def)
  note cov = merge_intervals_spec [OF pu]
  have st: "sorted (map fst tokens)" by (rule sorted_ranges [OF assms(3)])
  have out: "tokens_outside_intervals tokens ?cov = filter (\<lambda>t. \<not> token_covered ?cov t) tokens"
    using cov st assms(4) by (intro tokens_outside_filter) blast+
  obtain s e where t: "t = (s, e)" "s < e" using assms(4,6) by (cases t) auto
  show ?thesis
  proof (cases "token_covered ?cov t")
    case True
    with t cov pu have "token_covered (map unit_span ?us) (s, e)"
      by (simp add: token_covered_points)
    then obtain u where u: "u \<in> set ?us" "s < su_raw_end u" "su_raw_start u < e"
      by (auto simp: token_covered_def unit_span_def)
    from list_all2_partner_right [OF parts(1) u(1)] obtain i po where
      i: "(i, po) \<in> set planned" "it_raw_start i = su_raw_start u" "it_raw_end i = su_raw_end u"
      by (force dest: plan_unit_cases)
    then have "i \<in> set (cp_items plan)" by (force simp: parts(3))
    then show ?thesis by (rule bexI [rotated]) (use i u t in simp)
  next
    case False
    define gs where "gs = token_groups U (pi_raw_text inp) ?ix (tokens_outside_intervals tokens ?cov)"
    have gs: "concat (map snd gs) = filter (\<lambda>t. \<not> token_covered ?cov t) tokens" "\<forall>g \<in> set gs. snd g \<noteq> []"
      using token_groups_spec [of U "pi_raw_text inp" ?ix "tokens_outside_intervals tokens ?cov"] out
      by (simp_all add: gs_def)
    have "t \<in> set (concat (map snd gs))" using False assms(6) by (simp add: gs)
    then obtain g where g: "g \<in> set gs" "t \<in> set (snd g)" by auto
    have "sorted_wrt mono_range (snd g)"
    proof -
      have "sorted_wrt mono_range (concat (map snd gs))" using assms(3) by (simp add: gs sorted_wrt_filterI)
      then show ?thesis using g(1) by (induction gs) (auto simp: sorted_wrt_append)
    qed
    from ordered_bounds [OF this g(2)] have b: "fst (group_span g) \<le> s" "e \<le> snd (group_span g)"
      by (simp_all add: t group_span_def)
    obtain i where "i \<in> set extra" "it_raw_start i = fst (group_span g)" "it_raw_end i = snd (group_span g)"
    proof (rule uncovered_items_Inr [OF parts(2)])
      fix tokens'
      assume "envelope_spans (pi_text_envelope inp) ''tokens'' = Inr tokens'"
      with assms(2) have "tokens' = tokens" by simp
      moreover assume "list_all2 (\<lambda>g i. it_raw_start i = fst (group_span g) \<and> it_raw_end i = snd (group_span g) \<and>
        it_semantic_unit_id i = None \<and> it_disposition i = UNSUPPORTED \<and> it_proposal_id i = None \<and>
        item_identified D i)
      (token_groups U (pi_raw_text inp) ?ix (tokens_outside_intervals tokens' ?cov)) extra"
      ultimately have "list_all2 (\<lambda>g i. it_raw_start i = fst (group_span g) \<and>
          it_raw_end i = snd (group_span g)) gs extra"
        by (auto simp: gs_def elim!: list_all2_mono)
      from list_all2_partner_right [OF this g(1)] show thesis using that by blast
    qed
    with b t parts(3) show ?thesis by (intro bexI [of _ i]) auto
  qed
qed

text \<open>
  Property C4 (no_token_dropped): when the tokens of the envelope ascend and the units are
  non-empty, every token of the message is overlapped by some item of the plan.
\<close>

theorem no_token_dropped:
  assumes "plan_candidate_coverage D U inp = Inr (plan, ps)"
    and "envelope_spans (pi_text_envelope inp) ''tokens'' = Inr tokens"
    and "sorted_wrt mono_range tokens" "proper tokens"
    and "\<forall>u \<in> set (sa_semantic_units (pi_analysis inp)). su_raw_start u < su_raw_end u"
    and "t \<in> set tokens"
  shows "\<exists>i \<in> set (cp_items plan). it_raw_start i < snd t \<and> fst t < it_raw_end i"
  by (rule tokens_itemised [OF assms])

theorem no_token_dropped_witness:
  "\<exists>plan ps. plan_candidate_coverage demo_digests demo_unidb demo_planner_input = Inr (plan, ps) \<and>
     (\<exists>i \<in> set (cp_items plan). it_raw_start i < 8 \<and> 4 < it_raw_end i)"
proof (rule demo_plan_cases)
  fix plan ps
  assume run: "plan_candidate_coverage demo_digests demo_unidb demo_planner_input = Inr (plan, ps)"
  have "\<exists>i \<in> set (cp_items plan). it_raw_start i < snd (4 :: nat, 8 :: nat) \<and> fst (4 :: nat, 8 :: nat) < it_raw_end i"
    by (rule no_token_dropped [OF run, of "[(0, 3), (4, 8), (10, 12), (13, 18)]"])
      (simp_all add: demo_planner_input_def demo_analysis_def demo_semantic_unit_def mono_range_def)
  with run show ?thesis by auto
qed

text \<open>
  Also proved (retain_raw_only_never_planned): no item is ever rejected by the gate, so a plan is
  an abstention, a review or complete; the declared status \<open>retain_raw_only\<close> is unreachable.
\<close>

theorem retain_raw_only_never_planned:
  assumes "plan_candidate_coverage D U inp = Inr (plan, ps)"
  shows "(\<forall>i \<in> set (cp_items plan). it_disposition i \<noteq> REJECTED_BY_GATE) \<and>
     cp_status plan \<in> {''abstain'', ''needs_review'', ''complete''}"
proof -
  obtain planned extra where parts:
    "list_all2 (\<lambda>u x. plan_unit D U inp (d_text D (pi_raw_text inp)) (make_index (pi_authorities inp))
       (indexes_by_source (\<lambda>i. sr_source_unit_id (ref_at inp i)) [0..<length (sa_references (pi_analysis inp))])
       (indexes_by_source (\<lambda>i. sl_source_unit_id (rel_at inp i)) [0..<length (sa_relations (pi_analysis inp))])
       u = Inr x) (sa_semantic_units (pi_analysis inp)) planned"
    "uncovered_items D U inp (d_text D (pi_raw_text inp)) (make_index (pi_authorities inp))
       (sa_semantic_units (pi_analysis inp)) = Inr extra"
    "cp_items plan = sort_key item_key (map fst planned @ extra)"
    "plan = make_plan D inp (d_text D (pi_raw_text inp)) (cp_items plan)"
    by (rule plan_parts [OF assms])
  have "it_disposition (fst x) \<noteq> REJECTED_BY_GATE" if "x \<in> set planned" for x
    using list_all2_partner_left [OF parts(1) that] by (cases x) (force dest: plan_unit_cases)
  moreover have "it_disposition i \<noteq> REJECTED_BY_GATE" if "i \<in> set extra" for i
    by (rule uncovered_items_Inr [OF parts(2)])
      (use that in \<open>auto simp: list_all2_conv_all_nth in_set_conv_nth\<close>)
  ultimately have no: "\<forall>i \<in> set (cp_items plan). it_disposition i \<noteq> REJECTED_BY_GATE"
    unfolding parts(3) by auto
  then have "plan_status inp (cp_items plan) \<noteq> ''retain_raw_only''"
    by (cases "cp_items plan") (auto simp: plan_status_def Let_def)
  then have "plan_status inp (cp_items plan) \<in> {''abstain'', ''needs_review'', ''complete''}"
    by (auto simp: plan_status_def Let_def split: if_splits)
  moreover have "cp_status plan = plan_status inp (cp_items plan)"
    by (subst parts(4)) (simp add: make_plan_def Let_def)
  ultimately show ?thesis using no by simp
qed

theorem retain_raw_only_never_planned_witness:
  "\<exists>plan ps. plan_candidate_coverage demo_digests demo_unidb demo_planner_input = Inr (plan, ps) \<and>
     cp_status plan \<noteq> ''retain_raw_only''"
proof (rule demo_plan_cases)
  fix plan ps
  assume run: "plan_candidate_coverage demo_digests demo_unidb demo_planner_input = Inr (plan, ps)"
  from retain_raw_only_never_planned [OF run] run show ?thesis by auto
qed

end
