(* ===== verification/TextEnvelope.thy ===== *)
theory TextEnvelope
  imports TextSegments CoverageProperties
begin

text \<open>
  The deterministic envelope of a message (\<open>textsemantics/result.py\<close>, \<open>referential.py\<close>): the hints
  that wider context may help, the record of everything established without reading the text, and
  the view of it that the semantic contract and the coverage planner receive.  The last section
  composes the envelope with the planner: no word of a message disappears between the two.
\<close>

section \<open>Context hints\<close>

definition DEICTIC_TOKENS :: "ustr list" where
  "DEICTIC_TOKENS =
    [[1575, 1740, 1606], [1570, 1606], [1607, 1605, 1575, 1606], [1607, 1605, 1740, 1606],
     [1670, 1606, 1740, 1606], [1575, 1740, 1606, 1607, 1575], [1570, 1606, 1607, 1575],
     [1575, 1740, 1588, 1575, 1606], [1575, 1588], [1588, 1575, 1606], [1588, 1608, 1606],
     lit ''this'', lit ''that'', lit ''these'', lit ''those'', lit ''it'', lit ''them'',
     lit ''they'', lit ''such'', lit ''previous'', lit ''earlier'', lit ''above'',
     lit ''prior'', lit ''same'', [1602, 1576, 1604, 1740], [1662, 1740, 1588, 1740, 1606],
     [1576, 1575, 1604, 1575]]"

definition BASELINE_SEMANTIC_HISTORY_UNITS :: int where "BASELINE_SEMANTIC_HISTORY_UNITS = 2"
definition EXPANDED_SEMANTIC_HISTORY_UNITS :: int where "EXPANDED_SEMANTIC_HISTORY_UNITS = 6"

record context_hint =
  ch_raw_start :: nat
  ch_raw_end :: nat
  ch_evidence :: ustr
  ch_normalized_text :: ustr
  ch_authority :: string

definition detect_context_dependency :: "unidb \<Rightarrow> normalized \<Rightarrow> context_hint list" where
  "detect_context_dependency U n =
     map (\<lambda>t. \<lparr>ch_raw_start = tk_raw_start t, ch_raw_end = tk_raw_end t,
           ch_evidence = slice (nt_raw n) (tk_raw_start t) (tk_raw_end t), ch_normalized_text = tk_text t,
           ch_authority = ''non_authoritative''\<rparr>)
       (filter (\<lambda>t. tk_key t \<in> set DEICTIC_TOKENS) (tokenize U n False))"

definition requires_conversation_context :: "context_hint list \<Rightarrow> bool" where
  "requires_conversation_context hints \<longleftrightarrow> hints \<noteq> []"

datatype window_error = BaselineTooSmall | ExpansionBelowBaseline

definition semantic_history_window_size :: "context_hint list \<Rightarrow> int \<Rightarrow> int \<Rightarrow> (window_error, int) result" where
  "semantic_history_window_size hints baseline expanded =
     (if baseline < 1 then Inl BaselineTooSmall
      else if expanded < baseline then Inl ExpansionBelowBaseline
      else Inr (if hints \<noteq> [] then expanded else baseline))"

text \<open>Hints only ever widen the window, which is never empty.\<close>

lemma history_window_bounds:
  "semantic_history_window_size hints b e = Inr w \<Longrightarrow> 1 \<le> b \<and> b \<le> w \<and> w \<le> e"
  by (auto simp: semantic_history_window_size_def split: if_splits)

section \<open>The envelope\<close>

definition TEXT_SEMANTICS_CONTRACT_VERSION :: string where
  "TEXT_SEMANTICS_CONTRACT_VERSION = ''memorist.text.envelope.v3''"

record phrase_span =
  ph_index :: nat
  ph_text :: ustr
  ph_raw_text :: ustr
  ph_raw_start :: nat
  ph_raw_end :: nat
  ph_token_start :: nat
  ph_token_end :: nat
  ph_in_code :: bool

record text_envelope =
  te_contract_version :: string
  te_raw_text_hash :: string
  te_language_hints :: "string list"
  te_blocks :: "text_block list"
  te_sentences :: "sentence_span list"
  te_normalized_text :: ustr
  te_tokens :: "token list"
  te_phrases :: "phrase_span list"
  te_hints :: "context_hint list"
  te_warnings :: "string list"
  te_normalization_version :: string
  te_normalization_fingerprint :: string

definition phrase_of :: "normalized \<Rightarrow> nat \<times> lexical_match \<Rightarrow> phrase_span" where
  "phrase_of n im =
     (case im of (i, m) \<Rightarrow>
        \<lparr>ph_index = i, ph_text = lm_text m, ph_raw_text = lm_evidence m, ph_raw_start = lm_raw_start m,
         ph_raw_end = lm_raw_end m, ph_token_start = lm_token_start m, ph_token_end = lm_token_end m,
         ph_in_code = (case norm_range n (lm_raw_start m) (lm_raw_end m) of
            None \<Rightarrow> False | Some p \<Rightarrow> is_code n (fst p))\<rparr>)"

definition phrases_of :: "unidb \<Rightarrow> normalized \<Rightarrow> phrase_span list" where
  "phrases_of U n = map (phrase_of n) (enumerate0 (identifier_phrases U n True))"

text \<open>\<open>raw.count("```")\<close>: occurrences that do not overlap, from the left.\<close>

fun count_fences :: "ustr \<Rightarrow> nat" where
  "count_fences (a # b # c # s) =
     (if a = 96 \<and> b = 96 \<and> c = 96 then Suc (count_fences s) else count_fences (b # c # s))"
| "count_fences _ = 0"

definition block_warnings :: "ustr \<Rightarrow> string list" where
  "block_warnings raw = (if odd (count_fences raw) then [''unclosed_code_fence''] else [])"

definition build_envelope :: "digests \<Rightarrow> unidb \<Rightarrow> norm_contract \<Rightarrow> ustr \<Rightarrow> text_envelope" where
  "build_envelope D U k raw =
     (let n = normalize_with_mapping U k raw; (sentences, warnings) = segment_sentences U raw n in
      \<lparr>te_contract_version = TEXT_SEMANTICS_CONTRACT_VERSION, te_raw_text_hash = d_text D raw,
       te_language_hints = language_hints raw, te_blocks = scan_blocks U raw, te_sentences = sentences,
       te_normalized_text = nt_text n, te_tokens = tokenize U n True, te_phrases = phrases_of U n,
       te_hints = detect_context_dependency U n, te_warnings = fromkeys (warnings @ block_warnings raw),
       te_normalization_version = nc_version (nt_contract n),
       te_normalization_fingerprint = contract_fingerprint (canonical_hash D) (nt_contract n)\<rparr>)"

section \<open>The view others receive\<close>

fun decimal :: "nat \<Rightarrow> string" where
  "decimal n = (if n < 10 then [char_of (48 + n)] else decimal (n div 10) @ [char_of (48 + n mod 10)])"

declare decimal.simps [simp del]

fun block_kind_value :: "block_kind \<Rightarrow> string" where
  "block_kind_value PROSE = ''prose''"
| "block_kind_value CODE = ''code''"

definition block_view :: "text_block \<Rightarrow> json" where
  "block_view b = JObj [(''kind'', jlit (block_kind_value (tb_kind b))), (''start'', jnat (tb_start b)),
     (''end'', jnat (tb_end b))]"

definition sentence_view :: "sentence_span \<Rightarrow> json" where
  "sentence_view s = JObj
     [(''sentence_id'', jlit (''s'' @ decimal (ss_index s))), (''index'', jnat (ss_index s)),
      (''raw_start'', jnat (ss_raw_start s)), (''raw_end'', jnat (ss_raw_end s)),
      (''normalized_start'', jopt jnat (ss_normalized_start s)), (''normalized_end'', jopt jnat (ss_normalized_end s)),
      (''block_index'', jnat (ss_block_index s)), (''is_code'', JBool (ss_is_code s)),
      (''boundary_reason'', jlit (ss_boundary_reason s)),
      (''language_hints'', JList (map jlit (ss_language_hints s)))]"

definition token_view :: "token \<Rightarrow> json" where
  "token_view t = JObj
     [(''index'', jnat (tk_index t)), (''raw_start'', jnat (tk_raw_start t)), (''raw_end'', jnat (tk_raw_end t)),
      (''normalized_start'', jnat (tk_start t)), (''normalized_end'', jnat (tk_end t)),
      (''in_code'', JBool (tk_in_code t))]"

definition phrase_view :: "phrase_span \<Rightarrow> json" where
  "phrase_view p = JObj
     [(''kind'', jlit ''identifier''), (''index'', jnat (ph_index p)), (''raw_start'', jnat (ph_raw_start p)),
      (''raw_end'', jnat (ph_raw_end p)), (''token_start'', jnat (ph_token_start p)),
      (''token_end'', jnat (ph_token_end p)), (''in_code'', JBool (ph_in_code p))]"

definition hint_view :: "context_hint \<Rightarrow> json" where
  "hint_view h = JObj [(''raw_start'', jnat (ch_raw_start h)), (''raw_end'', jnat (ch_raw_end h)),
     (''authority'', jlit (ch_authority h))]"

text \<open>Raw text is not part of it.\<close>

definition envelope_dict :: "text_envelope \<Rightarrow> (string \<times> json) list" where
  "envelope_dict te =
     [(''contract_version'', jlit (te_contract_version te)), (''raw_text_hash'', jlit (te_raw_text_hash te)),
      (''language_hints'', JList (map jlit (te_language_hints te))),
      (''normalization_contract_version'', jlit (te_normalization_version te)),
      (''normalization_contract_fingerprint'', jlit (te_normalization_fingerprint te)),
      (''segmentation_contract_version'', jlit ''memorist.text.segmentation.v2''),
      (''referential_contract_version'', jlit ''memorist.text.referential.v2''),
      (''validation_contract_version'', jlit ''memorist.text.semantic_evidence_validation.v1''),
      (''requires_conversation_context'', JBool (requires_conversation_context (te_hints te))),
      (''blocks'', JList (map block_view (te_blocks te))),
      (''sentences'', JList (map sentence_view (te_sentences te))),
      (''tokens'', JList (map token_view (te_tokens te))),
      (''phrases'', JList (map phrase_view (te_phrases te))),
      (''context_dependency_hints'', JList (map hint_view (te_hints te))),
      (''warnings'', JList (map jlit (te_warnings te)))]"

section \<open>What the planner reads\<close>

definition raw_range :: "token \<Rightarrow> nat \<times> nat" where
  "raw_range t = (tk_raw_start t, tk_raw_end t)"

lemma those_map_Some: "those (map (\<lambda>x. Some (f x)) xs) = Some (map f xs)"
  by (induction xs) simp_all

lemma envelope_tokens_read:
  "envelope_spans (envelope_dict (build_envelope D U k raw)) ''tokens'' =
     Inr (map raw_range (tokenize U (normalize_with_mapping U k raw) True))"
proof -
  have "span_of_json (token_view t) = Some (raw_range t)" for t
    by (simp add: span_of_json_def token_view_def raw_range_def)
  then have "those (map span_of_json (map token_view ts)) = Some (map raw_range ts)" for ts
    by (simp add: comp_def those_map_Some)
  then show ?thesis
    by (simp add: envelope_spans_def envelope_dict_def build_envelope_def Let_def split: prod.split)
qed

lemma envelope_hash_bound: "jget (envelope_dict (build_envelope D U k raw)) ''raw_text_hash'' = jlit (d_text D raw)"
  by (simp add: envelope_dict_def build_envelope_def Let_def split: prod.split)

text \<open>The raw ranges of the tokens ascend, though those of one cluster may coincide.\<close>

lemma token_raw_ranges_ordered:
  "sorted_wrt mono_range (map raw_range (tokenize U (normalize_with_mapping U k raw) True))"
proof -
  let ?n = "normalize_with_mapping U k raw" let ?ts = "all_tokens U ?n"
  note n = normalize_facts [where U = U and k = k and raw = raw]
  have mono: "mono_range (nt_spans ?n ! i) (nt_spans ?n ! j)" if "i \<le> j" "j < length (nt_spans ?n)" for i j
    using that n(4) by (cases "i = j") (auto simp: sorted_wrt_iff_nth_less)
  note runs = token_spans_all [of U "nt_text ?n", folded token_ranges]
  have "mono_range (raw_range (?ts ! i)) (raw_range (?ts ! j))" if ij: "i < j" "j < length ?ts" for i j
  proof -
    let ?a = "?ts ! i" and ?b = "?ts ! j"
    have "sorted_wrt (\<lambda>p q. snd p < fst q) (map token_range ?ts)" using runs by (simp add: runs_from_def)
    from sorted_wrt_nth_less [OF this ij(1)] ij have sep: "tk_end ?a < tk_start ?b" by (simp add: token_range_def)
    have r: "token_run U (nt_text ?n) (token_range ?a)" "token_run U (nt_text ?n) (token_range ?b)"
      using ij by (auto intro: token_range_run)
    have span: "raw_range t = span_range ?n (tk_start t) (tk_end t)" if "t \<in> set ?ts" for t
      using that by (auto simp: all_tokens_def raw_range_def)
    have "raw_range ?a = span_range ?n (tk_start ?a) (tk_end ?a)" "raw_range ?b = span_range ?n (tk_start ?b) (tk_end ?b)"
      using span ij by auto
    with r sep mono [of "tk_start ?a" "tk_start ?b"] mono [of "tk_end ?a - 1" "tk_end ?b - 1"] n(3) show ?thesis
      by (auto simp: mono_range_def span_range_def token_run_def token_range_def)
  qed
  then show ?thesis by (simp add: tokenize_def sorted_wrt_iff_nth_less)
qed

text \<open>
  Also proved (no_word_lost): a message planned with the envelope of its own text loses no word:
  every alphanumeric character of the normalized text is in a token, and some item of the plan
  overlaps the raw range of that token.
\<close>

theorem no_word_lost:
  assumes "plan_candidate_coverage D U inp = Inr (plan, ps)"
    and "pi_text_envelope inp = envelope_dict (build_envelope D U k (pi_raw_text inp))"
    and "\<forall>u \<in> set (sa_semantic_units (pi_analysis inp)). su_raw_start u < su_raw_end u"
    and "i < length (normalize_text U k (pi_raw_text inp))" "is_alnum U (normalize_text U k (pi_raw_text inp) ! i)"
  shows "\<exists>t \<in> set (tokenize U (normalize_with_mapping U k (pi_raw_text inp)) True). tk_start t \<le> i \<and> i < tk_end t \<and>
    (\<exists>it \<in> set (cp_items plan). it_raw_start it < tk_raw_end t \<and> tk_raw_start t < it_raw_end it)"
proof -
  let ?n = "normalize_with_mapping U k (pi_raw_text inp)"
  have "runs_from U (nt_text ?n) 0 (map token_range (all_tokens U ?n))"
    by (simp add: token_ranges token_spans_all)
  then obtain t where t: "t \<in> set (all_tokens U ?n)" "tk_start t \<le> i" "i < tk_end t"
    using assms(4,5) by (auto simp: runs_from_def token_range_def normalize_text_def)
  have spans: "envelope_spans (pi_text_envelope inp) ''tokens'' = Inr (map raw_range (tokenize U ?n True))"
    by (simp add: assms(2) envelope_tokens_read)
  have proper: "proper (map raw_range (tokenize U ?n True))"
    using token_raw_range(2) [OF _ refl] by (auto simp: tokenize_def raw_range_def)
  have "raw_range t \<in> set (map raw_range (tokenize U ?n True))" using t(1) by (simp add: tokenize_def)
  from tokens_itemised [OF assms(1) spans token_raw_ranges_ordered proper assms(3) this]
  show ?thesis using t by (auto simp: tokenize_def raw_range_def)
qed

definition demo_envelope :: text_envelope where
  "demo_envelope = build_envelope demo_digests demo_unidb default_contract demo_text"

definition demo_message :: planner_input where
  "demo_message = demo_planner_input\<lparr>pi_text_envelope := envelope_dict demo_envelope\<rparr>"

lemma demo_message_planned:
  "\<exists>plan ps. plan_candidate_coverage demo_digests demo_unidb demo_message = Inr (plan, ps)"
proof -
  have "isl (plan_candidate_coverage demo_digests demo_unidb demo_message) = False" by code_simp
  then show ?thesis by (cases "plan_candidate_coverage demo_digests demo_unidb demo_message") auto
qed

lemma demo_normalized_message: "normalize_text demo_unidb default_contract demo_text = lit ''use tabs. it helps.''"
  by code_simp

theorem no_word_lost_witness:
  "\<exists>plan ps. plan_candidate_coverage demo_digests demo_unidb demo_message = Inr (plan, ps) \<and>
     (\<exists>(t :: token) it. tk_start t \<le> 11 \<and> 11 < tk_end t \<and> it \<in> set (cp_items plan) \<and>
        it_raw_start it < tk_raw_end t \<and> tk_raw_start t < it_raw_end it)"
proof -
  obtain plan ps where run: "plan_candidate_coverage demo_digests demo_unidb demo_message = Inr (plan, ps)"
    using demo_message_planned by blast
  have raw: "pi_raw_text demo_message = demo_text" "pi_analysis demo_message = demo_analysis"
    by (simp_all add: demo_message_def demo_planner_input_def)
  have env: "pi_text_envelope demo_message =
      envelope_dict (build_envelope demo_digests demo_unidb default_contract (pi_raw_text demo_message))"
    by (simp add: raw) (simp add: demo_message_def demo_envelope_def)
  have units: "\<forall>u \<in> set (sa_semantic_units (pi_analysis demo_message)). su_raw_start u < su_raw_end u"
    by (simp add: raw demo_analysis_def demo_semantic_unit_def)
  have c: "11 < length (normalize_text demo_unidb default_contract (pi_raw_text demo_message))"
    "is_alnum demo_unidb (normalize_text demo_unidb default_contract (pi_raw_text demo_message) ! 11)"
    unfolding raw demo_normalized_message by code_simp+
  from no_word_lost [OF run env units c] run show ?thesis by blast
qed

end
