(* ===== verification/BoundedContext.thy ===== *)
theory BoundedContext
  imports Sensitivity TextEnvelope
begin

text \<open>
  Which earlier text may accompany a message to the model
  (\<open>memory_worker/semantic/bounded_context.py\<close>).  The resolver takes what the store returns and
  checks every authority boundary again.  \<open>list_prior\<close> is the store's selection of earlier records
  for a scope and a scan limit.
\<close>

section \<open>Records\<close>

record context_scope =
  sc_message_uuid :: string
  sc_message_version_uuid :: "string option"
  sc_session_uuid :: string
  sc_workspace_uuid :: "string option"
  sc_project_uuid :: "string option"
  sc_user_uuid :: "string option"
  sc_actor_workspace_uuid :: "string option"
  sc_role :: string
  sc_turn_index :: "int option"
  sc_raw_text :: ustr
  sc_visibility :: string
  sc_is_deleted :: bool
  sc_redaction_status :: string

record prior_record =
  pc_user_uuid :: "string option"
  pc_session_uuid :: string
  pc_workspace_uuid :: "string option"
  pc_project_uuid :: "string option"
  pc_message_uuid :: string
  pc_message_version_uuid :: "string option"
  pc_version_raw_text :: "ustr option"
  pc_role :: string
  pc_turn_index :: "int option"
  pc_visibility :: string
  pc_is_deleted :: bool
  pc_redaction_status :: string
  pc_text_unit_uuid :: string
  pc_unit_index :: int
  pc_raw_start :: int
  pc_raw_end :: int
  pc_unit_text :: ustr

record context_resolution =
  cr_scope :: context_scope
  cr_boundary :: context_boundary
  cr_items :: "context_item list"
  cr_authority_complete :: bool
  cr_exclusion_reason_codes :: "string list"

definition BOUNDED_CONTEXT_RESOLVER_VERSION :: string where
  "BOUNDED_CONTEXT_RESOLVER_VERSION = ''memorist.semantic_candidate.bounded_context.v1''"

definition CONTEXT_ITEM_NAMESPACE :: string where
  "CONTEXT_ITEM_NAMESPACE = ''740a0732-fce8-5f8c-ad65-d5183e30e0bc''"

section \<open>Eligibility\<close>

definition scope_authority_complete :: "context_scope \<Rightarrow> bool" where
  "scope_authority_complete sc =
     (if (case sc_user_uuid sc of None \<Rightarrow> True | Some u \<Rightarrow> u = []) \<or> sc_turn_index sc = None then False
      else \<not> (sc_workspace_uuid sc \<noteq> None \<and> sc_actor_workspace_uuid sc \<noteq> sc_workspace_uuid sc))"

definition span_stale :: "prior_record \<Rightarrow> ustr \<Rightarrow> bool" where
  "span_stale r raw \<longleftrightarrow>
     pc_raw_start r < 0 \<or> pc_raw_end r \<le> pc_raw_start r \<or> int (length raw) < pc_raw_end r \<or>
     slice raw (nat (pc_raw_start r)) (nat (pc_raw_end r)) \<noteq> pc_unit_text r"

definition not_before :: "context_scope \<Rightarrow> prior_record \<Rightarrow> bool" where
  "not_before sc r =
     (case (pc_turn_index r, sc_turn_index sc) of (Some t, Some u) \<Rightarrow> u \<le> t | _ \<Rightarrow> True)"

definition ineligible_reason :: "unidb \<Rightarrow> context_scope \<Rightarrow> prior_record \<Rightarrow> string option" where
  "ineligible_reason U sc r =
     (if pc_user_uuid r \<noteq> sc_user_uuid sc \<or> pc_session_uuid r \<noteq> sc_session_uuid sc \<or>
         pc_workspace_uuid r \<noteq> sc_workspace_uuid sc \<or> pc_project_uuid r \<noteq> sc_project_uuid sc
      then Some ''cross_authority_boundary''
      else if pc_message_uuid r = sc_message_uuid sc then Some ''current_message_excluded''
      else if not_before sc r then Some ''non_prior_turn''
      else if pc_role r \<notin> {''user'', ''assistant''} then Some ''role_excluded''
      else if pc_visibility r \<noteq> ''visible'' \<or> pc_is_deleted r \<or> pc_redaction_status r \<noteq> ''none''
      then Some ''hidden_deleted_or_redacted''
      else (case (pc_message_version_uuid r, pc_version_raw_text r) of
              (Some _, Some raw) \<Rightarrow>
                (if span_stale r raw then Some ''stale_or_invalid_text_unit_span''
                 else if classify_sensitivity U (pc_unit_text r) \<noteq> NORMAL then Some ''sensitive_context_excluded''
                 else None)
            | _ \<Rightarrow> Some ''immutable_message_version_missing''))"

section \<open>Items\<close>

definition item_identity :: "digests \<Rightarrow> context_scope \<Rightarrow> prior_record \<Rightarrow> json" where
  "item_identity D sc r = JObj
     [(''resolver_version'', jlit BOUNDED_CONTEXT_RESOLVER_VERSION), (''user_uuid'', jopt jlit (sc_user_uuid sc)),
      (''session_uuid'', jlit (pc_session_uuid r)), (''workspace_uuid'', jopt jlit (pc_workspace_uuid r)),
      (''project_uuid'', jopt jlit (pc_project_uuid r)), (''message_uuid'', jlit (pc_message_uuid r)),
      (''message_version_uuid'', jopt jlit (pc_message_version_uuid r)),
      (''text_unit_uuid'', jlit (pc_text_unit_uuid r)), (''role'', jlit (pc_role r)),
      (''turn_index'', jopt JInt (pc_turn_index r)), (''unit_index'', JInt (pc_unit_index r)),
      (''raw_start'', JInt (pc_raw_start r)), (''raw_end'', JInt (pc_raw_end r)),
      (''raw_text_hash'', jlit (d_text D (pc_unit_text r)))]"

datatype resolve_error = BadBoundary | BadContextItem

text \<open>The record's own validation refuses negative indexes and empty identifiers.\<close>

definition to_item :: "digests \<Rightarrow> context_scope \<Rightarrow> prior_record \<Rightarrow> (resolve_error, context_item) result" where
  "to_item D sc r =
     (let turn = (case pc_turn_index r of None \<Rightarrow> 0 | Some t \<Rightarrow> t);
          item = \<lparr>ci_context_item_id = lit (d_uuid5 D CONTEXT_ITEM_NAMESPACE (canonical_hash D (item_identity D sc r))),
            ci_user_uuid = (case sc_user_uuid sc of None \<Rightarrow> ''None'' | Some u \<Rightarrow> u),
            ci_session_uuid = pc_session_uuid r, ci_workspace_uuid = pc_workspace_uuid r,
            ci_project_uuid = pc_project_uuid r, ci_message_uuid = pc_message_uuid r,
            ci_message_version_uuid = pc_message_version_uuid r, ci_text_unit_uuid = pc_text_unit_uuid r,
            ci_role = pc_role r, ci_turn_index = nat turn, ci_unit_index = nat (pc_unit_index r),
            ci_raw_start = nat (pc_raw_start r), ci_raw_end = nat (pc_raw_end r), ci_text = pc_unit_text r,
            ci_raw_text_hash = d_text D (pc_unit_text r),
            ci_source_authority_ceiling = (if pc_role r = ''user'' then ''user_explicit'' else ''assistant_claim'')\<rparr>
      in if turn < 0 \<or> pc_unit_index r < 0 \<or> \<not> context_item_ok (d_text D) item then Inl BadContextItem
         else Inr item)"

definition record_key :: "prior_record \<Rightarrow> int \<times> int \<times> string \<times> string" where
  "record_key r = (case pc_turn_index r of None \<Rightarrow> 0 | Some t \<Rightarrow> t, pc_unit_index r, pc_message_uuid r, pc_text_unit_uuid r)"

text \<open>\<open>xs[-n:]\<close> for a positive \<open>n\<close>.\<close>

definition last_n :: "nat \<Rightarrow> 'a list \<Rightarrow> 'a list" where
  "last_n n xs = drop (length xs - n) xs"

definition scope_boundary :: "context_scope \<Rightarrow> bool \<Rightarrow> context_boundary" where
  "scope_boundary sc expanded =
     \<lparr>cb_user_uuid = (case sc_user_uuid sc of
          None \<Rightarrow> ''unbound-session:'' @ sc_session_uuid sc
        | Some u \<Rightarrow> (if u = [] then ''unbound-session:'' @ sc_session_uuid sc else u)),
      cb_session_uuid = sc_session_uuid sc, cb_workspace_uuid = sc_workspace_uuid sc,
      cb_project_uuid = sc_project_uuid sc, cb_baseline_limit = 2,
      cb_effective_limit = (if expanded then 6 else 2), cb_dependency_expansion = expanded\<rparr>"

definition eligible_records :: "unidb \<Rightarrow> context_scope \<Rightarrow> prior_record list \<Rightarrow> prior_record list" where
  "eligible_records U sc rs = sort_key record_key (filter (\<lambda>r. ineligible_reason U sc r = None) rs)"

definition resolve_context ::
  "digests \<Rightarrow> unidb \<Rightarrow> (context_scope \<Rightarrow> nat \<Rightarrow> prior_record list) \<Rightarrow> context_scope \<Rightarrow> text_envelope
     \<Rightarrow> (resolve_error, context_resolution) result" where
  "resolve_context D U list_prior sc env =
     (let expanded = requires_conversation_context (te_hints env);
          limit = (if expanded then 6 else 2); boundary = scope_boundary sc expanded in
      rbind (raise_if (\<not> boundary_ok boundary) BadBoundary) (\<lambda>_.
        if \<not> scope_authority_complete sc then
          Inr \<lparr>cr_scope = sc, cr_boundary = boundary, cr_items = [], cr_authority_complete = False,
               cr_exclusion_reason_codes = [''missing_or_conflicting_session_actor'']\<rparr>
        else
          (let rs = list_prior sc (max 32 (limit * 8)) in
           rbind (rmap (to_item D sc) (last_n limit (eligible_records U sc rs))) (\<lambda>items.
           Inr \<lparr>cr_scope = sc, cr_boundary = boundary, cr_items = items, cr_authority_complete = True,
                cr_exclusion_reason_codes =
                  fromkeys (List.map_filter (ineligible_reason U sc) rs)\<rparr>))))"

section \<open>What the resolver admits\<close>

lemma last_n_facts: "length (last_n n xs) = min n (length xs)" "set (last_n n xs) \<subseteq> set xs"
  by (auto simp: last_n_def dest: in_set_dropD)

lemma last_n_split: "\<exists>ys. xs = ys @ last_n n xs"
  unfolding last_n_def by (metis append_take_drop_id)

text \<open>An admitted record: the same authority, an earlier visible turn of the user or the assistant,
  quoted exactly from an immutable version, without sensitive text.\<close>

definition admissible :: "unidb \<Rightarrow> context_scope \<Rightarrow> prior_record \<Rightarrow> bool" where
  "admissible U sc r \<longleftrightarrow>
     pc_user_uuid r = sc_user_uuid sc \<and> pc_session_uuid r = sc_session_uuid sc \<and>
     pc_workspace_uuid r = sc_workspace_uuid sc \<and> pc_project_uuid r = sc_project_uuid sc \<and>
     pc_message_uuid r \<noteq> sc_message_uuid sc \<and>
     \<not> not_before sc r \<and> pc_role r \<in> {''user'', ''assistant''} \<and>
     pc_visibility r = ''visible'' \<and> \<not> pc_is_deleted r \<and> pc_redaction_status r = ''none'' \<and>
     (\<exists>v raw. pc_message_version_uuid r = Some v \<and> pc_version_raw_text r = Some raw \<and> \<not> span_stale r raw) \<and>
     classify_sensitivity U (pc_unit_text r) = NORMAL"

lemma before_iff:
  "\<not> not_before sc r \<longleftrightarrow> (\<exists>t u. pc_turn_index r = Some t \<and> sc_turn_index sc = Some u \<and> t < u)"
  by (auto simp: not_before_def split: option.split)

lemma ineligible_None: "ineligible_reason U sc r = None \<longleftrightarrow> admissible U sc r"
  unfolding ineligible_reason_def admissible_def
  by (cases "pc_message_version_uuid r"; cases "pc_version_raw_text r") auto

lemma eligible_records_facts:
  "set (eligible_records U sc rs) = {r \<in> set rs. admissible U sc r}"
  "sorted (map record_key (eligible_records U sc rs))"
  by (auto simp: eligible_records_def ineligible_None)

text \<open>The item of an admitted record.\<close>

definition item_of :: "prior_record \<Rightarrow> context_item \<Rightarrow> bool" where
  "item_of r c \<longleftrightarrow>
     ci_session_uuid c = pc_session_uuid r \<and> ci_workspace_uuid c = pc_workspace_uuid r \<and>
     ci_project_uuid c = pc_project_uuid r \<and> ci_message_uuid c = pc_message_uuid r \<and>
     ci_role c = pc_role r \<and> ci_text c = pc_unit_text r \<and>
     (int (ci_turn_index c), int (ci_unit_index c)) = (fst (record_key r), fst (snd (record_key r)))"

lemma to_item_Inr:
  assumes "to_item D sc r = Inr c"
  shows "item_of r c \<and> context_item_ok (d_text D) c \<and>
    ci_user_uuid c = (case sc_user_uuid sc of None \<Rightarrow> ''None'' | Some u \<Rightarrow> u)"
  using assms by (auto simp: to_item_def item_of_def record_key_def Let_def split: if_splits)

lemma resolve_Inr:
  assumes "resolve_context D U lp sc env = Inr cr"
  defines "limit \<equiv> (if requires_conversation_context (te_hints env) then 6 else 2)"
  shows "cr_boundary cr = scope_boundary sc (requires_conversation_context (te_hints env)) \<and>
    boundary_ok (cr_boundary cr) \<and>
    (if scope_authority_complete sc
     then list_all2 (\<lambda>r c. to_item D sc r = Inr c)
       (last_n limit (eligible_records U sc (lp sc (max 32 (limit * 8))))) (cr_items cr)
     else cr_items cr = [])"
proof (cases "scope_authority_complete sc")
  case True
  with assms show ?thesis by (auto simp: resolve_context_def Let_def rmap_eq_Inr)
next
  case False
  with assms show ?thesis by (auto simp: resolve_context_def Let_def)
qed

text \<open>
  Property C39 (context_isolated): every item that the resolver returns is the item of a record of
  the store that is admissible: the same user, session, workspace and project, an earlier turn of
  another message, visible, of the user or the assistant, quoted exactly from an immutable version
  and not sensitive.  There are at most two items, six when the text points outside itself, and no
  admissible record that was listed and left out comes after one that was taken.
\<close>

theorem context_isolated:
  assumes "resolve_context D U lp sc env = Inr cr"
  defines "limit \<equiv> (if requires_conversation_context (te_hints env) then 6 else 2)"
  shows "length (cr_items cr) \<le> limit \<and>
    (\<exists>taken. set taken \<subseteq> {r \<in> set (lp sc (max 32 (limit * 8))). admissible U sc r} \<and>
       list_all2 item_of taken (cr_items cr) \<and>
       (taken = [] \<or> (\<forall>r \<in> set (lp sc (max 32 (limit * 8))). \<forall>t \<in> set taken.
          admissible U sc r \<and> record_key t < record_key r \<longrightarrow> r \<in> set taken)))"
proof (cases "scope_authority_complete sc")
  case False
  with resolve_Inr [OF assms(1)] show ?thesis by auto
next
  case True
  define rs where "rs = eligible_records U sc (lp sc (max 32 (limit * 8)))"
  define taken where "taken = last_n limit rs"
  have rs: "set rs = {r \<in> set (lp sc (max 32 (limit * 8))). admissible U sc r}" "sorted (map record_key rs)"
    unfolding rs_def by (rule eligible_records_facts)+
  have "list_all2 (\<lambda>r c. to_item D sc r = Inr c) taken (cr_items cr)"
    using resolve_Inr [OF assms(1), folded limit_def] True by (simp add: taken_def rs_def)
  then have items: "list_all2 item_of taken (cr_items cr)"
    by (rule list.rel_mono_strong) (blast dest: to_item_Inr)
  have len: "length (cr_items cr) \<le> limit"
    using list_all2_lengthD [OF items] by (simp add: taken_def last_n_facts)
  obtain ys where ys: "rs = ys @ taken" using last_n_split [of rs limit] unfolding taken_def by blast
  have "r \<in> set taken" if "r \<in> set rs" "t \<in> set taken" "record_key t < record_key r" for r t
  proof (rule ccontr)
    assume "r \<notin> set taken"
    with that(1) have "r \<in> set ys" by (simp add: ys)
    with rs(2) that(2) have "record_key r \<le> record_key t" by (simp add: ys sorted_append)
    with that(3) show False by simp
  qed
  with len items rs(1) ys show ?thesis by (intro conjI exI [of _ taken]) auto
qed

section \<open>When the input accepts the context\<close>

definition item_order :: "context_item \<Rightarrow> nat \<times> nat" where
  "item_order c = (ci_turn_index c, ci_unit_index c)"

lemma check_context_items_iff:
  "check_context_items msg b seen prior cs = Inr () \<longleftrightarrow>
     distinct (map ci_context_item_id cs) \<and> ci_context_item_id ` set cs \<inter> set seen = {} \<and>
     sorted_wrt (\<lambda>c d. item_order c < item_order d) cs \<and>
     (\<forall>c \<in> set cs. same_authority b c \<and> ci_message_uuid c \<noteq> msg) \<and>
     (case prior of None \<Rightarrow> True | Some p \<Rightarrow> \<forall>c \<in> set cs. p < item_order c)"
proof (induction cs arbitrary: seen prior)
  case (Cons c cs)
  have "(\<forall>d \<in> set (c # cs). p < item_order d) \<longleftrightarrow> p < item_order c"
    if "\<forall>d \<in> set cs. item_order c < item_order d" for p
    using that by (auto intro: less_trans)
  then show ?case
    by (cases prior) (auto simp: Cons.IH item_order_def not_le [symmetric])
qed (auto split: option.split)

lemma record_key_order:
  assumes "list_all2 item_of rs cs" "sorted (map record_key rs)"
  shows "sorted_wrt (\<lambda>c d. item_order c \<le> item_order d) cs"
  using assms
proof (induction rs cs rule: list_all2_induct)
  case (Cons r rs c cs)
  have "item_order c \<le> item_order d" if d: "d \<in> set cs" for d
  proof -
    from list_all2_partner_left [OF Cons.hyps(2) d] obtain r' where r': "r' \<in> set rs" "item_of r' d" by blast
    with Cons.prems have "record_key r \<le> record_key r'" by simp
    then have "(fst (record_key r), fst (snd (record_key r))) \<le> (fst (record_key r'), fst (snd (record_key r')))"
      by (cases "record_key r"; cases "record_key r'") auto
    with r'(2) Cons.hyps(1) show ?thesis by (auto simp: item_of_def item_order_def)
  qed
  with Cons show ?case by simp
qed simp

lemma strict_order_iff:
  assumes "sorted_wrt (\<lambda>c d. item_order c \<le> item_order d) cs"
  shows "sorted_wrt (\<lambda>c d. item_order c < item_order d) cs \<longleftrightarrow> distinct (map item_order cs)"
  using assms by (induction cs) (auto simp: less_le)

lemma envelope_dict_hash:
  "jget (envelope_dict (build_envelope D U k raw)) ''raw_text_hash'' = jlit (d_text D raw)"
  "jget (envelope_dict (build_envelope D U k raw)) ''contract_version'' = jlit TEXT_SEMANTICS_CONTRACT_VERSION"
  by (simp_all add: envelope_dict_def build_envelope_def Let_def split: prod.split)

text \<open>
  Property C40 (resolved_context_accepted): the input of the semantic analysis, built from a
  message, its envelope and the context resolved for it, passes its own validation exactly when the
  selected items have distinct identities and no two of them share turn and unit index; every other
  check is guaranteed by the resolver.
\<close>

theorem resolved_context_accepted:
  fixes D U k lp sc
  defines "env \<equiv> build_envelope D U k (sc_raw_text sc)"
  assumes "resolve_context D U lp sc env = Inr cr" and "sc_message_uuid sc \<noteq> []"
  shows "(\<exists>i. build_semantic_input (d_text D) (sc_message_uuid sc) (sc_message_version_uuid sc)
            (sc_raw_text sc) (envelope_dict env) (cr_items cr) (cr_boundary cr) = Inr i) \<longleftrightarrow>
         distinct (map ci_context_item_id (cr_items cr)) \<and> distinct (map item_order (cr_items cr))"
proof -
  note r = resolve_Inr [OF assms(2)]
  let ?limit = "if requires_conversation_context (te_hints env) then 6 else 2"
  have b: "cr_boundary cr = scope_boundary sc (requires_conversation_context (te_hints env))"
    and ok: "boundary_ok (cr_boundary cr)" using r by blast+
  have limit: "cb_effective_limit (cr_boundary cr) = ?limit" unfolding b by (simp add: scope_boundary_def)
  have items: "length (cr_items cr) \<le> ?limit \<and> list_all (context_item_ok (d_text D)) (cr_items cr) \<and>
      (\<forall>c \<in> set (cr_items cr). same_authority (cr_boundary cr) c \<and> ci_message_uuid c \<noteq> sc_message_uuid sc) \<and>
      sorted_wrt (\<lambda>c d. item_order c \<le> item_order d) (cr_items cr)"
  proof (cases "scope_authority_complete sc")
    case True
    define rs where "rs = eligible_records U sc (lp sc (max 32 (?limit * 8)))"
    from r True have all: "list_all2 (\<lambda>r c. to_item D sc r = Inr c) (last_n ?limit rs) (cr_items cr)"
      unfolding rs_def by simp
    have of: "list_all2 item_of (last_n ?limit rs) (cr_items cr)"
      by (rule list.rel_mono_strong [OF all]) (blast dest: to_item_Inr)
    obtain ys where ys: "rs = ys @ last_n ?limit rs" using last_n_split by blast
    have "sorted (map record_key rs)" unfolding rs_def by (rule eligible_records_facts)
    then have "sorted (map record_key (last_n ?limit rs))" by (subst (asm) ys) (simp add: sorted_append)
    from record_key_order [OF of this]
    have ord: "sorted_wrt (\<lambda>c d. item_order c \<le> item_order d) (cr_items cr)" .
    have each: "context_item_ok (d_text D) c \<and> same_authority (cr_boundary cr) c \<and> ci_message_uuid c \<noteq> sc_message_uuid sc"
      if c: "c \<in> set (cr_items cr)" for c
    proof -
      from list_all2_partner_left [OF all c] obtain x where x: "x \<in> set (last_n ?limit rs)" "to_item D sc x = Inr c"
        by blast
      from x(1) have "admissible U sc x" using last_n_facts(2) [of ?limit rs] unfolding rs_def eligible_records_facts
        by auto
      moreover from True obtain u where "sc_user_uuid sc = Some u" "u \<noteq> []"
        by (auto simp: scope_authority_complete_def split: if_splits option.splits)
      ultimately show ?thesis using to_item_Inr [OF x(2)] r
        by (auto simp: admissible_def item_of_def same_authority_def scope_boundary_def)
    qed
    with ord list_all2_lengthD [OF all] show ?thesis by (auto simp: last_n_facts list_all_iff)
  qed (use r in simp)
  let ?i = "\<lparr>si_message_uuid = sc_message_uuid sc, si_message_version_uuid = sc_message_version_uuid sc,
      si_raw_text = sc_raw_text sc, si_text_envelope = envelope_dict env, si_context_items = cr_items cr,
      si_boundary = cr_boundary cr, si_contract_versions = active_versions\<rparr>"
  have "(\<exists>i. build_semantic_input (d_text D) (sc_message_uuid sc) (sc_message_version_uuid sc)
            (sc_raw_text sc) (envelope_dict env) (cr_items cr) (cr_boundary cr) = Inr i) \<longleftrightarrow>
      check_context_items (sc_message_uuid sc) (cr_boundary cr) [] None (cr_items cr) = Inr ()"
    using ok limit items assms(3)
    by (simp add: build_semantic_input_def validate_input_def manifest_integrity_def env_def envelope_dict_hash
        TEXT_SEMANTICS_CONTRACT_VERSION_def raise_if_def)
  also have "\<dots> \<longleftrightarrow> distinct (map ci_context_item_id (cr_items cr)) \<and> distinct (map item_order (cr_items cr))"
    using items strict_order_iff [of "cr_items cr"] by (simp add: check_context_items_iff)
  finally show ?thesis .
qed

section \<open>Closed instances\<close>

text \<open>A question mark is a text without tokens, so no lexicon is consulted.\<close>

definition demo_scope :: context_scope where
  "demo_scope = \<lparr>sc_message_uuid = ''m9'', sc_message_version_uuid = None, sc_session_uuid = ''s1'',
     sc_workspace_uuid = None, sc_project_uuid = None, sc_user_uuid = Some ''u1'', sc_actor_workspace_uuid = None,
     sc_role = ''user'', sc_turn_index = Some 3, sc_raw_text = lit ''!'', sc_visibility = ''visible'',
     sc_is_deleted = False, sc_redaction_status = ''none''\<rparr>"

definition demo_prior :: "string \<Rightarrow> string \<Rightarrow> prior_record" where
  "demo_prior m role = \<lparr>pc_user_uuid = Some ''u1'', pc_session_uuid = ''s1'', pc_workspace_uuid = None,
     pc_project_uuid = None, pc_message_uuid = m, pc_message_version_uuid = Some (m @ ''v1''),
     pc_version_raw_text = Some (lit ''?''), pc_role = role, pc_turn_index = Some 2, pc_visibility = ''visible'',
     pc_is_deleted = False, pc_redaction_status = ''none'', pc_text_unit_uuid = m @ ''t1'', pc_unit_index = 0,
     pc_raw_start = 0, pc_raw_end = 1, pc_unit_text = lit ''?''\<rparr>"

lemma no_tokens_no_match: "tokenize U n code = [] \<Longrightarrow> lexicon_search U lx n code = None"
proof -
  assume "tokenize U n code = []"
  then have "match_tokens U n (tokenize U n code) needle = None" for needle
    by (cases needle) (simp_all add: match_tokens_def)
  then have "foldl (\<lambda>best p. better_match best (match_tokens U n (tokenize U n code) (phrase_tokens U p))) None ps = None" for ps
    by (induction ps) (simp_all add: better_match_def)
  then show ?thesis by (simp add: lexicon_search_def find_any_phrase_def Let_def)
qed

lemma demo_normal: "classify_sensitivity demo_unidb (lit ''?'') = NORMAL"
proof -
  let ?n = "resolve_text demo_unidb (lit ''?'')"
  have t: "tokenize demo_unidb ?n True = []" and "nt_text ?n = lit ''?''" by code_simp+
  moreover have "\<not> secret_shape demo_unidb (lit ''?'') ?n" by code_simp
  moreover have "\<not> searches (EMAIL_VALUE demo_unidb) (lit ''?'')" "\<not> searches (PHONE_VALUE demo_unidb) (lit ''?'')"
    by code_simp+
  ultimately show ?thesis
    by (simp add: classify_sensitivity_def Let_def no_tokens_no_match [OF t] has_key_prefix_def t)
qed

lemma demo_admissible: "role \<in> {''user'', ''assistant''} \<Longrightarrow> m \<noteq> ''m9'' \<Longrightarrow> ineligible_reason demo_unidb demo_scope (demo_prior m role) = None"
  unfolding ineligible_None
  by (simp add: admissible_def demo_scope_def demo_prior_def not_before_def span_stale_def demo_normal slice_def)

text \<open>A digest that keeps the strings of its argument.\<close>

fun text_digest :: "json \<Rightarrow> string" where
  "text_digest (JStr s) = map char_of s"
| "text_digest (JObj d) = concat (map (\<lambda>(k, v). text_digest v) d)"
| "text_digest _ = []"

definition demo_context_digests :: digests where
  "demo_context_digests = demo_digests\<lparr>d_json := text_digest\<rparr>"

definition demo_context_envelope :: text_envelope where
  "demo_context_envelope = build_envelope demo_context_digests demo_unidb default_contract (sc_raw_text demo_scope)"

lemma demo_no_hints: "requires_conversation_context (te_hints demo_context_envelope) = False"
  by code_simp

definition demo_item :: "string \<Rightarrow> string \<Rightarrow> context_item" where
  "demo_item m role = projr (to_item demo_context_digests demo_scope (demo_prior m role))"

lemma demo_items:
  "to_item demo_context_digests demo_scope (demo_prior ''m1'' ''user'') = Inr (demo_item ''m1'' ''user'')"
  "to_item demo_context_digests demo_scope (demo_prior ''m2'' ''assistant'') = Inr (demo_item ''m2'' ''assistant'')"
  "ci_context_item_id (demo_item ''m1'' ''user'') \<noteq> ci_context_item_id (demo_item ''m2'' ''assistant'')"
  "item_order (demo_item ''m1'' ''user'') = (2, 0)" "item_order (demo_item ''m2'' ''assistant'') = (2, 0)"
  by code_simp+

lemma demo_resolution:
  assumes "rs \<in> {[demo_prior ''m1'' ''user''], [demo_prior ''m1'' ''user'', demo_prior ''m2'' ''assistant'']}"
  shows "\<exists>cr. resolve_context demo_context_digests demo_unidb (\<lambda>_ _. rs) demo_scope demo_context_envelope = Inr cr \<and>
    cr_items cr = map (\<lambda>r. demo_item (pc_message_uuid r) (pc_role r)) rs"
proof -
  have "\<forall>r \<in> set rs. ineligible_reason demo_unidb demo_scope r = None"
    using assms by (auto intro!: demo_admissible)
  then have "filter (\<lambda>r. ineligible_reason demo_unidb demo_scope r = None) rs = rs"
    by (simp add: filter_id_conv)
  then have e: "eligible_records demo_unidb demo_scope rs = rs"
    using assms by (auto simp: eligible_records_def record_key_def demo_prior_def)
  have c: "scope_authority_complete demo_scope" "boundary_ok (scope_boundary demo_scope False)" by code_simp+
  have "rmap (to_item demo_context_digests demo_scope) (last_n 2 rs) =
      Inr (map (\<lambda>r. demo_item (pc_message_uuid r) (pc_role r)) rs)"
    using assms by (auto simp: last_n_def demo_items) (simp_all add: demo_prior_def)
  then show ?thesis by (simp add: resolve_context_def Let_def demo_no_hints c e)
qed

theorem context_isolated_witness:
  "\<exists>cr. resolve_context demo_context_digests demo_unidb (\<lambda>_ _. [demo_prior ''m1'' ''user'']) demo_scope
      demo_context_envelope = Inr cr \<and> length (cr_items cr) \<le> 2"
proof -
  obtain cr where cr: "resolve_context demo_context_digests demo_unidb (\<lambda>_ _. [demo_prior ''m1'' ''user'']) demo_scope
      demo_context_envelope = Inr cr" using demo_resolution by blast
  from context_isolated [OF cr] cr show ?thesis by (auto simp: demo_no_hints)
qed

theorem resolved_context_accepted_witness:
  "\<exists>cr. resolve_context demo_context_digests demo_unidb
        (\<lambda>_ _. [demo_prior ''m1'' ''user'', demo_prior ''m2'' ''assistant'']) demo_scope demo_context_envelope = Inr cr \<and>
     length (cr_items cr) = 2 \<and>
     \<not> (\<exists>i. build_semantic_input (d_text demo_context_digests) ''m9'' None (lit ''!'')
          (envelope_dict demo_context_envelope) (cr_items cr) (cr_boundary cr) = Inr i)"
proof -
  obtain cr where cr: "resolve_context demo_context_digests demo_unidb
      (\<lambda>_ _. [demo_prior ''m1'' ''user'', demo_prior ''m2'' ''assistant'']) demo_scope demo_context_envelope = Inr cr"
    and items: "cr_items cr = map (\<lambda>r. demo_item (pc_message_uuid r) (pc_role r))
      [demo_prior ''m1'' ''user'', demo_prior ''m2'' ''assistant'']" using demo_resolution by blast
  have m: "pc_message_uuid (demo_prior m role) = m" "pc_role (demo_prior m role) = role" for m role
    by (simp_all add: demo_prior_def)
  from resolved_context_accepted [OF cr [unfolded demo_context_envelope_def]] cr items show ?thesis
    by (auto simp: m demo_items demo_scope_def demo_context_envelope_def)
qed

end
