(* ===== verification/JsonText.thy ===== *)
theory JsonText
  imports Json
begin

text \<open>
  The text that \<open>dump_ijson\<close> writes (\<open>validators/ijson.py\<close>): \<open>json.dumps\<close> with sorted keys, no
  white space and non-ASCII characters kept.  Two canonical values have one text only if they are
  equal, so that digests and stored columns identify values.  The shortest decimal of a float is
  the argument \<open>F\<close>; the theorem is about values without floats.
\<close>

section \<open>Printing\<close>

definition hex_digit :: "nat \<Rightarrow> codepoint" where
  "hex_digit d = (if d < 10 then 48 + d else 87 + d)"

definition escape :: "codepoint \<Rightarrow> ustr" where
  "escape c =
     (if c = 34 then [92, 34] else if c = 92 then [92, 92] else if c = 10 then [92, 110]
      else if c = 13 then [92, 114] else if c = 9 then [92, 116] else if c = 12 then [92, 102]
      else if c = 8 then [92, 98]
      else if c < 32 then [92, 117, 48, 48, hex_digit (c div 16), hex_digit (c mod 16)] else [c])"

definition string_text :: "ustr \<Rightarrow> ustr" where
  "string_text s = 34 # concat (map escape s) @ [34]"

fun nat_text :: "nat \<Rightarrow> ustr" where
  "nat_text n = (if n < 10 then [48 + n] else nat_text (n div 10) @ [48 + n mod 10])"

declare nat_text.simps [simp del]

definition int_text :: "int \<Rightarrow> ustr" where
  "int_text i = (if i < 0 then 45 # nat_text (nat (- i)) else nat_text (nat i))"

fun json_text :: "(int \<Rightarrow> int \<Rightarrow> ustr) \<Rightarrow> json \<Rightarrow> ustr"
  and items_text :: "(int \<Rightarrow> int \<Rightarrow> ustr) \<Rightarrow> json list \<Rightarrow> ustr"
  and members_text :: "(int \<Rightarrow> int \<Rightarrow> ustr) \<Rightarrow> (string \<times> json) list \<Rightarrow> ustr"
where
  "json_text F JNull = lit ''null''"
| "json_text F (JBool b) = (if b then lit ''true'' else lit ''false'')"
| "json_text F (JInt i) = int_text i"
| "json_text F (JFloat m e) = F m e"
| "json_text F JNonFinite = lit ''NaN''"
| "json_text F (JStr s) = string_text s"
| "json_text F (JList xs) = 91 # items_text F xs @ [93]"
| "json_text F (JObj d) = 123 # members_text F d @ [125]"
| "items_text F [] = []"
| "items_text F (x # xs) = json_text F x @ (if xs = [] then [] else 44 # items_text F xs)"
| "members_text F [] = []"
| "members_text F ((k, v) # d) =
     string_text (lit k) @ 58 # json_text F v @ (if d = [] then [] else 44 # members_text F d)"

definition dump_ijson ::
  "(ustr \<Rightarrow> bool) \<Rightarrow> (int \<Rightarrow> int \<Rightarrow> ustr) \<Rightarrow> json \<Rightarrow> (ijson_error, ustr) result" where
  "dump_ijson ts_ok F v = rbind (validate_ijson_value ts_ok v) (\<lambda>_. Inr (json_text F (canon v)))"

section \<open>Strings and integers are prefix codes\<close>

lemma hex_digit_inj: "d < 16 \<Longrightarrow> d' < 16 \<Longrightarrow> hex_digit d = hex_digit d' \<longleftrightarrow> d = d'"
  by (auto simp: hex_digit_def)

lemma escape_cases:
  obtains "escape c = [c]" "c \<noteq> 34" "c \<noteq> 92"
  | d where "escape c = [92, d]" "d \<noteq> 117"
  | "c < 32" "escape c = [92, 117, 48, 48, hex_digit (c div 16), hex_digit (c mod 16)]"
proof -
  assume a: "escape c = [c] \<Longrightarrow> c \<noteq> 34 \<Longrightarrow> c \<noteq> 92 \<Longrightarrow> thesis"
    and b: "\<And>d. escape c = [92, d] \<Longrightarrow> d \<noteq> 117 \<Longrightarrow> thesis"
    and h: "c < 32 \<Longrightarrow> escape c = [92, 117, 48, 48, hex_digit (c div 16), hex_digit (c mod 16)] \<Longrightarrow> thesis"
  show thesis
  proof (cases "c \<in> {34, 92, 10, 13, 9, 12, 8}")
    case True
    then have "\<exists>d. escape c = [92, d] \<and> d \<noteq> 117" by (auto simp: escape_def)
    with b show thesis by blast
  next
    case False
    show thesis
    proof (cases "c < 32")
      case True
      with False show thesis by (intro h) (simp_all add: escape_def)
    next
      case False
      with \<open>c \<notin> _\<close> show thesis by (intro a) (simp_all add: escape_def)
    qed
  qed
qed

lemma escape_Cons: "\<exists>x xs. escape c = x # xs \<and> x \<noteq> 34"
  by (cases c rule: escape_cases) simp_all

lemma escape_prefix: "escape c @ x = escape c' @ y \<Longrightarrow> c = c' \<and> x = y"
proof -
  assume eq: "escape c @ x = escape c' @ y"
  have low: "c = c'" if "c < 32" "c' < 32" "hex_digit (c div 16) = hex_digit (c' div 16)"
      "hex_digit (c mod 16) = hex_digit (c' mod 16)"
  proof -
    from that have "c div 16 = c' div 16" "c mod 16 = c' mod 16" by (simp_all add: hex_digit_inj)
    then show "c = c'" by (metis div_mult_mod_eq)
  qed
  have short: "escape c = [92, d] \<Longrightarrow> escape c' = [92, d] \<Longrightarrow> c = c'" for d
    by (auto simp: escape_def split: if_splits)
  show ?thesis
    by (cases c rule: escape_cases; cases c' rule: escape_cases)
      (use eq low short in \<open>auto\<close>)
qed

lemma string_text_prefix: "string_text s @ x = string_text s' @ y \<Longrightarrow> s = s' \<and> x = y"
proof -
  have "concat (map escape s) @ 34 # x = concat (map escape s') @ 34 # y \<Longrightarrow> s = s' \<and> x = y"
  proof (induction s arbitrary: s')
    case Nil
    show ?case
    proof (cases s')
      case (Cons c' t)
      obtain z zs where "escape c' = z # zs" "z \<noteq> 34" using escape_Cons by blast
      with Nil Cons show ?thesis by simp
    qed (use Nil in simp)
  next
    case (Cons c s)
    show ?case
    proof (cases s')
      case Nil
      obtain z zs where "escape c = z # zs" "z \<noteq> 34" using escape_Cons by blast
      with Nil Cons.prems show ?thesis by simp
    next
      case (Cons c' t)
      with Cons.prems have "escape c @ (concat (map escape s) @ 34 # x) = escape c' @ (concat (map escape t) @ 34 # y)"
        by simp
      from escape_prefix [OF this] Cons.IH [of t] Cons show ?thesis by simp
    qed
  qed
  then show "string_text s @ x = string_text s' @ y \<Longrightarrow> s = s' \<and> x = y" by (simp add: string_text_def)
qed

definition digit :: "codepoint \<Rightarrow> bool" where
  "digit c \<longleftrightarrow> 48 \<le> c \<and> c \<le> 57"

lemma nat_text_digits: "c \<in> set (nat_text n) \<Longrightarrow> digit c"
proof (induction n rule: nat_text.induct)
  case (1 n)
  then show ?case by (subst (asm) nat_text.simps) (auto simp: digit_def split: if_splits)
qed

lemma nat_text_nonempty: "nat_text n \<noteq> []"
  by (subst nat_text.simps) simp

definition text_value :: "ustr \<Rightarrow> nat" where
  "text_value = foldl (\<lambda>a c. 10 * a + (c - 48)) 0"

lemma text_value_nat: "text_value (nat_text n) = n"
proof (induction n rule: nat_text.induct)
  case (1 n)
  then show ?case by (subst nat_text.simps) (simp add: text_value_def)
qed

text \<open>What may follow a value: the end, a comma or a closing bracket.\<close>

definition stops :: "ustr \<Rightarrow> bool" where
  "stops r \<longleftrightarrow> (case r of [] \<Rightarrow> True | c # _ \<Rightarrow> c \<in> {44, 93, 125})"

lemma stops_simps [simp]: "stops []" "stops (44 # r)" "stops (93 # r)" "stops (125 # r)"
  by (simp_all add: stops_def)

lemma digits_prefix:
  assumes "list_all digit a" "list_all digit b" "stops r" "stops r'" "a @ r = b @ r'"
  shows "a = b \<and> r = r'"
proof -
  have "takeWhile digit (u @ s) = u" if "list_all digit u" "stops s" for u s
    using that by (cases s) (auto simp: stops_def digit_def list_all_iff takeWhile_append)
  with assms have "a = b" by metis
  with assms(5) show ?thesis by simp
qed

lemma nat_text_prefix:
  assumes "stops r" "stops r'" "nat_text n @ r = nat_text m @ r'"
  shows "n = m \<and> r = r'"
proof -
  have "list_all digit (nat_text k)" for k by (simp add: list_all_iff nat_text_digits)
  from digits_prefix [OF this this assms] have "nat_text n = nat_text m" "r = r'" by simp_all
  then show ?thesis by (metis text_value_nat)
qed

lemma nat_text_hd: "nat_text n = c # cs \<Longrightarrow> digit c"
  using nat_text_digits [of c n] by simp

lemma int_text_prefix:
  assumes "stops r" "stops r'" "int_text i @ r = int_text j @ r'"
  shows "i = j \<and> r = r'"
proof -
  have no: "nat_text n @ x \<noteq> 45 # y" for n x y
    using nat_text_hd [of n] nat_text_nonempty [of n] by (cases "nat_text n") (auto simp: digit_def)
  consider "i < 0" "j < 0" | "i < 0" "0 \<le> j" | "0 \<le> i" "j < 0" | "0 \<le> i" "0 \<le> j" by linarith
  then show ?thesis
  proof cases
    case 1
    with assms(3) have "nat_text (nat (- i)) @ r = nat_text (nat (- j)) @ r'" by (simp add: int_text_def)
    from nat_text_prefix [OF assms(1,2) this] 1 show ?thesis by linarith
  next
    case 2
    with assms(3) no [of "nat j" r', symmetric] show ?thesis by (simp add: int_text_def)
  next
    case 3
    with assms(3) no [of "nat i" r] show ?thesis by (simp add: int_text_def)
  next
    case 4
    with assms(3) have "nat_text (nat i) @ r = nat_text (nat j) @ r'" by (simp add: int_text_def)
    from nat_text_prefix [OF assms(1,2) this] 4 show ?thesis by linarith
  qed
qed

lemma int_text_hd: "int_text i = c # cs \<Longrightarrow> c = 45 \<or> digit c"
  using nat_text_hd by (auto simp: int_text_def split: if_splits)

lemma int_text_nonempty: "int_text i \<noteq> []"
  by (simp add: int_text_def nat_text_nonempty)

section \<open>Values are a prefix code\<close>

fun float_free :: "json \<Rightarrow> bool" where
  "float_free (JFloat m e) = False"
| "float_free JNonFinite = False"
| "float_free (JList xs) = list_all float_free xs"
| "float_free (JObj d) = list_all (\<lambda>(k, v). float_free v) d"
| "float_free v = True"

text \<open>The first character tells the kind of the value.\<close>

definition kind_of :: "json \<Rightarrow> nat" where
  "kind_of v = (case v of JNull \<Rightarrow> 110 | JBool b \<Rightarrow> (if b then 116 else 102) | JStr _ \<Rightarrow> 34 | JList _ \<Rightarrow> 91
     | JObj _ \<Rightarrow> 123 | _ \<Rightarrow> 0)"

definition kind_char :: "codepoint \<Rightarrow> nat" where
  "kind_char c = (if c = 45 \<or> digit c then 0 else c)"

lemma json_text_hd:
  "float_free v \<Longrightarrow> \<exists>c cs. json_text F v = c # cs \<and> kind_char c = kind_of v \<and> c \<notin> {44, 58, 93, 125}"
proof (cases v)
  case (JInt i)
  obtain c cs where c: "int_text i = c # cs" using int_text_nonempty [of i] by (cases "int_text i") auto
  from int_text_hd [OF this] JInt c show ?thesis by (auto simp: kind_char_def kind_of_def digit_def)
qed (auto simp: kind_char_def kind_of_def digit_def lit_simps string_text_def)

lemma json_text_kind:
  assumes "float_free v" "float_free v'" "json_text F v @ r = json_text F v' @ r'"
  shows "kind_of v = kind_of v'"
  using json_text_hd [OF assms(1), of F] json_text_hd [OF assms(2), of F] assms(3) by force

lemma items_text_end: "list_all float_free xs \<Longrightarrow> xs \<noteq> [] \<Longrightarrow> items_text F xs @ r \<noteq> 93 # r'"
proof (cases xs)
  case (Cons v vs)
  assume "list_all float_free xs"
  with Cons have "float_free v" by simp
  from json_text_hd [OF this, of F] Cons show ?thesis by auto
qed simp

lemma members_text_end: "d \<noteq> [] \<Longrightarrow> members_text F d @ r \<noteq> 125 # r'"
  by (cases d) (auto simp: string_text_def)

lemma json_text_prefix:
  "float_free v \<Longrightarrow> float_free v' \<Longrightarrow> stops r \<Longrightarrow> stops r' \<Longrightarrow>
     json_text F v @ r = json_text F v' @ r' \<Longrightarrow> v = v' \<and> r = r'"
  and items_text_prefix:
  "list_all float_free xs \<Longrightarrow> list_all float_free xs' \<Longrightarrow>
     items_text F xs @ 93 # r = items_text F xs' @ 93 # r' \<Longrightarrow> xs = xs' \<and> r = r'"
  and members_text_prefix:
  "list_all (\<lambda>(k, v). float_free v) d \<Longrightarrow> list_all (\<lambda>(k, v). float_free v) d' \<Longrightarrow>
     members_text F d @ 125 # r = members_text F d' @ 125 # r' \<Longrightarrow> d = d' \<and> r = r'"
proof (induction F v and F xs and F d arbitrary: v' r r' and xs' r r' and d' r r'
    rule: json_text_items_text_members_text.induct)
  case (1 F)
  from json_text_kind [OF 1(1,2,5)] 1 show ?case
    by (cases v') (auto simp: kind_of_def lit_simps split: if_splits)
next
  case (2 F b)
  from json_text_kind [OF 2(1,2,5)] 2 show ?case
    by (cases v') (auto simp: kind_of_def lit_simps split: if_splits)
next
  case (3 F i)
  from json_text_kind [OF 3(1,2,5)] 3(2) obtain j where "v' = JInt j"
    by (cases v') (auto simp: kind_of_def split: if_splits)
  with int_text_prefix [OF 3(3,4), of i j] 3(5) show ?case by simp
next
  case (4 F m e)
  then show ?case by simp
next
  case (5 F)
  then show ?case by simp
next
  case (6 F s)
  from json_text_kind [OF 6(1,2,5)] obtain t where "v' = JStr t"
    by (cases v') (auto simp: kind_of_def split: if_splits)
  with string_text_prefix [of s r t r'] 6(5) show ?case by simp
next
  case (7 F xs)
  from json_text_kind [OF 7(2,3,6)] obtain ys where "v' = JList ys"
    by (cases v') (auto simp: kind_of_def split: if_splits)
  with 7(1) [of ys r r'] 7(2,3,6) show ?case by simp
next
  case (8 F d)
  from json_text_kind [OF 8(2,3,6)] obtain e where "v' = JObj e"
    by (cases v') (auto simp: kind_of_def split: if_splits)
  with 8(1) [of e r r'] 8(2,3,6) show ?case by simp
next
  case (9 F)
  then show ?case using items_text_end [of xs' F "93 # r'" r] by (cases xs') (auto simp del: items_text.simps(2))
next
  case (10 F x xs)
  show ?case
  proof (cases xs')
    case Nil
    with 10(3-5) items_text_end [of "x # xs" F "93 # r" r'] show ?thesis by (auto simp del: items_text.simps(2))
  next
    case (Cons y ys)
    let ?rest = "\<lambda>zs q. (if zs = [] then [] else 44 # items_text F zs) @ 93 # q"
    have "stops (?rest zs q)" for zs q by simp
    moreover have "json_text F x @ ?rest xs r = json_text F y @ ?rest ys r'" using 10(5) Cons by simp
    ultimately have "x = y" and rest: "?rest xs r = ?rest ys r'" using 10(1) [of y "?rest xs r" "?rest ys r'"] 10(3,4) Cons by auto
    show ?thesis
    proof (cases "xs = [] \<or> ys = []")
      case True
      with rest have "xs = [] \<and> ys = [] \<and> r = r'" by (auto split: if_splits)
      with \<open>x = y\<close> Cons show ?thesis by simp
    next
      case False
      with rest 10(2) [of ys r r'] 10(3,4) Cons \<open>x = y\<close> show ?thesis by simp
    qed
  qed
next
  case (11 F)
  then show ?case using members_text_end [of d' F "125 # r'" r] by (cases d') (auto simp del: members_text.simps(2))
next
  case (12 F k v d)
  show ?case
  proof (cases d')
    case Nil
    with 12(5) members_text_end [of "(k, v) # d" F "125 # r" r'] show ?thesis by (auto simp del: members_text.simps(2))
  next
    case (Cons q e)
    obtain k' w where q: "q = (k', w)" by (cases q)
    let ?rest = "\<lambda>zs q. (if zs = [] then [] else 44 # members_text F zs) @ 125 # q"
    have "string_text (lit k) @ 58 # json_text F v @ ?rest d r = string_text (lit k') @ 58 # json_text F w @ ?rest e r'"
      using 12(5) Cons q by simp
    from string_text_prefix [OF this] have "k = k'" and eq: "json_text F v @ ?rest d r = json_text F w @ ?rest e r'" by simp_all
    have "stops (?rest zs q)" for zs q by simp
    with 12(1) [of w "?rest d r" "?rest e r'"] 12(3,4) Cons q eq have "v = w" and rest: "?rest d r = ?rest e r'" by auto
    show ?thesis
    proof (cases "d = [] \<or> e = []")
      case True
      with rest have "d = [] \<and> e = [] \<and> r = r'" by (auto split: if_splits)
      with \<open>v = w\<close> \<open>k = k'\<close> Cons q show ?thesis by simp
    next
      case False
      with rest 12(2) [of e r r'] 12(3,4) Cons q \<open>v = w\<close> \<open>k = k'\<close> show ?thesis by simp
    qed
  qed
qed

section \<open>Texts identify canonical values\<close>

lemma float_free_canon [simp]: "float_free (canon v) = float_free v"
proof (induction v)
  case (JList xs)
  then show ?case by (simp add: list_all_iff)
next
  case (JObj d)
  have "(k, v) \<in> set d \<Longrightarrow> float_free (canon v) = float_free v" for k v
    using JObj [of "(k, v)" v] by simp
  then show ?case by (force simp: list_all_iff)
qed simp_all

text \<open>
  Also proved (dump_ijson_identifies): two values the profile admits have the same dumped text
  exactly when they have the same canonical form, that is, when they differ at most in the order
  of the members of objects.  Hence stored text columns and the material of every digest identify
  the values they were made from.
\<close>

theorem dump_ijson_identifies:
  assumes "dump_ijson ts_ok F v = Inr t" "dump_ijson ts_ok F v' = Inr t'" "float_free v" "float_free v'"
  shows "t = t' \<longleftrightarrow> canon v = canon v'"
proof
  assume "t = t'"
  with assms(1,2) have "json_text F (canon v) @ [] = json_text F (canon v') @ []" by (auto simp: dump_ijson_def)
  from json_text_prefix [OF _ _ _ _ this] assms(3,4) show "canon v = canon v'" by simp
next
  assume "canon v = canon v'"
  with assms(1,2) show "t = t'" by (auto simp: dump_ijson_def)
qed

theorem dump_ijson_identifies_witness:
  "let d = [(''b'', JList [JInt (-12), JStr [34, 10, 1, 8217]]), (''a'', JNull)] in
     dump_ijson (\<lambda>_. True) (\<lambda>_ _. []) (JObj d)
       = Inr (lit ''{'' @ [34, 97, 34] @ lit '':null,'' @ [34, 98, 34] @ lit '':[-12,'' @ [34, 92, 34, 92, 110, 92, 117, 48, 48, 48, 49, 8217, 34] @ lit '']}'')
     \<and> canon (JObj d) = canon (JObj (rev d))"
proof -
  let ?d = "[(''b'', JList [JInt (-12), JStr [34, 10, 1, 8217]]), (''a'', JNull)]"
  let ?t = "lit ''{'' @ [34, 97, 34] @ lit '':null,'' @ [34, 98, 34] @ lit '':[-12,'' @ [34, 92, 34, 92, 110, 92, 117, 48, 48, 48, 49, 8217, 34] @ lit '']}''"
  have 1: "dump_ijson (\<lambda>_. True) (\<lambda>_ _. []) (JObj ?d) = Inr ?t" by code_simp
  have 2: "dump_ijson (\<lambda>_. True) (\<lambda>_ _. []) (JObj (rev ?d)) = Inr ?t" by code_simp
  from dump_ijson_identifies [OF 1 2] 1 show ?thesis by (simp add: Let_def)
qed

end
