(* ===== verification/CoverageRows.thy ===== *)
theory CoverageRows
  imports CoverageProperties Sensitivity JsonText
begin

text \<open>
  What a coverage plan and its candidates look like in the database: the persistence contract
  (\<open>memory_worker/semantic_coverage_persistence.py\<close>), the adapter from a proposal to a candidate
  (\<open>semantic/candidate_service.py\<close>) and the rows of the coverage tables.  A column of JSON text is
  its canonical value: by \<open>dump_ijson_identifies\<close> two texts are equal exactly when these are.
\<close>

section \<open>Candidates and evidence\<close>

datatype evidence_role = EVR_PRIMARY | EVR_CONTEXT

fun evidence_role_value :: "evidence_role \<Rightarrow> string" where
  "evidence_role_value EVR_PRIMARY = ''primary''"
| "evidence_role_value EVR_CONTEXT = ''context''"

datatype support_type = SUP_SUPPORTING | SUP_CONTRADICTING | SUP_CONTEXTUAL

fun support_type_value :: "support_type \<Rightarrow> string" where
  "support_type_value SUP_SUPPORTING = ''supporting''"
| "support_type_value SUP_CONTRADICTING = ''contradicting''"
| "support_type_value SUP_CONTEXTUAL = ''contextual''"

text \<open>Confidence and importance are counted in thousandths; \<open>double\<close> is the float they denote.\<close>

record memory_candidate =
  mc_uuid :: string
  mc_processing_run :: string
  mc_text_unit :: string
  mc_prompt_execution :: "string option"
  mc_type :: candidate_type
  mc_subject :: "string option"
  mc_predicate :: "string option"
  mc_object :: "json option"
  mc_normalized_text :: ustr
  mc_authority :: source_authority
  mc_explicitness :: explicitness
  mc_confidence :: nat
  mc_polarity :: polarity
  mc_importance :: nat
  mc_valid_from :: "string option"
  mc_valid_until :: "string option"
  mc_temporal_precision :: "string option"
  mc_status :: candidate_status
  mc_sensitivity :: sensitivity
  mc_metadata :: "json option"
  mc_rejection_reasons :: "json option"
  mc_created_at :: string

record candidate_evidence =
  ev_uuid :: string
  ev_candidate :: string
  ev_message :: string
  ev_text_unit :: string
  ev_annotation :: "string option"
  ev_route :: "string option"
  ev_text :: ustr
  ev_start :: nat
  ev_end :: nat
  ev_role :: evidence_role
  ev_support :: support_type
  ev_created_at :: string

definition evidence_ok :: "candidate_evidence \<Rightarrow> bool" where
  "evidence_ok e \<longleftrightarrow> ev_text e \<noteq> [] \<and> ev_start e < ev_end e \<and> ev_end e - ev_start e = length (ev_text e)"

text \<open>The double nearest to \<open>k\<close> thousandths, for \<open>k\<close> up to 1000: 53 bits of mantissa.\<close>

definition double :: "nat \<Rightarrow> json" where
  "double k =
     (if k = 0 then JFloat 0 0
      else let n = hd (filter (\<lambda>n. 1000 \<le> k * 2 ^ n) [0..<11])
           in JFloat (int ((k * 2 ^ (53 + n) + 1000) div 2000)) (- int (52 + n)))"

section \<open>From a proposal to a candidate\<close>

datatype coverage_error =
    PlanReplayMissing | PlanReplayDiffers | ItemSetDiffers | ItemDiffers | MissingFingerprint
  | NotDurableCoverage | LinkPayloadDiffers | ReservationMissing | NotReserved | NotLinked | LinkedCandidateMissing
  | AuthorityChanged | CandidateDiffers | EvidenceSetDiffers | EvidenceDiffers
  | CandidateUuidMismatch | NoEvidence | EvidenceMismatch | InvalidProposal | Integrity string

definition proposal_importance :: "candidate_type \<Rightarrow> nat" where
  "proposal_importance t = (case t of CT_CONSTRAINT \<Rightarrow> 850 | CT_GOAL \<Rightarrow> 840 | CT_INSTRUCTION \<Rightarrow> 820
     | CT_STYLE \<Rightarrow> 720 | CT_PREFERENCE \<Rightarrow> 700 | CT_DEFINITION \<Rightarrow> 700 | CT_FACT \<Rightarrow> 620 | CT_FEEDBACK \<Rightarrow> 550
     | _ \<Rightarrow> 600)"

definition candidate_confidence :: "source_authority \<Rightarrow> explicitness \<Rightarrow> candidate_status \<Rightarrow> nat" where
  "candidate_confidence a x st =
     (let score = 450 + (case a of SA_USER_EXPLICIT \<Rightarrow> 250 | SA_TOOL_OBSERVATION \<Rightarrow> 200
            | SA_SYSTEM_INSTRUCTION \<Rightarrow> 150 | SA_IMPORTED_RECORD \<Rightarrow> 100 | _ \<Rightarrow> 0)
            - (if a = SA_ASSISTANT_CLAIM then 200 else 0)
            + (if x = EX_EXPLICIT then 150 else 0) + 130
      in min 1000 (case st of CS_NEEDS_REVIEW \<Rightarrow> min score 650 | CS_REJECTED \<Rightarrow> min score 350 | _ \<Rightarrow> score))"

definition CANDIDATE_SERVICE_VERSION :: string where
  "CANDIDATE_SERVICE_VERSION = ''pr4d-candidate-service-v1''"

definition ROUTE_CANDIDATE_MAPPING_VERSION :: string where
  "ROUTE_CANDIDATE_MAPPING_VERSION = ''pr4d-route-candidate-mapper-v1''"

definition PROVENANCE_POLICY_VERSION :: string where
  "PROVENANCE_POLICY_VERSION = ''pr4d-provenance-policy-v1''"

definition all_candidate_types :: "candidate_type list" where
  "all_candidate_types = [CT_FACT, CT_PREFERENCE, CT_GOAL, CT_CONSTRAINT, CT_DECISION, CT_INSTRUCTION,
     CT_DEFINITION, CT_EPISODE, CT_FEEDBACK, CT_RELATIONSHIP, CT_IDENTITY, CT_STYLE, CT_UNRESOLVED_QUESTION]"

definition all_source_authorities :: "source_authority list" where
  "all_source_authorities = [SA_USER_EXPLICIT, SA_USER_IMPLIED, SA_ASSISTANT_CLAIM, SA_TOOL_OBSERVATION,
     SA_SYSTEM_INSTRUCTION, SA_IMPORTED_RECORD]"

definition all_explicitness :: "explicitness list" where
  "all_explicitness = [EX_EXPLICIT, EX_IMPLIED, EX_INFERRED]"

definition all_candidate_statuses :: "candidate_status list" where
  "all_candidate_statuses = [CS_PENDING, CS_VALIDATED, CS_REJECTED, CS_NEEDS_REVIEW, CS_READY_FOR_CONSOLIDATION]"

definition all_sensitivities :: "sensitivity list" where
  "all_sensitivities = [NORMAL, SENSITIVE, SECRET]"

definition proposal_metadata :: "candidate_proposal \<Rightarrow> json" where
  "proposal_metadata p = JObj
     [(''semantic_authority'', jlit ''semantic_candidate_analysis_v1''),
      (''semantic_unit_id'', JStr (pp_semantic_unit_id p)),
      (''semantic_unit_fingerprint'', jlit (pp_unit_fingerprint p)),
      (''epistemic_status'', jlit (pp_epistemic_status p)), (''durability'', jlit (pp_durability p)),
      (''context_lineage'', JList (pp_context_lineage p)),
      (''gate_decision_uuid'', jopt jlit (pp_gate_decision_uuid p)),
      (''route_uuid'', jopt jlit (pp_route_uuid p)), (''annotation_uuid'', jopt jlit (pp_annotation_uuid p)),
      (''prompt_execution_uuid'', jlit (pp_prompt_execution_uuid p)),
      (''candidate_service_version'', jlit CANDIDATE_SERVICE_VERSION),
      (''route_mapping_version'', jlit ROUTE_CANDIDATE_MAPPING_VERSION),
      (''provenance_policy_version'', jlit PROVENANCE_POLICY_VERSION),
      (''allows_automatic_memory_creation'', JBool (pp_automatic_creation_allowed p))]"

text \<open>\<open>fresh\<close> is the random evidence identity, \<open>now\<close> the creation time of both records.\<close>

definition build_candidate_from_proposal ::
  "string \<Rightarrow> string \<Rightarrow> candidate_proposal \<Rightarrow> string
     \<Rightarrow> (coverage_error, memory_candidate \<times> candidate_evidence) result" where
  "build_candidate_from_proposal fresh now p processing_run =
     (case (enum_parse candidate_type_value all_candidate_types (pp_candidate_type p),
            enum_parse source_authority_value all_source_authorities (pp_source_authority p),
            enum_parse explicitness_value all_explicitness (pp_explicitness p),
            enum_parse candidate_status_value all_candidate_statuses (pp_status p),
            enum_parse sensitivity_value all_sensitivities (pp_privacy_ceiling p)) of
        (Some ty, Some auth, Some ex, Some st, Some sens) \<Rightarrow>
          (let c = \<lparr>mc_uuid = pp_proposal_id p, mc_processing_run = processing_run,
                 mc_text_unit = pp_text_unit_uuid p, mc_prompt_execution = Some (pp_prompt_execution_uuid p),
                 mc_type = ty, mc_subject = Some (pp_subject_key p), mc_predicate = Some (pp_predicate p),
                 mc_object = Some (canon (JObj (pp_object_payload p))),
                 mc_normalized_text = pp_normalized_text p, mc_authority = auth, mc_explicitness = ex,
                 mc_confidence = candidate_confidence auth ex st,
                 mc_polarity = coerce_polarity (PolarityText (pp_polarity p)),
                 mc_importance = proposal_importance ty, mc_valid_from = None, mc_valid_until = None,
                 mc_temporal_precision = None, mc_status = st, mc_sensitivity = sens,
                 mc_metadata = Some (canon (proposal_metadata p)),
                 mc_rejection_reasons = Some (JList (map jlit (pp_reason_codes p))), mc_created_at = now\<rparr>;
               e = \<lparr>ev_uuid = fresh, ev_candidate = pp_proposal_id p, ev_message = pp_message_uuid p,
                 ev_text_unit = pp_text_unit_uuid p, ev_annotation = pp_annotation_uuid p,
                 ev_route = pp_route_uuid p, ev_text = pp_evidence p, ev_start = pp_raw_start p,
                 ev_end = pp_raw_end p, ev_role = EVR_PRIMARY, ev_support = SUP_SUPPORTING,
                 ev_created_at = now\<rparr>
           in rbind (raise_if (\<not> evidence_ok e) InvalidProposal) (\<lambda>_. Inr (c, e)))
      | _ \<Rightarrow> Inl InvalidProposal)"

section \<open>Identities of the persistence contract\<close>

definition COVERAGE_RUN_NAMESPACE :: string where
  "COVERAGE_RUN_NAMESPACE = ''16617151-5e87-54b0-b538-376911bb1959''"

definition EVIDENCE_NAMESPACE :: string where
  "EVIDENCE_NAMESPACE = ''478e7c02-f908-55ef-b60e-a37b8b82ae12''"

definition coverage_run_uuid :: "digests \<Rightarrow> string \<Rightarrow> string" where
  "coverage_run_uuid D coverage_hash = d_uuid5 D COVERAGE_RUN_NAMESPACE coverage_hash"

definition evidence_payload :: "candidate_evidence \<Rightarrow> json" where
  "evidence_payload e = JObj
     [(''message_uuid'', jlit (ev_message e)), (''text_unit_uuid'', jlit (ev_text_unit e)),
      (''annotation_uuid'', jopt jlit (ev_annotation e)), (''route_uuid'', jopt jlit (ev_route e)),
      (''evidence_text'', JStr (ev_text e)), (''start_char'', jnat (ev_start e)),
      (''end_char'', jnat (ev_end e)), (''evidence_role'', jlit (evidence_role_value (ev_role e))),
      (''support_type'', jlit (support_type_value (ev_support e)))]"

text \<open>A JSON column enters the hash as its text; \<open>F\<close> prints the floats inside.\<close>

definition column_text :: "(int \<Rightarrow> int \<Rightarrow> ustr) \<Rightarrow> json option \<Rightarrow> json" where
  "column_text F v = jopt (\<lambda>j. JStr (json_text F j)) v"

definition candidate_payload ::
  "(int \<Rightarrow> int \<Rightarrow> ustr) \<Rightarrow> memory_candidate \<Rightarrow> candidate_evidence list \<Rightarrow> json" where
  "candidate_payload F c es = JObj
     [(''candidate_uuid'', jlit (mc_uuid c)), (''processing_run_uuid'', jlit (mc_processing_run c)),
      (''text_unit_uuid'', jlit (mc_text_unit c)), (''prompt_execution_uuid'', jopt jlit (mc_prompt_execution c)),
      (''candidate_type'', jlit (candidate_type_value (mc_type c))), (''subject_key'', jopt jlit (mc_subject c)),
      (''predicate'', jopt jlit (mc_predicate c)), (''object_ijson'', column_text F (mc_object c)),
      (''normalized_text'', JStr (mc_normalized_text c)),
      (''source_authority'', jlit (source_authority_value (mc_authority c))),
      (''explicitness'', jlit (explicitness_value (mc_explicitness c))),
      (''confidence'', double (mc_confidence c)), (''polarity'', jlit (polarity_value (mc_polarity c))),
      (''importance'', double (mc_importance c)), (''valid_from_value'', jopt jlit (mc_valid_from c)),
      (''valid_until_value'', jopt jlit (mc_valid_until c)),
      (''temporal_precision'', jopt jlit (mc_temporal_precision c)),
      (''status'', jlit (candidate_status_value (mc_status c))),
      (''sensitivity_class'', jlit (sensitivity_value (mc_sensitivity c))),
      (''extraction_metadata_ijson'', column_text F (mc_metadata c)),
      (''rejection_reason_codes_ijson'', column_text F (mc_rejection_reasons c)),
      (''evidence'', JList (map evidence_payload es))]"

definition candidate_payload_hash ::
  "digests \<Rightarrow> (int \<Rightarrow> int \<Rightarrow> ustr) \<Rightarrow> memory_candidate \<Rightarrow> candidate_evidence list \<Rightarrow> string" where
  "candidate_payload_hash D F c es = canonical_hash D (candidate_payload F c es)"

definition deterministic_evidence :: "digests \<Rightarrow> string \<Rightarrow> candidate_evidence \<Rightarrow> candidate_evidence" where
  "deterministic_evidence D proposal_id e =
     (let identity = canonical_hash D (JObj
        [(''proposal_id'', jlit proposal_id), (''message_uuid'', jlit (ev_message e)),
         (''text_unit_uuid'', jlit (ev_text_unit e)), (''annotation_uuid'', jopt jlit (ev_annotation e)),
         (''route_uuid'', jopt jlit (ev_route e)), (''start_char'', jnat (ev_start e)),
         (''end_char'', jnat (ev_end e)), (''evidence_role'', jlit (evidence_role_value (ev_role e))),
         (''support_type'', jlit (support_type_value (ev_support e)))])
      in e\<lparr>ev_uuid := d_uuid5 D EVIDENCE_NAMESPACE identity, ev_candidate := proposal_id\<rparr>)"

definition evidence_bound :: "candidate_proposal \<Rightarrow> candidate_evidence \<Rightarrow> bool" where
  "evidence_bound p e \<longleftrightarrow> ev_message e = pp_message_uuid p \<and> ev_text_unit e = pp_text_unit_uuid p \<and>
     ev_start e = pp_raw_start p \<and> ev_end e = pp_raw_end p \<and> ev_text e = pp_evidence p"

definition validate_candidate_binding ::
  "digests \<Rightarrow> candidate_proposal \<Rightarrow> memory_candidate \<Rightarrow> candidate_evidence list
     \<Rightarrow> (coverage_error, candidate_evidence list) result" where
  "validate_candidate_binding D p c es =
     rbind (raise_if (mc_uuid c \<noteq> pp_proposal_id p) CandidateUuidMismatch) (\<lambda>_.
     rbind (raise_if (es = []) NoEvidence) (\<lambda>_.
       let det = map (deterministic_evidence D (pp_proposal_id p)) es
       in rbind (raise_if (\<not> list_all (evidence_bound p) det) EvidenceMismatch) (\<lambda>_. Inr det)))"

lemma deterministic_evidence_simps [simp]:
  "ev_candidate (deterministic_evidence D pid e) = pid"
  "ev_message (deterministic_evidence D pid e) = ev_message e"
  "ev_text_unit (deterministic_evidence D pid e) = ev_text_unit e"
  "ev_annotation (deterministic_evidence D pid e) = ev_annotation e"
  "ev_route (deterministic_evidence D pid e) = ev_route e"
  "ev_text (deterministic_evidence D pid e) = ev_text e"
  "ev_start (deterministic_evidence D pid e) = ev_start e"
  "ev_end (deterministic_evidence D pid e) = ev_end e"
  "ev_role (deterministic_evidence D pid e) = ev_role e"
  "ev_support (deterministic_evidence D pid e) = ev_support e"
  by (simp_all add: deterministic_evidence_def Let_def)

text \<open>The hash that is reserved is the hash that is checked when the candidate is created.\<close>

lemma evidence_payload_deterministic [simp]:
  "evidence_payload (deterministic_evidence D pid e) = evidence_payload e"
  by (simp add: evidence_payload_def)

lemma payload_hash_deterministic:
  "candidate_payload_hash D F c (map (deterministic_evidence D pid) es) = candidate_payload_hash D F c es"
  by (simp add: candidate_payload_hash_def candidate_payload_def comp_def)

lemma validate_candidate_binding_Inr:
  "validate_candidate_binding D p c es = Inr det \<longleftrightarrow>
     mc_uuid c = pp_proposal_id p \<and> es \<noteq> [] \<and> det = map (deterministic_evidence D (pp_proposal_id p)) es \<and>
     list_all (evidence_bound p) det"
  by (auto simp: validate_candidate_binding_def Let_def)

section \<open>Rows\<close>

record persistence_bindings =
  pb_message_version :: "string option"
  pb_envelope_version :: string
  pb_fingerprints :: "(ustr \<times> string) list"
  pb_annotations :: "(string \<times> string option) list"
  pb_mapping_version :: string
  pb_provenance_version :: string
  pb_privacy_version :: string

record authority_binding =
  ab_processing_run :: string
  ab_text_unit :: string
  ab_gate_uuid :: string
  ab_gate_decision :: string
  ab_annotation :: string
  ab_route :: string
  ab_route_type :: string
  ab_route_status :: string

record run_row =
  rr_uuid :: string
  rr_plan_version :: string
  rr_hash :: string
  rr_message :: string
  rr_message_version :: "string option"
  rr_processing_run :: string
  rr_prompt_execution :: "string option"
  rr_raw_text_hash :: string
  rr_envelope_version :: string
  rr_contract_hash :: string
  rr_mapping_version :: string
  rr_provenance_version :: string
  rr_privacy_version :: string
  rr_status :: string
  rr_plan :: json
  rr_warnings :: json
  rr_created_at :: string

record item_row =
  cr_uuid :: string
  cr_run :: string
  cr_unit :: "ustr option"
  cr_fingerprint :: "string option"
  cr_start :: nat
  cr_end :: nat
  cr_disposition :: string
  cr_gate :: "string option"
  cr_route :: "string option"
  cr_annotation :: "string option"
  cr_proposal :: "string option"
  cr_reasons :: json
  cr_created_at :: string

datatype link_state = CREATION_ATTEMPTED | CANDIDATE_LINKED

record link_row =
  lk_proposal :: string
  lk_item :: string
  lk_candidate :: "string option"
  lk_hash :: string
  lk_state :: link_state
  lk_attempted_at :: string
  lk_linked_at :: "string option"
  lk_updated_at :: string

record gate_row =
  gr_uuid :: string
  gr_text_unit :: string
  gr_processing_run :: string
  gr_decision :: string

record route_row =
  sg_uuid :: string
  sg_annotation :: string
  sg_unit :: string
  sg_type :: string
  sg_route_status :: string
  sg_priority :: int

definition plan_json :: "coverage_plan \<Rightarrow> json" where
  "plan_json plan = JObj
     [(''coverage_plan_version'', jlit (cp_version plan)), (''message_uuid'', jlit (cp_message_uuid plan)),
      (''raw_text_hash'', jlit (cp_raw_text_hash plan)), (''processing_run_uuid'', jlit (cp_processing_run_uuid plan)),
      (''semantic_prompt_execution_uuid'', jopt jlit (cp_prompt_execution_uuid plan)),
      (''semantic_contract_hash'', jlit (cp_contract_hash plan)), (''status'', jlit (cp_status plan)),
      (''items'', JList (map item_json (cp_items plan))), (''warnings'', JList (map jlit (cp_warnings plan))),
      (''coverage_hash'', jlit (cp_coverage_hash plan))]"

definition run_values :: "digests \<Rightarrow> coverage_plan \<Rightarrow> persistence_bindings \<Rightarrow> string \<Rightarrow> run_row" where
  "run_values D plan b now =
     \<lparr>rr_uuid = coverage_run_uuid D (cp_coverage_hash plan), rr_plan_version = cp_version plan,
      rr_hash = cp_coverage_hash plan, rr_message = cp_message_uuid plan,
      rr_message_version = pb_message_version b, rr_processing_run = cp_processing_run_uuid plan,
      rr_prompt_execution = cp_prompt_execution_uuid plan, rr_raw_text_hash = cp_raw_text_hash plan,
      rr_envelope_version = pb_envelope_version b, rr_contract_hash = cp_contract_hash plan,
      rr_mapping_version = pb_mapping_version b, rr_provenance_version = pb_provenance_version b,
      rr_privacy_version = pb_privacy_version b, rr_status = cp_status plan,
      rr_plan = canon (plan_json plan), rr_warnings = JList (map jlit (cp_warnings plan)), rr_created_at = now\<rparr>"

definition bound_fingerprint :: "persistence_bindings \<Rightarrow> coverage_item \<Rightarrow> string option" where
  "bound_fingerprint b i =
     (case it_semantic_unit_id i of None \<Rightarrow> None | Some u \<Rightarrow> map_of (pb_fingerprints b) u)"

definition fingerprint_missing :: "persistence_bindings \<Rightarrow> coverage_item \<Rightarrow> bool" where
  "fingerprint_missing b i \<longleftrightarrow> it_semantic_unit_id i \<noteq> None \<and> bound_fingerprint b i = None"

definition item_row_of :: "coverage_item \<Rightarrow> string \<Rightarrow> persistence_bindings \<Rightarrow> string \<Rightarrow> item_row" where
  "item_row_of i run b now =
     \<lparr>cr_uuid = it_id i, cr_run = run, cr_unit = it_semantic_unit_id i, cr_fingerprint = bound_fingerprint b i,
      cr_start = it_raw_start i, cr_end = it_raw_end i, cr_disposition = disposition_value (it_disposition i),
      cr_gate = it_gate_decision_uuid i, cr_route = it_route_uuid i,
      cr_annotation = (case map_of (pb_annotations b) (it_id i) of None \<Rightarrow> None | Some a \<Rightarrow> a),
      cr_proposal = it_proposal_id i, cr_reasons = JList (map jlit (it_reason_codes i)), cr_created_at = now\<rparr>"

definition item_values ::
  "coverage_item \<Rightarrow> string \<Rightarrow> persistence_bindings \<Rightarrow> string \<Rightarrow> (coverage_error, item_row) result" where
  "item_values i run b now =
     rbind (raise_if (fingerprint_missing b i) MissingFingerprint) (\<lambda>_. Inr (item_row_of i run b now))"

lemma item_row_of_simps [simp]:
  "cr_uuid (item_row_of i run b now) = it_id i" "cr_run (item_row_of i run b now) = run"
  "cr_disposition (item_row_of i run b now) = disposition_value (it_disposition i)"
  "cr_proposal (item_row_of i run b now) = it_proposal_id i"
  by (simp_all add: item_row_of_def)

lemma run_values_simps [simp]:
  "rr_uuid (run_values D plan b now) = coverage_run_uuid D (cp_coverage_hash plan)"
  "rr_hash (run_values D plan b now) = cp_coverage_hash plan"
  by (simp_all add: run_values_def)

end
