(* ===== verification/CoverageStore.thy ===== *)
theory CoverageStore
  imports CoverageRows
begin

text \<open>
  The two persistence layers of a coverage plan: \<open>repositories/semantic_coverage.py\<close> (SQLite) and
  \<open>memory_worker/postgres/semantic_coverage.py\<close>, over the tables with the constraints that the
  migrations 0037 and 0024 declare.  A command is one transaction: an exception rolls back, so an
  error is returned without a store.  The tables of candidates differ; the type \<open>'c\<close> is their row,
  and a \<open>dialect\<close> says how a candidate is written, compared and constrained.
\<close>

section \<open>Tables\<close>

record 'c coverage_store =
  st_parent :: "string \<Rightarrow> string \<Rightarrow> bool"     \<comment> \<open>is the key in the (other) table of that name\<close>
  st_gates :: "gate_row list"
  st_routes :: "route_row list"
  st_runs :: "run_row list"
  st_items :: "item_row list"
  st_links :: "link_row list"
  st_candidates :: "'c list"
  st_evidence :: "candidate_evidence list"

type_synonym 'c tx = "(coverage_error, 'c coverage_store) result"

definition refers :: "'c coverage_store \<Rightarrow> string \<Rightarrow> string option \<Rightarrow> bool" where
  "refers st table key = (case key of None \<Rightarrow> True | Some k \<Rightarrow> st_parent st table k)"

definition RUN_STATUSES :: "string list" where
  "RUN_STATUSES = [''complete'', ''abstain'', ''retain_raw_only'', ''needs_review'']"

definition insert_run :: "run_row \<Rightarrow> 'c coverage_store \<Rightarrow> 'c tx" where
  "insert_run r st =
     rbind (raise_if (list_ex (\<lambda>x. rr_uuid x = rr_uuid r \<or> rr_hash x = rr_hash r) (st_runs st))
       (Integrity ''unique'')) (\<lambda>_.
     rbind (raise_if (rr_status r \<notin> set RUN_STATUSES) (Integrity ''check'')) (\<lambda>_.
     rbind (raise_if (\<not> (refers st ''messages'' (Some (rr_message r)) \<and>
         refers st ''message_versions'' (rr_message_version r) \<and>
         refers st ''memory_processing_runs'' (Some (rr_processing_run r)) \<and>
         refers st ''prompt_execution_runs'' (rr_prompt_execution r))) (Integrity ''foreign_key'')) (\<lambda>_.
     Inr (st\<lparr>st_runs := st_runs st @ [r]\<rparr>))))"

definition item_clash :: "item_row \<Rightarrow> item_row \<Rightarrow> bool" where
  "item_clash r x \<longleftrightarrow> cr_uuid x = cr_uuid r \<or> (cr_proposal r \<noteq> None \<and> cr_proposal x = cr_proposal r) \<or>
     (cr_run x = cr_run r \<and> cr_unit r \<noteq> None \<and> cr_unit x = cr_unit r)"

definition item_row_ok :: "item_row \<Rightarrow> bool" where
  "item_row_ok r \<longleftrightarrow> cr_start r < cr_end r \<and>
     (cr_disposition r = ''durable_candidate'') = (cr_proposal r \<noteq> None)"

definition insert_item :: "item_row \<Rightarrow> 'c coverage_store \<Rightarrow> 'c tx" where
  "insert_item r st =
     rbind (raise_if (list_ex (item_clash r) (st_items st)) (Integrity ''unique'')) (\<lambda>_.
     rbind (raise_if (\<not> item_row_ok r) (Integrity ''check'')) (\<lambda>_.
     rbind (raise_if (\<not> (list_ex (\<lambda>x. rr_uuid x = cr_run r) (st_runs st) \<and>
         (case cr_gate r of None \<Rightarrow> True | Some g \<Rightarrow> list_ex (\<lambda>x. gr_uuid x = g) (st_gates st)) \<and>
         (case cr_route r of None \<Rightarrow> True | Some g \<Rightarrow> list_ex (\<lambda>x. sg_uuid x = g) (st_routes st)) \<and>
         refers st ''jakobson_sentence_annotations'' (cr_annotation r))) (Integrity ''foreign_key'')) (\<lambda>_.
     Inr (st\<lparr>st_items := st_items st @ [r]\<rparr>))))"

definition insert_link :: "link_row \<Rightarrow> 'c coverage_store \<Rightarrow> 'c tx" where
  "insert_link l st =
     rbind (raise_if (list_ex (\<lambda>x. lk_proposal x = lk_proposal l \<or> lk_item x = lk_item l) (st_links st))
       (Integrity ''unique'')) (\<lambda>_. Inr (st\<lparr>st_links := st_links st @ [l]\<rparr>))"

fun insert_items ::
  "coverage_item list \<Rightarrow> string \<Rightarrow> persistence_bindings \<Rightarrow> string \<Rightarrow> 'c coverage_store \<Rightarrow> 'c tx" where
  "insert_items [] run b now st = Inr st"
| "insert_items (i # is) run b now st =
     rbind (item_values i run b now) (\<lambda>r. rbind (insert_item r st) (insert_items is run b now))"

definition find_run :: "'c coverage_store \<Rightarrow> string \<Rightarrow> run_row option" where
  "find_run st u = List.find (\<lambda>r. rr_uuid r = u) (st_runs st)"

definition find_item :: "'c coverage_store \<Rightarrow> string \<Rightarrow> item_row option" where
  "find_item st u = List.find (\<lambda>r. cr_uuid r = u) (st_items st)"

definition find_link :: "'c coverage_store \<Rightarrow> string \<Rightarrow> link_row option" where
  "find_link st p = List.find (\<lambda>l. lk_proposal l = p) (st_links st)"

definition run_items :: "'c coverage_store \<Rightarrow> string \<Rightarrow> item_row list" where
  "run_items st u = filter (\<lambda>r. cr_run r = u) (st_items st)"

definition candidate_evidence_rows :: "'c coverage_store \<Rightarrow> string \<Rightarrow> candidate_evidence list" where
  "candidate_evidence_rows st u = filter (\<lambda>e. ev_candidate e = u) (st_evidence st)"

section \<open>Results\<close>

datatype target_state = TS_CREATED | TS_EXISTING | TS_RESERVED

type_synonym 'c outcome_tx = "(coverage_error, (string \<times> target_state) \<times> 'c coverage_store) result"

section \<open>Persisting a plan\<close>

text \<open>The stored items of a run, as the dictionary by identity; \<open>same\<close> compares one with the plan.\<close>

definition assert_items_replay ::
  "(item_row \<Rightarrow> coverage_item \<Rightarrow> (coverage_error, unit) result) \<Rightarrow> coverage_plan \<Rightarrow> item_row list
     \<Rightarrow> (coverage_error, unit list) result" where
  "assert_items_replay same plan rows =
     rbind (raise_if (cr_uuid ` set rows \<noteq> it_id ` set (cp_items plan)) ItemSetDiffers) (\<lambda>_.
     rmap (\<lambda>i. case index_by cr_uuid rows (it_id i) of None \<Rightarrow> Inl ItemSetDiffers | Some r \<Rightarrow> same r i)
       (cp_items plan))"

definition assert_plan_replay ::
  "digests \<Rightarrow> coverage_plan \<Rightarrow> persistence_bindings \<Rightarrow> 'c coverage_store \<Rightarrow> (coverage_error, unit list) result" where
  "assert_plan_replay D plan b st =
     (let run = coverage_run_uuid D (cp_coverage_hash plan) in
      case find_run st run of
        None \<Rightarrow> Inl PlanReplayMissing
      | Some row \<Rightarrow>
          rbind (raise_if (row \<noteq> run_values D plan b (rr_created_at row)) PlanReplayDiffers) (\<lambda>_.
            assert_items_replay (\<lambda>r i. rbind (item_values i run b (cr_created_at r))
                (\<lambda>x. raise_if (r \<noteq> x) PlanReplayDiffers))
              plan (run_items st run)))"

definition sqlite_persist_plan ::
  "digests \<Rightarrow> coverage_plan \<Rightarrow> persistence_bindings \<Rightarrow> string \<Rightarrow> 'c coverage_store \<Rightarrow> 'c outcome_tx" where
  "sqlite_persist_plan D plan b now st =
     (let run = coverage_run_uuid D (cp_coverage_hash plan) in
      case find_run st run of
        Some _ \<Rightarrow> rbind (assert_plan_replay D plan b st) (\<lambda>_. Inr ((run, TS_EXISTING), st))
      | None \<Rightarrow>
          rbind (insert_run (run_values D plan b now) st) (\<lambda>st1.
          rbind (insert_items (cp_items plan) run b now st1) (\<lambda>st2. Inr ((run, TS_CREATED), st2))))"

definition pg_run_same :: "digests \<Rightarrow> coverage_plan \<Rightarrow> persistence_bindings \<Rightarrow> run_row \<Rightarrow> bool" where
  "pg_run_same D plan b r \<longleftrightarrow>
     rr_hash r = cp_coverage_hash plan \<and> rr_message r = cp_message_uuid plan \<and>
     rr_message_version r = pb_message_version b \<and> rr_processing_run r = cp_processing_run_uuid plan \<and>
     rr_prompt_execution r = cp_prompt_execution_uuid plan \<and> rr_raw_text_hash r = cp_raw_text_hash plan \<and>
     rr_envelope_version r = pb_envelope_version b \<and> rr_contract_hash r = cp_contract_hash plan \<and>
     rr_mapping_version r = pb_mapping_version b \<and> rr_provenance_version r = pb_provenance_version b \<and>
     rr_privacy_version r = pb_privacy_version b \<and> rr_status r = cp_status plan"

definition pg_item_same :: "persistence_bindings \<Rightarrow> item_row \<Rightarrow> coverage_item \<Rightarrow> bool" where
  "pg_item_same b r i \<longleftrightarrow>
     cr_unit r = it_semantic_unit_id i \<and> cr_fingerprint r = bound_fingerprint b i \<and>
     cr_start r = it_raw_start i \<and> cr_end r = it_raw_end i \<and>
     cr_disposition r = disposition_value (it_disposition i) \<and> cr_gate r = it_gate_decision_uuid i \<and>
     cr_route r = it_route_uuid i \<and>
     cr_annotation r = (case map_of (pb_annotations b) (it_id i) of None \<Rightarrow> None | Some a \<Rightarrow> a) \<and>
     cr_proposal r = it_proposal_id i \<and> cr_reasons r = JList (map jlit (it_reason_codes i))"

definition pg_assert_plan_replay ::
  "digests \<Rightarrow> coverage_plan \<Rightarrow> persistence_bindings \<Rightarrow> 'c coverage_store \<Rightarrow> (coverage_error, unit list) result" where
  "pg_assert_plan_replay D plan b st =
     (let run = coverage_run_uuid D (cp_coverage_hash plan) in
      case find_run st run of
        None \<Rightarrow> Inl PlanReplayMissing
      | Some row \<Rightarrow>
          rbind (raise_if (\<not> pg_run_same D plan b row) PlanReplayDiffers) (\<lambda>_.
          rbind (raise_if (rr_plan row \<noteq> canon (plan_json plan)) PlanReplayDiffers) (\<lambda>_.
            assert_items_replay (\<lambda>r i. raise_if (\<not> pg_item_same b r i) ItemDiffers) plan (run_items st run))))"

text \<open>\<open>INSERT ... ON CONFLICT (coverage_run_uuid) DO NOTHING\<close>, then the items if a row went in.\<close>

definition pg_persist_plan ::
  "digests \<Rightarrow> coverage_plan \<Rightarrow> persistence_bindings \<Rightarrow> string \<Rightarrow> 'c coverage_store \<Rightarrow> 'c outcome_tx" where
  "pg_persist_plan D plan b now st =
     (let row = run_values D plan b now; run = coverage_run_uuid D (cp_coverage_hash plan) in
      if list_ex (\<lambda>x. rr_uuid x = rr_uuid row) (st_runs st)
      then rbind (pg_assert_plan_replay D plan b st) (\<lambda>_. Inr ((run, TS_EXISTING), st))
      else rbind (insert_run row st) (\<lambda>st1.
           rbind (insert_items (cp_items plan) run b now st1) (\<lambda>st2. Inr ((run, TS_CREATED), st2))))"

section \<open>Reserving a candidate\<close>

definition assert_link_row :: "link_row \<Rightarrow> string \<Rightarrow> string \<Rightarrow> (coverage_error, unit) result" where
  "assert_link_row l item payload_hash = raise_if (lk_item l \<noteq> item \<or> lk_hash l \<noteq> payload_hash) LinkPayloadDiffers"

definition new_link :: "string \<Rightarrow> string \<Rightarrow> string \<Rightarrow> string \<Rightarrow> link_row" where
  "new_link pid item payload_hash now =
     \<lparr>lk_proposal = pid, lk_item = item, lk_candidate = None, lk_hash = payload_hash,
      lk_state = CREATION_ATTEMPTED, lk_attempted_at = now, lk_linked_at = None, lk_updated_at = now\<rparr>"

definition sqlite_reserve ::
  "string \<Rightarrow> string \<Rightarrow> string \<Rightarrow> string \<Rightarrow> 'c coverage_store \<Rightarrow> 'c outcome_tx" where
  "sqlite_reserve pid item payload_hash now st =
     (case find_link st pid of
        Some l \<Rightarrow> rbind (assert_link_row l item payload_hash) (\<lambda>_. Inr ((pid, TS_EXISTING), st))
      | None \<Rightarrow>
          (case find_item st item of
             None \<Rightarrow> Inl NotDurableCoverage
           | Some i \<Rightarrow>
               rbind (raise_if (cr_disposition i \<noteq> ''durable_candidate'' \<or> cr_proposal i \<noteq> Some pid)
                 NotDurableCoverage) (\<lambda>_.
               rbind (insert_link (new_link pid item payload_hash now) st) (\<lambda>st'.
                 Inr ((pid, TS_CREATED), st')))))"

text \<open>\<open>INSERT ... SELECT ... ON CONFLICT (proposal_uuid) DO NOTHING\<close>, then the row is read back.\<close>

definition pg_reserve ::
  "string \<Rightarrow> string \<Rightarrow> string \<Rightarrow> string \<Rightarrow> 'c coverage_store \<Rightarrow> 'c outcome_tx" where
  "pg_reserve pid item payload_hash now st =
     (let selected = list_ex (\<lambda>i. cr_uuid i = item \<and> cr_disposition i = ''durable_candidate'' \<and>
            cr_proposal i = Some pid) (st_items st)
      in rbind (if selected \<and> find_link st pid = None then insert_link (new_link pid item payload_hash now) st
                else Inr st) (\<lambda>st'.
         case find_link st' pid of
           None \<Rightarrow> Inl NotDurableCoverage
         | Some l \<Rightarrow> rbind (assert_link_row l item payload_hash) (\<lambda>_.
             Inr ((pid, if lk_state l = CANDIDATE_LINKED then TS_EXISTING else TS_RESERVED), st'))))"

section \<open>Creating and linking a candidate\<close>

text \<open>The join of gate decision and route; the primary key of routes leaves at most one row.\<close>

definition authority_rows :: "'c coverage_store \<Rightarrow> authority_binding \<Rightarrow> (gate_row \<times> route_row) list" where
  "authority_rows st a =
     concat (map (\<lambda>g. map (Pair g) (filter (\<lambda>r. sg_uuid r = ab_route a \<and> sg_unit r = gr_text_unit g) (st_routes st)))
       (filter (\<lambda>g. gr_processing_run g = ab_processing_run a \<and> gr_text_unit g = ab_text_unit a) (st_gates st)))"

definition authority_stands :: "'c coverage_store \<Rightarrow> authority_binding \<Rightarrow> bool" where
  "authority_stands st a =
     (case authority_rows st a of [] \<Rightarrow> False
      | (g, r) # _ \<Rightarrow> gr_uuid g = ab_gate_uuid a \<and> gr_decision g = ab_gate_decision a \<and>
          sg_uuid r = ab_route a \<and> sg_type r = ab_route_type a \<and> sg_route_status r = ab_route_status a \<and>
          sg_annotation r = ab_annotation a)"

definition assert_candidate_authority ::
  "'c coverage_store \<Rightarrow> authority_binding option \<Rightarrow> (coverage_error, unit) result" where
  "assert_candidate_authority st a =
     (case a of None \<Rightarrow> Inr () | Some b \<Rightarrow> raise_if (\<not> authority_stands st b) AuthorityChanged)"

record 'c dialect =
  di_row :: "memory_candidate \<Rightarrow> 'c"
  di_uuid :: "'c \<Rightarrow> string"
  di_same :: "'c \<Rightarrow> memory_candidate \<Rightarrow> bool"       \<comment> \<open>the compared columns\<close>
  di_clash :: "'c \<Rightarrow> 'c \<Rightarrow> bool"                    \<comment> \<open>a unique index other than the primary key\<close>
  di_not_null :: "memory_candidate \<Rightarrow> bool"
  di_evidence_ok :: "'c coverage_store \<Rightarrow> candidate_evidence \<Rightarrow> bool"  \<comment> \<open>its own checks and foreign keys\<close>

definition insert_candidate ::
  "'c dialect \<Rightarrow> memory_candidate \<Rightarrow> 'c coverage_store \<Rightarrow> 'c tx" where
  "insert_candidate di c st =
     rbind (raise_if (\<not> di_not_null di c) (Integrity ''not_null'')) (\<lambda>_.
     rbind (raise_if (list_ex (\<lambda>x. di_uuid di x = mc_uuid c \<or> di_clash di x (di_row di c)) (st_candidates st))
       (Integrity ''unique'')) (\<lambda>_.
     rbind (raise_if (\<not> (refers st ''memory_processing_runs'' (Some (mc_processing_run c)) \<and>
         refers st ''text_units'' (Some (mc_text_unit c)))) (Integrity ''foreign_key'')) (\<lambda>_.
     Inr (st\<lparr>st_candidates := st_candidates st @ [di_row di c]\<rparr>))))"

definition insert_evidence ::
  "'c dialect \<Rightarrow> candidate_evidence \<Rightarrow> 'c coverage_store \<Rightarrow> 'c tx" where
  "insert_evidence di e st =
     rbind (raise_if (list_ex (\<lambda>x. ev_uuid x = ev_uuid e) (st_evidence st)) (Integrity ''unique'')) (\<lambda>_.
     rbind (raise_if (\<not> di_evidence_ok di st e) (Integrity ''check'')) (\<lambda>_.
     rbind (raise_if (\<not> (list_ex (\<lambda>x. di_uuid di x = ev_candidate e) (st_candidates st) \<and>
         refers st ''messages'' (Some (ev_message e)) \<and> refers st ''text_units'' (Some (ev_text_unit e))))
       (Integrity ''foreign_key'')) (\<lambda>_.
     Inr (st\<lparr>st_evidence := st_evidence st @ [e]\<rparr>))))"

fun insert_all_evidence ::
  "'c dialect \<Rightarrow> candidate_evidence list \<Rightarrow> 'c coverage_store \<Rightarrow> 'c tx" where
  "insert_all_evidence di [] st = Inr st"
| "insert_all_evidence di (e # es) st = rbind (insert_evidence di e st) (insert_all_evidence di es)"

definition evidence_same :: "candidate_evidence \<Rightarrow> candidate_evidence \<Rightarrow> bool" where
  "evidence_same s e \<longleftrightarrow> ev_candidate s = ev_candidate e \<and> ev_message s = ev_message e \<and>
     ev_text_unit s = ev_text_unit e \<and> ev_annotation s = ev_annotation e \<and> ev_route s = ev_route e \<and>
     ev_text s = ev_text e \<and> ev_start s = ev_start e \<and> ev_end s = ev_end e \<and> ev_role s = ev_role e \<and>
     ev_support s = ev_support e"

definition assert_existing_candidate ::
  "'c dialect \<Rightarrow> 'c coverage_store \<Rightarrow> 'c \<Rightarrow> memory_candidate \<Rightarrow> candidate_evidence list
     \<Rightarrow> (coverage_error, unit list) result" where
  "assert_existing_candidate di st row c es =
     (let stored = candidate_evidence_rows st (mc_uuid c) in
      rbind (raise_if (\<not> di_same di row c) CandidateDiffers) (\<lambda>_.
      rbind (raise_if (ev_uuid ` set stored \<noteq> ev_uuid ` set es) EvidenceSetDiffers) (\<lambda>_.
      rmap (\<lambda>e. raise_if (case index_by ev_uuid stored (ev_uuid e) of None \<Rightarrow> True
          | Some s \<Rightarrow> \<not> evidence_same s e) EvidenceDiffers) es)))"

definition find_candidate :: "'c dialect \<Rightarrow> 'c coverage_store \<Rightarrow> string \<Rightarrow> 'c option" where
  "find_candidate di st u = List.find (\<lambda>c. di_uuid di c = u) (st_candidates st)"

text \<open>\<open>UPDATE semantic_candidate_links\<close>.\<close>

definition link_candidate :: "string \<Rightarrow> string \<Rightarrow> 'c coverage_store \<Rightarrow> 'c coverage_store" where
  "link_candidate pid now st = st\<lparr>st_links := map (\<lambda>l. if lk_proposal l = pid
       then l\<lparr>lk_candidate := Some pid, lk_state := CANDIDATE_LINKED, lk_linked_at := Some now,
              lk_updated_at := now\<rparr> else l) (st_links st)\<rparr>"

definition create_and_link ::
  "'c dialect \<Rightarrow> digests \<Rightarrow> (int \<Rightarrow> int \<Rightarrow> ustr) \<Rightarrow> candidate_proposal \<Rightarrow> memory_candidate
     \<Rightarrow> candidate_evidence list \<Rightarrow> authority_binding option \<Rightarrow> string \<Rightarrow> 'c coverage_store \<Rightarrow> 'c outcome_tx" where
  "create_and_link di D F p c evidence_items authority now st =
     rbind (validate_candidate_binding D p c evidence_items) (\<lambda>es.
     let pid = pp_proposal_id p; payload_hash = candidate_payload_hash D F c es in
     case find_link st pid of
       None \<Rightarrow> Inl NotReserved
     | Some l \<Rightarrow>
         rbind (assert_link_row l (lk_item l) payload_hash) (\<lambda>_.
         rbind (assert_candidate_authority st authority) (\<lambda>_.
         if lk_state l = CANDIDATE_LINKED then
           (case find_candidate di st pid of
              None \<Rightarrow> Inl LinkedCandidateMissing
            | Some row \<Rightarrow> rbind (assert_existing_candidate di st row c es) (\<lambda>_. Inr ((pid, TS_EXISTING), st)))
         else
           rbind (case find_candidate di st pid of
                    None \<Rightarrow> rbind (insert_candidate di c st) (insert_all_evidence di es)
                  | Some row \<Rightarrow> rbind (assert_existing_candidate di st row c es) (\<lambda>_. Inr st)) (\<lambda>st'.
             Inr ((pid, TS_CREATED), link_candidate pid now st')))))"

section \<open>The two dialects\<close>

text \<open>SQLite keeps the whole candidate; a unique index forbids the same text twice in a text unit.\<close>

definition sqlite_dialect :: "memory_candidate dialect" where
  "sqlite_dialect =
     \<lparr>di_row = (\<lambda>c. c), di_uuid = mc_uuid, di_same = (\<lambda>r c. r = c\<lparr>mc_created_at := mc_created_at r\<rparr>),
      di_clash = (\<lambda>x r. mc_processing_run x = mc_processing_run r \<and> mc_text_unit x = mc_text_unit r \<and>
        mc_type x = mc_type r \<and> mc_normalized_text x = mc_normalized_text r),
      di_not_null = (\<lambda>_. True), di_evidence_ok = (\<lambda>_ _. True)\<rparr>"

record pg_candidate =
  pc_uuid :: string
  pc_processing_run :: string
  pc_text_unit :: string
  pc_type :: string
  pc_subject :: "string option"
  pc_predicate :: "string option"
  pc_object :: json
  pc_normalized_text :: ustr
  pc_authority :: string
  pc_explicitness :: string
  pc_confidence :: nat
  pc_importance :: nat
  pc_sensitivity :: string
  pc_status :: string
  pc_rejection_reason :: "json option"
  pc_metadata :: json
  pc_created_at :: string
  pc_prompt_execution :: "string option"
  pc_polarity :: string

definition or_object :: "json option \<Rightarrow> json" where
  "or_object v = (case v of None \<Rightarrow> JObj [] | Some j \<Rightarrow> j)"

definition pg_candidate_status :: "candidate_status \<Rightarrow> string" where
  "pg_candidate_status st = (case st of CS_NEEDS_REVIEW \<Rightarrow> ''needs_review'' | CS_REJECTED \<Rightarrow> ''rejected''
     | _ \<Rightarrow> ''accepted'')"

definition pg_candidate_values :: "memory_candidate \<Rightarrow> pg_candidate" where
  "pg_candidate_values c =
     \<lparr>pc_uuid = mc_uuid c, pc_processing_run = mc_processing_run c, pc_text_unit = mc_text_unit c,
      pc_type = candidate_type_value (mc_type c), pc_subject = mc_subject c, pc_predicate = mc_predicate c,
      pc_object = or_object (mc_object c), pc_normalized_text = mc_normalized_text c,
      pc_authority = source_authority_value (mc_authority c),
      pc_explicitness = explicitness_value (mc_explicitness c), pc_confidence = mc_confidence c,
      pc_importance = mc_importance c, pc_sensitivity = sensitivity_value (mc_sensitivity c),
      pc_status = pg_candidate_status (mc_status c), pc_rejection_reason = mc_rejection_reasons c,
      pc_metadata = or_object (mc_metadata c), pc_created_at = mc_created_at c,
      pc_prompt_execution = mc_prompt_execution c, pc_polarity = polarity_value (mc_polarity c)\<rparr>"

definition pg_dialect :: "pg_candidate dialect" where
  "pg_dialect =
     \<lparr>di_row = pg_candidate_values, di_uuid = pc_uuid,
      di_same = (\<lambda>r c. r = (pg_candidate_values c)\<lparr>pc_created_at := pc_created_at r\<rparr>),
      di_clash = (\<lambda>_ _. False), di_not_null = (\<lambda>c. mc_subject c \<noteq> None \<and> mc_predicate c \<noteq> None),
      di_evidence_ok = (\<lambda>st e. ev_role e = EVR_PRIMARY \<and> ev_support e \<in> {SUP_SUPPORTING, SUP_CONTRADICTING} \<and>
        refers st ''jakobson_sentence_annotations'' (ev_annotation e) \<and>
        (case ev_route e of None \<Rightarrow> True | Some r \<Rightarrow> list_ex (\<lambda>x. sg_uuid x = r) (st_routes st)))\<rparr>"

section \<open>Commands\<close>

datatype coverage_command =
    PersistPlan coverage_plan persistence_bindings
  | ReserveCandidate string string string
  | CreateAndLink candidate_proposal memory_candidate "candidate_evidence list" "authority_binding option"

fun sqlite_exec ::
  "digests \<Rightarrow> (int \<Rightarrow> int \<Rightarrow> ustr) \<Rightarrow> coverage_command \<Rightarrow> string \<Rightarrow> memory_candidate coverage_store
     \<Rightarrow> memory_candidate outcome_tx" where
  "sqlite_exec D F (PersistPlan plan b) now st = sqlite_persist_plan D plan b now st"
| "sqlite_exec D F (ReserveCandidate pid item h) now st = sqlite_reserve pid item h now st"
| "sqlite_exec D F (CreateAndLink p c es a) now st = create_and_link sqlite_dialect D F p c es a now st"

fun pg_exec ::
  "digests \<Rightarrow> (int \<Rightarrow> int \<Rightarrow> ustr) \<Rightarrow> coverage_command \<Rightarrow> string \<Rightarrow> pg_candidate coverage_store
     \<Rightarrow> pg_candidate outcome_tx" where
  "pg_exec D F (PersistPlan plan b) now st = pg_persist_plan D plan b now st"
| "pg_exec D F (ReserveCandidate pid item h) now st = pg_reserve pid item h now st"
| "pg_exec D F (CreateAndLink p c es a) now st = create_and_link pg_dialect D F p c es a now st"

text \<open>\<open>validate_idempotent_replay\<close>, which the writer calls when it already has a recorded result.\<close>

fun validate_idempotent_replay ::
  "digests \<Rightarrow> (int \<Rightarrow> int \<Rightarrow> ustr) \<Rightarrow> coverage_command \<Rightarrow> memory_candidate coverage_store
     \<Rightarrow> (coverage_error, unit list) result" where
  "validate_idempotent_replay D F (PersistPlan plan b) st = assert_plan_replay D plan b st"
| "validate_idempotent_replay D F (ReserveCandidate pid item h) st =
     (case find_link st pid of None \<Rightarrow> Inl ReservationMissing
      | Some l \<Rightarrow> rbind (assert_link_row l item h) (\<lambda>_. Inr []))"
| "validate_idempotent_replay D F (CreateAndLink p c evidence_items a) st =
     rbind (validate_candidate_binding D p c evidence_items) (\<lambda>es.
       case find_link st (pp_proposal_id p) of
         None \<Rightarrow> Inl NotLinked
       | Some l \<Rightarrow>
           rbind (raise_if (lk_state l \<noteq> CANDIDATE_LINKED) NotLinked) (\<lambda>_.
           rbind (assert_link_row l (lk_item l) (candidate_payload_hash D F c es)) (\<lambda>_.
           case find_candidate sqlite_dialect st (pp_proposal_id p) of
             None \<Rightarrow> Inl LinkedCandidateMissing
           | Some row \<Rightarrow> assert_existing_candidate sqlite_dialect st row c es)))"

text \<open>The two calls of the runtime adapters: reserve in one transaction, create and link in the next.\<close>

definition candidate_commands ::
  "digests \<Rightarrow> (int \<Rightarrow> int \<Rightarrow> ustr) \<Rightarrow> candidate_proposal \<Rightarrow> string \<Rightarrow> memory_candidate \<Rightarrow> candidate_evidence
     \<Rightarrow> authority_binding option \<Rightarrow> coverage_command list" where
  "candidate_commands D F p item c e a =
     [ReserveCandidate (pp_proposal_id p) item (candidate_payload_hash D F c [e]), CreateAndLink p c [e] a]"

end
