(* ===== verification/CoverageReplay.thy ===== *)
theory CoverageReplay
  imports CoverageStore
begin

text \<open>
  Crashes and retries of coverage persistence.  The locale \<open>replayable\<close> is the contract a worker
  relies on: a command that succeeded once succeeds again in every later store and changes
  nothing.  It is interpreted on both persistence layers; the invariant of the tables that makes
  it true is also the audit statement: every candidate is the linked, reserved, durable item of a
  stored plan, with the payload that was reserved.
\<close>

section \<open>The contract\<close>

text \<open>A worker's list of commands, each with the time it runs at; the first error ends it.\<close>

fun run_commands ::
  "('c \<Rightarrow> 't \<Rightarrow> 's \<Rightarrow> ('e, 'r \<times> 's) result) \<Rightarrow> ('c \<times> 't) list \<Rightarrow> 's \<Rightarrow> ('e, 's) result" where
  "run_commands exec [] s = Inr s"
| "run_commands exec ((c, t) # cs) s = rbind (exec c t s) (\<lambda>(r, s'). run_commands exec cs s')"

lemma run_commands_append: "run_commands exec (cs @ cs') s = rbind (run_commands exec cs s) (run_commands exec cs')"
  by (induction exec cs s rule: run_commands.induct) (auto simp: rbind_def split: sum.splits)

locale replayable =
  fixes exec :: "'c \<Rightarrow> 't \<Rightarrow> 's \<Rightarrow> ('e, 'r \<times> 's) result"
    and inv :: "'s \<Rightarrow> bool"
    and grows :: "'s \<Rightarrow> 's \<Rightarrow> bool"
  assumes grows_refl: "grows s s"
    and grows_trans: "grows s s' \<Longrightarrow> grows s' s'' \<Longrightarrow> grows s s''"
    and exec_inv: "inv s \<Longrightarrow> exec c t s = Inr (r, s') \<Longrightarrow> inv s'"
    and exec_grows: "inv s \<Longrightarrow> exec c t s = Inr (r, s') \<Longrightarrow> grows s s'"
    and replay: "inv s \<Longrightarrow> exec c t s = Inr (r, s') \<Longrightarrow> grows s' s'' \<Longrightarrow> \<exists>r'. exec c t' s'' = Inr (r', s'')"
begin

lemma run_all_grows: "inv s \<Longrightarrow> run_commands exec cs s = Inr s' \<Longrightarrow> inv s' \<and> grows s s'"
proof (induction cs arbitrary: s)
  case Nil
  then show ?case by (simp add: grows_refl)
next
  case (Cons p cs)
  obtain c t where p: "p = (c, t)" by (cases p)
  from Cons.prems(2) p obtain r s1 where e: "exec c t s = Inr (r, s1)" and rest: "run_commands exec cs s1 = Inr s'" by auto
  note step = exec_inv [OF Cons.prems(1) e] exec_grows [OF Cons.prems(1) e]
  from Cons.IH [OF step(1) rest] step(2) grows_trans show ?case by blast
qed

lemma run_all_replay:
  assumes "inv s" "run_commands exec cs s = Inr s1" "grows s1 s2" "map fst cs' = map fst cs"
  shows "run_commands exec cs' s2 = Inr s2"
  using assms
proof (induction cs arbitrary: s cs')
  case (Cons p cs)
  obtain c t where p: "p = (c, t)" by (cases p)
  from Cons.prems(2) p obtain r s0 where e: "exec c t s = Inr (r, s0)" and rest: "run_commands exec cs s0 = Inr s1" by auto
  from Cons.prems(4) p obtain t' ds where cs': "cs' = (c, t') # ds" and ds: "map fst ds = map fst cs"
    by (cases cs') auto
  note i = exec_inv [OF Cons.prems(1) e]
  from run_all_grows [OF i rest] have "grows s0 s1" by simp
  from replay [OF Cons.prems(1) e grows_trans [OF this Cons.prems(3)]]
  obtain r' where r': "exec c t' s2 = Inr (r', s2)" by blast
  from Cons.IH [OF i rest Cons.prems(3) ds] r' cs' show ?case by simp
qed simp

text \<open>Starting over after a crash is going on where the crash was.\<close>

lemma resume:
  assumes "inv s" "run_commands exec cs s = Inr s1" "grows s1 s2" "map fst cs' = map fst cs"
  shows "run_commands exec (cs' @ rest) s2 = run_commands exec rest s2"
  by (simp add: run_commands_append run_all_replay [OF assms])

end

section \<open>How a store grows\<close>

definition link_le :: "link_row \<Rightarrow> link_row \<Rightarrow> bool" where
  "link_le l l' \<longleftrightarrow> lk_proposal l' = lk_proposal l \<and> lk_item l' = lk_item l \<and> lk_hash l' = lk_hash l \<and>
     (lk_state l = CANDIDATE_LINKED \<longrightarrow> l' = l)"

lemma link_le_refl [simp]: "link_le l l"
  by (simp add: link_le_def)

lemma link_le_trans: "link_le l l' \<Longrightarrow> link_le l' l'' \<Longrightarrow> link_le l l''"
  by (auto simp: link_le_def)

definition links_grow :: "link_row list \<Rightarrow> link_row list \<Rightarrow> bool" where
  "links_grow ls ls' \<longleftrightarrow> (\<exists>old new. ls' = old @ new \<and> list_all2 link_le ls old)"

definition appended :: "('a \<Rightarrow> bool) \<Rightarrow> 'a list \<Rightarrow> 'a list \<Rightarrow> bool" where
  "appended P xs xs' \<longleftrightarrow> (\<exists>new. xs' = xs @ new \<and> list_all P new)"

text \<open>
  Runs and their items, candidates and their evidence are only appended; a link keeps its item and
  payload; gate decisions and routes of other workers are added under the unique keys of their
  tables.
\<close>

definition gate_key :: "gate_row \<Rightarrow> string \<times> string" where
  "gate_key g = (gr_text_unit g, gr_processing_run g)"

definition store_grows :: "'c dialect \<Rightarrow> 'c coverage_store \<Rightarrow> 'c coverage_store \<Rightarrow> bool" where
  "store_grows di st st' \<longleftrightarrow>
     appended (\<lambda>g. gate_key g \<notin> gate_key ` set (st_gates st)) (st_gates st) (st_gates st') \<and>
     appended (\<lambda>r. sg_uuid r \<notin> sg_uuid ` set (st_routes st)) (st_routes st) (st_routes st') \<and>
     appended (\<lambda>_. True) (st_runs st) (st_runs st') \<and>
     appended (\<lambda>i. cr_run i \<notin> rr_uuid ` set (st_runs st)) (st_items st) (st_items st') \<and>
     links_grow (st_links st) (st_links st') \<and>
     appended (\<lambda>_. True) (st_candidates st) (st_candidates st') \<and>
     appended (\<lambda>e. ev_candidate e \<notin> di_uuid di ` set (st_candidates st)) (st_evidence st) (st_evidence st')"

lemma appended_refl [simp]: "appended P xs xs"
  by (simp add: appended_def)

lemma appended_trans:
  "appended P xs ys \<Longrightarrow> appended Q ys zs \<Longrightarrow> (\<And>z. Q z \<Longrightarrow> P z) \<Longrightarrow> appended P xs zs"
  by (fastforce simp: appended_def list_all_iff)

lemma appended_fresh_trans:
  "appended (\<lambda>z. f z \<notin> S) xs ys \<Longrightarrow> appended (\<lambda>z. f z \<notin> T) ys zs \<Longrightarrow> S \<subseteq> T \<Longrightarrow> appended (\<lambda>z. f z \<notin> S) xs zs"
  by (erule appended_trans, assumption) blast

lemma appended_any_trans:
  "appended (\<lambda>_. True) xs ys \<Longrightarrow> appended (\<lambda>_. True) ys zs \<Longrightarrow> appended (\<lambda>_. True) xs zs"
  by (erule appended_trans, assumption) blast

lemma appended_image: "appended P xs ys \<Longrightarrow> f ` set xs \<subseteq> f ` set ys"
  by (auto simp: appended_def)

lemma appended_subset: "appended P xs ys \<Longrightarrow> set xs \<subseteq> set ys"
  by (auto simp: appended_def)

lemma links_grow_refl [simp]: "links_grow ls ls"
proof -
  have "list_all2 link_le ls ls" by (rule list_all2_refl) simp
  then show ?thesis by (auto simp: links_grow_def)
qed

lemma links_grow_trans:
  assumes "links_grow xs ys" "links_grow ys zs"
  shows "links_grow xs zs"
proof -
  from assms(1) obtain old new where 1: "ys = old @ new" "list_all2 link_le xs old" by (auto simp: links_grow_def)
  from assms(2) 1 obtain p q where 2: "zs = p @ q" "list_all2 link_le (old @ new) p" by (auto simp: links_grow_def)
  from 2(2) obtain p1 p2 where 3: "p = p1 @ p2" "list_all2 link_le old p1" by (auto simp: list_all2_append1)
  have "list_all2 link_le xs p1" by (rule list_all2_trans [OF link_le_trans 1(2) 3(2)])
  with 2(1) 3(1) show ?thesis by (auto simp: links_grow_def)
qed

lemma links_grow_map: "list_all2 link_le ls ls' \<Longrightarrow> links_grow ls ls'"
  by (auto simp: links_grow_def)

lemma links_grow_append [simp]: "links_grow ls (ls @ new)"
proof -
  have "list_all2 link_le ls ls" by (rule list_all2_refl) simp
  then show ?thesis by (auto simp: links_grow_def)
qed

lemma store_grows_refl [simp]: "store_grows di st st"
  by (simp add: store_grows_def)

lemma store_grows_trans:
  assumes "store_grows di a b" "store_grows di b c"
  shows "store_grows di a c"
proof -
  note a = assms(1) [unfolded store_grows_def] and b = assms(2) [unfolded store_grows_def]
  from a have runs: "rr_uuid ` set (st_runs a) \<subseteq> rr_uuid ` set (st_runs b)"
    and gates: "gate_key ` set (st_gates a) \<subseteq> gate_key ` set (st_gates b)"
    and routes: "sg_uuid ` set (st_routes a) \<subseteq> sg_uuid ` set (st_routes b)"
    and cands: "di_uuid di ` set (st_candidates a) \<subseteq> di_uuid di ` set (st_candidates b)"
    by (blast intro!: appended_image)+
  show ?thesis
    unfolding store_grows_def
  proof (intro conjI)
    show "appended (\<lambda>g. gate_key g \<notin> gate_key ` set (st_gates a)) (st_gates a) (st_gates c)"
      using a b gates by (blast intro: appended_fresh_trans)
    show "appended (\<lambda>r. sg_uuid r \<notin> sg_uuid ` set (st_routes a)) (st_routes a) (st_routes c)"
      using a b routes by (blast intro: appended_fresh_trans)
    show "appended (\<lambda>_. True) (st_runs a) (st_runs c)" using a b by (blast intro: appended_any_trans)
    show "appended (\<lambda>i. cr_run i \<notin> rr_uuid ` set (st_runs a)) (st_items a) (st_items c)"
      using a b runs by (blast intro: appended_fresh_trans)
    show "links_grow (st_links a) (st_links c)" using a b by (blast intro: links_grow_trans)
    show "appended (\<lambda>_. True) (st_candidates a) (st_candidates c)" using a b by (blast intro: appended_any_trans)
    show "appended (\<lambda>e. ev_candidate e \<notin> di_uuid di ` set (st_candidates a)) (st_evidence a) (st_evidence c)"
      using a b cands by (blast intro: appended_fresh_trans)
  qed
qed

lemma find_appended: "List.find P xs = Some x \<Longrightarrow> appended Q xs ys \<Longrightarrow> List.find P ys = Some x"
proof -
  have "List.find P xs = Some x \<Longrightarrow> List.find P (xs @ new) = Some x" for new
    by (induction xs) (auto split: if_splits)
  then show "List.find P xs = Some x \<Longrightarrow> appended Q xs ys \<Longrightarrow> List.find P ys = Some x"
    by (auto simp: appended_def)
qed

lemma find_link_grows:
  assumes "find_link st p = Some l" "store_grows di st st'"
  shows "\<exists>l'. find_link st' p = Some l' \<and> link_le l l'"
proof -
  have "List.find (\<lambda>l. lk_proposal l = p) xs = Some l \<Longrightarrow> list_all2 link_le xs old \<Longrightarrow>
     \<exists>l'. List.find (\<lambda>l. lk_proposal l = p) (old @ new) = Some l' \<and> link_le l l'" for xs old new
    by (induction xs arbitrary: old) (auto simp: list_all2_Cons1 link_le_def split: if_splits)
  moreover from assms(2) obtain old new where "st_links st' = old @ new" "list_all2 link_le (st_links st) old"
    by (auto simp: store_grows_def links_grow_def)
  ultimately show ?thesis using assms(1) by (simp add: find_link_def)
qed

lemma filter_appended:
  assumes "appended Q xs ys" "\<And>y. Q y \<Longrightarrow> \<not> P y"
  shows "filter P ys = filter P xs"
proof -
  from assms(1) obtain new where new: "ys = xs @ new" "list_all Q new" by (auto simp: appended_def)
  with assms(2) have "filter P new = []" by (auto simp: filter_empty_conv list_all_iff)
  with new(1) show ?thesis by simp
qed

lemma run_items_grow:
  assumes "store_grows di st st'" "u \<in> rr_uuid ` set (st_runs st)"
  shows "run_items st' u = run_items st u"
  unfolding run_items_def
  by (rule filter_appended [where Q = "\<lambda>i. cr_run i \<notin> rr_uuid ` set (st_runs st)"])
    (use assms in \<open>auto simp: store_grows_def\<close>)

lemma evidence_rows_grow:
  assumes "store_grows di st st'" "u \<in> di_uuid di ` set (st_candidates st)"
  shows "candidate_evidence_rows st' u = candidate_evidence_rows st u"
  unfolding candidate_evidence_rows_def
  by (rule filter_appended [where Q = "\<lambda>e. ev_candidate e \<notin> di_uuid di ` set (st_candidates st)"])
    (use assms in \<open>auto simp: store_grows_def\<close>)

text \<open>An authority that stood still stands.\<close>

lemma authority_grows:
  assumes "authority_stands st a" "store_grows di st st'"
  shows "authority_stands st' a"
proof -
  let ?G = "\<lambda>g. gr_processing_run g = ab_processing_run a \<and> gr_text_unit g = ab_text_unit a"
  let ?R = "\<lambda>g r. sg_uuid r = ab_route a \<and> sg_unit r = gr_text_unit g"
  from assms(1) have "authority_rows st a \<noteq> []" by (auto simp: authority_stands_def split: list.splits)
  then obtain g r where g: "g \<in> set (st_gates st)" "?G g" and r: "r \<in> set (st_routes st)" "?R g r"
    by (auto simp: authority_rows_def filter_empty_conv)
  have "(ab_text_unit a, ab_processing_run a) \<in> gate_key ` set (st_gates st)"
    using g by (force simp: gate_key_def)
  then have "filter ?G (st_gates st') = filter ?G (st_gates st)"
    by (intro filter_appended [where Q = "\<lambda>g. gate_key g \<notin> gate_key ` set (st_gates st)"])
      (use assms(2) in \<open>auto simp: store_grows_def gate_key_def\<close>)
  moreover have "ab_route a \<in> sg_uuid ` set (st_routes st)" using r by force
  then have "filter (?R h) (st_routes st') = filter (?R h) (st_routes st)" for h :: gate_row
    by (intro filter_appended [where Q = "\<lambda>r. sg_uuid r \<notin> sg_uuid ` set (st_routes st)"])
      (use assms(2) in \<open>auto simp: store_grows_def\<close>)
  then have "(\<lambda>h :: gate_row. map (Pair h) (filter (?R h) (st_routes st'))) = (\<lambda>h. map (Pair h) (filter (?R h) (st_routes st)))" by simp
  ultimately have "authority_rows st' a = authority_rows st a" by (simp only: authority_rows_def)
  with assms(1) show ?thesis by (simp add: authority_stands_def)
qed

section \<open>The invariant of the tables\<close>

definition link_ok :: "'c dialect \<Rightarrow> digests \<Rightarrow> (int \<Rightarrow> int \<Rightarrow> ustr) \<Rightarrow> 'c coverage_store \<Rightarrow> link_row \<Rightarrow> bool" where
  "link_ok di D F st l \<longleftrightarrow>
     (\<exists>i \<in> set (st_items st). cr_uuid i = lk_item l \<and> cr_disposition i = ''durable_candidate'' \<and>
        cr_proposal i = Some (lk_proposal l)) \<and>
     (lk_state l = CREATION_ATTEMPTED \<longrightarrow> lk_candidate l = None) \<and>
     (lk_state l = CANDIDATE_LINKED \<longrightarrow> lk_candidate l = Some (lk_proposal l) \<and>
        (\<exists>c. mc_uuid c = lk_proposal l \<and> di_row di c \<in> set (st_candidates st) \<and>
           candidate_evidence_rows st (lk_proposal l) \<noteq> [] \<and>
           lk_hash l = candidate_payload_hash D F c (candidate_evidence_rows st (lk_proposal l))))"

definition store_inv :: "'c dialect \<Rightarrow> digests \<Rightarrow> (int \<Rightarrow> int \<Rightarrow> ustr) \<Rightarrow> 'c coverage_store \<Rightarrow> bool" where
  "store_inv di D F st \<longleftrightarrow>
     distinct (map rr_uuid (st_runs st)) \<and>
     cr_run ` set (st_items st) \<subseteq> rr_uuid ` set (st_runs st) \<and> distinct (map cr_uuid (st_items st)) \<and>
     list_all item_row_ok (st_items st) \<and>
     distinct (map lk_proposal (st_links st)) \<and> list_all (link_ok di D F st) (st_links st) \<and>
     distinct (map (di_uuid di) (st_candidates st)) \<and>
     (\<forall>c \<in> set (st_candidates st). \<exists>l \<in> set (st_links st). lk_proposal l = di_uuid di c \<and> lk_state l = CANDIDATE_LINKED) \<and>
     distinct (map ev_uuid (st_evidence st)) \<and>
     ev_candidate ` set (st_evidence st) \<subseteq> di_uuid di ` set (st_candidates st)"

definition empty_tables :: "'c coverage_store \<Rightarrow> bool" where
  "empty_tables st \<longleftrightarrow> st_runs st = [] \<and> st_items st = [] \<and> st_links st = [] \<and> st_candidates st = [] \<and>
     st_evidence st = []"

lemma empty_inv: "empty_tables st \<Longrightarrow> store_inv di D F st"
  by (simp add: store_inv_def empty_tables_def)

section \<open>What the inserts do\<close>

lemma insert_run_Inr:
  "insert_run r st = Inr st' \<Longrightarrow> st' = st\<lparr>st_runs := st_runs st @ [r]\<rparr> \<and> rr_uuid r \<notin> rr_uuid ` set (st_runs st)"
  by (auto simp: insert_run_def list_ex_iff)

lemma insert_items_Inr:
  assumes "insert_items is run b now st = Inr st'"
  shows "st' = st\<lparr>st_items := st_items st @ map (\<lambda>i. item_row_of i run b now) is\<rparr> \<and>
     (distinct (map cr_uuid (st_items st)) \<longrightarrow> distinct (map cr_uuid (st_items st'))) \<and>
     (list_all item_row_ok (st_items st) \<longrightarrow> list_all item_row_ok (st_items st')) \<and>
     list_all (\<lambda>i. \<not> fingerprint_missing b i) is"
  using assms
proof (induction "is" arbitrary: st)
  case (Cons i "is")
  from Cons.prems obtain r st1 where r: "item_values i run b now = Inr r" "insert_item r st = Inr st1"
    and rest: "insert_items is run b now st1 = Inr st'" by auto
  from r(1) have row: "r = item_row_of i run b now" "\<not> fingerprint_missing b i" by (auto simp: item_values_def)
  from r(2) have st1: "st1 = st\<lparr>st_items := st_items st @ [r]\<rparr>" "item_row_ok r"
    and new: "cr_uuid r \<notin> cr_uuid ` set (st_items st)"
    by (auto simp: insert_item_def list_ex_iff item_clash_def)
  have dist: "distinct (map cr_uuid (st_items st)) \<Longrightarrow> distinct (map cr_uuid (st_items st1))"
    and ok: "list_all item_row_ok (st_items st) \<Longrightarrow> list_all item_row_ok (st_items st1)" using st1 new by simp_all
  note ih = Cons.IH [OF rest]
  from ih st1 row have "st' = st\<lparr>st_items := st_items st @ map (\<lambda>i. item_row_of i run b now) (i # is)\<rparr>" by simp
  moreover have "distinct (map cr_uuid (st_items st)) \<longrightarrow> distinct (map cr_uuid (st_items st'))"
    and "list_all item_row_ok (st_items st) \<longrightarrow> list_all item_row_ok (st_items st')" using ih dist ok by blast+
  moreover have "list_all (\<lambda>i. \<not> fingerprint_missing b i) (i # is)" using ih row(2) by simp
  ultimately show ?case by blast
qed simp

lemma insert_all_evidence_Inr:
  assumes "insert_all_evidence di es st = Inr st'"
  shows "st' = st\<lparr>st_evidence := st_evidence st @ es\<rparr> \<and>
     (distinct (map ev_uuid (st_evidence st)) \<longrightarrow> distinct (map ev_uuid (st_evidence st'))) \<and>
     ev_candidate ` set es \<subseteq> di_uuid di ` set (st_candidates st)"
  using assms
proof (induction es arbitrary: st)
  case (Cons e es)
  from Cons.prems obtain st1 where e: "insert_evidence di e st = Inr st1"
    and rest: "insert_all_evidence di es st1 = Inr st'" by auto
  from e have st1: "st1 = st\<lparr>st_evidence := st_evidence st @ [e]\<rparr>"
    and new: "ev_uuid e \<notin> ev_uuid ` set (st_evidence st)"
    by (auto simp: insert_evidence_def list_ex_iff)
  from e have "\<exists>x \<in> set (st_candidates st). di_uuid di x = ev_candidate e"
    by (auto simp: insert_evidence_def list_ex_iff)
  then have owner: "ev_candidate e \<in> di_uuid di ` set (st_candidates st)" by force
  have dist: "distinct (map ev_uuid (st_evidence st)) \<Longrightarrow> distinct (map ev_uuid (st_evidence st1))"
    using st1 new by simp
  note ih = Cons.IH [OF rest]
  from ih st1 have "st' = st\<lparr>st_evidence := st_evidence st @ e # es\<rparr>" by simp
  with ih dist owner st1 show ?case by auto
qed simp

lemma find_SomeD: "List.find P xs = Some x \<Longrightarrow> x \<in> set xs \<and> P x"
  by (induction xs) (auto split: if_splits)

lemma find_link_Some: "find_link st p = Some l \<Longrightarrow> l \<in> set (st_links st) \<and> lk_proposal l = p"
  using find_SomeD [of "\<lambda>l. lk_proposal l = p" "st_links st" l] by (simp add: find_link_def)

lemma distinct_key_eq: "distinct (map f xs) \<Longrightarrow> x \<in> set xs \<Longrightarrow> y \<in> set xs \<Longrightarrow> f x = f y \<Longrightarrow> x = y"
  by (auto simp: distinct_map dest: inj_onD)

lemma find_None_keys: "List.find (\<lambda>x. f x = k) xs = None \<longleftrightarrow> k \<notin> f ` set xs"
  by (auto simp: find_None_iff)

lemma find_unique: "distinct (map f xs) \<Longrightarrow> x \<in> set xs \<Longrightarrow> List.find (\<lambda>y. f y = f x) xs = Some x"
  by (induction xs) (auto simp: image_iff)

lemma index_by_unique: "distinct (map f xs) \<Longrightarrow> x \<in> set xs \<Longrightarrow> index_by f xs (f x) = Some x"
proof -
  assume "distinct (map f xs)" "x \<in> set xs"
  then have "distinct (map fst (rev (map (\<lambda>x. (f x, x)) xs)))" "(f x, x) \<in> set (rev (map (\<lambda>x. (f x, x)) xs))"
    by (simp_all add: rev_map [symmetric] comp_def)
  then show ?thesis by (simp add: index_by_def map_of_eq_Some_iff del: set_rev)
qed

section \<open>A plan and a reservation that succeeded\<close>

lemma assert_items_ok:
  assumes "distinct (map cr_uuid rows)" "cr_uuid ` set rows = it_id ` set (cp_items plan)"
    and "\<And>r i. r \<in> set rows \<Longrightarrow> i \<in> set (cp_items plan) \<Longrightarrow> cr_uuid r = it_id i \<Longrightarrow> same r i = Inr ()"
  shows "\<exists>u. assert_items_replay same plan rows = Inr u"
proof -
  have ok: "\<exists>u. rmap g is = Inr u" if "\<forall>i \<in> set is. \<exists>u. g i = Inr u" for g and "is" :: "coverage_item list"
    using that by (induction "is") auto
  have "\<exists>u. (case index_by cr_uuid rows (it_id i) of None \<Rightarrow> Inl ItemSetDiffers | Some r \<Rightarrow> same r i) = Inr u"
    if i: "i \<in> set (cp_items plan)" for i
  proof -
    from i assms(2) have "it_id i \<in> cr_uuid ` set rows" by simp
    then obtain r where r: "r \<in> set rows" "cr_uuid r = it_id i" by auto
    from index_by_unique [OF assms(1) r(1)] r(2) assms(3) [OF r(1) i r(2)] show ?thesis by simp
  qed
  then have "\<forall>i \<in> set (cp_items plan). \<exists>u. (case index_by cr_uuid rows (it_id i) of None \<Rightarrow> Inl ItemSetDiffers
      | Some r \<Rightarrow> same r i) = Inr u" by blast
  from ok [OF this] assms(2) show ?thesis by (simp add: assert_items_replay_def raise_if_def)
qed

definition plan_stored :: "digests \<Rightarrow> coverage_plan \<Rightarrow> persistence_bindings \<Rightarrow> 'c coverage_store \<Rightarrow> bool" where
  "plan_stored D plan b st \<longleftrightarrow>
     (\<exists>row. find_run st (coverage_run_uuid D (cp_coverage_hash plan)) = Some row \<and>
        (\<exists>u. assert_plan_replay D plan b st = Inr u))"

text \<open>The replay check reads the run and its items only.\<close>

lemma plan_check_grows:
  assumes "store_grows di st st'" "find_run st (coverage_run_uuid D (cp_coverage_hash plan)) = Some row"
  shows "assert_plan_replay D plan b st' = assert_plan_replay D plan b st"
    and "pg_assert_plan_replay D plan b st' = pg_assert_plan_replay D plan b st"
    and "find_run st' (coverage_run_uuid D (cp_coverage_hash plan)) = Some row"
proof -
  let ?u = "coverage_run_uuid D (cp_coverage_hash plan)"
  from assms(1) have "appended (\<lambda>_. True) (st_runs st) (st_runs st')" by (simp add: store_grows_def)
  with assms(2) show r: "find_run st' ?u = Some row" unfolding find_run_def by (rule find_appended)
  from find_SomeD [OF assms(2) [unfolded find_run_def]] have "?u \<in> rr_uuid ` set (st_runs st)" by force
  from run_items_grow [OF assms(1) this] r assms(2)
  show "assert_plan_replay D plan b st' = assert_plan_replay D plan b st"
    and "pg_assert_plan_replay D plan b st' = pg_assert_plan_replay D plan b st"
    by (simp_all add: assert_plan_replay_def pg_assert_plan_replay_def)
qed

lemma stored_plan_checks:
  fixes st :: "'c coverage_store"
  assumes inv: "store_inv di D F st" and fresh: "find_run st (coverage_run_uuid D (cp_coverage_hash plan)) = None"
    and run: "insert_run (run_values D plan b now) st = Inr st1"
    and items: "insert_items (cp_items plan) (coverage_run_uuid D (cp_coverage_hash plan)) b now st1 = Inr st'"
  shows "find_run st' (coverage_run_uuid D (cp_coverage_hash plan)) = Some (run_values D plan b now)"
    and "\<exists>u. assert_plan_replay D plan b st' = Inr u" and "\<exists>u. pg_assert_plan_replay D plan b st' = Inr u"
proof -
  let ?u = "coverage_run_uuid D (cp_coverage_hash plan)"
  let ?rows = "map (\<lambda>i. item_row_of i ?u b now) (cp_items plan)"
  from insert_run_Inr [OF run] have st1: "st1 = st\<lparr>st_runs := st_runs st @ [run_values D plan b now]\<rparr>"
    and new: "?u \<notin> rr_uuid ` set (st_runs st)" by simp_all
  note ins = insert_items_Inr [OF items]
  from ins st1 have st': "st' = st1\<lparr>st_items := st_items st @ ?rows\<rparr>" by simp
  from inv st1 have "distinct (map cr_uuid (st_items st1))" by (simp add: store_inv_def)
  with ins have dist: "distinct (map cr_uuid (st_items st'))" and fp: "list_all (\<lambda>i. \<not> fingerprint_missing b i) (cp_items plan)"
    by blast+
  have "List.find (\<lambda>r. rr_uuid r = ?u) (xs @ [run_values D plan b now]) = Some (run_values D plan b now)"
    if "?u \<notin> rr_uuid ` set xs" for xs
    using that by (induction xs) auto
  from this [OF new] st1 st' show found: "find_run st' ?u = Some (run_values D plan b now)"
    by (simp add: find_run_def)
  from inv new have "filter (\<lambda>r. cr_run r = ?u) (st_items st) = []"
    by (force simp: store_inv_def filter_empty_conv)
  moreover have "filter (\<lambda>r. cr_run r = ?u) ?rows = ?rows" by (simp add: filter_id_conv)
  ultimately have rows: "run_items st' ?u = ?rows" using st' by (simp add: run_items_def)
  have d: "distinct (map cr_uuid ?rows)" using dist st' by simp
  have img: "cr_uuid ` set ?rows = it_id ` set (cp_items plan)" by (simp add: image_image)
  have inj: "r = item_row_of i ?u b now" if "r \<in> set ?rows" "i \<in> set (cp_items plan)" "cr_uuid r = it_id i" for r i
  proof -
    have "item_row_of i ?u b now \<in> set ?rows" using that(2) by simp
    with that(1,3) d show ?thesis by (simp only: distinct_map) (metis (mono_tags, lifting) inj_onD item_row_of_simps(1))
  qed
  have fp': "\<not> fingerprint_missing b i" if "i \<in> set (cp_items plan)" for i using fp that by (simp add: list_all_iff)
  have "run_values D plan b (rr_created_at (run_values D plan b now)) = run_values D plan b now"
    by (simp add: run_values_def)
  moreover have "\<exists>u. assert_items_replay (\<lambda>r i. rbind (item_values i ?u b (cr_created_at r))
       (\<lambda>x. raise_if (r \<noteq> x) PlanReplayDiffers)) plan ?rows = Inr u"
  proof (rule assert_items_ok [OF d img])
    fix r i assume r: "r \<in> set ?rows" and i: "i \<in> set (cp_items plan)" and eq: "cr_uuid r = it_id i"
    from inj [OF this] have "r = item_row_of i ?u b now" .
    moreover have "item_row_of i ?u b (cr_created_at (item_row_of i ?u b now)) = item_row_of i ?u b now"
      by (simp add: item_row_of_def)
    ultimately show "rbind (item_values i ?u b (cr_created_at r)) (\<lambda>x. raise_if (r \<noteq> x) PlanReplayDiffers) = Inr ()"
      using fp' [OF i] by (simp add: item_values_def raise_if_def)
  qed
  ultimately show "\<exists>u. assert_plan_replay D plan b st' = Inr u"
    using found rows by (simp add: assert_plan_replay_def Let_def raise_if_def)
  have "\<exists>u. assert_items_replay (\<lambda>r i. raise_if (\<not> pg_item_same b r i) ItemDiffers) plan ?rows = Inr u"
  proof (rule assert_items_ok [OF d img])
    fix r i assume r: "r \<in> set ?rows" and i: "i \<in> set (cp_items plan)" and eq: "cr_uuid r = it_id i"
    from inj [OF this] have "r = item_row_of i ?u b now" .
    then show "raise_if (\<not> pg_item_same b r i) ItemDiffers = Inr ()"
      by (simp add: pg_item_same_def item_row_of_def raise_if_def)
  qed
  then show "\<exists>u. pg_assert_plan_replay D plan b st' = Inr u"
    using found rows by (simp add: pg_assert_plan_replay_def Let_def raise_if_def pg_run_same_def run_values_def)
qed

section \<open>Every command keeps the invariant and only adds\<close>

lemma link_ok_mono:
  assumes "link_ok di D F st l" "set (st_items st) \<subseteq> set (st_items st')" "set (st_candidates st) \<subseteq> set (st_candidates st')"
    and "candidate_evidence_rows st' (lk_proposal l) = candidate_evidence_rows st (lk_proposal l)"
  shows "link_ok di D F st' l"
proof -
  note l = assms(1) [unfolded link_ok_def assms(4) [symmetric]]
  from l assms(2) have "\<exists>i \<in> set (st_items st'). cr_uuid i = lk_item l \<and> cr_disposition i = ''durable_candidate'' \<and>
     cr_proposal i = Some (lk_proposal l)" by blast
  with l assms(3) show ?thesis unfolding link_ok_def by blast
qed

lemma stored_plan_inv:
  assumes inv: "store_inv di D F st"
    and run: "insert_run (run_values D plan b now) st = Inr st1"
    and items: "insert_items (cp_items plan) (coverage_run_uuid D (cp_coverage_hash plan)) b now st1 = Inr st'"
  shows "store_inv di D F st' \<and> store_grows di st st'"
proof -
  let ?u = "coverage_run_uuid D (cp_coverage_hash plan)"
  let ?rows = "map (\<lambda>i. item_row_of i ?u b now) (cp_items plan)"
  from insert_run_Inr [OF run] have st1: "st1 = st\<lparr>st_runs := st_runs st @ [run_values D plan b now]\<rparr>"
    and new: "?u \<notin> rr_uuid ` set (st_runs st)" by simp_all
  note ins = insert_items_Inr [OF items]
  from ins st1 have st': "st' = st1\<lparr>st_items := st_items st @ ?rows\<rparr>" by simp
  from inv st1 have "distinct (map cr_uuid (st_items st1))" "list_all item_row_ok (st_items st1)" by (simp_all add: store_inv_def)
  with ins have ok: "distinct (map cr_uuid (st_items st'))" "list_all item_row_ok (st_items st')" by blast+
  have links: "list_all (link_ok di D F st') (st_links st)"
    unfolding list_all_iff
  proof
    fix l assume "l \<in> set (st_links st)"
    with inv have "link_ok di D F st l" by (simp add: store_inv_def list_all_iff)
    then show "link_ok di D F st' l" by (rule link_ok_mono) (auto simp: st' st1 candidate_evidence_rows_def)
  qed
  have "store_inv di D F st'"
    using inv ok links new unfolding store_inv_def by (auto simp: st' st1 image_iff)
  moreover have "store_grows di st st'"
    using new by (auto simp: store_grows_def st' st1 appended_def list_all_iff)
  ultimately show ?thesis by simp
qed

lemma reserved_link_inv:
  assumes inv: "store_inv di D F st" and ins: "insert_link (new_link pid item h now) st = Inr st'"
    and i: "i \<in> set (st_items st)" "cr_uuid i = item" "cr_disposition i = ''durable_candidate''" "cr_proposal i = Some pid"
  shows "store_inv di D F st' \<and> store_grows di st st' \<and> find_link st' pid = Some (new_link pid item h now)"
proof -
  from ins have st': "st' = st\<lparr>st_links := st_links st @ [new_link pid item h now]\<rparr>"
    and new: "pid \<notin> lk_proposal ` set (st_links st)"
    by (auto simp: insert_link_def list_ex_iff new_link_def)
  have old: "link_ok di D F st' l" if "link_ok di D F st l" for l
    using that by (rule link_ok_mono) (simp_all add: st' candidate_evidence_rows_def)
  have "link_ok di D F st' (new_link pid item h now)"
    using i by (auto simp: link_ok_def new_link_def st')
  with inv old new have "store_inv di D F st'"
    unfolding store_inv_def by (auto simp: st' list_all_iff new_link_def)
  moreover have "store_grows di st st'"
    by (simp add: store_grows_def st')
  moreover have "List.find (\<lambda>l. lk_proposal l = pid) (xs @ [l]) = Some l"
    if "pid \<notin> lk_proposal ` set xs" "lk_proposal l = pid" for xs and l :: link_row
    using that by (induction xs) auto
  with new have "find_link st' pid = Some (new_link pid item h now)"
    by (simp add: find_link_def st' new_link_def)
  ultimately show ?thesis by simp
qed

text \<open>What both tables of candidates must provide.\<close>

locale candidate_dialect =
  fixes di :: "'c dialect"
  assumes row_uuid: "di_uuid di (di_row di c) = mc_uuid c"
    and row_same: "di_same di (di_row di c) c"
begin

lemma no_evidence_yet:
  assumes "store_inv di D F st" "u \<notin> di_uuid di ` set (st_candidates st)"
  shows "candidate_evidence_rows st u = []"
  using assms by (auto simp: store_inv_def candidate_evidence_rows_def filter_empty_conv)

lemma attempted_without_candidate:
  assumes "store_inv di D F st" "l \<in> set (st_links st)" "lk_state l = CREATION_ATTEMPTED"
  shows "lk_proposal l \<notin> di_uuid di ` set (st_candidates st)"
proof
  assume "lk_proposal l \<in> di_uuid di ` set (st_candidates st)"
  then obtain c where "c \<in> set (st_candidates st)" "di_uuid di c = lk_proposal l" by auto
  with assms(1) obtain l' where l': "l' \<in> set (st_links st)" "lk_proposal l' = lk_proposal l" "lk_state l' = CANDIDATE_LINKED"
    by (auto simp: store_inv_def)
  with assms(1,2) have "l' = l" by (auto simp: store_inv_def distinct_map dest: inj_onD)
  with l' assms(3) show False by simp
qed

text \<open>The two ways to succeed.\<close>

lemma create_and_link_Inr:
  assumes inv: "store_inv di D F st" and ok: "create_and_link di D F p c items a now st = Inr (r, st')"
  obtains es l where "validate_candidate_binding D p c items = Inr es" "find_link st (pp_proposal_id p) = Some l"
      "lk_hash l = candidate_payload_hash D F c es" "assert_candidate_authority st a = Inr ()"
      "lk_state l = CANDIDATE_LINKED" "st' = st"
      "\<exists>row. find_candidate di st (pp_proposal_id p) = Some row \<and> (\<exists>u. assert_existing_candidate di st row c es = Inr u)"
  | es l where "validate_candidate_binding D p c items = Inr es" "find_link st (pp_proposal_id p) = Some l"
      "lk_hash l = candidate_payload_hash D F c es" "assert_candidate_authority st a = Inr ()"
      "lk_state l = CREATION_ATTEMPTED" "pp_proposal_id p \<notin> di_uuid di ` set (st_candidates st)"
      "st' = link_candidate (pp_proposal_id p) now (st\<lparr>st_candidates := st_candidates st @ [di_row di c],
         st_evidence := st_evidence st @ es\<rparr>)"
      "distinct (map ev_uuid (st_evidence st @ es))"
proof -
  let ?pid = "pp_proposal_id p"
  from ok obtain es where es: "validate_candidate_binding D p c items = Inr es"
    by (auto simp: create_and_link_def)
  from ok es obtain l where l: "find_link st ?pid = Some l" by (auto simp: create_and_link_def Let_def split: option.splits)
  have common: "lk_hash l = candidate_payload_hash D F c es" "assert_candidate_authority st a = Inr ()"
    using ok es l by (auto simp: create_and_link_def Let_def assert_link_row_def split: if_splits)
  show ?thesis
  proof (cases "lk_state l")
    case CANDIDATE_LINKED
    with ok es l have "\<exists>row. find_candidate di st ?pid = Some row \<and> (\<exists>u. assert_existing_candidate di st row c es = Inr u) \<and> st' = st"
      by (auto simp: create_and_link_def Let_def split: option.splits)
    with that(1) [OF es l common CANDIDATE_LINKED] show ?thesis by blast
  next
    case CREATION_ATTEMPTED
    note mem = find_link_Some [OF l]
    from attempted_without_candidate [OF inv conjunct1 [OF mem] CREATION_ATTEMPTED] mem
    have none: "?pid \<notin> di_uuid di ` set (st_candidates st)" by simp
    then have "find_candidate di st ?pid = None" by (simp add: find_candidate_def find_None_keys)
    with ok es l CREATION_ATTEMPTED obtain st1 st2 where ins: "insert_candidate di c st = Inr st1"
        "insert_all_evidence di es st1 = Inr st2" and st': "st' = link_candidate ?pid now st2"
      by (auto simp: create_and_link_def Let_def)
    from ins(1) have st1: "st1 = st\<lparr>st_candidates := st_candidates st @ [di_row di c]\<rparr>" by (auto simp: insert_candidate_def)
    note ev = insert_all_evidence_Inr [OF ins(2)]
    from inv have "distinct (map ev_uuid (st_evidence st))" by (simp add: store_inv_def)
    with st1 have "distinct (map ev_uuid (st_evidence st1))" by simp
    with ev have d2: "distinct (map ev_uuid (st_evidence st2))" by blast
    from ev st1 have st2: "st2 = st\<lparr>st_candidates := st_candidates st @ [di_row di c], st_evidence := st_evidence st @ es\<rparr>" by simp
    then have "st_evidence st2 = st_evidence st @ es" by simp
    with d2 have "distinct (map ev_uuid (st_evidence st @ es))" by metis
    from that(2) [OF es l common CREATION_ATTEMPTED none _ this] st' st2 show ?thesis by simp
  qed
qed

lemma evidence_rows_created:
  assumes "store_inv di D F st" "pid \<notin> di_uuid di ` set (st_candidates st)" "\<forall>e \<in> set es. ev_candidate e = pid"
  shows "candidate_evidence_rows (link_candidate pid now (st\<lparr>st_candidates := cs, st_evidence := st_evidence st @ es\<rparr>)) u =
     (if u = pid then es else candidate_evidence_rows st u)"
  using no_evidence_yet [OF assms(1,2)] assms(3)
  by (auto simp: candidate_evidence_rows_def link_candidate_def filter_empty_conv)

lemma create_and_link_inv:
  assumes inv: "store_inv di D F st" and ok: "create_and_link di D F p c items a now st = Inr (r, st')"
  shows "store_inv di D F st' \<and> store_grows di st st'"
  using assms
proof (cases rule: create_and_link_Inr)
  case (1 es l)
  with inv show ?thesis by simp
next
  case (2 es l)
  let ?pid = "pp_proposal_id p"
  let ?up = "\<lambda>l. if lk_proposal l = ?pid then l\<lparr>lk_candidate := Some ?pid, lk_state := CANDIDATE_LINKED,
     lk_linked_at := Some now, lk_updated_at := now\<rparr> else l"
  from 2(1) have v: "mc_uuid c = ?pid" "es \<noteq> []" "\<forall>e \<in> set es. ev_candidate e = ?pid"
    by (auto simp: validate_candidate_binding_Inr)
  note rows = evidence_rows_created [OF inv 2(6) v(3), of now "st_candidates st @ [di_row di c]", folded 2(7)]
  have st': "st_items st' = st_items st" "st_candidates st' = st_candidates st @ [di_row di c]"
    "st_links st' = map ?up (st_links st)" "st_evidence st' = st_evidence st @ es" "st_runs st' = st_runs st"
    "st_gates st' = st_gates st" "st_routes st' = st_routes st"
    by (simp_all add: 2(7) link_candidate_def)
  note lmem = find_link_Some [OF 2(2)]
  have one: "k = l" if "k \<in> set (st_links st)" "lk_proposal k = ?pid" for k
    using distinct_key_eq [of lk_proposal "st_links st" k l] that lmem inv by (simp add: store_inv_def)
  have up: "link_ok di D F st' (?up k)" if k: "k \<in> set (st_links st)" for k
  proof -
    from inv k have k_ok: "link_ok di D F st k" by (simp add: store_inv_def list_all_iff)
    show ?thesis
    proof (cases "lk_proposal k = ?pid")
      case True
      with one k have "k = l" by blast
      with k_ok True 2(3) v rows [of ?pid] row_uuid show ?thesis by (auto simp: link_ok_def st')
    next
      case False
      from k_ok have "link_ok di D F st' k" by (rule link_ok_mono) (use False rows st' in auto)
      with False show ?thesis by simp
    qed
  qed
  have ids: "map lk_proposal (st_links st') = map lk_proposal (st_links st)" by (simp add: st')
  have cands: "\<forall>d \<in> set (st_candidates st'). \<exists>k \<in> set (st_links st'). lk_proposal k = di_uuid di d \<and> lk_state k = CANDIDATE_LINKED"
  proof
    fix d assume "d \<in> set (st_candidates st')"
    then consider "d \<in> set (st_candidates st)" | "d = di_row di c" by (auto simp: st')
    then show "\<exists>k \<in> set (st_links st'). lk_proposal k = di_uuid di d \<and> lk_state k = CANDIDATE_LINKED"
    proof cases
      case 1
      with inv obtain k where k: "k \<in> set (st_links st)" "lk_proposal k = di_uuid di d" "lk_state k = CANDIDATE_LINKED"
        by (auto simp: store_inv_def)
      then have "?up k \<in> set (st_links st')" "lk_proposal (?up k) = di_uuid di d" "lk_state (?up k) = CANDIDATE_LINKED"
        by (simp_all add: st')
      then show ?thesis by blast
    next
      case 2
      with lmem v row_uuid have "?up l \<in> set (st_links st')" "lk_proposal (?up l) = di_uuid di d" "lk_state (?up l) = CANDIDATE_LINKED"
        by (simp_all add: st')
      then show ?thesis by blast
    qed
  qed
  have owners: "ev_candidate ` set (st_evidence st') \<subseteq> di_uuid di ` set (st_candidates st')"
    using inv v row_uuid by (auto simp: store_inv_def st')
  have "distinct (map (di_uuid di) (st_candidates st'))" using inv 2(6) v row_uuid by (simp add: store_inv_def st')
  moreover have "list_all (link_ok di D F st') (st_links st')"
    unfolding st'(3) list_all_iff set_map ball_simps using up by blast
  moreover have "distinct (map ev_uuid (st_evidence st'))" using 2(8) by (simp add: st')
  moreover have "distinct (map lk_proposal (st_links st'))" unfolding ids using inv by (simp add: store_inv_def)
  ultimately have "store_inv di D F st'"
    using inv [unfolded store_inv_def] cands owners unfolding store_inv_def st'(1,5) by blast
  moreover have "list_all2 link_le (st_links st) (map ?up (st_links st))"
  proof -
    have "link_le k (?up k)" if "k \<in> set (st_links st)" for k
      using one [OF that] 2(5) by (auto simp: link_le_def)
    then show ?thesis by (simp add: list_all2_map2 list_all2_conv_all_nth)
  qed
  then have "links_grow (st_links st) (st_links st')" unfolding st'(3) by (rule links_grow_map)
  moreover have "list_all (\<lambda>e. ev_candidate e \<notin> di_uuid di ` set (st_candidates st)) es"
    using v 2(6) by (simp add: list_all_iff)
  ultimately show ?thesis by (auto simp: store_grows_def st' appended_def)
qed

text \<open>A candidate that is linked, with the row and the evidence that the command would write.\<close>

definition candidate_settled ::
  "digests \<Rightarrow> (int \<Rightarrow> int \<Rightarrow> ustr) \<Rightarrow> candidate_proposal \<Rightarrow> memory_candidate \<Rightarrow> candidate_evidence list
     \<Rightarrow> authority_binding option \<Rightarrow> 'c coverage_store \<Rightarrow> bool" where
  "candidate_settled D F p c items a st \<longleftrightarrow>
     (\<exists>es l row u. validate_candidate_binding D p c items = Inr es \<and> find_link st (pp_proposal_id p) = Some l \<and>
        lk_hash l = candidate_payload_hash D F c es \<and> assert_candidate_authority st a = Inr () \<and>
        lk_state l = CANDIDATE_LINKED \<and> find_candidate di st (pp_proposal_id p) = Some row \<and>
        assert_existing_candidate di st row c es = Inr u)"

lemma settled_exec:
  assumes "candidate_settled D F p c items a st"
  shows "create_and_link di D F p c items a now st = Inr ((pp_proposal_id p, TS_EXISTING), st)"
proof -
  from assms obtain es l row u where "validate_candidate_binding D p c items = Inr es"
    "find_link st (pp_proposal_id p) = Some l" "lk_hash l = candidate_payload_hash D F c es"
    "assert_candidate_authority st a = Inr ()" "lk_state l = CANDIDATE_LINKED"
    "find_candidate di st (pp_proposal_id p) = Some row" "assert_existing_candidate di st row c es = Inr u"
    unfolding candidate_settled_def by blast
  then show ?thesis by (simp add: create_and_link_def Let_def assert_link_row_def raise_if_def)
qed

lemma authority_check_grows:
  assumes "assert_candidate_authority st a = Inr ()" "store_grows di st st'"
  shows "assert_candidate_authority st' a = Inr ()"
proof (cases a)
  case (Some b)
  with assms(1) have "authority_stands st b" by (simp add: assert_candidate_authority_def)
  from authority_grows [OF this assms(2)] Some show ?thesis by (simp add: assert_candidate_authority_def raise_if_def)
qed (simp add: assert_candidate_authority_def)

lemma settled_grows:
  assumes settled: "candidate_settled D F p c items a st" and g: "store_grows di st st'"
  shows "candidate_settled D F p c items a st'"
proof -
  from settled obtain es l row u where s: "validate_candidate_binding D p c items = Inr es"
    "find_link st (pp_proposal_id p) = Some l" "lk_hash l = candidate_payload_hash D F c es"
    "assert_candidate_authority st a = Inr ()" "lk_state l = CANDIDATE_LINKED"
    "find_candidate di st (pp_proposal_id p) = Some row" "assert_existing_candidate di st row c es = Inr u"
    unfolding candidate_settled_def by blast
  from find_link_grows [OF s(2) g] s(5) have l: "find_link st' (pp_proposal_id p) = Some l" by (auto simp: link_le_def)
  from g have "appended (\<lambda>_. True) (st_candidates st) (st_candidates st')" by (simp add: store_grows_def)
  with s(6) have row: "find_candidate di st' (pp_proposal_id p) = Some row" unfolding find_candidate_def by (rule find_appended)
  from find_SomeD [OF s(6) [unfolded find_candidate_def]]
  have "pp_proposal_id p \<in> di_uuid di ` set (st_candidates st)" by force
  moreover from s(1) have "mc_uuid c = pp_proposal_id p" by (simp add: validate_candidate_binding_Inr)
  ultimately have "candidate_evidence_rows st' (mc_uuid c) = candidate_evidence_rows st (mc_uuid c)"
    using evidence_rows_grow [OF g] by simp
  with s(7) have "assert_existing_candidate di st' row c es = Inr u" by (simp add: assert_existing_candidate_def)
  with s l row authority_check_grows [OF s(4) g] show ?thesis unfolding candidate_settled_def by blast
qed

lemma stored_evidence_same:
  assumes "distinct (map ev_uuid es)"
  shows "\<exists>u. rmap (\<lambda>e. raise_if (case index_by ev_uuid es (ev_uuid e) of None \<Rightarrow> True
     | Some s \<Rightarrow> \<not> evidence_same s e) EvidenceDiffers) es = Inr u"
proof -
  have all: "\<exists>u. rmap g xs = Inr u" if "\<forall>e \<in> set xs. g e = Inr ()"
    for g :: "candidate_evidence \<Rightarrow> (coverage_error, unit) result" and xs
    using that by (induction xs) auto
  have "\<forall>e \<in> set es. raise_if (case index_by ev_uuid es (ev_uuid e) of None \<Rightarrow> True
     | Some s \<Rightarrow> \<not> evidence_same s e) EvidenceDiffers = Inr ()"
    using index_by_unique [OF assms] by (simp add: evidence_same_def)
  from all [OF this] show ?thesis .
qed

lemma created_settled:
  assumes inv: "store_inv di D F st" and ok: "create_and_link di D F p c items a now st = Inr (r, st')"
  shows "candidate_settled D F p c items a st'"
  using assms
proof (cases rule: create_and_link_Inr)
  case (1 es l)
  then show ?thesis unfolding candidate_settled_def by blast
next
  case (2 es l)
  let ?pid = "pp_proposal_id p"
  let ?up = "\<lambda>l. if lk_proposal l = ?pid then l\<lparr>lk_candidate := Some ?pid, lk_state := CANDIDATE_LINKED,
     lk_linked_at := Some now, lk_updated_at := now\<rparr> else l"
  from 2(1) have v: "mc_uuid c = ?pid" "es \<noteq> []" "\<forall>e \<in> set es. ev_candidate e = ?pid"
    by (auto simp: validate_candidate_binding_Inr)
  note rows = evidence_rows_created [OF inv 2(6) v(3), of now "st_candidates st @ [di_row di c]" ?pid, folded 2(7)]
  have "List.find (\<lambda>l. lk_proposal l = ?pid) xs = Some l \<Longrightarrow>
     List.find (\<lambda>l. lk_proposal l = ?pid) (map ?up xs) = Some (?up l)" for xs
    by (induction xs) (auto split: if_splits)
  from this [OF 2(2) [unfolded find_link_def]] have link: "find_link st' ?pid = Some (?up l)"
    by (simp add: find_link_def 2(7) link_candidate_def)
  have "List.find (\<lambda>c. di_uuid di c = ?pid) (xs @ [di_row di c]) = Some (di_row di c)"
    if "?pid \<notin> di_uuid di ` set xs" for xs
    using that v row_uuid by (induction xs) auto
  from this [OF 2(6)] have cand: "find_candidate di st' ?pid = Some (di_row di c)"
    by (simp add: find_candidate_def 2(7) link_candidate_def)
  have "distinct (map ev_uuid es)" using 2(8) by simp
  from stored_evidence_same [OF this] rows v row_same have "\<exists>u. assert_existing_candidate di st' (di_row di c) c es = Inr u"
    by (auto simp: assert_existing_candidate_def raise_if_def)
  moreover have "assert_candidate_authority st' a = Inr ()"
    using 2(4) by (cases a) (simp_all add: assert_candidate_authority_def authority_stands_def authority_rows_def
        2(7) link_candidate_def raise_if_def)
  moreover have "lk_hash (?up l) = candidate_payload_hash D F c es" "lk_state (?up l) = CANDIDATE_LINKED"
    using 2(3) find_link_Some [OF 2(2)] by simp_all
  ultimately show ?thesis using 2(1) link cand unfolding candidate_settled_def by blast
qed

end

section \<open>Both layers keep the contract\<close>

interpretation lite: candidate_dialect sqlite_dialect
  by unfold_locales (simp_all add: sqlite_dialect_def)

interpretation full: candidate_dialect pg_dialect
  by unfold_locales (simp_all add: pg_dialect_def pg_candidate_values_def)

lemma sqlite_persist_step:
  assumes inv: "store_inv di D F st" and ok: "sqlite_persist_plan D plan b now st = Inr (r, st')"
  shows "store_inv di D F st' \<and> store_grows di st st' \<and>
     (store_grows di st' st'' \<longrightarrow> (\<exists>r'. sqlite_persist_plan D plan b now' st'' = Inr (r', st'')))"
proof (cases "find_run st (coverage_run_uuid D (cp_coverage_hash plan))")
  case None
  with ok obtain st1 where st1: "insert_run (run_values D plan b now) st = Inr st1"
    "insert_items (cp_items plan) (coverage_run_uuid D (cp_coverage_hash plan)) b now st1 = Inr st'"
    by (auto simp: sqlite_persist_plan_def Let_def)
  note checks = stored_plan_checks [OF inv None st1]
  have "\<exists>r'. sqlite_persist_plan D plan b now' st'' = Inr (r', st'')" if "store_grows di st' st''"
    using plan_check_grows [OF that checks(1)] checks(2,3) by (auto simp: sqlite_persist_plan_def Let_def)
  with stored_plan_inv [OF inv st1] show ?thesis by blast
next
  case (Some row)
  with ok have st': "st' = st" and c: "\<exists>u. assert_plan_replay D plan b st = Inr u"
    by (auto simp: sqlite_persist_plan_def Let_def)
  have "\<exists>r'. sqlite_persist_plan D plan b now' st'' = Inr (r', st'')" if "store_grows di st st''"
    using plan_check_grows [OF that Some] c by (auto simp: sqlite_persist_plan_def Let_def)
  with st' inv show ?thesis by simp
qed

lemma run_known: "list_ex (\<lambda>x. rr_uuid x = u) (st_runs st) \<longleftrightarrow> find_run st u \<noteq> None"
  using find_None_keys [of rr_uuid u "st_runs st"] by (auto simp: list_ex_iff find_run_def)

lemma pg_persist_step:
  assumes inv: "store_inv di D F st" and ok: "pg_persist_plan D plan b now st = Inr (r, st')"
  shows "store_inv di D F st' \<and> store_grows di st st' \<and>
     (store_grows di st' st'' \<longrightarrow> (\<exists>r'. pg_persist_plan D plan b now' st'' = Inr (r', st'')))"
proof (cases "find_run st (coverage_run_uuid D (cp_coverage_hash plan))")
  case None
  with ok obtain st1 where st1: "insert_run (run_values D plan b now) st = Inr st1"
    "insert_items (cp_items plan) (coverage_run_uuid D (cp_coverage_hash plan)) b now st1 = Inr st'"
    by (auto simp: pg_persist_plan_def Let_def run_known)
  note checks = stored_plan_checks [OF inv None st1]
  have "\<exists>r'. pg_persist_plan D plan b now' st'' = Inr (r', st'')" if "store_grows di st' st''"
    using plan_check_grows [OF that checks(1)] checks(2,3) by (auto simp: pg_persist_plan_def Let_def run_known)
  with stored_plan_inv [OF inv st1] show ?thesis by blast
next
  case (Some row)
  with ok have st': "st' = st" and c: "\<exists>u. pg_assert_plan_replay D plan b st = Inr u"
    by (auto simp: pg_persist_plan_def Let_def run_known)
  have "\<exists>r'. pg_persist_plan D plan b now' st'' = Inr (r', st'')" if "store_grows di st st''"
    using plan_check_grows [OF that Some] c by (auto simp: pg_persist_plan_def Let_def run_known)
  with st' inv show ?thesis by simp
qed

definition link_reserved :: "'c coverage_store \<Rightarrow> string \<Rightarrow> string \<Rightarrow> string \<Rightarrow> bool" where
  "link_reserved st pid item h \<longleftrightarrow> (\<exists>l. find_link st pid = Some l \<and> lk_item l = item \<and> lk_hash l = h)"

lemma link_reserved_grows: "link_reserved st pid item h \<Longrightarrow> store_grows di st st' \<Longrightarrow> link_reserved st' pid item h"
  using find_link_grows by (fastforce simp: link_reserved_def link_le_def)

lemma reserved_replay:
  assumes "link_reserved st pid item h"
  shows "\<exists>r. sqlite_reserve pid item h now st = Inr (r, st)" "\<exists>r. pg_reserve pid item h now st = Inr (r, st)"
  using assms by (auto simp: link_reserved_def sqlite_reserve_def pg_reserve_def assert_link_row_def raise_if_def)

lemma sqlite_reserve_step:
  assumes inv: "store_inv di D F st" and ok: "sqlite_reserve pid item h now st = Inr (r, st')"
  shows "store_inv di D F st' \<and> store_grows di st st' \<and> link_reserved st' pid item h"
proof (cases "find_link st pid")
  case None
  with ok obtain i where i: "find_item st item = Some i" "cr_disposition i = ''durable_candidate''" "cr_proposal i = Some pid"
    and ins: "insert_link (new_link pid item h now) st = Inr st'"
    by (auto simp: sqlite_reserve_def split: option.splits)
  from find_SomeD [OF i(1) [unfolded find_item_def]] have "i \<in> set (st_items st)" "cr_uuid i = item" by simp_all
  from reserved_link_inv [OF inv ins this i(2,3)] show ?thesis by (simp add: link_reserved_def new_link_def)
next
  case (Some l)
  with ok inv show ?thesis by (auto simp: sqlite_reserve_def assert_link_row_def link_reserved_def)
qed

lemma pg_reserve_step:
  assumes inv: "store_inv di D F st" and ok: "pg_reserve pid item h now st = Inr (r, st')"
  shows "store_inv di D F st' \<and> store_grows di st st' \<and> link_reserved st' pid item h"
proof (cases "find_link st pid")
  case None
  show ?thesis
  proof (cases "list_ex (\<lambda>i. cr_uuid i = item \<and> cr_disposition i = ''durable_candidate'' \<and> cr_proposal i = Some pid) (st_items st)")
    case True
    with ok None obtain st1 where ins: "insert_link (new_link pid item h now) st = Inr st1" and "st' = st1"
      by (auto simp: pg_reserve_def Let_def split: option.splits)
    with True reserved_link_inv [OF inv ins] show ?thesis
      by (auto simp: list_ex_iff link_reserved_def new_link_def)
  next
    case False
    with ok None show ?thesis by (simp add: pg_reserve_def Let_def)
  qed
next
  case (Some l)
  with ok inv show ?thesis by (auto simp: pg_reserve_def Let_def assert_link_row_def link_reserved_def)
qed

lemma sqlite_command_step:
  assumes inv: "store_inv sqlite_dialect D F st" and ok: "sqlite_exec D F c now st = Inr (r, st')"
  shows "store_inv sqlite_dialect D F st' \<and> store_grows sqlite_dialect st st' \<and>
     (store_grows sqlite_dialect st' st'' \<longrightarrow> (\<exists>r'. sqlite_exec D F c now' st'' = Inr (r', st'')))"
proof (cases c)
  case (PersistPlan plan b)
  with sqlite_persist_step [OF inv] ok show ?thesis by simp
next
  case (ReserveCandidate pid item h)
  with ok have "sqlite_reserve pid item h now st = Inr (r, st')" by simp
  note step = sqlite_reserve_step [OF inv this]
  have "\<exists>r'. sqlite_reserve pid item h now' st'' = Inr (r', st'')" if "store_grows sqlite_dialect st' st''"
    using reserved_replay(1) link_reserved_grows step that by blast
  with step ReserveCandidate show ?thesis by simp
next
  case (CreateAndLink p cand items a)
  with ok have ok': "create_and_link sqlite_dialect D F p cand items a now st = Inr (r, st')" by simp
  from lite.settled_exec [OF lite.settled_grows [OF lite.created_settled [OF inv ok']]] lite.create_and_link_inv [OF inv ok'] CreateAndLink
  show ?thesis by auto
qed

lemma pg_command_step:
  assumes inv: "store_inv pg_dialect D F st" and ok: "pg_exec D F c now st = Inr (r, st')"
  shows "store_inv pg_dialect D F st' \<and> store_grows pg_dialect st st' \<and>
     (store_grows pg_dialect st' st'' \<longrightarrow> (\<exists>r'. pg_exec D F c now' st'' = Inr (r', st'')))"
proof (cases c)
  case (PersistPlan plan b)
  with pg_persist_step [OF inv] ok show ?thesis by simp
next
  case (ReserveCandidate pid item h)
  with ok have "pg_reserve pid item h now st = Inr (r, st')" by simp
  note step = pg_reserve_step [OF inv this]
  have "\<exists>r'. pg_reserve pid item h now' st'' = Inr (r', st'')" if "store_grows pg_dialect st' st''"
    using reserved_replay(2) link_reserved_grows step that by blast
  with step ReserveCandidate show ?thesis by simp
next
  case (CreateAndLink p cand items a)
  with ok have ok': "create_and_link pg_dialect D F p cand items a now st = Inr (r, st')" by simp
  from full.settled_exec [OF full.settled_grows [OF full.created_settled [OF inv ok']]] full.create_and_link_inv [OF inv ok'] CreateAndLink
  show ?thesis by auto
qed

interpretation lite_store: replayable "sqlite_exec D F" "store_inv sqlite_dialect D F" "store_grows sqlite_dialect" for D F
proof unfold_locales
  fix c t r s s'
  show "store_inv sqlite_dialect D F s \<Longrightarrow> sqlite_exec D F c t s = Inr (r, s') \<Longrightarrow> store_inv sqlite_dialect D F s'"
    and "store_inv sqlite_dialect D F s \<Longrightarrow> sqlite_exec D F c t s = Inr (r, s') \<Longrightarrow> store_grows sqlite_dialect s s'"
    using sqlite_command_step by blast+
qed (use store_grows_trans sqlite_command_step in \<open>blast intro: store_grows_refl\<close>)+

interpretation full_store: replayable "pg_exec D F" "store_inv pg_dialect D F" "store_grows pg_dialect" for D F
proof unfold_locales
  fix c t r s s'
  show "store_inv pg_dialect D F s \<Longrightarrow> pg_exec D F c t s = Inr (r, s') \<Longrightarrow> store_inv pg_dialect D F s'"
    and "store_inv pg_dialect D F s \<Longrightarrow> pg_exec D F c t s = Inr (r, s') \<Longrightarrow> store_grows pg_dialect s s'"
    using pg_command_step by blast+
qed (use store_grows_trans pg_command_step in \<open>blast intro: store_grows_refl\<close>)+

end
