(* ===== verification/AttemptAudit.thy ===== *)
theory AttemptAudit
  imports EvidenceValidation
begin

text \<open>
  The canonical stage status (\<open>model_control/stage_status.py\<close>) and the durable audit of paid
  provider attempts (\<open>memory_worker/attempt_audit.py\<close>): reserve before the call, finalize after
  it.  An operation of the worker is a function of an environment and a world.  The world holds
  what outlives the process (the table of attempts) and the log of the remote calls that were
  made; the environment decides, by the number of effects so far, whether the process still lives,
  whether revalidation raises and what the provider answers.  A crash is the error \<open>Crashed\<close> at
  an effect: everything committed before it stays.
\<close>

section \<open>Stage status\<close>

datatype stage_status = ST_OK | ST_ABSTAINED | ST_FAILED_OPEN | ST_FAILED

fun stage_status_value :: "stage_status \<Rightarrow> string" where
  "stage_status_value ST_OK = ''ok''"
| "stage_status_value ST_ABSTAINED = ''abstained''"
| "stage_status_value ST_FAILED_OPEN = ''failed_open''"
| "stage_status_value ST_FAILED = ''failed''"

definition all_stage_statuses :: "stage_status list" where
  "all_stage_statuses = [ST_OK, ST_ABSTAINED, ST_FAILED_OPEN, ST_FAILED]"

definition historical_stage_status :: "ustr \<Rightarrow> stage_status option" where
  "historical_stage_status t = map_of
     [(lit ''success'', ST_OK), (lit ''succeeded'', ST_OK), (lit ''abstain'', ST_ABSTAINED),
      (lit ''disabled'', ST_ABSTAINED), (lit ''fallback'', ST_FAILED_OPEN),
      (lit ''degraded'', ST_FAILED_OPEN), (lit ''error'', ST_FAILED)] t"

text \<open>\<open>str(value or default).strip().lower()\<close>; the text of a value that is neither a string nor
  null is none of the words compared below and is left out.\<close>

definition status_text :: "unidb \<Rightarrow> string \<Rightarrow> json \<Rightarrow> ustr option" where
  "status_text U dflt v =
     (if \<not> truthy v then Some (lit dflt)
      else (case v of JStr s \<Rightarrow> Some (py_lower U (py_strip U s)) | _ \<Rightarrow> None))"

definition normalize_stage_status :: "unidb \<Rightarrow> json \<Rightarrow> bool \<Rightarrow> (unit, stage_status) result" where
  "normalize_stage_status U v historical =
     (case status_text U '''' v of
        None \<Rightarrow> Inl ()
      | Some t \<Rightarrow>
          (case List.find (\<lambda>s. lit (stage_status_value s) = t) all_stage_statuses of
             Some s \<Rightarrow> Inr s
           | None \<Rightarrow> (if historical then
               (case historical_stage_status t of Some s \<Rightarrow> Inr s | None \<Rightarrow> Inl ()) else Inl ())))"

definition stage_status_for_output :: "unidb \<Rightarrow> json \<Rightarrow> bool \<Rightarrow> bool \<Rightarrow> stage_status" where
  "stage_status_for_output U v fallback_used provider_failed =
     (if fallback_used \<and> provider_failed then ST_FAILED_OPEN
      else (case status_text U ''ok'' v of
              None \<Rightarrow> ST_OK
            | Some t \<Rightarrow>
                (if t \<in> {lit ''abstain'', lit ''abstained''} then ST_ABSTAINED
                 else if t \<in> {lit ''reject'', lit ''error'', lit ''failed''} then ST_FAILED
                 else ST_OK)))"

section \<open>Attempts\<close>

type_synonym issue = "ustr option \<times> ustr option \<times> ustr option"  \<comment> \<open>path, code, message\<close>
type_synonym jdict = "(string \<times> json) list"

record provider_attempt =
  at_parsed :: "jdict option"
  at_parse_error :: "ustr option"
  at_response_id :: "string option"
  at_http_status :: "nat option"
  at_input_tokens :: nat
  at_output_tokens :: nat
  at_latency_ms :: nat

record provider_error =
  pe_category :: string
  pe_http_status :: "nat option"
  pe_latency_ms :: nat

datatype provider_reply = Reply provider_attempt | Failure provider_error

record frozen_execution =
  fx_stage_execution_uuid :: string
  fx_processing_run_uuid :: string
  fx_job_uuid :: "string option"
  fx_source_type :: string
  fx_source_uuid :: string
  fx_requested_role :: string
  fx_effective_role :: string
  fx_model_profile_uuid :: "string option"
  fx_profile_fingerprint :: string
  fx_scope_source :: string
  fx_inheritance_source :: "string option"
  fx_provider_type :: string
  fx_model_name :: string
  fx_capability_mode :: string
  fx_prompt_id :: string
  fx_prompt_version :: string
  fx_contract_hash :: string
  fx_input_hash :: string
  fx_idempotency_identity :: string
  fx_deterministic_fallback_version :: string

record attempt_row =
  ar_attempt_uuid :: string
  ar_frozen :: frozen_execution
  ar_index :: nat
  ar_kind :: string
  ar_identity :: string
  ar_transport_status :: string
  ar_parse_status :: string
  ar_schema_valid :: "bool option"
  ar_canonicalized :: bool
  ar_validation :: "(ustr \<times> ustr) list"
  ar_output_hash :: "string option"
  ar_response_id :: "string option"
  ar_http_status :: "nat option"
  ar_input_tokens :: nat
  ar_output_tokens :: nat
  ar_latency_ms :: nat
  ar_started_at :: nat
  ar_completed_at :: "nat option"

record provider_call =
  pc_identity :: "string option"     \<comment> \<open>the reservation the call was made under, if audited\<close>
  pc_corrective :: "json option"
  pc_schema_name :: string

record world =
  w_tick :: nat
  w_rows :: "attempt_row list"
  w_calls :: "provider_call list"

record env =
  ev_alive :: "nat \<Rightarrow> bool"
  ev_revalidate :: "nat \<Rightarrow> string option"
  ev_reply :: "nat \<Rightarrow> provider_reply"

datatype exec_error =
    Crashed | Invalidated string | NoDeterministicFallback string
  | DeterministicContractError "ustr list" | UnsupportedKind | NotSized
  | NotIJson ijson_error

type_synonym 'a exec = "env \<Rightarrow> world \<Rightarrow> (exec_error, 'a) result \<times> world"

definition eret :: "'a \<Rightarrow> 'a exec" where
  "eret x = (\<lambda>_ w. (Inr x, w))"

definition elift :: "(exec_error, 'a) result \<Rightarrow> 'a exec" where
  "elift r = (\<lambda>_ w. (r, w))"

definition ebind :: "'a exec \<Rightarrow> ('a \<Rightarrow> 'b exec) \<Rightarrow> 'b exec" where
  "ebind m f = (\<lambda>ev w. case m ev w of (Inl e, w') \<Rightarrow> (Inl e, w') | (Inr x, w') \<Rightarrow> f x ev w')"

text \<open>One effect: it takes place only in a living process.\<close>

definition effect :: "(env \<Rightarrow> world \<Rightarrow> (exec_error, 'a) result \<times> world) \<Rightarrow> 'a exec" where
  "effect f = (\<lambda>ev w. if ev_alive ev (w_tick w) then f ev (w\<lparr>w_tick := Suc (w_tick w)\<rparr>)
                      else (Inl Crashed, w))"

section \<open>The audit repository\<close>

fun nat_text :: "nat \<Rightarrow> string" where
  "nat_text n = (if n < 10 then [char_of (48 + n)] else nat_text (n div 10) @ [char_of (48 + n mod 10)])"

declare nat_text.simps [simp del]

definition attempt_identity :: "frozen_execution \<Rightarrow> nat \<Rightarrow> string" where
  "attempt_identity fx i = fx_idempotency_identity fx @ '':provider:'' @ nat_text i"

definition NAMESPACE_URL :: string where
  "NAMESPACE_URL = ''6ba7b811-9dad-11d1-80b4-00c04fd430c8''"

definition stable_stage_execution_uuid :: "(string \<Rightarrow> string \<Rightarrow> string) \<Rightarrow> string \<Rightarrow> string" where
  "stable_stage_execution_uuid uuid5 identity = uuid5 NAMESPACE_URL (''memorist:stage:'' @ identity)"

definition stable_provider_attempt_uuid ::
  "(string \<Rightarrow> string \<Rightarrow> string) \<Rightarrow> string \<Rightarrow> nat \<Rightarrow> string" where
  "stable_provider_attempt_uuid uuid5 stage i =
     uuid5 NAMESPACE_URL (''memorist:attempt:'' @ stage @ '':'' @ nat_text i)"

datatype reservation = Reserved | UnknownCompletion | Completed

fun reservation_value :: "reservation \<Rightarrow> string" where
  "reservation_value Reserved = ''reserved''"
| "reservation_value UnknownCompletion = ''unknown_completion''"
| "reservation_value Completed = ''completed''"

definition new_row ::
  "(string \<Rightarrow> string \<Rightarrow> string) \<Rightarrow> frozen_execution \<Rightarrow> nat \<Rightarrow> string \<Rightarrow> nat \<Rightarrow> attempt_row" where
  "new_row uuid5 fx i kind now =
     \<lparr>ar_attempt_uuid = stable_provider_attempt_uuid uuid5 (fx_stage_execution_uuid fx) i,
      ar_frozen = fx, ar_index = i, ar_kind = kind, ar_identity = attempt_identity fx i,
      ar_transport_status = ''unknown_completion'', ar_parse_status = ''not_observed'',
      ar_schema_valid = None, ar_canonicalized = False, ar_validation = [], ar_output_hash = None,
      ar_response_id = None, ar_http_status = None, ar_input_tokens = 0, ar_output_tokens = 0,
      ar_latency_ms = 0, ar_started_at = now, ar_completed_at = None\<rparr>"

text \<open>\<open>INSERT ... ON CONFLICT (idempotency_identity) DO NOTHING\<close>: the flag is \<open>rowcount == 1\<close>.\<close>

definition insert_row :: "attempt_row \<Rightarrow> world \<Rightarrow> bool \<times> world" where
  "insert_row r w =
     (if list_ex (\<lambda>r'. ar_identity r' = ar_identity r) (w_rows w) then (False, w)
      else (True, w\<lparr>w_rows := w_rows w @ [r]\<rparr>))"

definition reserve ::
  "(string \<Rightarrow> string \<Rightarrow> string) \<Rightarrow> frozen_execution \<Rightarrow> nat \<Rightarrow> string \<Rightarrow> reservation exec" where
  "reserve uuid5 fx i kind =
     (if kind \<notin> {''initial'', ''repair''} then elift (Inl UnsupportedKind)
      else effect (\<lambda>ev w.
        let (inserted, w') = insert_row (new_row uuid5 fx i kind (w_tick w)) w in
        if inserted then (Inr Reserved, w')
        else (case List.find (\<lambda>r. ar_identity r = attempt_identity fx i) (w_rows w') of
                None \<Rightarrow> (Inr UnknownCompletion, w')
              | Some r \<Rightarrow> (Inr (if ar_completed_at r \<noteq> None then Completed else UnknownCompletion), w'))))"

definition or_text :: "ustr option \<Rightarrow> string \<Rightarrow> ustr" where
  "or_text x d = (case x of None \<Rightarrow> lit d | Some s \<Rightarrow> (if s = [] then lit d else s))"

definition bounded_validation :: "issue list \<Rightarrow> (ustr \<times> ustr) list" where
  "bounded_validation issues =
     map (\<lambda>(path, code, _). (take 160 (or_text path ''(root)''), take 80 (or_text code ''invalid'')))
       (take 20 issues)"

text \<open>The issues stored with an attempt, as \<open>dump_ijson\<close> admits them.\<close>

definition validation_json :: "(ustr \<times> ustr) list \<Rightarrow> json" where
  "validation_json vs = JList (map (\<lambda>(path, code). JObj [(''path'', JStr path), (''code'', JStr code)]) vs)"

definition ijson_check :: "(ustr \<Rightarrow> bool) \<Rightarrow> json \<Rightarrow> unit exec" where
  "ijson_check ts_ok v = elift (map_sum NotIJson id (validate_ijson_value ts_ok v))"

text \<open>\<open>UPDATE ... WHERE stage_execution_uuid = ? AND attempt_index = ? AND completed_at IS NULL\<close>.\<close>

definition update_attempt ::
  "frozen_execution \<Rightarrow> nat \<Rightarrow> (attempt_row \<Rightarrow> attempt_row) \<Rightarrow> unit exec" where
  "update_attempt fx i f = effect (\<lambda>ev w.
     (Inr (), w\<lparr>w_rows := map (\<lambda>r.
        if fx_stage_execution_uuid (ar_frozen r) = fx_stage_execution_uuid fx \<and> ar_index r = i \<and>
           ar_completed_at r = None
        then (f r)\<lparr>ar_completed_at := Some (w_tick w)\<rparr> else r) (w_rows w)\<rparr>))"

text \<open>The hash of the answer and the serialisation of the issues may raise before anything is
  written: the answer was parsed by the standard library, not by \<open>load_ijson\<close>.\<close>

definition output_hash ::
  "(ustr \<Rightarrow> bool) \<Rightarrow> (json \<Rightarrow> string) \<Rightarrow> jdict option \<Rightarrow> string option exec" where
  "output_hash ts_ok hash parsed =
     (case parsed of None \<Rightarrow> eret None
      | Some d \<Rightarrow> elift (map_sum NotIJson Some (canonical_hash_ijson ts_ok hash (JObj d))))"

definition finalize ::
  "(ustr \<Rightarrow> bool) \<Rightarrow> (json \<Rightarrow> string) \<Rightarrow> frozen_execution \<Rightarrow> nat \<Rightarrow> provider_attempt \<Rightarrow> bool \<Rightarrow> bool
     \<Rightarrow> issue list \<Rightarrow> unit exec" where
  "finalize ts_ok hash fx i a valid canonicalized issues =
     ebind (output_hash ts_ok hash (at_parsed a)) (\<lambda>h.
     ebind (ijson_check ts_ok (validation_json (bounded_validation issues))) (\<lambda>_.
     update_attempt fx i (\<lambda>r. r\<lparr>
       ar_output_hash := h,
       ar_response_id := at_response_id a, ar_http_status := at_http_status a,
       ar_transport_status := ''ok'',
       ar_parse_status := (if at_parsed a \<noteq> None then ''parsed'' else ''parse_failed''),
       ar_schema_valid := Some valid, ar_canonicalized := canonicalized,
       ar_validation := bounded_validation issues, ar_input_tokens := at_input_tokens a,
       ar_output_tokens := at_output_tokens a, ar_latency_ms := at_latency_ms a\<rparr>)))"

text \<open>The category of a transport error is one of the client's words, which are ASCII.\<close>

definition finalize_error ::
  "frozen_execution \<Rightarrow> nat \<Rightarrow> provider_error \<Rightarrow> nat option \<Rightarrow> unit exec" where
  "finalize_error fx i e latency = update_attempt fx i (\<lambda>r. r\<lparr>
     ar_output_hash := None, ar_response_id := None, ar_http_status := pe_http_status e,
     ar_transport_status := pe_category e, ar_parse_status := ''error'',
     ar_schema_valid := Some False, ar_canonicalized := False,
     ar_validation := bounded_validation [(Some (lit ''(transport)''), Some (lit (pe_category e)), None)],
     ar_input_tokens := 0, ar_output_tokens := 0,
     ar_latency_ms := (case latency of None \<Rightarrow> pe_latency_ms e | Some l \<Rightarrow> l)\<rparr>)"

definition attempt_total :: "frozen_execution \<Rightarrow> nat exec" where
  "attempt_total fx = effect (\<lambda>ev w. (Inr (length (filter
     (\<lambda>r. fx_stage_execution_uuid (ar_frozen r) = fx_stage_execution_uuid fx) (w_rows w))), w))"

section \<open>The interface of a reservation ledger\<close>

text \<open>
  Whoever performs an action only under a key it has just reserved, and can reserve a key only
  once, performs it at most once per key, across crashes and restarts.
\<close>

locale reservation_ledger =
  fixes reserved :: "'s \<Rightarrow> 'k set"
    and performed :: "'s \<Rightarrow> 'k list"
    and claim :: "'k \<Rightarrow> 's \<Rightarrow> bool \<times> 's"
    and perform :: "'k \<Rightarrow> 's \<Rightarrow> 's"
  assumes claim_fresh: "claim k s = (True, s') \<Longrightarrow> k \<notin> reserved s"
    and claim_reserves: "claim k s = (b, s') \<Longrightarrow> reserved s' = insert k (reserved s)"
    and claim_performs_nothing: "claim k s = (b, s') \<Longrightarrow> performed s' = performed s"
    and perform_logs: "performed (perform k s) = performed s @ [k]"
    and perform_keeps: "reserved (perform k s) = reserved s"
begin

definition ledger_inv :: "'s \<Rightarrow> bool" where
  "ledger_inv s \<longleftrightarrow> distinct (performed s) \<and> set (performed s) \<subseteq> reserved s"

definition may_perform :: "'k \<Rightarrow> 's \<Rightarrow> bool" where
  "may_perform k s \<longleftrightarrow> ledger_inv s \<and> k \<in> reserved s \<and> k \<notin> set (performed s)"

lemma claim_inv: "ledger_inv s \<Longrightarrow> claim k s = (b, s') \<Longrightarrow> ledger_inv s'"
  by (auto simp: ledger_inv_def claim_reserves claim_performs_nothing)

lemma claim_may_perform: "ledger_inv s \<Longrightarrow> claim k s = (True, s') \<Longrightarrow> may_perform k s'"
  using claim_inv claim_fresh
  by (auto simp: may_perform_def ledger_inv_def claim_reserves claim_performs_nothing)

lemma may_perform_inv: "may_perform k s \<Longrightarrow> ledger_inv s"
  by (simp add: may_perform_def)

lemma perform_inv: "may_perform k s \<Longrightarrow> ledger_inv (perform k s)"
  by (auto simp: may_perform_def ledger_inv_def perform_logs perform_keeps)

end

definition row_identities :: "world \<Rightarrow> string set" where
  "row_identities w = ar_identity ` set (w_rows w)"

definition audited_calls :: "world \<Rightarrow> string list" where
  "audited_calls w = List.map_filter pc_identity (w_calls w)"

definition log_call :: "provider_call \<Rightarrow> world \<Rightarrow> world" where
  "log_call c w = w\<lparr>w_calls := w_calls w @ [c]\<rparr>"

lemma audited_calls_log [simp]:
  "audited_calls (log_call c w) = audited_calls w @ (case pc_identity c of None \<Rightarrow> [] | Some k \<Rightarrow> [k])"
  by (auto simp: audited_calls_def log_call_def List.map_filter_def split: option.split)

text \<open>The table of attempts is such a ledger for the provider calls, whatever a row and a call
  carry besides the identity.\<close>

interpretation audit: reservation_ledger row_identities audited_calls
    "\<lambda>k. insert_row (r\<lparr>ar_identity := k\<rparr>)" "\<lambda>k. log_call (c\<lparr>pc_identity := Some k\<rparr>)" for r c
  by unfold_locales
    (auto simp: insert_row_def row_identities_def audited_calls_def log_call_def list_ex_iff
      List.map_filter_def split: if_splits)

end
