(* ===== verification/ContractExecution.thy ===== *)
theory ContractExecution
  imports AttemptAudit
begin

text \<open>
  The state machine around a paid provider call (\<open>memory_worker/execution.py\<close>): first attempt,
  lossless canonicalisation, one bounded repair, deterministic fallback.  The definitions follow
  the sections of \<open>run_contract_execution\<close>; \<open>run_context\<close> holds its arguments.
\<close>

record outcome =
  oc_output :: jdict
  oc_status :: stage_status
  oc_called_provider :: bool
  oc_provider_output_valid :: bool
  oc_canonicalized :: bool
  oc_repair_attempted :: bool
  oc_repair_succeeded :: bool
  oc_fallback_used :: bool
  oc_fallback_reason :: "string option"
  oc_capability_mode :: string
  oc_provider_response_id :: "string option"
  oc_input_tokens :: nat
  oc_output_tokens :: nat
  oc_latency_ms :: nat
  oc_parse_status :: string
  oc_attempt_count :: nat
  oc_validation_error_paths :: "ustr list"

record run_context =
  cx_provider :: "string option"        \<comment> \<open>the capability mode of the provider, if there is one\<close>
  cx_schema_name :: "string option"     \<comment> \<open>of the contract, if there is one\<close>
  cx_validate :: "jdict \<Rightarrow> issue list"
  cx_deterministic :: jdict
  cx_revalidates :: bool
  cx_allow_fallback :: bool
  cx_audit :: "frozen_execution option"
  cx_hash :: "json \<Rightarrow> string"
  cx_ts_ok :: "ustr \<Rightarrow> bool"         \<comment> \<open>the RFC 3339 timestamp check\<close>
  cx_uuid5 :: "string \<Rightarrow> string \<Rightarrow> string"
  cx_unidb :: unidb

section \<open>Canonicalisation, paths, outcomes\<close>

definition status_aliases :: "ustr \<Rightarrow> ustr option" where
  "status_aliases t = map_of [(lit ''success'', lit ''ok'')] t"

definition canonicalize :: "run_context \<Rightarrow> jdict \<Rightarrow> jdict option" where
  "canonicalize cx out =
     (case jget out ''status'' of
        JStr status \<Rightarrow>
          (case status_aliases (py_lower (cx_unidb cx) (py_strip (cx_unidb cx) status)) of
             None \<Rightarrow> None
           | Some normalized \<Rightarrow>
               (if normalized = status then None
                else (let candidate = dict_set ''status'' (JStr normalized) out in
                      if cx_validate cx candidate \<noteq> [] then None else Some candidate)))
      | _ \<Rightarrow> None)"

definition issue_path :: "issue \<Rightarrow> ustr" where
  "issue_path i = or_text (fst i) ''(root)''"

definition paths :: "issue list \<Rightarrow> ustr list" where
  "paths issues = take 20 (foldl (\<lambda>seen i. if issue_path i \<in> set seen then seen else seen @ [issue_path i]) [] issues)"

definition status_for :: "run_context \<Rightarrow> jdict \<Rightarrow> bool \<Rightarrow> bool \<Rightarrow> stage_status" where
  "status_for cx out fb failed = stage_status_for_output (cx_unidb cx) (jget out ''status'') fb failed"

record usage =
  us_response_id :: "string option"
  us_input_tokens :: nat
  us_output_tokens :: nat
  us_latency_ms :: nat

definition no_usage :: usage where
  "no_usage = \<lparr>us_response_id = None, us_input_tokens = 0, us_output_tokens = 0, us_latency_ms = 0\<rparr>"

definition valid_provider_outcome ::
  "run_context \<Rightarrow> jdict \<Rightarrow> string \<Rightarrow> usage \<Rightarrow> bool \<Rightarrow> bool \<Rightarrow> bool \<Rightarrow> nat \<Rightarrow> outcome" where
  "valid_provider_outcome cx out mode us canonicalized attempted succeeded cnt =
     \<lparr>oc_output = out, oc_status = status_for cx out False False, oc_called_provider = True,
      oc_provider_output_valid = True, oc_canonicalized = canonicalized,
      oc_repair_attempted = attempted, oc_repair_succeeded = succeeded, oc_fallback_used = False,
      oc_fallback_reason = None, oc_capability_mode = mode, oc_provider_response_id = us_response_id us,
      oc_input_tokens = us_input_tokens us, oc_output_tokens = us_output_tokens us,
      oc_latency_ms = us_latency_ms us, oc_parse_status = ''parsed'', oc_attempt_count = cnt,
      oc_validation_error_paths = []\<rparr>"

definition fallback ::
  "run_context \<Rightarrow> string \<Rightarrow> string \<Rightarrow> bool \<Rightarrow> string \<Rightarrow> usage \<Rightarrow> nat \<Rightarrow> ustr list
     \<Rightarrow> (exec_error, outcome) result" where
  "fallback cx reason mode attempted parse_status us cnt error_paths =
     (if \<not> cx_allow_fallback cx then Inl (NoDeterministicFallback reason)
      else (let out = cx_deterministic cx; issues = cx_validate cx out in
        if issues \<noteq> [] then Inl (DeterministicContractError (paths issues))
        else Inr \<lparr>oc_output = out, oc_status = status_for cx out True True, oc_called_provider = True,
          oc_provider_output_valid = False, oc_canonicalized = False, oc_repair_attempted = attempted,
          oc_repair_succeeded = False, oc_fallback_used = True, oc_fallback_reason = Some reason,
          oc_capability_mode = mode, oc_provider_response_id = us_response_id us,
          oc_input_tokens = us_input_tokens us, oc_output_tokens = us_output_tokens us,
          oc_latency_ms = us_latency_ms us, oc_parse_status = parse_status, oc_attempt_count = cnt,
          oc_validation_error_paths = error_paths\<rparr>))"

section \<open>The effects of a run\<close>

definition do_revalidate :: "run_context \<Rightarrow> unit exec" where
  "do_revalidate cx =
     (if cx_revalidates cx
      then effect (\<lambda>ev w. (case ev_revalidate ev (w_tick w) of
             None \<Rightarrow> Inr () | Some e \<Rightarrow> Inl (Invalidated e), w))
      else eret ())"

definition do_reserve :: "run_context \<Rightarrow> nat \<Rightarrow> string \<Rightarrow> reservation exec" where
  "do_reserve cx i kind =
     (case cx_audit cx of None \<Rightarrow> eret Reserved | Some fx \<Rightarrow> reserve (cx_uuid5 cx) fx i kind)"

definition call_record :: "run_context \<Rightarrow> nat \<Rightarrow> json option \<Rightarrow> provider_call" where
  "call_record cx i corrective =
     \<lparr>pc_identity = map_option (\<lambda>fx. attempt_identity fx i) (cx_audit cx), pc_corrective = corrective,
      pc_schema_name = (case cx_schema_name cx of None \<Rightarrow> ''memorist_structured_output'' | Some n \<Rightarrow> n)\<rparr>"

definition do_call :: "run_context \<Rightarrow> nat \<Rightarrow> json option \<Rightarrow> provider_reply exec" where
  "do_call cx i corrective =
     effect (\<lambda>ev w. (Inr (ev_reply ev (w_tick w)), log_call (call_record cx i corrective) w))"

definition do_finalize ::
  "run_context \<Rightarrow> nat \<Rightarrow> provider_attempt \<Rightarrow> bool \<Rightarrow> bool \<Rightarrow> issue list \<Rightarrow> unit exec" where
  "do_finalize cx i a valid canonicalized issues =
     (case cx_audit cx of None \<Rightarrow> eret ()
      | Some fx \<Rightarrow> finalize (cx_ts_ok cx) (cx_hash cx) fx i a valid canonicalized issues)"

definition do_finalize_error :: "run_context \<Rightarrow> nat \<Rightarrow> provider_error \<Rightarrow> unit exec" where
  "do_finalize_error cx i e =
     (case cx_audit cx of None \<Rightarrow> eret () | Some fx \<Rightarrow> finalize_error fx i e None)"

definition do_count :: "run_context \<Rightarrow> nat \<Rightarrow> nat exec" where
  "do_count cx dflt = (case cx_audit cx of None \<Rightarrow> eret dflt | Some fx \<Rightarrow> attempt_total fx)"

definition parse_issue :: "provider_attempt \<Rightarrow> issue" where
  "parse_issue a = (Some (lit ''(root)''), Some (lit ''parse''), Some (or_text (at_parse_error a) ''invalid JSON''))"

definition with_fallback ::
  "run_context \<Rightarrow> string \<Rightarrow> string \<Rightarrow> bool \<Rightarrow> string \<Rightarrow> usage \<Rightarrow> nat \<Rightarrow> ustr list \<Rightarrow> outcome exec" where
  "with_fallback cx reason mode attempted parse_status us dflt error_paths =
     ebind (do_count cx dflt) (\<lambda>n. elift (fallback cx reason mode attempted parse_status us n error_paths))"

definition reservation_reason :: "reservation \<Rightarrow> string" where
  "reservation_reason r =
     (if r = UnknownCompletion then ''provider_attempt_unknown_completion''
      else ''provider_attempt_already_completed'')"

section \<open>The sections of \<open>run_contract_execution\<close>\<close>

definition items_length :: "jdict \<Rightarrow> (exec_error, nat) result" where
  "items_length out =
     (let pick = (\<lambda>k rest. if truthy (jget out k) then jget out k else rest);
          v = pick ''items'' (pick ''sentences'' (pick ''semantic_units'' (JList [])))
      in case v of JList xs \<Rightarrow> Inr (length xs) | JStr s \<Rightarrow> Inr (length s) | JObj d \<Rightarrow> Inr (length d)
         | _ \<Rightarrow> Inl NotSized)"

definition deterministic_profile :: "run_context \<Rightarrow> (exec_error, outcome) result" where
  "deterministic_profile cx =
     (let out = cx_deterministic cx; issues = cx_validate cx out in
      if issues \<noteq> [] then Inl (DeterministicContractError (paths issues))
      else rbind (items_length out) (\<lambda>n. Inr
        \<lparr>oc_output = out, oc_status = status_for cx out False False, oc_called_provider = False,
         oc_provider_output_valid = False, oc_canonicalized = False, oc_repair_attempted = False,
         oc_repair_succeeded = False, oc_fallback_used = False, oc_fallback_reason = None,
         oc_capability_mode = ''deterministic'', oc_provider_response_id = None, oc_input_tokens = 0,
         oc_output_tokens = n, oc_latency_ms = 0, oc_parse_status = ''not_called'',
         oc_attempt_count = 0, oc_validation_error_paths = []\<rparr>))"

text \<open>The first attempt ends the run or leaves the attempt, the issues and the parse status.\<close>

type_synonym first_result = "outcome + (provider_attempt \<times> issue list \<times> string)"

definition usage_of :: "provider_attempt \<Rightarrow> usage" where
  "usage_of a = \<lparr>us_response_id = at_response_id a, us_input_tokens = at_input_tokens a,
     us_output_tokens = at_output_tokens a, us_latency_ms = at_latency_ms a\<rparr>"

definition first_parsed :: "run_context \<Rightarrow> string \<Rightarrow> provider_attempt \<Rightarrow> jdict \<Rightarrow> first_result exec" where
  "first_parsed cx mode a parsed =
     (let issues = cx_validate cx parsed;
          canonical = (if issues \<noteq> [] then canonicalize cx parsed else None) in
      ebind (do_finalize cx 1 a (issues = []) (canonical \<noteq> None) issues) (\<lambda>_.
      ebind (do_revalidate cx) (\<lambda>_.
        if issues = [] then
          ebind (do_count cx 1) (\<lambda>n. eret (Inl (valid_provider_outcome cx parsed mode (usage_of a) False False False n)))
        else case canonical of
          Some c \<Rightarrow>
            ebind (do_count cx 1) (\<lambda>n. eret (Inl (valid_provider_outcome cx c mode (usage_of a) True False False n)))
        | None \<Rightarrow> eret (Inr (a, issues, ''parsed'')))))"

definition first_attempt :: "run_context \<Rightarrow> string \<Rightarrow> first_result exec" where
  "first_attempt cx mode =
     ebind (do_revalidate cx) (\<lambda>_.
     ebind (do_reserve cx 1 ''initial'') (\<lambda>r.
       if r \<noteq> Reserved then
         ebind (do_revalidate cx) (\<lambda>_.
         ebind (with_fallback cx (reservation_reason r) mode False (reservation_value r) no_usage 0 [])
           (\<lambda>out. eret (Inl out)))
       else
         ebind (do_call cx 1 None) (\<lambda>reply.
           case reply of
             Failure e \<Rightarrow>
               ebind (do_finalize_error cx 1 e) (\<lambda>_.
               ebind (do_revalidate cx) (\<lambda>_.
               ebind (with_fallback cx (''provider_'' @ pe_category e) mode False ''error''
                        (no_usage\<lparr>us_latency_ms := pe_latency_ms e\<rparr>) 1 [])
                 (\<lambda>out. eret (Inl out))))
           | Reply a \<Rightarrow>
               (case at_parsed a of
                  Some parsed \<Rightarrow> first_parsed cx mode a parsed
                | None \<Rightarrow>
                    ebind (do_finalize cx 1 a False False [parse_issue a]) (\<lambda>_.
                    ebind (do_revalidate cx) (\<lambda>_. eret (Inr (a, [], ''parse_failed''))))))))"

definition issue_json :: "issue \<Rightarrow> json" where
  "issue_json i = JObj ((case fst i of None \<Rightarrow> [] | Some p \<Rightarrow> [(''path'', JStr p)]) @
     (case fst (snd i) of None \<Rightarrow> [] | Some p \<Rightarrow> [(''code'', JStr p)]) @
     (case snd (snd i) of None \<Rightarrow> [] | Some p \<Rightarrow> [(''message'', JStr p)]))"

definition corrective_of :: "provider_attempt \<Rightarrow> issue list \<Rightarrow> json" where
  "corrective_of a issues = JObj
     [(''invalid_output'', JObj (case at_parsed a of None \<Rightarrow> [] | Some d \<Rightarrow> d)),
      (''issues'', JList (map issue_json (if issues = [] then [parse_issue a] else issues)))]"

definition add_usage :: "usage \<Rightarrow> provider_attempt \<Rightarrow> usage" where
  "add_usage us r =
     \<lparr>us_response_id = (case at_response_id r of None \<Rightarrow> us_response_id us
        | Some s \<Rightarrow> (if s = [] then us_response_id us else Some s)),
      us_input_tokens = us_input_tokens us + at_input_tokens r,
      us_output_tokens = us_output_tokens us + at_output_tokens r,
      us_latency_ms = us_latency_ms us + at_latency_ms r\<rparr>"

definition invalid_fallback :: "run_context \<Rightarrow> string \<Rightarrow> string \<Rightarrow> usage \<Rightarrow> issue list \<Rightarrow> outcome exec" where
  "invalid_fallback cx mode parse_status us issues =
     with_fallback cx ''provider_output_contract_invalid'' mode True parse_status us 2 (paths issues)"

definition repair_parsed ::
  "run_context \<Rightarrow> string \<Rightarrow> usage \<Rightarrow> provider_attempt \<Rightarrow> jdict \<Rightarrow> outcome exec" where
  "repair_parsed cx mode us r parsed =
     (let issues = cx_validate cx parsed;
          canonical = (if issues \<noteq> [] then canonicalize cx parsed else None) in
      ebind (do_finalize cx 2 r (issues = []) (canonical \<noteq> None) issues) (\<lambda>_.
      ebind (do_revalidate cx) (\<lambda>_.
        if issues = [] then
          ebind (do_count cx 2) (\<lambda>n. eret (valid_provider_outcome cx parsed mode us False True True n))
        else case canonical of
          Some c \<Rightarrow> ebind (do_count cx 2) (\<lambda>n. eret (valid_provider_outcome cx c mode us True True True n))
        | None \<Rightarrow> invalid_fallback cx mode ''parsed'' us issues)))"

definition bounded_repair ::
  "run_context \<Rightarrow> string \<Rightarrow> provider_attempt \<Rightarrow> issue list \<Rightarrow> string \<Rightarrow> outcome exec" where
  "bounded_repair cx mode a last_issues parse_status =
     ebind (do_revalidate cx) (\<lambda>_.
     ebind (do_reserve cx 2 ''repair'') (\<lambda>rv.
       if rv \<noteq> Reserved then
         ebind (do_revalidate cx) (\<lambda>_.
           with_fallback cx (reservation_reason rv) mode True (reservation_value rv) (usage_of a) 0
             (paths last_issues))
       else
         ebind (do_call cx 2 (Some (corrective_of a last_issues))) (\<lambda>reply.
           case reply of
             Failure e \<Rightarrow>
               ebind (do_finalize_error cx 2 e) (\<lambda>_.
               ebind (do_revalidate cx) (\<lambda>_.
                 with_fallback cx (''provider_'' @ pe_category e) mode True parse_status
                   ((usage_of a)\<lparr>us_latency_ms := at_latency_ms a + pe_latency_ms e\<rparr>) 2 (paths last_issues)))
           | Reply r \<Rightarrow>
               (let us = add_usage (usage_of a) r in
                case at_parsed r of
                  Some parsed \<Rightarrow> repair_parsed cx mode us r parsed
                | None \<Rightarrow>
                    ebind (do_finalize cx 2 r False False [parse_issue r]) (\<lambda>_.
                    ebind (do_revalidate cx) (\<lambda>_.
                      invalid_fallback cx mode parse_status us last_issues))))))"

definition run_contract_execution :: "run_context \<Rightarrow> outcome exec" where
  "run_contract_execution cx =
     (case cx_provider cx of
        None \<Rightarrow> elift (deterministic_profile cx)
      | Some mode \<Rightarrow>
          ebind (first_attempt cx mode) (\<lambda>res.
            case res of
              Inl out \<Rightarrow> eret out
            | Inr (a, issues, parse_status) \<Rightarrow> bounded_repair cx mode a issues parse_status))"

section \<open>Rules for runs\<close>

text \<open>Three readings of an operation: what it keeps, what its results satisfy, and that it
  returns when the process lives and nothing is invalidated.\<close>

definition keeps :: "(world \<Rightarrow> bool) \<Rightarrow> 'a exec \<Rightarrow> bool" where
  "keeps I m \<longleftrightarrow> (\<forall>ev w r w'. I w \<longrightarrow> m ev w = (r, w') \<longrightarrow> I w')"

definition yields :: "('a \<Rightarrow> bool) \<Rightarrow> 'a exec \<Rightarrow> bool" where
  "yields P m \<longleftrightarrow> (\<forall>ev w x w'. m ev w = (Inr x, w') \<longrightarrow> P x)"

definition undisturbed :: "env \<Rightarrow> bool" where
  "undisturbed ev \<longleftrightarrow> (\<forall>n. ev_alive ev n \<and> ev_revalidate ev n = None)"

text \<open>An answer that \<open>finalize\<close> can hash: its object is in the I-JSON profile.\<close>

fun profiled :: "(ustr \<Rightarrow> bool) \<Rightarrow> provider_reply \<Rightarrow> bool" where
  "profiled ts_ok (Failure e) = True"
| "profiled ts_ok (Reply a) =
     (case at_parsed a of None \<Rightarrow> True | Some d \<Rightarrow> validate_ijson_value ts_ok (JObj d) = Inr ())"

definition profiled_replies :: "(ustr \<Rightarrow> bool) \<Rightarrow> env \<Rightarrow> bool" where
  "profiled_replies ts_ok ev \<longleftrightarrow> (\<forall>n. profiled ts_ok (ev_reply ev n))"

definition returns :: "(ustr \<Rightarrow> bool) \<Rightarrow> 'a exec \<Rightarrow> bool" where
  "returns ts_ok m \<longleftrightarrow>
     (\<forall>ev w. undisturbed ev \<longrightarrow> profiled_replies ts_ok ev \<longrightarrow> (\<exists>x w'. m ev w = (Inr x, w')))"

named_theorems run_rules

lemma ebind_run:
  "ebind m f ev w = (r, w') \<longleftrightarrow>
     (\<exists>e. m ev w = (Inl e, w') \<and> r = Inl e) \<or> (\<exists>x w1. m ev w = (Inr x, w1) \<and> f x ev w1 = (r, w'))"
  by (cases "m ev w"; cases "fst (m ev w)") (auto simp: ebind_def)

lemma keeps_ret [run_rules]: "keeps I (eret x)"
  by (simp add: keeps_def eret_def)

lemma keeps_lift [run_rules]: "keeps I (elift r)"
  by (simp add: keeps_def elift_def)

lemma keeps_bind [run_rules]: "keeps I m \<Longrightarrow> (\<And>x. keeps I (f x)) \<Longrightarrow> keeps I (ebind m f)"
  unfolding keeps_def ebind_run by metis

lemma keeps_effect:
  "(\<And>ev w r w'. I w \<Longrightarrow> f ev (w\<lparr>w_tick := Suc (w_tick w)\<rparr>) = (r, w') \<Longrightarrow> I w') \<Longrightarrow> keeps I (effect f)"
  by (auto simp: keeps_def effect_def split: if_splits)

lemma keeps_runD: "keeps I m \<Longrightarrow> I w \<Longrightarrow> m ev w = (r, w') \<Longrightarrow> I w'"
  unfolding keeps_def by blast

lemma yields_ret: "P x \<Longrightarrow> yields P (eret x)"
  by (simp add: yields_def eret_def)

lemma yields_lift: "(\<And>x. r = Inr x \<Longrightarrow> P x) \<Longrightarrow> yields P (elift r)"
  by (simp add: yields_def elift_def)

lemma yields_bind: "(\<And>x. yields P (f x)) \<Longrightarrow> yields P (ebind m f)"
  unfolding yields_def ebind_run by blast

lemma yields_bind_from: "yields Q m \<Longrightarrow> (\<And>x. Q x \<Longrightarrow> yields P (f x)) \<Longrightarrow> yields P (ebind m f)"
  unfolding yields_def ebind_run by blast

lemma returns_ret: "returns ts (eret x)"
  by (simp add: returns_def eret_def)

lemma returns_lift: "r = Inr x \<Longrightarrow> returns ts (elift r)"
  by (simp add: returns_def elift_def)

lemma returns_bind: "returns ts m \<Longrightarrow> (\<And>x. returns ts (f x)) \<Longrightarrow> returns ts (ebind m f)"
  unfolding returns_def ebind_run by metis

lemma returns_effect:
  "(\<And>ev w. undisturbed ev \<Longrightarrow> \<exists>x w'. f ev w = (Inr x, w')) \<Longrightarrow> returns ts (effect f)"
  by (simp add: returns_def effect_def undisturbed_def)

lemma returns_call:
  assumes "\<And>reply. profiled ts reply \<Longrightarrow> returns ts (f reply)"
  shows "returns ts (ebind (do_call cx i c) f)"
  unfolding returns_def
proof (intro allI impI)
  fix ev and w :: world
  assume ev: "undisturbed ev" "profiled_replies ts ev"
  let ?t = "Suc (w_tick w)"
  from ev have "do_call cx i c ev w =
      (Inr (ev_reply ev ?t), log_call (call_record cx i c) (w\<lparr>w_tick := Suc (w_tick w)\<rparr>))"
    by (simp add: do_call_def effect_def undisturbed_def)
  moreover have "returns ts (f (ev_reply ev ?t))"
    using ev(2) by (intro assms) (simp add: profiled_replies_def)
  ultimately show "\<exists>x w'. ebind (do_call cx i c) f ev w = (Inr x, w')"
    using ev by (simp add: ebind_def returns_def)
qed

section \<open>Every paid call under its own reservation\<close>

definition call_inv :: "string set \<Rightarrow> world \<Rightarrow> bool" where
  "call_inv A w \<longleftrightarrow> audit.ledger_inv w \<and> set (audited_calls w) \<subseteq> A"

lemma world_frame [simp]:
  "row_identities (w\<lparr>w_tick := n\<rparr>) = row_identities w"
  "audited_calls (w\<lparr>w_tick := n\<rparr>) = audited_calls w"
  "audited_calls (w\<lparr>w_rows := rs\<rparr>) = audited_calls w"
  "row_identities (log_call c w) = row_identities w"
  by (simp_all add: row_identities_def audited_calls_def log_call_def)

lemma row_identities_update:
  "(\<And>r. ar_identity (f r) = ar_identity r) \<Longrightarrow>
     row_identities (w\<lparr>w_tick := n, w_rows := map f (w_rows w)\<rparr>) = row_identities w"
  by (simp add: row_identities_def image_image)

lemma call_inv_iff:
  "call_inv A w \<longleftrightarrow> distinct (audited_calls w) \<and> set (audited_calls w) \<subseteq> row_identities w \<and>
     set (audited_calls w) \<subseteq> A"
  by (auto simp: call_inv_def audit.ledger_inv_def)

lemma keeps_revalidate [run_rules]: "keeps (call_inv A) (do_revalidate cx)"
  by (auto simp: do_revalidate_def run_rules call_inv_iff intro!: keeps_effect)

lemma keeps_update: "(\<And>r. ar_identity (f r) = ar_identity r) \<Longrightarrow> keeps (call_inv A) (update_attempt fx i f)"
  unfolding update_attempt_def
proof (rule keeps_effect, goal_cases)
  case (1 ev w r w')
  have "row_identities w' = row_identities w" "audited_calls w' = audited_calls w"
    using 1 by (auto intro!: row_identities_update)
  with 1(2) show ?case by (simp add: call_inv_iff)
qed

lemma keeps_finalize [run_rules]: "keeps (call_inv A) (do_finalize cx i a v c is)"
  by (auto simp: do_finalize_def finalize_def output_hash_def ijson_check_def run_rules split: option.split
      intro!: keeps_update run_rules)

lemma keeps_finalize_error [run_rules]: "keeps (call_inv A) (do_finalize_error cx i e)"
  by (auto simp: do_finalize_error_def finalize_error_def run_rules split: option.split intro!: keeps_update)

lemma keeps_count [run_rules]: "keeps (call_inv A) (do_count cx n)"
  by (auto simp: do_count_def attempt_total_def run_rules call_inv_iff split: option.split intro!: keeps_effect)

lemma keeps_with_fallback [run_rules]:
  "keeps (call_inv A) (with_fallback cx reason mode att ps us n eps)"
  by (simp add: with_fallback_def run_rules)

lemma keeps_invalid_fallback [run_rules]: "keeps (call_inv A) (invalid_fallback cx mode ps us is)"
  by (simp add: invalid_fallback_def run_rules)

text \<open>The one place where a call is made: after the reservation of its own key.\<close>

definition call_keys :: "run_context \<Rightarrow> string set" where
  "call_keys cx = (case cx_audit cx of None \<Rightarrow> {}
     | Some fx \<Rightarrow> {attempt_identity fx 1, attempt_identity fx 2})"

lemma insert_row_cases:
  "insert_row r w = (True, w') \<Longrightarrow>
     w' = w\<lparr>w_rows := w_rows w @ [r]\<rparr> \<and> ar_identity r \<notin> row_identities w"
  "insert_row r w = (False, w') \<Longrightarrow> w' = w"
  by (auto simp: insert_row_def row_identities_def list_ex_iff split: if_splits)

lemma reserve_call_inv:
  assumes "call_inv A w" "reserve uuid5 fx i kind ev w = (res, w')"
  shows "call_inv A w' \<and> (res = Inr Reserved \<longrightarrow>
     attempt_identity fx i \<in> row_identities w' \<and> attempt_identity fx i \<notin> set (audited_calls w'))"
proof (cases "kind \<notin> {''initial'', ''repair''} \<or> \<not> ev_alive ev (w_tick w)")
  case True
  with assms show ?thesis by (auto simp: reserve_def elift_def effect_def split: if_splits)
next
  case False
  let ?w = "w\<lparr>w_tick := Suc (w_tick w)\<rparr>" let ?r = "new_row uuid5 fx i kind (w_tick ?w)"
  obtain b w2 where ins: "insert_row ?r ?w = (b, w2)" by (cases "insert_row ?r ?w")
  have w2: "w' = w2" "res = Inr Reserved \<longrightarrow> b"
    using assms(2) False ins by (auto simp: reserve_def effect_def split: if_splits option.splits)
  have id: "ar_identity ?r = attempt_identity fx i" by (simp add: new_row_def)
  have inv: "audit.ledger_inv ?w" "set (audited_calls ?w) \<subseteq> A"
    using assms(1) by (simp_all add: call_inv_def audit.ledger_inv_def)
  have same: "?r\<lparr>ar_identity := attempt_identity fx i\<rparr> = ?r" by (simp add: new_row_def)
  have step: "insert_row (?r\<lparr>ar_identity := attempt_identity fx i\<rparr>) ?w = (b, w2)" unfolding same by (rule ins)
  have inv2: "audit.ledger_inv w2" by (rule audit.claim_inv [OF inv(1) step])
  have calls: "audited_calls w2 = audited_calls ?w" by (rule audit.claim_performs_nothing [OF step])
  have "audit.may_perform (attempt_identity fx i) w2" if b
    using audit.claim_may_perform [OF inv(1)] step that by simp
  then have "b \<Longrightarrow> attempt_identity fx i \<in> row_identities w2 \<and> attempt_identity fx i \<notin> set (audited_calls w2)"
    by (simp add: audit.may_perform_def)
  then show ?thesis using w2 inv2 calls inv(2) by (auto simp: call_inv_def)
qed

lemma keeps_reserve_then_call:
  assumes "i \<in> {1, 2}" "call_keys cx \<subseteq> A"
    and "\<And>r. keeps (call_inv A) (g r)" "\<And>reply. keeps (call_inv A) (f reply)"
  shows "keeps (call_inv A) (ebind (do_reserve cx i kind)
     (\<lambda>r. if r \<noteq> Reserved then g r else ebind (do_call cx i corr) f))"
proof -
  have call: "call_inv A w2" if "call_inv A w1" "do_call cx i corr ev w1 = (r, w2)"
    and fresh: "\<And>fx. cx_audit cx = Some fx \<Longrightarrow> attempt_identity fx i \<in> row_identities w1 \<and>
        attempt_identity fx i \<notin> set (audited_calls w1)" for ev w1 r w2
  proof (cases "cx_audit cx")
    case None
    with that(1,2) show ?thesis
      by (auto simp: do_call_def effect_def call_record_def call_inv_iff split: if_splits)
  next
    case (Some fx)
    let ?k = "attempt_identity fx i"
    from Some assms(1,2) have "?k \<in> A" by (auto simp: call_keys_def)
    have w1: "audit.may_perform ?k (w1\<lparr>w_tick := Suc (w_tick w1)\<rparr>)"
      using that(1) fresh [OF Some]
      by (simp add: audit.may_perform_def call_inv_def audit.ledger_inv_def)
    have "(call_record cx i corr)\<lparr>pc_identity := Some ?k\<rparr> = call_record cx i corr"
      by (simp add: call_record_def Some)
    with audit.perform_inv [OF w1, of "call_record cx i corr"]
    have "audit.ledger_inv (log_call (call_record cx i corr) (w1\<lparr>w_tick := Suc (w_tick w1)\<rparr>))" by simp
    moreover have "set (audited_calls (log_call (call_record cx i corr) (w1\<lparr>w_tick := Suc (w_tick w1)\<rparr>))) \<subseteq> A"
      using that(1) \<open>?k \<in> A\<close> by (auto simp: call_record_def Some call_inv_def)
    ultimately show ?thesis using that(1,2)
      by (auto simp: do_call_def effect_def call_inv_def split: if_splits)
  qed
  show ?thesis
    unfolding keeps_def
  proof (intro allI impI)
    fix ev w res w'
    assume I: "call_inv A w" and run: "ebind (do_reserve cx i kind)
        (\<lambda>r. if r \<noteq> Reserved then g r else ebind (do_call cx i corr) f) ev w = (res, w')"
    obtain rr w1 where rv: "do_reserve cx i kind ev w = (rr, w1)" by (cases "do_reserve cx i kind ev w")
    have I1: "call_inv A w1" and fresh: "rr = Inr Reserved \<Longrightarrow> cx_audit cx = Some fx \<Longrightarrow>
        attempt_identity fx i \<in> row_identities w1 \<and> attempt_identity fx i \<notin> set (audited_calls w1)" for fx
      using rv I reserve_call_inv [OF I] by (auto simp: do_reserve_def eret_def split: option.splits)
    show "call_inv A w'"
    proof (cases rr)
      case (Inl e)
      with run rv I1 show ?thesis by (simp add: ebind_def)
    next
      case (Inr x)
      show ?thesis
      proof (cases "x = Reserved")
        case False
        with run rv Inr have "g x ev w1 = (res, w')" by (simp add: ebind_def)
        with I1 assms(3) show ?thesis by (blast intro: keeps_runD)
      next
        case True
        obtain rc w2 where c: "do_call cx i corr ev w1 = (rc, w2)" by (cases "do_call cx i corr ev w1")
        have I2: "call_inv A w2" using call [OF I1 c] fresh Inr True by simp
        show ?thesis
        proof (cases rc)
          case (Inl e)
          with run rv Inr True c I2 show ?thesis by (simp add: ebind_def)
        next
          case reply: (Inr y)
          with run rv Inr True c have "f y ev w2 = (res, w')" by (simp add: ebind_def)
          with I2 assms(4) show ?thesis by (blast intro: keeps_runD)
        qed
      qed
    qed
  qed
qed

lemma keeps_first_attempt:
  "call_keys cx \<subseteq> A \<Longrightarrow> keeps (call_inv A) (first_attempt cx mode)"
  unfolding first_attempt_def
  by (intro keeps_bind keeps_revalidate keeps_reserve_then_call)
    (auto simp: first_parsed_def Let_def intro!: run_rules split: provider_reply.split option.split)

lemma keeps_bounded_repair:
  "call_keys cx \<subseteq> A \<Longrightarrow> keeps (call_inv A) (bounded_repair cx mode a is ps)"
  unfolding bounded_repair_def
  by (intro keeps_bind keeps_revalidate keeps_reserve_then_call)
    (auto simp: repair_parsed_def Let_def intro!: run_rules split: provider_reply.split option.split)

lemma keeps_run: "call_keys cx \<subseteq> A \<Longrightarrow> keeps (call_inv A) (run_contract_execution cx)"
  unfolding run_contract_execution_def
  by (auto intro!: keeps_first_attempt keeps_bounded_repair run_rules split: option.split sum.split)

section \<open>Properties\<close>

text \<open>A history of the worker: any number of runs, each in its own environment, one after the
  other on the same table, with crashes wherever the environments put them.\<close>

fun history :: "(run_context \<times> env) list \<Rightarrow> world \<Rightarrow> world" where
  "history [] w = w"
| "history ((cx, ev) # rs) w = history rs (snd (run_contract_execution cx ev w))"

definition empty_world :: world where
  "empty_world = \<lparr>w_tick = 0, w_rows = [], w_calls = []\<rparr>"

definition audit_identities :: "(run_context \<times> env) list \<Rightarrow> string set" where
  "audit_identities rs = {fx_idempotency_identity fx | fx cx ev. (cx, ev) \<in> set rs \<and> cx_audit cx = Some fx}"

lemma history_inv:
  "\<forall>x \<in> set rs. call_keys (fst x) \<subseteq> A \<Longrightarrow> call_inv A w \<Longrightarrow> call_inv A (history rs w)"
proof (induction rs w rule: history.induct)
  case (2 cx ev rs w)
  obtain r w1 where run: "run_contract_execution cx ev w = (r, w1)"
    by (cases "run_contract_execution cx ev w")
  from 2(2) have "call_keys cx \<subseteq> A" "\<forall>x \<in> set rs. call_keys (fst x) \<subseteq> A" by simp_all
  moreover from this(1) have "call_inv A w1" using keeps_runD [OF keeps_run 2(3) run] by simp
  ultimately show ?case using 2(1) run by simp
qed simp

lemma finite_audit_identities: "finite (audit_identities rs)"
proof (rule finite_subset)
  show "audit_identities rs \<subseteq> (\<lambda>x. fx_idempotency_identity (the (cx_audit (fst x)))) ` set rs"
    by (force simp: audit_identities_def)
qed simp

text \<open>
  Property C24 (paid_call_at_most_once): over any history of runs, crashes and replays on one
  attempt table, no two provider calls are made under the same attempt identity, every call has
  its durable row, and an execution identity pays for at most two calls.
\<close>

theorem paid_call_at_most_once:
  "let w = history rs empty_world in
     distinct (audited_calls w) \<and> set (audited_calls w) \<subseteq> row_identities w \<and>
     length (audited_calls w) \<le> 2 * card (audit_identities rs)"
proof -
  let ?I = "audit_identities rs"
  let ?key = "\<lambda>k i. k @ '':provider:'' @ nat_text i"
  let ?A = "(\<lambda>k. ?key k 1) ` ?I \<union> (\<lambda>k. ?key k 2) ` ?I"
  let ?w = "history rs empty_world"
  have keys: "call_keys cx \<subseteq> ?A" if "(cx, ev) \<in> set rs" for cx ev
  proof (cases "cx_audit cx")
    case (Some fx)
    then have "fx_idempotency_identity fx \<in> ?I" using that unfolding audit_identities_def by blast
    then have "?key (fx_idempotency_identity fx) 1 \<in> ?A" "?key (fx_idempotency_identity fx) 2 \<in> ?A"
      by blast+
    then show ?thesis by (simp add: call_keys_def Some attempt_identity_def del: append.simps append_Cons)
  qed (simp add: call_keys_def)
  have "call_inv ?A empty_world"
    by (simp add: call_inv_iff empty_world_def audited_calls_def List.map_filter_def)
  moreover have "\<forall>x \<in> set rs. call_keys (fst x) \<subseteq> ?A"
  proof
    fix x assume "x \<in> set rs"
    then show "call_keys (fst x) \<subseteq> ?A" using keys [of "fst x" "snd x"] by (simp only: prod.collapse)
  qed
  ultimately have inv: "call_inv ?A ?w" by (intro history_inv)
  note fin = finite_audit_identities [of rs]
  have "length (audited_calls ?w) \<le> 2 * card ?I"
  proof -
    from inv have "length (audited_calls ?w) = card (set (audited_calls ?w))"
      by (simp add: call_inv_iff distinct_card)
    also have "\<dots> \<le> card ?A" using inv fin by (intro card_mono) (simp_all add: call_inv_iff)
    also have "\<dots> \<le> card ((\<lambda>k. ?key k 1) ` ?I) + card ((\<lambda>k. ?key k 2) ` ?I)" by (rule card_Un_le)
    also have "\<dots> \<le> 2 * card ?I" unfolding mult_2 by (intro add_mono card_image_le fin)
    finally show ?thesis .
  qed
  with inv show ?thesis by (simp add: Let_def call_inv_iff)
qed

text \<open>What an outcome promises about its output.\<close>

definition outcome_honest :: "run_context \<Rightarrow> outcome \<Rightarrow> bool" where
  "outcome_honest cx oc \<longleftrightarrow>
     cx_validate cx (oc_output oc) = [] \<and>
     (oc_fallback_used oc \<longrightarrow> cx_allow_fallback cx \<and> oc_output oc = cx_deterministic cx \<and>
        oc_status oc = ST_FAILED_OPEN \<and> oc_fallback_reason oc \<noteq> None \<and> \<not> oc_provider_output_valid oc) \<and>
     (\<not> oc_fallback_used oc \<longrightarrow> oc_fallback_reason oc = None \<and> oc_provider_output_valid oc = oc_called_provider oc) \<and>
     (oc_called_provider oc \<longleftrightarrow> cx_provider cx \<noteq> None) \<and>
     (oc_repair_succeeded oc \<longrightarrow> oc_repair_attempted oc \<and> oc_provider_output_valid oc)"

lemma fallback_honest:
  "fallback cx reason mode att ps us n eps = Inr oc \<Longrightarrow> cx_provider cx \<noteq> None \<Longrightarrow> outcome_honest cx oc"
  by (auto simp: fallback_def Let_def outcome_honest_def status_for_def stage_status_for_output_def
      split: if_splits)

lemma canonicalize_Some:
  assumes "canonicalize cx out = Some c"
  shows "cx_validate cx c = []" "jget c ''status'' = jlit ''ok''"
    "\<forall>k. k \<noteq> ''status'' \<longrightarrow> map_of c k = map_of out k" "map fst c = map fst out"
proof -
  from assms obtain status where st: "jget out ''status'' = JStr status"
    and c: "c = dict_set ''status'' (jlit ''ok'') out" "cx_validate cx c = []"
    by (auto simp: canonicalize_def status_aliases_def Let_def split: json.splits if_splits option.splits)
  show "cx_validate cx c = []" "jget c ''status'' = jlit ''ok''"
    "\<forall>k. k \<noteq> ''status'' \<longrightarrow> map_of c k = map_of out k"
    using c by (simp_all add: jget_def)
  have "''status'' \<in> fst ` set out"
    using st by (auto simp: jget_def split: option.splits dest!: map_of_SomeD intro: rev_image_eqI)
  then show "map fst c = map fst out" by (simp add: c(1) map_fst_dict_set)
qed

lemma valid_outcome_honest:
  "cx_validate cx out = [] \<Longrightarrow> cx_provider cx \<noteq> None \<Longrightarrow> (succ \<longrightarrow> att) \<Longrightarrow>
     outcome_honest cx (valid_provider_outcome cx out mode us can att succ n)"
  by (simp add: outcome_honest_def valid_provider_outcome_def)

lemma yields_with_fallback:
  "cx_provider cx \<noteq> None \<Longrightarrow> yields (outcome_honest cx) (with_fallback cx reason mode att ps us n eps)"
  unfolding with_fallback_def
  by (intro yields_bind yields_lift) (rule fallback_honest)

abbreviation first_honest :: "run_context \<Rightarrow> first_result \<Rightarrow> bool" where
  "first_honest cx r \<equiv> (case r of Inl oc \<Rightarrow> outcome_honest cx oc | Inr _ \<Rightarrow> True)"

lemma yields_Inl: "yields P m \<Longrightarrow> yields (\<lambda>r. case r of Inl oc \<Rightarrow> P oc | Inr _ \<Rightarrow> True) (ebind m (\<lambda>oc. eret (Inl oc)))"
  by (erule yields_bind_from) (simp add: yields_ret)

lemma yields_first_parsed:
  "cx_provider cx \<noteq> None \<Longrightarrow> yields (first_honest cx) (first_parsed cx mode a parsed)"
  unfolding first_parsed_def Let_def
  by (intro yields_bind)
    (auto intro!: yields_bind yields_ret valid_outcome_honest split: option.split dest: canonicalize_Some(1))

lemma yields_first_attempt:
  "cx_provider cx \<noteq> None \<Longrightarrow> yields (first_honest cx) (first_attempt cx mode)"
  unfolding first_attempt_def
  by (intro yields_bind)
    (auto intro!: yields_bind yields_Inl yields_with_fallback yields_first_parsed
      split: provider_reply.split option.split simp: yields_ret)

lemma yields_bounded_repair:
  "cx_provider cx \<noteq> None \<Longrightarrow> yields (outcome_honest cx) (bounded_repair cx mode a is ps)"
  unfolding bounded_repair_def repair_parsed_def Let_def invalid_fallback_def
  by (intro yields_bind)
    (auto intro!: yields_bind yields_with_fallback yields_ret valid_outcome_honest
      split: provider_reply.split option.split dest: canonicalize_Some(1))

text \<open>
  Also proved (outcome_never_unvalidated): whatever provider, crash points and invalidations, an
  outcome's output satisfies the active contract; a fallback is the deterministic output, only
  where it is allowed, reported as failed-open with its reason and never as valid provider output.
\<close>

theorem outcome_never_unvalidated:
  assumes "run_contract_execution cx ev w = (Inr oc, w')"
  shows "outcome_honest cx oc"
proof (cases "cx_provider cx")
  case None
  with assms show ?thesis
    by (auto simp: run_contract_execution_def elift_def deterministic_profile_def Let_def outcome_honest_def
        split: if_splits)
next
  case (Some mode)
  have "yields (outcome_honest cx) (run_contract_execution cx)"
    unfolding run_contract_execution_def Some option.case
    by (rule yields_bind_from [OF yields_first_attempt])
      (auto simp: Some intro!: yields_ret yields_bounded_repair split: sum.splits prod.split)
  with assms show ?thesis by (auto simp: yields_def)
qed

text \<open>
  Also proved (canonicalisation_lossless): an output accepted by canonicalisation differs from the
  provider's in the value of \<open>status\<close> only, keeps every member in place, and is valid.
\<close>

theorem canonicalisation_lossless:
  assumes "canonicalize cx out = Some c"
  shows "cx_validate cx c = [] \<and> jget c ''status'' = jlit ''ok'' \<and> map fst c = map fst out \<and>
     (\<forall>k. k \<noteq> ''status'' \<longrightarrow> map_of c k = map_of out k)"
  using canonicalize_Some [OF assms] by blast

section \<open>Runs return\<close>

text \<open>The validator's paths and codes are words without unpaired surrogates.\<close>

definition plain_text :: "ustr \<Rightarrow> bool" where
  "plain_text t \<longleftrightarrow> \<not> list_ex surrogate t"

definition plain_issue :: "issue \<Rightarrow> bool" where
  "plain_issue i \<longleftrightarrow> (\<forall>t. fst i = Some t \<or> fst (snd i) = Some t \<longrightarrow> plain_text t)"

definition plain_validator :: "run_context \<Rightarrow> bool" where
  "plain_validator cx \<longleftrightarrow> (\<forall>out. list_all plain_issue (cx_validate cx out))"

lemma plain_lit: "plain_text (lit s)"
proof -
  have "\<not> surrogate (of_char c)" for c :: char
    using nat_of_char_less_256 [of c] unfolding surrogate_def by linarith
  then show ?thesis by (auto simp: plain_text_def lit_def list_ex_iff)
qed

lemma plain_take: "plain_text t \<Longrightarrow> plain_text (take n t)"
  by (auto simp: plain_text_def list_ex_iff dest: in_set_takeD)

lemma plain_or_text: "(\<And>t. x = Some t \<Longrightarrow> plain_text t) \<Longrightarrow> plain_text (or_text x d)"
  by (cases x) (simp_all add: or_text_def plain_lit)

lemma validate_pairs:
  "\<forall>(p, c) \<in> set vs. plain_text p \<and> plain_text c \<Longrightarrow>
     validate_items ts (map (\<lambda>(p, c). JObj [(''path'', JStr p), (''code'', JStr c)]) vs) = Inr ()"
proof (induction vs)
  case (Cons v vs)
  have "\<not> is_timestamp_field ''path''" "\<not> is_timestamp_field ''code''" by code_simp+
  with Cons show ?case
    by (cases v) (simp add: plain_text_def validate_string_def raise_if_def)
qed simp

lemma ijson_check_issues:
  assumes "list_all plain_issue is"
  shows "ijson_check ts (validation_json (bounded_validation is)) = eret ()"
proof -
  have "\<forall>(p, c) \<in> set (bounded_validation is). plain_text p \<and> plain_text c"
    using assms by (auto simp: bounded_validation_def list_all_iff plain_issue_def
        intro!: plain_take plain_or_text dest!: in_set_takeD)
  then show ?thesis
    by (simp add: ijson_check_def validation_json_def validate_ijson_value_def validate_pairs elift_def eret_def)
qed

lemma returns_finalize:
  assumes "profiled (cx_ts_ok cx) (Reply a)" "list_all plain_issue is"
  shows "returns ts (do_finalize cx i a v can is)"
proof -
  have "returns ts (output_hash (cx_ts_ok cx) hash (at_parsed a))" for hash
    using assms(1) by (auto simp: output_hash_def canonical_hash_ijson_def intro!: returns_ret returns_lift
        split: option.splits)
  with assms(2) show ?thesis
    by (auto simp: do_finalize_def finalize_def update_attempt_def ijson_check_issues
        intro!: returns_bind returns_ret returns_effect split: option.split)
qed

lemma plain_parse_issue: "list_all plain_issue [parse_issue a]"
  by (auto simp: parse_issue_def plain_issue_def plain_lit)

lemma returns_rules [run_rules]:
  "returns ts (do_revalidate cx)" "kind \<in> {''initial'', ''repair''} \<Longrightarrow> returns ts (do_reserve cx i kind)"
  "returns ts (do_finalize_error cx i e)" "returns ts (do_count cx n)"
  by (auto simp: do_revalidate_def do_reserve_def do_finalize_error_def do_count_def
      reserve_def finalize_error_def update_attempt_def attempt_total_def undisturbed_def
      Let_def case_prod_unfold intro!: returns_effect returns_ret split: option.split)

lemma returns_with_fallback:
  assumes "cx_allow_fallback cx" "cx_validate cx (cx_deterministic cx) = []"
  shows "returns ts (with_fallback cx reason mode att ps us n eps)"
proof -
  have "\<exists>oc. fallback cx reason mode att ps us k eps = Inr oc" for k
    using assms by (simp add: fallback_def Let_def)
  then show ?thesis unfolding with_fallback_def
    by (intro returns_bind run_rules) (blast intro: returns_lift)
qed

lemma returns_first_attempt:
  assumes "cx_allow_fallback cx" "cx_validate cx (cx_deterministic cx) = []" "plain_validator cx"
  shows "returns (cx_ts_ok cx) (first_attempt cx mode)"
proof -
  note fb = returns_with_fallback [OF assms(1,2)]
  have pv: "list_all plain_issue (cx_validate cx d)" for d using assms(3) by (simp add: plain_validator_def)
  have parsed: "returns (cx_ts_ok cx) (first_parsed cx mode a d)"
    if "profiled (cx_ts_ok cx) (Reply a)" for a d
    unfolding first_parsed_def Let_def using that pv
    by (auto intro!: returns_bind returns_finalize run_rules returns_ret split: option.split)
  show ?thesis
    unfolding first_attempt_def
    by (intro returns_bind run_rules)
      (auto intro!: returns_bind returns_call returns_finalize plain_parse_issue parsed run_rules fb returns_ret
        split: provider_reply.split option.split)
qed

lemma returns_bounded_repair:
  assumes "cx_allow_fallback cx" "cx_validate cx (cx_deterministic cx) = []" "plain_validator cx"
  shows "returns (cx_ts_ok cx) (bounded_repair cx mode a is ps)"
proof -
  note fb = returns_with_fallback [OF assms(1,2)]
  have pv: "list_all plain_issue (cx_validate cx d)" for d using assms(3) by (simp add: plain_validator_def)
  have parsed: "returns (cx_ts_ok cx) (repair_parsed cx mode us r d)"
    if "profiled (cx_ts_ok cx) (Reply r)" for us r d
    unfolding repair_parsed_def Let_def invalid_fallback_def using that pv
    by (auto intro!: returns_bind returns_finalize run_rules returns_ret fb split: option.split)
  show ?thesis
    unfolding bounded_repair_def invalid_fallback_def Let_def
    by (intro returns_bind run_rules)
      (auto intro!: returns_bind returns_call returns_finalize plain_parse_issue parsed run_rules fb returns_ret
        split: provider_reply.split option.split)
qed

text \<open>
  Also proved (invalid_output_never_raises): with a provider, a fallback that satisfies the
  contract and neither crash nor invalidation, every run returns an outcome, however the provider
  fails or whatever it answers, provided its answers are in the I-JSON profile.
\<close>

theorem invalid_output_never_raises:
  assumes "cx_provider cx = Some mode" "cx_allow_fallback cx" "cx_validate cx (cx_deterministic cx) = []"
    and "plain_validator cx" "undisturbed ev" "profiled_replies (cx_ts_ok cx) ev"
  shows "\<exists>oc w'. run_contract_execution cx ev w = (Inr oc, w')"
proof -
  have "returns (cx_ts_ok cx) (run_contract_execution cx)"
    unfolding run_contract_execution_def assms(1) option.case
    by (rule returns_bind [OF returns_first_attempt [OF assms(2-4)]])
      (auto intro!: returns_ret returns_bounded_repair [OF assms(2-4)] split: sum.split prod.split)
  with assms(5,6) show ?thesis by (auto simp: returns_def)
qed

text \<open>
  Property C25 (unprofiled_answer_escapes): the proviso is needed.  An answer outside the profile,
  a timestamp member that is null for instance, makes the run raise although a fallback is
  allowed: the call is paid, no outcome is returned, and the attempt stays open, as if its
  completion were unknown.
\<close>

theorem unprofiled_answer_escapes:
  assumes "cx_provider cx = Some mode" "cx_audit cx = Some fx" "undisturbed ev"
    and "attempt_identity fx 1 \<notin> row_identities w"
    and "\<forall>n. ev_reply ev n = Reply a" "at_parsed a = Some d"
    and "validate_ijson_value (cx_ts_ok cx) (JObj d) = Inl e"
  shows "\<exists>w' r. run_contract_execution cx ev w = (Inl (NotIJson e), w') \<and>
     length (w_calls w') = Suc (length (w_calls w)) \<and>
     r \<in> set (w_rows w') \<and> ar_identity r = attempt_identity fx 1 \<and> ar_completed_at r = None"
proof -
  have fresh: "\<not> list_ex (\<lambda>r'. ar_identity r' = attempt_identity fx 1) (w_rows w)"
    using assms(4) unfolding row_identities_def list_ex_iff by (metis imageI)
  have "do_finalize cx 1 a v can is ev w1 = (Inl (NotIJson e), w1)" for v can "is" w1
    by (simp add: do_finalize_def assms(2,6,7) finalize_def output_hash_def canonical_hash_ijson_def
        ebind_def elift_def)
  then have parsed: "first_parsed cx mode a d ev w1 = (Inl (NotIJson e), w1)" for w1
    by (simp add: first_parsed_def Let_def ebind_def)
  obtain n where reval: "do_revalidate cx ev w = (Inr (), w\<lparr>w_tick := n\<rparr>)"
    using assms(3) by (cases "cx_revalidates cx")
      (auto simp: do_revalidate_def effect_def eret_def undisturbed_def intro: that [of "w_tick w"])
  let ?r = "new_row (cx_uuid5 cx) fx 1 ''initial'' (Suc n)"
  let ?w1 = "w\<lparr>w_tick := Suc n, w_rows := w_rows w @ [?r]\<rparr>"
  let ?w2 = "log_call (call_record cx 1 None) (?w1\<lparr>w_tick := Suc (Suc n)\<rparr>)"
  have "do_reserve cx 1 ''initial'' ev (w\<lparr>w_tick := n\<rparr>) = (Inr Reserved, ?w1)"
    using assms(2,3) fresh
    by (simp add: do_reserve_def reserve_def effect_def undisturbed_def insert_row_def new_row_def)
  moreover have "do_call cx 1 None ev ?w1 = (Inr (Reply a), ?w2)"
    using assms(3,5) by (simp add: do_call_def effect_def undisturbed_def)
  ultimately have "first_attempt cx mode ev w = (Inl (NotIJson e), ?w2)"
    using reval by (simp add: first_attempt_def ebind_def assms(6) parsed)
  then have "run_contract_execution cx ev w = (Inl (NotIJson e), ?w2)"
    by (simp add: run_contract_execution_def assms(1) ebind_def)
  moreover have "?r \<in> set (w_rows ?w2)" "ar_identity ?r = attempt_identity fx 1" "ar_completed_at ?r = None"
    "length (w_calls ?w2) = Suc (length (w_calls w))"
    by (simp_all add: log_call_def new_row_def)
  ultimately show ?thesis by blast
qed

section \<open>Replays\<close>

text \<open>The state a replay leaves alone: the calls made and the identities reserved.\<close>

definition replay_state :: "provider_call list \<Rightarrow> string set \<Rightarrow> world \<Rightarrow> bool" where
  "replay_state C K w \<longleftrightarrow> w_calls w = C \<and> row_identities w = K"

lemma keeps_replay:
  "keeps (replay_state C K) (do_revalidate cx)" "keeps (replay_state C K) (do_count cx n)"
  by (auto simp: do_revalidate_def do_count_def attempt_total_def replay_state_def run_rules
      split: option.split intro!: keeps_effect)

lemma keeps_replay_fallback: "keeps (replay_state C K) (with_fallback cx reason mode att ps us n eps)"
  unfolding with_fallback_def by (intro keeps_bind keeps_replay keeps_lift)

lemma reserve_again:
  assumes "attempt_identity fx i \<in> row_identities w" "reserve uuid5 fx i kind ev w = (res, w')"
  shows "res \<noteq> Inr Reserved \<and> w_calls w' = w_calls w \<and> row_identities w' = row_identities w"
proof (cases "kind \<notin> {''initial'', ''repair''} \<or> \<not> ev_alive ev (w_tick w)")
  case True
  with assms show ?thesis by (auto simp: reserve_def elift_def effect_def split: if_splits)
next
  case False
  let ?w = "w\<lparr>w_tick := Suc (w_tick w)\<rparr>"
  have "insert_row (new_row uuid5 fx i kind (w_tick ?w)) ?w = (False, ?w)"
    using assms(1) by (auto simp: insert_row_def new_row_def row_identities_def list_ex_iff)
  then show ?thesis using assms(2) False
    by (auto simp: reserve_def effect_def split: if_splits option.splits)
qed

lemma with_fallback_reason:
  "with_fallback cx reason mode att ps us n eps ev w = (Inr oc, w') \<Longrightarrow>
     oc_fallback_used oc \<and> oc_fallback_reason oc = Some reason"
  by (auto simp: with_fallback_def ebind_run elift_def fallback_def Let_def split: if_splits)

lemma ebind_cases:
  assumes "ebind m f ev w = (r, w')"
  obtains (stopped) e where "m ev w = (Inl e, w')" "r = Inl e"
  | (passed) x w1 where "m ev w = (Inr x, w1)" "f x ev w1 = (r, w')"
  using assms by (auto simp: ebind_run)

definition replay_outcome :: "outcome \<Rightarrow> bool" where
  "replay_outcome oc \<longleftrightarrow> oc_fallback_used oc \<and> oc_fallback_reason oc \<in>
     {Some ''provider_attempt_unknown_completion'', Some ''provider_attempt_already_completed''}"

lemma refused_attempt:
  assumes "ebind (do_revalidate cx) (\<lambda>_. ebind (with_fallback cx (reservation_reason rv) mode False ps us 0 [])
      (\<lambda>out. eret (Inl out))) ev w = (res, w')" and "replay_state C K w"
  shows "replay_state C K w' \<and> (\<forall>y. res = Inr y \<longrightarrow> (\<exists>oc. y = Inl oc \<and> replay_outcome oc))"
  using assms(1)
proof (cases rule: ebind_cases)
  case stopped
  with assms(2) keeps_replay(1) show ?thesis by (auto dest: keeps_runD)
next
  case (passed x w1)
  with assms(2) have I1: "replay_state C K w1" using keeps_replay(1) by (blast dest: keeps_runD)
  from passed(2) show ?thesis
  proof (cases rule: ebind_cases)
    case stopped
    from keeps_runD [OF keeps_replay_fallback I1 stopped(1)] stopped(2) show ?thesis by simp
  next
    case (passed oc w2)
    with I1 have "replay_state C K w2" using keeps_replay_fallback by (blast dest: keeps_runD)
    moreover from with_fallback_reason [OF passed(1)] have "replay_outcome oc"
      by (auto simp: replay_outcome_def reservation_reason_def)
    ultimately show ?thesis using passed(2) by (auto simp: eret_def)
  qed
qed

lemma first_attempt_replay:
  assumes "cx_audit cx = Some fx" "attempt_identity fx 1 \<in> K" "replay_state C K w"
    and "first_attempt cx mode ev w = (res, w')"
  shows "replay_state C K w' \<and> (\<forall>y. res = Inr y \<longrightarrow> (\<exists>oc. y = Inl oc \<and> replay_outcome oc))"
  using assms(4) unfolding first_attempt_def
proof (cases rule: ebind_cases)
  case stopped
  with assms(3) keeps_replay(1) show ?thesis by (auto dest: keeps_runD)
next
  case (passed x w1)
  with assms(3) have I1: "replay_state C K w1" using keeps_replay(1) by (blast dest: keeps_runD)
  then have row: "attempt_identity fx 1 \<in> row_identities w1" using assms(2) by (simp add: replay_state_def)
  from passed(2) show ?thesis
  proof (cases rule: ebind_cases)
    case stopped
    with reserve_again [OF row] I1 assms(1) show ?thesis
      by (fastforce simp: do_reserve_def replay_state_def)
  next
    case (passed rv w2)
    with assms(1) have "reserve (cx_uuid5 cx) fx 1 ''initial'' ev w1 = (Inr rv, w2)"
      by (simp add: do_reserve_def)
    from reserve_again [OF row this] have "rv \<noteq> Reserved" "replay_state C K w2"
      using I1 by (auto simp: replay_state_def)
    with refused_attempt passed(2) show ?thesis by simp
  qed
qed

text \<open>
  Also proved (replay_pays_nothing): once the first attempt of an execution has its row, finished
  or not, every later run of that execution makes no provider call and reserves nothing; if it
  returns at all, it returns the fallback, with the reason that names the earlier attempt.
\<close>

theorem replay_pays_nothing:
  assumes "cx_provider cx = Some mode" "cx_audit cx = Some fx"
    and "attempt_identity fx 1 \<in> row_identities w"
    and "run_contract_execution cx ev w = (r, w')"
  shows "w_calls w' = w_calls w \<and> row_identities w' = row_identities w \<and>
     (\<forall>oc. r = Inr oc \<longrightarrow> replay_outcome oc)"
proof -
  have I: "replay_state (w_calls w) (row_identities w) w" by (simp add: replay_state_def)
  note first = first_attempt_replay [OF assms(2,3) I]
  from assms(4) have run: "ebind (first_attempt cx mode) (\<lambda>res. case res of Inl out \<Rightarrow> eret out
      | Inr (a, issues, ps) \<Rightarrow> bounded_repair cx mode a issues ps) ev w = (r, w')"
    by (simp add: run_contract_execution_def assms(1))
  then show ?thesis
  proof (cases rule: ebind_cases)
    case stopped
    from first [OF stopped(1)] stopped(2) show ?thesis by (simp add: replay_state_def)
  next
    case (passed y w1)
    from first [OF passed(1)] obtain oc where
      "replay_state (w_calls w) (row_identities w) w1" "y = Inl oc" "replay_outcome oc" by blast
    with passed(2) show ?thesis by (auto simp: replay_state_def eret_def)
  qed
qed

section \<open>A run on concrete input\<close>

definition demo_frozen :: frozen_execution where
  "demo_frozen = \<lparr>fx_stage_execution_uuid = ''s1'', fx_processing_run_uuid = ''p1'', fx_job_uuid = None,
     fx_source_type = ''message'', fx_source_uuid = ''m1'', fx_requested_role = ''semantic'',
     fx_effective_role = ''semantic'', fx_model_profile_uuid = None, fx_profile_fingerprint = ''f'',
     fx_scope_source = ''global'', fx_inheritance_source = None, fx_provider_type = ''openai'',
     fx_model_name = ''m'', fx_capability_mode = ''json'', fx_prompt_id = ''p'', fx_prompt_version = ''1'',
     fx_contract_hash = ''c'', fx_input_hash = ''i'', fx_idempotency_identity = ''job1'',
     fx_deterministic_fallback_version = ''v1''\<rparr>"

text \<open>The contract: \<open>status\<close> is \<open>ok\<close> and there are items.\<close>

definition demo_validate :: "jdict \<Rightarrow> issue list" where
  "demo_validate d =
     (if jget d ''status'' = jlit ''ok'' \<and> (case jget d ''items'' of JList _ \<Rightarrow> True | _ \<Rightarrow> False) then []
      else [(Some (lit ''status''), Some (lit ''enum''), None)])"

definition demo_context :: run_context where
  "demo_context = \<lparr>cx_provider = Some ''json'', cx_schema_name = None, cx_validate = demo_validate,
     cx_deterministic = [(''status'', jlit ''ok''), (''items'', JList [])], cx_revalidates = True,
     cx_allow_fallback = True, cx_audit = Some demo_frozen, cx_hash = (\<lambda>_. ''h''), cx_ts_ok = (\<lambda>_. False),
     cx_uuid5 = (\<lambda>ns n. n), cx_unidb = demo_unidb\<rparr>"

definition demo_reply :: "jdict option \<Rightarrow> provider_attempt" where
  "demo_reply d = \<lparr>at_parsed = d, at_parse_error = None, at_response_id = Some ''r'',
     at_http_status = Some 200, at_input_tokens = 10, at_output_tokens = 5, at_latency_ms = 7\<rparr>"

text \<open>The provider answers with the alias \<open>Success\<close>; the second environment dies after the call.\<close>

definition demo_env :: "nat \<Rightarrow> env" where
  "demo_env die = \<lparr>ev_alive = (\<lambda>n. n < die), ev_revalidate = (\<lambda>_. None),
     ev_reply = (\<lambda>_. Reply (demo_reply (Some [(''status'', jlit ''Success''), (''items'', JList [JNull])])))\<rparr>"

definition calm_env :: env where
  "calm_env = \<lparr>ev_alive = (\<lambda>_. True), ev_revalidate = (\<lambda>_. None), ev_reply = (\<lambda>_. Failure
     \<lparr>pe_category = ''timeout'', pe_http_status = None, pe_latency_ms = 3\<rparr>)\<rparr>"

definition crashed_world :: world where
  "crashed_world = snd (run_contract_execution demo_context (demo_env 3) empty_world)"

lemma demo_crash:
  "fst (run_contract_execution demo_context (demo_env 3) empty_world) = Inl Crashed \<and>
   length (w_calls crashed_world) = 1 \<and> map ar_completed_at (w_rows crashed_world) = [None]"
  by code_simp

lemma demo_run:
  "map_sum id oc_canonicalized (fst (run_contract_execution demo_context (demo_env 100) empty_world)) = Inr True"
  by code_simp

theorem outcome_never_unvalidated_witness:
  "\<exists>oc w'. run_contract_execution demo_context (demo_env 100) empty_world = (Inr oc, w') \<and>
     demo_validate (oc_output oc) = []"
proof -
  obtain r w' where run: "run_contract_execution demo_context (demo_env 100) empty_world = (r, w')"
    by (cases "run_contract_execution demo_context (demo_env 100) empty_world")
  with demo_run obtain oc where "r = Inr oc" by (cases r) auto
  with run outcome_never_unvalidated [of demo_context "demo_env 100" empty_world oc w'] show ?thesis
    by (simp add: outcome_honest_def demo_context_def)
qed

theorem canonicalisation_lossless_witness:
  "\<exists>c. canonicalize demo_context [(''status'', jlit ''Success''), (''items'', JList [JNull])] = Some c \<and>
     map fst c = [''status'', ''items'']"
proof -
  have "canonicalize demo_context [(''status'', jlit ''Success''), (''items'', JList [JNull])] =
      Some [(''status'', jlit ''ok''), (''items'', JList [JNull])]"
    by code_simp
  from canonicalisation_lossless [OF this] this show ?thesis by simp
qed

lemma demo_plain: "plain_validator demo_context"
  by (auto simp: plain_validator_def demo_context_def demo_validate_def plain_issue_def plain_lit)

theorem invalid_output_never_raises_witness:
  "\<exists>oc w'. run_contract_execution demo_context calm_env crashed_world = (Inr oc, w')"
  by (rule invalid_output_never_raises [of _ "''json''"])
    (use demo_plain in \<open>simp_all add: demo_context_def demo_validate_def calm_env_def undisturbed_def
      profiled_replies_def\<close>)

definition null_env :: env where
  "null_env = \<lparr>ev_alive = (\<lambda>_. True), ev_revalidate = (\<lambda>_. None),
     ev_reply = (\<lambda>_. Reply (demo_reply (Some [(''status'', jlit ''ok''), (''valid_from'', JNull)])))\<rparr>"

theorem unprofiled_answer_escapes_witness:
  "\<exists>w'. run_contract_execution demo_context null_env empty_world = (Inl (NotIJson TimestampNotString), w')"
proof -
  have "validate_ijson_value (cx_ts_ok demo_context)
      (JObj [(''status'', jlit ''ok''), (''valid_from'', JNull)]) = Inl TimestampNotString"
    by code_simp
  moreover have "undisturbed null_env" by (simp add: undisturbed_def null_env_def)
  moreover have "attempt_identity demo_frozen 1 \<notin> row_identities empty_world"
    by (simp add: row_identities_def empty_world_def)
  ultimately show ?thesis
    using unprofiled_answer_escapes [of demo_context "''json''" demo_frozen null_env empty_world
        "demo_reply (Some [(''status'', jlit ''ok''), (''valid_from'', JNull)])"]
    by (auto simp: demo_context_def null_env_def demo_reply_def)
qed

theorem replay_pays_nothing_witness:
  "length (w_calls (snd (run_contract_execution demo_context calm_env crashed_world))) = 1"
proof -
  have row: "attempt_identity demo_frozen 1 \<in> row_identities crashed_world"
    unfolding row_identities_def by code_simp
  obtain r w' where run: "run_contract_execution demo_context calm_env crashed_world = (r, w')"
    by (cases "run_contract_execution demo_context calm_env crashed_world")
  have "w_calls w' = w_calls crashed_world"
    using replay_pays_nothing [OF _ _ row run, of "''json''"] by (simp add: demo_context_def)
  with run demo_crash show ?thesis by simp
qed

end
