(* ===== verification/RuntimeTables.thy ===== *)
theory RuntimeTables
  imports CoverageReplay BoundedContext ContractExecution
begin

text \<open>
  What the semantic service reads and writes in the Lite database
  (\<open>memory_worker/semantic/runtime_adapters.py\<close>): the current message and its scope, earlier text,
  the authorities of the text units, the snapshot check and the text units added for spans of the
  model.  A query is a selection over lists of rows in the order its ORDER BY gives.
\<close>

section \<open>Tables\<close>

record message_row =
  ms_uuid :: string
  ms_session :: string
  ms_role :: string
  ms_turn :: "int option"
  ms_raw_text :: "ustr option"
  ms_visibility :: string
  ms_is_deleted :: bool
  ms_redaction :: string

record session_row =
  ss_uuid :: string
  ss_workspace :: "string option"
  ss_project :: "string option"

record actor_row =
  sa_session :: string
  sa_user :: string
  sa_workspace :: string

record version_row =
  mv_uuid :: string
  mv_message :: string
  mv_number :: int
  mv_raw_text :: "ustr option"

record text_unit_row =
  tu_uuid :: string
  tu_message :: string
  tu_session :: string
  tu_index :: int
  tu_type :: string
  tu_text :: ustr
  tu_start :: nat
  tu_end :: nat
  tu_role :: string
  tu_hash :: string
  tu_created_at :: string

record processing_run_row =
  pn_uuid :: string
  pn_message :: string

record analysis_row =
  jr_uuid :: string
  jr_message :: string
  jr_created_at :: string

record annotation_row =
  ja_uuid :: string
  ja_unit :: string
  ja_run :: string

type_synonym dict_row = "(string \<times> json) list"    \<comment> \<open>a row by column name\<close>

record semantics_tables =
  mt_analyses :: "dict_row list"
  mt_categories :: "dict_row list"
  mt_concepts :: "dict_row list"
  mt_aliases :: "dict_row list"
  mt_tags :: "dict_row list"
  mt_units :: "dict_row list"
  mt_entities :: "dict_row list"
  mt_processes :: "dict_row list"
  mt_outcomes :: "dict_row list"

record runtime_db =
  db_messages :: "message_row list"
  db_sessions :: "session_row list"
  db_actors :: "actor_row list"
  db_versions :: "version_row list"
  db_units :: "text_unit_row list"
  db_runs :: "processing_run_row list"
  db_analyses :: "analysis_row list"
  db_annotations :: "annotation_row list"
  db_prompts :: "dict_row list"         \<comment> \<open>\<open>prompt_execution_runs\<close>\<close>
  db_stages :: "dict_row list"          \<comment> \<open>\<open>processing_stage_runs\<close>\<close>
  db_usage :: "dict_row list"           \<comment> \<open>\<open>model_usage_events\<close>\<close>
  db_semantics :: semantics_tables
  db_coverage :: "memory_candidate coverage_store"

datatype runtime_error =
    MessageNotFound | SourceHidden | SnapshotChanged | Fenced string
  | ReplayItemsChanged | ReplayContentChanged | ReplayAuthorityIncomplete | ReplayAuthorityChanged
  | ReplayPolicyChanged | ReplayVersionConflict | ReplayCrossRun | PlanUnreadable
  | ExecutionIdentityConflict | ExecutionOutputMissing
  | DbIntegrity string | ContextError resolve_error | InputError input_error
  | OutputInvalid | BindingInvalid | ContractError exec_error | PlanningFailed
  | Persistence coverage_error | AuthorityLost | AuthorityInvalid | ProviderMisconfigured | ProcessDied

section \<open>The current message\<close>

text \<open>\<open>_optional_string\<close>, and \<open>str(value or "")\<close> of a nullable text.\<close>

definition optional_string :: "string option \<Rightarrow> string option" where
  "optional_string v = (case v of None \<Rightarrow> None | Some s \<Rightarrow> (if s = [] then None else Some s))"

definition or_empty :: "ustr option \<Rightarrow> ustr" where
  "or_empty v = (case v of None \<Rightarrow> [] | Some s \<Rightarrow> s)"

definition latest_version :: "runtime_db \<Rightarrow> string \<Rightarrow> version_row option" where
  "latest_version db m =
     (case sort_key (\<lambda>v. (mv_number v, mv_uuid v)) (filter (\<lambda>v. mv_message v = m) (db_versions db)) of
        [] \<Rightarrow> None | v # vs \<Rightarrow> Some (last (v # vs)))"

definition find_message :: "runtime_db \<Rightarrow> string \<Rightarrow> message_row option" where
  "find_message db m = List.find (\<lambda>r. ms_uuid r = m) (db_messages db)"

definition find_session :: "runtime_db \<Rightarrow> string \<Rightarrow> session_row option" where
  "find_session db u = List.find (\<lambda>s. ss_uuid s = u) (db_sessions db)"

definition find_actor :: "runtime_db \<Rightarrow> string \<Rightarrow> actor_row option" where
  "find_actor db u = List.find (\<lambda>a. sa_session a = u) (db_actors db)"

definition scope_version :: "ustr \<Rightarrow> version_row option \<Rightarrow> string option" where
  "scope_version raw v =
     (case v of None \<Rightarrow> None
      | Some r \<Rightarrow> (if mv_raw_text r = None \<or> mv_raw_text r = Some raw then Some (mv_uuid r) else None))"

definition load_current_context_scope ::
  "runtime_db \<Rightarrow> string \<Rightarrow> (runtime_error, context_scope) result" where
  "load_current_context_scope db m =
     (case find_message db m of
        None \<Rightarrow> Inl MessageNotFound
      | Some r \<Rightarrow>
          (case find_session db (ms_session r) of
             None \<Rightarrow> Inl MessageNotFound
           | Some s \<Rightarrow>
               (let raw = or_empty (ms_raw_text r); actor = find_actor db (ms_session r) in
                Inr \<lparr>sc_message_uuid = ms_uuid r,
                  sc_message_version_uuid = scope_version raw (latest_version db (ms_uuid r)),
                  sc_session_uuid = ms_session r, sc_workspace_uuid = optional_string (ss_workspace s),
                  sc_project_uuid = optional_string (ss_project s),
                  sc_user_uuid = optional_string (map_option sa_user actor),
                  sc_actor_workspace_uuid = optional_string (map_option sa_workspace actor),
                  sc_role = ms_role r, sc_turn_index = ms_turn r, sc_raw_text = raw,
                  sc_visibility = ms_visibility r, sc_is_deleted = ms_is_deleted r,
                  sc_redaction_status = ms_redaction r\<rparr>)))"

definition assert_current_scope_eligible :: "context_scope \<Rightarrow> (runtime_error, unit) result" where
  "assert_current_scope_eligible sc =
     raise_if (sc_visibility sc \<noteq> ''visible'' \<or> sc_is_deleted sc \<or> sc_redaction_status sc \<noteq> ''none'')
       SourceHidden"

section \<open>Earlier text\<close>

definition prior_context_record ::
  "runtime_db \<Rightarrow> session_row \<Rightarrow> message_row \<Rightarrow> text_unit_row \<Rightarrow> prior_record" where
  "prior_context_record db s r u =
     (let v = latest_version db (ms_uuid r) in
      \<lparr>pc_user_uuid = optional_string (map_option sa_user (find_actor db (ms_session r))),
       pc_session_uuid = ms_session r, pc_workspace_uuid = optional_string (ss_workspace s),
       pc_project_uuid = optional_string (ss_project s), pc_message_uuid = ms_uuid r,
       pc_message_version_uuid = optional_string (map_option mv_uuid v),
       pc_version_raw_text = (case v of None \<Rightarrow> None | Some x \<Rightarrow> mv_raw_text x),
       pc_role = ms_role r, pc_turn_index = ms_turn r, pc_visibility = ms_visibility r,
       pc_is_deleted = ms_is_deleted r, pc_redaction_status = ms_redaction r,
       pc_text_unit_uuid = tu_uuid u, pc_unit_index = tu_index u, pc_raw_start = int (tu_start u),
       pc_raw_end = int (tu_end u), pc_unit_text = tu_text u\<rparr>)"

definition prior_rows :: "runtime_db \<Rightarrow> context_scope \<Rightarrow> int \<Rightarrow> prior_record list" where
  "prior_rows db sc turn =
     concat (map (\<lambda>r. case find_session db (ms_session r) of
          None \<Rightarrow> []
        | Some s \<Rightarrow> map (prior_context_record db s r) (filter (\<lambda>u. tu_message u = ms_uuid r) (db_units db)))
       (filter (\<lambda>r. ms_session r = sc_session_uuid sc \<and> ms_uuid r \<noteq> sc_message_uuid sc \<and>
          (case ms_turn r of None \<Rightarrow> False | Some t \<Rightarrow> t < turn)) (db_messages db)))"

definition prior_order :: "prior_record \<Rightarrow> int \<times> int \<times> string \<times> string" where
  "prior_order r = (case pc_turn_index r of None \<Rightarrow> 0 | Some t \<Rightarrow> t, pc_unit_index r, pc_message_uuid r, pc_text_unit_uuid r)"

definition list_prior_context_records :: "runtime_db \<Rightarrow> context_scope \<Rightarrow> nat \<Rightarrow> prior_record list" where
  "list_prior_context_records db sc scan_limit =
     (case sc_turn_index sc of None \<Rightarrow> []
      | Some turn \<Rightarrow> take scan_limit (rev (sort_key prior_order (prior_rows db sc turn))))"

section \<open>Authorities of the text units\<close>

record authority_join =
  aj_unit :: text_unit_row
  aj_gate :: "gate_row option"
  aj_annotation :: "annotation_row option"
  aj_route :: "route_row option"

definition left_join :: "'a list \<Rightarrow> 'a option list" where
  "left_join xs = (if xs = [] then [None] else map Some xs)"

definition selected_analysis :: "runtime_db \<Rightarrow> string \<Rightarrow> string option" where
  "selected_analysis db m =
     (case sort_key (\<lambda>a. (jr_created_at a, jr_uuid a)) (filter (\<lambda>a. jr_message a = m) (db_analyses db)) of
        [] \<Rightarrow> None | a # as \<Rightarrow> Some (jr_uuid (last (a # as))))"

definition join_order :: "authority_join \<Rightarrow> int \<times> nat \<times> int \<times> string" where
  "join_order j = (tu_index (aj_unit j),
     case aj_route j of None \<Rightarrow> (1, 0, []) | Some r \<Rightarrow> (0, - sg_priority r, sg_uuid r))"

definition authority_joins :: "runtime_db \<Rightarrow> string \<Rightarrow> string \<Rightarrow> authority_join list" where
  "authority_joins db m run =
     sort_key join_order
       (concat (map (\<lambda>u. concat (map (\<lambda>g. concat (map (\<lambda>a. map (\<lambda>r.
            \<lparr>aj_unit = u, aj_gate = g, aj_annotation = a, aj_route = r\<rparr>)
          (left_join (filter (\<lambda>r. Some (sg_annotation r) = map_option ja_uuid a) (st_routes (db_coverage db)))))
          (left_join (filter (\<lambda>a. ja_unit a = tu_uuid u \<and> Some (ja_run a) = selected_analysis db m)
            (db_annotations db)))))
          (left_join (filter (\<lambda>g. gr_text_unit g = tu_uuid u \<and> gr_processing_run g = run)
            (st_gates (db_coverage db))))))
        (filter (\<lambda>u. tu_message u = m) (db_units db))))"

definition route_order :: "route_row \<Rightarrow> bool \<times> bool \<times> int \<times> string" where
  "route_order r = (sg_route_status r \<noteq> ''ready'', sg_type r = ''ignore'', - sg_priority r, sg_uuid r)"

definition unit_authority_of :: "unidb \<Rightarrow> authority_join list \<Rightarrow> string \<Rightarrow> unit_authority" where
  "unit_authority_of U joins u =
     (let js = filter (\<lambda>j. tu_uuid (aj_unit j) = u) joins; first = hd js;
          selected = min_key route_order (List.map_filter aj_route js);
          sensitivity = classify_sensitivity U (tu_text (aj_unit first));
          gates = fromkeys (map gr_uuid (List.map_filter aj_gate js));
          annotations = fromkeys (map ja_uuid (List.map_filter aj_annotation js)) in
      \<lparr>pa_text_unit_uuid = u, pa_raw_start = tu_start (aj_unit first), pa_raw_end = tu_end (aj_unit first),
       pa_annotation_uuid = map_option sg_annotation selected,
       pa_gate_decision_uuid = map_option gr_uuid (aj_gate first),
       pa_gate_decision = map_option gr_decision (aj_gate first),
       pa_route_uuid = map_option sg_uuid selected, pa_route_type = map_option sg_type selected,
       pa_route_status = map_option sg_route_status selected,
       pa_privacy_ceiling = sensitivity_value sensitivity,
       pa_privacy_storage_allowed = (sensitivity \<noteq> SECRET),
       pa_conflicting_authority = (1 < length gates \<or> 1 < length annotations)\<rparr>)"

definition authority_key :: "unit_authority \<Rightarrow> nat \<times> nat \<times> string" where
  "authority_key a = (pa_raw_start a, pa_raw_end a, pa_text_unit_uuid a)"

definition authorities_from_rows :: "unidb \<Rightarrow> authority_join list \<Rightarrow> unit_authority list" where
  "authorities_from_rows U joins =
     sort_key authority_key (map (unit_authority_of U joins) (fromkeys (map (\<lambda>j. tu_uuid (aj_unit j)) joins)))"

text \<open>The record of an authority refuses an empty identifier and a span that is not one.\<close>

definition load_persisted_authorities ::
  "unidb \<Rightarrow> runtime_db \<Rightarrow> string \<Rightarrow> string \<Rightarrow> (runtime_error, unit_authority list) result" where
  "load_persisted_authorities U db m run =
     (let as = authorities_from_rows U (authority_joins db m run) in
      rbind (raise_if (\<not> list_all authority_fields_ok as) AuthorityInvalid) (\<lambda>_. Inr as))"

section \<open>The snapshot\<close>

definition assert_runtime_snapshot ::
  "digests \<Rightarrow> runtime_db \<Rightarrow> string \<Rightarrow> string \<Rightarrow> string \<Rightarrow> (runtime_error, unit) result" where
  "assert_runtime_snapshot D db m run raw_text_hash =
     (case (find_message db m, List.find (\<lambda>p. pn_uuid p = run) (db_runs db)) of
        (Some r, Some p) \<Rightarrow>
          raise_if (pn_message p \<noteq> m \<or> d_text D (or_empty (ms_raw_text r)) \<noteq> raw_text_hash) SnapshotChanged
      | _ \<Rightarrow> Inl SnapshotChanged)"

section \<open>Text units for the spans of the model\<close>

definition SEMANTIC_TEXT_UNIT_NAMESPACE :: string where
  "SEMANTIC_TEXT_UNIT_NAMESPACE = ''4c5e2229-f900-5b05-8d7a-48b0b555c457''"

definition inside_authority :: "nat \<Rightarrow> nat \<Rightarrow> unit_authority \<Rightarrow> bool" where
  "inside_authority s e a \<longleftrightarrow> pa_raw_start a \<le> s \<and> e \<le> pa_raw_end a"

definition missing_units :: "semantic_analysis \<Rightarrow> unit_authority list \<Rightarrow> semantic_unit list" where
  "missing_units out authorities =
     filter (\<lambda>u. \<not> list_ex (inside_authority (su_raw_start u) (su_raw_end u)) authorities) (sa_semantic_units out)"

definition next_unit_index :: "runtime_db \<Rightarrow> string \<Rightarrow> int" where
  "next_unit_index db m =
     (case map tu_index (filter (\<lambda>u. tu_message u = m) (db_units db)) of [] \<Rightarrow> 0 | i # is \<Rightarrow> foldl max i is + 1)"

definition span_unit :: "digests \<Rightarrow> context_scope \<Rightarrow> string \<Rightarrow> int \<Rightarrow> semantic_unit \<Rightarrow> text_unit_row" where
  "span_unit D sc now index u =
     (let text = slice (sc_raw_text sc) (su_raw_start u) (su_raw_end u);
          identity = sc_message_uuid sc @ '':'' @ d_text D (sc_raw_text sc) @ '':'' @
            AttemptAudit.nat_text (su_raw_start u) @ '':'' @ AttemptAudit.nat_text (su_raw_end u) in
      \<lparr>tu_uuid = d_uuid5 D SEMANTIC_TEXT_UNIT_NAMESPACE identity, tu_message = sc_message_uuid sc,
       tu_session = sc_session_uuid sc, tu_index = index, tu_type = ''fragment'', tu_text = text,
       tu_start = su_raw_start u, tu_end = su_raw_end u, tu_role = sc_role sc, tu_hash = d_text D text,
       tu_created_at = now\<rparr>)"

text \<open>\<open>INSERT OR IGNORE\<close>: a row with the same key or the same place is left alone; a missing parent
  still raises.\<close>

definition insert_or_ignore_unit :: "text_unit_row \<Rightarrow> runtime_db \<Rightarrow> (runtime_error, runtime_db) result" where
  "insert_or_ignore_unit r db =
     (if list_ex (\<lambda>x. tu_uuid x = tu_uuid r \<or> (tu_message x = tu_message r \<and> tu_index x = tu_index r)) (db_units db)
      then Inr db
      else if find_message db (tu_message r) = None \<or> find_session db (tu_session r) = None
      then Inl (DbIntegrity ''foreign_key'')
      else Inr (db\<lparr>db_units := db_units db @ [r],
        db_coverage := (db_coverage db)\<lparr>st_parent := (\<lambda>t k. (t = ''text_units'' \<and> k = tu_uuid r) \<or>
          st_parent (db_coverage db) t k)\<rparr>\<rparr>))"

fun insert_units ::
  "digests \<Rightarrow> context_scope \<Rightarrow> string \<Rightarrow> int \<Rightarrow> semantic_unit list \<Rightarrow> runtime_db
     \<Rightarrow> (runtime_error, runtime_db) result" where
  "insert_units D sc now index [] db = Inr db"
| "insert_units D sc now index (u # us) db =
     rbind (insert_or_ignore_unit (span_unit D sc now index u) db) (insert_units D sc now (index + 1) us)"

definition insert_missing_semantic_text_units ::
  "digests \<Rightarrow> context_scope \<Rightarrow> semantic_analysis \<Rightarrow> unit_authority list \<Rightarrow> string \<Rightarrow> runtime_db
     \<Rightarrow> (runtime_error, runtime_db) result" where
  "insert_missing_semantic_text_units D sc out authorities now db =
     insert_units D sc now (next_unit_index db (sc_message_uuid sc)) (missing_units out authorities) db"

definition ensure_semantic_span_authorities ::
  "digests \<Rightarrow> unidb \<Rightarrow> context_scope \<Rightarrow> string \<Rightarrow> semantic_analysis \<Rightarrow> unit_authority list \<Rightarrow> string
     \<Rightarrow> runtime_db \<Rightarrow> (runtime_error, unit_authority list \<times> runtime_db) result" where
  "ensure_semantic_span_authorities D U sc run out authorities now db =
     rbind (insert_missing_semantic_text_units D sc out authorities now db) (\<lambda>db'.
       rbind (load_persisted_authorities U db' (sc_message_uuid sc) run) (\<lambda>as. Inr (as, db')))"

end
