(* ===== verification/MemoryTables.thy ===== *)
theory MemoryTables
  imports RuntimeTables
begin

text \<open>
  The canonical memory of the Lite mode: the tables of \<open>migrations/0002_phase2_memory_worker.sql\<close> and
  their later columns, with their unique indexes and foreign keys, and the repositories over them
  (\<open>repositories/memory_worker.py\<close>).  Confidence and importance are thousandths, as in the candidates.
\<close>

section \<open>Rows\<close>

datatype memory_status = MEM_ACTIVE | MEM_SUPERSEDED | MEM_RETRACTED | MEM_FORGOTTEN | MEM_NEEDS_REVIEW

datatype change_operation = CH_ADD | CH_REINFORCE | CH_UPDATE | CH_SUPERSEDE | CH_CONTRADICT | CH_RETRACT | CH_FORGET

datatype consolidation_operation = CO_ADD | CO_REINFORCE | CO_UPDATE | CO_SUPERSEDE | CO_CONTRADICT | CO_RETRACT
  | CO_FORGET | CO_NOOP | CO_REJECT | CO_MANUAL_REVIEW

fun consolidation_value :: "consolidation_operation \<Rightarrow> string" where
  "consolidation_value CO_ADD = ''ADD''"
| "consolidation_value CO_REINFORCE = ''REINFORCE''"
| "consolidation_value CO_UPDATE = ''UPDATE''"
| "consolidation_value CO_SUPERSEDE = ''SUPERSEDE''"
| "consolidation_value CO_CONTRADICT = ''CONTRADICT''"
| "consolidation_value CO_RETRACT = ''RETRACT''"
| "consolidation_value CO_FORGET = ''FORGET''"
| "consolidation_value CO_NOOP = ''NOOP''"
| "consolidation_value CO_REJECT = ''REJECT''"
| "consolidation_value CO_MANUAL_REVIEW = ''MANUAL_REVIEW''"

datatype projection_status = OB_PENDING | OB_SUCCEEDED | OB_RETRY | OB_FAILED | OB_SKIPPED

record memory =
  me_uuid :: string
  me_key :: ustr
  me_type :: string
  me_scope_type :: string
  me_scope_uuid :: "string option"
  me_current :: "string option"
  me_status :: memory_status
  me_sensitivity :: sensitivity
  me_created_at :: string
  me_updated_at :: "string option"

record memory_version =
  vr_uuid :: string
  vr_memory :: string
  vr_number :: nat
  vr_text :: ustr
  vr_value :: "json option"
  vr_confidence :: nat
  vr_polarity :: polarity
  vr_importance :: nat
  vr_valid_from :: "string option"
  vr_valid_until :: "string option"
  vr_from :: string                 \<comment> \<open>\<open>transaction_from\<close>\<close>
  vr_until :: "string option"       \<comment> \<open>\<open>transaction_until\<close>\<close>
  vr_candidate :: "string option"
  vr_change :: change_operation
  vr_reason :: "json option"
  vr_created_at :: string

record consolidation_decision =
  dn_uuid :: string
  dn_candidate :: string
  dn_operation :: consolidation_operation
  dn_resolver :: string
  dn_reasons :: "string list"
  dn_memory :: "string option"
  dn_version :: "string option"
  dn_created_at :: string

record evidence_link =
  el_uuid :: string
  el_memory :: string
  el_version :: string
  el_candidate :: string
  el_evidence :: string
  el_type :: string
  el_created_at :: string

record projection_item =
  ob_uuid :: string
  ob_aggregate_type :: string
  ob_aggregate :: string
  ob_operation :: string
  ob_payload :: json
  ob_status :: projection_status
  ob_attempts :: nat
  ob_error :: "string option"
  ob_created_at :: string
  ob_processed_at :: "string option"

text \<open>An erased candidate has a status that its model does not know.\<close>

record candidate_row =
  cw_candidate :: memory_candidate
  cw_redacted :: bool

text \<open>What is derived from the memories: the full-text index, embeddings, blocks, attachments and the
  hot cache of a session.\<close>

record fts_row =
  ft_version :: string
  ft_memory :: string
  ft_key :: ustr
  ft_type :: string
  ft_scope_type :: string
  ft_scope_uuid :: "string option"
  ft_text :: ustr

record block_row =
  bk_uuid :: string
  bk_type :: string
  bk_label :: string
  bk_value :: ustr
  bk_sources :: "ustr option"
  bk_build_status :: string
  bk_status :: string
  bk_updated_at :: "string option"

record block_version_row =
  bv_uuid :: string
  bv_block :: string
  bv_value :: ustr
  bv_structured :: "json option"
  bv_chars :: nat
  bv_tokens :: nat
  bv_reason :: "string option"

record block_source_row =
  bs_version :: string
  bs_memory :: string

record attachment_row =
  at_uuid :: string
  at_rendered :: "ustr option"
  at_ijson :: json
  at_sources :: "ustr option"
  at_block_sources :: "ustr option"
  at_status :: string
  at_stale_reason :: "string option"

record hot_cache_row =
  hc_session :: string
  hc_problem :: "ustr option"
  hc_intent :: "ustr option"
  hc_constraints :: "ustr option"
  hc_questions :: "ustr option"
  hc_entities :: "ustr option"
  hc_memories :: "ustr option"
  hc_plan :: "ustr option"
  hc_updated_at :: string

record change_request =
  cq_uuid :: string
  cq_memory :: "string option"
  cq_operation :: string
  cq_value :: json
  cq_why :: "string option"
  cq_actor_type :: string
  cq_actor :: "string option"
  cq_status :: string
  cq_impact :: json
  cq_version :: "string option"
  cq_created_at :: string
  cq_reviewed_at :: "string option"
  cq_applied_at :: "string option"

record memory_db =
  md_sessions :: "session_row list"
  md_units :: "text_unit_row list"
  md_candidates :: "candidate_row list"
  md_evidence :: "candidate_evidence list"
  md_memories :: "memory list"
  md_versions :: "memory_version list"
  md_decisions :: "consolidation_decision list"
  md_links :: "evidence_link list"
  md_outbox :: "projection_item list"
  md_requests :: "change_request list"
  md_fts :: "fts_row list"
  md_embeddings :: "string list"    \<comment> \<open>the versions that have one\<close>
  md_blocks :: "block_row list"
  md_block_versions :: "block_version_row list"
  md_block_sources :: "block_source_row list"
  md_attachments :: "attachment_row list"
  md_hot_cache :: "hot_cache_row list"

datatype memory_error =
    CandidateNotFound | CandidateUnreadable | SessionNotFound | MemoryNotFound | NoCurrentVersion
  | CurrentVersionNotFound | NothingToUndo | UnsupportedOperation | ValueMissing | ProtectedMemory
  | RequestNotFound | RequestWithoutMemory | UniqueViolated | ForeignKeyViolated | OutboxItemNotFound

text \<open>Identifiers and times a transaction draws, in the order of the calls.\<close>

record stamp =
  sp_uuid :: "nat \<Rightarrow> string"
  sp_now :: "nat \<Rightarrow> string"

section \<open>Statements\<close>

definition set_where :: "('r \<Rightarrow> bool) \<Rightarrow> ('r \<Rightarrow> 'r) \<Rightarrow> 'r list
    \<Rightarrow> 'r list" where
  "set_where p f rows = map (\<lambda>r. if p r then f r else r) rows"

definition find_memory :: "memory_db \<Rightarrow> string \<Rightarrow> memory option" where
  "find_memory db u = List.find (\<lambda>m. me_uuid m = u) (md_memories db)"

definition find_version :: "memory_db \<Rightarrow> string \<Rightarrow> memory_version option" where
  "find_version db u = List.find (\<lambda>v. vr_uuid v = u) (md_versions db)"

definition find_candidate_row :: "memory_db \<Rightarrow> string \<Rightarrow> candidate_row option" where
  "find_candidate_row db u = List.find (\<lambda>c. mc_uuid (cw_candidate c) = u) (md_candidates db)"

definition memory_clash :: "memory \<Rightarrow> memory \<Rightarrow> bool" where
  "memory_clash m x \<longleftrightarrow> me_uuid x = me_uuid m \<or>
     (me_scope_uuid m \<noteq> None \<and> me_scope_type x = me_scope_type m \<and> me_scope_uuid x = me_scope_uuid
         m \<and> me_key x = me_key m)"

definition insert_memory :: "memory \<Rightarrow> memory_db \<Rightarrow> (memory_error, memory_db) result" where
  "insert_memory m db =
     rbind (raise_if (list_ex (memory_clash m) (md_memories db)) UniqueViolated) (\<lambda>_.
       Inr (db\<lparr>md_memories := md_memories db @ [m]\<rparr>))"

definition version_clash :: "memory_version \<Rightarrow> memory_version \<Rightarrow> bool" where
  "version_clash v x \<longleftrightarrow> vr_uuid x = vr_uuid v \<or>
     (vr_memory x = vr_memory v \<and> vr_number x = vr_number v) \<or>
     (vr_candidate v \<noteq> None \<and> vr_candidate x = vr_candidate v \<and> vr_change x = vr_change v)"

definition insert_version :: "memory_version \<Rightarrow> memory_db \<Rightarrow> (memory_error, memory_db)
    result" where
  "insert_version v db =
     rbind (raise_if (list_ex (version_clash v) (md_versions db)) UniqueViolated) (\<lambda>_.
     rbind (raise_if (find_memory db (vr_memory v) = None \<or>
         (case vr_candidate v of None \<Rightarrow> False | Some c \<Rightarrow> find_candidate_row db c = None))
             ForeignKeyViolated) (\<lambda>_.
       Inr (db\<lparr>md_versions := md_versions db @ [v]\<rparr>)))"

definition insert_decision :: "consolidation_decision \<Rightarrow> memory_db \<Rightarrow> (memory_error,
    memory_db) result" where
  "insert_decision d db =
     rbind (raise_if (list_ex (\<lambda>x. dn_uuid x = dn_uuid d \<or> dn_candidate x = dn_candidate d)
         (md_decisions db))
       UniqueViolated) (\<lambda>_.
     rbind (raise_if (find_candidate_row db (dn_candidate d) = None \<or>
         (case dn_memory d of None \<Rightarrow> False | Some m \<Rightarrow> find_memory db m = None) \<or>
         (case dn_version d of None \<Rightarrow> False | Some v \<Rightarrow> find_version db v = None))
             ForeignKeyViolated) (\<lambda>_.
       Inr (db\<lparr>md_decisions := md_decisions db @ [d]\<rparr>)))"

definition insert_link :: "evidence_link \<Rightarrow> memory_db \<Rightarrow> (memory_error, memory_db) result" where
  "insert_link l db =
     rbind (raise_if (list_ex (\<lambda>x. el_uuid x = el_uuid l \<or>
         (el_version x = el_version l \<and> el_evidence x = el_evidence l \<and> el_type x = el_type l)) (md_links db))
       UniqueViolated) (\<lambda>_.
     rbind (raise_if (find_memory db (el_memory l) = None \<or> find_version db (el_version l) = None \<or>
         find_candidate_row db (el_candidate l) = None \<or>
         \<not> list_ex (\<lambda>e. ev_uuid e = el_evidence l) (md_evidence db)) ForeignKeyViolated) (\<lambda>_.
       Inr (db\<lparr>md_links := md_links db @ [l]\<rparr>)))"

definition same_projection :: "string \<Rightarrow> string \<Rightarrow> string \<Rightarrow> projection_item
    \<Rightarrow> bool" where
  "same_projection atype a op i \<longleftrightarrow> ob_aggregate_type i = atype \<and> ob_aggregate i = a \<and>
      ob_operation i = op"

definition insert_projection :: "projection_item \<Rightarrow> memory_db \<Rightarrow> (memory_error, memory_db)
    result" where
  "insert_projection i db =
     rbind (raise_if (list_ex (\<lambda>x. ob_uuid x = ob_uuid i \<or>
         same_projection (ob_aggregate_type i) (ob_aggregate i) (ob_operation i) x) (md_outbox db)) UniqueViolated)
             (\<lambda>_.
       Inr (db\<lparr>md_outbox := md_outbox db @ [i]\<rparr>))"

definition set_current :: "string \<Rightarrow> string \<Rightarrow> string \<Rightarrow> memory_db \<Rightarrow>
    memory_db" where
  "set_current m v now db = db\<lparr>md_memories := set_where (\<lambda>x. me_uuid x = m)
     (\<lambda>x. x\<lparr>me_current := Some v, me_updated_at := Some now\<rparr>) (md_memories db)\<rparr>"

definition close_version :: "string \<Rightarrow> string \<Rightarrow> memory_db \<Rightarrow> memory_db" where
  "close_version v now db = db\<lparr>md_versions := set_where (\<lambda>x. vr_uuid x = v)
     (\<lambda>x. x\<lparr>vr_until := Some now\<rparr>) (md_versions db)\<rparr>"

text \<open>\<open>LIKE\<close>: \<open>%\<close> is any text, \<open>_\<close> any character, ASCII letters match
    without case.\<close>

definition like_fold :: "codepoint \<Rightarrow> codepoint" where
  "like_fold c = (if ascii_upper c then c + 32 else c)"

fun sql_like :: "ustr \<Rightarrow> ustr \<Rightarrow> bool" where
  "sql_like [] t = (t = [])"
| "sql_like (p # ps) t =
     (if p = 37 then (sql_like ps t \<or> (case t of [] \<Rightarrow> False | _ # ts \<Rightarrow> sql_like (p #
         ps) ts))
      else case t of
        [] \<Rightarrow> False
      | x # ts \<Rightarrow> (p = 95 \<or> like_fold p = like_fold x) \<and> sql_like ps ts)"

definition like_contains :: "ustr \<Rightarrow> ustr option \<Rightarrow> bool" where
  "like_contains needle t = (case t of None \<Rightarrow> False | Some s \<Rightarrow> sql_like (37 # needle @ [37]) s)"

section \<open>The store repository\<close>

definition coalesce_text :: "string option \<Rightarrow> string" where
  "coalesce_text v = (case v of None \<Rightarrow> [] | Some s \<Rightarrow> s)"

definition find_by_canonical_key :: "memory_db \<Rightarrow> string \<Rightarrow> string option \<Rightarrow> ustr
    \<Rightarrow> memory option" where
  "find_by_canonical_key db stype scope key =
     List.find (\<lambda>m. me_scope_type m = stype \<and> coalesce_text (me_scope_uuid m) = coalesce_text scope
         \<and> me_key m = key) (md_memories db)"

definition list_versions :: "memory_db \<Rightarrow> string \<Rightarrow> memory_version list" where
  "list_versions db m = sort_key vr_number (filter (\<lambda>v. vr_memory v = m) (md_versions db))"

definition get_consolidation_decision :: "memory_db \<Rightarrow> string \<Rightarrow> consolidation_decision
    option" where
  "get_consolidation_decision db c = List.find (\<lambda>d. dn_candidate d = c) (md_decisions db)"

definition RESOLVER_VERSION :: string where
  "RESOLVER_VERSION = ''deterministic-consolidator-v1''"

definition record_decision ::
  "stamp \<Rightarrow> string \<Rightarrow> consolidation_operation \<Rightarrow> string list \<Rightarrow> string
      option \<Rightarrow> string option \<Rightarrow> memory_db
     \<Rightarrow> (memory_error, consolidation_decision \<times> memory_db) result" where
  "record_decision sp c op reasons m v db =
     (case get_consolidation_decision db c of
        Some d \<Rightarrow> Inr (d, db)
      | None \<Rightarrow>
          (let d = \<lparr>dn_uuid = sp_uuid sp 2, dn_candidate = c, dn_operation = op, dn_resolver = RESOLVER_VERSION,
             dn_reasons = reasons, dn_memory = m, dn_version = v, dn_created_at = sp_now sp 2\<rparr> in
           rbind (insert_decision d db) (\<lambda>db'. Inr (d, db'))))"

definition SUPPORTS :: string where
  "SUPPORTS = ''supports''"

fun link_evidence ::
  "stamp \<Rightarrow> string \<Rightarrow> string \<Rightarrow> string \<Rightarrow> nat \<Rightarrow>
      candidate_evidence list \<Rightarrow> memory_db
     \<Rightarrow> (memory_error, memory_db) result" where
  "link_evidence sp m v c n [] db = Inr db"
| "link_evidence sp m v c n (e # es) db =
     rbind (insert_link \<lparr>el_uuid = sp_uuid sp (4 + n), el_memory = m, el_version = v, el_candidate = c,
       el_evidence = ev_uuid e, el_type = SUPPORTS, el_created_at = sp_now sp (4 + n)\<rparr> db)
       (link_evidence sp m v c (Suc n) es)"

definition enqueue_projection ::
  "stamp \<Rightarrow> string \<Rightarrow> string \<Rightarrow> string \<Rightarrow> json \<Rightarrow> memory_db
      \<Rightarrow> (memory_error, projection_item \<times> memory_db) result" where
  "enqueue_projection sp atype a op payload db =
     (case List.find (same_projection atype a op) (md_outbox db) of
        Some i \<Rightarrow> Inr (i, db)
      | None \<Rightarrow>
          (let i = \<lparr>ob_uuid = sp_uuid sp 3, ob_aggregate_type = atype, ob_aggregate = a, ob_operation = op,
             ob_payload = payload, ob_status = OB_PENDING, ob_attempts = 0, ob_error = None,
             ob_created_at = sp_now sp 3, ob_processed_at = None\<rparr> in
           rbind (insert_projection i db) (\<lambda>db'. Inr (i, db'))))"

definition projection_payload :: "string \<Rightarrow> string \<Rightarrow> string \<Rightarrow> json" where
  "projection_payload m v op = JObj [(''memory_uuid'', jlit m), (''memory_version_uuid'', jlit v), (''operation'',
      jlit op)]"

definition decide_and_link ::
  "stamp \<Rightarrow> string \<Rightarrow> string \<Rightarrow> string \<Rightarrow> consolidation_operation
      \<Rightarrow> string list \<Rightarrow> candidate_evidence list
     \<Rightarrow> memory_db \<Rightarrow> (memory_error, consolidation_decision \<times> memory_db) result" where
  "decide_and_link sp m v c op reasons es db =
     rbind (record_decision sp c op reasons (Some m) (Some v) db) (\<lambda>(d, db1).
     rbind (link_evidence sp m v c 0 es db1) (\<lambda>db2.
     rbind (enqueue_projection sp ''memory'' m (consolidation_value op) (projection_payload m v
         (consolidation_value op)) db2)
       (\<lambda>(i, db3). Inr (d, db3))))"

definition create_memory_with_version ::
  "stamp \<Rightarrow> memory \<Rightarrow> memory_version \<Rightarrow> string \<Rightarrow> string list
      \<Rightarrow> consolidation_operation \<Rightarrow> candidate_evidence list
     \<Rightarrow> memory_db \<Rightarrow> (memory_error, consolidation_decision \<times> memory_db) result" where
  "create_memory_with_version sp m v c reasons op es db =
     rbind (insert_memory m db) (\<lambda>db1.
     rbind (insert_version v db1) (\<lambda>db2.
       decide_and_link sp (me_uuid m) (vr_uuid v) c op reasons es (set_current (me_uuid m) (vr_uuid v) (sp_now sp
           1) db2)))"

definition create_version_for_memory ::
  "stamp \<Rightarrow> memory \<Rightarrow> memory_version \<Rightarrow> string \<Rightarrow> string list
      \<Rightarrow> consolidation_operation \<Rightarrow> candidate_evidence list
     \<Rightarrow> bool \<Rightarrow> memory_db \<Rightarrow> (memory_error, consolidation_decision \<times>
         memory_db) result" where
  "create_version_for_memory sp m v c reasons op es close db =
     (let now = sp_now sp 1;
          db1 = (case (close, me_current m) of (True, Some u) \<Rightarrow> close_version u now db | _
              \<Rightarrow> db) in
      rbind (insert_version v db1) (\<lambda>db2.
        decide_and_link sp (me_uuid m) (vr_uuid v) c op reasons es (set_current (me_uuid m) (vr_uuid v) now db2)))"

definition record_decision_only ::
  "stamp \<Rightarrow> string \<Rightarrow> consolidation_operation \<Rightarrow> string list \<Rightarrow> memory_db
     \<Rightarrow> (memory_error, consolidation_decision \<times> memory_db) result" where
  "record_decision_only sp c op reasons db = record_decision sp c op reasons None None db"

definition record_reinforcement ::
  "stamp \<Rightarrow> memory \<Rightarrow> memory_version \<Rightarrow> string \<Rightarrow> string list
      \<Rightarrow> candidate_evidence list \<Rightarrow> memory_db
     \<Rightarrow> (memory_error, consolidation_decision \<times> memory_db) result" where
  "record_reinforcement sp m v c reasons es db = decide_and_link sp (me_uuid m) (vr_uuid v) c CO_REINFORCE reasons
      es db"

section \<open>The outbox of the graph\<close>

definition list_pending_outbox :: "nat \<Rightarrow> memory_db \<Rightarrow> projection_item list" where
  "list_pending_outbox limit db =
     take limit (sort_key (\<lambda>i. (ob_created_at i, ob_uuid i))
       (filter (\<lambda>i. ob_status i \<in> {OB_PENDING, OB_RETRY}) (md_outbox db)))"

definition update_outbox ::
  "(projection_item \<Rightarrow> projection_item) \<Rightarrow> string \<Rightarrow> memory_db \<Rightarrow>
      (memory_error, projection_item \<times> memory_db) result" where
  "update_outbox f u db =
     (let db' = db\<lparr>md_outbox := set_where (\<lambda>i. ob_uuid i = u) f (md_outbox db)\<rparr> in
      case List.find (\<lambda>i. ob_uuid i = u) (md_outbox db') of
        None \<Rightarrow> Inl OutboxItemNotFound
      | Some i \<Rightarrow> Inr (i, db'))"

definition mark_outbox_succeeded :: "stamp \<Rightarrow> string \<Rightarrow> memory_db \<Rightarrow>
    (memory_error, projection_item \<times> memory_db) result" where
  "mark_outbox_succeeded sp u = update_outbox (\<lambda>i. i\<lparr>ob_status := OB_SUCCEEDED, ob_processed_at :=
      Some (sp_now sp 0)\<rparr>) u"

definition mark_outbox_retry :: "string \<Rightarrow> string \<Rightarrow> memory_db \<Rightarrow> (memory_error,
    projection_item \<times> memory_db) result" where
  "mark_outbox_retry u e db =
     (let attempts = (case List.find (\<lambda>i. ob_uuid i = u) (md_outbox db) of None \<Rightarrow> 1 | Some i
         \<Rightarrow> ob_attempts i + 1) in
      update_outbox (\<lambda>i. i\<lparr>ob_status := OB_RETRY, ob_attempts := attempts, ob_error := Some
          e\<rparr>) u db)"

end
