(* ===== verification/Consolidation.thy ===== *)
theory Consolidation
  imports MemoryTables
begin

text \<open>
  From candidates to canonical memory (\<open>memory_worker/consolidation/*.py\<close>): the canonical key, the
  deterministic resolver, and the consolidator, which reads outside a transaction and then writes in
  one; what it has decided to write is a value of its own here, so that it can be applied to a
  database that has moved on.
\<close>

section \<open>Canonical keys\<close>

text \<open>\<open>re.sub(r"\s+", "_", ...)\<close> on a stripped text; then every character outside the class
    goes.\<close>

fun collapse_spaces :: "unidb \<Rightarrow> bool \<Rightarrow> ustr \<Rightarrow> ustr" where
  "collapse_spaces U inside [] = []"
| "collapse_spaces U inside (c # cs) =
     (if is_space U c then (if inside then collapse_spaces U True cs else 95 # collapse_spaces U True cs)
      else c # collapse_spaces U False cs)"

definition slug_char :: "codepoint \<Rightarrow> bool" where
  "slug_char c \<longleftrightarrow> (97 \<le> c \<and> c \<le> 122) \<or> (48 \<le> c \<and> c \<le> 57) \<or> c =
      95 \<or> c = 45 \<or> (1536 \<le> c \<and> c \<le> 1791)"

definition slug :: "unidb \<Rightarrow> ustr \<Rightarrow> ustr" where
  "slug U v = filter slug_char (collapse_spaces U False (py_lower U (py_strip U v)))"

definition text_or :: "string option \<Rightarrow> string \<Rightarrow> string" where
  "text_or v d = (case v of None \<Rightarrow> d | Some s \<Rightarrow> (if s = [] then d else s))"

definition canonical_key_for_candidate :: "unidb \<Rightarrow> memory_candidate \<Rightarrow> ustr" where
  "canonical_key_for_candidate U c =
     (let t = candidate_type_value (mc_type c) in
      lit t @ lit '':'' @ slug U (lit (text_or (mc_subject c) ''unknown'')) @ lit '':'' @ slug U (lit (text_or
          (mc_predicate c) t)))"

section \<open>Resolution\<close>

definition polarities_contradict :: "polarity \<Rightarrow> polarity \<Rightarrow> bool" where
  "polarities_contradict existing new \<longleftrightarrow> UNKNOWN_POLARITY \<notin> {existing, new} \<and>
      existing \<noteq> new"

fun change_operation_for :: "consolidation_operation \<Rightarrow> change_operation" where
  "change_operation_for CO_ADD = CH_ADD"
| "change_operation_for CO_UPDATE = CH_UPDATE"
| "change_operation_for CO_SUPERSEDE = CH_SUPERSEDE"
| "change_operation_for CO_CONTRADICT = CH_CONTRADICT"
| "change_operation_for CO_RETRACT = CH_RETRACT"
| "change_operation_for CO_FORGET = CH_FORGET"
| "change_operation_for CO_REINFORCE = CH_REINFORCE"
| "change_operation_for _ = CH_ADD"

definition resolve :: "memory_candidate \<Rightarrow> memory_version option \<Rightarrow> consolidation_operation
    \<times> string list" where
  "resolve c current =
     (if mc_status c = CS_REJECTED then (CO_REJECT, [''candidate_rejected''])
      else if mc_status c = CS_NEEDS_REVIEW then (CO_MANUAL_REVIEW, [''candidate_needs_review''])
      else if mc_predicate c = Some ''forget_request'' then (CO_MANUAL_REVIEW,
          [''forget_requires_authorized_workflow''])
      else case current of
        None \<Rightarrow> (CO_ADD, [''no_existing_memory''])
      | Some v \<Rightarrow>
          (if vr_text v = mc_normalized_text c then (CO_REINFORCE, [''same_value''])
           else if polarities_contradict (vr_polarity v) (mc_polarity c) then (CO_CONTRADICT, [''conflicting_value''])
           else (CO_SUPERSEDE, [''newer_value''])))"

section \<open>The consolidator\<close>

definition session_for_candidate :: "memory_db \<Rightarrow> memory_candidate \<Rightarrow> session_row option" where
  "session_for_candidate db c =
     (case List.find (\<lambda>u. tu_uuid u = mc_text_unit c) (md_units db) of
        None \<Rightarrow> None
      | Some u \<Rightarrow> List.find (\<lambda>s. ss_uuid s = tu_session u) (md_sessions db))"

definition scope_for_session :: "session_row \<Rightarrow> string \<times> string" where
  "scope_for_session s =
     (case ss_project s of
        Some p \<Rightarrow> (''project'', p)
      | None \<Rightarrow> (case ss_workspace s of Some w \<Rightarrow> (''workspace'', w) | None \<Rightarrow>
          (''session'', ss_uuid s)))"

definition current_version :: "memory_db \<Rightarrow> memory option \<Rightarrow> memory_version option" where
  "current_version db m = Option.bind (Option.bind m me_current) (find_version db)"

definition candidate_evidence_of :: "memory_db \<Rightarrow> string \<Rightarrow> candidate_evidence list" where
  "candidate_evidence_of db c = sort_key (\<lambda>e. (ev_created_at e, ev_uuid e)) (filter (\<lambda>e.
      ev_candidate e = c) (md_evidence db))"

text \<open>Loading through the model refuses an erased row: its status, or the length of its evidence.\<close>

definition get_candidate :: "memory_db \<Rightarrow> string \<Rightarrow> (memory_error, memory_candidate) result" where
  "get_candidate db c =
     (case find_candidate_row db c of
        None \<Rightarrow> Inl CandidateNotFound
      | Some r \<Rightarrow> (if cw_redacted r then Inl CandidateUnreadable else Inr (cw_candidate r)))"

definition list_evidence :: "memory_db \<Rightarrow> string \<Rightarrow> (memory_error, candidate_evidence list)
    result" where
  "list_evidence db c =
     (let es = candidate_evidence_of db c in
      rbind (raise_if (\<not> list_all evidence_ok es) CandidateUnreadable) (\<lambda>_. Inr es))"

definition version_for ::
  "stamp \<Rightarrow> memory_candidate \<Rightarrow> string \<Rightarrow> nat \<Rightarrow>
      consolidation_operation \<Rightarrow> memory_version" where
  "version_for sp c m n op =
     \<lparr>vr_uuid = sp_uuid sp 1, vr_memory = m, vr_number = n, vr_text = mc_normalized_text c, vr_value =
         mc_object c,
      vr_confidence = mc_confidence c, vr_polarity = mc_polarity c, vr_importance = mc_importance c,
      vr_valid_from = mc_valid_from c, vr_valid_until = mc_valid_until c, vr_from = sp_now sp 0, vr_until = None,
      vr_candidate = Some (mc_uuid c), vr_change = change_operation_for op,
      vr_reason = Some (JObj [(''operation'', jlit (consolidation_value op)),
        (''candidate_status'', jlit (candidate_status_value (mc_status c))),
        (''rejection_reason_codes'', (case mc_rejection_reasons c of None \<Rightarrow> JList [] | Some r
            \<Rightarrow> r))]),
      vr_created_at = sp_now sp 0\<rparr>"

datatype consolidation_write =
    ExistingDecision consolidation_decision
  | DecisionOnly string consolidation_operation "string list"
  | CreateMemory memory memory_version string "string list" consolidation_operation "candidate_evidence list"
  | Reinforce memory memory_version string "string list" "candidate_evidence list"
  | CreateVersion memory memory_version string "string list" consolidation_operation "candidate_evidence list" bool

definition new_memory :: "unidb \<Rightarrow> stamp \<Rightarrow> memory_candidate \<Rightarrow> string \<times>
    string \<Rightarrow> memory" where
  "new_memory U sp c scope =
     \<lparr>me_uuid = sp_uuid sp 0, me_key = canonical_key_for_candidate U c, me_type = candidate_type_value
         (mc_type c),
      me_scope_type = fst scope, me_scope_uuid = Some (snd scope), me_current = None, me_status = MEM_ACTIVE,
      me_sensitivity = mc_sensitivity c, me_created_at = sp_now sp 0, me_updated_at = None\<rparr>"

definition write_for ::
  "unidb \<Rightarrow> stamp \<Rightarrow> memory_candidate \<Rightarrow> string \<times> string \<Rightarrow>
      memory option \<Rightarrow> memory_version option
     \<Rightarrow> candidate_evidence list \<Rightarrow> consolidation_write" where
  "write_for U sp c scope m current es =
     (let (op, reasons) = resolve c current; cand = mc_uuid c in
      if op \<in> {CO_REJECT, CO_MANUAL_REVIEW, CO_NOOP} then DecisionOnly cand op reasons
      else case m of
        None \<Rightarrow> (let x = new_memory U sp c scope in CreateMemory x (version_for sp c (me_uuid x) 1 op)
            cand reasons op es)
      | Some x \<Rightarrow>
          (let number = (case current of None \<Rightarrow> 1 | Some v \<Rightarrow> vr_number v + 1) in
           case (op, current) of
             (CO_REINFORCE, Some v) \<Rightarrow> Reinforce x v cand reasons es
           | _ \<Rightarrow> (if op = CO_CONTRADICT then DecisionOnly cand CO_CONTRADICT reasons
                   else CreateVersion x (version_for sp c (me_uuid x) number op) cand reasons op es (op =
                       CO_SUPERSEDE))))"

definition consolidation_plan :: "unidb \<Rightarrow> stamp \<Rightarrow> string \<Rightarrow> memory_db
    \<Rightarrow> (memory_error, consolidation_write) result" where
  "consolidation_plan U sp cand db =
     (case get_consolidation_decision db cand of
        Some d \<Rightarrow> Inr (ExistingDecision d)
      | None \<Rightarrow>
          rbind (get_candidate db cand) (\<lambda>c.
          rbind (list_evidence db cand) (\<lambda>es.
          if es = [] then Inr (DecisionOnly cand CO_REJECT [''missing_evidence''])
          else (case session_for_candidate db c of
                  None \<Rightarrow> Inl SessionNotFound
                | Some s \<Rightarrow>
                    (let scope = scope_for_session s;
                         m = find_by_canonical_key db (fst scope) (Some (snd scope)) (canonical_key_for_candidate U
                             c) in
                     Inr (write_for U sp c scope m (current_version db m) es))))))"

fun apply_write ::
  "stamp \<Rightarrow> consolidation_write \<Rightarrow> memory_db \<Rightarrow> (memory_error,
      consolidation_decision \<times> memory_db) result" where
  "apply_write sp (ExistingDecision d) db = Inr (d, db)"
| "apply_write sp (DecisionOnly c op reasons) db = record_decision_only sp c op reasons db"
| "apply_write sp (CreateMemory m v c reasons op es) db = create_memory_with_version sp m v c reasons op es db"
| "apply_write sp (Reinforce m v c reasons es) db = record_reinforcement sp m v c reasons es db"
| "apply_write sp (CreateVersion m v c reasons op es close) db =
     create_version_for_memory sp m v c reasons op es close db"

definition consolidate_candidate ::
  "unidb \<Rightarrow> stamp \<Rightarrow> string \<Rightarrow> memory_db \<Rightarrow> (memory_error,
      consolidation_decision \<times> memory_db) result" where
  "consolidate_candidate U sp cand db = rbind (consolidation_plan U sp cand db) (\<lambda>w. apply_write sp w db)"

end
