(* ===== verification/Correction.thy ===== *)
theory Correction
  imports Consolidation
begin

text \<open>
  Corrections of canonical memory by its user (\<open>governance/correction.py\<close> and the change requests of
  \<open>governance/repositories.py\<close>).  Each \<open>with self.connection\<close> block is one step; applying
      a request
  takes four of them.
\<close>

section \<open>Change requests\<close>

definition json_truthy :: "json \<Rightarrow> bool" where
  "json_truthy v \<longleftrightarrow> (case v of JNull \<Rightarrow> False | JBool b \<Rightarrow> b | JInt i
      \<Rightarrow> i \<noteq> 0 | JFloat m e \<Rightarrow> m \<noteq> 0 | JNonFinite \<Rightarrow> True
     | JStr s \<Rightarrow> s \<noteq> [] | JList xs \<Rightarrow> xs \<noteq> [] | JObj d \<Rightarrow> d \<noteq> [])"

definition or_object :: "json \<Rightarrow> json" where
  "or_object v = (if json_truthy v then v else JObj [])"

definition create_change_request ::
  "stamp \<Rightarrow> string \<Rightarrow> string \<Rightarrow> string option \<Rightarrow> json \<Rightarrow>
      string option \<Rightarrow> string option \<Rightarrow> json \<Rightarrow> memory_db
     \<Rightarrow> (memory_error, change_request \<times> memory_db) result" where
  "create_change_request sp op actor_type m val reason actor impact db =
     (let q = \<lparr>cq_uuid = sp_uuid sp 0, cq_memory = m, cq_operation = op, cq_value = or_object val, cq_why =
         reason,
        cq_actor_type = actor_type, cq_actor = actor, cq_status = ''pending'', cq_impact = or_object impact,
        cq_version = None, cq_created_at = sp_now sp 0, cq_reviewed_at = None, cq_applied_at = None\<rparr> in
      rbind (raise_if (list_ex (\<lambda>x. cq_uuid x = cq_uuid q) (md_requests db)) UniqueViolated) (\<lambda>_.
        Inr (q, db\<lparr>md_requests := md_requests db @ [q]\<rparr>)))"

definition get_change_request :: "memory_db \<Rightarrow> string \<Rightarrow> (memory_error, change_request)
    result" where
  "get_change_request db u =
     (case List.find (\<lambda>q. cq_uuid q = u) (md_requests db) of None \<Rightarrow> Inl RequestNotFound | Some
         q \<Rightarrow> Inr q)"

definition update_change_request ::
  "string \<Rightarrow> (change_request \<Rightarrow> change_request) \<Rightarrow> memory_db \<Rightarrow>
      (memory_error, change_request \<times> memory_db) result" where
  "update_change_request u f db =
     (let db' = db\<lparr>md_requests := set_where (\<lambda>q. cq_uuid q = u) f (md_requests db)\<rparr> in
      rbind (get_change_request db' u) (\<lambda>q. Inr (q, db')))"

section \<open>Preview and permission\<close>

definition require_memory :: "memory_db \<Rightarrow> string \<Rightarrow> (memory_error, memory) result" where
  "require_memory db u = (case find_memory db u of None \<Rightarrow> Inl MemoryNotFound | Some m \<Rightarrow> Inr m)"

definition blocks_of_memory :: "memory_db \<Rightarrow> string \<Rightarrow> block_row list" where
  "blocks_of_memory db m =
     (let versions = map bs_version (filter (\<lambda>s. bs_memory s = m) (md_block_sources db));
          blocks = map bv_block (filter (\<lambda>v. bv_uuid v \<in> set versions) (md_block_versions db)) in
      filter (\<lambda>b. bk_uuid b \<in> set blocks) (md_blocks db))"

definition attachments_naming :: "memory_db \<Rightarrow> string \<Rightarrow> attachment_row list" where
  "attachments_naming db m = filter (\<lambda>a. like_contains (lit m) (at_sources a)) (md_attachments db)"

definition impact_preview :: "memory_db \<Rightarrow> string option \<Rightarrow> json" where
  "impact_preview db mo =
     (case mo of
        None \<Rightarrow> JObj [(''affected_memory_versions'', JList []), (''affected_block_versions'', JList [])]
      | Some m \<Rightarrow> JObj
          [(''affected_memory_versions'', JList (map (jlit \<circ> vr_uuid) (filter (\<lambda>v. vr_memory v = m)
              (md_versions db)))),
           (''affected_block_versions'', JList (map (\<lambda>b. JObj [(''block_uuid'', jlit (bk_uuid b)),
              (''block_type'', jlit (bk_type b)), (''label'', jlit (bk_label b))]) (blocks_of_memory db m))),
           (''affected_retrieval_indexes'', JList [jlit ''memory_version_fts'', jlit ''memory_version_embeddings'']),
           (''affected_graph_nodes'', JList [jlit m]),
           (''affected_attachments'', JList (map (jlit \<circ> at_uuid) (attachments_naming db m))),
           (''privacy_implications'', JList [jlit
               ''past attachments remain audit records unless privacy erasure is requested''])])"

definition reject_protected :: "memory_db \<Rightarrow> string \<Rightarrow> string \<Rightarrow> (memory_error,
    unit) result" where
  "reject_protected db u actor_type =
     rbind (require_memory db u) (\<lambda>m.
       raise_if (me_scope_type m = ''admin'' \<and> actor_type \<notin> {''admin'', ''system''}) ProtectedMemory)"

definition create_request ::
  "stamp \<Rightarrow> string \<Rightarrow> string \<Rightarrow> string \<Rightarrow> json \<Rightarrow> string
      option \<Rightarrow> string option \<Rightarrow> memory_db
     \<Rightarrow> (memory_error, change_request \<times> memory_db) result" where
  "create_request sp m op actor_type val reason actor db =
     rbind (require_memory db m) (\<lambda>_.
     rbind (reject_protected db m actor_type) (\<lambda>_.
       create_change_request sp op actor_type (Some m) val reason actor (impact_preview db (Some m)) db))"

section \<open>A new version\<close>

definition required_version :: "memory_db \<Rightarrow> memory \<Rightarrow> (memory_error, memory_version) result"
    where
  "required_version db m =
     (case me_current m of
        None \<Rightarrow> Inl NoCurrentVersion
      | Some u \<Rightarrow> (case find_version db u of None \<Rightarrow> Inl CurrentVersionNotFound | Some v
          \<Rightarrow> Inr v))"

definition value_text :: "(json \<Rightarrow> ustr) \<Rightarrow> json \<Rightarrow> ustr" where
  "value_text S v = (case v of JStr s \<Rightarrow> s | _ \<Rightarrow> S v)"

definition object_member :: "json \<Rightarrow> string \<Rightarrow> json option" where
  "object_member v k = (case v of JObj d \<Rightarrow> (if json_truthy (jget d k) then Some (jget d k) else None) |
      _ \<Rightarrow> None)"

definition normalized_text_for_operation ::
  "(json \<Rightarrow> ustr) \<Rightarrow> string \<Rightarrow> json \<Rightarrow> memory_version \<Rightarrow>
      (memory_error, ustr) result" where
  "normalized_text_for_operation S op val current =
     (case (if op = ''restore_version'' then object_member val ''normalized_text'' else None) of
        Some v \<Rightarrow> Inr (value_text S v)
      | None \<Rightarrow>
          (if op = ''confirm'' then Inr (vr_text current)
           else case List.map_filter (object_member val) [''normalized_text'', ''value'', ''text''] of
             v # _ \<Rightarrow> Inr (value_text S v)
           | [] \<Rightarrow> Inl ValueMissing))"

text \<open>The \<open>INSERT\<close> names the columns up to the schema version; polarity is not among them.\<close>

definition corrected_version ::
  "stamp \<Rightarrow> memory \<Rightarrow> memory_version \<Rightarrow> ustr \<Rightarrow> string \<Rightarrow>
      string \<Rightarrow> json \<Rightarrow> memory_version" where
  "corrected_version sp m current text op actor_type val =
     \<lparr>vr_uuid = sp_uuid sp 1, vr_memory = me_uuid m, vr_number = vr_number current + 1, vr_text = text,
      vr_value = Some (JObj [(''value'', JStr text)]), vr_confidence = vr_confidence current,
      vr_polarity = UNKNOWN_POLARITY, vr_importance = vr_importance current,
      vr_valid_from = vr_valid_from current, vr_valid_until = vr_valid_until current, vr_from = sp_now sp 0,
      vr_until = None, vr_candidate = None, vr_change = CH_UPDATE,
      vr_reason = Some (JObj [(''operation'', jlit op), (''actor_type'', jlit actor_type),
        (''user_confirmed'', JBool (op = ''confirm'')), (''proposed_value'', val)]),
      vr_created_at = sp_now sp 0\<rparr>"

definition activate :: "string \<Rightarrow> string \<Rightarrow> string \<Rightarrow> memory_db \<Rightarrow>
    memory_db" where
  "activate m v now db = db\<lparr>md_memories := set_where (\<lambda>x. me_uuid x = m)
     (\<lambda>x. x\<lparr>me_current := Some v, me_status := MEM_ACTIVE, me_updated_at := Some now\<rparr>)
         (md_memories db)\<rparr>"

text \<open>The transaction, on what was read before it.\<close>

definition store_correction ::
  "stamp \<Rightarrow> memory \<Rightarrow> memory_version \<Rightarrow> memory_version \<Rightarrow> string
      \<Rightarrow> memory_db \<Rightarrow> (memory_error, string \<times> memory_db) result" where
  "store_correction sp m current v op db =
     rbind (insert_version v (close_version (vr_uuid current) (sp_now sp 1) db)) (\<lambda>db1.
     let db2 = activate (me_uuid m) (vr_uuid v) (sp_now sp 1) db1;
         db3 = db2\<lparr>md_embeddings := filter (\<lambda>u. u \<noteq> vr_uuid current) (md_embeddings
             db2)\<rparr> in
     rbind (enqueue_projection sp ''memory'' (me_uuid m) op (projection_payload (me_uuid m) (vr_uuid v) op) db3)
       (\<lambda>(i, db4). Inr (vr_uuid v, db4)))"

definition create_new_version ::
  "stamp \<Rightarrow> memory \<Rightarrow> ustr \<Rightarrow> string \<Rightarrow> string \<Rightarrow> json
      \<Rightarrow> memory_db \<Rightarrow> (memory_error, string \<times> memory_db) result" where
  "create_new_version sp m text op actor_type val db =
     rbind (required_version db m) (\<lambda>current.
       store_correction sp m current (corrected_version sp m current text op actor_type val) op db)"

section \<open>What depends on a memory\<close>

definition mark_stale :: "stamp \<Rightarrow> string \<Rightarrow> string \<Rightarrow> memory_db \<Rightarrow>
    memory_db" where
  "mark_stale sp b why db =
     db\<lparr>md_blocks := set_where (\<lambda>x. bk_uuid x = b) (\<lambda>x. x\<lparr>bk_build_status :=
         ''stale'', bk_updated_at := Some (sp_now sp 5)\<rparr>)
          (md_blocks db),
        md_attachments := set_where (\<lambda>a. like_contains (lit b) (at_block_sources a))
          (\<lambda>a. a\<lparr>at_status := ''stale'', at_stale_reason := Some why\<rparr>) (md_attachments
              db)\<rparr>"

definition invalidate_dependencies :: "stamp \<Rightarrow> string \<Rightarrow> memory_db \<Rightarrow> memory_db" where
  "invalidate_dependencies sp m db =
     (let db' = foldl (\<lambda>d b. mark_stale sp (bk_uuid b) ''source_memory_changed'' d) db (blocks_of_memory db
         m) in
      db'\<lparr>md_attachments := set_where (\<lambda>a. like_contains (lit m) (at_sources a))
        (\<lambda>a. a\<lparr>at_status := ''stale'', at_stale_reason := Some ''source_memory_changed''\<rparr>)
            (md_attachments db')\<rparr>)"

definition indexed :: "memory \<Rightarrow> memory_version \<Rightarrow> bool" where
  "indexed m v \<longleftrightarrow> me_current m = Some (vr_uuid v) \<or> vr_until v \<noteq> None"

definition fts_row_of :: "memory \<Rightarrow> memory_version \<Rightarrow> fts_row" where
  "fts_row_of m v = \<lparr>ft_version = vr_uuid v, ft_memory = vr_memory v, ft_key = me_key m, ft_type = me_type m,
     ft_scope_type = me_scope_type m, ft_scope_uuid = me_scope_uuid m, ft_text = vr_text v\<rparr>"

definition rebuild_index :: "memory_db \<Rightarrow> memory_db" where
  "rebuild_index db = db\<lparr>md_fts := concat (map (\<lambda>v. map (\<lambda>m. fts_row_of m v)
     (filter (\<lambda>m. me_uuid m = vr_memory v \<and> indexed m v) (md_memories db))) (md_versions db))\<rparr>"

section \<open>Applying and undoing\<close>

definition set_status :: "string \<Rightarrow> memory_status \<Rightarrow> string \<Rightarrow> memory_db
    \<Rightarrow> memory_db" where
  "set_status m st now db = db\<lparr>md_memories := set_where (\<lambda>x. me_uuid x = m)
     (\<lambda>x. x\<lparr>me_status := st, me_updated_at := Some now\<rparr>) (md_memories db)\<rparr>"

definition apply_operation ::
  "(json \<Rightarrow> ustr) \<Rightarrow> stamp \<Rightarrow> change_request \<Rightarrow> memory \<Rightarrow>
      memory_db \<Rightarrow> (memory_error, string option \<times> memory_db) result" where
  "apply_operation S sp q m db =
     (let op = cq_operation q; new = (\<lambda>text. rbind (create_new_version sp m text op (cq_actor_type q)
         (cq_value q) db)
            (\<lambda>(v, db'). Inr (Some v, db'))) in
      if op \<in> {''confirm'', ''correct'', ''restore_version''} then
        rbind (required_version db m) (\<lambda>current. rbind (normalized_text_for_operation S op (cq_value q)
            current) new)
      else if op \<in> {''mark_incorrect'', ''mark_outdated'', ''retract''} then
        Inr (me_current m, set_status (me_uuid m) (if op = ''retract'' then MEM_RETRACTED else MEM_NEEDS_REVIEW)
            (sp_now sp 1) db)
      else if op \<in> {''merge'', ''split'', ''change_scope'', ''change_sensitivity'', ''pin'', ''unpin''} then
        rbind (required_version db m) (\<lambda>current. new (vr_text current))
      else Inl UnsupportedOperation)"

definition close_request :: "stamp \<Rightarrow> string \<Rightarrow> string option \<Rightarrow> memory_db
    \<Rightarrow> (memory_error, change_request \<times> memory_db) result" where
  "close_request sp u v = update_change_request u (\<lambda>q. q\<lparr>cq_status := ''applied'', cq_reviewed_at :=
      Some (sp_now sp 6),
     cq_applied_at := Some (sp_now sp 6), cq_version := v\<rparr>)"

definition apply_request ::
  "(json \<Rightarrow> ustr) \<Rightarrow> stamp \<Rightarrow> string \<Rightarrow> memory_db \<Rightarrow>
      (memory_error, change_request \<times> memory_db) result" where
  "apply_request S sp u db =
     rbind (get_change_request db u) (\<lambda>q.
     if cq_status q \<noteq> ''pending'' then Inr (q, db)
     else case cq_memory q of
       None \<Rightarrow> Inl RequestWithoutMemory
     | Some mu \<Rightarrow>
         rbind (require_memory db mu) (\<lambda>m.
         rbind (apply_operation S sp q m db) (\<lambda>(v, db1).
           close_request sp u v (rebuild_index (invalidate_dependencies sp mu db1)))))"

definition cancel_request :: "stamp \<Rightarrow> string \<Rightarrow> memory_db \<Rightarrow> (memory_error,
    change_request \<times> memory_db) result" where
  "cancel_request sp u = update_change_request u (\<lambda>q. q\<lparr>cq_status := ''cancelled'', cq_reviewed_at
      := Some (sp_now sp 6)\<rparr>)"

definition undo_request ::
  "stamp \<Rightarrow> string \<Rightarrow> string \<Rightarrow> string \<Rightarrow> memory_db \<Rightarrow>
      (memory_error, change_request \<times> memory_db) result" where
  "undo_request sp undo_reason u actor_type db =
     rbind (get_change_request db u) (\<lambda>q.
     case cq_memory q of
       None \<Rightarrow> Inl RequestWithoutMemory
     | Some mu \<Rightarrow>
         rbind (require_memory db mu) (\<lambda>m.
         let versions = list_versions db mu in
         rbind (raise_if (length versions < 2) NothingToUndo) (\<lambda>_.
         let previous = versions ! (length versions - 2) in
         rbind (create_change_request sp ''restore_version'' actor_type (Some mu)
             (JObj [(''normalized_text'', JStr (vr_text previous))]) (Some undo_reason) None (impact_preview db
                 (Some mu)) db)
           (\<lambda>(undo, db1).
         rbind (create_new_version sp m (vr_text previous) ''undo'' actor_type (JObj [(''undone_request_uuid'',
             jlit u)]) db1)
           (\<lambda>(v, db2).
         update_change_request (cq_uuid undo) (\<lambda>x. x\<lparr>cq_status := ''applied'', cq_reviewed_at :=
             Some (sp_now sp 6),
           cq_applied_at := Some (sp_now sp 6)\<rparr>) (invalidate_dependencies sp mu db2))))))"

end
