(* ===== verification/MemoryHistory.thy ===== *)
theory MemoryHistory
  imports Correction
begin

text \<open>
  The history of the canonical memory: consolidations, corrections and status changes in any order,
  each writing what it prepared from a database that may have moved on since.  Every memory keeps
  one chain of versions: numbered without a gap, the last one current and the only open one.
\<close>

section \<open>The chain of a memory\<close>

definition versions_of :: "memory_db \<Rightarrow> string \<Rightarrow> memory_version list" where
  "versions_of db m = filter (\<lambda>v. vr_memory v = m) (md_versions db)"

definition chained :: "memory_version list \<Rightarrow> string option \<Rightarrow> bool" where
  "chained vs cur \<longleftrightarrow> vs \<noteq> [] \<and> map vr_number vs = [1..<Suc (length vs)] \<and> cur =
      Some (vr_uuid (last vs)) \<and>
     vr_until (last vs) = None \<and> list_all (\<lambda>v. vr_until v \<noteq> None) (butlast vs)"

definition memories_chained :: "memory_db \<Rightarrow> bool" where
  "memories_chained db \<longleftrightarrow> distinct (map me_uuid (md_memories db)) \<and> distinct (map vr_uuid
      (md_versions db)) \<and>
     (\<forall>v\<in>set (md_versions db). vr_memory v \<in> me_uuid ` set (md_memories db)) \<and>
     (\<forall>m\<in>set (md_memories db). chained (versions_of db (me_uuid m)) (me_current m))"

lemma chained_single: "chained [v] (Some (vr_uuid v)) \<longleftrightarrow> vr_number v = 1 \<and> vr_until v = None"
  by (auto simp: chained_def)

lemma map_set_where: "map f (set_where p g rows) = map (\<lambda>r. if p r then f (g r) else f r) rows"
  by (simp add: set_where_def if_distrib cong: if_cong)

lemma map_set_where_id: "(\<And>r. f (g r) = f r) \<Longrightarrow> map f (set_where p g rows) = map f rows"
  by (simp add: map_set_where)

lemma filter_set_where:
  "(\<And>r. q (g r) = q r) \<Longrightarrow> filter q (set_where p g rows) = set_where p g (filter q rows)"
  by (induction rows) (auto simp: set_where_def)

lemma set_where_none: "(\<And>r. r \<in> set rows \<Longrightarrow> \<not> p r) \<Longrightarrow> set_where p f
    rows = rows"
  by (auto simp: set_where_def intro: map_idI)

lemma list_ex_set_where: "list_ex p (set_where q f rows) = list_ex (\<lambda>r. p (if q r then f r else r)) rows"
  by (induction rows) (simp_all add: set_where_def)

lemma clash_after_close:
  "list_ex (version_clash v) (md_versions (close_version u now db)) = list_ex (version_clash v) (md_versions db)"
proof -
  have "version_clash v (x\<lparr>vr_until := w\<rparr>) = version_clash v x" for x w by (simp add: version_clash_def)
  then have "version_clash v (if vr_uuid x = u then x\<lparr>vr_until := Some now\<rparr> else x) = version_clash v
      x" for x by simp
  then show ?thesis by (simp add: close_version_def list_ex_set_where)
qed

lemma chained_numbers:
  assumes "chained vs cur" "v \<in> set vs"
  shows "1 \<le> vr_number v" "vr_number v \<le> length vs"
proof -
  have "vr_number v \<in> set (map vr_number vs)" using assms(2) by simp
  also have "\<dots> = set [1..<Suc (length vs)]" using assms(1) by (simp only: chained_def)
  finally show "1 \<le> vr_number v" "vr_number v \<le> length vs" by (simp_all only: set_upt atLeastLessThan_iff
      less_Suc_eq_le)
qed

lemma chained_has_number:
  assumes "chained vs cur" "1 \<le> n" "n \<le> length vs"
  shows "\<exists>v\<in>set vs. vr_number v = n"
proof -
  have "n \<in> set (map vr_number vs)" using assms unfolding chained_def by (simp only: set_upt) auto
  then show ?thesis by auto
qed

lemma chained_last_number:
  assumes "chained vs cur" "v \<in> set vs" "vr_number v = length vs"
  shows "v = last vs"
proof -
  from assms(2) obtain i where i: "i < length vs" "vs ! i = v" by (auto simp: in_set_conv_nth)
  have "vr_number (vs ! i) = map vr_number vs ! i" using i by simp
  also have "\<dots> = Suc i" using assms(1) i by (simp add: chained_def del: upt_Suc)
  finally have "Suc i = length vs" using i assms(3) by simp
  then show ?thesis using i by (metis diff_Suc_1 last_conv_nth list.size(3) not_less0)
qed

lemma chained_append:
  assumes c: "chained vs (Some u)" and d: "distinct (map vr_uuid vs)"
    and v: "vr_number v = Suc (length vs)" "vr_until v = None"
  shows "chained (set_where (\<lambda>x. vr_uuid x = u) (\<lambda>x. x\<lparr>vr_until := Some now\<rparr>) vs @
      [v]) (Some (vr_uuid v))"
proof -
  let ?w = "set_where (\<lambda>x. vr_uuid x = u) (\<lambda>x. x\<lparr>vr_until := Some now\<rparr>) vs"
  have ne: "vs \<noteq> []" and last: "vr_uuid (last vs) = u" and closed: "list_all (\<lambda>v. vr_until v
      \<noteq> None) (butlast vs)"
    and numbers: "map vr_number vs = [1..<Suc (length vs)]"
    using c by (auto simp: chained_def)
  have all: "list_all (\<lambda>v. vr_until v \<noteq> None) ?w"
    using ne last closed by (cases vs rule: rev_cases) (auto simp: set_where_def list_all_iff)
  have "map vr_number ?w = map vr_number vs" by (rule map_set_where_id) simp
  then have "map vr_number (?w @ [v]) = [1..<Suc (length (?w @ [v]))]"
    using numbers v by (simp add: set_where_def)
  then show ?thesis using all v by (simp add: chained_def del: upt_Suc)
qed

lemma chained_list_versions:
  assumes "chained (versions_of db m) cur"
  shows "list_versions db m = versions_of db m"
proof -
  have "sorted (map vr_number (versions_of db m))" using assms by (simp add: chained_def del: upt_Suc)
  then show ?thesis by (simp add: list_versions_def versions_of_def sort_key_id_if_sorted)
qed

section \<open>What the writes leave alone\<close>

lemma insert_decision_frame:
  "insert_decision d db = Inr db' \<Longrightarrow> md_memories db' = md_memories db \<and> md_versions db' =
      md_versions db"
  by (auto simp: insert_decision_def rbind_def raise_if_def split: if_splits)

lemma record_decision_frame:
  "record_decision sp c op rs m v db = Inr (d, db') \<Longrightarrow> md_memories db' = md_memories db \<and>
      md_versions db' = md_versions db"
  by (auto simp: record_decision_def Let_def rbind_def dest: insert_decision_frame split: option.splits sum.splits)

lemma link_evidence_frame:
  "link_evidence sp m v c n es db = Inr db' \<Longrightarrow> md_memories db' = md_memories db \<and> md_versions
      db' = md_versions db"
proof (induction es arbitrary: n db)
  case (Cons e es)
  from Cons.prems obtain db1 where db1: "insert_link \<lparr>el_uuid = sp_uuid sp (4 + n), el_memory = m,
      el_version = v,
      el_candidate = c, el_evidence = ev_uuid e, el_type = SUPPORTS, el_created_at = sp_now sp (4 + n)\<rparr> db =
          Inr db1"
    "link_evidence sp m v c (Suc n) es db1 = Inr db'"
    by (auto simp: rbind_def split: sum.splits)
  from db1(1) have "md_memories db1 = md_memories db \<and> md_versions db1 = md_versions db"
    by (auto simp: insert_link_def rbind_def raise_if_def split: if_splits)
  with Cons.IH[OF db1(2)] show ?case by simp
qed simp

lemma enqueue_projection_frame:
  "enqueue_projection sp t a op p db = Inr (i, db') \<Longrightarrow> md_memories db' = md_memories db \<and>
      md_versions db' = md_versions db"
  by (auto simp: enqueue_projection_def Let_def rbind_def raise_if_def insert_projection_def split: option.splits
      sum.splits if_splits)

lemma decide_and_link_frame:
  assumes "decide_and_link sp m v c op rs es db = Inr (d, db')"
  shows "md_memories db' = md_memories db \<and> md_versions db' = md_versions db"
proof -
  from assms obtain db1 db2 i where
    "record_decision sp c op rs (Some m) (Some v) db = Inr (d, db1)" "link_evidence sp m v c 0 es db1 = Inr db2"
    "enqueue_projection sp ''memory'' m (consolidation_value op) (projection_payload m v (consolidation_value op))
        db2 = Inr (i, db')"
    by (auto simp: decide_and_link_def rbind_def split: sum.splits prod.splits)
  then show ?thesis by (simp add: record_decision_frame link_evidence_frame enqueue_projection_frame)
qed

lemma insert_versionD:
  assumes "insert_version v db = Inr db'"
  shows "db' = db\<lparr>md_versions := md_versions db @ [v]\<rparr>" "\<not> list_ex (version_clash v)
      (md_versions db)"
    "find_memory db (vr_memory v) \<noteq> None"
  using assms by (auto simp: insert_version_def rbind_def raise_if_def split: if_splits)

lemma insert_memoryD:
  assumes "insert_memory m db = Inr db'"
  shows "db' = db\<lparr>md_memories := md_memories db @ [m]\<rparr>" "\<not> list_ex (memory_clash m) (md_memories db)"
  using assms by (auto simp: insert_memory_def rbind_def raise_if_def split: if_splits)

section \<open>One more version\<close>

lemma versions_of_in: "v \<in> set (versions_of db m) \<longleftrightarrow> v \<in> set (md_versions db) \<and>
    vr_memory v = m"
  by (auto simp: versions_of_def)

lemma no_memory_no_versions:
  assumes "memories_chained db" "u \<notin> me_uuid ` set (md_memories db)"
  shows "versions_of db u = []"
  using assms by (fastforce simp: memories_chained_def versions_of_def filter_empty_conv)

text \<open>The number after a version that exists can only be taken when that version is the last one.\<close>

lemma free_number_is_next:
  assumes chain: "chained (versions_of db mu) cur" and x: "x \<in> set (md_versions db)" "vr_memory x = mu"
    and v: "vr_memory v = mu" "vr_number v = Suc (vr_number x)"
    and free: "\<And>y. y \<in> set (md_versions db) \<Longrightarrow> vr_memory y = mu \<Longrightarrow> vr_number
        y \<noteq> vr_number v"
  shows "vr_number x = length (versions_of db mu)" "cur = Some (vr_uuid x)"
proof -
  have xin: "x \<in> set (versions_of db mu)" using x by (simp add: versions_of_in)
  show n: "vr_number x = length (versions_of db mu)"
  proof (rule ccontr)
    assume "vr_number x \<noteq> length (versions_of db mu)"
    then have "Suc (vr_number x) \<le> length (versions_of db mu)" using chained_numbers(2)[OF chain xin] by simp
    then obtain y where "y \<in> set (versions_of db mu)" "vr_number y = Suc (vr_number x)"
      using chained_has_number[OF chain, of "Suc (vr_number x)"] by auto
    then show False using free[of y] v(2) by (simp add: versions_of_in)
  qed
  show "cur = Some (vr_uuid x)" using chained_last_number[OF chain xin n] chain by (simp add: chained_def)
qed

lemma chain_extended:
  assumes inv: "memories_chained db" and x: "x \<in> set (md_versions db)" "vr_memory x = mu"
    and v: "vr_memory v = mu" "vr_number v = Suc (vr_number x)" "vr_until v = None"
    and ins: "insert_version v (close_version (vr_uuid x) now db) = Inr db1"
    and db2: "md_versions db2 = md_versions db1" "md_memories db2 = set_where (\<lambda>m. me_uuid m = mu) g
        (md_memories db1)"
    and g: "\<And>m. me_uuid (g m) = me_uuid m" "\<And>m. me_current (g m) = Some (vr_uuid v)"
  shows "memories_chained db2"
proof -
  let ?close = "\<lambda>vs. set_where (\<lambda>y. vr_uuid y = vr_uuid x) (\<lambda>y. y\<lparr>vr_until := Some
      now\<rparr>) vs"
  note D = insert_versionD[OF ins]
  have vs: "md_versions db1 = ?close (md_versions db) @ [v]" and ms: "md_memories db1 = md_memories db"
    using D(1) by (simp_all add: close_version_def)
  have fresh: "\<And>y. y \<in> set (md_versions db) \<Longrightarrow> vr_uuid y \<noteq> vr_uuid v \<and>
      (vr_memory y = mu \<longrightarrow> vr_number y \<noteq> vr_number v)"
    using D(2) v(1) unfolding clash_after_close by (auto simp: list_ex_iff version_clash_def)
  have muin: "mu \<in> me_uuid ` set (md_memories db)" using inv x by (auto simp: memories_chained_def)
  have u: "map me_uuid (md_memories db2) = map me_uuid (md_memories db)" using g(1) by (simp add: db2 ms
      map_set_where_id)
  have vu: "map vr_uuid (md_versions db2) = map vr_uuid (md_versions db) @ [vr_uuid v]"
    by (simp add: db2 vs map_set_where_id)
  have "chained (versions_of db2 (me_uuid m)) (me_current m)" if m: "m \<in> set (md_memories db2)" for m
  proof -
    from m obtain m0 where m0: "m0 \<in> set (md_memories db)" "m = (if me_uuid m0 = mu then g m0 else m0)"
      by (auto simp: db2 ms set_where_def)
    have uu: "me_uuid m = me_uuid m0" using m0(2) g(1) by simp
    have chain: "chained (versions_of db (me_uuid m0)) (me_current m0)" using inv m0(1) by (simp add:
        memories_chained_def)
    have split: "versions_of db2 (me_uuid m0) = ?close (versions_of db (me_uuid m0)) @ (if me_uuid m0 = mu then [v]
        else [])"
      using v(1) by (auto simp: versions_of_def db2 vs filter_set_where)
    show ?thesis
    proof (cases "me_uuid m0 = mu")
      case True
      have chain': "chained (versions_of db mu) (me_current m0)" using chain True by simp
      have free: "vr_number y \<noteq> vr_number v" if "y \<in> set (md_versions db)" "vr_memory y = mu" for y
        using fresh that by blast
      note N = free_number_is_next[OF chain' x v(1,2) free]
      have d: "distinct (map vr_uuid (versions_of db mu))"
        using inv by (simp add: memories_chained_def versions_of_def distinct_map_filter)
      have c: "chained (versions_of db mu) (Some (vr_uuid x))" using chain' N(2) by simp
      have number: "vr_number v = Suc (length (versions_of db mu))" using N(1) v(2) by simp
      show ?thesis using chained_append[OF c d number v(3)] split True m0(2) g(2) uu by simp
    next
      case False
      have "?close (versions_of db (me_uuid m0)) = versions_of db (me_uuid m0)"
      proof -
        have "vr_uuid y \<noteq> vr_uuid x" if y: "y \<in> set (versions_of db (me_uuid m0))" for y
        proof
          assume "vr_uuid y = vr_uuid x"
          then have "y = x" using inv x y
            by (meson memories_chained_def versions_of_in distinct_map inj_onD)
          then show False using x(2) y False by (simp add: versions_of_in)
        qed
        then show ?thesis by (rule set_where_none)
      qed
      then show ?thesis using chain split False m0(2) uu by simp
    qed
  qed
  moreover have "distinct (map vr_uuid (md_versions db2))"
  proof -
    have "vr_uuid v \<notin> vr_uuid ` set (md_versions db)" using fresh by (metis imageE)
    then show ?thesis using inv by (simp add: vu memories_chained_def)
  qed
  moreover have "distinct (map me_uuid (md_memories db2))" using inv by (simp add: u memories_chained_def)
  moreover have "\<forall>y\<in>set (md_versions db2). vr_memory y \<in> me_uuid ` set (md_memories db2)"
  proof -
    have im: "me_uuid ` set (md_memories db2) = me_uuid ` set (md_memories db)" using u by (metis list.set_map)
    show ?thesis using inv muin v(1) unfolding im by (auto simp: db2 vs set_where_def memories_chained_def)
  qed
  ultimately show ?thesis by (simp add: memories_chained_def)
qed

lemma chain_started:
  assumes inv: "memories_chained db" and m: "insert_memory m db = Inr db1" and v: "insert_version v db1 = Inr db2"
    and new: "vr_memory v = me_uuid m" "vr_number v = 1" "vr_until v = None"
  shows "memories_chained (set_current (me_uuid m) (vr_uuid v) now db2)"
proof -
  note M = insert_memoryD[OF m] and V = insert_versionD[OF v]
  let ?db = "set_current (me_uuid m) (vr_uuid v) now db2"
  have fresh: "me_uuid m \<notin> me_uuid ` set (md_memories db)" using M(2) by (auto simp: list_ex_iff
      memory_clash_def)
  have ms: "md_memories ?db = set_where (\<lambda>x. me_uuid x = me_uuid m)
      (\<lambda>x. x\<lparr>me_current := Some (vr_uuid v), me_updated_at := Some now\<rparr>) (md_memories db @ [m])"
    and vs: "md_versions ?db = md_versions db @ [v]"
    using M(1) V(1) by (simp_all add: set_current_def)
  have ms': "md_memories ?db = md_memories db @ [m\<lparr>me_current := Some (vr_uuid v), me_updated_at := Some
      now\<rparr>]"
  proof -
    have "set_where (\<lambda>x. me_uuid x = me_uuid m) f (md_memories db) = md_memories db" for f
      by (rule set_where_none) (metis fresh image_eqI)
    then show ?thesis unfolding ms by (simp add: set_where_def)
  qed
  have vfresh: "vr_uuid v \<notin> vr_uuid ` set (md_versions db)"
    using V(2) M(1) by (auto simp: list_ex_iff version_clash_def)
  have own: "versions_of ?db (me_uuid m) = [v]"
    using no_memory_no_versions[OF inv fresh] new(1) by (simp add: versions_of_def vs)
  have other: "versions_of ?db (me_uuid x) = versions_of db (me_uuid x)" if "x \<in> set (md_memories db)" for x
    using fresh that new(1) by (auto simp: versions_of_def vs)
  show ?thesis
    using inv fresh vfresh new own other unfolding memories_chained_def ms' vs
    by (auto simp: chained_single)
qed

section \<open>Histories\<close>

text \<open>What a worker or a route has read or prepared and may still write: a memory, the write of a
  consolidation, the transaction of a correction.\<close>

datatype memory_write =
    MemoryRead memory
  | ConsolidationReady stamp consolidation_write
  | CorrectionReady stamp memory memory_version memory_version string

type_synonym memory_state = "memory_db \<times> memory_write list"

text \<open>\<open>memory_other\<close> is every step that leaves the rows of memories and versions alone: the
    extraction of
  candidates, change requests, indexes, blocks, attachments, and the outbox of the graph.\<close>

inductive memory_step :: "unidb \<Rightarrow> memory_state \<Rightarrow> memory_state \<Rightarrow> bool" for U where
  memory_read: "find_memory db u = Some m \<Longrightarrow> memory_step U (db, ws) (db, MemoryRead m # ws)"
| prepare_consolidation: "consolidation_plan U sp c db = Inr w
    \<Longrightarrow> memory_step U (db, ws) (db, ConsolidationReady sp w # ws)"
| commit_consolidation: "ConsolidationReady sp w \<in> set ws \<Longrightarrow> apply_write sp w db = Inr (d, db')
    \<Longrightarrow> memory_step U (db, ws) (db', ws)"
| prepare_correction: "MemoryRead m \<in> set ws \<Longrightarrow> required_version db m = Inr current
    \<Longrightarrow> memory_step U (db, ws)
         (db, CorrectionReady sp m current (corrected_version sp m current text op actor val) op # ws)"
| commit_correction: "CorrectionReady sp m current v op \<in> set ws \<Longrightarrow> store_correction sp m
    current v op db = Inr (u, db')
    \<Longrightarrow> memory_step U (db, ws) (db', ws)"
| memory_status_set: "memory_step U (db, ws) (set_status m st now db, ws)"
| memory_other: "md_memories db' = md_memories db \<Longrightarrow> md_versions db' = md_versions db
    \<Longrightarrow> memory_step U (db, ws) (db', ws)"

inductive memory_reachable :: "unidb \<Rightarrow> memory_state \<Rightarrow> bool" for U where
  memory_start: "md_memories db = [] \<Longrightarrow> md_versions db = [] \<Longrightarrow> memory_reachable U
      (db, [])"
| memory_next: "memory_reachable U s \<Longrightarrow> memory_step U s s' \<Longrightarrow> memory_reachable U s'"

section \<open>Prepared writes stay sound\<close>

definition known_version :: "memory_db \<Rightarrow> string \<Rightarrow> string \<Rightarrow> nat \<Rightarrow>
    bool" where
  "known_version db u m n \<longleftrightarrow> (\<exists>x\<in>set (md_versions db). vr_uuid x = u \<and>
      vr_memory x = m \<and> vr_number x = n)"

definition versions_kept :: "memory_db \<Rightarrow> memory_db \<Rightarrow> bool" where
  "versions_kept db db' \<longleftrightarrow> (\<forall>u m n. known_version db u m n \<longrightarrow>
      known_version db' u m n)"

definition next_version :: "memory_db \<Rightarrow> memory_version \<Rightarrow> string \<Rightarrow> string
    \<Rightarrow> bool" where
  "next_version db v m u \<longleftrightarrow> vr_memory v = m \<and> vr_until v = None \<and> (\<exists>n.
      known_version db u m n \<and> vr_number v = Suc n)"

fun write_sound :: "memory_db \<Rightarrow> consolidation_write \<Rightarrow> bool" where
  "write_sound db (CreateMemory m v c rs op es) \<longleftrightarrow> vr_memory v = me_uuid m \<and> vr_number v =
      1 \<and> vr_until v = None"
| "write_sound db (CreateVersion m v c rs op es close) \<longleftrightarrow> close \<and> (\<exists>u. me_current m
    = Some u \<and> next_version db v (me_uuid m) u)"
| "write_sound db _ \<longleftrightarrow> True"

fun prepared_sound :: "memory_db \<Rightarrow> memory_write \<Rightarrow> bool" where
  "prepared_sound db (MemoryRead m) \<longleftrightarrow> (\<exists>u n. me_current m = Some u \<and> known_version
      db u (me_uuid m) n)"
| "prepared_sound db (ConsolidationReady sp w) \<longleftrightarrow> write_sound db w"
| "prepared_sound db (CorrectionReady sp m current v op) \<longleftrightarrow> next_version db v (me_uuid m)
    (vr_uuid current)"

lemma versions_kept_refl [simp]: "versions_kept db db"
  by (simp add: versions_kept_def)

lemma versions_kept_same: "md_versions db' = md_versions db \<Longrightarrow> versions_kept db db'"
  by (simp add: versions_kept_def known_version_def)

lemma next_version_kept: "versions_kept db db' \<Longrightarrow> next_version db v m u \<Longrightarrow>
    next_version db' v m u"
  by (auto simp: versions_kept_def next_version_def)

lemma prepared_kept:
  assumes "versions_kept db db'" "prepared_sound db w"
  shows "prepared_sound db' w"
  using assms(2)
proof (cases w)
  case (ConsolidationReady sp c)
  then show ?thesis using assms by (cases c) (auto dest: next_version_kept)
next
  case (MemoryRead m)
  then show ?thesis using assms by (simp add: versions_kept_def) blast
next
  case (CorrectionReady sp m cu v op)
  then show ?thesis using assms by (auto dest: next_version_kept)
qed

lemma versions_kept_append:
  assumes "md_versions db' = set_where p (\<lambda>x. x\<lparr>vr_until := w\<rparr>) (md_versions db) @ vs"
  shows "versions_kept db db'"
proof -
  have "\<exists>y\<in>set (md_versions db'). vr_uuid y = vr_uuid x \<and> vr_memory y = vr_memory x \<and>
      vr_number y = vr_number x"
    if "x \<in> set (md_versions db)" for x
  proof -
    have "(if p x then x\<lparr>vr_until := w\<rparr> else x) \<in> set (md_versions db')" using that unfolding
        assms set_where_def by simp
    then show ?thesis by (rule rev_bexI) simp
  qed
  then show ?thesis unfolding versions_kept_def known_version_def by metis
qed

lemma known_unique:
  assumes "memories_chained db" "known_version db u m n"
  obtains x where "find_version db u = Some x" "x \<in> set (md_versions db)" "vr_uuid x = u" "vr_memory x = m"
      "vr_number x = n"
proof -
  from assms(2) obtain x where x: "x \<in> set (md_versions db)" "vr_uuid x = u" "vr_memory x = m" "vr_number x = n"
    by (auto simp: known_version_def)
  have "find_version db u = Some x"
  proof (cases "find_version db u")
    case None
    then show ?thesis using x by (auto simp: find_version_def find_None_iff)
  next
    case (Some y)
    then have "y \<in> set (md_versions db)" "vr_uuid y = u" by (auto simp: find_version_def find_Some_iff)
    moreover have "inj_on vr_uuid (set (md_versions db))"
      using assms(1) by (simp add: memories_chained_def distinct_map)
    ultimately have "y = x" using x by (auto dest: inj_onD)
    then show ?thesis using Some by simp
  qed
  from that[OF this x] show ?thesis .
qed

text \<open>Reading is sound: the current version of a memory is known, and found by its identity.\<close>

lemma current_known:
  assumes "memories_chained db" "m \<in> set (md_memories db)"
  shows "\<exists>u n. me_current m = Some u \<and> known_version db u (me_uuid m) n"
proof -
  have c: "chained (versions_of db (me_uuid m)) (me_current m)" using assms by (simp add: memories_chained_def)
  then have "last (versions_of db (me_uuid m)) \<in> set (versions_of db (me_uuid m))" by (simp add: chained_def)
  then show ?thesis using c unfolding chained_def known_version_def versions_of_in by blast
qed

lemma required_version_next:
  assumes "memories_chained db" "prepared_sound db (MemoryRead m)" "required_version db m = Inr cur"
  shows "next_version db (corrected_version sp m cur text op actor val) (me_uuid m) (vr_uuid cur)"
proof -
  from assms(2) obtain u n where u: "me_current m = Some u" "known_version db u (me_uuid m) n" by auto
  from known_unique[OF assms(1) u(2)] obtain x
    where x: "find_version db u = Some x" "vr_uuid x = u" "vr_memory x = me_uuid m" "vr_number x = n" by blast
  have "cur = x" using assms(3) u(1) x(1) by (simp add: required_version_def)
  then show ?thesis using x(2-4) u(2) by (auto simp: next_version_def corrected_version_def)
qed

lemma find_by_key_in: "find_by_canonical_key db st sc k = Some m \<Longrightarrow> m \<in> set (md_memories db)"
  by (auto simp: find_by_canonical_key_def find_Some_iff)

lemma write_for_sound:
  assumes inv: "memories_chained db" and m: "m = None \<or> (\<exists>x. m = Some x \<and> x \<in> set (md_memories
      db))"
  shows "write_sound db (write_for U sp c scope m (current_version db m) es)"
proof (cases m)
  case None
  then show ?thesis
    by (cases "resolve c None") (auto simp: write_for_def current_version_def version_for_def Let_def)
next
  case (Some x)
  with m have "x \<in> set (md_memories db)" by simp
  from current_known[OF inv this] obtain u n where u: "me_current x = Some u" "known_version db u (me_uuid x) n" by
      blast
  from known_unique[OF inv u(2)] obtain v
    where v: "find_version db u = Some v" "vr_uuid v = u" "vr_memory v = me_uuid x" "vr_number v = n" by blast
  have cur: "current_version db m = Some v" using Some u(1) v(1) by (simp add: current_version_def)
  show ?thesis unfolding cur
    using u v Some
    by (auto simp: write_for_def resolve_def version_for_def Let_def next_version_def split: if_splits
        consolidation_operation.splits)
qed

lemma consolidation_plan_sound:
  assumes inv: "memories_chained db" and p: "consolidation_plan U sp c db = Inr w"
  shows "write_sound db w"
proof -
  have found: "m = None \<or> (\<exists>x. m = Some x \<and> x \<in> set (md_memories db))"
    if "m = find_by_canonical_key db st sc k" for m st sc k
    using that find_by_key_in by (cases m) auto
  have key: "write_sound db (write_for U sp x scope (find_by_canonical_key db st sc k)
      (current_version db (find_by_canonical_key db st sc k)) es)" for x scope st sc k es
    by (rule write_for_sound[OF inv found[OF refl]])
  show ?thesis using p
    by (cases "get_consolidation_decision db c"; cases "get_candidate db c"; cases "list_evidence db c")
      (auto simp: consolidation_plan_def rbind_def Let_def key split: option.splits if_splits)
qed

section \<open>Commits keep the chains\<close>

lemma apply_write_chained:
  assumes inv: "memories_chained db" and w: "write_sound db w" and a: "apply_write sp w db = Inr (d, db')"
  shows "memories_chained db' \<and> versions_kept db db'"
proof -
  have same: ?thesis if "md_memories db' = md_memories db \<and> md_versions db' = md_versions db"
  proof -
    have "versions_of db' = versions_of db" using that by (simp add: versions_of_def fun_eq_iff)
    then show ?thesis using that inv by (simp add: memories_chained_def versions_kept_same)
  qed
  show ?thesis
  proof (cases w)
    case (CreateMemory m v c rs op es)
    from a[unfolded CreateMemory apply_write.simps create_memory_with_version_def] obtain db1 db2 where
      db1: "insert_memory m db = Inr db1" and db2: "insert_version v db1 = Inr db2"
      and dl: "decide_and_link sp (me_uuid m) (vr_uuid v) c op rs es (set_current (me_uuid m) (vr_uuid v) (sp_now
          sp 1) db2) = Inr (d, db')"
      by (auto simp: rbind_def split: sum.splits)
    have new: "vr_memory v = me_uuid m" "vr_number v = 1" "vr_until v = None" using w CreateMemory by auto
    have vs: "md_versions db' = md_versions db @ [v]"
      using decide_and_link_frame[OF dl] insert_memoryD(1)[OF db1] insert_versionD(1)[OF db2] by (simp add:
          set_current_def)
    have kept: "versions_kept db db'" by (auto simp: versions_kept_def known_version_def vs)
    have ch: "memories_chained (set_current (me_uuid m) (vr_uuid v) (sp_now sp 1) db2)"
      by (rule chain_started[OF inv db1 db2 new])
    have "versions_of db' = versions_of (set_current (me_uuid m) (vr_uuid v) (sp_now sp 1) db2)"
      using decide_and_link_frame[OF dl] by (simp add: versions_of_def fun_eq_iff)
    then show ?thesis using ch kept decide_and_link_frame[OF dl] by (simp add: memories_chained_def)
  next
    case (CreateVersion m v c rs op es close)
    from w[unfolded CreateVersion] obtain u n where close: "close" and u: "me_current m = Some u"
      and known: "known_version db u (me_uuid m) n" and v: "vr_memory v = me_uuid m" "vr_until v = None" "vr_number
          v = Suc n"
      by (auto simp: next_version_def)
    from known_unique[OF inv known] obtain x where x: "x \<in> set (md_versions db)" "vr_uuid x = u" "vr_memory x =
        me_uuid m"
      "vr_number x = n" by blast
    from a[unfolded CreateVersion apply_write.simps create_version_for_memory_def] close u obtain db2 where
      db2: "insert_version v (close_version u (sp_now sp 1) db) = Inr db2"
      and dl: "decide_and_link sp (me_uuid m) (vr_uuid v) c op rs es (set_current (me_uuid m) (vr_uuid v) (sp_now
          sp 1) db2) = Inr (d, db')"
      by (auto simp: rbind_def Let_def split: sum.splits)
    note F = decide_and_link_frame[OF dl]
    have "memories_chained db'"
    proof (rule chain_extended[OF inv x(1) x(3) v(1) _ v(2)])
      show "vr_number v = Suc (vr_number x)" using v(3) x(4) by simp
      show "insert_version v (close_version (vr_uuid x) (sp_now sp 1) db) = Inr db2" using db2 x(2) by simp
      show "md_versions db' = md_versions db2" using F by (simp add: set_current_def)
      show "md_memories db' = set_where (\<lambda>y. me_uuid y = me_uuid m)
          (\<lambda>y. y\<lparr>me_current := Some (vr_uuid v), me_updated_at := Some (sp_now sp 1)\<rparr>)
              (md_memories db2)"
        using F by (simp add: set_current_def)
    qed simp_all
    moreover have "versions_kept db db'"
      by (rule versions_kept_append[of _ "\<lambda>y. vr_uuid y = u"])
        (use F insert_versionD(1)[OF db2] in \<open>simp add: set_current_def close_version_def\<close>)
    ultimately show ?thesis by simp
  next
    case (ExistingDecision e)
    then show ?thesis using a same by simp
  next
    case (DecisionOnly c op rs)
    then show ?thesis using a same by (auto simp: record_decision_only_def dest: record_decision_frame)
  next
    case (Reinforce m v c rs es)
    then show ?thesis using a same by (auto simp: record_reinforcement_def dest: decide_and_link_frame)
  qed
qed

lemma store_correction_chained:
  assumes inv: "memories_chained db" and n: "next_version db v (me_uuid m) (vr_uuid cur)"
    and a: "store_correction sp m cur v op db = Inr (u, db')"
  shows "memories_chained db' \<and> versions_kept db db'"
proof -
  from n obtain k where known: "known_version db (vr_uuid cur) (me_uuid m) k"
    and v: "vr_memory v = me_uuid m" "vr_until v = None" "vr_number v = Suc k" by (auto simp: next_version_def)
  from known_unique[OF inv known] obtain x where x: "x \<in> set (md_versions db)" "vr_uuid x = vr_uuid cur"
    "vr_memory x = me_uuid m" "vr_number x = k" by blast
  from a[unfolded store_correction_def] obtain db1 i where
    db1: "insert_version v (close_version (vr_uuid cur) (sp_now sp 1) db) = Inr db1"
    and e: "enqueue_projection sp ''memory'' (me_uuid m) op (projection_payload (me_uuid m) (vr_uuid v) op)
      ((activate (me_uuid m) (vr_uuid v) (sp_now sp 1) db1)\<lparr>md_embeddings :=
        filter (\<lambda>u. u \<noteq> vr_uuid cur) (md_embeddings (activate (me_uuid m) (vr_uuid v) (sp_now sp 1)
            db1))\<rparr>) = Inr (i, db')"
    by (auto simp: rbind_def Let_def split: sum.splits)
  note F = enqueue_projection_frame[OF e]
  have "memories_chained db'"
  proof (rule chain_extended[OF inv x(1) x(3) v(1) _ v(2)])
    show "vr_number v = Suc (vr_number x)" using v(3) x(4) by simp
    show "insert_version v (close_version (vr_uuid x) (sp_now sp 1) db) = Inr db1" using db1 x(2) by simp
    show "md_versions db' = md_versions db1" using F by (simp add: activate_def)
    show "md_memories db' = set_where (\<lambda>y. me_uuid y = me_uuid m)
        (\<lambda>y. y\<lparr>me_current := Some (vr_uuid v), me_status := MEM_ACTIVE, me_updated_at := Some
            (sp_now sp 1)\<rparr>) (md_memories db1)"
      using F by (simp add: activate_def)
  qed simp_all
  moreover have "versions_kept db db'"
    by (rule versions_kept_append[of _ "\<lambda>y. vr_uuid y = vr_uuid cur"])
      (use F insert_versionD(1)[OF db1] in \<open>simp add: activate_def close_version_def\<close>)
  ultimately show ?thesis by simp
qed

lemma set_status_chained:
  assumes "memories_chained db"
  shows "memories_chained (set_status m st now db)"
proof -
  let ?db = "set_status m st now db"
  have u: "map me_uuid (md_memories ?db) = map me_uuid (md_memories db)"
    by (simp add: set_status_def map_set_where_id)
  have im: "me_uuid ` set (md_memories ?db) = me_uuid ` set (md_memories db)" using u by (metis list.set_map)
  have vs: "md_versions ?db = md_versions db" "versions_of ?db = versions_of db"
    by (simp_all add: set_status_def versions_of_def fun_eq_iff)
  have "\<exists>y\<in>set (md_memories db). me_uuid x = me_uuid y \<and> me_current x = me_current y" if "x \<in>
      set (md_memories ?db)" for x
    using that by (auto simp: set_status_def set_where_def)
  then show ?thesis using assms unfolding memories_chained_def u im vs by metis
qed

definition memory_state_ok :: "memory_state \<Rightarrow> bool" where
  "memory_state_ok s \<longleftrightarrow> memories_chained (fst s) \<and> list_all (prepared_sound (fst s)) (snd s)"

lemma memory_step_ok:
  assumes "memory_step U s s'" "memory_state_ok s"
  shows "memory_state_ok s'"
  using assms
proof (induction rule: memory_step.induct)
  case (memory_read db u m ws)
  then have "m \<in> set (md_memories db)" by (auto simp: find_memory_def find_Some_iff)
  then show ?case using memory_read.prems current_known by (auto simp: memory_state_ok_def)
next
  case (prepare_consolidation sp c db w ws)
  then show ?case by (auto simp: memory_state_ok_def dest: consolidation_plan_sound)
next
  case (commit_consolidation sp w ws db d db')
  then have "write_sound db w" by (auto simp: memory_state_ok_def list_all_iff)
  then have "memories_chained db' \<and> versions_kept db db'"
    using apply_write_chained[OF _ _ commit_consolidation(2)] commit_consolidation.prems by (simp add:
        memory_state_ok_def)
  then show ?case using commit_consolidation.prems by (auto simp: memory_state_ok_def list_all_iff intro: prepared_kept)
next
  case (prepare_correction m ws db current sp t op actor val)
  then have "prepared_sound db (MemoryRead m)" by (auto simp: memory_state_ok_def list_all_iff)
  then have "next_version db (corrected_version sp m current t op actor val) (me_uuid m) (vr_uuid current)"
    using required_version_next[OF _ _ prepare_correction(2)] prepare_correction.prems by (simp add:
        memory_state_ok_def)
  then show ?case using prepare_correction.prems by (simp add: memory_state_ok_def)
next
  case (commit_correction sp m current v op ws db u db')
  then have "next_version db v (me_uuid m) (vr_uuid current)" by (auto simp: memory_state_ok_def list_all_iff)
  then have "memories_chained db' \<and> versions_kept db db'"
    using store_correction_chained[OF _ _ commit_correction(2)] commit_correction.prems by (simp add:
        memory_state_ok_def)
  then show ?case using commit_correction.prems by (auto simp: memory_state_ok_def list_all_iff intro: prepared_kept)
next
  case (memory_status_set db ws m st now)
  have "versions_kept db (set_status m st now db)" by (rule versions_kept_same) (simp add: set_status_def)
  then show ?case using memory_status_set by (auto simp: memory_state_ok_def list_all_iff set_status_chained intro:
      prepared_kept)
next
  case (memory_other db' db ws)
  then have "versions_of db' = versions_of db" by (simp add: versions_of_def fun_eq_iff)
  then show ?case using memory_other
    by (auto simp: memory_state_ok_def memories_chained_def list_all_iff intro: prepared_kept versions_kept_same)
qed

lemma memory_reachable_ok: "memory_reachable U s \<Longrightarrow> memory_state_ok s"
proof (induction rule: memory_reachable.induct)
  case (memory_start db)
  then show ?case by (simp add: memory_state_ok_def memories_chained_def)
next
  case (memory_next s s')
  then show ?case by (blast intro: memory_step_ok)
qed

section \<open>The operations are histories\<close>

text \<open>What a route or a worker calls is a sequence of steps, so what holds in every reachable state
  holds before and after every call, whatever other callers did in between.\<close>

definition memory_rows_same :: "memory_db \<Rightarrow> memory_db \<Rightarrow> bool" where
  "memory_rows_same db db' \<longleftrightarrow> md_memories db' = md_memories db \<and> md_versions db' =
      md_versions db"

lemma mark_stale_rows: "memory_rows_same db (mark_stale sp b r db)"
  by (simp add: memory_rows_same_def mark_stale_def)

lemma invalidate_rows: "memory_rows_same db (invalidate_dependencies sp m db)"
proof -
  have "memory_rows_same d (foldl (\<lambda>d b. mark_stale sp (bk_uuid b) r d) d bs)" for d bs r
  proof (induction bs arbitrary: d)
    case (Cons b bs)
    from Cons.IH[of "mark_stale sp (bk_uuid b) r d"] show ?case by (simp add: memory_rows_same_def mark_stale_def)
  qed (simp add: memory_rows_same_def)
  then show ?thesis by (simp add: invalidate_dependencies_def memory_rows_same_def Let_def)
qed

lemma rebuild_rows: "memory_rows_same db (rebuild_index db)"
  by (simp add: memory_rows_same_def rebuild_index_def)

lemma update_request_rows: "update_change_request u f db = Inr (q, db') \<Longrightarrow> memory_rows_same db db'"
  by (auto simp: memory_rows_same_def update_change_request_def rbind_def Let_def split: sum.splits)

lemma create_request_rows:
  "create_change_request sp op a m val r actor imp db = Inr (q, db') \<Longrightarrow> memory_rows_same db db'"
  by (auto simp: memory_rows_same_def create_change_request_def rbind_def Let_def raise_if_def split: if_splits)

lemma reach_rows: "memory_reachable U (db, ws) \<Longrightarrow> memory_rows_same db db' \<Longrightarrow>
    memory_reachable U (db', ws)"
  by (erule memory_next) (rule memory_other, simp_all add: memory_rows_same_def)

lemma consolidation_reached:
  assumes r: "memory_reachable U (db, ws)" and c: "consolidate_candidate U sp c db = Inr (d, db')"
  shows "\<exists>ws'. memory_reachable U (db', ws')"
proof -
  from c obtain w where w: "consolidation_plan U sp c db = Inr w" "apply_write sp w db = Inr (d, db')"
    by (auto simp: consolidate_candidate_def rbind_def split: sum.splits)
  have "memory_reachable U (db, ConsolidationReady sp w # ws)" by (rule memory_next[OF r prepare_consolidation[OF
      w(1)]])
  from memory_next[OF this commit_consolidation[OF _ w(2)]] show ?thesis by auto
qed

lemma new_version_reached:
  assumes r: "memory_reachable U (db, ws)" and m: "find_memory db u = Some m"
    and rows: "memory_rows_same db db1" and c: "create_new_version sp m t op actor val db1 = Inr (v, db2)"
  shows "\<exists>ws'. memory_reachable U (db2, ws')"
proof -
  from c obtain cur where cur: "required_version db1 m = Inr cur"
    and st: "store_correction sp m cur (corrected_version sp m cur t op actor val) op db1 = Inr (v, db2)"
    by (auto simp: create_new_version_def rbind_def split: sum.splits)
  have "memory_reachable U (db, MemoryRead m # ws)" by (rule memory_next[OF r memory_read[OF m]])
  then have "memory_reachable U (db1, MemoryRead m # ws)" using rows by (rule reach_rows)
  from memory_next[OF this prepare_correction[OF _ cur, of _ _ sp t op actor val]]
  have "memory_reachable U (db1, CorrectionReady sp m cur (corrected_version sp m cur t op actor val) op #
      MemoryRead m # ws)" by simp
  from memory_next[OF this commit_correction[OF _ st]] show ?thesis by auto
qed

lemma apply_operation_reached:
  assumes r: "memory_reachable U (db, ws)" and m: "find_memory db u = Some m"
    and a: "apply_operation S sp q m db = Inr (v, db')"
  shows "\<exists>ws'. memory_reachable U (db', ws')"
proof -
  have status: "\<exists>ws'. memory_reachable U (set_status x st now db, ws')" for x st now
    using memory_next[OF r memory_status_set] by blast
  have version: "\<exists>ws'. memory_reachable U (db2, ws')" if "create_new_version sp m t op actor val db = Inr
      (y, db2)"
    for t op actor val y db2
    using new_version_reached[OF r m _ that] by (simp add: memory_rows_same_def)
  have versioned: "\<exists>ws'. memory_reachable U (db2, ws')"
    if "rbind (create_new_version sp m t op actor val db) (\<lambda>(v, db'). Inr (Some v, db')) = Inr (y, db2)"
        for t op actor val y db2
    using that by (auto simp: rbind_def intro: version split: sum.splits)
  consider t where "rbind (create_new_version sp m t (cq_operation q) (cq_actor_type q) (cq_value q) db)
      (\<lambda>(v, db'). Inr (Some v, db')) = Inr (v, db')" | x st where "db' = set_status x st (sp_now sp 1) db"
    using a by (auto simp: apply_operation_def Let_def rbind_def split: if_splits sum.splits)
  then show ?thesis
  proof cases
    case 1
    then show ?thesis by (rule versioned)
  next
    case 2
    then show ?thesis using status by simp
  qed
qed

lemma request_reached:
  assumes r: "memory_reachable U (db, ws)" and a: "apply_request S sp u db = Inr (q, db')"
  shows "\<exists>ws'. memory_reachable U (db', ws')"
proof -
  from a obtain q0 where q0: "get_change_request db u = Inr q0" by (auto simp: apply_request_def rbind_def split:
      sum.splits)
  show ?thesis
  proof (cases "cq_status q0 \<noteq> ''pending''")
    case True
    then show ?thesis using a q0 r by (auto simp: apply_request_def rbind_def)
  next
    case False
    with a q0 obtain mu m v db1 where m: "find_memory db mu = Some m" and op: "apply_operation S sp q0 m db = Inr
        (v, db1)"
      and cl: "close_request sp u v (rebuild_index (invalidate_dependencies sp mu db1)) = Inr (q, db')"
      by (auto simp: apply_request_def rbind_def require_memory_def split: sum.splits option.splits)
    from apply_operation_reached[OF r m op] obtain ws1 where ws1: "memory_reachable U (db1, ws1)" by blast
    have "memory_rows_same (rebuild_index (invalidate_dependencies sp mu db1)) db'"
      using cl update_request_rows by (simp add: close_request_def)
    then have "memory_rows_same db1 db'" using invalidate_rows[of db1 sp mu] rebuild_rows[of
        "invalidate_dependencies sp mu db1"]
      by (simp add: memory_rows_same_def)
    then show ?thesis using reach_rows[OF ws1] by blast
  qed
qed

lemma undo_reached:
  assumes r: "memory_reachable U (db, ws)" and a: "undo_request sp undo_reason u actor db = Inr (q, db')"
  shows "\<exists>ws'. memory_reachable U (db', ws')"
proof -
  from a obtain mu m and p :: memory_version and undo db1 v db2 where m: "find_memory db mu = Some m"
    and c: "create_change_request sp ''restore_version'' actor (Some mu) (JObj [(''normalized_text'', JStr (vr_text
        p))])
      (Some undo_reason) None (impact_preview db (Some mu)) db = Inr (undo, db1)"
    and n: "create_new_version sp m (vr_text p) ''undo'' actor (JObj [(''undone_request_uuid'', jlit u)]) db1 = Inr
        (v, db2)"
    and f: "update_change_request (cq_uuid undo) (\<lambda>x. x\<lparr>cq_status := ''applied'', cq_reviewed_at :=
        Some (sp_now sp 6),
           cq_applied_at := Some (sp_now sp 6)\<rparr>) (invalidate_dependencies sp mu db2) = Inr (q, db')"
    by (auto simp: undo_request_def rbind_def require_memory_def Let_def split: sum.splits option.splits)
  from new_version_reached[OF r m create_request_rows[OF c] n] obtain ws1 where "memory_reachable U (db2, ws1)" by blast
  moreover have "memory_rows_same db2 db'"
    using invalidate_rows[of db2 sp mu] update_request_rows[OF f] by (simp add: memory_rows_same_def)
  ultimately show ?thesis using reach_rows by blast
qed

end
