(* ===== verification/MemoryLifecycle.thy ===== *)
theory MemoryLifecycle
  imports MemoryHistory CandidatePolicy
begin

text \<open>
  What consolidation and correction mean for a memory over time: one chain of versions per memory, one
  decision per candidate, which fact replaces which, and what a correction of the user sets.
\<close>

section \<open>What a new version leaves\<close>

lemma find_set_where:
  assumes "\<And>r. f (g r) = f r"
  shows "List.find (\<lambda>r. f r = u) (set_where p g rows) = map_option (\<lambda>r. if p r then g r else r)
      (List.find (\<lambda>r. f r = u) rows)"
  using assms by (induction rows) (auto simp: set_where_def)

lemma find_append: "List.find p (xs @ ys) = (case List.find p xs of None \<Rightarrow> List.find p ys | Some x
    \<Rightarrow> Some x)"
  by (induction xs) auto

lemma find_memory_frame: "md_memories db' = md_memories db \<Longrightarrow> find_memory db' u = find_memory db u"
  by (simp add: find_memory_def)

lemma find_version_frame: "md_versions db' = md_versions db \<Longrightarrow> find_version db' u = find_version db u"
  by (simp add: find_version_def)

lemma find_version_new:
  assumes "insert_version v (close_version u now db) = Inr db1"
  shows "find_version db1 (vr_uuid v) = Some v"
proof -
  have "List.find (\<lambda>x. vr_uuid x = vr_uuid v) (md_versions (close_version u now db)) = None"
    using insert_versionD(2)[OF assms] by (auto simp: find_None_iff list_ex_iff version_clash_def)
  then show ?thesis using insert_versionD(1)[OF assms] by (simp add: find_version_def find_append)
qed

lemma new_version_result:
  assumes c: "create_new_version sp m t op actor val db = Inr (v, db')"
  obtains cur x where "v = sp_uuid sp 1" "required_version db m = Inr cur" "find_memory db (me_uuid m) = Some x"
    "find_version db' v = Some (corrected_version sp m cur t op actor val)"
    "find_memory db' (me_uuid m) = Some (x\<lparr>me_current := Some v, me_status := MEM_ACTIVE, me_updated_at :=
        Some (sp_now sp 1)\<rparr>)"
proof -
  from c obtain cur db1 i where cur: "required_version db m = Inr cur"
    and db1: "insert_version (corrected_version sp m cur t op actor val) (close_version (vr_uuid cur) (sp_now sp 1)
        db) = Inr db1"
    and e: "enqueue_projection sp ''memory'' (me_uuid m) op (projection_payload (me_uuid m) (sp_uuid sp 1) op)
      ((activate (me_uuid m) (sp_uuid sp 1) (sp_now sp 1) db1)\<lparr>md_embeddings := filter (\<lambda>u. u
          \<noteq> vr_uuid cur)
        (md_embeddings (activate (me_uuid m) (sp_uuid sp 1) (sp_now sp 1) db1))\<rparr>) = Inr (i, db')" and v: "v
            = sp_uuid sp 1"
    by (auto simp: create_new_version_def store_correction_def rbind_def Let_def corrected_version_def split:
        sum.splits)
  note F = enqueue_projection_frame[OF e]
  have "find_memory db (me_uuid m) \<noteq> None"
    using insert_versionD(3)[OF db1] by (simp add: close_version_def find_memory_def corrected_version_def)
  then obtain x where x: "find_memory db (me_uuid m) = Some x" by blast
  have "find_version db' v = Some (corrected_version sp m cur t op actor val)"
    using F find_version_new[OF db1] v by (simp add: activate_def find_version_def corrected_version_def)
  moreover have "find_memory db' (me_uuid m) = Some (x\<lparr>me_current := Some v, me_status := MEM_ACTIVE,
      me_updated_at := Some (sp_now sp 1)\<rparr>)"
  proof -
    have ms: "md_memories db1 = md_memories db" using insert_versionD(1)[OF db1] by (simp add: close_version_def)
    have "me_uuid x = me_uuid m" using x by (auto simp: find_memory_def find_Some_iff)
    then show ?thesis using F x v by (simp add: activate_def find_memory_def ms find_set_where)
  qed
  ultimately show ?thesis using that[OF v cur x] by blast
qed

text \<open>Applying a pending request with a new version, from the request to the closed row.\<close>

definition versioned_operations :: "string set" where
  "versioned_operations = {''confirm'', ''correct'', ''restore_version'', ''merge'', ''split'', ''change_scope'',
     ''change_sensitivity'', ''pin'', ''unpin''}"

lemma versioned_request_result:
  assumes q0: "get_change_request db u = Inr q0" "cq_status q0 = ''pending''" "cq_memory q0 = Some mu"
    and op: "cq_operation q0 \<in> versioned_operations" and a: "apply_request S sp u db = Inr (q, db')"
  obtains m cur t where "find_memory db mu = Some m" "required_version db m = Inr cur"
    "find_memory db' mu = Some (m\<lparr>me_current := Some (sp_uuid sp 1), me_status := MEM_ACTIVE, me_updated_at
        := Some (sp_now sp 1)\<rparr>)"
    "find_version db' (sp_uuid sp 1) = Some (corrected_version sp m cur t (cq_operation q0) (cq_actor_type q0)
        (cq_value q0))"
    "cq_operation q0 \<notin> {''correct'', ''restore_version''} \<longrightarrow> t = vr_text cur"
proof -
  from a q0 obtain m v db1 where m: "find_memory db mu = Some m" and ap: "apply_operation S sp q0 m db = Inr (v, db1)"
    and cl: "close_request sp u v (rebuild_index (invalidate_dependencies sp mu db1)) = Inr (q, db')"
    by (auto simp: apply_request_def rbind_def require_memory_def split: sum.splits option.splits)
  have rows: "memory_rows_same db1 db'"
    using invalidate_rows[of db1 sp mu] rebuild_rows[of "invalidate_dependencies sp mu db1"]
      update_request_rows[OF cl[unfolded close_request_def]] by (simp add: memory_rows_same_def)
  have mu: "me_uuid m = mu" using m by (auto simp: find_memory_def find_Some_iff)
  from ap op obtain cur t w where cur: "required_version db m = Inr cur"
    and n: "create_new_version sp m t (cq_operation q0) (cq_actor_type q0) (cq_value q0) db = Inr (w, db1)"
    and t: "cq_operation q0 \<notin> {''correct'', ''restore_version''} \<longrightarrow> t = vr_text cur"
    by (auto simp: apply_operation_def Let_def rbind_def versioned_operations_def normalized_text_for_operation_def
        split: if_splits sum.splits option.splits)
  show ?thesis
  proof (rule new_version_result[OF n])
    fix cur' x assume N: "w = sp_uuid sp 1" "required_version db m = Inr cur'" "find_memory db (me_uuid m) = Some x"
      "find_version db1 w = Some (corrected_version sp m cur' t (cq_operation q0) (cq_actor_type q0) (cq_value q0))"
      "find_memory db1 (me_uuid m) = Some (x\<lparr>me_current := Some w, me_status := MEM_ACTIVE, me_updated_at :=
          Some (sp_now sp 1)\<rparr>)"
    show ?thesis
      by (rule that[OF m cur _ _ t])
        (use N rows mu m cur in \<open>simp_all add: memory_rows_same_def find_memory_def find_version_def\<close>)
  qed
qed

section \<open>A worked store\<close>

definition demo_memory_candidate :: "string \<Rightarrow> string \<Rightarrow> polarity \<Rightarrow>
    memory_candidate" where
  "demo_memory_candidate u v p =
     \<lparr>mc_uuid = u, mc_processing_run = ''run'', mc_text_unit = ''unit'', mc_prompt_execution = None, mc_type
         = CT_PREFERENCE,
      mc_subject = Some ''user'', mc_predicate = Some ''preference'', mc_object = None,
      mc_normalized_text = lit (''preference:user:preference:'' @ v), mc_authority = SA_USER_EXPLICIT,
      mc_explicitness = EX_EXPLICIT, mc_confidence = 950, mc_polarity = p, mc_importance = 70, mc_valid_from = None,
      mc_valid_until = None, mc_temporal_precision = None, mc_status = CS_READY_FOR_CONSOLIDATION,
      mc_sensitivity = NORMAL, mc_metadata = None, mc_rejection_reasons = None, mc_created_at = ''t''\<rparr>"

definition demo_memory_evidence :: "string \<Rightarrow> string \<Rightarrow> candidate_evidence" where
  "demo_memory_evidence u v =
     \<lparr>ev_uuid = ''e'' @ u, ev_candidate = u, ev_message = ''m'', ev_text_unit = ''unit'', ev_annotation = None,
      ev_route = None, ev_text = lit v, ev_start = 0, ev_end = length v, ev_role = EVR_PRIMARY,
      ev_support = SUP_SUPPORTING, ev_created_at = ''t''\<rparr>"

definition demo_fact :: "string \<Rightarrow> string" where
  "demo_fact u = (if u = ''c1'' then ''tea'' else if u = ''c2'' then ''dark mode'' else ''short answers'')"

definition demo_polarity :: "string \<Rightarrow> polarity" where
  "demo_polarity u = (if u = ''c4'' then NEGATED else AFFIRMED)"

definition demo_unit_row :: text_unit_row where
  "demo_unit_row = \<lparr>tu_uuid = ''unit'', tu_message = ''m'', tu_session = ''s'', tu_index = 0, tu_type =
      ''sentence'', tu_text = [],
     tu_start = 0, tu_end = 0, tu_role = ''user'', tu_hash = [], tu_created_at = ''t''\<rparr>"

definition demo_memory_db :: memory_db where
  "demo_memory_db =
     \<lparr>md_sessions = [\<lparr>ss_uuid = ''s'', ss_workspace = None, ss_project = Some ''p''\<rparr>],
         md_units = [demo_unit_row],
      md_candidates = map (\<lambda>u. \<lparr>cw_candidate = demo_memory_candidate u (demo_fact u) (demo_polarity
          u), cw_redacted = False\<rparr>)
        [''c1'', ''c2'', ''c3'', ''c4''],
      md_evidence = map (\<lambda>u. demo_memory_evidence u (demo_fact u)) [''c1'', ''c2'', ''c3'', ''c4''],
      md_memories = [], md_versions = [], md_decisions = [], md_links = [], md_outbox = [], md_requests = [],
          md_fts = [],
      md_embeddings = [], md_blocks = [], md_block_versions = [], md_block_sources = [], md_attachments = [],
          md_hot_cache = []\<rparr>"

definition demo_stamp :: "string \<Rightarrow> stamp" where
  "demo_stamp s = \<lparr>sp_uuid = (\<lambda>n. s @ replicate n CHR ''u''), sp_now = (\<lambda>n. s @ replicate n
      CHR ''t'')\<rparr>"

definition after_candidate :: "string \<Rightarrow> memory_db \<Rightarrow> memory_db" where
  "after_candidate c db = (case consolidate_candidate demo_unidb (demo_stamp c) c db of Inl _ \<Rightarrow> db |
      Inr (d, db') \<Rightarrow> db')"

definition demo_first :: memory_db where "demo_first = after_candidate ''c1'' demo_memory_db"
definition demo_second :: memory_db where "demo_second = after_candidate ''c2'' demo_first"

lemma consolidate_c1: "map_sum id (map_prod dn_operation id) (consolidate_candidate demo_unidb (demo_stamp ''c1'')
    ''c1'' demo_memory_db) = Inr (CO_ADD, demo_first)"
  by code_simp

lemma consolidate_c2: "map_sum id (map_prod dn_operation id) (consolidate_candidate demo_unidb (demo_stamp ''c2'')
    ''c2'' demo_first) = Inr (CO_SUPERSEDE, demo_second)"
  by code_simp

section \<open>Properties\<close>

text \<open>
  Property C14 (versions_never_fork).  In every history of consolidations, corrections and status changes, each
  committing what it prepared from a database that others may have changed since, the versions of a
  memory are numbered from one without a gap, the last one is current, and it alone is open.
\<close>

theorem versions_never_fork:
  assumes "memory_reachable U (db, ws)" "m \<in> set (md_memories db)"
  shows "list_versions db (me_uuid m) \<noteq> [] \<and>
    map vr_number (list_versions db (me_uuid m)) = [1..<Suc (length (list_versions db (me_uuid m)))] \<and>
    me_current m = Some (vr_uuid (last (list_versions db (me_uuid m)))) \<and>
    vr_until (last (list_versions db (me_uuid m))) = None \<and>
    filter (\<lambda>v. vr_until v = None) (list_versions db (me_uuid m)) = [last (list_versions db (me_uuid m))]"
proof -
  have "chained (versions_of db (me_uuid m)) (me_current m)"
    using memory_reachable_ok[OF assms(1)] assms(2) by (simp add: memory_state_ok_def memories_chained_def)
  then have c: "chained (list_versions db (me_uuid m)) (me_current m)" by (simp add: chained_list_versions)
  let ?vs = "list_versions db (me_uuid m)"
  have "?vs = butlast ?vs @ [last ?vs]" using c by (simp add: chained_def)
  moreover have "filter (\<lambda>v. vr_until v = None) (butlast ?vs) = []" "vr_until (last ?vs) = None"
    using c by (auto simp: chained_def list_all_iff filter_empty_conv)
  ultimately have "filter (\<lambda>v. vr_until v = None) ?vs = [last ?vs]"
    using filter_append[of "\<lambda>v. vr_until v = None" "butlast ?vs" "[last ?vs]"] by simp
  then show ?thesis using c unfolding chained_def by blast
qed

lemma demo_reached: "\<exists>ws. memory_reachable demo_unidb (demo_second, ws)"
proof -
  have "memory_reachable demo_unidb (demo_memory_db, [])"
    by (rule memory_start) (simp_all add: demo_memory_db_def)
  moreover obtain d where "consolidate_candidate demo_unidb (demo_stamp ''c1'') ''c1'' demo_memory_db = Inr (d,
      demo_first)"
    using consolidate_c1 by (auto simp: map_sum_def split: sum.splits)
  ultimately obtain ws where ws: "memory_reachable demo_unidb (demo_first, ws)" using consolidation_reached by blast
  obtain d where "consolidate_candidate demo_unidb (demo_stamp ''c2'') ''c2'' demo_first = Inr (d, demo_second)"
    using consolidate_c2 by (auto simp: map_sum_def split: sum.splits)
  then show ?thesis by (rule consolidation_reached[OF ws])
qed

lemma demo_second_shape: "map me_uuid (md_memories demo_second) = [''c1''] \<and> map vr_number (md_versions
    demo_second) = [1, 2]"
  by code_simp

theorem versions_never_fork_witness:
  "\<exists>m. md_memories demo_second = [m] \<and> map vr_number (list_versions demo_second (me_uuid m)) = [1, 2]
      \<and>
    me_current m = Some (vr_uuid (last (list_versions demo_second (me_uuid m))))"
proof -
  obtain m where m: "md_memories demo_second = [m]" using demo_second_shape by (auto simp: map_eq_Cons_conv)
  obtain ws where ws: "memory_reachable demo_unidb (demo_second, ws)" using demo_reached by blast
  have "m \<in> set (md_memories demo_second)" using m by simp
  note V = versions_never_fork[OF ws this]
  have "map vr_number (list_versions demo_second ''c1'') = [1, 2]" by code_simp
  moreover have "me_uuid m = ''c1''" using m demo_second_shape by simp
  ultimately show ?thesis using m V by simp
qed

text \<open>The candidates of a route whose subject does not name the message share one canonical key.\<close>

definition keyed_by_route :: "route_type set" where
  "keyed_by_route = {RT_USER_PREFERENCE, RT_STYLE_POLICY, RT_TERMINOLOGY_RULE, RT_TASK_CONSTRAINT, RT_WORKFLOW_POLICY,
     RT_TEAM_OBLIGATION, RT_PROMPT_INSTRUCTION, RT_JIRA_CONFIGURATION, RT_RESOURCE_REFERENCE, RT_PROJECT_CONTEXT,
     RT_EMOTIONAL_STANCE, RT_PRIVACY_REVIEW}"

definition carries :: "memory_candidate \<Rightarrow> route_candidate_mapping \<Rightarrow> bool" where
  "carries c a \<longleftrightarrow> mc_type c = rcm_candidate_type a \<and> mc_subject c = Some (rcm_subject_key
      a) \<and>
     mc_predicate c = Some (rcm_predicate a) \<and> mc_normalized_text c = rcm_normalized_text a"

lemma route_mapping_profile:
  assumes "candidate_mapping_for_route U (AsEnum r) t m = Some a"
  shows "(rcm_candidate_type a, rcm_subject_key a, rcm_predicate a, rcm_importance a) = candidate_profile r m"
  using assms by (auto simp: candidate_mapping_for_route_def Let_def split: if_splits prod.splits)

lemma route_key_shared:
  assumes "candidate_mapping_for_route U (AsEnum r) t m = Some a" "candidate_mapping_for_route U (AsEnum r) t' m' =
      Some b"
    and "r \<in> keyed_by_route" "carries c a" "carries c' b"
  shows "canonical_key_for_candidate U c = canonical_key_for_candidate U c'"
proof -
  have "candidate_profile r m = candidate_profile r m'"
    using assms(3) by (auto simp: keyed_by_route_def candidate_profile_def)
  then have "rcm_candidate_type a = rcm_candidate_type b \<and> rcm_subject_key a = rcm_subject_key b \<and>
      rcm_predicate a = rcm_predicate b"
    using route_mapping_profile[OF assms(1)] route_mapping_profile[OF assms(2)] by (metis prod.inject)
  then show ?thesis using assms(4,5) by (simp add: carries_def canonical_key_for_candidate_def)
qed

lemma create_version_result:
  assumes a: "apply_write sp (CreateVersion m v c rs op es True) db = Inr (d, db')" and u: "me_current m = Some u"
    and d: "get_consolidation_decision db c = None"
  shows "dn_operation d = op" "dn_memory d = Some (me_uuid m)" "dn_version d = Some (vr_uuid v)"
    "md_versions db' = md_versions (close_version u (sp_now sp 1) db) @ [v]"
    "md_memories db' = md_memories (set_current (me_uuid m) (vr_uuid v) (sp_now sp 1) db)"
proof -
  from a u obtain db2 where db2: "insert_version v (close_version u (sp_now sp 1) db) = Inr db2"
    and dl: "decide_and_link sp (me_uuid m) (vr_uuid v) c op rs es (set_current (me_uuid m) (vr_uuid v) (sp_now sp
        1) db2) = Inr (d, db')"
    by (auto simp: create_version_for_memory_def rbind_def Let_def split: sum.splits)
  note F = decide_and_link_frame[OF dl] and I = insert_versionD(1)[OF db2]
  show "md_versions db' = md_versions (close_version u (sp_now sp 1) db) @ [v]"
    "md_memories db' = md_memories (set_current (me_uuid m) (vr_uuid v) (sp_now sp 1) db)"
    using F I by (simp_all add: set_current_def close_version_def)
  have "get_consolidation_decision (set_current (me_uuid m) (vr_uuid v) (sp_now sp 1) db2) c = None"
    using d I by (simp add: get_consolidation_decision_def set_current_def close_version_def)
  then show "dn_operation d = op" "dn_memory d = Some (me_uuid m)" "dn_version d = Some (vr_uuid v)"
    using dl by (auto simp: decide_and_link_def record_decision_def Let_def rbind_def split: sum.splits)
qed

lemma closed_among_two:
  assumes "w \<notin> vr_uuid ` set vs"
  shows "map (\<lambda>y. (vr_text y, vr_until y)) (filter (\<lambda>y. vr_uuid y = u \<or> vr_uuid y = w)
      (set_where (\<lambda>y. vr_uuid y = u) (\<lambda>y. y\<lparr>vr_until := Some now\<rparr>) vs)) =
    map (\<lambda>y. (vr_text y, Some now)) (filter (\<lambda>y. vr_uuid y = u) vs)"
  using assms by (induction vs) (auto simp: set_where_def)

text \<open>
  Property C16 (unrelated_facts_replaced).  Two facts of one route in one scope, whatever they say, have the same
  canonical key unless the route names the message: consolidating the second, when neither its
  status nor its polarity objects, supersedes the memory of the first and closes its version.
\<close>

theorem unrelated_facts_replaced:
  assumes "candidate_mapping_for_route U (AsEnum r) t m = Some a" "candidate_mapping_for_route U (AsEnum r) t' m' =
      Some b"
    and "r \<in> keyed_by_route" "carries c a" "carries c' b" "mc_status c' = CS_READY_FOR_CONSOLIDATION"
    and c': "get_consolidation_decision db (mc_uuid c') = None" "get_candidate db (mc_uuid c') = Inr c'"
      "list_evidence db (mc_uuid c') = Inr es" "es \<noteq> []" "session_for_candidate db c' = Some s"
    and x: "find_by_canonical_key db (fst (scope_for_session s)) (Some (snd (scope_for_session s)))
        (canonical_key_for_candidate U c) = Some x"
    and v: "me_current x = Some (vr_uuid v)" "find_version db (vr_uuid v) = Some v" "vr_text v = mc_normalized_text
        c" "vr_until v = None"
    and differ: "mc_normalized_text c' \<noteq> mc_normalized_text c" "\<not> polarities_contradict (vr_polarity v)
        (mc_polarity c')"
    and run: "consolidate_candidate U sp (mc_uuid c') db = Inr (d, db')"
  shows "dn_operation d = CO_SUPERSEDE \<and> dn_memory d = Some (me_uuid x) \<and>
    map (\<lambda>y. (vr_text y, vr_until y)) (filter (\<lambda>y. vr_uuid y \<in> {vr_uuid v, sp_uuid sp 1})
        (md_versions db')) =
      map (\<lambda>y. (vr_text y, Some (sp_now sp 1))) (filter (\<lambda>y. vr_uuid y = vr_uuid v) (md_versions db))
        @ [(mc_normalized_text c', None)]"
proof -
  have key: "canonical_key_for_candidate U c' = canonical_key_for_candidate U c"
    using route_key_shared assms(1-5) by metis
  have "rcm_predicate b \<noteq> ''forget_request''"
    using route_mapping_profile[OF assms(2)] assms(3) by (auto simp: keyed_by_route_def candidate_profile_def)
  then have res: "resolve c' (Some v) = (CO_SUPERSEDE, [''newer_value''])"
    using assms(5,6) v(3) differ by (simp add: resolve_def carries_def)
  have cur: "current_version db (Some x) = Some v" using v(1,2) by (simp add: current_version_def)
  have plan: "consolidation_plan U sp (mc_uuid c') db = Inr (CreateVersion x
      (version_for sp c' (me_uuid x) (vr_number v + 1) CO_SUPERSEDE) (mc_uuid c') [''newer_value''] CO_SUPERSEDE es
          True)"
    using c' x by (simp add: consolidation_plan_def rbind_def key cur write_for_def res Let_def)
  let ?w = "version_for sp c' (me_uuid x) (vr_number v + 1) CO_SUPERSEDE"
  have a: "apply_write sp (CreateVersion x ?w (mc_uuid c') [''newer_value''] CO_SUPERSEDE es True) db = Inr (d, db')"
    using run plan by (simp add: consolidate_candidate_def rbind_def)
  note R = create_version_result[OF a v(1) c'(1)]
  have w: "vr_uuid ?w = sp_uuid sp 1" "vr_until ?w = None" "vr_text ?w = mc_normalized_text c'" by (simp_all add:
      version_for_def)
  have new: "sp_uuid sp 1 \<notin> vr_uuid ` set (md_versions db)"
  proof -
    from a v(1) obtain db2 where "insert_version ?w (close_version (vr_uuid v) (sp_now sp 1) db) = Inr db2"
      by (auto simp: create_version_for_memory_def rbind_def Let_def split: sum.splits)
    from insert_versionD(2)[OF this] show ?thesis
      unfolding clash_after_close by (auto simp: list_ex_iff version_clash_def version_for_def)
  qed
  have "map (\<lambda>y. (vr_text y, vr_until y)) (filter (\<lambda>y. vr_uuid y \<in> {vr_uuid v, sp_uuid sp 1})
      (md_versions (close_version (vr_uuid v) (sp_now sp 1) db)))
      = map (\<lambda>y. (vr_text y, Some (sp_now sp 1))) (filter (\<lambda>y. vr_uuid y = vr_uuid v) (md_versions db))"
    using closed_among_two[OF new] by (simp add: close_version_def)
  then show ?thesis using R(1,2) w unfolding R(4) by simp
qed

definition demo_mapping :: "string \<Rightarrow> route_candidate_mapping" where
  "demo_mapping v = \<lparr>rcm_route_type = RT_USER_PREFERENCE, rcm_candidate_type = CT_PREFERENCE,
      rcm_subject_key = ''user'',
     rcm_predicate = ''preference'', rcm_object_value = lit v, rcm_normalized_text = lit
         (''preference:user:preference:'' @ v),
     rcm_importance = 70, rcm_status = CS_READY_FOR_CONSOLIDATION, rcm_rejection_reason_codes = []\<rparr>"

lemma demo_mappings:
  "candidate_mapping_for_route demo_unidb (AsEnum RT_USER_PREFERENCE) (lit ''tea'') (Some ''m'') = Some
      (demo_mapping ''tea'')"
  "candidate_mapping_for_route demo_unidb (AsEnum RT_USER_PREFERENCE) (lit ''dark mode'') (Some ''n'') = Some
      (demo_mapping ''dark mode'')"
  "carries (demo_memory_candidate ''c1'' ''tea'' AFFIRMED) (demo_mapping ''tea'')"
  "carries (demo_memory_candidate ''c2'' ''dark mode'' AFFIRMED) (demo_mapping ''dark mode'')"
  by code_simp+

definition demo_memory :: memory where
  "demo_memory = (new_memory demo_unidb (demo_stamp ''c1'') (demo_memory_candidate ''c1'' ''tea'' AFFIRMED)
      (''project'', ''p''))
     \<lparr>me_current := Some ''c1u'', me_updated_at := Some ''c1t''\<rparr>"

definition demo_tea :: memory_version where
  "demo_tea = version_for (demo_stamp ''c1'') (demo_memory_candidate ''c1'' ''tea'' AFFIRMED) ''c1'' 1 CO_ADD"

lemma demo_first_reads:
  "get_consolidation_decision demo_first ''c2'' = None"
  "get_candidate demo_first ''c2'' = Inr (demo_memory_candidate ''c2'' ''dark mode'' AFFIRMED)"
  "list_evidence demo_first ''c2'' = Inr [demo_memory_evidence ''c2'' ''dark mode'']"
  "session_for_candidate demo_first (demo_memory_candidate ''c2'' ''dark mode'' AFFIRMED) = Some \<lparr>ss_uuid =
      ''s'', ss_workspace = None, ss_project = Some ''p''\<rparr>"
  "find_by_canonical_key demo_first ''project'' (Some ''p'') (canonical_key_for_candidate demo_unidb
      (demo_memory_candidate ''c1'' ''tea'' AFFIRMED)) = Some demo_memory"
  "find_version demo_first ''c1u'' = Some demo_tea"
  by code_simp+

theorem unrelated_facts_replaced_witness:
  "\<exists>d. consolidate_candidate demo_unidb (demo_stamp ''c2'') ''c2'' demo_first = Inr (d, demo_second) \<and>
    dn_operation d = CO_SUPERSEDE \<and> dn_memory d = Some ''c1'' \<and>
    map (\<lambda>y. (vr_text y, vr_until y)) (filter (\<lambda>y. vr_uuid y \<in> {''c1u'', ''c2u''}) (md_versions
        demo_second)) =
      map (\<lambda>y. (vr_text y, Some ''c2t'')) (filter (\<lambda>y. vr_uuid y = ''c1u'') (md_versions demo_first))
        @ [(lit ''preference:user:preference:dark mode'', None)]"
proof -
  obtain d where d: "consolidate_candidate demo_unidb (demo_stamp ''c2'') ''c2'' demo_first = Inr (d, demo_second)"
    using consolidate_c2 by (auto simp: map_sum_def split: sum.splits)
  have c2: "mc_uuid (demo_memory_candidate ''c2'' ''dark mode'' AFFIRMED) = ''c2''" by (simp add:
      demo_memory_candidate_def)
  have "dn_operation d = CO_SUPERSEDE \<and> dn_memory d = Some (me_uuid demo_memory) \<and>
    map (\<lambda>y. (vr_text y, vr_until y)) (filter (\<lambda>y. vr_uuid y \<in> {vr_uuid demo_tea, sp_uuid
        (demo_stamp ''c2'') 1}) (md_versions demo_second)) =
      map (\<lambda>y. (vr_text y, Some (sp_now (demo_stamp ''c2'') 1))) (filter (\<lambda>y. vr_uuid y = vr_uuid
          demo_tea) (md_versions demo_first))
        @ [(mc_normalized_text (demo_memory_candidate ''c2'' ''dark mode'' AFFIRMED), None)]"
  proof (rule unrelated_facts_replaced[OF demo_mappings(1,2) _ demo_mappings(3,4),
        where es = "[demo_memory_evidence ''c2'' ''dark mode'']" and x = demo_memory and v = demo_tea
          and s = "\<lparr>ss_uuid = ''s'', ss_workspace = None, ss_project = Some ''p''\<rparr>"])
    show "RT_USER_PREFERENCE \<in> keyed_by_route" by (simp add: keyed_by_route_def)
    show "mc_status (demo_memory_candidate ''c2'' ''dark mode'' AFFIRMED) = CS_READY_FOR_CONSOLIDATION" by (simp
        add: demo_memory_candidate_def)
    show "vr_until demo_tea = None" "me_current demo_memory = Some (vr_uuid demo_tea)"
      "vr_text demo_tea = mc_normalized_text (demo_memory_candidate ''c1'' ''tea'' AFFIRMED)"
      "mc_normalized_text (demo_memory_candidate ''c2'' ''dark mode'' AFFIRMED) \<noteq> mc_normalized_text
          (demo_memory_candidate ''c1'' ''tea'' AFFIRMED)"
      "\<not> polarities_contradict (vr_polarity demo_tea) (mc_polarity (demo_memory_candidate ''c2'' ''dark mode''
          AFFIRMED))"
      "find_version demo_first (vr_uuid demo_tea) = Some demo_tea"
      by code_simp+
  qed (simp_all add: c2 demo_first_reads d scope_for_session_def)
  then show ?thesis using d by (auto simp: demo_memory_def new_memory_def demo_tea_def version_for_def
      demo_stamp_def demo_memory_candidate_def)
qed

text \<open>
  Property C17 (later_projection_dropped).  The outbox of the graph takes an operation on a memory once: when a
  consolidation decides on an operation that the outbox holds for the memory already, delivered or
  not, the outbox stays as it is, although the decision is new.
\<close>

lemma enqueue_present:
  assumes "i \<in> set (md_outbox db)" "same_projection t a op i" "enqueue_projection sp t a op p db = Inr (j, db')"
  shows "db' = db"
proof -
  have "List.find (same_projection t a op) (md_outbox db) \<noteq> None" using assms(1,2) by (auto simp: find_None_iff)
  then show ?thesis using assms(3) by (auto simp: enqueue_projection_def split: option.splits)
qed

lemma link_evidence_outbox: "link_evidence sp m v c n es db = Inr db' \<Longrightarrow> md_outbox db' = md_outbox db"
proof (induction es arbitrary: n db)
  case (Cons e es)
  from Cons.prems obtain db1 where db1: "insert_link \<lparr>el_uuid = sp_uuid sp (4 + n), el_memory = m,
      el_version = v,
      el_candidate = c, el_evidence = ev_uuid e, el_type = SUPPORTS, el_created_at = sp_now sp (4 + n)\<rparr> db =
          Inr db1"
    "link_evidence sp m v c (Suc n) es db1 = Inr db'"
    by (auto simp: rbind_def split: sum.splits)
  from db1(1) have "md_outbox db1 = md_outbox db"
    by (auto simp: insert_link_def rbind_def raise_if_def split: if_splits)
  with Cons.IH[OF db1(2)] show ?case by simp
qed simp

lemma record_decision_outbox:
  "record_decision sp c op rs m v db = Inr (d, db') \<Longrightarrow> md_outbox db' = md_outbox db"
  by (auto simp: record_decision_def insert_decision_def Let_def rbind_def raise_if_def split: option.splits
      sum.splits if_splits)

lemma decide_and_link_outbox:
  assumes dl: "decide_and_link sp m v c op rs es db = Inr (d, db')"
    and i: "i \<in> set (md_outbox db)" "same_projection ''memory'' m (consolidation_value op) i"
  shows "md_outbox db' = md_outbox db"
proof -
  from dl obtain db1 db2 j where r: "record_decision sp c op rs (Some m) (Some v) db = Inr (d, db1)"
    and l: "link_evidence sp m v c 0 es db1 = Inr db2"
    and e: "enqueue_projection sp ''memory'' m (consolidation_value op) (projection_payload m v
        (consolidation_value op)) db2 = Inr (j, db')"
    by (auto simp: decide_and_link_def rbind_def split: sum.splits prod.splits)
  have o: "md_outbox db2 = md_outbox db" using record_decision_outbox[OF r] link_evidence_outbox[OF l] by simp
  then show ?thesis using enqueue_present[OF _ i(2) e] i(1) by simp
qed

lemma decide_and_link_decision:
  assumes "decide_and_link sp m v c op rs es db = Inr (d, db')" "get_consolidation_decision db c = None"
  shows "dn_operation d = op \<and> dn_memory d = Some m"
  using assms by (auto simp: decide_and_link_def record_decision_def Let_def rbind_def split: sum.splits)

fun undecided :: "memory_db \<Rightarrow> consolidation_write \<Rightarrow> bool" where
  "undecided db (ExistingDecision d) \<longleftrightarrow> True"
| "undecided db (DecisionOnly c op rs) \<longleftrightarrow> get_consolidation_decision db c = None"
| "undecided db (CreateMemory m v c rs op es) \<longleftrightarrow> get_consolidation_decision db c = None"
| "undecided db (Reinforce m v c rs es) \<longleftrightarrow> get_consolidation_decision db c = None"
| "undecided db (CreateVersion m v c rs op es close) \<longleftrightarrow> get_consolidation_decision db c = None"

lemma apply_write_outbox:
  assumes a: "apply_write sp w db = Inr (d, db')" and w: "undecided db w"
    and i: "i \<in> set (md_outbox db)" "dn_memory d = Some m" "same_projection ''memory'' m (consolidation_value
        (dn_operation d)) i"
  shows "md_outbox db' = md_outbox db"
proof -
  have linked: ?thesis
    if dl: "decide_and_link sp m' v c op rs es db1 = Inr (d, db')" and db1: "md_outbox db1 = md_outbox db"
        "md_decisions db1 = md_decisions db"
      and none: "get_consolidation_decision db c = None" for m' v c op rs es db1
  proof -
    have "get_consolidation_decision db1 c = None" using none db1(2) by (simp add: get_consolidation_decision_def)
    from decide_and_link_decision[OF dl this] have "dn_operation d = op" "m' = m" using i(2) by auto
    then show ?thesis using decide_and_link_outbox[OF dl, of i] i db1(1) by simp
  qed
  show ?thesis
  proof (cases w)
    case (CreateMemory m1 v c rs op es)
    from a[unfolded CreateMemory apply_write.simps create_memory_with_version_def] obtain db1 db2 where
      "insert_memory m1 db = Inr db1" "insert_version v db1 = Inr db2"
      and dl: "decide_and_link sp (me_uuid m1) (vr_uuid v) c op rs es (set_current (me_uuid m1) (vr_uuid v) (sp_now
          sp 1) db2) = Inr (d, db')"
      by (auto simp: rbind_def split: sum.splits)
    then have "md_outbox db2 = md_outbox db" "md_decisions db2 = md_decisions db"
      using insert_memoryD(1) insert_versionD(1) by fastforce+
    then show ?thesis using linked[OF dl] w CreateMemory by (simp add: set_current_def)
  next
    case (CreateVersion m1 v c rs op es close)
    let ?db0 = "case (close, me_current m1) of (True, Some u) \<Rightarrow> close_version u (sp_now sp 1) db | _
        \<Rightarrow> db"
    from a[unfolded CreateVersion apply_write.simps create_version_for_memory_def] obtain db2 where
      db2: "insert_version v ?db0 = Inr db2"
      and dl: "decide_and_link sp (me_uuid m1) (vr_uuid v) c op rs es (set_current (me_uuid m1) (vr_uuid v) (sp_now
          sp 1) db2) = Inr (d, db')"
      by (auto simp: rbind_def Let_def simp del: One_nat_def split: sum.splits)
    have "md_outbox ?db0 = md_outbox db" "md_decisions ?db0 = md_decisions db"
      by (auto simp: close_version_def split: bool.splits option.splits)
    then have "md_outbox db2 = md_outbox db" "md_decisions db2 = md_decisions db"
      using insert_versionD(1)[OF db2] by simp_all
    then show ?thesis using linked[OF dl] w CreateVersion by (simp add: set_current_def)
  next
    case (Reinforce m1 v c rs es)
    then show ?thesis using a w linked[of "me_uuid m1" "vr_uuid v" c CO_REINFORCE rs es db] by (simp add:
        record_reinforcement_def)
  next
    case (DecisionOnly c op rs)
    then show ?thesis using a by (auto simp: record_decision_only_def dest: record_decision_outbox)
  next
    case (ExistingDecision e)
    then show ?thesis using a by simp
  qed
qed

fun write_of :: "string \<Rightarrow> consolidation_write \<Rightarrow> bool" where
  "write_of u (ExistingDecision d) \<longleftrightarrow> True"
| "write_of u (DecisionOnly c op rs) \<longleftrightarrow> c = u"
| "write_of u (CreateMemory m v c rs op es) \<longleftrightarrow> c = u"
| "write_of u (Reinforce m v c rs es) \<longleftrightarrow> c = u"
| "write_of u (CreateVersion m v c rs op es close) \<longleftrightarrow> c = u"

lemma plan_writes:
  assumes p: "consolidation_plan U sp cand db = Inr w"
  shows "undecided db w" "write_of cand w" "w = ExistingDecision e \<Longrightarrow> get_consolidation_decision db
      cand = Some e"
proof -
  have "(undecided db w \<and> write_of cand w) \<and> (\<forall>e. w = ExistingDecision e \<longrightarrow>
      get_consolidation_decision db cand = Some e)"
  proof (cases "get_consolidation_decision db cand")
    case (Some d)
    then show ?thesis using p by (auto simp: consolidation_plan_def)
  next
    case None
    consider "w = DecisionOnly cand CO_REJECT [''missing_evidence'']"
      | c s m v es where "get_candidate db cand = Inr c" "w = write_for U sp c (scope_for_session s) m v es"
      using p None by (cases "get_candidate db cand"; cases "list_evidence db cand")
        (auto simp: consolidation_plan_def rbind_def Let_def split: option.splits if_splits)
    then show ?thesis
    proof cases
      case 1
      then show ?thesis using None by simp
    next
      case (2 c s m v es)
      have "mc_uuid c = cand"
        using 2(1) by (auto simp: get_candidate_def find_candidate_row_def find_Some_iff split: option.splits if_splits)
      then show ?thesis using None unfolding 2(2) write_for_def
        by (auto simp: Let_def split: prod.splits option.splits consolidation_operation.splits if_splits)
    qed
  qed
  then show "undecided db w" "write_of cand w" "w = ExistingDecision e \<Longrightarrow> get_consolidation_decision
      db cand = Some e" by auto
qed

theorem later_projection_dropped:
  assumes run: "consolidate_candidate U sp c db = Inr (d, db')" and i: "i \<in> set (md_outbox db)" "dn_memory d =
      Some m"
    "same_projection ''memory'' m (consolidation_value (dn_operation d)) i"
  shows "md_outbox db' = md_outbox db"
proof -
  from run obtain w where w: "consolidation_plan U sp c db = Inr w" "apply_write sp w db = Inr (d, db')"
    by (auto simp: consolidate_candidate_def rbind_def split: sum.splits)
  show ?thesis by (rule apply_write_outbox[OF w(2) plan_writes(1)[OF w(1)] i])
qed

definition demo_third :: memory_db where "demo_third = after_candidate ''c3'' demo_second"

lemma consolidate_c3:
  "map_sum id (map_prod (\<lambda>d. (dn_operation d, dn_memory d, dn_version d)) id) (consolidate_candidate
      demo_unidb (demo_stamp ''c3'') ''c3'' demo_second)
    = Inr ((CO_SUPERSEDE, Some ''c1'', Some ''c3u''), demo_third)"
  by code_simp

lemma demo_outbox_operations: "map (\<lambda>i. (ob_aggregate_type i, ob_aggregate i, ob_operation i)) (md_outbox
    demo_second)
    = [(''memory'', ''c1'', ''ADD''), (''memory'', ''c1'', ''SUPERSEDE'')]"
  by code_simp

theorem later_projection_dropped_witness:
  "md_outbox demo_third = md_outbox demo_second \<and> map me_current (md_memories demo_third) = [Some ''c3u''] \<and>
    map me_current (md_memories demo_second) = [Some ''c2u'']"
proof -
  obtain d where d: "consolidate_candidate demo_unidb (demo_stamp ''c3'') ''c3'' demo_second = Inr (d, demo_third)"
    "dn_operation d = CO_SUPERSEDE" "dn_memory d = Some ''c1''"
    using consolidate_c3 by (auto simp: map_sum_def split: sum.splits)
  have "(''memory'', ''c1'', ''SUPERSEDE'') \<in> set (map (\<lambda>i. (ob_aggregate_type i, ob_aggregate i,
      ob_operation i)) (md_outbox demo_second))"
    unfolding demo_outbox_operations by simp
  then obtain i where i: "i \<in> set (md_outbox demo_second)" "same_projection ''memory'' ''c1'' ''SUPERSEDE'' i"
    by (auto simp: same_projection_def)
  have "md_outbox demo_third = md_outbox demo_second"
    by (rule later_projection_dropped[OF d(1) i(1) d(3)]) (use d(2) i(2) in simp)
  moreover have "map me_current (md_memories demo_third) = [Some ''c3u'']" by code_simp
  moreover have "map me_current (md_memories demo_second) = [Some ''c2u'']" by code_simp
  ultimately show ?thesis by simp
qed

text \<open>
  Property C15 (consolidation_decides_once).  A candidate that was consolidated has its decision: consolidating it
      again, at any
  later time by any worker, returns that decision and changes nothing.  The memories there were keep
  their key, status, sensitivity and scope; a forgotten one stays forgotten.
\<close>

lemma record_decision_stored:
  assumes "record_decision sp c op rs m v db = Inr (d, db')"
  shows "get_consolidation_decision db' c = Some d"
proof (cases "get_consolidation_decision db c")
  case None
  then have "List.find (\<lambda>d. dn_candidate d = c) (md_decisions db) = None" by (simp add:
      get_consolidation_decision_def)
  then show ?thesis using assms None
    by (auto simp: record_decision_def insert_decision_def get_consolidation_decision_def Let_def rbind_def
        raise_if_def find_append
        split: sum.splits if_splits)
qed (use assms in \<open>simp add: record_decision_def\<close>)

lemma link_evidence_decisions: "link_evidence sp m v c n es db = Inr db' \<Longrightarrow> md_decisions db' =
    md_decisions db"
proof (induction es arbitrary: n db)
  case (Cons e es)
  from Cons.prems obtain db1 where db1: "insert_link \<lparr>el_uuid = sp_uuid sp (4 + n), el_memory = m,
      el_version = v,
      el_candidate = c, el_evidence = ev_uuid e, el_type = SUPPORTS, el_created_at = sp_now sp (4 + n)\<rparr> db =
          Inr db1"
    "link_evidence sp m v c (Suc n) es db1 = Inr db'"
    by (auto simp: rbind_def split: sum.splits)
  from db1(1) have "md_decisions db1 = md_decisions db"
    by (auto simp: insert_link_def rbind_def raise_if_def split: if_splits)
  with Cons.IH[OF db1(2)] show ?case by simp
qed simp

lemma decide_and_link_stored:
  assumes "decide_and_link sp m v c op rs es db = Inr (d, db')"
  shows "get_consolidation_decision db' c = Some d"
proof -
  from assms obtain db1 db2 i where r: "record_decision sp c op rs (Some m) (Some v) db = Inr (d, db1)"
    and l: "link_evidence sp m v c 0 es db1 = Inr db2"
    and e: "enqueue_projection sp ''memory'' m (consolidation_value op) (projection_payload m v
        (consolidation_value op)) db2 = Inr (i, db')"
    by (auto simp: decide_and_link_def rbind_def split: sum.splits prod.splits)
  have "md_decisions db' = md_decisions db2"
    using e by (auto simp: enqueue_projection_def insert_projection_def Let_def rbind_def raise_if_def split:
        option.splits sum.splits if_splits)
  then show ?thesis using record_decision_stored[OF r] link_evidence_decisions[OF l] by (simp add:
      get_consolidation_decision_def)
qed

lemma apply_write_stored:
  assumes "apply_write sp w db = Inr (d, db')" "write_of c w" "\<And>e. w = ExistingDecision e \<Longrightarrow>
      get_consolidation_decision db c = Some e"
  shows "get_consolidation_decision db' c = Some d"
  using assms
  by (cases w) (auto simp: record_decision_only_def create_memory_with_version_def create_version_for_memory_def
      record_reinforcement_def rbind_def Let_def dest: decide_and_link_stored record_decision_stored split: sum.splits)

definition lasting :: "memory \<Rightarrow> string \<times> ustr \<times> string \<times> string \<times> string
    option \<times> memory_status \<times> sensitivity" where
  "lasting m = (me_uuid m, me_key m, me_type m, me_scope_type m, me_scope_uuid m, me_status m, me_sensitivity m)"

lemma lasting_current: "map lasting (md_memories (set_current m v now db)) = map lasting (md_memories db)"
  by (simp add: set_current_def map_set_where_id lasting_def)

lemma apply_write_lasting:
  assumes "apply_write sp w db = Inr (d, db')"
  shows "take (length (md_memories db)) (map lasting (md_memories db')) = map lasting (md_memories db)"
proof (cases w)
  case (CreateMemory m v c rs op es)
  from assms[unfolded CreateMemory apply_write.simps create_memory_with_version_def] obtain db1 db2 where
    db: "insert_memory m db = Inr db1" "insert_version v db1 = Inr db2"
    and dl: "decide_and_link sp (me_uuid m) (vr_uuid v) c op rs es (set_current (me_uuid m) (vr_uuid v) (sp_now sp
        1) db2) = Inr (d, db')"
    by (auto simp: rbind_def split: sum.splits)
  have "map lasting (md_memories db') = map lasting (md_memories db2)" using decide_and_link_frame[OF dl] by (simp
      add: lasting_current)
  then show ?thesis using insert_memoryD(1)[OF db(1)] insert_versionD(1)[OF db(2)] by simp
next
  case (CreateVersion m v c rs op es close)
  let ?db0 = "case (close, me_current m) of (True, Some u) \<Rightarrow> close_version u (sp_now sp 1) db | _
      \<Rightarrow> db"
  from assms[unfolded CreateVersion apply_write.simps create_version_for_memory_def] obtain db2 where
    db2: "insert_version v ?db0 = Inr db2"
    and dl: "decide_and_link sp (me_uuid m) (vr_uuid v) c op rs es (set_current (me_uuid m) (vr_uuid v) (sp_now sp
        1) db2) = Inr (d, db')"
    by (auto simp: rbind_def Let_def simp del: One_nat_def split: sum.splits)
  have "md_memories ?db0 = md_memories db" by (auto simp: close_version_def split: bool.splits option.splits)
  then show ?thesis using decide_and_link_frame[OF dl] insert_versionD(1)[OF db2] by (simp add: lasting_current)
qed (use assms in \<open>auto simp: record_decision_only_def record_reinforcement_def dest!: record_decision_frame
    decide_and_link_frame\<close>)

theorem consolidation_decides_once:
  assumes run: "consolidate_candidate U sp c db = Inr (d, db')"
  shows "consolidate_candidate U' sp' c db' = Inr (d, db') \<and>
    take (length (md_memories db)) (map lasting (md_memories db')) = map lasting (md_memories db)"
proof -
  from run obtain w where w: "consolidation_plan U sp c db = Inr w" "apply_write sp w db = Inr (d, db')"
    by (auto simp: consolidate_candidate_def rbind_def split: sum.splits)
  have named: "write_of c w" "\<And>e. w = ExistingDecision e \<Longrightarrow> get_consolidation_decision db c =
      Some e"
    using plan_writes[OF w(1)] by auto
  have "get_consolidation_decision db' c = Some d" by (rule apply_write_stored[OF w(2) named])
  then show ?thesis using apply_write_lasting[OF w(2)]
    by (simp add: consolidate_candidate_def consolidation_plan_def rbind_def)
qed

theorem consolidation_decides_once_witness:
  "\<exists>d. consolidate_candidate demo_unidb (demo_stamp ''c2'') ''c2'' demo_first = Inr (d, demo_second) \<and>
    consolidate_candidate demo_unidb (demo_stamp ''again'') ''c2'' demo_second = Inr (d, demo_second)"
proof -
  obtain d where d: "consolidate_candidate demo_unidb (demo_stamp ''c2'') ''c2'' demo_first = Inr (d, demo_second)"
    using consolidate_c2 by (auto simp: map_sum_def split: sum.splits)
  then show ?thesis using consolidation_decides_once[OF d, of demo_unidb "demo_stamp ''again''"] by blast
qed

end
