(* ===== verification/CorrectionProperties.thy ===== *)
theory CorrectionProperties
  imports MemoryLifecycle
begin

text \<open>
  What a correction of the user does to its memory, beside the text it names: the state the new version
  carries over, the state it sets, and the requests whose effect is only a copy.
\<close>

section \<open>A request on a worked memory\<close>

definition demo_text_of :: "json \<Rightarrow> ustr" where
  "demo_text_of v = lit ''{}''"

definition forgotten_store :: memory_db where
  "forgotten_store = set_status ''c1'' MEM_FORGOTTEN ''f'' demo_first"

definition with_request :: "string \<Rightarrow> json \<Rightarrow> memory_db \<Rightarrow> memory_db" where
  "with_request op val db =
     (case create_request (demo_stamp ''q'') ''c1'' op ''user'' val None None db of Inl _ \<Rightarrow> db | Inr
         (q, db') \<Rightarrow> db')"

definition after_request :: "string \<Rightarrow> memory_db \<Rightarrow> memory_db" where
  "after_request u db = (case apply_request demo_text_of (demo_stamp ''r'') u db of Inl _ \<Rightarrow> db | Inr
      (q, db') \<Rightarrow> db')"

section \<open>Properties\<close>



text \<open>
  Property C18 (correction_resets_memory).  Applying a pending request of the user makes the memory active whatever
  its status was, a forgotten one too, and leaves its new current version without a polarity: from then
  on a candidate of another text under its key supersedes it, also one that contradicts what the user
  confirmed.
\<close>

theorem correction_resets_memory:
  assumes "get_change_request db u = Inr q0" "cq_status q0 = ''pending''" "cq_memory q0 = Some mu"
    and "cq_operation q0 \<in> versioned_operations" "apply_request S sp u db = Inr (q, db')"
  shows "\<exists>m v. find_memory db' mu = Some m \<and> me_status m = MEM_ACTIVE \<and> current_version db' (Some
      m) = Some v \<and>
    vr_polarity v = UNKNOWN_POLARITY \<and>
    (\<forall>c. mc_status c \<notin> {CS_REJECTED, CS_NEEDS_REVIEW} \<and> mc_predicate c \<noteq> Some
        ''forget_request'' \<and>
       mc_normalized_text c \<noteq> vr_text v \<longrightarrow> resolve c (Some v) = (CO_SUPERSEDE,
           [''newer_value'']))"
proof -
  obtain m cur t where
    m: "find_memory db' mu = Some (m\<lparr>me_current := Some (sp_uuid sp 1), me_status := MEM_ACTIVE,
        me_updated_at := Some (sp_now sp 1)\<rparr>)"
    and v: "find_version db' (sp_uuid sp 1) = Some (corrected_version sp m cur t (cq_operation q0) (cq_actor_type
        q0) (cq_value q0))"
    by (rule versioned_request_result[OF assms])
  have "resolve c (Some (corrected_version sp m cur t (cq_operation q0) (cq_actor_type q0) (cq_value q0))) =
      (CO_SUPERSEDE, [''newer_value''])"
    if "mc_status c \<notin> {CS_REJECTED, CS_NEEDS_REVIEW}" "mc_predicate c \<noteq> Some ''forget_request''"
        "mc_normalized_text c \<noteq> t" for c
    using that by (auto simp: resolve_def polarities_contradict_def corrected_version_def)
  then show ?thesis using m v by (auto simp: current_version_def corrected_version_def)
qed

definition corrected_store :: memory_db where
  "corrected_store = after_request ''q'' (with_request ''correct'' (JObj [(''text'', JStr (lit ''likes tea''))])
      forgotten_store)"

definition denied_store :: memory_db where "denied_store = after_candidate ''c4'' corrected_store"

lemma correction_applied:
  "map_sum id (map_prod cq_status id) (apply_request demo_text_of (demo_stamp ''r'') ''q''
      (with_request ''correct'' (JObj [(''text'', JStr (lit ''likes tea''))]) forgotten_store)) = Inr (''applied'',
          corrected_store)"
  by code_simp

lemma correction_pending:
  "map_sum id (\<lambda>q. (cq_status q, cq_memory q, cq_operation q)) (get_change_request
      (with_request ''correct'' (JObj [(''text'', JStr (lit ''likes tea''))]) forgotten_store) ''q'') = Inr
          (''pending'', Some ''c1'', ''correct'')"
  by code_simp

theorem correction_resets_memory_witness:
  "map me_status (md_memories forgotten_store) = [MEM_FORGOTTEN] \<and>
    (\<exists>m v. find_memory corrected_store ''c1'' = Some m \<and> me_status m = MEM_ACTIVE \<and>
        current_version corrected_store (Some m) = Some v \<and>
       vr_polarity v = UNKNOWN_POLARITY \<and>
       resolve (demo_memory_candidate ''c4'' ''never tea'' NEGATED) (Some v) = (CO_SUPERSEDE, [''newer_value'']))"
proof -
  let ?db = "with_request ''correct'' (JObj [(''text'', JStr (lit ''likes tea''))]) forgotten_store"
  obtain q where q: "apply_request demo_text_of (demo_stamp ''r'') ''q'' ?db = Inr (q, corrected_store)"
    using correction_applied by (auto simp: map_sum_def split: sum.splits)
  obtain q0 where q0: "get_change_request ?db ''q'' = Inr q0" "cq_status q0 = ''pending''" "cq_memory q0 = Some ''c1''"
    "cq_operation q0 = ''correct''"
    using correction_pending by (auto simp: map_sum_def split: sum.splits)
  have op: "cq_operation q0 \<in> versioned_operations" by (simp add: q0(4) versioned_operations_def)
  obtain m v where m: "find_memory corrected_store ''c1'' = Some m" "me_status m = MEM_ACTIVE"
    "current_version corrected_store (Some m) = Some v" "vr_polarity v = UNKNOWN_POLARITY"
    and sup: "\<And>c. mc_status c \<notin> {CS_REJECTED, CS_NEEDS_REVIEW} \<Longrightarrow> mc_predicate c
        \<noteq> Some ''forget_request'' \<Longrightarrow>
       mc_normalized_text c \<noteq> vr_text v \<Longrightarrow> resolve c (Some v) = (CO_SUPERSEDE, [''newer_value''])"
    using correction_resets_memory[OF q0(1-3) op q] by blast
  have "map_option vr_text (Option.bind (find_memory corrected_store ''c1'') (\<lambda>m. current_version
      corrected_store (Some m))) = Some (lit ''likes tea'')"
    by code_simp
  then have "vr_text v = lit ''likes tea''" using m by simp
  moreover have "mc_normalized_text (demo_memory_candidate ''c4'' ''never tea'' NEGATED) \<noteq> lit
      ''likes tea''" by code_simp
  ultimately have "resolve (demo_memory_candidate ''c4'' ''never tea'' NEGATED) (Some v) = (CO_SUPERSEDE,
      [''newer_value''])"
    by (intro sup) (simp_all add: demo_memory_candidate_def)
  moreover have "map me_status (md_memories forgotten_store) = [MEM_FORGOTTEN]" by code_simp
  ultimately show ?thesis using m by blast
qed






section \<open>Also proved\<close>

text \<open>Undoing a request takes the text of the version before the current one, whatever the request did, a
  change of status included, and makes the memory active.\<close>

theorem undo_ignores_request:
  assumes q0: "get_change_request db u = Inr q0" "cq_memory q0 = Some mu" and a: "undo_request sp r u actor db =
      Inr (q, db')"
  shows "\<exists>m v. find_memory db' mu = Some m \<and> me_status m = MEM_ACTIVE \<and> current_version db' (Some
      m) = Some v \<and>
    vr_text v = vr_text (list_versions db mu ! (length (list_versions db mu) - 2))"
proof -
  let ?p = "list_versions db mu ! (length (list_versions db mu) - 2)"
  from a q0 obtain m undo db1 v db2 where m: "find_memory db mu = Some m"
    and c: "create_change_request sp ''restore_version'' actor (Some mu) (JObj [(''normalized_text'', JStr (vr_text
        ?p))])
      (Some r) None (impact_preview db (Some mu)) db = Inr (undo, db1)"
    and n: "create_new_version sp m (vr_text ?p) ''undo'' actor (JObj [(''undone_request_uuid'', jlit u)]) db1 =
        Inr (v, db2)"
    and f: "update_change_request (cq_uuid undo) (\<lambda>x. x\<lparr>cq_status := ''applied'', cq_reviewed_at :=
        Some (sp_now sp 6),
           cq_applied_at := Some (sp_now sp 6)\<rparr>) (invalidate_dependencies sp mu db2) = Inr (q, db')"
    by (auto simp: undo_request_def rbind_def require_memory_def Let_def split: sum.splits option.splits)
  have rows: "memory_rows_same db2 db'"
    using invalidate_rows[of db2 sp mu] update_request_rows[OF f] by (simp add: memory_rows_same_def)
  have mu: "me_uuid m = mu" using m by (auto simp: find_memory_def find_Some_iff)
  show ?thesis
    by (rule new_version_result[OF n])
      (use rows mu in \<open>auto simp: memory_rows_same_def find_memory_def find_version_def current_version_def
          corrected_version_def\<close>)
qed

end
