(* ===== verification/CoverageTotality.thy ===== *)
theory CoverageTotality
  imports CoverageProperties
begin

text \<open>
  On the output of a successful semantic binding the coverage planner never fails: every check of
  its own is met by construction, and the only way to an error is a collision of the digests that
  identify two different items.
\<close>

section \<open>The loop over the units never raises\<close>

text \<open>What the planner needs of the stored rows and of the envelope.\<close>

definition authority_usable :: "unit_authority \<Rightarrow> bool" where
  "authority_usable a \<longleftrightarrow>
     authority_fields_ok a \<and> nonempty_opt (pa_gate_decision_uuid a) \<and> nonempty_opt (pa_route_uuid a) \<and>
     nonempty_opt (pa_annotation_uuid a)"

definition planner_ready :: "planner_input \<Rightarrow> interval list \<Rightarrow> bool" where
  "planner_ready inp tokens \<longleftrightarrow>
     pi_message_uuid inp \<noteq> [] \<and> nonempty_opt (pi_prompt_execution_uuid inp) \<and>
     list_all authority_usable (pi_authorities inp) \<and>
     envelope_spans (pi_text_envelope inp) ''tokens'' = Inr tokens \<and> ascending tokens \<and> proper tokens \<and>
     (\<exists>hs. envelope_spans (pi_text_envelope inp) ''context_dependency_hints'' = Inr hs)"

lemma coverage_item_of_total:
  "0 < e \<Longrightarrow> \<exists>i. coverage_item_of D inp rh uid fp s e disp reasons auth pid = Inr i"
  by (simp add: coverage_item_of_def raise_if_def)

lemma unit_unresolved_total:
  "planner_ready inp tokens \<Longrightarrow> \<exists>b. unit_unresolved inp u refs = Inr b"
  by (auto simp: unit_unresolved_def dependency_hint_without_reference_def planner_ready_def)

lemma proposal_fields_ok_make:
  assumes "authority_usable a" "planner_ready inp tokens" "pi_prompt_execution_uuid inp \<noteq> None"
    "su_id u \<noteq> []" "su_evidence u \<noteq> []" "0 < su_raw_end u"
  shows "proposal_fields_ok (make_proposal D U inp rh u refs a m prov fp reasons)"
  using assms
  by (auto simp: proposal_fields_ok_def authority_usable_def authority_fields_ok_def planner_ready_def
      py_str_opt_def)

lemma plan_unit_total:
  assumes "planner_ready inp tokens" and "\<forall>a \<in> set (containing ix (su_raw_start u) (su_raw_end u)). authority_usable a"
    and "su_id u \<noteq> []" "su_evidence u \<noteq> []" "0 < su_raw_end u"
  shows "\<exists>x. plan_unit D U inp rh ix rd ld u = Inr x"
proof -
  define refs rels where "refs = indexes_of rd (su_id u)" and "rels = indexes_of ld (su_id u)"
  define found where "found = containing ix (su_raw_start u) (su_raw_end u)"
  define auth where "auth = effective_authority U inp u refs rels found"
  define mapping where "mapping = unit_mapping U inp u auth"
  obtain unresolved where un: "unit_unresolved inp u refs = Inr unresolved"
    using unit_unresolved_total [OF assms(1)] by blast
  obtain disp reasons where d:
    "disposition_for_unit u auth (length found) unresolved (mapping \<noteq> None) = (disp, reasons)"
    by (cases "disposition_for_unit u auth (length found) unresolved (mapping \<noteq> None)")
  note run = plan_unit_def [of D U inp rh ix rd ld u, unfolded Let_def, folded refs_def rels_def,
      folded found_def, folded auth_def, folded mapping_def, unfolded un rbind_simps d prod.case]
  have item: "\<exists>i. coverage_item_of D inp rh uid fp s (su_raw_end u) disp reasons auth pid = Inr i"
    for uid fp s disp reasons auth pid
    by (rule coverage_item_of_total [OF assms(5)])
  show ?thesis
  proof (cases "disp = DURABLE_CANDIDATE")
    case False
    then show ?thesis using item by (simp add: run)
  next
    case True
    note dur = disposition_durable [OF d [unfolded True]]
    then obtain a m where am: "auth = Some a" "mapping = Some m" "\<not> pa_conflicting_authority a" by auto
    note eff = effective_authority_clear [OF am(1) [unfolded auth_def] am(3)]
    have "authority_usable a" using assms(2) eff(1) by (simp add: found_def)
    then have ok: "proposal_fields_ok (make_proposal D U inp rh u refs a m prov fp reasons)" for prov fp
      by (rule proposal_fields_ok_make [OF _ assms(1) eff(2) assms(3-5)])
    show ?thesis
      using True am item ok by (simp add: run raise_if_def split: prod.split)
  qed
qed

section \<open>Different items have different material\<close>

text \<open>Two materials that do not agree and yet give one identity.\<close>

definition identity_collision :: "digests \<Rightarrow> bool" where
  "identity_collision D \<longleftrightarrow>
     (\<exists>m m'. canon (JObj m) \<noteq> canon (JObj m') \<and> coverage_item_identity D m = coverage_item_identity D m')"

lemma same_id_collides:
  assumes "item_identified D i" "item_identified D j" "it_id i = it_id j" "it_raw_start i \<noteq> it_raw_start j"
  shows "identity_collision D"
proof -
  from assms(1) obtain inp :: planner_input and rh fp e disp rs pid where i: "it_id i = coverage_item_identity D
      (item_material inp rh fp (it_raw_start i) e disp rs pid)"
    unfolding item_identified_def by blast
  from assms(2) obtain inp' :: planner_input and rh' fp' e' disp' rs' pid' where j: "it_id j = coverage_item_identity D
      (item_material inp' rh' fp' (it_raw_start j) e' disp' rs' pid')"
    unfolding item_identified_def by blast
  let ?m = "item_material inp rh fp (it_raw_start i) e disp rs pid"
  let ?m' = "item_material inp' rh' fp' (it_raw_start j) e' disp' rs' pid'"
  have "canon (JObj ?m) \<noteq> canon (JObj ?m')"
  proof
    assume "canon (JObj ?m) = canon (JObj ?m')"
    then have "sort_key fst (map (\<lambda>(k, v). (k, canon v)) ?m) = sort_key fst (map (\<lambda>(k, v). (k, canon v)) ?m')"
      by (simp only: canon.simps json.inject)
    then have "set (map (\<lambda>(k, v). (k, canon v)) ?m) = set (map (\<lambda>(k, v). (k, canon v)) ?m')"
      by (metis set_sort)
    moreover have "(''raw_start'', jnat (it_raw_start i)) \<in> set (map (\<lambda>(k, v). (k, canon v)) ?m)"
      by (simp add: item_material_def)
    ultimately have "(''raw_start'', jnat (it_raw_start i)) \<in> set (map (\<lambda>(k, v). (k, canon v)) ?m')"
      by blast
    with assms(4) show False by (auto simp: item_material_def)
  qed
  moreover have "coverage_item_identity D ?m = coverage_item_identity D ?m'" using i j assms(3) by simp
  ultimately show ?thesis unfolding identity_collision_def by blast
qed

lemma not_distinct_ids:
  assumes "distinct (map it_raw_start items)" and "\<forall>i \<in> set items. item_identified D i"
    and "\<not> distinct (map it_id items)"
  shows "identity_collision D"
proof -
  from assms(3) obtain k l where kl: "k < length items" "l < length items" "k \<noteq> l"
    "it_id (items ! k) = it_id (items ! l)"
    by (auto simp: distinct_conv_nth)
  with assms(1) have "it_raw_start (items ! k) \<noteq> it_raw_start (items ! l)"
    by (auto simp: distinct_conv_nth)
  with kl assms(2) show ?thesis by (intro same_id_collides) auto
qed

section \<open>The completeness check always passes\<close>

lemma durable_ids_match:
  assumes "list_all2 unit_outcome us planned" and "\<forall>i \<in> set extra. it_disposition i = UNSUPPORTED"
  shows "it_proposal_id ` {i \<in> set (map fst planned @ extra). it_disposition i = DURABLE_CANDIDATE} =
         (Some \<circ> pp_proposal_id) ` set (List.map_filter snd planned)"
proof -
  have out: "it_disposition (fst x) = DURABLE_CANDIDATE \<longleftrightarrow> snd x \<noteq> None"
      "snd x = Some p \<Longrightarrow> it_proposal_id (fst x) = Some (pp_proposal_id p)" if "x \<in> set planned" for x p
    using list_all2_partner_left [OF assms(1) that] by (auto simp: unit_outcome_def)
  have "{i \<in> set (map fst planned @ extra). it_disposition i = DURABLE_CANDIDATE} =
      fst ` {x \<in> set planned. snd x \<noteq> None}"
    using out(1) assms(2) by auto
  also have "it_proposal_id ` \<dots> = (Some \<circ> pp_proposal_id) ` set (List.map_filter snd planned)"
    using out(2) by (fastforce simp: in_map_filter_snd image_iff)
  finally show ?thesis .
qed

lemma items_complete:
  assumes out: "list_all2 unit_outcome us planned"
    and none: "\<forall>i \<in> set extra. it_semantic_unit_id i = None \<and> it_disposition i = UNSUPPORTED \<and> it_proposal_id i = None"
    and ids: "pi_accepted_unit_ids inp = map su_id us" "distinct (map su_id us)"
    and dist: "distinct (map it_id (map fst planned @ extra))"
  shows "assert_complete inp (sort_key item_key (map fst planned @ extra)) (List.map_filter snd planned) = Inr ()"
proof -
  let ?all = "map fst planned @ extra" let ?items = "sort_key item_key (map fst planned @ extra)"
  let ?P = "\<lambda>i. it_semantic_unit_id i \<noteq> None"
  have "\<forall>x \<in> set planned. ?P (fst x)"
    using out by (auto dest!: list_all2_partner_left simp: unit_outcome_def)
  then have fil: "filter ?P ?all = map fst planned"
    using none by (simp add: filter_id_conv filter_empty_conv)
  have ms: "mset (filter ?P ?items) = mset (map fst planned)"
    by (metis fil mset_filter mset_sort)
  have len: "length (filter ?P ?items) = length us"
    using mset_eq_length [OF ms] list_all2_lengthD [OF out] by simp
  have "map it_semantic_unit_id (map fst planned) = map (Some \<circ> su_id) us"
    using out by (induction us planned rule: list_all2_induct) (auto simp: unit_outcome_def)
  then have "distinct (map it_semantic_unit_id (map fst planned))"
    using ids(2) by (simp add: distinct_map comp_inj_on)
  then have d1: "distinct (map it_semantic_unit_id (filter ?P ?items))"
    using distinct_map_mset [OF ms] by blast
  have d2: "distinct (map it_id ?items)"
    using dist distinct_map_mset [OF mset_sort] by blast
  have durable: "set (map it_proposal_id (filter (\<lambda>i. it_disposition i = DURABLE_CANDIDATE) ?items)) =
      (Some \<circ> pp_proposal_id) ` set (List.map_filter snd planned)"
    using durable_ids_match [OF out, of extra] none by auto
  have "it_disposition i = DURABLE_CANDIDATE" if "i \<in> set ?items" "it_proposal_id i \<noteq> None" for i
  proof -
    from that none obtain x where x: "x \<in> set planned" "i = fst x" by auto
    from list_all2_partner_left [OF out x(1)] obtain u where "unit_outcome u x" by blast
    with that(2) x(2) show ?thesis by (cases "snd x") (auto simp: unit_outcome_def)
  qed
  then have "\<not> list_ex (\<lambda>i. it_proposal_id i \<noteq> None \<and> it_disposition i \<noteq> DURABLE_CANDIDATE) ?items"
    unfolding list_ex_iff by blast
  then show ?thesis
    using len d1 d2 durable
    by (simp add: assert_complete_def Let_def ids(1) image_image comp_def) auto
qed

section \<open>Start offsets are distinct\<close>

lemma ascending_starts_distinct:
  "ascending ts \<Longrightarrow> proper ts \<Longrightarrow> distinct (map fst ts)"
proof (induction ts)
  case (Cons t ts)
  have "fst t \<noteq> fst x" if "x \<in> set ts" for x
  proof -
    have "snd t \<le> fst x" "fst t < snd t" using Cons.prems that by auto
    then show ?thesis by simp
  qed
  with Cons show ?case by auto
qed simp

lemma group_span_start:
  assumes "concat (map snd gs) = ts" "g \<in> set gs" "snd g \<noteq> []" "ascending ts" "proper ts"
  shows "fst (group_span g) < snd (group_span g) \<and> (\<exists>t \<in> set ts. fst t = fst (group_span g))"
proof -
  have sub: "set (snd g) \<subseteq> set ts" using assms(1,2) by auto
  have asc: "ascending (snd g)" using assms(1,2,4)
    by (induction gs arbitrary: ts) (auto simp: sorted_wrt_append)
  have pr: "proper (snd g)" using sub assms(5) by blast
  have hd: "hd (snd g) \<in> set (snd g)" using assms(3) by simp
  from ascending_bounds [OF asc pr hd] have "snd (hd (snd g)) \<le> snd (last (snd g))" ..
  moreover have "fst (hd (snd g)) < snd (hd (snd g))" using pr hd by (cases "hd (snd g)") auto
  ultimately show ?thesis using hd sub by (auto simp: group_span_def)
qed

lemma uncovered_items_total:
  assumes "planner_ready inp tokens" and "proper (map unit_span us)"
    and "tokens' = filter (\<lambda>t. \<not> token_covered (merge_intervals (map unit_span us)) t) tokens"
  shows "\<exists>extra. uncovered_items D U inp rh ix us = Inr extra \<and>
     distinct (map it_raw_start extra) \<and> (\<forall>i \<in> set extra. \<exists>t \<in> set tokens'. fst t = it_raw_start i)"
proof -
  have tk: "envelope_spans (pi_text_envelope inp) ''tokens'' = Inr tokens" "ascending tokens" "proper tokens"
    using assms(1) by (auto simp: planner_ready_def)
  have asc: "ascending tokens'" "proper tokens'"
    using tk(2,3) by (auto simp: assms(3) sorted_wrt_filterI)
  have st: "sorted (map fst tokens)"
    unfolding sorted_map by (rule sorted_wrt_mono_rel [OF _ tk(2)]) (use tk(3) in force)
  note cov = merge_intervals_spec [OF assms(2)]
  have out: "tokens_outside_intervals tokens (merge_intervals (map unit_span us)) = tokens'"
    unfolding assms(3) using cov st tk(3) by (intro tokens_outside_filter) blast+
  define gs where "gs = token_groups U (pi_raw_text inp) ix tokens'"
  have gs: "concat (map snd gs) = tokens'" "\<forall>g \<in> set gs. snd g \<noteq> []"
    using token_groups_spec [of U "pi_raw_text inp" ix tokens'] by (simp_all add: gs_def)
  note span = group_span_start [OF gs(1) _ bspec [OF gs(2)] asc]
  have "\<exists>i. uncovered_item D inp rh ix g = Inr i" if "g \<in> set gs" for g
    unfolding uncovered_item_def Let_def case_prod_unfold
    by (rule coverage_item_of_total) (use span [OF that that] in linarith)
  then have "\<exists>extra. list_all2 (\<lambda>g i. uncovered_item D inp rh ix g = Inr i) gs extra"
    by (intro list_all2_choice) blast
  then obtain extra where extra: "list_all2 (\<lambda>g i. uncovered_item D inp rh ix g = Inr i) gs extra" ..
  then have u: "uncovered_items D U inp rh ix us = Inr extra"
    by (simp add: uncovered_items_def Let_def tk(1) out rmap_eq_Inr flip: gs_def)
  have "list_all2 (\<lambda>g i. it_raw_start i = fst (group_span g)) gs extra"
    by (rule list_all2_mono [OF extra])
      (auto simp: uncovered_item_def Let_def split: prod.splits dest!: coverage_item_of_InrD)
  then have starts: "map it_raw_start extra = map fst (map group_span gs)"
    by (induction gs extra rule: list_all2_induct) auto
  have "ascending (map group_span gs)" using groups_ascending [of gs] gs asc by simp
  moreover have "fst (group_span g) < snd (group_span g)" if "g \<in> set gs" for g
    using span [OF that that] ..
  then have "proper (map group_span gs)" by (auto simp: case_prod_unfold)
  ultimately have "distinct (map it_raw_start extra)"
    unfolding starts by (rule ascending_starts_distinct)
  moreover have "\<exists>t \<in> set tokens'. fst t = it_raw_start i" if "i \<in> set extra" for i
  proof -
    from that starts obtain g where "g \<in> set gs" "it_raw_start i = fst (group_span g)"
      by (metis (no_types, lifting) image_iff list.map_comp list.set_map comp_apply)
    then show ?thesis using span [of g] by auto
  qed
  ultimately show ?thesis using u by blast
qed

lemma plan_unit_outcomes:
  assumes "list_all2 (\<lambda>u x. plan_unit D U inp rh ix rd ld u = Inr x) us planned"
  shows "list_all2 unit_outcome us planned \<and> (\<forall>x \<in> set planned. item_identified D (fst x))"
proof
  show "list_all2 unit_outcome us planned"
    by (rule list_all2_mono [OF assms])
      (auto dest!: plan_unit_cases split: option.splits simp: durable_ground_def unit_outcome_def)
  show "\<forall>x \<in> set planned. item_identified D (fst x)"
  proof
    fix x assume "x \<in> set planned"
    from list_all2_partner_left [OF assms this] show "item_identified D (fst x)"
      by (cases x) (auto dest: plan_unit_cases)
  qed
qed

lemma bound_units_facts:
  assumes "validate_semantic_binding text_hash classify i a = Inr r"
  shows "distinct (map su_id (sa_semantic_units a))"
    "\<forall>u \<in> set (sa_semantic_units a). unit_exact (si_raw_text i) u \<and> su_id u \<noteq> []"
    "sorted_wrt (\<lambda>u v. su_raw_end u \<le> su_raw_start v) (sa_semantic_units a)"
    "accepted_unit_ids r = map su_id (sa_semantic_units a)"
    "accepted_reference_indexes r = [0..<length (sa_references a)]"
    "accepted_relation_indexes r = [0..<length (sa_relations a)]"
    "jget (si_text_envelope i) ''raw_text_hash'' = jlit (text_hash (si_raw_text i))"
proof -
  from binding_stages(9) [OF assms] have "\<forall>u \<in> set (sa_semantic_units a). su_id u \<noteq> []"
    by (auto simp: analysis_fields_ok_def list_all_iff unit_fields_ok_def)
  with bound_units [OF assms] show "\<forall>u \<in> set (sa_semantic_units a). unit_exact (si_raw_text i) u \<and> su_id u \<noteq> []"
    by blast
qed (use bound_units [OF assms] in blast)+

text \<open>Units and uncovered groups all start at different offsets.\<close>

lemma item_starts_distinct:
  assumes out: "list_all2 unit_outcome us planned"
    and ord: "sorted_wrt (\<lambda>u v. su_raw_end u \<le> su_raw_start v) us"
    and pos: "\<forall>u \<in> set us. su_raw_start u < su_raw_end u"
    and extra: "distinct (map it_raw_start extra)" "\<forall>i \<in> set extra. \<exists>t \<in> set tokens'. fst t = it_raw_start i"
    and toks: "tokens' = filter (\<lambda>t. \<not> token_covered (merge_intervals (map unit_span us)) t) tokens"
    and pr: "proper tokens"
  shows "distinct (map it_raw_start (map fst planned @ extra))"
proof -
  have starts: "map it_raw_start (map fst planned) = map fst (map unit_span us)"
    using out by (induction us planned rule: list_all2_induct) (auto simp: unit_outcome_def unit_span_def)
  have pu: "proper (map unit_span us)" using pos by (auto simp: unit_span_def)
  have "ascending (map unit_span us)" using ord by (simp add: sorted_wrt_map unit_span_def)
  then have d: "distinct (map it_raw_start (map fst planned))"
    unfolding starts by (rule ascending_starts_distinct [OF _ pu])
  have "fst (unit_span u) \<noteq> fst t" if "u \<in> set us" "t \<in> set tokens'" for u t
  proof
    assume eq: "fst (unit_span u) = fst t"
    from that(2) have t: "t \<in> set tokens" "\<not> token_covered (merge_intervals (map unit_span us)) t"
      by (auto simp: toks)
    obtain s e where se: "t = (s, e)" "s < e" using pr t(1) by (cases t) auto
    from pos that(1) eq se have "token_covered (map unit_span us) (s, e)"
      by (auto simp: token_covered_def unit_span_def intro!: bexI [of _ u])
    with t(2) se merge_intervals_spec [OF pu] pu show False by (simp add: token_covered_points)
  qed
  then have "set (map fst (map unit_span us)) \<inter> it_raw_start ` set extra = {}"
    using extra(2) by fastforce
  with d extra(1) starts show ?thesis by (simp only: map_append distinct_append) simp
qed

section \<open>Totality\<close>

text \<open>The planner's input made from a bound message.\<close>

definition planner_input_from :: "semantic_input \<Rightarrow> semantic_analysis \<Rightarrow> validation_report \<Rightarrow> planner_input \<Rightarrow> bool" where
  "planner_input_from i a r inp \<longleftrightarrow>
     pi_raw_text inp = si_raw_text i \<and> pi_text_envelope inp = si_text_envelope i \<and> pi_analysis inp = a \<and>
     pi_accepted_unit_ids inp = accepted_unit_ids r \<and>
     pi_accepted_reference_indexes inp = accepted_reference_indexes r \<and>
     pi_accepted_relation_indexes inp = accepted_relation_indexes r"

text \<open>What the loop leaves when the units are bound.\<close>

lemma plan_units_total:
  assumes "planner_ready inp tokens" and "\<forall>u \<in> set us. unit_exact raw u \<and> su_id u \<noteq> []"
  shows "\<exists>planned. list_all2 (\<lambda>u x. plan_unit D U inp rh (make_index (pi_authorities inp)) rd ld u = Inr x) us planned"
proof -
  have auth: "\<forall>a \<in> set (pi_authorities inp). pa_raw_start a < pa_raw_end a \<and> authority_usable a"
    using assms(1) by (auto simp: planner_ready_def list_all_iff authority_usable_def authority_fields_ok_def)
  have "\<exists>x. plan_unit D U inp rh (make_index (pi_authorities inp)) rd ld u = Inr x" if "u \<in> set us" for u
  proof -
    from assms(2) that have u: "su_raw_start u < su_raw_end u" "su_raw_end u \<le> length raw"
      "su_evidence u = slice raw (su_raw_start u) (su_raw_end u)" "su_id u \<noteq> []"
      by (auto simp: unit_exact_def)
    then have "length (su_evidence u) > 0" by simp
    then have "su_evidence u \<noteq> []" by blast
    moreover have "set (containing (make_index (pi_authorities inp)) (su_raw_start u) (su_raw_end u))
        \<subseteq> set (pi_authorities inp)"
      using authority.members [of "pi_authorities inp", OF _ u(1)] auth by auto
    ultimately show ?thesis
      using auth u by (intro plan_unit_total [OF assms(1)]) auto
  qed
  then show ?thesis by (intro list_all2_choice) blast
qed

text \<open>
  Property C3 (bound_output_is_planned): for the output of a successful semantic binding, with
  usable stored authorities and an envelope whose tokens ascend, the planner returns a plan; the
  only other outcome needs two different items with the same digest.
\<close>

theorem bound_output_is_planned:
  assumes bound: "validate_semantic_binding (d_text D) classify i a = Inr r"
    and inp: "planner_input_from i a r inp" and ready: "planner_ready inp tokens"
  shows "(\<exists>plan ps. plan_candidate_coverage D U inp = Inr (plan, ps)) \<or> identity_collision D"
proof (rule disjCI)
  assume no: "\<not> identity_collision D"
  let ?ix = "make_index (pi_authorities inp)" and ?rh = "d_text D (pi_raw_text inp)"
  let ?rd = "indexes_by_source (\<lambda>i. sr_source_unit_id (ref_at inp i)) (pi_accepted_reference_indexes inp)"
  let ?ld = "indexes_by_source (\<lambda>i. sl_source_unit_id (rel_at inp i)) (pi_accepted_relation_indexes inp)"
  define us where "us = sa_semantic_units a"
  note units = bound_units_facts [OF bound]
  from inp have an: "pi_analysis inp = a" by (simp add: planner_input_from_def)
  have ids: "pi_accepted_unit_ids inp = map su_id us" "distinct (map su_id us)"
    using inp units by (simp_all add: planner_input_from_def us_def)
  have check: "check_planner_input D inp = Inr ()"
    using inp units by (simp add: check_planner_input_Inr planner_input_from_def)
  have all: "filter (\<lambda>u. su_id u \<in> set (pi_accepted_unit_ids inp)) us = us"
    by (simp add: ids filter_id_conv)
  have ex: "\<forall>u \<in> set us. unit_exact (si_raw_text i) u \<and> su_id u \<noteq> []" using units by (simp add: us_def)
  obtain planned where planned: "list_all2 (\<lambda>u x. plan_unit D U inp ?rh ?ix ?rd ?ld u = Inr x) us planned"
    using plan_units_total [OF ready ex] by blast
  have out: "list_all2 unit_outcome us planned" and ident: "\<forall>x \<in> set planned. item_identified D (fst x)"
    using planned plan_unit_outcomes by blast+
  have pu: "proper (map unit_span us)" using ex by (auto simp: unit_span_def unit_exact_def)
  define tokens' where "tokens' = filter (\<lambda>t. \<not> token_covered (merge_intervals (map unit_span us)) t) tokens"
  obtain extra where extra: "uncovered_items D U inp ?rh ?ix us = Inr extra"
    "distinct (map it_raw_start extra)" "\<forall>i \<in> set extra. \<exists>t \<in> set tokens'. fst t = it_raw_start i"
    using uncovered_items_total [OF ready pu tokens'_def] by blast
  have none: "\<forall>i \<in> set extra. it_semantic_unit_id i = None \<and> it_disposition i = UNSUPPORTED \<and>
      it_proposal_id i = None \<and> item_identified D i"
    by (rule uncovered_items_Inr [OF extra(1)]) (auto dest: list_all2_partner_left)
  have "distinct (map it_raw_start (map fst planned @ extra))"
    by (rule item_starts_distinct [OF out _ _ extra(2,3) tokens'_def])
      (use units ex ready in \<open>auto simp: us_def planner_ready_def unit_exact_def\<close>)
  moreover have "\<forall>i \<in> set (map fst planned @ extra). item_identified D i" using ident none by auto
  ultimately have dist: "distinct (map it_id (map fst planned @ extra))"
    using no not_distinct_ids by blast
  have "assert_complete inp (sort_key item_key (map fst planned @ extra)) (List.map_filter snd planned) = Inr ()"
    using none by (intro items_complete [OF out _ ids dist]) blast
  then show "\<exists>plan ps. plan_candidate_coverage D U inp = Inr (plan, ps)"
    using check planned extra(1) all
    by (simp add: plan_candidate_coverage_def Let_def an us_def [symmetric] rmap_eq_Inr) blast
qed

theorem bound_output_is_planned_witness:
  "(\<exists>plan ps. plan_candidate_coverage demo_digests demo_unidb demo_planner_input = Inr (plan, ps)) \<or>
   identity_collision demo_digests"
proof (rule bound_output_is_planned)
  show "validate_semantic_binding (d_text demo_digests) (\<lambda>_. 0) demo_input demo_analysis =
      Inr \<lparr>accepted_unit_ids = [lit ''u1'', lit ''u2''], accepted_reference_indexes = [0],
          accepted_relation_indexes = [], rejections = []\<rparr>"
    using demo_bound by (simp add: demo_digests_def)
  show "planner_input_from demo_input demo_analysis
      \<lparr>accepted_unit_ids = [lit ''u1'', lit ''u2''], accepted_reference_indexes = [0],
       accepted_relation_indexes = [], rejections = []\<rparr> demo_planner_input"
    by (simp add: planner_input_from_def demo_planner_input_def demo_input_def)
  show "planner_ready demo_planner_input [(0, 3), (4, 8), (10, 12), (13, 18)]"
    by (simp add: planner_ready_def demo_planner_input_def demo_authority_def authority_usable_def
        authority_fields_ok_def demo_tokens)
qed

end
