(* ===== verification/CoverageAudit.thy ===== *)
theory CoverageAudit
  imports CoverageReplay CoverageTotality
begin

text \<open>
  The histories of the coverage tables and what holds in all of them: a crashed worker resumes
  where it stopped, every candidate is audited, and the two persistence layers agree, except that
  the unique index of the SQLite table of candidates refuses a statement made twice in a text unit.
\<close>

section \<open>Histories\<close>

text \<open>
  One step of a history: a command that succeeds (a failed one leaves no trace), or another
  component adding a gate decision, a route or rows of the tables that are only referred to.
\<close>

inductive worker_step ::
  "('cmd \<Rightarrow> string \<Rightarrow> 'c coverage_store \<Rightarrow> ('e, 'r \<times> 'c coverage_store) result)
     \<Rightarrow> 'c coverage_store \<Rightarrow> 'c coverage_store \<Rightarrow> bool"
  for exec where
  command: "exec c now st = Inr (r, st') \<Longrightarrow> worker_step exec st st'"
| gate: "gate_key g \<notin> gate_key ` set (st_gates st) \<Longrightarrow>
     worker_step exec st (st\<lparr>st_gates := st_gates st @ [g]\<rparr>)"
| route: "sg_uuid r \<notin> sg_uuid ` set (st_routes st) \<Longrightarrow>
     worker_step exec st (st\<lparr>st_routes := st_routes st @ [r]\<rparr>)"
| other: "worker_step exec st (st\<lparr>st_parent := p\<rparr>)"

abbreviation worker_steps where
  "worker_steps exec \<equiv> (worker_step exec)\<^sup>*\<^sup>*"

lemma inv_frame [simp]:
  "store_inv di D F (st\<lparr>st_gates := g\<rparr>) = store_inv di D F st"
  "store_inv di D F (st\<lparr>st_routes := r\<rparr>) = store_inv di D F st"
  "store_inv di D F (st\<lparr>st_parent := p\<rparr>) = store_inv di D F st"
  by (simp_all add: store_inv_def link_ok_def candidate_evidence_rows_def list_all_iff)

lemma other_step_grows:
  "gate_key g \<notin> gate_key ` set (st_gates st) \<Longrightarrow> store_grows di st (st\<lparr>st_gates := st_gates st @ [g]\<rparr>)"
  "sg_uuid r \<notin> sg_uuid ` set (st_routes st) \<Longrightarrow> store_grows di st (st\<lparr>st_routes := st_routes st @ [r]\<rparr>)"
  "store_grows di st (st\<lparr>st_parent := p\<rparr>)"
  by (auto simp: store_grows_def appended_def)

lemma store_history_inv:
  assumes "worker_steps exec st st'" "store_inv di D F st"
    and step: "\<And>c now a r b. store_inv di D F a \<Longrightarrow> exec c now a = Inr (r, b) \<Longrightarrow> store_inv di D F b \<and> store_grows di a b"
  shows "store_inv di D F st' \<and> store_grows di st st'"
  using assms(1,2)
proof (induction rule: rtranclp_induct)
  case base
  then show ?case by simp
next
  case (step a b)
  then have a: "store_inv di D F a" "store_grows di st a" by simp_all
  have "store_inv di D F b \<and> store_grows di a b"
    using step(2) a(1)
  proof (cases rule: worker_step.cases)
    case (command c now r)
    with assms(3) a(1) show ?thesis by blast
  qed (use a(1) other_step_grows in auto)
  with a(2) show ?case using store_grows_trans by blast
qed

lemma sqlite_history:
  "worker_steps (sqlite_exec D F) st st' \<Longrightarrow> store_inv sqlite_dialect D F st \<Longrightarrow>
     store_inv sqlite_dialect D F st' \<and> store_grows sqlite_dialect st st'"
  using store_history_inv sqlite_command_step by blast

lemma pg_history:
  "worker_steps (pg_exec D F) st st' \<Longrightarrow> store_inv pg_dialect D F st \<Longrightarrow>
     store_inv pg_dialect D F st' \<and> store_grows pg_dialect st st'"
  using store_history_inv pg_command_step by blast

section \<open>Properties\<close>

text \<open>
  Property C6 (crashed_persistence_resumes): a worker that persisted part of its list of commands
  and crashed may start over: in any later state, whatever other workers did in between, the
  commands that had succeeded succeed again without changing anything, so that the whole list does
  exactly what its remainder does.  This holds for the SQLite layer.
\<close>

theorem crashed_persistence_resumes:
  assumes "empty_tables st0" "worker_steps (sqlite_exec D F) st0 st"
    and "run_commands (sqlite_exec D F) done st = Inr st1"
    and "worker_steps (sqlite_exec D F) st1 st2" "map fst again = map fst done"
  shows "run_commands (sqlite_exec D F) (again @ rest) st2 = run_commands (sqlite_exec D F) rest st2"
proof -
  from sqlite_history [OF assms(2) empty_inv [OF assms(1)]] have inv: "store_inv sqlite_dialect D F st" by simp
  from lite_store.run_all_grows [OF inv assms(3)] sqlite_history [OF assms(4)]
  have "store_grows sqlite_dialect st1 st2" by simp
  from lite_store.resume [OF inv assms(3) this assms(5)] show ?thesis .
qed

text \<open>Also proved (crashed_persistence_resumes_full): the same for PostgreSQL.\<close>

theorem crashed_persistence_resumes_full:
  assumes "empty_tables st0" "worker_steps (pg_exec D F) st0 st"
    and "run_commands (pg_exec D F) done st = Inr st1"
    and "worker_steps (pg_exec D F) st1 st2" "map fst again = map fst done"
  shows "run_commands (pg_exec D F) (again @ rest) st2 = run_commands (pg_exec D F) rest st2"
proof -
  from pg_history [OF assms(2) empty_inv [OF assms(1)]] have inv: "store_inv pg_dialect D F st" by simp
  from full_store.run_all_grows [OF inv assms(3)] pg_history [OF assms(4)]
  have "store_grows pg_dialect st1 st2" by simp
  from full_store.resume [OF inv assms(3) this assms(5)] show ?thesis .
qed

text \<open>
  Property C5 (candidates_audited): in every state of every history, a stored candidate is the
  linked candidate of a reserved, durable item of a stored plan: the link names the item and the
  candidate, and the payload hash that was reserved before the candidate existed is the hash of
  the stored candidate with its stored evidence, of which there is some.
\<close>

theorem candidates_audited:
  assumes "empty_tables st0" "worker_steps (sqlite_exec D F) st0 st" "row \<in> set (st_candidates st)"
  shows "\<exists>run \<in> set (st_runs st). \<exists>item \<in> set (st_items st). \<exists>link \<in> set (st_links st).
     cr_run item = rr_uuid run \<and> cr_disposition item = ''durable_candidate'' \<and>
     cr_proposal item = Some (mc_uuid row) \<and> lk_item link = cr_uuid item \<and> lk_proposal link = mc_uuid row \<and>
     lk_state link = CANDIDATE_LINKED \<and> lk_candidate link = Some (mc_uuid row) \<and>
     lk_hash link = candidate_payload_hash D F row (candidate_evidence_rows st (mc_uuid row)) \<and>
     candidate_evidence_rows st (mc_uuid row) \<noteq> []"
proof -
  from sqlite_history [OF assms(2) empty_inv [OF assms(1)]] have inv: "store_inv sqlite_dialect D F st" by simp
  have di: "di_uuid sqlite_dialect = mc_uuid" "di_row sqlite_dialect = (\<lambda>c. c)" by (simp_all add: sqlite_dialect_def)
  from inv assms(3) obtain l where l: "l \<in> set (st_links st)" "lk_proposal l = mc_uuid row" "lk_state l = CANDIDATE_LINKED"
    by (auto simp: store_inv_def di)
  from inv l(1) have "link_ok sqlite_dialect D F st l" by (simp add: store_inv_def list_all_iff)
  with l obtain i c where i: "i \<in> set (st_items st)" "cr_uuid i = lk_item l" "cr_disposition i = ''durable_candidate''"
      "cr_proposal i = Some (mc_uuid row)" and lc: "lk_candidate l = Some (mc_uuid row)"
      and c: "mc_uuid c = mc_uuid row" "c \<in> set (st_candidates st)"
      and h: "candidate_evidence_rows st (mc_uuid row) \<noteq> []"
        "lk_hash l = candidate_payload_hash D F c (candidate_evidence_rows st (mc_uuid row))"
    by (auto simp: link_ok_def di)
  from inv have "distinct (map mc_uuid (st_candidates st))" by (simp add: store_inv_def di)
  from distinct_key_eq [OF this c(2) assms(3) c(1)] have "c = row" .
  moreover from inv i(1) obtain r where "r \<in> set (st_runs st)" "rr_uuid r = cr_run i" by (force simp: store_inv_def)
  ultimately show ?thesis using l i lc h by metis
qed

section \<open>The layers agree\<close>

text \<open>The same database with the candidates as PostgreSQL stores them.\<close>

definition as_pg :: "memory_candidate coverage_store \<Rightarrow> pg_candidate coverage_store" where
  "as_pg st = \<lparr>st_parent = st_parent st, st_gates = st_gates st, st_routes = st_routes st, st_runs = st_runs st,
     st_items = st_items st, st_links = st_links st, st_candidates = map pg_candidate_values (st_candidates st),
     st_evidence = st_evidence st\<rparr>"

lemma as_pg_simps [simp]:
  "st_parent (as_pg st) = st_parent st" "st_gates (as_pg st) = st_gates st" "st_routes (as_pg st) = st_routes st"
  "st_runs (as_pg st) = st_runs st" "st_items (as_pg st) = st_items st" "st_links (as_pg st) = st_links st"
  "st_candidates (as_pg st) = map pg_candidate_values (st_candidates st)" "st_evidence (as_pg st) = st_evidence st"
  by (simp_all add: as_pg_def)

lemma as_pg_updates:
  "as_pg (st\<lparr>st_runs := rs\<rparr>) = as_pg st\<lparr>st_runs := rs\<rparr>" "as_pg (st\<lparr>st_items := is\<rparr>) = as_pg st\<lparr>st_items := is\<rparr>"
  "as_pg (st\<lparr>st_links := ls\<rparr>) = as_pg st\<lparr>st_links := ls\<rparr>" "as_pg (st\<lparr>st_evidence := es\<rparr>) = as_pg st\<lparr>st_evidence := es\<rparr>"
  "as_pg (st\<lparr>st_candidates := cs\<rparr>) = as_pg st\<lparr>st_candidates := map pg_candidate_values cs\<rparr>"
  by (simp_all add: as_pg_def)

lemma as_pg_reads [simp]:
  "refers (as_pg st) = refers st" "find_run (as_pg st) = find_run st" "find_item (as_pg st) = find_item st"
  "find_link (as_pg st) = find_link st" "run_items (as_pg st) = run_items st"
  "candidate_evidence_rows (as_pg st) = candidate_evidence_rows st" "authority_stands (as_pg st) = authority_stands st"
  by (auto simp: refers_def find_run_def find_item_def find_link_def run_items_def
      candidate_evidence_rows_def authority_stands_def authority_rows_def fun_eq_iff split: option.split)

lemma as_pg_inserts:
  "insert_run r st = Inr st' \<Longrightarrow> insert_run r (as_pg st) = Inr (as_pg st')"
  "insert_item i st = Inr st' \<Longrightarrow> insert_item i (as_pg st) = Inr (as_pg st')"
  "insert_link l st = Inr st' \<Longrightarrow> insert_link l (as_pg st) = Inr (as_pg st')"
  by (auto simp: insert_run_def insert_item_def insert_link_def as_pg_updates raise_if_def split: if_splits option.splits)

lemma as_pg_items: "insert_items is run b now st = Inr st' \<Longrightarrow> insert_items is run b now (as_pg st) = Inr (as_pg st')"
  by (induction "is" arbitrary: st) (fastforce dest: as_pg_inserts(2))+

lemma assert_items_weaken:
  assumes "assert_items_replay same plan rows = Inr u" "\<And>r i. same r i = Inr () \<Longrightarrow> same' r i = Inr ()"
  shows "\<exists>u. assert_items_replay same' plan rows = Inr u"
proof -
  have "\<exists>v. rmap g' is = Inr v" if "rmap g is = Inr v" "\<And>i. g i = Inr () \<Longrightarrow> g' i = Inr ()"
    for g g' :: "coverage_item \<Rightarrow> (coverage_error, unit) result" and "is" v
    using that by (induction "is" arbitrary: v) auto
  moreover have "(case index_by cr_uuid rows (it_id i) of None \<Rightarrow> Inl ItemSetDiffers | Some r \<Rightarrow> same' r i) = Inr ()"
    if "(case index_by cr_uuid rows (it_id i) of None \<Rightarrow> Inl ItemSetDiffers | Some r \<Rightarrow> same r i) = Inr ()" for i
    using that assms(2) by (cases "index_by cr_uuid rows (it_id i)") simp_all
  ultimately show ?thesis using assms(1) by (auto simp: assert_items_replay_def)
qed

lemma plan_check_pg:
  assumes "assert_plan_replay D plan b st = Inr u"
  shows "\<exists>u. pg_assert_plan_replay D plan b (as_pg st) = Inr u"
proof -
  let ?run = "coverage_run_uuid D (cp_coverage_hash plan)"
  from assms obtain row where row: "find_run st ?run = Some row" "row = run_values D plan b (rr_created_at row)"
    and items: "assert_items_replay (\<lambda>r i. rbind (item_values i ?run b (cr_created_at r))
       (\<lambda>x. raise_if (r \<noteq> x) PlanReplayDiffers)) plan (run_items st ?run) = Inr u"
    by (auto simp: assert_plan_replay_def Let_def split: option.splits)
  have same: "raise_if (\<not> pg_item_same b r i) ItemDiffers = Inr ()"
    if "rbind (item_values i ?run b (cr_created_at r)) (\<lambda>x. raise_if (r \<noteq> x) PlanReplayDiffers) = Inr ()" for r i
  proof -
    from that have "r = item_row_of i ?run b (cr_created_at r)" by (auto simp: item_values_def)
    then obtain t where "r = item_row_of i ?run b t" by blast
    then show ?thesis by (simp add: pg_item_same_def item_row_of_def raise_if_def)
  qed
  from assert_items_weaken [OF items same]
  have "\<exists>u. assert_items_replay (\<lambda>r i. raise_if (\<not> pg_item_same b r i) ItemDiffers) plan (run_items st ?run) = Inr u" .
  moreover from row(2) obtain t where "row = run_values D plan b t" by blast
  then have "pg_run_same D plan b row" "rr_plan row = canon (plan_json plan)" by (simp_all add: pg_run_same_def run_values_def)
  ultimately show ?thesis using row(1) by (auto simp: pg_assert_plan_replay_def Let_def raise_if_def)
qed

lemma persist_agrees:
  assumes "sqlite_persist_plan D plan b now st = Inr (r, st')"
  shows "pg_persist_plan D plan b now (as_pg st) = Inr (r, as_pg st')"
proof (cases "find_run st (coverage_run_uuid D (cp_coverage_hash plan))")
  case None
  with assms obtain st1 where "insert_run (run_values D plan b now) st = Inr st1"
    "insert_items (cp_items plan) (coverage_run_uuid D (cp_coverage_hash plan)) b now st1 = Inr st'"
    and "r = (coverage_run_uuid D (cp_coverage_hash plan), TS_CREATED)"
    by (auto simp: sqlite_persist_plan_def Let_def)
  then show ?thesis using None as_pg_inserts(1) as_pg_items run_known [of _ "as_pg st"]
    by (simp add: pg_persist_plan_def Let_def run_known)
next
  case (Some row)
  with assms have "st' = st" "r = (coverage_run_uuid D (cp_coverage_hash plan), TS_EXISTING)"
    and "\<exists>u. assert_plan_replay D plan b st = Inr u"
    by (auto simp: sqlite_persist_plan_def Let_def)
  with plan_check_pg Some show ?thesis by (auto simp: pg_persist_plan_def Let_def run_known [of _ "as_pg st", simplified] run_known)
qed

lemma reserve_agrees:
  assumes "sqlite_reserve pid item h now st = Inr (r, st')"
  shows "\<exists>r'. fst r' = fst r \<and> pg_reserve pid item h now (as_pg st) = Inr (r', as_pg st')"
proof (cases "find_link st pid")
  case None
  with assms obtain i where i: "find_item st item = Some i" "cr_disposition i = ''durable_candidate''" "cr_proposal i = Some pid"
    and ins: "insert_link (new_link pid item h now) st = Inr st'" and r: "fst r = pid"
    by (auto simp: sqlite_reserve_def split: option.splits)
  from find_SomeD [OF i(1) [unfolded find_item_def]] i(2,3)
  have sel: "list_ex (\<lambda>i. cr_uuid i = item \<and> cr_disposition i = ''durable_candidate'' \<and> cr_proposal i = Some pid) (st_items st)"
    by (auto simp: list_ex_iff)
  from ins have st': "st' = st\<lparr>st_links := st_links st @ [new_link pid item h now]\<rparr>" and
    new: "pid \<notin> lk_proposal ` set (st_links st)" by (auto simp: insert_link_def list_ex_iff new_link_def)
  have "List.find (\<lambda>l. lk_proposal l = pid) (xs @ [l]) = Some l"
    if "pid \<notin> lk_proposal ` set xs" "lk_proposal l = pid" for xs and l :: link_row
    using that by (induction xs) auto
  with new have "find_link st' pid = Some (new_link pid item h now)" by (simp add: find_link_def st' new_link_def)
  with None sel as_pg_inserts(3) [OF ins] r show ?thesis
    by (simp add: pg_reserve_def Let_def assert_link_row_def raise_if_def new_link_def)
next
  case (Some l)
  with assms show ?thesis by (auto simp: sqlite_reserve_def pg_reserve_def Let_def assert_link_row_def raise_if_def)
qed

text \<open>What PostgreSQL demands of a candidate and its evidence and SQLite does not.\<close>

fun pg_admits :: "coverage_command \<Rightarrow> memory_candidate coverage_store \<Rightarrow> bool" where
  "pg_admits (CreateAndLink p c items a) st =
     (di_not_null pg_dialect c \<and> list_all (di_evidence_ok pg_dialect (as_pg st)) items)"
| "pg_admits _ st = True"

lemma evidence_ok_cong:
  "st_routes st = st_routes st' \<Longrightarrow> st_parent st = st_parent st' \<Longrightarrow>
     di_evidence_ok pg_dialect (as_pg st) = di_evidence_ok pg_dialect (as_pg st')"
  by (auto simp: pg_dialect_def refers_def fun_eq_iff split: option.splits)

lemma evidence_agrees:
  assumes "insert_all_evidence sqlite_dialect es st = Inr st'" "list_all (di_evidence_ok pg_dialect (as_pg st)) es"
  shows "insert_all_evidence pg_dialect es (as_pg st) = Inr (as_pg st')"
  using assms
proof (induction es arbitrary: st)
  case (Cons e es)
  from Cons.prems(1) obtain st1 where e: "insert_evidence sqlite_dialect e st = Inr st1"
    and rest: "insert_all_evidence sqlite_dialect es st1 = Inr st'" by auto
  from e have st1: "st1 = st\<lparr>st_evidence := st_evidence st @ [e]\<rparr>" by (auto simp: insert_evidence_def)
  have uuids: "list_ex (\<lambda>x. di_uuid pg_dialect x = u) (map pg_candidate_values cs) = list_ex (\<lambda>x. mc_uuid x = u) cs" for u cs
    by (induction cs) (simp_all add: pg_dialect_def pg_candidate_values_def)
  from Cons.prems(2) have "di_evidence_ok pg_dialect (as_pg st) e" by simp
  with e have "insert_evidence pg_dialect e (as_pg st) = Inr (as_pg st1)"
    using uuids [of "ev_candidate e" "st_candidates st"]
    by (auto simp: insert_evidence_def st1 raise_if_def sqlite_dialect_def as_pg_updates split: if_splits)
  moreover have "list_all (di_evidence_ok pg_dialect (as_pg st1)) es"
    using Cons.prems(2) evidence_ok_cong [of st st1] by (simp add: st1)
  ultimately show ?case using Cons.IH [OF rest] by simp
qed simp

lemma existing_agrees:
  assumes "assert_existing_candidate sqlite_dialect st row c es = Inr u"
  shows "\<exists>u. assert_existing_candidate pg_dialect (as_pg st) (pg_candidate_values row) c es = Inr u"
proof -
  from assms have "row = c\<lparr>mc_created_at := mc_created_at row\<rparr>"
    by (auto simp: assert_existing_candidate_def Let_def sqlite_dialect_def)
  then obtain t where "row = c\<lparr>mc_created_at := t\<rparr>" by blast
  then have "di_same pg_dialect (pg_candidate_values row) c" by (simp add: pg_dialect_def pg_candidate_values_def)
  with assms show ?thesis by (auto simp: assert_existing_candidate_def Let_def raise_if_def split: if_splits)
qed

lemma find_candidate_pg:
  "find_candidate pg_dialect (as_pg st) u = map_option pg_candidate_values (find_candidate sqlite_dialect st u)"
proof -
  have "List.find (\<lambda>c. di_uuid pg_dialect c = u) (map pg_candidate_values cs) =
     map_option pg_candidate_values (List.find (\<lambda>c. di_uuid sqlite_dialect c = u) cs)" for cs
    by (induction cs) (simp_all add: pg_dialect_def sqlite_dialect_def pg_candidate_values_def)
  then show ?thesis by (simp add: find_candidate_def)
qed

lemma insert_candidate_agrees:
  assumes "insert_candidate sqlite_dialect c st = Inr st'" "di_not_null pg_dialect c"
  shows "insert_candidate pg_dialect c (as_pg st) = Inr (as_pg st')"
proof -
  have "list_ex (\<lambda>x. di_uuid pg_dialect x = u \<or> di_clash pg_dialect x y) (map pg_candidate_values cs) =
      list_ex (\<lambda>x. mc_uuid x = u) cs" for u y cs
    by (induction cs) (simp_all add: pg_dialect_def pg_candidate_values_def)
  with assms show ?thesis
    by (auto simp: insert_candidate_def raise_if_def sqlite_dialect_def list_ex_iff as_pg_updates pg_dialect_def split: if_splits)
qed

lemma create_agrees:
  assumes ok: "create_and_link sqlite_dialect D F p c items a now st = Inr (r, st')"
    and admits: "pg_admits (CreateAndLink p c items a) st"
  shows "create_and_link pg_dialect D F p c items a now (as_pg st) = Inr (r, as_pg st')"
proof -
  let ?pid = "pp_proposal_id p"
  from ok obtain es where es: "validate_candidate_binding D p c items = Inr es" by (auto simp: create_and_link_def)
  from ok es obtain l where l: "find_link st ?pid = Some l" by (auto simp: create_and_link_def Let_def split: option.splits)
  have auth: "assert_candidate_authority (as_pg st) a = assert_candidate_authority st a"
    by (simp add: assert_candidate_authority_def split: option.split)
  have link: "link_candidate pid now (as_pg s) = as_pg (link_candidate pid now s)" for pid s
    by (simp add: link_candidate_def as_pg_def)
  from es admits have ev: "list_all (di_evidence_ok pg_dialect (as_pg st)) es"
    by (auto simp: validate_candidate_binding_Inr list_all_iff pg_dialect_def)
  note common = create_and_link_def Let_def es l auth find_candidate_pg
  show ?thesis
  proof (cases "lk_state l")
    case CANDIDATE_LINKED
    with ok existing_agrees show ?thesis by (fastforce simp: common split: option.splits)
  next
    case CREATION_ATTEMPTED
    show ?thesis
    proof (cases "find_candidate sqlite_dialect st ?pid")
      case None
      with ok CREATION_ATTEMPTED obtain st1 st2 where ins: "insert_candidate sqlite_dialect c st = Inr st1"
          "insert_all_evidence sqlite_dialect es st1 = Inr st2" and st': "st' = link_candidate ?pid now st2"
          and r: "r = (?pid, TS_CREATED)" and hash: "assert_link_row l (lk_item l) (candidate_payload_hash D F c es) = Inr ()"
          and au: "assert_candidate_authority st a = Inr ()"
        by (auto simp: common)
      from insert_candidate_agrees [OF ins(1)] admits
      have 1: "insert_candidate pg_dialect c (as_pg st) = Inr (as_pg st1)" by simp
      from ins(1) have "st1 = st\<lparr>st_candidates := st_candidates st @ [di_row sqlite_dialect c]\<rparr>" by (auto simp: insert_candidate_def)
      with ev evidence_ok_cong [of st st1] have "list_all (di_evidence_ok pg_dialect (as_pg st1)) es" by simp
      from evidence_agrees [OF ins(2) this] 1 None CREATION_ATTEMPTED st' r hash au link show ?thesis by (simp add: common)
    next
      case (Some row)
      with ok CREATION_ATTEMPTED existing_agrees link show ?thesis by (fastforce simp: common)
    qed
  qed
qed

text \<open>
  Property C7 (persistence_layers_agree): whatever the SQLite layer accepts, the PostgreSQL layer
  accepts on the same database with the same target, and the two databases stay the same, provided
  the candidate has the columns and the evidence the kinds and parents that the PostgreSQL schema
  alone requires.
\<close>

theorem persistence_layers_agree:
  assumes "sqlite_exec D F c now st = Inr (r, st')" "pg_admits c st"
  shows "\<exists>r'. fst r' = fst r \<and> pg_exec D F c now (as_pg st) = Inr (r', as_pg st')"
proof (cases c)
  case (PersistPlan plan b)
  with persist_agrees [of D plan b now st r st'] assms(1) show ?thesis by (intro exI [of _ r]) simp
next
  case (ReserveCandidate pid item h)
  with reserve_agrees assms(1) show ?thesis by simp
next
  case (CreateAndLink p cand items a)
  with create_agrees [of D F p cand items a now st r st'] assms show ?thesis by (intro exI [of _ r]) simp
qed

section \<open>A statement made twice\<close>

definition same_statement :: "memory_candidate \<Rightarrow> memory_candidate \<Rightarrow> bool" where
  "same_statement x c \<longleftrightarrow> mc_processing_run x = mc_processing_run c \<and> mc_text_unit x = mc_text_unit c \<and>
     mc_type x = mc_type c \<and> mc_normalized_text x = mc_normalized_text c"

definition statements_unique :: "memory_candidate coverage_store \<Rightarrow> bool" where
  "statements_unique st \<longleftrightarrow> (\<forall>x \<in> set (st_candidates st). \<forall>y \<in> set (st_candidates st).
     same_statement x y \<longrightarrow> mc_uuid x = mc_uuid y)"

lemma candidates_frame:
  "sqlite_persist_plan D plan b now st = Inr (r, st') \<Longrightarrow> st_candidates st' = st_candidates st"
  "sqlite_reserve pid item h now st = Inr (r, st') \<Longrightarrow> st_candidates st' = st_candidates st"
proof -
  assume "sqlite_persist_plan D plan b now st = Inr (r, st')"
  then show "st_candidates st' = st_candidates st"
    by (auto simp: sqlite_persist_plan_def Let_def dest!: insert_run_Inr insert_items_Inr split: option.splits)
next
  assume "sqlite_reserve pid item h now st = Inr (r, st')"
  then show "st_candidates st' = st_candidates st"
    by (auto simp: sqlite_reserve_def insert_link_def split: option.splits)
qed

lemma insert_candidate_unique:
  assumes "insert_candidate sqlite_dialect c st = Inr st'"
  shows "st_candidates st' = st_candidates st @ [c] \<and> (\<forall>x \<in> set (st_candidates st). \<not> same_statement x c)"
  using assms by (auto simp: insert_candidate_def sqlite_dialect_def list_ex_iff same_statement_def)

lemma create_candidates:
  assumes "create_and_link sqlite_dialect D F p c items a now st = Inr (r, st')"
  shows "st_candidates st' = st_candidates st \<or>
     (st_candidates st' = st_candidates st @ [c] \<and> (\<forall>x \<in> set (st_candidates st). \<not> same_statement x c))"
proof -
  let ?pid = "pp_proposal_id p"
  from assms obtain es where es: "validate_candidate_binding D p c items = Inr es" by (auto simp: create_and_link_def)
  from assms es obtain l where l: "find_link st ?pid = Some l" by (auto simp: create_and_link_def Let_def split: option.splits)
  note common = create_and_link_def Let_def es l
  consider "lk_state l = CANDIDATE_LINKED" | "lk_state l = CREATION_ATTEMPTED" "find_candidate sqlite_dialect st ?pid = None"
    | row where "lk_state l = CREATION_ATTEMPTED" "find_candidate sqlite_dialect st ?pid = Some row"
    by (cases "lk_state l"; cases "find_candidate sqlite_dialect st ?pid") auto
  then show ?thesis
  proof cases
    case 1
    with assms show ?thesis by (auto simp: common split: option.splits)
  next
    case 2
    with assms obtain st1 st2 where ins: "insert_candidate sqlite_dialect c st = Inr st1"
        "insert_all_evidence sqlite_dialect es st1 = Inr st2" "st' = link_candidate ?pid now st2"
      by (auto simp: common)
    from conjunct1 [OF insert_all_evidence_Inr [OF ins(2)]] have "st_candidates st2 = st_candidates st1" by simp
    with ins(3) insert_candidate_unique [OF ins(1)] show ?thesis by (simp add: link_candidate_def)
  next
    case 3
    with assms show ?thesis by (auto simp: common link_candidate_def)
  qed
qed

lemma create_keeps_unique:
  assumes "create_and_link sqlite_dialect D F p c items a now st = Inr (r, st')" "statements_unique st"
  shows "statements_unique st'"
proof -
  have sym: "same_statement x y \<Longrightarrow> same_statement y x" for x y by (simp add: same_statement_def)
  from create_candidates [OF assms(1)] show ?thesis
  proof
    assume "st_candidates st' = st_candidates st"
    with assms(2) show ?thesis by (simp add: statements_unique_def)
  next
    assume "st_candidates st' = st_candidates st @ [c] \<and> (\<forall>x \<in> set (st_candidates st). \<not> same_statement x c)"
    with assms(2) show ?thesis by (auto simp: statements_unique_def dest: sym)
  qed
qed

lemma history_unique:
  "worker_steps (sqlite_exec D F) st st' \<Longrightarrow> statements_unique st \<Longrightarrow> statements_unique st'"
proof (induction rule: rtranclp_induct)
  case (step x y)
  note u = step(3) [OF step(4)]
  from step(2) show ?case
  proof (cases rule: worker_step.cases)
    case (command c now r)
    show ?thesis
    proof (cases c)
      case (PersistPlan plan b)
      with command candidates_frame(1) have "st_candidates y = st_candidates x" by simp
      with u show ?thesis by (simp add: statements_unique_def)
    next
      case (ReserveCandidate pid item h)
      with command candidates_frame(2) have "st_candidates y = st_candidates x" by simp
      with u show ?thesis by (simp add: statements_unique_def)
    next
      case (CreateAndLink p k items a)
      with command create_keeps_unique u show ?thesis by simp
    qed
  qed (use u in \<open>simp_all add: statements_unique_def\<close>)
qed simp

text \<open>
  Property C38 (repeated_statement_never_linked): in the SQLite layer, once a text unit has a
  candidate for a statement, a second proposal of the same run, unit, type and normalized text can
  never be turned into its candidate, whatever happens in between and however often it is retried.
  The planner makes such proposals: the instance plans a message that says the same thing twice in
  one text unit.  The PostgreSQL table has no such index.
\<close>

theorem repeated_statement_never_linked:
  assumes "empty_tables st0" "worker_steps (sqlite_exec D F) st0 st" "x \<in> set (st_candidates st)"
    and "same_statement x c" "mc_uuid x \<noteq> mc_uuid c" "worker_steps (sqlite_exec D F) st st'"
  shows "\<exists>e. sqlite_exec D F (CreateAndLink p c items a) now st' = Inl e"
proof (rule ccontr)
  assume "\<not> ?thesis"
  then obtain r st2 where ok: "sqlite_exec D F (CreateAndLink p c items a) now st' = Inr (r, st2)"
    by (cases "sqlite_exec D F (CreateAndLink p c items a) now st'") auto
  from assms(2,6) have steps: "worker_steps (sqlite_exec D F) st0 st'" by simp
  from sqlite_history [OF steps empty_inv [OF assms(1)]] have inv: "store_inv sqlite_dialect D F st'" by simp
  from sqlite_history [OF assms(2) empty_inv [OF assms(1)]] sqlite_history [OF assms(6)]
  have "store_grows sqlite_dialect st st'" by simp
  moreover from sqlite_command_step [OF inv ok] have "store_grows sqlite_dialect st' st2" by blast
  ultimately have "store_grows sqlite_dialect st st2" by (rule store_grows_trans)
  with assms(3) have x: "x \<in> set (st_candidates st2)" by (auto simp: store_grows_def dest!: appended_subset)
  from ok have ok': "create_and_link sqlite_dialect D F p c items a now st' = Inr (r, st2)" by simp
  from lite.created_settled [OF inv ok'] obtain row es u where
    row: "find_candidate sqlite_dialect st2 (pp_proposal_id p) = Some row"
      "assert_existing_candidate sqlite_dialect st2 row c es = Inr u"
    unfolding lite.candidate_settled_def by blast
  from row(2) have "row = c\<lparr>mc_created_at := mc_created_at row\<rparr>"
    by (auto simp: assert_existing_candidate_def Let_def sqlite_dialect_def)
  then obtain t where same: "row = c\<lparr>mc_created_at := t\<rparr>" by blast
  have "statements_unique st0" using assms(1) by (simp add: statements_unique_def empty_tables_def)
  with history_unique [OF steps] create_keeps_unique [OF ok'] have "statements_unique st2" by blast
  moreover from find_SomeD [OF row(1) [unfolded find_candidate_def]] have "row \<in> set (st_candidates st2)" by simp
  moreover have "same_statement x row" "mc_uuid row = mc_uuid c"
    using assms(4) by (simp_all add: same_statement_def same)
  ultimately show False using x assms(5) by (auto simp: statements_unique_def)
qed

section \<open>A message that says one thing twice\<close>

definition demo_echo :: planner_input where
  "demo_echo = demo_planner_input\<lparr>pi_authorities := [demo_authority ''t1'' 0 19],
     pi_analysis := demo_analysis\<lparr>sa_semantic_units :=
       map (\<lambda>u. u\<lparr>su_proposition := lit ''Use tabs.''\<rparr>) (sa_semantic_units demo_analysis)\<rparr>\<rparr>"

definition demo_bindings :: "coverage_plan \<Rightarrow> persistence_bindings" where
  "demo_bindings plan = \<lparr>pb_message_version = None, pb_envelope_version = ''memorist.text.envelope.v3'',
     pb_fingerprints = [(lit ''u1'', ''f1''), (lit ''u2'', ''f2'')],
     pb_annotations = map (\<lambda>i. (it_id i, None)) (cp_items plan),
     pb_mapping_version = ROUTE_CANDIDATE_MAPPING_VERSION, pb_provenance_version = PROVENANCE_POLICY_VERSION,
     pb_privacy_version = ''wp02-privacy-ceiling-v1''\<rparr>"

definition item_of_proposal :: "coverage_plan \<Rightarrow> candidate_proposal \<Rightarrow> string" where
  "item_of_proposal plan p = (case List.find (\<lambda>i. it_proposal_id i = Some (pp_proposal_id p)) (cp_items plan) of
     Some i \<Rightarrow> it_id i | None \<Rightarrow> [])"

text \<open>The plan, then a reservation and a candidate for each of its two proposals.\<close>

definition echo_commands :: "coverage_command list" where
  "echo_commands = (case plan_candidate_coverage demo_digests demo_unidb demo_echo of
     Inr (plan, ps) \<Rightarrow> PersistPlan plan (demo_bindings plan) # concat (map (\<lambda>p.
       case build_candidate_from_proposal ''e'' ''t0'' p ''run1'' of
         Inr (c, e) \<Rightarrow> candidate_commands demo_digests (\<lambda>_ _. []) p (item_of_proposal plan p) c e None
       | Inl _ \<Rightarrow> []) ps)
   | Inl _ \<Rightarrow> [])"

definition demo_store :: "'c coverage_store" where
  "demo_store = \<lparr>st_parent = (\<lambda>_ _. True), st_gates = [\<lparr>gr_uuid = ''g1'', gr_text_unit = ''t1'',
       gr_processing_run = ''run1'', gr_decision = ''analyze''\<rparr>],
     st_routes = [], st_runs = [], st_items = [], st_links = [], st_candidates = [], st_evidence = []\<rparr>"

definition demo_sqlite ::
  "coverage_command list \<Rightarrow> memory_candidate coverage_store \<Rightarrow> (coverage_error, memory_candidate coverage_store) result" where
  "demo_sqlite cs = run_commands (sqlite_exec demo_digests (\<lambda>_ _. [])) (map (\<lambda>c. (c, ''t1'')) cs)"

definition echo_report :: "coverage_command list \<Rightarrow> bool" where
  "echo_report cs \<longleftrightarrow> length cs = 5 \<and> pg_admits (cs ! 0) demo_store \<and>
     (case demo_sqlite (take 3 cs) demo_store of Inl _ \<Rightarrow> False
      | Inr st \<Rightarrow> length (st_candidates st) = 1 \<and>
          (case cs ! 4 of
             CreateAndLink p c es a \<Rightarrow> same_statement (st_candidates st ! 0) c \<and> mc_uuid (st_candidates st ! 0) \<noteq> mc_uuid c
           | _ \<Rightarrow> False))"

lemma echo_evaluated: "echo_report echo_commands"
  by code_simp

lemma demo_store_empty: "empty_tables demo_store"
  by (simp add: empty_tables_def demo_store_def)

lemma run_commands_steps: "run_commands exec cs st = Inr st' \<Longrightarrow> worker_steps exec st st'"
proof (induction cs arbitrary: st)
  case (Cons p cs)
  obtain c t where p: "p = (c, t)" by (cases p)
  with Cons.prems obtain r st1 where "exec c t st = Inr (r, st1)" "run_commands exec cs st1 = Inr st'" by auto
  with Cons.IH show ?case by (meson command converse_rtranclp_into_rtranclp)
qed simp

lemma echo_cases:
  obtains p c es a st x where "length echo_commands = 5" "echo_commands ! 4 = CreateAndLink p c es a"
    "demo_sqlite (take 3 echo_commands) demo_store = Inr st" "x \<in> set (st_candidates st)" "same_statement x c"
    "mc_uuid x \<noteq> mc_uuid c" "pg_admits (echo_commands ! 0) demo_store"
proof -
  from echo_evaluated obtain st where 1: "demo_sqlite (take 3 echo_commands) demo_store = Inr st"
    by (auto simp: echo_report_def split: sum.splits)
  with echo_evaluated obtain p c es a where 2: "echo_commands ! 4 = CreateAndLink p c es a"
    by (auto simp: echo_report_def split: coverage_command.splits)
  with echo_evaluated 1 have 3: "length echo_commands = 5" "length (st_candidates st) = 1"
    "same_statement (st_candidates st ! 0) c" "mc_uuid (st_candidates st ! 0) \<noteq> mc_uuid c" "pg_admits (echo_commands ! 0) demo_store"
    by (simp_all add: echo_report_def)
  from that [OF 3(1) 2 1 _ 3(3-5)] 3(2) show ?thesis by simp
qed

lemma take_three: "length xs = 5 \<Longrightarrow> take 3 xs = xs ! 0 # tl (take 3 xs)"
  by (cases xs) (auto simp: numeral_eq_Suc)

theorem crashed_persistence_resumes_witness:
  "\<exists>st. demo_sqlite (take 3 echo_commands) demo_store = Inr st \<and>
     demo_sqlite echo_commands st = demo_sqlite (drop 3 echo_commands) st"
proof -
  obtain st where s: "demo_sqlite (take 3 echo_commands) demo_store = Inr st" by (rule echo_cases)
  from crashed_persistence_resumes [OF demo_store_empty _ s [unfolded demo_sqlite_def], of _
      "map (\<lambda>c. (c, ''t1'')) (take 3 echo_commands)" "map (\<lambda>c. (c, ''t1'')) (drop 3 echo_commands)"]
  have "demo_sqlite echo_commands st = demo_sqlite (drop 3 echo_commands) st"
    unfolding demo_sqlite_def map_append [symmetric] append_take_drop_id by simp
  with s show ?thesis by blast
qed

theorem candidates_audited_witness:
  "\<exists>st x. demo_sqlite (take 3 echo_commands) demo_store = Inr st \<and> x \<in> set (st_candidates st) \<and>
     (\<exists>link \<in> set (st_links st). lk_hash link =
        candidate_payload_hash demo_digests (\<lambda>_ _. []) x (candidate_evidence_rows st (mc_uuid x)))"
proof -
  obtain st x where s: "demo_sqlite (take 3 echo_commands) demo_store = Inr st" "x \<in> set (st_candidates st)"
    by (rule echo_cases)
  from candidates_audited [OF demo_store_empty run_commands_steps [OF s(1) [unfolded demo_sqlite_def]] s(2)]
  have "\<exists>link \<in> set (st_links st). lk_hash link =
     candidate_payload_hash demo_digests (\<lambda>_ _. []) x (candidate_evidence_rows st (mc_uuid x))" by auto
  with s show ?thesis by blast
qed

theorem persistence_layers_agree_witness:
  "\<exists>r st. sqlite_exec demo_digests (\<lambda>_ _. []) (echo_commands ! 0) ''t1'' demo_store = Inr (r, st) \<and>
     (\<exists>r'. fst r' = fst r \<and> pg_exec demo_digests (\<lambda>_ _. []) (echo_commands ! 0) ''t1'' (as_pg demo_store) = Inr (r', as_pg st))"
proof -
  obtain st where s: "demo_sqlite (take 3 echo_commands) demo_store = Inr st" and ok: "pg_admits (echo_commands ! 0) demo_store"
    and len: "length echo_commands = 5" by (rule echo_cases)
  from len have "take 3 echo_commands = echo_commands ! 0 # tl (take 3 echo_commands)" by (rule take_three)
  with s have "demo_sqlite (echo_commands ! 0 # tl (take 3 echo_commands)) demo_store = Inr st" by metis
  then obtain r st1 where c1: "sqlite_exec demo_digests (\<lambda>_ _. []) (echo_commands ! 0) ''t1'' demo_store = Inr (r, st1)"
    by (auto simp: demo_sqlite_def)
  from persistence_layers_agree [OF this ok] c1 show ?thesis by blast
qed

theorem repeated_statement_never_linked_witness:
  "\<exists>p c es a st. echo_commands ! 4 = CreateAndLink p c es a \<and>
     demo_sqlite (take 3 echo_commands) demo_store = Inr st \<and>
     (\<exists>e. sqlite_exec demo_digests (\<lambda>_ _. []) (CreateAndLink p c es a) ''t2'' st = Inl e)"
proof -
  obtain p c es a st x where e: "echo_commands ! 4 = CreateAndLink p c es a"
    and s: "demo_sqlite (take 3 echo_commands) demo_store = Inr st" "x \<in> set (st_candidates st)"
      "same_statement x c" "mc_uuid x \<noteq> mc_uuid c" by (rule echo_cases)
  from repeated_statement_never_linked [OF demo_store_empty run_commands_steps [OF s(1) [unfolded demo_sqlite_def]] s(2-4)]
  have "\<exists>e. sqlite_exec demo_digests (\<lambda>_ _. []) (CreateAndLink p c es a) ''t2'' st = Inl e" by simp
  with e s show ?thesis by blast
qed

end
