(* ===== verification/Heapq.thy ===== *)
theory Heapq
  imports Prelude
begin

text \<open>
  The two operations of Python's \<open>heapq\<close> that the scheduler uses, as the library defines them:
  the list has a hole at \<open>pos\<close> that the new item fills at the end.  They rearrange the list and
  neither lose nor invent an element, whatever the order is.
\<close>

function sift_down :: "('a::ord) list \<Rightarrow> nat \<Rightarrow> nat \<Rightarrow> 'a \<Rightarrow> 'a list" where
  "sift_down h start pos new =
     (if start < pos then
        (let parent = (pos - 1) div 2 in
         if new < h ! parent then sift_down (h[pos := h ! parent]) start parent new
         else h[pos := new])
      else h[pos := new])"
  by pat_completeness auto
termination by (relation "measure (\<lambda>(h, start, pos, new). pos)") auto

function sift_up :: "('a::ord) list \<Rightarrow> nat \<Rightarrow> nat \<Rightarrow> 'a \<Rightarrow> 'a list" where
  "sift_up h start pos new =
     (let l = 2 * pos + 1; r = l + 1 in
      if l < length h then
        (let c = (if r < length h \<and> \<not> h ! l < h ! r then r else l) in
         sift_up (h[pos := h ! c]) start c new)
      else sift_down h start pos new)"
  by pat_completeness auto
termination by (relation "measure (\<lambda>(h, start, pos, new). length h - pos)") (auto simp: Let_def)

declare sift_down.simps [simp del] sift_up.simps [simp del]

definition heappush :: "('a::ord) list \<Rightarrow> 'a \<Rightarrow> 'a list" where
  "heappush h x = sift_down (h @ [x]) 0 (length h) x"

definition heapify :: "('a::ord) list \<Rightarrow> 'a list" where
  "heapify h = fold (\<lambda>i h. sift_up h i i (h ! i)) (rev [0..<length h div 2]) h"

text \<open>Moving the hole from \<open>i\<close> to \<open>j\<close>.\<close>

lemma mset_move_hole:
  assumes "i < length h" "j < length h" "i \<noteq> j"
  shows "mset (h[i := h ! j, j := x]) = mset (h[i := x])"
proof -
  have "h[i := h ! j, j := x] = (h[i := x])[i := (h[i := x]) ! j, j := (h[i := x]) ! i]"
    using assms by simp
  then show ?thesis using assms mset_swap [of j "h[i := x]" i] by simp
qed

lemma mset_sift_down: "pos < length h \<Longrightarrow> mset (sift_down h start pos new) = mset (h[pos := new])"
proof (induction h start pos new rule: sift_down.induct)
  case (1 h start pos new)
  show ?case
  proof (cases "start < pos \<and> new < h ! ((pos - 1) div 2)")
    case True
    then have "(pos - 1) div 2 < pos" by linarith
    with True 1 mset_move_hole [of pos h "(pos - 1) div 2" new] show ?thesis
      by (subst sift_down.simps) (simp add: Let_def)
  next
    case False
    then show ?thesis by (subst sift_down.simps) (auto simp: Let_def)
  qed
qed

text \<open>The child that the hole moves to.\<close>

definition smaller_child :: "('a::ord) list \<Rightarrow> nat \<Rightarrow> nat" where
  "smaller_child h pos =
     (if 2 * pos + 2 < length h \<and> \<not> h ! (2 * pos + 1) < h ! (2 * pos + 2) then 2 * pos + 2 else 2 * pos + 1)"

lemma sift_up_child:
  "2 * pos + 1 < length h \<Longrightarrow>
     sift_up h start pos new = sift_up (h[pos := h ! smaller_child h pos]) start (smaller_child h pos) new"
  by (subst sift_up.simps) (simp add: smaller_child_def Let_def)

lemma sift_up_leaf: "\<not> 2 * pos + 1 < length h \<Longrightarrow> sift_up h start pos new = sift_down h start pos new"
  by (subst sift_up.simps) (simp add: Let_def)

lemma smaller_child_less:
  "2 * pos + 1 < length h \<Longrightarrow> smaller_child h pos < length h \<and> pos < smaller_child h pos"
  by (auto simp: smaller_child_def)

lemma mset_sift_up: "pos < length h \<Longrightarrow> mset (sift_up h start pos new) = mset (h[pos := new])"
proof (induction "length h - pos" arbitrary: h pos rule: less_induct)
  case less
  show ?case
  proof (cases "2 * pos + 1 < length h")
    case True
    let ?c = "smaller_child h pos"
    from True have c: "?c < length h" "pos < ?c" by (simp_all add: smaller_child_less)
    have "mset (sift_up (h[pos := h ! ?c]) start ?c new) = mset ((h[pos := h ! ?c])[?c := new])"
      using c by (intro less(1)) simp_all
    with True c mset_move_hole [of pos h ?c new] show ?thesis by (simp add: sift_up_child)
  qed (simp add: sift_up_leaf mset_sift_down less(2))
qed

lemma mset_heapify_fold:
  "\<forall>i \<in> set is. i < length h \<Longrightarrow> mset (fold (\<lambda>i h. sift_up h i i (h ! i)) is h) = mset h"
proof (induction "is" arbitrary: h)
  case (Cons i "is")
  then have m: "mset (sift_up h i i (h ! i)) = mset h" by (simp add: mset_sift_up)
  from m have "length (sift_up h i i (h ! i)) = length h" by (rule mset_eq_length)
  with Cons m show ?case by simp
qed simp

lemma mset_heapify [simp]: "mset (heapify h) = mset h"
  unfolding heapify_def by (rule mset_heapify_fold) auto

lemma mset_heappush [simp]: "mset (heappush h x) = add_mset x (mset h)"
  by (simp add: heappush_def mset_sift_down)

lemma set_heappush [simp]: "set (heappush h x) = insert x (set h)"
  by (metis mset_heappush set_mset_add_mset_insert set_mset_mset)

lemma set_heapify [simp]: "set (heapify h) = set h"
  by (metis mset_heapify set_mset_mset)

end
