(* ===== verification/HotScheduler.thy ===== *)
theory HotScheduler
  imports Heapq Json
begin

text \<open>
  The in-process scheduler of background work (\<open>scheduler/\<close>): lanes and their priorities, a heap of
  queued jobs, the choice of the next job with its bound on consecutive low-priority claims, wait
  metrics and backpressure.  Every method runs under one lock, so a history is a list of
  operations.  A clock reading is a number the code only subtracts; \<open>ms\<close>, an argument, converts a
  difference of readings to whole milliseconds.
\<close>

section \<open>Lanes\<close>

datatype lane =
    CRITICAL_PRIVACY | LIVE_CHAT_CAPTURE | PREFLIGHT_PERSIST | ASSISTANT_CAPTURE | MEMORY_EXTRACTION
  | IMPORT_COMMIT | IMPORT_RECONSTRUCTION | GRAPH_PROJECTION | EMBEDDING_INDEX | BLOCK_REBUILD
  | MAINTENANCE

text \<open>\<open>for lane in SchedulerLane\<close> visits the members in the order of their declaration.\<close>

definition all_lanes :: "lane list" where
  "all_lanes = [CRITICAL_PRIVACY, LIVE_CHAT_CAPTURE, PREFLIGHT_PERSIST, ASSISTANT_CAPTURE,
     MEMORY_EXTRACTION, IMPORT_COMMIT, IMPORT_RECONSTRUCTION, GRAPH_PROJECTION, EMBEDDING_INDEX,
     BLOCK_REBUILD, MAINTENANCE]"

lemma set_all_lanes: "set all_lanes = UNIV"
  by (auto simp: all_lanes_def intro: lane.exhaust)

instantiation lane :: enum
begin

definition enum_lane :: "lane list" where
  "enum_lane = all_lanes"

definition enum_all_lane :: "(lane \<Rightarrow> bool) \<Rightarrow> bool" where
  "enum_all_lane P \<longleftrightarrow> list_all P all_lanes"

definition enum_ex_lane :: "(lane \<Rightarrow> bool) \<Rightarrow> bool" where
  "enum_ex_lane P \<longleftrightarrow> list_ex P all_lanes"

instance
  by standard
    (simp_all only: enum_lane_def enum_all_lane_def enum_ex_lane_def set_all_lanes list_all_iff list_ex_iff,
      simp add: all_lanes_def)

end

fun lane_value :: "lane \<Rightarrow> string" where
  "lane_value CRITICAL_PRIVACY = ''critical_privacy''"
| "lane_value LIVE_CHAT_CAPTURE = ''live_chat_capture''"
| "lane_value PREFLIGHT_PERSIST = ''preflight_persist''"
| "lane_value ASSISTANT_CAPTURE = ''assistant_capture''"
| "lane_value MEMORY_EXTRACTION = ''memory_extraction''"
| "lane_value IMPORT_COMMIT = ''import_commit''"
| "lane_value IMPORT_RECONSTRUCTION = ''import_reconstruction''"
| "lane_value GRAPH_PROJECTION = ''graph_projection''"
| "lane_value EMBEDDING_INDEX = ''embedding_index''"
| "lane_value BLOCK_REBUILD = ''block_rebuild''"
| "lane_value MAINTENANCE = ''maintenance''"

fun lane_priority :: "lane \<Rightarrow> int" where
  "lane_priority CRITICAL_PRIVACY = 110"
| "lane_priority LIVE_CHAT_CAPTURE = 100"
| "lane_priority PREFLIGHT_PERSIST = 95"
| "lane_priority ASSISTANT_CAPTURE = 90"
| "lane_priority MEMORY_EXTRACTION = 60"
| "lane_priority IMPORT_COMMIT = 40"
| "lane_priority IMPORT_RECONSTRUCTION = 30"
| "lane_priority GRAPH_PROJECTION = 25"
| "lane_priority EMBEDDING_INDEX = 25"
| "lane_priority BLOCK_REBUILD = 20"
| "lane_priority MAINTENANCE = 10"

definition LOW_PRIORITY_LANES :: "lane list" where
  "LOW_PRIORITY_LANES = [IMPORT_COMMIT, IMPORT_RECONSTRUCTION, GRAPH_PROJECTION, EMBEDDING_INDEX,
     BLOCK_REBUILD, MAINTENANCE]"

definition HOT_LANES :: "lane list" where
  "HOT_LANES = [CRITICAL_PRIVACY, LIVE_CHAT_CAPTURE, PREFLIGHT_PERSIST, ASSISTANT_CAPTURE]"

section \<open>Wait metrics\<close>

text \<open>A deque of at most 512 waits: appending to a full one drops the oldest.\<close>

definition record_wait :: "int \<Rightarrow> int list \<Rightarrow> int list" where
  "record_wait w ws = (let ws' = ws @ [w] in drop (length ws' - 512) ws')"

text \<open>
  \<open>round\<close> of a quotient, ties to the even neighbour.  With at most 512 values the float product
  \<open>(percentile / 100) * (n - 1)\<close> errs by less than half a unit in the last place, so it is a tie
  exactly where the rational number is one.
\<close>

definition round_quotient :: "nat \<Rightarrow> nat \<Rightarrow> nat" where
  "round_quotient a b =
     (let q = a div b; r = a mod b in
      if 2 * r < b then q else if b < 2 * r then q + 1 else if even q then q else q + 1)"

definition percentile :: "int list \<Rightarrow> nat \<Rightarrow> int" where
  "percentile vs p =
     (if vs = [] then 0 else sort vs ! round_quotient (p * (length vs - 1)) 100)"

definition p50 :: "int list \<Rightarrow> int" where
  "p50 ws = percentile ws 50"

definition p95 :: "int list \<Rightarrow> int" where
  "p95 ws = percentile ws 95"

section \<open>Jobs and the scheduler's state\<close>

record hot_job =
  hj_uuid :: string
  hj_lane :: lane
  hj_payload_ref :: "(string \<times> json) list"
  hj_priority :: "int option"
  hj_submitted_at :: int

datatype queued_job = Queued (qj_priority: int) (qj_sequence: nat) (qj_job: hot_job)

definition sort_key_of :: "queued_job \<Rightarrow> int \<times> nat" where
  "sort_key_of q = (qj_priority q, qj_sequence q)"

text \<open>\<open>@dataclass(order=True)\<close> with the job left out of comparisons: an order up to the job.\<close>

instantiation queued_job :: preorder
begin

definition less_eq_queued_job :: "queued_job \<Rightarrow> queued_job \<Rightarrow> bool" where
  "less_eq_queued_job a b \<longleftrightarrow> sort_key_of a \<le> sort_key_of b"

definition less_queued_job :: "queued_job \<Rightarrow> queued_job \<Rightarrow> bool" where
  "less_queued_job a b \<longleftrightarrow> sort_key_of a < sort_key_of b"

instance
proof
  fix a b c :: queued_job
  show "a < b \<longleftrightarrow> a \<le> b \<and> \<not> b \<le> a" unfolding less_eq_queued_job_def less_queued_job_def
    by (rule less_le_not_le)
  show "a \<le> a" unfolding less_eq_queued_job_def by (rule order.refl)
  show "a \<le> b \<Longrightarrow> b \<le> c \<Longrightarrow> a \<le> c" unfolding less_eq_queued_job_def by (rule order.trans)
qed

end

datatype backpressure = Idle | HotLanePending | LowPriorityBacklog

fun backpressure_state :: "backpressure \<Rightarrow> string" where
  "backpressure_state Idle = ''idle''"
| "backpressure_state HotLanePending = ''hot_lane_pending''"
| "backpressure_state LowPriorityBacklog = ''low_priority_backlog''"

fun backpressure_reason :: "backpressure \<Rightarrow> string option" where
  "backpressure_reason Idle = None"
| "backpressure_reason HotLanePending = Some ''hot lanes have runnable work''"
| "backpressure_reason LowPriorityBacklog = Some ''background backlog high''"

record hot_scheduler =
  hs_max_low :: int
  hs_target_wait_ms :: int
  hs_queue :: "queued_job list"
  hs_sequence :: nat
  hs_active :: "(string, string) dict"
  hs_paused :: "lane set"
  hs_metrics :: "lane \<Rightarrow> int list"
  hs_backpressure :: backpressure
  hs_error :: "string option"
  hs_low_streak :: nat

definition new_scheduler :: "int \<Rightarrow> int \<Rightarrow> hot_scheduler" where
  "new_scheduler max_low target =
     \<lparr>hs_max_low = max_low, hs_target_wait_ms = target, hs_queue = [], hs_sequence = 0, hs_active = [],
      hs_paused = {}, hs_metrics = (\<lambda>_. []), hs_backpressure = Idle, hs_error = None, hs_low_streak = 0\<rparr>"

abbreviation qj_lane :: "queued_job \<Rightarrow> lane" where
  "qj_lane q \<equiv> hj_lane (qj_job q)"

section \<open>Operations\<close>

definition refresh_backpressure :: "hot_scheduler \<Rightarrow> hot_scheduler" where
  "refresh_backpressure s =
     (let hot = length (filter (\<lambda>q. qj_lane q \<in> set HOT_LANES) (hs_queue s));
          low = length (filter (\<lambda>q. qj_lane q \<in> set LOW_PRIORITY_LANES) (hs_queue s)) in
      s\<lparr>hs_backpressure := (if 0 < hot then HotLanePending else if 100 < low then LowPriorityBacklog else Idle)\<rparr>)"

definition submit :: "hot_job \<Rightarrow> hot_scheduler \<Rightarrow> hot_scheduler" where
  "submit j s =
     (let n = Suc (hs_sequence s);
          p = (case hj_priority j of None \<Rightarrow> lane_priority (hj_lane j) | Some p \<Rightarrow> p) in
      refresh_backpressure (s\<lparr>hs_sequence := n, hs_queue := heappush (hs_queue s) (Queued (- p) n j)\<rparr>))"

definition candidates :: "hot_scheduler \<Rightarrow> (nat \<times> queued_job) list" where
  "candidates s = filter (\<lambda>(i, q). qj_lane q \<notin> hs_paused s) (enumerate0 (hs_queue s))"

definition hot_candidates :: "hot_scheduler \<Rightarrow> (nat \<times> queued_job) list" where
  "hot_candidates s = filter (\<lambda>(i, q). qj_lane q \<in> set HOT_LANES) (candidates s)"

definition select_next_index :: "hot_scheduler \<Rightarrow> nat option" where
  "select_next_index s =
     (if candidates s = [] then None
      else if hot_candidates s \<noteq> [] \<and> hs_max_low s \<le> int (hs_low_streak s)
      then map_option fst (min_key (sort_key_of \<circ> snd) (hot_candidates s))
      else map_option fst (min_key (sort_key_of \<circ> snd) (candidates s)))"

definition pop_at :: "nat \<Rightarrow> 'a list \<Rightarrow> 'a list" where
  "pop_at i xs = take i xs @ drop (Suc i) xs"

definition claim_next :: "(int \<Rightarrow> int) \<Rightarrow> int \<Rightarrow> string \<Rightarrow> hot_scheduler \<Rightarrow> hot_job option \<times> hot_scheduler" where
  "claim_next ms now worker s =
     (case select_next_index s of
        None \<Rightarrow> (None, s)
      | Some i \<Rightarrow>
          (let q = hs_queue s ! i; j = qj_job q; wait = ms (now - hj_submitted_at j) in
           (Some j, refresh_backpressure (s\<lparr>
              hs_queue := heapify (pop_at i (hs_queue s)),
              hs_metrics := (hs_metrics s)(hj_lane j := record_wait wait (hs_metrics s (hj_lane j))),
              hs_active := dict_set worker (hj_uuid j) (hs_active s),
              hs_low_streak := (if hj_lane j \<in> set LOW_PRIORITY_LANES then Suc (hs_low_streak s) else 0)\<rparr>))))"

definition complete :: "string \<Rightarrow> hot_scheduler \<Rightarrow> hot_scheduler" where
  "complete worker s = s\<lparr>hs_active := dict_pop worker (hs_active s)\<rparr>"

definition pause_lane :: "lane \<Rightarrow> hot_scheduler \<Rightarrow> hot_scheduler" where
  "pause_lane l s = s\<lparr>hs_paused := insert l (hs_paused s)\<rparr>"

definition resume_lane :: "lane \<Rightarrow> hot_scheduler \<Rightarrow> hot_scheduler" where
  "resume_lane l s = s\<lparr>hs_paused := hs_paused s - {l}\<rparr>"

record scheduler_status =
  ss_enabled :: bool
  ss_lane_depths :: "(string \<times> nat) list"
  ss_oldest :: "(string \<times> int) list"
  ss_p50 :: "(string \<times> int) list"
  ss_p95 :: "(string \<times> int) list"
  ss_backpressure :: "string \<times> string option"
  ss_paused :: "string list"
  ss_active :: "(string, string) dict"
  ss_error :: "string option"

definition lane_depth :: "queued_job list \<Rightarrow> lane \<Rightarrow> nat" where
  "lane_depth qs l = length (filter (\<lambda>q. qj_lane q = l) qs)"

definition oldest_age :: "(int \<Rightarrow> int) \<Rightarrow> int \<Rightarrow> queued_job list \<Rightarrow> lane \<Rightarrow> int" where
  "oldest_age ms now qs l =
     fold (\<lambda>q a. if qj_lane q = l then max a (ms (now - hj_submitted_at (qj_job q))) else a) qs 0"

definition status :: "(int \<Rightarrow> int) \<Rightarrow> int \<Rightarrow> hot_scheduler \<Rightarrow> scheduler_status" where
  "status ms now s =
     \<lparr>ss_enabled = True,
      ss_lane_depths = map (\<lambda>l. (lane_value l, lane_depth (hs_queue s) l)) Enum.enum,
      ss_oldest = map (\<lambda>l. (lane_value l, oldest_age ms now (hs_queue s) l)) Enum.enum,
      ss_p50 = map (\<lambda>l. (lane_value l, p50 (hs_metrics s l))) Enum.enum,
      ss_p95 = map (\<lambda>l. (lane_value l, p95 (hs_metrics s l))) Enum.enum,
      ss_backpressure = (backpressure_state (hs_backpressure s), backpressure_reason (hs_backpressure s)),
      ss_paused = sort (map lane_value (filter (\<lambda>l. l \<in> hs_paused s) Enum.enum)),
      ss_active = hs_active s, ss_error = hs_error s\<rparr>"

text \<open>The process-wide registry: one scheduler per profile and store, made on first use.\<close>

record scheduler_settings =
  st_hot_scheduler :: string
  st_runtime_profile :: string
  st_canonical_store :: string
  st_max_low :: int
  st_target_wait_ms :: int

definition scheduler_key :: "scheduler_settings \<Rightarrow> string" where
  "scheduler_key c = st_runtime_profile c @ '':'' @ st_canonical_store c"

definition get_hot_scheduler ::
  "scheduler_settings \<Rightarrow> (string, hot_scheduler) dict \<Rightarrow> hot_scheduler option \<times> (string, hot_scheduler) dict" where
  "get_hot_scheduler c reg =
     (if st_hot_scheduler c = ''disabled'' then (None, reg)
      else (case dict_get reg (scheduler_key c) of
              Some s \<Rightarrow> (Some s, reg)
            | None \<Rightarrow> (let s = new_scheduler (st_max_low c) (st_target_wait_ms c) in
                       (Some s, dict_set (scheduler_key c) s reg))))"

section \<open>Histories\<close>

datatype sched_op =
    Submit hot_job | Claim string int | Complete string | Pause lane | Resume lane

fun sched_step :: "(int \<Rightarrow> int) \<Rightarrow> sched_op \<Rightarrow> hot_scheduler \<times> hot_job list \<Rightarrow> hot_scheduler \<times> hot_job list" where
  "sched_step ms (Submit j) (s, cl) = (submit j s, cl)"
| "sched_step ms (Claim w now) (s, cl) =
     (case claim_next ms now w s of (None, s') \<Rightarrow> (s', cl) | (Some j, s') \<Rightarrow> (s', cl @ [j]))"
| "sched_step ms (Complete w) (s, cl) = (complete w s, cl)"
| "sched_step ms (Pause l) (s, cl) = (pause_lane l s, cl)"
| "sched_step ms (Resume l) (s, cl) = (resume_lane l s, cl)"

definition sched_run :: "(int \<Rightarrow> int) \<Rightarrow> sched_op list \<Rightarrow> hot_scheduler \<times> hot_job list \<Rightarrow> hot_scheduler \<times> hot_job list" where
  "sched_run ms ops st = fold (sched_step ms) ops st"

fun submitted :: "sched_op list \<Rightarrow> hot_job list" where
  "submitted [] = []"
| "submitted (Submit j # ops) = j # submitted ops"
| "submitted (op # ops) = submitted ops"

section \<open>Selection\<close>

text \<open>What may be claimed, and what is preferred among it, without the indexes.\<close>

definition runnable :: "hot_scheduler \<Rightarrow> queued_job list" where
  "runnable s = filter (\<lambda>q. qj_lane q \<notin> hs_paused s) (hs_queue s)"

definition must_prefer_hot :: "hot_scheduler \<Rightarrow> bool" where
  "must_prefer_hot s \<longleftrightarrow>
     (\<exists>q \<in> set (runnable s). qj_lane q \<in> set HOT_LANES) \<and> hs_max_low s \<le> int (hs_low_streak s)"

definition preferred :: "hot_scheduler \<Rightarrow> queued_job list" where
  "preferred s = (if must_prefer_hot s then filter (\<lambda>q. qj_lane q \<in> set HOT_LANES) (runnable s) else runnable s)"

lemma in_candidates:
  "(i, q) \<in> set (candidates s) \<longleftrightarrow> i < length (hs_queue s) \<and> hs_queue s ! i = q \<and> qj_lane q \<notin> hs_paused s"
  by (auto simp: candidates_def in_enumerate0)

lemma snd_candidates: "snd ` set (candidates s) = set (runnable s)"
proof -
  have "q \<in> snd ` set (candidates s)" if "q \<in> set (runnable s)" for q
  proof -
    from that obtain i where "i < length (hs_queue s)" "hs_queue s ! i = q" "qj_lane q \<notin> hs_paused s"
      by (auto simp: runnable_def in_set_conv_nth)
    then have "(i, q) \<in> set (candidates s)" by (simp add: in_candidates)
    then show ?thesis by force
  qed
  moreover have "q \<in> set (runnable s)" if "(i, q) \<in> set (candidates s)" for i q
    using that by (auto simp: in_candidates runnable_def)
  ultimately show ?thesis by auto
qed

lemma snd_hot_candidates:
  "snd ` set (hot_candidates s) = set (filter (\<lambda>q. qj_lane q \<in> set HOT_LANES) (runnable s))"
proof -
  have "snd ` set (hot_candidates s) = {q \<in> snd ` set (candidates s). qj_lane q \<in> set HOT_LANES}"
    by (auto simp: hot_candidates_def)
  then show ?thesis by (simp add: snd_candidates)
qed

lemma candidates_Nil: "candidates s = [] \<longleftrightarrow> runnable s = []"
  using snd_candidates [of s] by auto

lemma must_prefer_hot_iff:
  "must_prefer_hot s \<longleftrightarrow> hot_candidates s \<noteq> [] \<and> hs_max_low s \<le> int (hs_low_streak s)"
proof -
  have "hot_candidates s \<noteq> [] \<longleftrightarrow> (\<exists>q \<in> set (runnable s). qj_lane q \<in> set HOT_LANES)"
  proof -
    have "hot_candidates s \<noteq> [] \<longleftrightarrow> snd ` set (hot_candidates s) \<noteq> {}" by simp
    then show ?thesis unfolding snd_hot_candidates by auto
  qed
  then show ?thesis by (simp add: must_prefer_hot_def)
qed

lemma map_min_key_None: "map_option f (min_key k xs) = None \<longleftrightarrow> xs = []"
  by (cases "min_key k xs") (use min_key_None [of k xs] in auto)

lemma select_None: "select_next_index s = None \<longleftrightarrow> runnable s = []"
  unfolding select_next_index_def
  by (cases "candidates s = []") (simp_all only: candidates_Nil map_min_key_None if_True if_False split: if_split, auto)

lemma select_Some:
  assumes "select_next_index s = Some i"
  shows "i < length (hs_queue s)" "hs_queue s ! i \<in> set (preferred s)"
    "\<forall>q \<in> set (preferred s). sort_key_of (hs_queue s ! i) \<le> sort_key_of q"
proof -
  let ?C = "if must_prefer_hot s then hot_candidates s else candidates s"
  have sub: "set ?C \<subseteq> set (candidates s)" by (auto simp: hot_candidates_def)
  have img: "snd ` set ?C = set (preferred s)"
    by (auto simp: preferred_def snd_candidates snd_hot_candidates)
  from assms obtain q where q: "min_key (sort_key_of \<circ> snd) ?C = Some (i, q)"
    by (auto simp: select_next_index_def must_prefer_hot_iff split: if_splits)
  from min_key_Some [OF q] have m: "(i, q) \<in> set ?C"
    and le: "\<forall>x \<in> set ?C. sort_key_of q \<le> sort_key_of (snd x)" by simp_all
  from m sub have c: "i < length (hs_queue s)" "hs_queue s ! i = q" using in_candidates by blast+
  then show "i < length (hs_queue s)" by simp
  from m have "q \<in> snd ` set ?C" by force
  then show "hs_queue s ! i \<in> set (preferred s)" by (simp add: img c)
  have "\<forall>x \<in> snd ` set ?C. sort_key_of q \<le> sort_key_of x" using le by blast
  then show "\<forall>q \<in> set (preferred s). sort_key_of (hs_queue s ! i) \<le> sort_key_of q" by (simp add: img c)
qed

lemma preferred_subset: "set (preferred s) \<subseteq> set (runnable s)" "set (runnable s) \<subseteq> set (hs_queue s)"
  by (auto simp: preferred_def runnable_def)

lemma mset_pop_at: "i < length xs \<Longrightarrow> add_mset (xs ! i) (mset (pop_at i xs)) = mset xs"
proof -
  assume "i < length xs"
  then have "xs = take i xs @ xs ! i # drop (Suc i) xs" by (rule id_take_nth_drop)
  then have "mset xs = mset (take i xs @ xs ! i # drop (Suc i) xs)" by simp
  also have "\<dots> = add_mset (xs ! i) (mset (pop_at i xs))" by (simp add: pop_at_def)
  finally show ?thesis by simp
qed

section \<open>The frames of the operations\<close>

lemma refresh_frame [frame_simps]:
  "hs_queue (refresh_backpressure s) = hs_queue s" "hs_sequence (refresh_backpressure s) = hs_sequence s"
  "hs_active (refresh_backpressure s) = hs_active s" "hs_paused (refresh_backpressure s) = hs_paused s"
  "hs_metrics (refresh_backpressure s) = hs_metrics s" "hs_low_streak (refresh_backpressure s) = hs_low_streak s"
  "hs_max_low (refresh_backpressure s) = hs_max_low s"
  by (simp_all add: refresh_backpressure_def Let_def)

lemma submit_frame [frame_simps]:
  "mset (hs_queue (submit j s)) = add_mset (Queued (- (case hj_priority j of None \<Rightarrow> lane_priority (hj_lane j) | Some p \<Rightarrow> p))
     (Suc (hs_sequence s)) j) (mset (hs_queue s))"
  "hs_sequence (submit j s) = Suc (hs_sequence s)" "hs_low_streak (submit j s) = hs_low_streak s"
  "hs_max_low (submit j s) = hs_max_low s" "hs_metrics (submit j s) = hs_metrics s"
  by (simp_all add: submit_def Let_def frame_simps)

lemma lane_frame [frame_simps]:
  "hs_queue (complete w s) = hs_queue s" "hs_sequence (complete w s) = hs_sequence s"
  "hs_low_streak (complete w s) = hs_low_streak s" "hs_max_low (complete w s) = hs_max_low s"
  "hs_queue (pause_lane l s) = hs_queue s" "hs_sequence (pause_lane l s) = hs_sequence s"
  "hs_low_streak (pause_lane l s) = hs_low_streak s" "hs_max_low (pause_lane l s) = hs_max_low s"
  "hs_queue (resume_lane l s) = hs_queue s" "hs_sequence (resume_lane l s) = hs_sequence s"
  "hs_low_streak (resume_lane l s) = hs_low_streak s" "hs_max_low (resume_lane l s) = hs_max_low s"
  by (simp_all add: complete_def pause_lane_def resume_lane_def)

lemma claim_None:
  "claim_next ms now w s = (None, s') \<Longrightarrow> runnable s = [] \<and> s' = s"
  by (auto simp: claim_next_def Let_def select_None split: option.splits)

lemma claim_Some:
  assumes "claim_next ms now w s = (Some j, s')"
  obtains q where "qj_job q = j" "q \<in> set (preferred s)" "\<forall>q' \<in> set (preferred s). sort_key_of q \<le> sort_key_of q'"
    "add_mset q (mset (hs_queue s')) = mset (hs_queue s)" "hs_sequence s' = hs_sequence s"
    "hs_max_low s' = hs_max_low s" "hs_paused s' = hs_paused s"
    "hs_active s' = dict_set w (hj_uuid j) (hs_active s)"
    "hs_low_streak s' = (if hj_lane j \<in> set LOW_PRIORITY_LANES then Suc (hs_low_streak s) else 0)"
proof -
  from assms obtain i where i: "select_next_index s = Some i" and j: "j = qj_job (hs_queue s ! i)"
    by (auto simp: claim_next_def Let_def split: option.splits)
  note sel = select_Some [OF i]
  show thesis
  proof (rule that [of "hs_queue s ! i"])
    show "add_mset (hs_queue s ! i) (mset (hs_queue s')) = mset (hs_queue s)"
      using assms i j mset_pop_at [OF sel(1)] by (auto simp: claim_next_def Let_def frame_simps)
  qed (use assms i j sel in \<open>auto simp: claim_next_def Let_def frame_simps\<close>)
qed

text \<open>
  Property C26 (claim_most_urgent): a claim returns nothing exactly when every queued job is in a
  paused lane, and then changes nothing.  Otherwise it chooses among the jobs of unpaused lanes, or
  among the hot ones of them alone when there is one and as many low-priority jobs as the bound
  allows went before; it returns the first of its choice by priority and then by submission, that
  job and nothing else leaves the queue, the worker is recorded with it, and the count of
  low-priority claims goes on or starts again.
\<close>

theorem claim_most_urgent:
  assumes "claim_next ms now w s = (r, s')"
  shows "(r = None \<longleftrightarrow> (\<forall>q \<in> set (hs_queue s). qj_lane q \<in> hs_paused s)) \<and>
    (r = None \<longrightarrow> s' = s) \<and>
    (\<forall>j. r = Some j \<longrightarrow>
      (let unpaused = {q \<in> set (hs_queue s). qj_lane q \<notin> hs_paused s};
           hot = {q \<in> unpaused. qj_lane q \<in> set HOT_LANES};
           choice = (if hot \<noteq> {} \<and> hs_max_low s \<le> int (hs_low_streak s) then hot else unpaused) in
       \<exists>q \<in> choice. qj_job q = j \<and> (\<forall>q' \<in> choice. sort_key_of q \<le> sort_key_of q') \<and>
         mset (hs_queue s) = add_mset q (mset (hs_queue s')) \<and> dict_get (hs_active s') w = Some (hj_uuid j) \<and>
         hs_low_streak s' = (if hj_lane j \<in> set LOW_PRIORITY_LANES then Suc (hs_low_streak s) else 0)))"
proof (cases r)
  case None
  with assms claim_None [of ms now w s s'] show ?thesis by (auto simp: runnable_def filter_empty_conv)
next
  case (Some j)
  with assms obtain q where q: "qj_job q = j" "q \<in> set (preferred s)"
    "\<forall>q' \<in> set (preferred s). sort_key_of q \<le> sort_key_of q'"
    "add_mset q (mset (hs_queue s')) = mset (hs_queue s)"
    "hs_active s' = dict_set w (hj_uuid j) (hs_active s)"
    "hs_low_streak s' = (if hj_lane j \<in> set LOW_PRIORITY_LANES then Suc (hs_low_streak s) else 0)"
    by (metis claim_Some)
  have runnable: "\<exists>q \<in> set (hs_queue s). qj_lane q \<notin> hs_paused s"
    using q(2) preferred_subset(1) [of s] by (auto simp: runnable_def)
  have choice: "set (preferred s) =
      (if {q \<in> {q \<in> set (hs_queue s). qj_lane q \<notin> hs_paused s}. qj_lane q \<in> set HOT_LANES} \<noteq> {} \<and>
          hs_max_low s \<le> int (hs_low_streak s)
       then {q \<in> {q \<in> set (hs_queue s). qj_lane q \<notin> hs_paused s}. qj_lane q \<in> set HOT_LANES}
       else {q \<in> set (hs_queue s). qj_lane q \<notin> hs_paused s})"
    by (auto simp: preferred_def must_prefer_hot_def runnable_def)
  have "\<exists>q \<in> set (preferred s). qj_job q = j \<and> (\<forall>q' \<in> set (preferred s). sort_key_of q \<le> sort_key_of q') \<and>
      mset (hs_queue s) = add_mset q (mset (hs_queue s')) \<and> dict_get (hs_active s') w = Some (hj_uuid j) \<and>
      hs_low_streak s' = (if hj_lane j \<in> set LOW_PRIORITY_LANES then Suc (hs_low_streak s) else 0)"
    using q by (intro bexI [of _ q]) simp_all
  then show ?thesis using Some runnable unfolding choice Let_def by auto
qed

section \<open>Histories: conservation, streaks, draining\<close>

definition jobs_of :: "hot_scheduler \<Rightarrow> hot_job multiset" where
  "jobs_of s = image_mset qj_job (mset (hs_queue s))"

definition low_suffix :: "hot_job list \<Rightarrow> nat" where
  "low_suffix cl = length (takeWhile (\<lambda>j. hj_lane j \<in> set LOW_PRIORITY_LANES) (rev cl))"

text \<open>Sequence numbers are unique and none is above the counter; the streak counts the
  low-priority claims at the end of the history.\<close>

definition sched_inv :: "hot_scheduler \<times> hot_job list \<Rightarrow> bool" where
  "sched_inv st \<longleftrightarrow>
     (let s = fst st in
      distinct (map qj_sequence (hs_queue s)) \<and> (\<forall>q \<in> set (hs_queue s). qj_sequence q \<le> hs_sequence s) \<and>
      hs_low_streak s = low_suffix (snd st))"

lemma distinct_sequences_add:
  assumes "mset qs = add_mset q (mset qs')"
  shows "distinct (map qj_sequence qs) \<longleftrightarrow> qj_sequence q \<notin> qj_sequence ` set qs' \<and> distinct (map qj_sequence qs')"
proof -
  have "mset qs = mset (q # qs')" using assms by simp
  from distinct_map_mset [OF this, of qj_sequence] show ?thesis by simp
qed

lemma low_suffix_snoc:
  "low_suffix (cl @ [j]) = (if hj_lane j \<in> set LOW_PRIORITY_LANES then Suc (low_suffix cl) else 0)"
  by (simp add: low_suffix_def)

lemma step_inv:
  assumes "sched_inv st"
  shows "sched_inv (sched_step ms op st)"
proof (cases st)
  case (Pair s cl)
  show ?thesis
  proof (cases op)
    case (Submit j)
    have "distinct (map qj_sequence (hs_queue (submit j s))) \<longleftrightarrow>
        Suc (hs_sequence s) \<notin> qj_sequence ` set (hs_queue s) \<and> distinct (map qj_sequence (hs_queue s))"
      by (subst distinct_sequences_add [OF submit_frame(1)]) simp
    moreover have "q \<in> set (hs_queue (submit j s)) \<Longrightarrow> qj_sequence q \<le> Suc (hs_sequence s)" for q
      using assms Pair arg_cong [OF submit_frame(1) [of j s], of set_mset]
      by (fastforce simp: sched_inv_def Let_def)
    ultimately show ?thesis using assms
      by (fastforce simp: Submit Pair sched_inv_def Let_def frame_simps)
  next
    case (Claim w now)
    obtain r s' where c: "claim_next ms now w s = (r, s')" by (cases "claim_next ms now w s")
    show ?thesis
    proof (cases r)
      case None
      with c claim_None [of ms now w s s'] assms show ?thesis by (simp add: Claim Pair)
    next
      case (Some j)
      from c [unfolded Some] obtain q where q: "qj_job q = j" "add_mset q (mset (hs_queue s')) = mset (hs_queue s)"
        "hs_sequence s' = hs_sequence s"
        "hs_low_streak s' = (if hj_lane j \<in> set LOW_PRIORITY_LANES then Suc (hs_low_streak s) else 0)"
        by (rule claim_Some)
      have "set (hs_queue s) = insert q (set (hs_queue s'))"
        using arg_cong [OF q(2), of set_mset] by simp
      with assms c Some Pair q(3,4) distinct_sequences_add [OF q(2) [symmetric]] show ?thesis
        by (auto simp: Claim sched_inv_def Let_def low_suffix_snoc)
    qed
  qed (use assms Pair in \<open>simp_all add: sched_inv_def Let_def frame_simps\<close>)
qed

lemma run_inv: "sched_inv st \<Longrightarrow> sched_inv (sched_run ms ops st)"
  unfolding sched_run_def by (induction ops arbitrary: st) (simp_all add: step_inv)

lemma new_inv: "sched_inv (new_scheduler m t, [])"
  by (simp add: sched_inv_def new_scheduler_def low_suffix_def)

lemma step_max: "hs_max_low (fst (sched_step ms op st)) = hs_max_low (fst st)"
proof (cases st; cases op)
  fix s cl w now assume [simp]: "st = (s, cl)" "op = Claim w now"
  obtain r s' where c: "claim_next ms now w s = (r, s')" by (cases "claim_next ms now w s")
  show ?thesis
  proof (cases r)
    case None
    with c claim_None [of ms now w s s'] show ?thesis by simp
  next
    case (Some j)
    from c [unfolded Some] have "hs_max_low s' = hs_max_low s" by (rule claim_Some)
    with c Some show ?thesis by simp
  qed
qed (simp_all add: frame_simps)

lemma run_max: "hs_max_low (fst (sched_run ms ops st)) = hs_max_low (fst st)"
  unfolding sched_run_def by (induction ops arbitrary: st) (simp_all add: step_max)

lemma step_jobs:
  assumes "sched_step ms op (s, cl) = (s', cl')"
  shows "jobs_of s' + mset cl' = jobs_of s + mset cl + mset (submitted [op])"
proof (cases op)
  case (Claim w now)
  obtain r s1 where c: "claim_next ms now w s = (r, s1)" by (cases "claim_next ms now w s")
  show ?thesis
  proof (cases r)
    case None
    with c assms claim_None [of ms now w s s1] show ?thesis by (simp add: Claim)
  next
    case (Some j)
    from c [unfolded Some] obtain q where q: "qj_job q = j" "add_mset q (mset (hs_queue s1)) = mset (hs_queue s)"
      by (rule claim_Some)
    then have "jobs_of s = add_mset j (jobs_of s1)" by (simp add: jobs_of_def flip: q(2))
    moreover have "s' = s1" "cl' = cl @ [j]" using c Some assms by (simp_all add: Claim)
    ultimately show ?thesis by (simp add: Claim)
  qed
qed (use assms in \<open>auto simp: jobs_of_def frame_simps\<close>)

lemma submitted_Cons: "submitted (op # ops) = submitted [op] @ submitted ops"
  by (cases op) simp_all

lemma run_jobs:
  "sched_run ms ops (s, cl) = (s', cl') \<Longrightarrow> jobs_of s' + mset cl' = jobs_of s + mset cl + mset (submitted ops)"
proof (induction ops arbitrary: s cl)
  case Nil
  then show ?case by (simp add: sched_run_def)
next
  case (Cons op ops)
  obtain s1 cl1 where st: "sched_step ms op (s, cl) = (s1, cl1)" by (cases "sched_step ms op (s, cl)")
  with Cons.prems have "sched_run ms ops (s1, cl1) = (s', cl')" by (simp add: sched_run_def)
  from Cons.IH [OF this] step_jobs [OF st] show ?case by (simp add: submitted_Cons [of op ops])
qed

text \<open>
  Property C27 (scheduler_conserves_jobs): in any history the submitted jobs are exactly the
  claimed ones and those still queued, each as often as it was submitted, and no two queued
  entries share a sequence number, so the order among them is total.
\<close>

theorem scheduler_conserves_jobs:
  assumes "sched_run ms ops (new_scheduler m t, []) = (s, cl)"
  shows "mset (submitted ops) = mset cl + image_mset qj_job (mset (hs_queue s)) \<and>
    inj_on sort_key_of (set (hs_queue s)) \<and> distinct (hs_queue s)"
proof -
  have "jobs_of s + mset cl = mset (submitted ops)"
    using run_jobs [OF assms] by (simp add: jobs_of_def new_scheduler_def)
  then have cons: "mset (submitted ops) = mset cl + image_mset qj_job (mset (hs_queue s))"
    by (simp add: jobs_of_def add.commute)
  have d: "distinct (map qj_sequence (hs_queue s))"
    using run_inv [OF new_inv, of ms ops m t] assms by (simp add: sched_inv_def Let_def)
  then have "inj_on qj_sequence (set (hs_queue s))" by (simp add: distinct_map)
  then have "inj_on sort_key_of (set (hs_queue s))" by (auto simp: inj_on_def sort_key_of_def)
  with cons d show ?thesis by (simp add: distinct_map)
qed

text \<open>
  Also proved (hot_after_low_streak): once the last claims of a history were low-priority as often
  as the bound allows, the next claim is a hot job whenever an unpaused lane holds one, whatever
  priorities the jobs carry.
\<close>

theorem hot_after_low_streak:
  assumes "sched_run ms ops (new_scheduler m t, []) = (s, cl)" "m \<le> int (low_suffix cl)"
    and "q \<in> set (hs_queue s)" "qj_lane q \<in> set HOT_LANES" "qj_lane q \<notin> hs_paused s"
    and "claim_next ms now w s = (r, s')"
  shows "\<exists>j. r = Some j \<and> hj_lane j \<in> set HOT_LANES"
proof -
  have run: "q \<in> set (runnable s)" using assms(3,5) by (simp add: runnable_def)
  have "hs_low_streak s = low_suffix cl"
    using run_inv [OF new_inv, of ms ops m t] assms(1) by (simp add: sched_inv_def Let_def)
  moreover have "hs_max_low s = m"
    using run_max [of ms ops "(new_scheduler m t, [])"] assms(1) by (simp add: new_scheduler_def)
  ultimately have hot: "must_prefer_hot s" using assms(2,4) run by (auto simp: must_prefer_hot_def)
  show ?thesis
  proof (cases r)
    case None
    with assms(6) claim_None [of ms now w s s'] run show ?thesis by simp
  next
    case (Some j)
    from assms(6) [unfolded Some] obtain q' where "qj_job q' = j" "q' \<in> set (preferred s)" by (rule claim_Some)
    with hot Some show ?thesis by (auto simp: preferred_def)
  qed
qed

lemma mset_runnable: "mset (runnable s) = filter_mset (\<lambda>q. qj_lane q \<notin> hs_paused s) (mset (hs_queue s))"
  by (simp add: runnable_def)

lemma claim_runnable:
  assumes "claim_next ms now w s = (Some j, s')"
  shows "\<exists>q. qj_job q = j \<and> mset (runnable s) = add_mset q (mset (runnable s'))"
proof -
  from assms obtain q where q: "qj_job q = j" "q \<in> set (preferred s)"
    "add_mset q (mset (hs_queue s')) = mset (hs_queue s)" "hs_paused s' = hs_paused s"
    by (rule claim_Some)
  have "qj_lane q \<notin> hs_paused s" using q(2) preferred_subset(1) [of s] by (auto simp: runnable_def)
  then have "mset (runnable s) = add_mset q (mset (runnable s'))"
    using q(4) by (simp add: mset_runnable flip: q(3))
  with q(1) show ?thesis by blast
qed

definition claims :: "(string \<times> int) list \<Rightarrow> sched_op list" where
  "claims ws = map (\<lambda>(w, now). Claim w now) ws"

lemma run_claims:
  assumes "sched_run ms (claims ws) (s, cl) = (s', cl')"
  shows "\<exists>cs. cl' = cl @ cs \<and> mset cs + image_mset qj_job (mset (runnable s')) = image_mset qj_job (mset (runnable s)) \<and>
    length cs = min (length ws) (length (runnable s))"
  using assms
proof (induction ws arbitrary: s cl)
  case Nil
  then show ?case by (simp add: sched_run_def claims_def)
next
  case (Cons wn ws)
  obtain w now where wn: "wn = (w, now)" by (cases wn)
  obtain r s1 where c: "claim_next ms now w s = (r, s1)" by (cases "claim_next ms now w s")
  show ?case
  proof (cases r)
    case None
    with c claim_None [of ms now w s s1] have s1: "runnable s = []" "s1 = s" by simp_all
    then have "sched_run ms (claims ws) (s, cl) = (s', cl')"
      using Cons.prems c None by (simp add: sched_run_def claims_def wn)
    from Cons.IH [OF this] s1(1) show ?thesis by simp
  next
    case (Some j)
    with Cons.prems c have "sched_run ms (claims ws) (s1, cl @ [j]) = (s', cl')"
      by (simp add: sched_run_def claims_def wn)
    from Cons.IH [OF this] obtain cs where cs: "cl' = (cl @ [j]) @ cs"
      "mset cs + image_mset qj_job (mset (runnable s')) = image_mset qj_job (mset (runnable s1))"
      "length cs = min (length ws) (length (runnable s1))" by blast
    from claim_runnable [OF c [unfolded Some]] obtain q where q: "qj_job q = j"
      "mset (runnable s) = add_mset q (mset (runnable s1))" by blast
    then have "length (runnable s) = Suc (length (runnable s1))" by (metis mset.simps(2) mset_eq_length length_Cons)
    with cs q have "cl' = cl @ (j # cs) \<and> mset (j # cs) + image_mset qj_job (mset (runnable s')) =
        image_mset qj_job (mset (runnable s)) \<and> length (j # cs) = min (length (wn # ws)) (length (runnable s))"
      by simp
    then show ?thesis by blast
  qed
qed

text \<open>
  Property C28 (claims_drain): from any state, as many claims as there are queued jobs in unpaused
  lanes return each of these jobs, none of them twice and no other.
\<close>

theorem claims_drain:
  assumes "length (runnable s) \<le> length ws" "sched_run ms (claims ws) (s, cl) = (s', cl')"
  shows "\<exists>cs. cl' = cl @ cs \<and> mset cs = image_mset qj_job (mset (runnable s)) \<and> runnable s' = []"
proof -
  from run_claims [OF assms(2)] obtain cs where cs: "cl' = cl @ cs"
    "mset cs + image_mset qj_job (mset (runnable s')) = image_mset qj_job (mset (runnable s))"
    "length cs = length (runnable s)" using assms(1) by auto
  from arg_cong [OF cs(2), of size] cs(3) have "runnable s' = []" by simp
  with cs show ?thesis by simp
qed

section \<open>Percentiles\<close>

lemma round_quotient_le: "0 < b \<Longrightarrow> a \<le> k * b \<Longrightarrow> round_quotient a b \<le> k"
proof -
  assume b: "0 < b" and a: "a \<le> k * b"
  have "a div b \<le> k" using a b by (metis div_le_mono div_mult_self_is_m)
  moreover have "a mod b = 0" if "a div b = k"
    using a that by (metis add_le_same_cancel1 le_zero_eq mod_mult_div_eq mult.commute add.commute)
  ultimately show ?thesis using b by (cases "a div b = k") (auto simp: round_quotient_def Let_def)
qed

lemma round_quotient_mono: "a \<le> a' \<Longrightarrow> round_quotient a b \<le> round_quotient a' b"
proof -
  assume le: "a \<le> a'"
  then have q: "a div b \<le> a' div b" by (rule div_le_mono)
  show ?thesis
  proof (cases "a div b = a' div b")
    case True
    with le have "a mod b \<le> a' mod b" by (metis add_le_cancel_right mod_mult_div_eq mult.commute)
    with True show ?thesis by (auto simp: round_quotient_def Let_def)
  next
    case False
    with q show ?thesis by (auto simp: round_quotient_def Let_def)
  qed
qed

lemma percentile_index: "vs \<noteq> [] \<Longrightarrow> p \<le> 100 \<Longrightarrow> round_quotient (p * (length vs - 1)) 100 < length vs"
proof -
  assume "vs \<noteq> []" "p \<le> 100"
  then have "round_quotient (p * (length vs - 1)) 100 \<le> length vs - 1"
    by (intro round_quotient_le) simp_all
  with \<open>vs \<noteq> []\<close> show ?thesis by (cases vs) simp_all
qed

lemma percentile_member: "vs \<noteq> [] \<Longrightarrow> p \<le> 100 \<Longrightarrow> percentile vs p \<in> set vs"
  using percentile_index [of vs p] nth_mem [of "round_quotient (p * (length vs - 1)) 100" "sort vs"]
  by (simp add: percentile_def)

lemma percentile_mono: "p \<le> p' \<Longrightarrow> p' \<le> 100 \<Longrightarrow> percentile vs p \<le> percentile vs p'"
  using percentile_index [of vs p'] round_quotient_mono [of "p * (length vs - 1)" "p' * (length vs - 1)" 100]
  by (simp add: percentile_def sorted_nth_mono)

text \<open>
  Also proved (wait_window_percentiles): recording a wait keeps the window within its 512 places
  with the new wait last, and the percentiles reported are waits of the window, the median not
  above the 95th.
\<close>

theorem wait_window_percentiles:
  "let ws' = record_wait w ws in
     length ws' \<le> 512 \<and> last ws' = w \<and> (\<exists>old. ws = old @ butlast ws') \<and>
     p50 ws' \<in> set ws' \<and> p95 ws' \<in> set ws' \<and> p50 ws' \<le> p95 ws'"
proof -
  let ?n = "length ws + 1 - 512"
  have eq: "record_wait w ws = drop ?n ws @ [w]" by (simp add: record_wait_def Let_def)
  have "ws = take ?n ws @ drop ?n ws" by simp
  then have "\<exists>old. ws = old @ drop ?n ws" by blast
  moreover have "length (drop ?n ws) \<le> 511" by simp
  ultimately show ?thesis
    using percentile_member [of "record_wait w ws" 50] percentile_member [of "record_wait w ws" 95]
      percentile_mono [of 50 95 "record_wait w ws"]
    by (simp add: eq Let_def p50_def p95_def)
qed

section \<open>A concrete run\<close>

definition demo_job :: "string \<Rightarrow> lane \<Rightarrow> int option \<Rightarrow> hot_job" where
  "demo_job u l p = \<lparr>hj_uuid = u, hj_lane = l, hj_payload_ref = [], hj_priority = p, hj_submitted_at = 0\<rparr>"

text \<open>A rebuild with a priority above the live capture goes first, once.\<close>

definition demo_ops :: "sched_op list" where
  "demo_ops = [Submit (demo_job ''a'' BLOCK_REBUILD (Some 500)), Submit (demo_job ''b'' BLOCK_REBUILD (Some 400)),
     Submit (demo_job ''c'' LIVE_CHAT_CAPTURE None), Claim ''w'' 3]"

definition demo_state :: "hot_scheduler \<times> hot_job list" where
  "demo_state = sched_run id demo_ops (new_scheduler 1 100, [])"

lemma demo_state_eval:
  "map qj_lane (hs_queue (fst demo_state)) = [BLOCK_REBUILD, LIVE_CHAT_CAPTURE] \<and>
   map hj_uuid (snd demo_state) = [''a''] \<and> low_suffix (snd demo_state) = 1 \<and> hs_paused (fst demo_state) = {}"
  by code_simp

theorem claim_most_urgent_witness:
  "\<exists>j. fst (claim_next id 5 ''w'' (fst demo_state)) = Some j \<and> hj_lane j = LIVE_CHAT_CAPTURE"
proof -
  obtain r s' where c: "claim_next id 5 ''w'' (fst demo_state) = (r, s')"
    by (cases "claim_next id 5 ''w'' (fst demo_state)")
  have q: "map qj_lane (hs_queue (fst demo_state)) = [BLOCK_REBUILD, LIVE_CHAT_CAPTURE]"
    and p: "hs_paused (fst demo_state) = {}" using demo_state_eval by blast+
  have streak: "hs_max_low (fst demo_state) \<le> int (hs_low_streak (fst demo_state))" by code_simp
  have "LIVE_CHAT_CAPTURE \<in> set (map qj_lane (hs_queue (fst demo_state)))" unfolding q by simp
  then obtain h where h: "h \<in> set (hs_queue (fst demo_state))" "qj_lane h = LIVE_CHAT_CAPTURE" by auto
  have hot: "LIVE_CHAT_CAPTURE \<in> set HOT_LANES" "BLOCK_REBUILD \<notin> set HOT_LANES" by (simp_all add: HOT_LANES_def)
  have lanes: "qj_lane x = LIVE_CHAT_CAPTURE" if "x \<in> set (hs_queue (fst demo_state))" "qj_lane x \<in> set HOT_LANES" for x
  proof -
    have "qj_lane x \<in> set (map qj_lane (hs_queue (fst demo_state)))" using that(1) by simp
    then show ?thesis using that(2) hot(2) unfolding q by auto
  qed
  note C = claim_most_urgent [OF c]
  from C h p obtain j where j: "r = Some j" by auto
  have ne: "{x \<in> {x \<in> set (hs_queue (fst demo_state)). qj_lane x \<notin> hs_paused (fst demo_state)}. qj_lane x \<in> set HOT_LANES} \<noteq> {}"
    using h hot(1) p by auto
  from C j ne streak have "\<exists>x \<in> set (hs_queue (fst demo_state)). qj_job x = j \<and> qj_lane x \<in> set HOT_LANES"
    unfolding Let_def by auto
  then show ?thesis using lanes c j by auto
qed

theorem scheduler_conserves_jobs_witness:
  "\<exists>s cl. sched_run id demo_ops (new_scheduler 1 100, []) = (s, cl) \<and> distinct (hs_queue s)"
proof -
  obtain s cl where r: "sched_run id demo_ops (new_scheduler 1 100, []) = (s, cl)"
    by (cases "sched_run id demo_ops (new_scheduler 1 100, [])")
  with scheduler_conserves_jobs [OF r] show ?thesis by blast
qed

theorem hot_after_low_streak_witness:
  "\<exists>j. fst (claim_next id 5 ''w'' (fst demo_state)) = Some j \<and> hj_lane j \<in> set HOT_LANES"
proof -
  obtain s cl where st: "demo_state = (s, cl)" by (cases demo_state)
  obtain r s' where c: "claim_next id 5 ''w'' s = (r, s')" by (cases "claim_next id 5 ''w'' s")
  from demo_state_eval [unfolded st fst_conv snd_conv] have q: "map qj_lane (hs_queue s) = [BLOCK_REBUILD, LIVE_CHAT_CAPTURE]"
    and e: "low_suffix cl = 1" "hs_paused s = {}" by blast+
  from q have "LIVE_CHAT_CAPTURE \<in> set (map qj_lane (hs_queue s))" by simp
  then obtain q where "q \<in> set (hs_queue s)" "qj_lane q = LIVE_CHAT_CAPTURE" by auto
  with hot_after_low_streak [OF st [unfolded demo_state_def] _ _ _ _ c, of q] e
  have "\<exists>j. r = Some j \<and> hj_lane j \<in> set HOT_LANES" by (simp add: HOT_LANES_def)
  then show ?thesis unfolding st fst_conv c .
qed

theorem claims_drain_witness:
  "\<exists>cs. mset cs = image_mset qj_job (mset (runnable (fst demo_state))) \<and> length cs = 2"
proof -
  obtain s' cl' where r: "sched_run id (claims [(''w'', 5), (''w'', 6)]) (fst demo_state, []) = (s', cl')"
    by (cases "sched_run id (claims [(''w'', 5), (''w'', 6)]) (fst demo_state, [])")
  have n: "length (runnable (fst demo_state)) = 2" by code_simp
  from claims_drain [OF _ r] n obtain cs where "mset cs = image_mset qj_job (mset (runnable (fst demo_state)))"
    by auto
  moreover from this have "length cs = 2" using n by (metis size_image_mset size_mset)
  ultimately show ?thesis by blast
qed

end
