(* ===== verification/JobStore.thy ===== *)
theory JobStore
  imports Json "HOL-Library.Option_ord"
begin

text \<open>
  The table of durable jobs and its two plain repositories: \<open>JobRepository\<close> on SQLite
  (\<open>repositories/domain.py\<close>) and \<open>PostgresJobRepository\<close> (\<open>storage/postgres/jobs.py\<close>), and the
  outbox tables (\<open>storage/postgres/outbox.py\<close>).  A table is the list of its rows.  A statement
  \<open>UPDATE ... WHERE id = (SELECT ... ORDER BY ... LIMIT 1) RETURNING *\<close> is \<open>claim_first\<close>; rows that
  tie in the order, which SQL leaves open, are taken in table order.  \<open>SKIP LOCKED\<close> leaves out the
  rows that other open transactions hold, the argument \<open>skip\<close>.  A timestamp is a number of
  microseconds, \<open>now()\<close> the clock and \<open>utc_now()\<close> the clock cut to the second.
\<close>

section \<open>Time and selection\<close>

definition utc_now :: "nat \<Rightarrow> nat" where
  "utc_now t = t div 1000000 * 1000000"

lemma utc_now_le: "utc_now t \<le> t"
  unfolding utc_now_def by (simp add: div_times_less_eq_dividend)

lemma utc_now_mono: "s \<le> t \<Longrightarrow> utc_now s \<le> utc_now t"
  unfolding utc_now_def by (intro mult_le_mono1 div_le_mono)

definition claim_first ::
  "('r \<Rightarrow> bool) \<Rightarrow> ('r \<Rightarrow> 'o::linorder) \<Rightarrow> ('r \<Rightarrow> 'k) \<Rightarrow> ('r \<Rightarrow> 'r) \<Rightarrow> 'r list \<Rightarrow> 'r option \<times> 'r list" where
  "claim_first eligible key ident upd rows =
     (case min_key key (filter eligible rows) of
        None \<Rightarrow> (None, rows)
      | Some r \<Rightarrow> (Some (upd r), map (\<lambda>x. if ident x = ident r then upd x else x) rows))"

lemma claim_first_None: "claim_first P key ident upd rows = (None, rows') \<Longrightarrow> rows' = rows \<and> (\<forall>r \<in> set rows. \<not> P r)"
  by (auto simp: claim_first_def filter_empty_conv split: option.splits)

lemma claim_first_Some:
  assumes "claim_first P key ident upd rows = (Some c, rows')"
  obtains r where "r \<in> set rows" "P r" "c = upd r" "\<forall>x \<in> set rows. P x \<longrightarrow> key r \<le> key x"
    "rows' = map (\<lambda>x. if ident x = ident r then upd x else x) rows"
proof -
  from assms obtain r where r: "min_key key (filter P rows) = Some r" "c = upd r"
    "rows' = map (\<lambda>x. if ident x = ident r then upd x else x) rows"
    by (auto simp: claim_first_def split: option.splits)
  from min_key_Some [OF r(1)] show thesis by (intro that [OF _ _ r(2) _ r(3)]) auto
qed

text \<open>\<open>UPDATE ... SET ... WHERE c\<close>, with \<open>rowcount\<close>.\<close>

definition update_where :: "('r \<Rightarrow> bool) \<Rightarrow> ('r \<Rightarrow> 'r) \<Rightarrow> 'r list \<Rightarrow> nat \<times> 'r list" where
  "update_where c f rows = (length (filter c rows), map (\<lambda>r. if c r then f r else r) rows)"

text \<open>Claims one after the other, whoever makes them: the claimed rows and the table at the end.\<close>

fun claim_run :: "('e \<Rightarrow> 'r list \<Rightarrow> 'r option \<times> 'r list) \<Rightarrow> 'e list \<Rightarrow> 'r list \<Rightarrow> 'r list \<times> 'r list" where
  "claim_run f [] rows = ([], rows)"
| "claim_run f (e # es) rows =
     (case f e rows of
        (None, rows') \<Rightarrow> claim_run f es rows'
      | (Some c, rows') \<Rightarrow> (case claim_run f es rows' of (cs, rows'') \<Rightarrow> (c # cs, rows'')))"

section \<open>The interface of a leased table\<close>

text \<open>
  Any table whose claims keep identities and leave the claimed row unclaimable: between two
  releases no row is handed out twice.
\<close>

locale leased_table =
  fixes ident :: "'r \<Rightarrow> 'k"
    and claimable :: "'e \<Rightarrow> 'r \<Rightarrow> bool"
    and key :: "'r \<Rightarrow> 'o::linorder"
    and take_row :: "'e \<Rightarrow> 'r \<Rightarrow> 'r"
  assumes take_keeps_ident: "ident (take_row e r) = ident r"
    and taken_not_claimable: "\<not> claimable e' (take_row e r)"
begin

definition claim :: "'e \<Rightarrow> 'r list \<Rightarrow> 'r option \<times> 'r list" where
  "claim e rows = claim_first (claimable e) key ident (take_row e) rows"

lemma claim_idents: "claim e rows = (c, rows') \<Longrightarrow> map ident rows' = map ident rows"
  unfolding claim_def
  by (cases c) (auto dest!: claim_first_None elim!: claim_first_Some simp: take_keeps_ident)

lemma claim_result:
  assumes "claim e rows = (Some c, rows')" "distinct (map ident rows)"
  shows "\<exists>r \<in> set rows. claimable e r \<and> c = take_row e r \<and> (\<forall>x \<in> set rows. claimable e x \<longrightarrow> key r \<le> key x)"
    and "c \<in> set rows'" "x \<in> set rows' \<Longrightarrow> ident x = ident c \<Longrightarrow> \<not> claimable e' x"
    and "\<And>x. x \<in> set rows \<Longrightarrow> ident x \<noteq> ident c \<Longrightarrow> x \<in> set rows'"
proof -
  from assms(1) [unfolded claim_def] obtain r where r: "r \<in> set rows" "claimable e r" "c = take_row e r"
    "\<forall>x \<in> set rows. claimable e x \<longrightarrow> key r \<le> key x"
    "rows' = map (\<lambda>x. if ident x = ident r then take_row e x else x) rows"
    by (rule claim_first_Some)
  then show "\<exists>r \<in> set rows. claimable e r \<and> c = take_row e r \<and> (\<forall>x \<in> set rows. claimable e x \<longrightarrow> key r \<le> key x)"
    by blast
  show "c \<in> set rows'" using r(1,3,5) by force
  show "x \<in> set rows' \<Longrightarrow> ident x = ident c \<Longrightarrow> \<not> claimable e' x"
    using r(3,5) by (auto simp: take_keeps_ident taken_not_claimable split: if_splits)
  show "\<And>x. x \<in> set rows \<Longrightarrow> ident x \<noteq> ident c \<Longrightarrow> x \<in> set rows'"
    using r(3,5) by (force simp: take_keeps_ident)
qed

lemma claim_run_avoids:
  assumes "distinct (map ident rows)" "claim_run claim es rows = (cs, rows')"
    and "\<forall>x \<in> set rows. ident x = k \<longrightarrow> (\<forall>e. \<not> claimable e x)"
  shows "k \<notin> ident ` set cs"
  using assms
proof (induction es arbitrary: rows cs)
  case (Cons e es)
  obtain c rows1 where c: "claim e rows = (c, rows1)" by (cases "claim e rows")
  have d1: "distinct (map ident rows1)" using Cons.prems(1) claim_idents [OF c] by simp
  show ?case
  proof (cases c)
    case None
    have "rows1 = rows" using claim_first_None [OF c [unfolded None claim_def]] by simp
    moreover have "claim_run claim es rows1 = (cs, rows')" using c None Cons.prems(2) by simp
    ultimately show ?thesis using Cons.IH [OF d1] Cons.prems(3) by simp
  next
    case (Some y)
    obtain cs1 where cs1: "claim_run claim es rows1 = (cs1, rows')" "cs = y # cs1"
      using Cons.prems(2) c Some by (auto split: prod.splits)
    note res = claim_result [OF c [unfolded Some] Cons.prems(1)]
    from res(1) Cons.prems(3) have ne: "ident y \<noteq> k" by (auto simp: take_keeps_ident)
    have "\<forall>x \<in> set rows1. ident x = k \<longrightarrow> (\<forall>e. \<not> claimable e x)"
    proof (intro ballI impI)
      fix x assume x: "x \<in> set rows1" "ident x = k"
      from c [unfolded Some claim_def] obtain r where "ident r = ident y"
        "rows1 = map (\<lambda>x. if ident x = ident r then take_row e x else x) rows"
        by (elim claim_first_Some) (simp add: take_keeps_ident)
      with x ne have "x \<in> set rows" by (auto simp: take_keeps_ident split: if_splits)
      with x(2) Cons.prems(3) show "\<forall>e. \<not> claimable e x" by blast
    qed
    from Cons.IH [OF d1 cs1(1) this] ne cs1(2) show ?thesis by simp
  qed
qed simp

text \<open>Whoever claims, and whenever: no row is handed out twice.\<close>

lemma claims_distinct:
  "distinct (map ident rows) \<Longrightarrow> claim_run claim es rows = (cs, rows') \<Longrightarrow> distinct (map ident cs)"
proof (induction es arbitrary: rows cs)
  case (Cons e es)
  obtain c rows1 where c: "claim e rows = (c, rows1)" by (cases "claim e rows")
  have d1: "distinct (map ident rows1)" using Cons.prems(1) claim_idents [OF c] by simp
  show ?case
  proof (cases c)
    case None
    with c Cons.prems Cons.IH [OF d1] show ?thesis by simp
  next
    case (Some y)
    obtain cs1 where cs1: "claim_run claim es rows1 = (cs1, rows')" "cs = y # cs1"
      using Cons.prems(2) c Some by (auto split: prod.splits)
    have "\<forall>x \<in> set rows1. ident x = ident y \<longrightarrow> (\<forall>e. \<not> claimable e x)"
      using claim_result(3) [OF c [unfolded Some] Cons.prems(1)] by blast
    from claim_run_avoids [OF d1 cs1(1) this] Cons.IH [OF d1 cs1(1)] cs1(2) show ?thesis by simp
  qed
qed simp

end

section \<open>Jobs\<close>

datatype job_status = PENDING | RUNNING | SUCCEEDED | FAILED | DEAD | CANCELLED

record job =
  jb_uuid :: string
  jb_type :: string
  jb_status :: job_status
  jb_priority :: int
  jb_payload :: json
  jb_idempotency_key :: "string option"
  jb_attempts :: nat
  jb_max_attempts :: int
  jb_last_error :: "string option"
  jb_last_error_sanitized :: "string option"
  jb_run_after :: "nat option"
  jb_locked_by :: "string option"
  jb_locked_at :: "nat option"
  jb_lease_token :: "string option"
  jb_lease_generation :: nat
  jb_lease_expires_at :: "nat option"
  jb_created_at :: nat
  jb_updated_at :: "nat option"

definition new_job ::
  "string \<Rightarrow> nat \<Rightarrow> string \<Rightarrow> json \<Rightarrow> int \<Rightarrow> string option \<Rightarrow> nat option \<Rightarrow> int \<Rightarrow> job" where
  "new_job u created ty payload priority key run_after max_attempts =
     \<lparr>jb_uuid = u, jb_type = ty, jb_status = PENDING, jb_priority = priority, jb_payload = payload,
      jb_idempotency_key = key, jb_attempts = 0, jb_max_attempts = max_attempts, jb_last_error = None,
      jb_last_error_sanitized = None, jb_run_after = run_after, jb_locked_by = None, jb_locked_at = None,
      jb_lease_token = None, jb_lease_generation = 0, jb_lease_expires_at = None,
      jb_created_at = created, jb_updated_at = None\<rparr>"

datatype job_error =
    InvalidJob | JobNotFound string | UniqueViolation | PayloadRequired | PayloadNotObject
  | PayloadNotIJson ijson_error

text \<open>The checks of the model \<open>Job\<close> and of the unique index on type and idempotency key; a null
  key never conflicts.\<close>

definition job_fields_ok :: "job \<Rightarrow> bool" where
  "job_fields_ok j \<longleftrightarrow> jb_type j \<noteq> '''' \<and> 1 \<le> jb_max_attempts j"

definition conflicts :: "job \<Rightarrow> job \<Rightarrow> bool" where
  "conflicts a b \<longleftrightarrow> jb_idempotency_key a \<noteq> None \<and> jb_type a = jb_type b \<and>
     jb_idempotency_key a = jb_idempotency_key b"

section \<open>The SQLite repository\<close>

text \<open>
  \<open>_canonical_ijson("payload_ijson", payload)\<close>: a value of the profile whose top level is an
  object, stored as its canonical text; equality of stored texts is equality of canonical values.
  A payload given as text would be parsed first and is left out.
\<close>

definition canonical_payload :: "(ustr \<Rightarrow> bool) \<Rightarrow> json \<Rightarrow> (job_error, json) result" where
  "canonical_payload ts_ok v =
     (if v = JNull then Inl PayloadRequired
      else rbind (map_sum PayloadNotIJson id (validate_ijson_value ts_ok v)) (\<lambda>_.
        case v of JObj d \<Rightarrow> Inr (canon v) | _ \<Rightarrow> Inl PayloadNotObject))"

text \<open>\<open>Job(...)\<close> checks its fields; the insert checks the unique index.\<close>

definition insert_job :: "job \<Rightarrow> job list \<Rightarrow> (job_error, job) result \<times> job list" where
  "insert_job j rows =
     (if \<not> job_fields_ok j then (Inl InvalidJob, rows)
      else if list_ex (conflicts j) rows then (Inl UniqueViolation, rows)
      else (Inr j, rows @ [j]))"

definition enqueue_job ::
  "(ustr \<Rightarrow> bool) \<Rightarrow> string \<Rightarrow> nat \<Rightarrow> string \<Rightarrow> json \<Rightarrow> int \<Rightarrow> nat option \<Rightarrow> int \<Rightarrow> job list
     \<Rightarrow> (job_error, job) result \<times> job list" where
  "enqueue_job ts_ok u t ty payload priority run_after max_attempts rows =
     (case canonical_payload ts_ok payload of
        Inl e \<Rightarrow> (Inl e, rows)
      | Inr p \<Rightarrow> insert_job (new_job u (utc_now t) ty p priority None run_after max_attempts) rows)"

definition enqueue_job_once ::
  "(ustr \<Rightarrow> bool) \<Rightarrow> (json \<Rightarrow> string) \<Rightarrow> string \<Rightarrow> nat \<Rightarrow> string \<Rightarrow> json \<Rightarrow> int \<Rightarrow> nat option \<Rightarrow> int \<Rightarrow> job list
     \<Rightarrow> (job_error, job) result \<times> job list" where
  "enqueue_job_once ts_ok hash u t ty payload priority run_after max_attempts rows =
     (case canonical_payload ts_ok payload of
        Inl e \<Rightarrow> (Inl e, rows)
      | Inr p \<Rightarrow>
          (case min_key jb_created_at (filter (\<lambda>r. jb_type r = ty \<and> jb_payload r = p) rows) of
             Some r \<Rightarrow> (Inr r, rows)
           | None \<Rightarrow> insert_job (new_job u (utc_now t) ty p priority
                 (Some (ty @ '':'' @ canonical_digest hash p)) run_after max_attempts) rows))"

definition get_job :: "string \<Rightarrow> job list \<Rightarrow> job option" where
  "get_job u rows = List.find (\<lambda>r. jb_uuid r = u) rows"

definition due :: "nat \<Rightarrow> nat option \<Rightarrow> bool" where
  "due now run_after \<longleftrightarrow> (case run_after of None \<Rightarrow> True | Some t \<Rightarrow> t \<le> now)"

definition sqlite_claimable :: "nat \<Rightarrow> job \<Rightarrow> bool" where
  "sqlite_claimable t r \<longleftrightarrow> jb_status r = PENDING \<and> due (utc_now t) (jb_run_after r)"

definition sqlite_take :: "nat \<Rightarrow> job \<Rightarrow> job" where
  "sqlite_take t r = r\<lparr>jb_status := RUNNING, jb_locked_by := Some ''sqlite-write-actor'',
     jb_locked_at := Some (utc_now t), jb_attempts := Suc (jb_attempts r), jb_updated_at := Some (utc_now t)\<rparr>"

definition sqlite_order :: "job \<Rightarrow> int \<times> nat \<times> string" where
  "sqlite_order r = (- jb_priority r, jb_created_at r, jb_uuid r)"

definition claim_next_job :: "nat \<Rightarrow> job list \<Rightarrow> job option \<times> job list" where
  "claim_next_job t rows = claim_first (sqlite_claimable t) sqlite_order jb_uuid (sqlite_take t) rows"

text \<open>The variant for a SQLite without \<open>RETURNING\<close>: read, compare and swap, read again.\<close>

definition claim_compare_and_swap :: "nat \<Rightarrow> job list \<Rightarrow> job option \<times> job list" where
  "claim_compare_and_swap t rows =
     (case min_key sqlite_order (filter (sqlite_claimable t) rows) of
        None \<Rightarrow> (None, rows)
      | Some row \<Rightarrow>
          (case update_where (\<lambda>r. jb_uuid r = jb_uuid row \<and> jb_status r = PENDING)
             (\<lambda>r. r\<lparr>jb_status := RUNNING, jb_locked_by := Some ''sqlite-write-actor'',
                jb_locked_at := Some (utc_now t), jb_attempts := jb_attempts row + 1,
                jb_updated_at := Some (utc_now t)\<rparr>) rows of
             (n, rows') \<Rightarrow> (if n \<noteq> 1 then (None, rows') else (get_job (jb_uuid row) rows', rows'))))"

definition update_job :: "string \<Rightarrow> (job \<Rightarrow> job) \<Rightarrow> job list \<Rightarrow> (job_error, job) result \<times> job list" where
  "update_job u f rows =
     (let rows' = snd (update_where (\<lambda>r. jb_uuid r = u) f rows) in
      case get_job u rows' of None \<Rightarrow> (Inl (JobNotFound u), rows') | Some j \<Rightarrow> (Inr j, rows'))"

definition mark_job_succeeded :: "nat \<Rightarrow> string \<Rightarrow> job list \<Rightarrow> (job_error, job) result \<times> job list" where
  "mark_job_succeeded t u rows = update_job u (\<lambda>r. r\<lparr>jb_status := SUCCEEDED, jb_locked_by := None,
     jb_locked_at := None, jb_updated_at := Some (utc_now t)\<rparr>) rows"

definition released :: "nat \<Rightarrow> job_status \<Rightarrow> string \<Rightarrow> job \<Rightarrow> job" where
  "released t st err r = r\<lparr>jb_status := st, jb_last_error := Some err,
     jb_last_error_sanitized := Some (take 240 err), jb_locked_by := None, jb_locked_at := None,
     jb_updated_at := Some (utc_now t)\<rparr>"

definition mark_job_failed ::
  "nat \<Rightarrow> string \<Rightarrow> string \<Rightarrow> bool \<Rightarrow> job list \<Rightarrow> (job_error, job) result \<times> job list" where
  "mark_job_failed t u err retry rows =
     (case get_job u rows of
        None \<Rightarrow> (Inl (JobNotFound u), rows)
      | Some j \<Rightarrow>
          (let st = (if retry \<and> int (jb_attempts j) < jb_max_attempts j then PENDING
                     else if retry then DEAD else FAILED) in
           update_job u (released t st err) rows))"

definition mark_job_dead :: "nat \<Rightarrow> string \<Rightarrow> string \<Rightarrow> job list \<Rightarrow> (job_error, job) result \<times> job list" where
  "mark_job_dead t u err rows = update_job u (released t DEAD err) rows"

section \<open>The PostgreSQL repository\<close>

definition pg_enqueue_job ::
  "(ustr \<Rightarrow> bool) \<Rightarrow> string \<Rightarrow> nat \<Rightarrow> string \<Rightarrow> json \<Rightarrow> int \<Rightarrow> string option \<Rightarrow> nat option \<Rightarrow> int \<Rightarrow> job list
     \<Rightarrow> (ijson_error, job) result \<times> job list" where
  "pg_enqueue_job ts_ok u t ty payload priority key run_after max_attempts rows =
     (case validate_ijson_value ts_ok payload of
        Inl e \<Rightarrow> (Inl e, rows)
      | Inr _ \<Rightarrow>
          (let j = new_job u t ty (canon payload) priority key
                     (Some (case run_after of None \<Rightarrow> t | Some r \<Rightarrow> r)) max_attempts in
           case List.find (conflicts j) rows of
             Some r \<Rightarrow> (Inr r, rows)
           | None \<Rightarrow> (Inr j, rows @ [j])))"

text \<open>\<open>run_after <= now()\<close> is not true of a null.\<close>

definition pg_due :: "nat \<Rightarrow> nat option \<Rightarrow> bool" where
  "pg_due now run_after \<longleftrightarrow> (case run_after of None \<Rightarrow> False | Some t \<Rightarrow> t \<le> now)"

definition pg_claimable :: "string set \<times> string \<times> nat \<Rightarrow> job \<Rightarrow> bool" where
  "pg_claimable e r \<longleftrightarrow> (case e of (skip, _, t) \<Rightarrow>
     jb_status r = PENDING \<and> pg_due t (jb_run_after r) \<and> jb_uuid r \<notin> skip)"

definition pg_take :: "string set \<times> string \<times> nat \<Rightarrow> job \<Rightarrow> job" where
  "pg_take e r = (case e of (_, worker, t) \<Rightarrow> r\<lparr>jb_status := RUNNING, jb_locked_by := Some worker,
     jb_locked_at := Some t, jb_attempts := Suc (jb_attempts r), jb_updated_at := Some t\<rparr>)"

definition pg_order :: "job \<Rightarrow> int \<times> nat option \<times> nat" where
  "pg_order r = (- jb_priority r, jb_run_after r, jb_created_at r)"

definition pg_claim_next_job :: "string set \<Rightarrow> string \<Rightarrow> nat \<Rightarrow> job list \<Rightarrow> job option \<times> job list" where
  "pg_claim_next_job skip worker t rows =
     claim_first (pg_claimable (skip, worker, t)) pg_order jb_uuid (pg_take (skip, worker, t)) rows"

definition expired_status :: "job \<Rightarrow> job_status" where
  "expired_status r = (if jb_max_attempts r \<le> int (jb_attempts r) then DEAD else PENDING)"

definition coalesce :: "'a option \<Rightarrow> 'a \<Rightarrow> 'a option" where
  "coalesce x d = (case x of None \<Rightarrow> Some d | Some y \<Rightarrow> Some y)"

definition before :: "nat option \<Rightarrow> nat \<Rightarrow> bool" where
  "before x t \<longleftrightarrow> (case x of None \<Rightarrow> False | Some s \<Rightarrow> s < t)"

definition pg_expire :: "nat \<Rightarrow> job \<Rightarrow> job" where
  "pg_expire t r = r\<lparr>jb_status := expired_status r, jb_locked_by := None, jb_locked_at := None,
     jb_last_error_sanitized := coalesce (jb_last_error_sanitized r) ''lease expired'', jb_updated_at := Some t\<rparr>"

definition pg_stale :: "nat \<Rightarrow> job \<Rightarrow> bool" where
  "pg_stale cutoff r \<longleftrightarrow> jb_status r = RUNNING \<and> before (jb_locked_at r) cutoff"

definition pg_recover_stale_jobs :: "nat \<Rightarrow> nat \<Rightarrow> job list \<Rightarrow> job list \<times> job list" where
  "pg_recover_stale_jobs t timeout_us rows =
     (let stale = pg_stale (t - timeout_us) in
      (map (pg_expire t) (filter stale rows), snd (update_where stale (pg_expire t) rows)))"

section \<open>The outbox tables\<close>

record outbox_row =
  ob_uuid :: string
  ob_event_type :: string
  ob_source_type :: string
  ob_source_uuid :: string
  ob_payload :: json
  ob_status :: string
  ob_priority :: int
  ob_attempts :: nat
  ob_run_after :: nat
  ob_locked_by :: "string option"
  ob_locked_at :: "nat option"
  ob_last_error_sanitized :: "string option"
  ob_created_at :: nat
  ob_updated_at :: nat

definition OUTBOX_TABLES :: "string list" where
  "OUTBOX_TABLES = [''graph_projection_outbox'', ''embedding_outbox'', ''memory_processing_outbox'',
     ''privacy_erasure_outbox'']"

text \<open>The names of tables reach the SQL text, so anything else is refused.\<close>

definition validate_outbox_table :: "string \<Rightarrow> (string, unit) result" where
  "validate_outbox_table name = raise_if (name \<notin> set OUTBOX_TABLES) name"

definition outbox_enqueue ::
  "(ustr \<Rightarrow> bool) \<Rightarrow> string \<Rightarrow> nat \<Rightarrow> string \<Rightarrow> string \<Rightarrow> string \<Rightarrow> json \<Rightarrow> int \<Rightarrow> nat option \<Rightarrow> outbox_row list
     \<Rightarrow> (ijson_error, outbox_row) result \<times> outbox_row list" where
  "outbox_enqueue ts_ok u t ev st su payload priority run_after rows =
     (case validate_ijson_value ts_ok payload of Inl e \<Rightarrow> (Inl e, rows) | Inr _ \<Rightarrow>
      case List.find (\<lambda>r. ob_event_type r = ev \<and> ob_source_type r = st \<and> ob_source_uuid r = su) rows of
        Some r \<Rightarrow> (Inr r, rows)
      | None \<Rightarrow>
          (let r = \<lparr>ob_uuid = u, ob_event_type = ev, ob_source_type = st, ob_source_uuid = su,
                 ob_payload = canon payload, ob_status = ''pending'', ob_priority = priority, ob_attempts = 0,
                 ob_run_after = (case run_after of None \<Rightarrow> t | Some x \<Rightarrow> x), ob_locked_by = None,
                 ob_locked_at = None, ob_last_error_sanitized = None, ob_created_at = t, ob_updated_at = t\<rparr>
           in (Inr r, rows @ [r])))"

definition outbox_claimable :: "string set \<times> string \<times> nat \<Rightarrow> outbox_row \<Rightarrow> bool" where
  "outbox_claimable e r \<longleftrightarrow> (case e of (skip, _, t) \<Rightarrow>
     ob_status r \<in> {''pending'', ''retry''} \<and> ob_run_after r \<le> t \<and> ob_uuid r \<notin> skip)"

definition outbox_take :: "string set \<times> string \<times> nat \<Rightarrow> outbox_row \<Rightarrow> outbox_row" where
  "outbox_take e r = (case e of (_, worker, t) \<Rightarrow> r\<lparr>ob_status := ''running'', ob_locked_by := Some worker,
     ob_locked_at := Some t, ob_attempts := Suc (ob_attempts r), ob_updated_at := t\<rparr>)"

definition outbox_order :: "outbox_row \<Rightarrow> int \<times> nat \<times> nat" where
  "outbox_order r = (- ob_priority r, ob_run_after r, ob_created_at r)"

definition outbox_claim_next ::
  "string set \<Rightarrow> string \<Rightarrow> nat \<Rightarrow> outbox_row list \<Rightarrow> outbox_row option \<times> outbox_row list" where
  "outbox_claim_next skip worker t rows =
     claim_first (outbox_claimable (skip, worker, t)) outbox_order ob_uuid (outbox_take (skip, worker, t)) rows"

definition outbox_recover :: "nat \<Rightarrow> nat \<Rightarrow> outbox_row list \<Rightarrow> outbox_row list \<times> outbox_row list" where
  "outbox_recover t timeout_us rows =
     (let stale = (\<lambda>r. ob_status r = ''running'' \<and> before (ob_locked_at r) (t - timeout_us));
          expire = (\<lambda>r. r\<lparr>ob_status := ''pending'', ob_locked_by := None, ob_locked_at := None,
            ob_last_error_sanitized := coalesce (ob_last_error_sanitized r) ''lease expired'', ob_updated_at := t\<rparr>)
      in (map expire (filter stale rows), snd (update_where stale expire rows)))"

section \<open>Interpretations and what they give\<close>

interpretation sqlite_jobs: leased_table jb_uuid sqlite_claimable sqlite_order sqlite_take
  by unfold_locales (simp_all add: sqlite_take_def sqlite_claimable_def)

interpretation pg_jobs: leased_table jb_uuid pg_claimable pg_order pg_take
  by unfold_locales (simp_all add: pg_take_def pg_claimable_def case_prod_unfold)

interpretation outbox: leased_table ob_uuid outbox_claimable outbox_order outbox_take
  by unfold_locales (simp_all add: outbox_take_def outbox_claimable_def case_prod_unfold)

lemma claim_folds:
  "claim_next_job = sqlite_jobs.claim"
  "(\<lambda>(skip, w, t). pg_claim_next_job skip w t) = pg_jobs.claim"
  "(\<lambda>(skip, w, t). outbox_claim_next skip w t) = outbox.claim"
  by (simp_all add: fun_eq_iff claim_next_job_def sqlite_jobs.claim_def pg_claim_next_job_def pg_jobs.claim_def
      outbox_claim_next_def outbox.claim_def)

text \<open>
  Property C29 (leases_exclusive): whichever workers claim at whatever times, and whichever rows
  other transactions have locked, no job and no outbox event is handed out twice without a
  release in between.
\<close>

theorem leases_exclusive:
  assumes "distinct (map jb_uuid jobs)" "distinct (map ob_uuid events)"
  shows "distinct (map jb_uuid (fst (claim_run claim_next_job ts jobs))) \<and>
    distinct (map jb_uuid (fst (claim_run (\<lambda>(skip, w, t). pg_claim_next_job skip w t) es jobs))) \<and>
    distinct (map ob_uuid (fst (claim_run (\<lambda>(skip, w, t). outbox_claim_next skip w t) os events)))"
  unfolding claim_folds
  using sqlite_jobs.claims_distinct [OF assms(1) prod.collapse [symmetric], of ts]
    pg_jobs.claims_distinct [OF assms(1) prod.collapse [symmetric], of es]
    outbox.claims_distinct [OF assms(2) prod.collapse [symmetric], of os] by blast

text \<open>
  Also proved (pg_claim_most_urgent): a PostgreSQL claim fails exactly when no unlocked pending job
  is due, and otherwise takes one of the highest priority, among these one that was due earliest,
  marks it running for the worker, counts the attempt and leaves every other row as it was.
\<close>

theorem pg_claim_most_urgent:
  assumes "distinct (map jb_uuid rows)" "pg_claim_next_job skip w t rows = (res, rows')"
  shows "(res = None \<longleftrightarrow> (\<forall>r \<in> set rows. \<not> pg_claimable (skip, w, t) r)) \<and> (res = None \<longrightarrow> rows' = rows) \<and>
    (\<forall>c. res = Some c \<longrightarrow> (\<exists>r \<in> set rows. jb_status r = PENDING \<and> jb_uuid r \<notin> skip \<and> c = pg_take (skip, w, t) r \<and>
       jb_attempts c = Suc (jb_attempts r) \<and>
       (\<forall>x \<in> set rows. pg_claimable (skip, w, t) x \<longrightarrow> jb_priority x \<le> jb_priority r \<and>
          (jb_priority x = jb_priority r \<longrightarrow> jb_run_after r \<le> jb_run_after x)) \<and>
       rows' = map (\<lambda>x. if x = r then c else x) rows))"
proof (cases res)
  case None
  with assms(2) claim_first_None show ?thesis unfolding pg_claim_next_job_def by blast
next
  case (Some c)
  from assms(2) [unfolded Some pg_claim_next_job_def] obtain r where r: "r \<in> set rows" "pg_claimable (skip, w, t) r"
    "c = pg_take (skip, w, t) r" "\<forall>x \<in> set rows. pg_claimable (skip, w, t) x \<longrightarrow> pg_order r \<le> pg_order x"
    "rows' = map (\<lambda>x. if jb_uuid x = jb_uuid r then pg_take (skip, w, t) x else x) rows"
    by (rule claim_first_Some)
  have "jb_uuid x = jb_uuid r \<longleftrightarrow> x = r" if "x \<in> set rows" for x
    using that r(1) assms(1) by (auto simp: distinct_map dest: inj_onD)
  then have "rows' = map (\<lambda>x. if x = r then c else x) rows" by (simp add: r(3,5))
  moreover have "\<forall>x \<in> set rows. pg_claimable (skip, w, t) x \<longrightarrow> jb_priority x \<le> jb_priority r \<and>
      (jb_priority x = jb_priority r \<longrightarrow> jb_run_after r \<le> jb_run_after x)"
    using r(4) by (auto simp: pg_order_def less_eq_prod_def less_prod_def)
  moreover have "jb_status r = PENDING" "jb_uuid r \<notin> skip" "jb_attempts c = Suc (jb_attempts r)"
    using r(2,3) by (simp_all add: pg_claimable_def pg_take_def)
  ultimately show ?thesis using Some r(1-3) by blast
qed

lemma get_job_Some: "distinct (map jb_uuid rows) \<Longrightarrow> r \<in> set rows \<Longrightarrow> get_job (jb_uuid r) rows = Some r"
  by (induction rows) (auto simp: get_job_def)

lemma get_job_map: "(\<And>r. jb_uuid (f r) = jb_uuid r) \<Longrightarrow> get_job u (map f rows) = map_option f (get_job u rows)"
  by (induction rows) (auto simp: get_job_def)

lemma length_filter_unique:
  "distinct (map f xs) \<Longrightarrow> x \<in> set xs \<Longrightarrow> P x \<Longrightarrow> length (filter (\<lambda>y. f y = f x \<and> P y) xs) = 1"
proof (induction xs)
  case (Cons a xs)
  show ?case
  proof (cases "f a = f x")
    case True
    with Cons.prems have "a = x" by (auto simp: image_iff)
    moreover have "filter (\<lambda>y. f y = f x \<and> P y) xs = []"
      using Cons.prems(1) True by (auto simp: filter_empty_conv image_iff)
    ultimately show ?thesis using Cons.prems(3) by simp
  next
    case False
    with Cons show ?thesis by auto
  qed
qed simp

text \<open>The guarded update of a row read before hits that row alone; the row read again is the new one.\<close>

lemma swap_pending:
  assumes "distinct (map jb_uuid rows)" "r \<in> set rows" "jb_status r = PENDING" "f r = x" "jb_uuid x = jb_uuid r"
  shows "update_where (\<lambda>y. jb_uuid y = jb_uuid r \<and> jb_status y = PENDING) f rows =
      (1, map (\<lambda>y. if jb_uuid y = jb_uuid r then x else y) rows)"
    and "get_job (jb_uuid r) (map (\<lambda>y. if jb_uuid y = jb_uuid r then x else y) rows) = Some x"
proof -
  have eq: "jb_uuid y = jb_uuid r \<longleftrightarrow> y = r" if "y \<in> set rows" for y
    using that assms(1,2) by (auto simp: distinct_map dest: inj_onD)
  have "map (\<lambda>y. if jb_uuid y = jb_uuid r \<and> jb_status y = PENDING then f y else y) rows =
      map (\<lambda>y. if jb_uuid y = jb_uuid r then x else y) rows"
    by (rule map_cong) (auto simp: eq assms(3,4))
  moreover have "length (filter (\<lambda>y. jb_uuid y = jb_uuid r \<and> jb_status y = PENDING) rows) = 1"
    using length_filter_unique [OF assms(1,2), of "\<lambda>y. jb_status y = PENDING"] assms(3) .
  ultimately show "update_where (\<lambda>y. jb_uuid y = jb_uuid r \<and> jb_status y = PENDING) f rows =
      (1, map (\<lambda>y. if jb_uuid y = jb_uuid r then x else y) rows)"
    unfolding update_where_def by (simp only:)
  have "get_job (jb_uuid r) (map (\<lambda>y. if jb_uuid y = jb_uuid r then x else y) rows) =
      map_option (\<lambda>y. if jb_uuid y = jb_uuid r then x else y) (get_job (jb_uuid r) rows)"
    by (rule get_job_map) (use assms(5) in auto)
  then show "get_job (jb_uuid r) (map (\<lambda>y. if jb_uuid y = jb_uuid r then x else y) rows) = Some x"
    using get_job_Some [OF assms(1,2)] by simp
qed

lemma map_update_same:
  "distinct (map jb_uuid rows) \<Longrightarrow> r \<in> set rows \<Longrightarrow>
     map (\<lambda>y. if jb_uuid y = jb_uuid r then f y else y) rows = map (\<lambda>y. if jb_uuid y = jb_uuid r then f r else y) rows"
  by (rule map_cong) (auto simp: distinct_map dest: inj_onD)

text \<open>
  Also proved (compare_and_swap_claim): the fallback for old SQLite versions claims the same job
  and leaves the same table as the single statement.
\<close>

theorem compare_and_swap_claim:
  assumes "distinct (map jb_uuid rows)"
  shows "claim_compare_and_swap t rows = claim_next_job t rows"
proof (cases "min_key sqlite_order (filter (sqlite_claimable t) rows)")
  case None
  then show ?thesis unfolding claim_compare_and_swap_def claim_next_job_def claim_first_def by (simp only: option.case)
next
  case (Some r)
  from min_key_Some [OF Some] have r: "r \<in> set rows" "jb_status r = PENDING"
    by (auto simp: sqlite_claimable_def)
  let ?f = "\<lambda>x. x\<lparr>jb_status := RUNNING, jb_locked_by := Some ''sqlite-write-actor'',
      jb_locked_at := Some (utc_now t), jb_attempts := jb_attempts r + 1, jb_updated_at := Some (utc_now t)\<rparr>"
  have f: "?f r = sqlite_take t r" "jb_uuid (sqlite_take t r) = jb_uuid r" by (simp_all add: sqlite_take_def)
  note swap = swap_pending [where f = ?f, OF assms r f]
  show ?thesis
    unfolding claim_compare_and_swap_def claim_next_job_def claim_first_def Some option.case swap(1) prod.case
      swap(2) map_update_same [OF assms r(1), of "sqlite_take t"] by simp
qed

lemma min_key_filter_Some: "min_key k (filter P xs) = Some y \<Longrightarrow> y \<in> set xs \<and> P y"
  using min_key_Some [of k "filter P xs" y] by simp

lemma insert_job_Inr: "insert_job j rows = (Inr r, rows') \<longleftrightarrow>
    job_fields_ok j \<and> (\<forall>x \<in> set rows. \<not> conflicts j x) \<and> r = j \<and> rows' = rows @ [j]"
  by (auto simp: insert_job_def list_ex_iff)

text \<open>
  Also proved (enqueue_once_idempotent): a successful \<open>enqueue_job_once\<close> returns a job of the given
  type and payload, adds at most one row, and repeating it, with any priority and at any time,
  returns the same job and adds nothing.
\<close>

theorem enqueue_once_idempotent:
  assumes "enqueue_job_once ts hash u t ty payload pr ra mx rows = (Inr j, rows')"
  shows "jb_type j = ty \<and> jb_payload j = canon payload \<and> j \<in> set rows' \<and> (rows' = rows \<or> rows' = rows @ [j]) \<and>
    enqueue_job_once ts hash u2 t2 ty payload pr2 ra2 mx2 rows' = (Inr j, rows')"
proof -
  from assms have d: "canonical_payload ts payload = Inr (canon payload)"
    by (auto simp: enqueue_job_once_def canonical_payload_def split: sum.splits json.splits if_splits)
  let ?Q = "\<lambda>r. jb_type r = ty \<and> jb_payload r = canon payload"
  have found: "enqueue_job_once ts hash u2 t2 ty payload pr2 ra2 mx2 rs = (Inr r, rs)"
    if "min_key jb_created_at (filter ?Q rs) = Some r" for r rs
    using that d by (simp add: enqueue_job_once_def)
  show ?thesis
  proof (cases "min_key jb_created_at (filter ?Q rows)")
    case (Some r)
    with assms d have j: "j = r" "rows' = rows" by (simp_all add: enqueue_job_once_def)
    with found [OF Some] min_key_filter_Some [OF Some] show ?thesis by simp
  next
    case None
    with assms d have ins: "insert_job (new_job u (utc_now t) ty (canon payload) pr
        (Some (ty @ '':'' @ canonical_digest hash (canon payload))) ra mx) rows = (Inr j, rows')"
      by (simp add: enqueue_job_once_def del: min_key_None)
    then have j: "?Q j" "rows' = rows @ [j]" by (auto simp: insert_job_Inr new_job_def)
    from None have "filter ?Q rows = []" by simp
    with j have "filter ?Q rows' = [j]" by simp
    then have "min_key jb_created_at (filter ?Q rows') = Some j" by simp
    from found [OF this] j show ?thesis by simp
  qed
qed

section \<open>Concrete tables\<close>

definition demo_rows :: "job list" where
  "demo_rows = [new_job ''a'' 0 ''t'' (JObj []) 10 None (Some 5) 3, new_job ''b'' 0 ''t'' (JObj []) 90 None (Some 9) 3,
     new_job ''c'' 0 ''t'' (JObj []) 90 None (Some 7) 3]"

definition demo_events :: "outbox_row list" where
  "demo_events = snd (outbox_enqueue (\<lambda>_. True) ''e'' 1 ''created'' ''memory'' ''m1'' (JObj []) 50 None [])"

lemma demo_distinct: "distinct (map jb_uuid demo_rows)" "distinct (map ob_uuid demo_events)"
  by code_simp+

theorem leases_exclusive_witness:
  "distinct (map jb_uuid (fst (claim_run (\<lambda>(skip, w, t). pg_claim_next_job skip w t)
     [({''b''}, ''w1'', 8), ({}, ''w2'', 9), ({}, ''w1'', 9), ({}, ''w3'', 9)] demo_rows)))"
  using leases_exclusive [OF demo_distinct] by blast

theorem pg_claim_most_urgent_witness:
  "\<exists>c rows'. pg_claim_next_job {} ''w'' 8 demo_rows = (Some c, rows') \<and> jb_attempts c = 1"
proof -
  obtain res rows' where c: "pg_claim_next_job {} ''w'' 8 demo_rows = (res, rows')"
    by (cases "pg_claim_next_job {} ''w'' 8 demo_rows")
  note claimed = pg_claim_most_urgent [OF demo_distinct(1) c]
  have "list_ex (pg_claimable ({}, ''w'', 8)) demo_rows" by code_simp
  with claimed obtain x where "res = Some x" by (auto simp: list_ex_iff)
  moreover from this claimed obtain r where "r \<in> set demo_rows" "jb_attempts x = Suc (jb_attempts r)" by blast
  moreover have "list_all (\<lambda>r. jb_attempts r = 0) demo_rows" by code_simp
  ultimately show ?thesis using c by (auto simp: list_all_iff)
qed

theorem compare_and_swap_claim_witness:
  "claim_compare_and_swap 9 demo_rows = claim_next_job 9 demo_rows"
  by (rule compare_and_swap_claim [OF demo_distinct(1)])

theorem enqueue_once_idempotent_witness:
  "\<exists>j rows'. enqueue_job_once (\<lambda>_. True) (\<lambda>_. ''h'') ''n'' 3 ''memory_extraction'' (JObj []) 60 None 3 demo_rows = (Inr j, rows') \<and>
     enqueue_job_once (\<lambda>_. True) (\<lambda>_. ''h'') ''n2'' 9 ''memory_extraction'' (JObj []) 10 None 1 rows' = (Inr j, rows')"
proof -
  let ?q = "enqueue_job_once (\<lambda>_. True) (\<lambda>_. ''h'') ''n'' 3 ''memory_extraction'' (JObj []) 60 None 3 demo_rows"
  have "case fst ?q of Inr _ \<Rightarrow> True | Inl _ \<Rightarrow> False" by code_simp
  then obtain j rows' where q: "?q = (Inr j, rows')" by (cases ?q; cases "fst ?q") auto
  from enqueue_once_idempotent [OF q] q show ?thesis by blast
qed

end
