(* ===== verification/JobWriters.thy ===== *)
theory JobWriters
  imports JobStore
begin

text \<open>
  The other writers of the job table: import processing (\<open>imports/processing.py\<close>), the
  cancellation of an import (\<open>imports/service.py\<close>) and start-up recovery
  (\<open>reliability/recovery.py\<close>).  Only their statements on \<open>jobs\<close> are modelled; the statements on the
  import tables before them decide whether one runs and for which job, which is left open: a job
  id and a worker are arguments.
\<close>

section \<open>Import processing\<close>

definition back_to_pending :: "nat \<Rightarrow> job \<Rightarrow> job" where
  "back_to_pending t r = r\<lparr>jb_status := PENDING, jb_locked_by := None, jb_locked_at := None,
     jb_updated_at := Some (utc_now t)\<rparr>"

definition release_claim :: "string \<Rightarrow> string \<Rightarrow> nat \<Rightarrow> job list \<Rightarrow> job list" where
  "release_claim w u t rows = snd (update_where
     (\<lambda>r. jb_uuid r = u \<and> (jb_status r = PENDING \<or> jb_status r = RUNNING) \<and>
        (jb_locked_by r = None \<or> jb_locked_by r = Some w)) (back_to_pending t) rows)"

definition recover_expired_leases :: "string \<Rightarrow> nat \<Rightarrow> job list \<Rightarrow> job list" where
  "recover_expired_leases u t rows = snd (update_where
     (\<lambda>r. jb_uuid r = u \<and> (jb_status r = PENDING \<or> jb_status r = RUNNING)) (back_to_pending t) rows)"

definition retry_failed :: "string \<Rightarrow> nat \<Rightarrow> job list \<Rightarrow> job list" where
  "retry_failed u t rows = snd (update_where (\<lambda>r. jb_uuid r = u)
     (\<lambda>r. (back_to_pending t r)\<lparr>jb_last_error := None, jb_last_error_sanitized := None,
        jb_run_after := None\<rparr>) rows)"

definition start_processing :: "string \<Rightarrow> string \<Rightarrow> nat \<Rightarrow> job list \<Rightarrow> job list" where
  "start_processing w u t rows = snd (update_where (\<lambda>r. jb_uuid r = u)
     (\<lambda>r. r\<lparr>jb_status := RUNNING, jb_attempts := Suc (jb_attempts r), jb_locked_by := Some w,
        jb_locked_at := Some (utc_now t), jb_updated_at := Some (utc_now t)\<rparr>) rows)"

definition succeed_processing :: "string \<Rightarrow> string \<Rightarrow> nat \<Rightarrow> job list \<Rightarrow> job list" where
  "succeed_processing w u t rows = snd (update_where (\<lambda>r. jb_uuid r = u \<and> jb_locked_by r = Some w)
     (\<lambda>r. r\<lparr>jb_status := SUCCEEDED, jb_locked_by := None, jb_locked_at := None, jb_last_error := None,
        jb_last_error_sanitized := None, jb_run_after := None, jb_updated_at := Some (utc_now t)\<rparr>) rows)"

text \<open>
  \<open>_failure_transition\<close>: the new status and due time.  \<open>retryable\<close> is the verdict of
  \<open>_classify_error\<close> on the sanitized text; both counters are the import row's, where a zero maximum
  means five.
\<close>

definition failure_transition :: "nat \<Rightarrow> nat \<Rightarrow> bool \<Rightarrow> nat \<Rightarrow> job_status \<times> nat option" where
  "failure_transition retry_count max_attempts retryable finished =
     (if retryable \<and> retry_count + 1 < (if max_attempts = 0 then 5 else max_attempts)
      then (PENDING, Some (finished + min 900 (10 * 2 ^ retry_count) * 1000000))
      else (FAILED, None))"

definition fail_processing ::
  "string \<Rightarrow> string \<Rightarrow> nat \<Rightarrow> nat \<Rightarrow> bool \<Rightarrow> string \<Rightarrow> nat \<Rightarrow> job list \<Rightarrow> job list" where
  "fail_processing w u retry_count max_attempts retryable sanitized t rows =
     (case failure_transition retry_count max_attempts retryable (utc_now t) of (st, due_at) \<Rightarrow>
        snd (update_where (\<lambda>r. jb_uuid r = u \<and> jb_locked_by r = Some w)
          (\<lambda>r. r\<lparr>jb_status := st, jb_last_error := Some sanitized, jb_last_error_sanitized := Some sanitized,
             jb_run_after := due_at, jb_locked_by := None, jb_locked_at := None,
             jb_updated_at := Some (utc_now t)\<rparr>) rows))"

section \<open>Cancellation and recovery\<close>

definition cancel_jobs :: "string list \<Rightarrow> nat \<Rightarrow> job list \<Rightarrow> job list" where
  "cancel_jobs us t rows = snd (update_where
     (\<lambda>r. jb_uuid r \<in> set us \<and> (jb_status r = PENDING \<or> jb_status r = RUNNING))
     (\<lambda>r. r\<lparr>jb_status := CANCELLED, jb_locked_by := None, jb_locked_at := None,
        jb_updated_at := Some (utc_now t)\<rparr>) rows)"

text \<open>The status \<open>claimed\<close>, which the statement also names, is no status of a job.\<close>

definition recover_jobs :: "nat \<Rightarrow> job list \<Rightarrow> job list" where
  "recover_jobs t rows = snd (update_where (\<lambda>r. jb_status r = RUNNING)
     (\<lambda>r. r\<lparr>jb_status := DEAD, jb_updated_at := Some (utc_now t)\<rparr>) rows)"

section \<open>All of them\<close>

datatype job_write =
    ReleaseClaim string string
  | RecoverExpired string
  | RetryFailed string
  | StartProcessing string string
  | SucceedProcessing string string
  | FailProcessing string string nat nat bool string
  | CancelJobs "string list"
  | RecoverJobs

fun apply_write :: "nat \<Rightarrow> job_write \<Rightarrow> job list \<Rightarrow> job list" where
  "apply_write t (ReleaseClaim w u) rows = release_claim w u t rows"
| "apply_write t (RecoverExpired u) rows = recover_expired_leases u t rows"
| "apply_write t (RetryFailed u) rows = retry_failed u t rows"
| "apply_write t (StartProcessing w u) rows = start_processing w u t rows"
| "apply_write t (SucceedProcessing w u) rows = succeed_processing w u t rows"
| "apply_write t (FailProcessing w u n m retryable err) rows = fail_processing w u n m retryable err t rows"
| "apply_write t (CancelJobs us) rows = cancel_jobs us t rows"
| "apply_write t RecoverJobs rows = recover_jobs t rows"

text \<open>
  What they have in common: they neither add rows nor touch the lease generation, and raise the
  attempts by at most one.  None of them writes the lease token or the expiry either, so a lease
  outlives them where the status and the holder stay as they were.
\<close>

definition foreign_step :: "job \<Rightarrow> job \<Rightarrow> bool" where
  "foreign_step r r' \<longleftrightarrow> jb_uuid r' = jb_uuid r \<and> jb_max_attempts r' = jb_max_attempts r \<and>
     jb_lease_generation r' = jb_lease_generation r \<and> jb_lease_token r' = jb_lease_token r \<and>
     jb_lease_expires_at r' = jb_lease_expires_at r \<and>
     (jb_attempts r' = jb_attempts r \<or> jb_attempts r' = Suc (jb_attempts r))"

lemma foreign_update:
  "(\<And>r. foreign_step r (f r)) \<Longrightarrow> list_all2 foreign_step rows (snd (update_where c f rows))"
  by (simp add: update_where_def list_all2_map2 list_all2_same foreign_step_def)

lemma apply_write_foreign: "list_all2 foreign_step rows (apply_write t op rows)"
  by (cases op)
    (simp_all add: foreign_update foreign_step_def back_to_pending_def release_claim_def
      recover_expired_leases_def retry_failed_def start_processing_def succeed_processing_def
      fail_processing_def cancel_jobs_def recover_jobs_def split: prod.split)

end
