(* ===== verification/LeaseService.thy ===== *)
theory LeaseService
  imports JobWriters
begin

text \<open>
  The memory worker's lease protocol (\<open>memory_worker/service.py\<close>): a claim gives a worker a token
  and a new generation, the fence re-checks them before every provider call and inside every
  canonical write, and success or failure is recorded only under them.  The operations come
  first; then the protocol as a step relation over any number of workers that may stall, crash
  and be overtaken, beside the other writers of the table, with its invariant.  \<open>lite\<close> chooses
  between the SQLite and the PostgreSQL statements where the code has two; what the pipeline does
  between the fences is left open.
\<close>

section \<open>The fence\<close>

datatype fence_error = NotOwned | SourceGone | IdentityChanged | RenewalRejected

datatype worker_error = FenceRejected fence_error | ContractViolation string | OtherError string

type_synonym snapshot = "(string \<times> string option) list"

text \<open>\<open>ls_job\<close> is the row as the claim returned it.\<close>

record lease =
  ls_job :: job
  ls_worker :: string
  ls_seconds :: nat
  ls_expected :: snapshot

definition add_seconds :: "nat \<Rightarrow> nat \<Rightarrow> nat" where
  "add_seconds t s = utc_now (t + s * 1000000)"

definition owned :: "lease \<Rightarrow> nat \<Rightarrow> job \<Rightarrow> bool" where
  "owned l now r \<longleftrightarrow> jb_uuid r = jb_uuid (ls_job l) \<and> jb_status r = RUNNING \<and>
     jb_locked_by r = Some (ls_worker l) \<and> jb_lease_token r \<noteq> None \<and>
     jb_lease_token r = jb_lease_token (ls_job l) \<and>
     jb_lease_generation r = jb_lease_generation (ls_job l) \<and>
     (case jb_lease_expires_at r of None \<Rightarrow> False | Some e \<Rightarrow> now \<le> e)"

definition MEMORY_EXTRACTION_JOB :: string where
  "MEMORY_EXTRACTION_JOB = ''memory_extraction''"

text \<open>\<open>current\<close> is the live snapshot, \<open>None\<close> if computing it raises.\<close>

definition fence :: "lease \<Rightarrow> snapshot option \<Rightarrow> bool \<Rightarrow> nat \<Rightarrow> job list \<Rightarrow> (fence_error, unit) result \<times> job list" where
  "fence l current before_provider t rows =
     (let now = utc_now t in
      if \<not> list_ex (\<lambda>r. owned l now r \<and> jb_type r = MEMORY_EXTRACTION_JOB) rows then (Inl NotOwned, rows)
      else (case current of
              None \<Rightarrow> (Inl SourceGone, rows)
            | Some snap \<Rightarrow>
                (if snap \<noteq> ls_expected l then (Inl IdentityChanged, rows)
                 else if \<not> before_provider then (Inr (), rows)
                 else (case update_where (owned l now)
                         (\<lambda>r. r\<lparr>jb_lease_expires_at := Some (add_seconds now (ls_seconds l)),
                            jb_locked_at := Some now, jb_updated_at := Some now\<rparr>) rows of
                         (n, rows') \<Rightarrow> (if n \<noteq> 1 then (Inl RenewalRejected, rows') else (Inr (), rows'))))))"

section \<open>Claims and recovery\<close>

definition extraction_stale :: "nat \<Rightarrow> job \<Rightarrow> bool" where
  "extraction_stale now r \<longleftrightarrow> jb_type r = MEMORY_EXTRACTION_JOB \<and> jb_status r = RUNNING \<and>
     (jb_lease_expires_at r = None \<or> before (jb_lease_expires_at r) now)"

definition extraction_expire :: "nat option \<Rightarrow> job \<Rightarrow> job" where
  "extraction_expire updated r = r\<lparr>jb_status := expired_status r, jb_locked_by := None, jb_locked_at := None,
     jb_lease_token := None, jb_lease_expires_at := None,
     jb_last_error_sanitized := coalesce (jb_last_error_sanitized r) ''lease expired'',
     jb_updated_at := (case updated of None \<Rightarrow> jb_updated_at r | Some t \<Rightarrow> Some t)\<rparr>"

definition recover_extraction :: "nat \<Rightarrow> nat option \<Rightarrow> job list \<Rightarrow> job list" where
  "recover_extraction now updated rows =
     snd (update_where (extraction_stale now) (extraction_expire updated) rows)"

definition recover_stale_jobs :: "bool \<Rightarrow> nat \<Rightarrow> job list \<Rightarrow> job list" where
  "recover_stale_jobs lite t rows =
     (if lite then recover_extraction (utc_now t) None rows else recover_extraction t (Some t) rows)"

definition full_claimable :: "string set \<Rightarrow> nat \<Rightarrow> job \<Rightarrow> bool" where
  "full_claimable skip t r \<longleftrightarrow> jb_status r = PENDING \<and> jb_type r = MEMORY_EXTRACTION_JOB \<and>
     pg_due t (jb_run_after r) \<and> jb_uuid r \<notin> skip"

definition full_take :: "string \<Rightarrow> string \<Rightarrow> nat \<Rightarrow> nat \<Rightarrow> job \<Rightarrow> job" where
  "full_take worker token secs t r = r\<lparr>jb_status := RUNNING, jb_locked_by := Some worker, jb_locked_at := Some t,
     jb_lease_token := Some token, jb_lease_generation := Suc (jb_lease_generation r),
     jb_lease_expires_at := Some (t + secs * 1000000), jb_attempts := Suc (jb_attempts r),
     jb_updated_at := Some t\<rparr>"

definition claim_next_extraction_job ::
  "string set \<Rightarrow> string \<Rightarrow> string \<Rightarrow> nat \<Rightarrow> nat \<Rightarrow> job list \<Rightarrow> job option \<times> job list" where
  "claim_next_extraction_job skip worker token secs t rows =
     claim_first (full_claimable skip t) pg_order jb_uuid (full_take worker token secs t)
       (recover_extraction (utc_now t) (Some (utc_now t)) rows)"

definition lite_claimable :: "nat \<Rightarrow> job \<Rightarrow> bool" where
  "lite_claimable t r \<longleftrightarrow> jb_status r = PENDING \<and> jb_type r = MEMORY_EXTRACTION_JOB \<and>
     due (utc_now t) (jb_run_after r)"

definition lite_order :: "job \<Rightarrow> int \<times> nat \<times> nat" where
  "lite_order r = (- jb_priority r,
     (case jb_run_after r of None \<Rightarrow> jb_created_at r | Some t \<Rightarrow> t), jb_created_at r)"

definition lite_take :: "string \<Rightarrow> string \<Rightarrow> nat \<Rightarrow> nat \<Rightarrow> job \<Rightarrow> job" where
  "lite_take worker token secs t r = r\<lparr>jb_status := RUNNING, jb_locked_by := Some worker,
     jb_locked_at := Some (utc_now t), jb_lease_token := Some token,
     jb_lease_generation := Suc (jb_lease_generation r),
     jb_lease_expires_at := Some (add_seconds (utc_now t) secs), jb_attempts := Suc (jb_attempts r)\<rparr>"

definition claim_next_extraction_job_sqlite ::
  "string \<Rightarrow> string \<Rightarrow> nat \<Rightarrow> nat \<Rightarrow> job list \<Rightarrow> job option \<times> job list" where
  "claim_next_extraction_job_sqlite worker token secs t rows =
     (let rows1 = recover_extraction (utc_now t) None rows in
      case min_key lite_order (filter (lite_claimable t) rows1) of
        None \<Rightarrow> (None, rows1)
      | Some row \<Rightarrow>
          (case update_where (\<lambda>r. jb_uuid r = jb_uuid row \<and> jb_status r = PENDING)
                  (lite_take worker token secs t) rows1 of
             (n, rows2) \<Rightarrow> (if n = 1 then get_job (jb_uuid row) rows2 else None, rows2)))"

definition claim_extraction ::
  "bool \<Rightarrow> string set \<Rightarrow> string \<Rightarrow> string \<Rightarrow> nat \<Rightarrow> nat \<Rightarrow> job list \<Rightarrow> job option \<times> job list" where
  "claim_extraction lite skip worker token secs t rows =
     (if lite then claim_next_extraction_job_sqlite worker token secs t rows
      else claim_next_extraction_job skip worker token secs t rows)"

section \<open>Recording the end of a job\<close>

record job_attempt =
  ja_uuid :: string
  ja_job_uuid :: string
  ja_worker :: string
  ja_status :: string
  ja_started_at :: nat
  ja_finished_at :: "nat option"
  ja_error :: "string option"

definition record_attempt :: "string \<Rightarrow> job \<Rightarrow> string \<Rightarrow> nat \<Rightarrow> job_attempt list \<Rightarrow> job_attempt list" where
  "record_attempt u j worker t as = as @ [\<lparr>ja_uuid = u, ja_job_uuid = jb_uuid j, ja_worker = worker,
     ja_status = ''running'', ja_started_at = utc_now t, ja_finished_at = None, ja_error = None\<rparr>]"

definition close_attempt :: "string \<Rightarrow> string \<Rightarrow> nat \<Rightarrow> string option \<Rightarrow> job_attempt list \<Rightarrow> job_attempt list" where
  "close_attempt u st now err as = map (\<lambda>a. if ja_uuid a = u
     then a\<lparr>ja_status := st, ja_finished_at := Some now, ja_error := err\<rparr> else a) as"

definition succeeded :: "bool \<Rightarrow> nat \<Rightarrow> job \<Rightarrow> job" where
  "succeeded lite now r = r\<lparr>jb_status := SUCCEEDED, jb_locked_by := None, jb_locked_at := None,
     jb_lease_token := None, jb_lease_expires_at := None, jb_last_error := None,
     jb_last_error_sanitized := None, jb_run_after := None,
     jb_updated_at := (if lite then jb_updated_at r else Some now)\<rparr>"

text \<open>The unitization jobs of the message are closed with it; they keep their lease columns.
  \<open>like\<close> is SQLite's \<open>LIKE\<close> on the stored text, an argument.\<close>

definition unitization_of :: "bool \<Rightarrow> (string \<Rightarrow> json \<Rightarrow> bool) \<Rightarrow> string \<Rightarrow> job \<Rightarrow> bool" where
  "unitization_of lite like message r \<longleftrightarrow> jb_type r = ''text_unitization'' \<and>
     (jb_status r = PENDING \<or> jb_status r = RUNNING) \<and>
     (if lite then like message (jb_payload r)
      else (case jb_payload r of JObj d \<Rightarrow> jget d ''message_uuid'' = jlit message | _ \<Rightarrow> False))"

definition unitization_closed :: "bool \<Rightarrow> nat \<Rightarrow> job \<Rightarrow> job" where
  "unitization_closed lite now r = r\<lparr>jb_status := SUCCEEDED, jb_locked_by := None, jb_locked_at := None,
     jb_last_error := None, jb_last_error_sanitized := None, jb_run_after := None,
     jb_updated_at := (if lite then jb_updated_at r else Some now)\<rparr>"

definition record_success ::
  "bool \<Rightarrow> (string \<Rightarrow> json \<Rightarrow> bool) \<Rightarrow> lease \<Rightarrow> string \<Rightarrow> nat \<Rightarrow> job list \<Rightarrow> (fence_error, unit) result \<times> job list" where
  "record_success lite like l message t rows =
     (let now = utc_now t in
      case update_where (owned l now) (succeeded lite now) rows of
        (n, rows1) \<Rightarrow>
          (if n \<noteq> 1 then (Inl NotOwned, rows)
           else (Inr (), snd (update_where (unitization_of lite like message) (unitization_closed lite now) rows1))))"

fun is_terminal_error :: "worker_error \<Rightarrow> bool" where
  "is_terminal_error (ContractViolation _) = True"
| "is_terminal_error _ = False"

text \<open>\<open>int(job.get("max_attempts") or d)\<close>: the default replaces a zero.\<close>

definition terminal_failure :: "bool \<Rightarrow> worker_error \<Rightarrow> job \<Rightarrow> bool" where
  "terminal_failure lite e j \<longleftrightarrow> is_terminal_error e \<or>
     (if jb_max_attempts j = 0 then (if lite then 3 else 1) else jb_max_attempts j) \<le> int (jb_attempts j)"

definition failed :: "bool \<Rightarrow> bool \<Rightarrow> string \<Rightarrow> nat \<Rightarrow> job \<Rightarrow> job" where
  "failed lite terminal message t r = r\<lparr>jb_status := (if terminal then DEAD else PENDING),
     jb_locked_by := None, jb_locked_at := None, jb_lease_token := None, jb_lease_expires_at := None,
     jb_last_error := Some message, jb_last_error_sanitized := Some message,
     jb_run_after := (if terminal then None else Some (if lite then utc_now t else t + 1000000)),
     jb_updated_at := (if lite then jb_updated_at r else Some (utc_now t))\<rparr>"

text \<open>\<open>message\<close> is the sanitized text of the error.  The flag is \<open>rowcount == 1\<close>; a fenced failure
  is rolled back on SQLite and wrote nothing on PostgreSQL.\<close>

definition record_failure :: "bool \<Rightarrow> lease \<Rightarrow> worker_error \<Rightarrow> string \<Rightarrow> nat \<Rightarrow> job list \<Rightarrow> bool \<times> job list" where
  "record_failure lite l e message t rows =
     (case update_where (owned l (utc_now t)) (failed lite (terminal_failure lite e (ls_job l)) message t) rows of
        (n, rows') \<Rightarrow> (if n \<noteq> 1 then (False, rows) else (True, rows')))"

section \<open>The protocol\<close>

datatype phase = Claimed | Guarded | Prepared | Failing worker_error

datatype wstate = Idle | Holding lease "string option" phase   \<comment> \<open>with its attempt row, if any\<close>

text \<open>
  What happened to the jobs, in order.  An entry \<open>Acted\<close> is an operation the database accepted
  under a lease; the last three are what the other writers did to a row, read off the change.
\<close>

datatype fenced_act = Renewal | CanonicalWrite | SuccessRecorded | FailureRecorded

datatype event =
    Queued (ev_job: string) "nat option"
  | Took (ev_job: string) string nat                 \<comment> \<open>worker and generation\<close>
  | Acted (ev_job: string) string nat fenced_act
  | Requeued (ev_job: string)
  | Started (ev_job: string)
  | Rescheduled (ev_job: string) nat

record sys =
  sy_clock :: nat
  sy_jobs :: "job list"
  sy_attempts :: "job_attempt list"
  sy_workers :: "string \<Rightarrow> wstate"
  sy_history :: "event list"

definition empty_sys :: sys where
  "empty_sys = \<lparr>sy_clock = 0, sy_jobs = [], sy_attempts = [], sy_workers = (\<lambda>_. Idle), sy_history = []\<rparr>"

definition phase_after :: "(fence_error, unit) result \<Rightarrow> phase \<Rightarrow> phase" where
  "phase_after res p = (case res of Inl e \<Rightarrow> Failing (FenceRejected e) | Inr _ \<Rightarrow> p)"

definition acted :: "lease \<Rightarrow> bool \<Rightarrow> fenced_act \<Rightarrow> event list" where
  "acted l ok k = (if ok then [Acted (jb_uuid (ls_job l)) (ls_worker l) (jb_lease_generation (ls_job l)) k] else [])"

definition observed :: "job \<Rightarrow> job \<Rightarrow> event list" where
  "observed r r' =
     (if jb_status r' = PENDING \<and> jb_status r \<noteq> PENDING then [Requeued (jb_uuid r)] else []) @
     (if jb_attempts r' \<noteq> jb_attempts r then [Started (jb_uuid r)] else []) @
     (case jb_run_after r' of None \<Rightarrow> [] | Some t \<Rightarrow>
        (if jb_run_after r = Some t then [] else [Rescheduled (jb_uuid r) t]))"

definition observe :: "job list \<Rightarrow> job list \<Rightarrow> event list" where
  "observe rows rows' = concat (map2 observed rows rows')"

abbreviation set_worker :: "string \<Rightarrow> wstate \<Rightarrow> sys \<Rightarrow> sys" where
  "set_worker w x s \<equiv> s\<lparr>sy_workers := (sy_workers s)(w := x)\<rparr>"

text \<open>
  One step of one party; each is one committed transaction.  \<open>expected\<close>, \<open>current\<close>, tokens,
  messages and the errors the pipeline may raise are arbitrary.  The attempt row is a transaction of
  its own, after the claim and before everything else, and only on PostgreSQL.  A crash forgets the
  worker's state; nothing committed is undone.
\<close>

inductive sys_step :: "bool \<Rightarrow> (string \<Rightarrow> json \<Rightarrow> bool) \<Rightarrow> sys \<Rightarrow> sys \<Rightarrow> bool" for lite like where
  tick: "sy_clock s \<le> t \<Longrightarrow> sys_step lite like s (s\<lparr>sy_clock := t\<rparr>)"
| enqueue: "u \<notin> jb_uuid ` set (sy_jobs s) \<Longrightarrow> 1 \<le> mx \<Longrightarrow>
    sys_step lite like s (s\<lparr>sy_jobs := sy_jobs s @ [new_job u created ty payload pr key ra mx],
      sy_history := sy_history s @ [Queued u ra]\<rparr>)"
| other_writer: "rows = apply_write (sy_clock s) op (sy_jobs s) \<Longrightarrow>
    sys_step lite like s (s\<lparr>sy_jobs := rows, sy_history := sy_history s @ observe (sy_jobs s) rows\<rparr>)"
| queue_claim: "lite \<Longrightarrow> claim_next_job (sy_clock s) (sy_jobs s) = (res, rows) \<Longrightarrow>
    sys_step lite like s (s\<lparr>sy_jobs := rows, sy_history := sy_history s @ observe (sy_jobs s) rows\<rparr>)"
| recover: "sys_step lite like s (s\<lparr>sy_jobs := recover_stale_jobs lite (sy_clock s) (sy_jobs s)\<rparr>)"
| claim_nothing: "sy_workers s w = Idle \<Longrightarrow>
    claim_extraction lite skip w token secs (sy_clock s) (sy_jobs s) = (None, rows) \<Longrightarrow>
    sys_step lite like s (s\<lparr>sy_jobs := rows\<rparr>)"
| claim: "sy_workers s w = Idle \<Longrightarrow>
    claim_extraction lite skip w token secs (sy_clock s) (sy_jobs s) = (Some j, rows) \<Longrightarrow>
    l = \<lparr>ls_job = j, ls_worker = w, ls_seconds = secs, ls_expected = expected\<rparr> \<Longrightarrow>
    sys_step lite like s (set_worker w (Holding l None Claimed)
      (s\<lparr>sy_jobs := rows, sy_history := sy_history s @ [Took (jb_uuid j) w (jb_lease_generation j)]\<rparr>))"
| open_attempt: "\<not> lite \<Longrightarrow> sy_workers s w = Holding l None Claimed \<Longrightarrow>
    sys_step lite like s (set_worker w (Holding l (Some u) Claimed)
      (s\<lparr>sy_attempts := record_attempt u (ls_job l) w (sy_clock s) (sy_attempts s)\<rparr>))"
| guard: "sy_workers s w = Holding l a p \<Longrightarrow> lite = (a = None) \<Longrightarrow> p \<in> {Claimed, Guarded, Prepared} \<Longrightarrow>
    fence l current True (sy_clock s) (sy_jobs s) = (res, rows) \<Longrightarrow>
    sys_step lite like s (set_worker w (Holding l a (phase_after res (if p = Claimed then Guarded else p)))
      (s\<lparr>sy_jobs := rows, sy_history := sy_history s @ acted l (res = Inr ()) Renewal\<rparr>))"
| prepare: "sy_workers s w = Holding l a Guarded \<Longrightarrow>
    sys_step lite like s (set_worker w (Holding l a Prepared) s)"
| raise: "sy_workers s w = Holding l a p \<Longrightarrow> lite = (a = None) \<Longrightarrow>
    sys_step lite like s (set_worker w (Holding l a (Failing e)) s)"
| canonical_write: "sy_workers s w = Holding l a Prepared \<Longrightarrow>
    fence l current False (sy_clock s) (sy_jobs s) = (res, rows) \<Longrightarrow>
    sys_step lite like s (set_worker w (Holding l a (phase_after res Prepared))
      (s\<lparr>sy_history := sy_history s @ acted l (res = Inr ()) CanonicalWrite\<rparr>))"
| finish: "sy_workers s w = Holding l a Prepared \<Longrightarrow>
    record_success lite like l message (sy_clock s) (sy_jobs s) = (Inr (), rows) \<Longrightarrow>
    sys_step lite like s (set_worker w Idle (s\<lparr>sy_jobs := rows,
      sy_attempts := (case a of None \<Rightarrow> sy_attempts s
        | Some u \<Rightarrow> close_attempt u ''succeeded'' (utc_now (sy_clock s)) None (sy_attempts s)),
      sy_history := sy_history s @ acted l True SuccessRecorded\<rparr>))"
| fenced_finish: "sy_workers s w = Holding l a Prepared \<Longrightarrow>
    record_success lite like l message (sy_clock s) (sy_jobs s) = (Inl e, rows) \<Longrightarrow>
    sys_step lite like s (set_worker w (Holding l a (Failing (FenceRejected e))) s)"
| fail: "sy_workers s w = Holding l a (Failing e) \<Longrightarrow>
    record_failure lite l e message (sy_clock s) (sy_jobs s) = (written, rows) \<Longrightarrow>
    sys_step lite like s (set_worker w Idle (s\<lparr>sy_jobs := rows,
      sy_attempts := (case a of None \<Rightarrow> sy_attempts s | Some u \<Rightarrow> (if written
        then close_attempt u ''failed'' (utc_now (sy_clock s)) (Some message) (sy_attempts s)
        else sy_attempts s)),
      sy_history := sy_history s @ acted l written FailureRecorded\<rparr>))"
| crash: "sys_step lite like s (set_worker w Idle s)"

inductive reachable :: "bool \<Rightarrow> (string \<Rightarrow> json \<Rightarrow> bool) \<Rightarrow> sys \<Rightarrow> bool" for lite like where
  start: "reachable lite like empty_sys"
| step: "reachable lite like s \<Longrightarrow> sys_step lite like s s' \<Longrightarrow> reachable lite like s'"

inductive_cases lease_step_cases: "sys_step lite like s s'"

section \<open>The history of one job\<close>

definition job_history :: "string \<Rightarrow> event list \<Rightarrow> event list" where
  "job_history u H = filter (\<lambda>e. ev_job e = u) H"

text \<open>Worker and generation of every claim, in order.\<close>

fun claims :: "event list \<Rightarrow> (string \<times> nat) list" where
  "claims [] = []"
| "claims (Took u w g # H) = (w, g) # claims H"
| "claims (_ # H) = claims H"

definition starts :: "event list \<Rightarrow> nat" where
  "starts H = length (filter is_Started H)"

definition requeues :: "event list \<Rightarrow> nat" where
  "requeues H = length (filter is_Requeued H)"

definition queued_unscheduled :: "event list \<Rightarrow> bool" where
  "queued_unscheduled H = list_ex (\<lambda>e. case e of Queued u ra \<Rightarrow> ra = None | _ \<Rightarrow> False) H"

definition rescheduled :: "event list \<Rightarrow> bool" where
  "rescheduled H = list_ex is_Rescheduled H"

lemma claims_append [simp]: "claims (xs @ ys) = claims xs @ claims ys"
  by (induction xs rule: claims.induct) simp_all

lemma starts_append [simp]: "starts (xs @ ys) = starts xs + starts ys"
  by (simp add: starts_def)

lemma requeues_append [simp]: "requeues (xs @ ys) = requeues xs + requeues ys"
  by (simp add: requeues_def)

lemma job_history_append [simp]: "job_history u (xs @ ys) = job_history u xs @ job_history u ys"
  by (simp add: job_history_def)

lemma unscheduled_append [simp]: "queued_unscheduled (xs @ ys) \<longleftrightarrow> queued_unscheduled xs \<or> queued_unscheduled ys"
  by (simp add: queued_unscheduled_def)

lemma rescheduled_append [simp]: "rescheduled (xs @ ys) \<longleftrightarrow> rescheduled xs \<or> rescheduled ys"
  by (simp add: rescheduled_def)

lemma job_history_Nil [simp]: "job_history u [] = []"
  by (simp add: job_history_def)

lemma job_history_one [simp]: "job_history u [e] = (if ev_job e = u then [e] else [])"
  by (simp add: job_history_def)

lemmas counts = starts_def requeues_def queued_unscheduled_def rescheduled_def

lemma counts_Nil [simp]:
  "starts [] = 0" "requeues [] = 0" "\<not> queued_unscheduled []" "\<not> rescheduled []"
  by (simp_all add: counts)

lemma claims_acted [simp]: "claims (acted l ok k) = []"
  by (simp add: acted_def)

lemma counts_acted [simp]:
  "starts (acted l ok k) = 0" "requeues (acted l ok k) = 0" "\<not> queued_unscheduled (acted l ok k)"
  "\<not> rescheduled (acted l ok k)"
  by (simp_all add: acted_def counts)

lemma job_history_acted: "job_history u (acted l ok k) = (if jb_uuid (ls_job l) = u then acted l ok k else [])"
  by (simp add: acted_def)

lemma job_history_unknown: "u \<notin> ev_job ` set H \<Longrightarrow> job_history u H = []"
  by (auto simp: job_history_def filter_empty_conv)

section \<open>What an operation may do to a row\<close>

text \<open>
  The worker's own statements: identity, budget, generation and counter stay; a job becomes pending
  only while its counter is below the budget, and gets a due time only after its first claim.
\<close>

definition row_step :: "job \<Rightarrow> job \<Rightarrow> bool" where
  "row_step r r' \<longleftrightarrow> jb_uuid r' = jb_uuid r \<and> jb_max_attempts r' = jb_max_attempts r \<and>
     jb_lease_generation r' = jb_lease_generation r \<and> jb_attempts r' = jb_attempts r \<and>
     (jb_status r' = PENDING \<longrightarrow> jb_status r = PENDING \<or> int (jb_lease_generation r) < jb_max_attempts r) \<and>
     (jb_run_after r' = jb_run_after r \<or> jb_run_after r' = None \<or> 0 < jb_lease_generation r)"

abbreviation table_step :: "job list \<Rightarrow> job list \<Rightarrow> bool" where
  "table_step \<equiv> list_all2 row_step"

lemma row_step_refl [simp]: "row_step r r"
  by (simp add: row_step_def)

lemma table_step_refl [simp]: "table_step rows rows"
  by (simp add: list_all2_refl)

lemma table_step_trans: "table_step a b \<Longrightarrow> table_step b c \<Longrightarrow> table_step a c"
  by (rule list_all2_trans [of row_step row_step row_step]) (auto simp: row_step_def)

lemma table_step_update:
  "(\<And>r. r \<in> set rows \<Longrightarrow> c r \<Longrightarrow> row_step r (f r)) \<Longrightarrow> table_step rows (snd (update_where c f rows))"
  by (simp add: update_where_def list_all2_map2 list_all2_same)

lemma table_step_uuids: "table_step rows rows' \<Longrightarrow> map jb_uuid rows' = map jb_uuid rows"
  by (induction rows rows' rule: list_all2_induct) (auto simp: row_step_def)

lemma foreign_uuids: "list_all2 foreign_step rows rows' \<Longrightarrow> map jb_uuid rows' = map jb_uuid rows"
  by (induction rows rows' rule: list_all2_induct) (auto simp: foreign_step_def)

definition counted :: "job list \<Rightarrow> bool" where
  "counted rows \<longleftrightarrow> (\<forall>r \<in> set rows. jb_lease_generation r \<le> jb_attempts r)"

lemma table_step_recover:
  assumes "counted rows"
  shows "table_step rows (recover_extraction now u rows)"
  unfolding recover_extraction_def
proof (rule table_step_update)
  fix r assume "r \<in> set rows" "extraction_stale now r"
  with assms show "row_step r (extraction_expire u r)"
    by (auto simp: row_step_def extraction_expire_def expired_status_def counted_def)
qed

lemma table_step_recover_stale: "counted rows \<Longrightarrow> table_step rows (recover_stale_jobs lite t rows)"
  by (simp add: recover_stale_jobs_def table_step_recover)

lemma table_step_fence:
  assumes "fence l cur bp t rows = (res, rows')"
  shows "table_step rows rows'"
proof -
  have "table_step rows (snd (update_where (owned l now)
      (\<lambda>r. r\<lparr>jb_lease_expires_at := e, jb_locked_at := x, jb_updated_at := y\<rparr>) rows))" for now e x y
    by (rule table_step_update) (simp add: row_step_def)
  with assms show ?thesis
    by (auto simp: fence_def Let_def split: option.splits if_splits prod.splits)
      (metis snd_conv)+
qed

lemma table_step_success:
  assumes "record_success lite like l msg t rows = (res, rows')"
  shows "table_step rows rows'"
proof -
  let ?n = "utc_now t"
  have 1: "table_step rows (snd (update_where (owned l ?n) (succeeded lite ?n) rows))"
    by (rule table_step_update) (simp add: row_step_def succeeded_def)
  have 2: "table_step rs (snd (update_where (unitization_of lite like msg) (unitization_closed lite ?n) rs))" for rs
    by (rule table_step_update) (simp add: row_step_def unitization_closed_def)
  from assms show ?thesis
    using table_step_trans [OF 1 2]
    by (auto simp: record_success_def Let_def split: prod.splits if_splits)
qed

text \<open>What the database accepts under a lease, it accepts on a row the lease owns.\<close>

lemma fence_accepts:
  "fence l cur bp t rows = (Inr u, rows') \<Longrightarrow> \<exists>r \<in> set rows. owned l (utc_now t) r"
  by (auto simp: fence_def Let_def list_ex_iff split: if_splits)

lemma success_accepted:
  "record_success lite like l msg t rows = (Inr u, rows') \<Longrightarrow> \<exists>r \<in> set rows. owned l (utc_now t) r"
  by (auto simp: record_success_def Let_def update_where_def length_Suc_conv filter_eq_Cons_iff
      split: if_splits)

lemma failure_accepted:
  "record_failure lite l e msg t rows = (True, rows') \<Longrightarrow> \<exists>r \<in> set rows. owned l (utc_now t) r"
  by (auto simp: record_failure_def update_where_def length_Suc_conv filter_eq_Cons_iff split: if_splits)

text \<open>A claim, on either database: some pending row of the recovered table, one generation up.\<close>

definition taken :: "bool \<Rightarrow> job \<Rightarrow> job \<Rightarrow> bool" where
  "taken lite r j \<longleftrightarrow> jb_status r = PENDING \<and> (lite \<or> jb_run_after r \<noteq> None) \<and>
     jb_uuid j = jb_uuid r \<and> jb_status j = RUNNING \<and> jb_max_attempts j = jb_max_attempts r \<and>
     jb_lease_generation j = Suc (jb_lease_generation r) \<and> jb_attempts j = Suc (jb_attempts r)"

lemma taken_take:
  "full_claimable skip t r \<Longrightarrow> taken False r (full_take w token secs t r)"
  "lite_claimable t r \<Longrightarrow> taken True r (lite_take w token secs t r)"
  by (auto simp: taken_def full_claimable_def full_take_def lite_claimable_def lite_take_def pg_due_def
      split: option.splits)

definition replace_row :: "job \<Rightarrow> job list \<Rightarrow> job list" where
  "replace_row j rows = map (\<lambda>x. if jb_uuid x = jb_uuid j then j else x) rows"

definition claim_outcome :: "bool \<Rightarrow> job list \<Rightarrow> job option \<Rightarrow> job list \<Rightarrow> bool" where
  "claim_outcome lite rows res rows' \<longleftrightarrow> (\<exists>rec. table_step rows rec \<and>
     (case res of None \<Rightarrow> rows' = rec
      | Some j \<Rightarrow> (\<exists>r \<in> set rec. taken lite r j \<and> rows' = replace_row j rec)))"

lemma claim_outcome_None: "table_step rows rows' \<Longrightarrow> claim_outcome lite rows None rows'"
  by (auto simp: claim_outcome_def)

lemma claim_outcome_Some:
  "table_step rows rec \<Longrightarrow> r \<in> set rec \<Longrightarrow> taken lite r j \<Longrightarrow>
     rows' = map (\<lambda>x. if jb_uuid x = jb_uuid r then j else x) rec \<Longrightarrow> claim_outcome lite rows (Some j) rows'"
  by (auto simp: claim_outcome_def replace_row_def taken_def intro!: exI [of _ rec] bexI [of _ r])

lemma lite_claim_outcome:
  assumes "claim_next_extraction_job_sqlite w token secs t rows = (res, rows')" "distinct (map jb_uuid rows)"
    and "counted rows"
  shows "claim_outcome True rows res rows'"
proof -
  let ?R = "recover_extraction (utc_now t) None rows" and ?f = "lite_take w token secs t"
  have rec: "table_step rows ?R" by (rule table_step_recover [OF assms(3)])
  have du: "distinct (map jb_uuid ?R)" using table_step_uuids [OF rec] assms(2) by simp
  show ?thesis
  proof (cases "min_key lite_order (filter (lite_claimable t) ?R)")
    case None
    with assms(1) have "res = None" "rows' = ?R"
      unfolding claim_next_extraction_job_sqlite_def Let_def by simp_all
    with rec show ?thesis by (simp add: claim_outcome_None)
  next
    case (Some r)
    from min_key_filter_Some [OF Some] have r: "r \<in> set ?R" "jb_status r = PENDING" "lite_claimable t r"
      by (auto simp: lite_claimable_def)
    have f: "?f r = ?f r" "jb_uuid (?f r) = jb_uuid r" by (simp_all add: lite_take_def)
    note swap = swap_pending [where f = ?f, OF du r(1,2) f]
    have "res = Some (?f r)" "rows' = map (\<lambda>x. if jb_uuid x = jb_uuid r then ?f r else x) ?R"
      using assms(1) unfolding claim_next_extraction_job_sqlite_def Let_def Some option.case swap(1) prod.case
        swap(2) by simp_all
    then show ?thesis
      using claim_outcome_Some [OF rec r(1) taken_take(2) [OF r(3)]] by blast
  qed
qed

lemma full_claim_outcome:
  assumes "claim_next_extraction_job skip w token secs t rows = (res, rows')" "distinct (map jb_uuid rows)"
    and "counted rows"
  shows "claim_outcome False rows res rows'"
proof -
  let ?R = "recover_extraction (utc_now t) (Some (utc_now t)) rows" and ?f = "full_take w token secs t"
  have rec: "table_step rows ?R" by (rule table_step_recover [OF assms(3)])
  have du: "distinct (map jb_uuid ?R)" using table_step_uuids [OF rec] assms(2) by simp
  from assms(1) have c: "claim_first (full_claimable skip t) pg_order jb_uuid ?f ?R = (res, rows')"
    unfolding claim_next_extraction_job_def .
  show ?thesis
  proof (cases res)
    case None
    with claim_first_None [OF c [unfolded None]] rec show ?thesis by (simp add: claim_outcome_None)
  next
    case (Some j)
    from c [unfolded Some] obtain r where r: "r \<in> set ?R" "full_claimable skip t r" "j = ?f r"
      "rows' = map (\<lambda>x. if jb_uuid x = jb_uuid r then ?f x else x) ?R" by (rule claim_first_Some)
    from r(4) have "rows' = map (\<lambda>x. if jb_uuid x = jb_uuid r then j else x) ?R"
      unfolding map_update_same [where f = ?f, OF du r(1)] r(3) .
    with claim_outcome_Some [OF rec r(1) taken_take(1) [OF r(2)]] r(3) show ?thesis
      unfolding Some by blast
  qed
qed

lemma claim_extraction_outcome:
  "claim_extraction lite skip w token secs t rows = (res, rows') \<Longrightarrow> distinct (map jb_uuid rows) \<Longrightarrow>
     counted rows \<Longrightarrow> claim_outcome lite rows res rows'"
  unfolding claim_extraction_def by (cases lite) (auto intro: lite_claim_outcome full_claim_outcome)

text \<open>The queue's claim of any job is the step of another writer.\<close>

lemma queue_claim_foreign:
  assumes "claim_next_job t rows = (res, rows')"
  shows "list_all2 foreign_step rows rows'"
proof -
  have same: "list_all2 foreign_step rows rows" by (simp add: list_all2_refl foreign_step_def)
  show ?thesis
  proof (cases res)
    case None
    with assms claim_first_None same show ?thesis unfolding claim_next_job_def by blast
  next
    case (Some j)
    from assms obtain r where "r \<in> set rows" "sqlite_claimable t r" "j = sqlite_take t r"
      "\<forall>x \<in> set rows. sqlite_claimable t x \<longrightarrow> sqlite_order r \<le> sqlite_order x"
      "rows' = map (\<lambda>x. if jb_uuid x = jb_uuid r then sqlite_take t x else x) rows"
      unfolding Some claim_next_job_def by (rule claim_first_Some)
    then show ?thesis by (simp add: list_all2_map2 list_all2_same foreign_step_def sqlite_take_def)
  qed
qed

lemma ev_job_observed: "e \<in> set (observed r r') \<Longrightarrow> ev_job e = jb_uuid r"
  by (auto simp: observed_def split: if_splits option.splits)

lemma observe_jobs: "ev_job ` set (observe rows rows') \<subseteq> jb_uuid ` set rows"
  by (auto simp: observe_def ev_job_observed dest: set_zip_leftD)

lemma history_observe:
  "list_all2 foreign_step rows rows' \<Longrightarrow> distinct (map jb_uuid rows) \<Longrightarrow> (r, r') \<in> set (zip rows rows') \<Longrightarrow>
     job_history (jb_uuid r) (observe rows rows') = observed r r'"
proof (induction rows rows' rule: list_all2_induct)
  case (Cons x xs y ys)
  have own: "job_history u (observed x y) = (if jb_uuid x = u then observed x y else [])" for u
    by (simp add: observed_def job_history_def split: option.split)
  have rest: "job_history u (observe xs ys) = []" if "u \<notin> jb_uuid ` set xs" for u
    using observe_jobs [of xs ys] that by (intro job_history_unknown) blast
  have split: "observe (x # xs) (y # ys) = observed x y @ observe xs ys" by (simp add: observe_def)
  from Cons.prems(2) show ?case
  proof (cases "r = x \<and> r' = y")
    case True
    with own rest [of "jb_uuid x"] Cons.prems(1) split show ?thesis by simp
  next
    case False
    with Cons.prems(2) have z: "(r, r') \<in> set (zip xs ys)" by auto
    then have "r \<in> set xs" by (rule set_zip_leftD)
    with Cons.prems(1) have "jb_uuid x \<noteq> jb_uuid r" by auto
    with own split Cons.IH [OF _ z] Cons.prems(1) show ?thesis by simp
  qed
qed simp

section \<open>The invariant\<close>

text \<open>
  Against the history of its job: the generations of the claims count up from one to the row's
  own, the counter is claims plus starts of the other writers, the claims stay within the budget
  plus the times another writer put the job back, strictly so while it is pending.
\<close>

definition row_ok :: "bool \<Rightarrow> event list \<Rightarrow> job \<Rightarrow> bool" where
  "row_ok lite J r \<longleftrightarrow> map snd (claims J) = [1..<Suc (jb_lease_generation r)] \<and>
     jb_attempts r = jb_lease_generation r + starts J \<and> 1 \<le> jb_max_attempts r \<and>
     int (jb_lease_generation r) \<le> jb_max_attempts r + int (requeues J) \<and>
     (jb_status r = PENDING \<longrightarrow> int (jb_lease_generation r) < jb_max_attempts r + int (requeues J)) \<and>
     (\<not> lite \<and> queued_unscheduled J \<and> \<not> rescheduled J \<longrightarrow> jb_run_after r = None \<and> jb_lease_generation r = 0)"

definition rows_ok :: "bool \<Rightarrow> job list \<Rightarrow> event list \<Rightarrow> bool" where
  "rows_ok lite rows H \<longleftrightarrow> distinct (map jb_uuid rows) \<and> ev_job ` set H \<subseteq> jb_uuid ` set rows \<and>
     (\<forall>r \<in> set rows. row_ok lite (job_history (jb_uuid r) H) r)"

fun lease_of :: "wstate \<Rightarrow> lease option" where
  "lease_of Idle = None"
| "lease_of (Holding l a p) = Some l"

abbreviation leases :: "sys \<Rightarrow> string \<Rightarrow> lease option" where
  "leases s \<equiv> lease_of \<circ> sy_workers s"

definition lease_ok :: "job list \<Rightarrow> event list \<Rightarrow> string \<Rightarrow> lease \<Rightarrow> bool" where
  "lease_ok rows H w l \<longleftrightarrow> ls_worker l = w \<and>
     (w, jb_lease_generation (ls_job l)) \<in> set (claims (job_history (jb_uuid (ls_job l)) H)) \<and>
     jb_lease_generation (ls_job l) \<le> jb_attempts (ls_job l) \<and>
     (\<exists>r \<in> set rows. jb_uuid r = jb_uuid (ls_job l) \<and> jb_max_attempts r = jb_max_attempts (ls_job l))"

definition latest_claim :: "event list \<Rightarrow> string \<Rightarrow> string \<Rightarrow> nat \<Rightarrow> bool" where
  "latest_claim H u w g \<longleftrightarrow> claims (job_history u H) \<noteq> [] \<and> last (claims (job_history u H)) = (w, g)"

definition fenced_history :: "event list \<Rightarrow> bool" where
  "fenced_history H \<longleftrightarrow> (\<forall>xs u w g k ys. H = xs @ Acted u w g k # ys \<longrightarrow> latest_claim xs u w g)"

definition core :: "bool \<Rightarrow> job list \<Rightarrow> (string \<Rightarrow> lease option) \<Rightarrow> event list \<Rightarrow> bool" where
  "core lite rows L H \<longleftrightarrow> rows_ok lite rows H \<and> (\<forall>w l. L w = Some l \<longrightarrow> lease_ok rows H w l) \<and> fenced_history H"

definition sys_inv :: "bool \<Rightarrow> sys \<Rightarrow> bool" where
  "sys_inv lite s \<longleftrightarrow> core lite (sy_jobs s) (leases s) (sy_history s)"

lemma unique_row:
  "distinct (map jb_uuid rows) \<Longrightarrow> r \<in> set rows \<Longrightarrow> r' \<in> set rows \<Longrightarrow> jb_uuid r = jb_uuid r' \<Longrightarrow> r = r'"
  unfolding distinct_map by (blast dest: inj_onD)

lemma rows_ok_counted: "rows_ok lite rows H \<Longrightarrow> counted rows"
  by (auto simp: rows_ok_def counted_def row_ok_def)

lemma fenced_history_append:
  assumes "fenced_history H" "\<And>u w g k. e = Acted u w g k \<Longrightarrow> latest_claim H u w g"
  shows "fenced_history (H @ [e])"
  unfolding fenced_history_def
proof (intro allI impI)
  fix xs u w g k ys assume eq: "H @ [e] = xs @ Acted u w g k # ys"
  show "latest_claim xs u w g"
  proof (cases ys rule: rev_cases)
    case Nil
    with eq assms(2) show ?thesis by simp
  next
    case (snoc zs z)
    with eq have "H = xs @ Acted u w g k # zs" by simp
    with assms(1) show ?thesis unfolding fenced_history_def by blast
  qed
qed

lemma fenced_history_quiet:
  "fenced_history H \<Longrightarrow> \<forall>e \<in> set es. \<not> is_Acted e \<Longrightarrow> fenced_history (H @ es)"
proof (induction es rule: rev_induct)
  case (snoc e es)
  then have "fenced_history (H @ es)" by simp
  then have "fenced_history ((H @ es) @ [e])" by (rule fenced_history_append) (use snoc.prems(2) in auto)
  then show ?case by simp
qed simp

lemma lease_ok_mono:
  "lease_ok rows H w l \<Longrightarrow> (\<And>r. r \<in> set rows \<Longrightarrow> \<exists>r' \<in> set rows'. jb_uuid r' = jb_uuid r \<and> jb_max_attempts r' = jb_max_attempts r) \<Longrightarrow>
     lease_ok rows' (H @ es) w l"
  unfolding lease_ok_def by (simp, metis)

text \<open>The worker's own statements.\<close>

lemma row_ok_step: "row_ok lite J r \<Longrightarrow> row_step r r' \<Longrightarrow> row_ok lite J r'"
  unfolding row_ok_def row_step_def by auto

lemma core_rows:
  assumes c: "core lite rows L H" and ts: "table_step rows rows'"
  shows "core lite rows' L H"
proof -
  have "row_ok lite (job_history (jb_uuid r') H) r'" if "r' \<in> set rows'" for r'
  proof -
    from list_all2_partner_left [OF ts that] obtain r where r: "r \<in> set rows" "row_step r r'" by blast
    from c r(1) have "row_ok lite (job_history (jb_uuid r) H) r" by (simp add: core_def rows_ok_def)
    with row_ok_step [OF _ r(2)] r(2) show ?thesis by (simp add: row_step_def)
  qed
  moreover have "jb_uuid ` set rows' = jb_uuid ` set rows"
    unfolding set_map [symmetric] table_step_uuids [OF ts] ..
  ultimately have "rows_ok lite rows' H" using c table_step_uuids [OF ts] by (simp add: core_def rows_ok_def)
  moreover have "lease_ok rows' (H @ []) w l" if "L w = Some l" for w l
  proof (rule lease_ok_mono)
    show "lease_ok rows H w l" using c that by (simp add: core_def)
    show "\<exists>r' \<in> set rows'. jb_uuid r' = jb_uuid r \<and> jb_max_attempts r' = jb_max_attempts r" if "r \<in> set rows" for r
      using list_all2_partner_right [OF ts that] by (auto simp: row_step_def)
  qed
  ultimately show ?thesis using c by (simp add: core_def)
qed

text \<open>The other writers.\<close>

lemma row_ok_foreign:
  assumes "row_ok lite J r" "foreign_step r r'"
  shows "row_ok lite (J @ observed r r') r'"
proof -
  have "claims (observed r r') = []" "\<not> queued_unscheduled (observed r r')"
    "starts (observed r r') = (if jb_attempts r' \<noteq> jb_attempts r then 1 else 0)"
    "requeues (observed r r') = (if jb_status r' = PENDING \<and> jb_status r \<noteq> PENDING then 1 else 0)"
    "\<not> rescheduled (observed r r') \<Longrightarrow> jb_run_after r' = jb_run_after r \<or> jb_run_after r' = None"
    by (auto simp: observed_def counts split: option.splits if_splits)
  with assms show ?thesis unfolding row_ok_def foreign_step_def by auto
qed

lemma core_foreign:
  assumes c: "core lite rows L H" and ts: "list_all2 foreign_step rows rows'"
  shows "core lite rows' L (H @ observe rows rows')"
proof -
  from c have d: "distinct (map jb_uuid rows)" by (simp add: core_def rows_ok_def)
  have uu: "jb_uuid ` set rows' = jb_uuid ` set rows" unfolding set_map [symmetric] foreign_uuids [OF ts] ..
  have "row_ok lite (job_history (jb_uuid r') (H @ observe rows rows')) r'" if r': "r' \<in> set rows'" for r'
  proof -
    from r' list_all2_lengthD [OF ts] obtain r where z: "(r, r') \<in> set (zip rows rows')"
      by (metis in_set_impl_in_set_zip2)
    with ts have st: "foreign_step r r'" by (auto simp: list_all2_iff)
    from z have "r \<in> set rows" by (rule set_zip_leftD)
    with c have "row_ok lite (job_history (jb_uuid r) H) r" by (simp add: core_def rows_ok_def)
    from row_ok_foreign [OF this st] history_observe [OF ts d z] st show ?thesis by (simp add: foreign_step_def)
  qed
  then have "rows_ok lite rows' (H @ observe rows rows')"
    using c uu foreign_uuids [OF ts] observe_jobs [of rows rows'] by (auto simp: core_def rows_ok_def)
  moreover have "lease_ok rows' (H @ observe rows rows') w l" if "L w = Some l" for w l
  proof (rule lease_ok_mono)
    show "lease_ok rows H w l" using c that by (simp add: core_def)
    show "\<exists>r' \<in> set rows'. jb_uuid r' = jb_uuid r \<and> jb_max_attempts r' = jb_max_attempts r" if "r \<in> set rows" for r
      using list_all2_partner_right [OF ts that] by (auto simp: foreign_step_def)
  qed
  moreover have "fenced_history (H @ observe rows rows')"
  proof (rule fenced_history_quiet)
    show "\<forall>e \<in> set (observe rows rows'). \<not> is_Acted e"
      by (auto simp: observe_def observed_def split: if_splits option.splits)
  qed (use c in \<open>simp add: core_def\<close>)
  ultimately show ?thesis by (simp add: core_def)
qed

lemma core_enqueue:
  assumes "core lite rows L H" "u \<notin> jb_uuid ` set rows" "1 \<le> mx"
  shows "core lite (rows @ [new_job u c ty p pr k ra mx]) L (H @ [Queued u ra])"
proof -
  have old: "row_ok lite (job_history (jb_uuid r) H) r" "jb_uuid r \<noteq> u" if "r \<in> set rows" for r
    using assms(1,2) that by (auto simp: core_def rows_ok_def)
  have "job_history u H = []" using assms(1,2) by (intro job_history_unknown) (auto simp: core_def rows_ok_def)
  then have "row_ok lite (job_history u (H @ [Queued u ra])) (new_job u c ty p pr k ra mx)"
    using assms(3) by (simp add: row_ok_def new_job_def counts)
  with old have "rows_ok lite (rows @ [new_job u c ty p pr k ra mx]) (H @ [Queued u ra])"
    using assms(1,2) by (auto simp: core_def rows_ok_def new_job_def)
  moreover have "lease_ok (rows @ [new_job u c ty p pr k ra mx]) (H @ [Queued u ra]) w l" if "L w = Some l" for w l
    by (rule lease_ok_mono [of rows]) (use assms(1) that in \<open>auto simp: core_def\<close>)
  moreover have "fenced_history (H @ [Queued u ra])"
    by (rule fenced_history_append) (use assms(1) in \<open>simp_all add: core_def\<close>)
  ultimately show ?thesis by (simp add: core_def)
qed

lemma core_drop: "core lite rows L H \<Longrightarrow> core lite rows (L(w := None)) H"
  unfolding core_def by (simp split: if_splits)

lemma core_claim:
  assumes c: "core lite rows L H" and out: "claim_outcome lite rows (Some j) rows'"
    and l: "ls_job l = j" "ls_worker l = w"
  shows "core lite rows' (L(w := Some l)) (H @ [Took (jb_uuid j) w (jb_lease_generation j)])"
proof -
  from out obtain rec r where ts: "table_step rows rec" and r: "r \<in> set rec" "taken lite r j"
    and rows': "rows' = replace_row j rec" by (auto simp: claim_outcome_def)
  let ?e = "Took (jb_uuid j) w (jb_lease_generation j)"
  from core_rows [OF c ts] have c': "core lite rec L H" .
  then have ok: "row_ok lite (job_history (jb_uuid x) H) x" if "x \<in> set rec" for x
    using that by (simp add: core_def rows_ok_def)
  from r(2) have u: "jb_uuid j = jb_uuid r" by (simp add: taken_def)
  have new: "row_ok lite (job_history (jb_uuid j) (H @ [?e])) j"
    using ok [OF r(1)] r(2) unfolding row_ok_def taken_def by (auto simp: counts)
  have uu: "map jb_uuid rows' = map jb_uuid rec" by (simp add: rows' replace_row_def)
  have jin: "j \<in> set rows'" using r(1) u by (force simp: rows' replace_row_def)
  have "row_ok lite (job_history (jb_uuid x) (H @ [?e])) x" if "x \<in> set rows'" for x
    using that new ok by (auto simp: rows' replace_row_def split: if_splits)
  moreover have "jb_uuid ` set rows' = jb_uuid ` set rec" unfolding set_map [symmetric] uu ..
  ultimately have "rows_ok lite rows' (H @ [?e])"
    using c' r(1) u uu by (auto simp: core_def rows_ok_def)
  moreover have "lease_ok rows' (H @ [?e]) w l"
    using l jin new by (auto simp: lease_ok_def row_ok_def)
  moreover have "lease_ok rows' (H @ [?e]) v x" if "L v = Some x" for v x
  proof (rule lease_ok_mono)
    show "lease_ok rec H v x" using c' that by (simp add: core_def)
    show "\<exists>r' \<in> set rows'. jb_uuid r' = jb_uuid y \<and> jb_max_attempts r' = jb_max_attempts y" if "y \<in> set rec" for y
    proof (cases "jb_uuid y = jb_uuid j")
      case True
      then have "y = r" using unique_row [of rec y r] c' that r(1) u by (simp add: core_def rows_ok_def)
      with jin r(2) show ?thesis by (intro bexI [of _ j]) (simp_all add: taken_def)
    next
      case False
      with that have "y \<in> set rows'" by (force simp: rows' replace_row_def)
      then show ?thesis by blast
    qed
  qed
  moreover have "fenced_history (H @ [?e])"
    by (rule fenced_history_append) (use c' in \<open>simp_all add: core_def\<close>)
  ultimately show ?thesis by (simp add: core_def)
qed

text \<open>The owner's row is at the generation of the latest claim, and that claim is the owner's.\<close>

lemma owner_is_latest:
  assumes "core lite rows L H" "L w = Some l" "r \<in> set rows" "owned l now r"
  shows "latest_claim H (jb_uuid (ls_job l)) w (jb_lease_generation (ls_job l))"
    and "0 < jb_lease_generation r" "jb_lease_generation r \<le> jb_attempts (ls_job l)"
    and "jb_max_attempts r = jb_max_attempts (ls_job l)" "1 \<le> jb_max_attempts r"
proof -
  from assms(4) have o: "jb_uuid r = jb_uuid (ls_job l)" "jb_lease_generation r = jb_lease_generation (ls_job l)"
    by (simp_all add: owned_def)
  let ?cs = "claims (job_history (jb_uuid (ls_job l)) H)" and ?g = "jb_lease_generation (ls_job l)"
  from assms(1,3) o have ok: "row_ok lite (job_history (jb_uuid (ls_job l)) H) r" by (force simp: core_def rows_ok_def)
  from assms(1,2) have lk: "lease_ok rows H w l" by (simp add: core_def)
  then have mem: "(w, ?g) \<in> set ?cs" by (simp add: lease_ok_def)
  from ok o have gens: "map snd ?cs = [1..<Suc ?g]" by (simp add: row_ok_def)
  from mem have ne: "?cs \<noteq> []" by auto
  from mem have "?g \<in> set (map snd ?cs)" by force
  then have pos: "0 < ?g" unfolding gens by auto
  have "snd (last ?cs) = ?g"
    using last_map [OF ne, of snd] pos unfolding gens by simp
  moreover have "inj_on snd (set ?cs)" by (metis distinct_map distinct_upt gens)
  ultimately have "last ?cs = (w, ?g)"
    using mem ne by (metis inj_on_def last_in_set snd_conv)
  with ne show "latest_claim H (jb_uuid (ls_job l)) w ?g" by (simp add: latest_claim_def)
  show "0 < jb_lease_generation r" "jb_lease_generation r \<le> jb_attempts (ls_job l)"
    using pos lk o by (simp_all add: lease_ok_def)
  from lk obtain r' where r': "r' \<in> set rows" "jb_uuid r' = jb_uuid (ls_job l)"
    "jb_max_attempts r' = jb_max_attempts (ls_job l)" by (auto simp: lease_ok_def)
  have "r' = r" by (rule unique_row [of rows]) (use assms(1,3) r'(1,2) o in \<open>simp_all add: core_def rows_ok_def\<close>)
  with r' ok show "jb_max_attempts r = jb_max_attempts (ls_job l)" "1 \<le> jb_max_attempts r"
    by (simp_all add: row_ok_def)
qed

lemma row_ok_acted [simp]: "row_ok lite (J @ acted l ok k) r \<longleftrightarrow> row_ok lite J r"
  by (simp add: row_ok_def)

lemma core_act:
  assumes c: "core lite rows L H" and w: "L w = Some l"
    and own: "ok \<Longrightarrow> \<exists>r \<in> set rows. owned l now r"
  shows "core lite rows L (H @ acted l ok k)"
proof (cases ok)
  case True
  from own [OF True] obtain r where r: "r \<in> set rows" "owned l now r" by blast
  let ?e = "Acted (jb_uuid (ls_job l)) (ls_worker l) (jb_lease_generation (ls_job l)) k"
  have a: "acted l ok k = [?e]" using True by (simp add: acted_def)
  from c w have lw: "ls_worker l = w" by (simp add: core_def lease_ok_def)
  have "jb_uuid (ls_job l) \<in> jb_uuid ` set rows"
    using r by (auto simp: owned_def image_iff intro!: bexI [of _ r])
  moreover have "row_ok lite (job_history (jb_uuid x) (H @ acted l ok k)) x" if "x \<in> set rows" for x
    using c that by (auto simp: core_def rows_ok_def job_history_acted)
  ultimately have "rows_ok lite rows (H @ acted l ok k)" using c a by (simp add: core_def rows_ok_def)
  moreover have "lease_ok rows (H @ acted l ok k) v x" if "L v = Some x" for v x
    by (rule lease_ok_mono [of rows]) (use c that in \<open>auto simp: core_def\<close>)
  moreover have "fenced_history (H @ [?e])"
    by (rule fenced_history_append) (use c owner_is_latest(1) [OF c w r] lw in \<open>auto simp: core_def\<close>)
  ultimately show ?thesis using a by (simp add: core_def)
qed (use c in \<open>simp add: acted_def\<close>)

lemma table_step_failure:
  assumes c: "core lite rows L H" "L w = Some l" and f: "record_failure lite l e msg t rows = (b, rows')"
  shows "table_step rows rows'"
proof -
  have "table_step rows (snd (update_where (owned l (utc_now t))
      (failed lite (terminal_failure lite e (ls_job l)) msg t) rows))"
  proof (rule table_step_update)
    fix r assume r: "r \<in> set rows" "owned l (utc_now t) r"
    from owner_is_latest(2-5) [OF c r] show "row_step r (failed lite (terminal_failure lite e (ls_job l)) msg t r)"
      by (auto simp: row_step_def failed_def terminal_failure_def)
  qed
  with f show ?thesis by (auto simp: record_failure_def split: prod.splits if_splits)
qed

lemma leases_upd [simp]: "lease_of \<circ> f(w := x) = (lease_of \<circ> f)(w := lease_of x)"
  by auto

lemma holding_lease: "sy_workers s w = Holding l a p \<Longrightarrow> leases s w = Some l"
  by simp

lemma keep_lease: "sy_workers s w = Holding l a p \<Longrightarrow> (leases s)(w := Some l) = leases s"
  by (simp add: fun_upd_idem holding_lease)

lemma core_distinct: "core lite rows L H \<Longrightarrow> distinct (map jb_uuid rows)"
  by (simp add: core_def rows_ok_def)

lemma core_counted: "core lite rows L H \<Longrightarrow> counted rows"
  unfolding core_def using rows_ok_counted by blast

lemma step_sys_inv: "sys_step lite like s s' \<Longrightarrow> sys_inv lite s \<Longrightarrow> sys_inv lite s'"
proof (induction rule: sys_step.induct)
  case (enqueue u s mx ra created ty payload pr key)
  then show ?case by (simp add: sys_inv_def core_enqueue)
next
  case (other_writer rows s op)
  then show ?case by (simp add: sys_inv_def core_foreign apply_write_foreign)
next
  case (queue_claim s res rows)
  then show ?case by (simp add: sys_inv_def core_foreign queue_claim_foreign)
next
  case (recover s)
  then show ?case by (simp add: sys_inv_def core_rows [OF _ table_step_recover_stale] core_counted)
next
  case (claim_nothing s w skip token secs rows)
  note c = claim_nothing(3) [unfolded sys_inv_def]
  from claim_extraction_outcome [OF claim_nothing(2) core_distinct [OF c] core_counted [OF c]]
  have "table_step (sy_jobs s) rows" by (auto simp: claim_outcome_def)
  from core_rows [OF c this] show ?case by (simp add: sys_inv_def)
next
  case (claim s w skip token secs j rows l expected)
  note c = claim(4) [unfolded sys_inv_def]
  from claim_extraction_outcome [OF claim(2) core_distinct [OF c] core_counted [OF c]]
  have "claim_outcome lite (sy_jobs s) (Some j) rows" .
  from core_claim [OF c this, of l w] claim(3) show ?case by (simp add: sys_inv_def)
next
  case (guard s w l a p current res rows)
  note c = guard(5) [unfolded sys_inv_def]
  have "core lite (sy_jobs s) (leases s) (sy_history s @ acted l (res = Inr ()) Renewal)"
    by (rule core_act [where now = "utc_now (sy_clock s)", OF c holding_lease [OF guard(1)]])
      (use guard(4) fence_accepts in blast)
  from core_rows [OF this table_step_fence [OF guard(4)]] keep_lease [OF guard(1)]
  show ?case by (simp add: sys_inv_def)
next
  case (canonical_write s w l a current res rows)
  note c = canonical_write(3) [unfolded sys_inv_def]
  have "core lite (sy_jobs s) (leases s) (sy_history s @ acted l (res = Inr ()) CanonicalWrite)"
    by (rule core_act [where now = "utc_now (sy_clock s)", OF c holding_lease [OF canonical_write(1)]])
      (use canonical_write(2) fence_accepts in blast)
  with keep_lease [OF canonical_write(1)] show ?case by (simp add: sys_inv_def)
next
  case (finish s w l a message rows)
  note c = finish(3) [unfolded sys_inv_def]
  have "core lite (sy_jobs s) (leases s) (sy_history s @ acted l True SuccessRecorded)"
    by (rule core_act [where now = "utc_now (sy_clock s)", OF c holding_lease [OF finish(1)]])
      (use finish(2) success_accepted in blast)
  from core_drop [OF core_rows [OF this table_step_success [OF finish(2)]], of w]
  show ?case by (simp add: sys_inv_def)
next
  case (fail s w l a e message written rows)
  note c = fail(3) [unfolded sys_inv_def]
  have "core lite (sy_jobs s) (leases s) (sy_history s @ acted l written FailureRecorded)"
    by (rule core_act [where now = "utc_now (sy_clock s)", OF c holding_lease [OF fail(1)]])
      (use fail(2) in \<open>auto dest: failure_accepted\<close>)
  from core_drop [OF core_rows [OF this table_step_failure [OF c holding_lease [OF fail(1)] fail(2)]], of w]
  show ?case by (simp add: sys_inv_def)
next
  case (crash s w)
  then show ?case by (simp add: sys_inv_def core_drop)
qed (simp_all add: sys_inv_def keep_lease)

lemma reachable_inv: "reachable lite like s \<Longrightarrow> sys_inv lite s"
proof (induction rule: reachable.induct)
  case start
  show ?case by (simp add: sys_inv_def core_def empty_sys_def rows_ok_def fenced_history_def)
qed (rule step_sys_inv)

section \<open>What the protocol guarantees\<close>

lemma inv_row:
  "reachable lite like s \<Longrightarrow> r \<in> set (sy_jobs s) \<Longrightarrow> row_ok lite (job_history (jb_uuid r) (sy_history s)) r"
  using reachable_inv [of lite like s] by (simp add: sys_inv_def core_def rows_ok_def)

lemma row_ok_claims: "row_ok lite J r \<Longrightarrow> length (claims J) = jb_lease_generation r"
  unfolding row_ok_def by (metis diff_Suc_1 length_map length_upt)

lemma claims_numbered:
  assumes "reachable lite like s"
  shows "map snd (claims (job_history u (sy_history s))) = [1..<Suc (length (claims (job_history u (sy_history s))))]"
proof (cases "u \<in> jb_uuid ` set (sy_jobs s)")
  case True
  then obtain r where "r \<in> set (sy_jobs s)" "u = jb_uuid r" by blast
  with inv_row [OF assms this(1)] have ok: "row_ok lite (job_history u (sy_history s)) r" by simp
  then show ?thesis unfolding row_ok_claims [OF ok] by (simp add: row_ok_def)
next
  case False
  with reachable_inv [OF assms] have "u \<notin> ev_job ` set (sy_history s)"
    by (auto simp: sys_inv_def core_def rows_ok_def)
  then show ?thesis by (simp add: job_history_unknown)
qed

text \<open>
  Property C30 (fenced_writes_monotone): whatever workers stall, crash or are overtaken, whatever the
  other writers of the table do and on either database, every operation accepted under a lease (a
  renewal, a canonical write, a recorded success or failure) was made by the worker of the latest
  claim of that job at that moment, under that claim's generation; and the claims of a job carry the
  generations 1, 2, 3 and so on.  So after a later claim nothing of an earlier claimant is accepted,
  and the generations never decrease along the history.
\<close>

theorem fenced_writes_monotone:
  assumes "reachable lite like s" "sy_history s = xs @ Acted u w g k # ys"
  shows "claims (job_history u xs) \<noteq> [] \<and> last (claims (job_history u xs)) = (w, g) \<and>
    map snd (claims (job_history u (sy_history s))) = [1..<Suc (length (claims (job_history u (sy_history s))))]"
proof -
  from reachable_inv [OF assms(1)] have "fenced_history (sy_history s)" by (simp add: sys_inv_def core_def)
  with assms(2) have "latest_claim xs u w g" unfolding fenced_history_def by blast
  with claims_numbered [OF assms(1)] show ?thesis unfolding latest_claim_def by blast
qed

lemma not_owned_powerless:
  assumes "\<forall>x \<in> set rows. \<not> owned l (utc_now t) x"
  shows "fence l cur bp t rows = (Inl NotOwned, rows) \<and>
    record_success lite like l msg t rows = (Inl NotOwned, rows) \<and>
    record_failure lite l e msg t rows = (False, rows)"
proof -
  have "update_where (owned l (utc_now t)) f rows = (0, rows)" for f
    using assms by (simp add: update_where_def filter_empty_conv map_idI)
  with assms show ?thesis
    by (auto simp: fence_def record_success_def record_failure_def Let_def list_ex_iff)
qed

text \<open>
  Property C31 (one_lease_holder): when the fence accepts a worker's lease on a job, at any time on
  the clock, that worker made the latest claim of the job; every other worker that still holds a
  lease on the same job holds an older generation and is refused by the fence, and neither its
  success nor its failure changes the table.
\<close>

theorem one_lease_holder:
  assumes "reachable lite like s"
    and "sy_workers s w = Holding l a p" "fst (fence l cur bp t (sy_jobs s)) = Inr ()"
    and "sy_workers s w' = Holding l' a' p'" "w' \<noteq> w" "jb_uuid (ls_job l') = jb_uuid (ls_job l)"
  shows "last (claims (job_history (jb_uuid (ls_job l)) (sy_history s))) = (w, jb_lease_generation (ls_job l)) \<and>
    jb_lease_generation (ls_job l') < jb_lease_generation (ls_job l) \<and>
    fence l' cur' bp' t' (sy_jobs s) = (Inl NotOwned, sy_jobs s) \<and>
    record_success lite like l' msg t' (sy_jobs s) = (Inl NotOwned, sy_jobs s) \<and>
    record_failure lite l' e msg t' (sy_jobs s) = (False, sy_jobs s)"
proof -
  let ?H = "sy_history s" and ?u = "jb_uuid (ls_job l)"
  from reachable_inv [OF assms(1)] have c: "core lite (sy_jobs s) (leases s) ?H" by (simp add: sys_inv_def)
  note L = holding_lease [OF assms(2)] and L' = holding_lease [OF assms(4)]
  obtain rows where "fence l cur bp t (sy_jobs s) = (Inr (), rows)"
    using assms(3) by (cases "fence l cur bp t (sy_jobs s)") simp
  from fence_accepts [OF this] obtain r where r: "r \<in> set (sy_jobs s)" "owned l (utc_now t) r" by blast
  from r(2) have o: "jb_uuid r = ?u" "jb_lease_generation r = jb_lease_generation (ls_job l)"
    by (simp_all add: owned_def)
  note mine = owner_is_latest(1) [OF c L r]
  have "\<forall>x \<in> set (sy_jobs s). \<not> owned l' (utc_now t') x"
    using owner_is_latest(1) [OF c L'] mine assms(5,6) by (auto simp: latest_claim_def)
  moreover have "jb_lease_generation (ls_job l') < jb_lease_generation (ls_job l)"
  proof -
    let ?cs = "claims (job_history ?u ?H)"
    from c L' have "(w', jb_lease_generation (ls_job l')) \<in> set ?cs"
      using assms(6) unfolding core_def lease_ok_def by metis
    moreover from mine have "(w, jb_lease_generation (ls_job l)) \<in> set ?cs"
      unfolding latest_claim_def using last_in_set by metis
    moreover have gens: "map snd ?cs = [1..<Suc (jb_lease_generation r)]"
      using inv_row [OF assms(1) r(1)] o(1) by (simp add: row_ok_def)
    then have "inj_on snd (set ?cs)" by (metis distinct_map distinct_upt)
    ultimately have "jb_lease_generation (ls_job l') \<noteq> jb_lease_generation (ls_job l)"
      using assms(5) by (metis inj_on_def prod.inject snd_conv)
    moreover have "jb_lease_generation (ls_job l') \<in> set (map snd ?cs)"
      using \<open>(w', jb_lease_generation (ls_job l')) \<in> set ?cs\<close> by force
    ultimately show ?thesis unfolding gens using o(2) by simp
  qed
  ultimately show ?thesis using not_owned_powerless [of "sy_jobs s" l' t'] mine
    unfolding latest_claim_def by blast
qed

text \<open>
  Property C32 (job_claims_bounded): over any history, the worker claims a job at most
  \<open>max_attempts\<close> times, plus once for every time another writer (import processing releasing,
  recovering, retrying or failing it) put it back to pending; strictly less often while it is
  pending.  The column \<open>attempts\<close> counts exactly those claims and the starts of the other writers.
\<close>

theorem job_claims_bounded:
  assumes "reachable lite like s" "r \<in> set (sy_jobs s)" "J = job_history (jb_uuid r) (sy_history s)"
  shows "int (length (claims J)) \<le> jb_max_attempts r + int (requeues J) \<and>
    (jb_status r = PENDING \<longrightarrow> int (length (claims J)) < jb_max_attempts r + int (requeues J)) \<and>
    jb_attempts r = length (claims J) + starts J"
proof -
  from inv_row [OF assms(1,2)] have ok: "row_ok lite J r" unfolding assms(3) .
  from row_ok_claims [OF ok] ok show ?thesis unfolding row_ok_def by metis
qed

text \<open>
  Also proved (stale_lease_powerless): once a job has been claimed again, the earlier lease passes
  no fence, and neither its success nor its failure changes the table.
\<close>

theorem stale_lease_powerless:
  assumes "distinct (map jb_uuid rows)" "r \<in> set rows" "jb_uuid r = jb_uuid (ls_job l)"
    and "jb_lease_generation (ls_job l) < jb_lease_generation r"
  shows "fence l cur bp t rows = (Inl NotOwned, rows) \<and>
    record_success lite like l msg t rows = (Inl NotOwned, rows) \<and>
    record_failure lite l e msg t rows = (False, rows)"
proof (rule not_owned_powerless, rule ballI)
  fix x assume "x \<in> set rows"
  from unique_row [OF assms(1,2) this] assms(3,4) show "\<not> owned l (utc_now t) x" by (auto simp: owned_def)
qed

lemma step_history:
  assumes "sys_step lite like s s'"
  shows "\<exists>es. sy_history s' = sy_history s @ es \<and> ((\<exists>u w g. es = [Took u w g]) \<or> (\<forall>e \<in> set es. \<not> is_Took e))"
  using assms
  by cases (auto simp: acted_def observe_def observed_def split: if_splits option.splits)

text \<open>Right after each claim of a history the system was in a reachable state.\<close>

lemma claim_moment:
  "reachable lite like s \<Longrightarrow> sy_history s = xs @ Took u w g # ys \<Longrightarrow>
     \<exists>s'. reachable lite like s' \<and> sy_history s' = xs @ [Took u w g]"
proof (induction arbitrary: ys rule: reachable.induct)
  case start
  then show ?case by (simp add: empty_sys_def)
next
  case (step s s')
  from step_history [OF step.hyps(2)] obtain es where es: "sy_history s' = sy_history s @ es"
    "(\<exists>u w g. es = [Took u w g]) \<or> (\<forall>e \<in> set es. \<not> is_Took e)" by blast
  with step.prems have eq: "xs @ Took u w g # ys = sy_history s @ es" by simp
  show ?case
  proof (cases "length xs < length (sy_history s)")
    case True
    from arg_cong [OF eq, of "take (length (sy_history s))"] True
    have "sy_history s = xs @ Took u w g # take (length (sy_history s) - Suc (length xs)) ys"
      by (simp add: take_Cons' split: if_splits)
    from step.IH [OF this] show ?thesis .
  next
    case False
    from eq have "Took u w g = (sy_history s @ es) ! length xs" by (metis nth_append_length)
    with False have e: "Took u w g = es ! (length xs - length (sy_history s))" by (simp add: nth_append)
    from arg_cong [OF eq, of length] False have "length xs - length (sy_history s) < length es" by simp
    with e have "Took u w g \<in> set es" by simp
    with es(2) have "es = [Took u w g]" by fastforce
    with arg_cong [OF eq, of length] have "length xs + length ys = length (sy_history s)" by simp
    with False have "ys = []" by (cases ys) simp_all
    with step.prems reachable.step [OF step.hyps(1,2)] show ?thesis by auto
  qed
qed

text \<open>
  Property C37 (default_job_never_claimed_full): a job queued without a due time, the default of
  \<open>enqueue_job_once\<close>, is claimed by the Full worker only after another writer, a retryable failure of
  import processing, has given it one.  While none does, no claim ever returns it.
\<close>

theorem default_job_never_claimed_full:
  assumes "reachable False like s" "sy_history s = xs @ Took u w g # ys" "Queued u None \<in> set xs"
  shows "\<exists>d. Rescheduled u d \<in> set xs"
proof (rule ccontr)
  assume none: "\<nexists>d. Rescheduled u d \<in> set xs"
  from claim_moment [OF assms(1,2)] obtain s' where s': "reachable False like s'"
    "sy_history s' = xs @ [Took u w g]" by blast
  let ?J = "job_history u (sy_history s')"
  have "u \<in> ev_job ` set (sy_history s')" by (simp add: s'(2))
  with reachable_inv [OF s'(1)] have "u \<in> jb_uuid ` set (sy_jobs s')"
    unfolding sys_inv_def core_def rows_ok_def by blast
  then obtain r where r: "r \<in> set (sy_jobs s')" "jb_uuid r = u" by blast
  have "queued_unscheduled ?J"
    using assms(3) by (auto simp: s'(2) queued_unscheduled_def job_history_def list_ex_iff intro!: bexI [of _ "Queued u None"])
  moreover have "\<not> rescheduled ?J"
    using none by (auto simp: s'(2) rescheduled_def job_history_def list_ex_iff is_Rescheduled_def)
  ultimately have "jb_lease_generation r = 0" "map snd (claims ?J) = [1..<Suc (jb_lease_generation r)]"
    using inv_row [OF s'(1) r(1)] r(2) by (simp_all add: row_ok_def)
  then show False by (simp add: s'(2))
qed

lemma recover_keeps: "r \<in> set rows \<Longrightarrow> jb_status r = PENDING \<Longrightarrow> r \<in> set (recover_extraction now u rows)"
  by (force simp: recover_extraction_def update_where_def extraction_stale_def)

text \<open>
  Also proved (default_job_claimed_lite): the SQLite claim, with such a job in the table, always
  takes a job.
\<close>

theorem default_job_claimed_lite:
  assumes "distinct (map jb_uuid rows)" "counted rows" "r \<in> set rows" "jb_status r = PENDING"
    "jb_type r = MEMORY_EXTRACTION_JOB" "jb_run_after r = None"
  shows "fst (claim_next_extraction_job_sqlite w tok secs t rows) \<noteq> None"
proof -
  let ?R = "recover_extraction (utc_now t) None rows" and ?f = "lite_take w tok secs t"
  have du: "distinct (map jb_uuid ?R)" using table_step_uuids [OF table_step_recover [OF assms(2)]] assms(1) by simp
  have "r \<in> set (filter (lite_claimable t) ?R)"
    using recover_keeps [OF assms(3,4)] assms(4-6) by (simp add: lite_claimable_def due_def)
  then have "filter (lite_claimable t) ?R \<noteq> []" by (metis empty_iff list.set(1))
  then obtain q where q: "min_key lite_order (filter (lite_claimable t) ?R) = Some q"
    by (cases "min_key lite_order (filter (lite_claimable t) ?R)") simp_all
  from min_key_filter_Some [OF q] have "q \<in> set ?R" "jb_status q = PENDING" by (auto simp: lite_claimable_def)
  moreover have f: "?f q = ?f q" "jb_uuid (?f q) = jb_uuid q" by (simp_all add: lite_take_def)
  ultimately show ?thesis using swap_pending [where f = ?f, OF du _ _ f]
    by (simp add: claim_next_extraction_job_sqlite_def Let_def q)
qed

section \<open>Concrete runs\<close>

abbreviation no_like :: "string \<Rightarrow> json \<Rightarrow> bool" where
  "no_like \<equiv> \<lambda>_ _. False"

definition do_tick :: "nat \<Rightarrow> sys \<Rightarrow> sys" where
  "do_tick d s = s\<lparr>sy_clock := sy_clock s + d\<rparr>"

definition do_enqueue :: "string \<Rightarrow> nat option \<Rightarrow> sys \<Rightarrow> sys" where
  "do_enqueue u ra s = (if u \<in> jb_uuid ` set (sy_jobs s) then s
     else s\<lparr>sy_jobs := sy_jobs s @ [new_job u 0 MEMORY_EXTRACTION_JOB (JObj []) 50 None ra 3],
            sy_history := sy_history s @ [Queued u ra]\<rparr>)"

definition do_write :: "job_write \<Rightarrow> sys \<Rightarrow> sys" where
  "do_write op s = (let rows = apply_write (sy_clock s) op (sy_jobs s) in
     s\<lparr>sy_jobs := rows, sy_history := sy_history s @ observe (sy_jobs s) rows\<rparr>)"

definition do_claim :: "bool \<Rightarrow> string \<Rightarrow> string \<Rightarrow> sys \<Rightarrow> sys" where
  "do_claim lite w token s =
     (case sy_workers s w of Holding _ _ _ \<Rightarrow> s | Idle \<Rightarrow>
     (case claim_extraction lite {} w token 10 (sy_clock s) (sy_jobs s) of
        (None, rows) \<Rightarrow> s\<lparr>sy_jobs := rows\<rparr>
      | (Some j, rows) \<Rightarrow>
          set_worker w (Holding \<lparr>ls_job = j, ls_worker = w, ls_seconds = 10, ls_expected = []\<rparr> None Claimed)
            (s\<lparr>sy_jobs := rows, sy_history := sy_history s @ [Took (jb_uuid j) w (jb_lease_generation j)]\<rparr>)))"

definition do_work :: "string \<Rightarrow> sys \<Rightarrow> sys" where
  "do_work w s =
     (case sy_workers s w of
        Holding l None Claimed \<Rightarrow>
          (case fence l (Some []) True (sy_clock s) (sy_jobs s) of (res, rows) \<Rightarrow>
             set_worker w (Holding l None (phase_after res Guarded))
               (s\<lparr>sy_jobs := rows, sy_history := sy_history s @ acted l (res = Inr ()) Renewal\<rparr>))
      | Holding l a Guarded \<Rightarrow> set_worker w (Holding l a Prepared) s
      | Holding l a Prepared \<Rightarrow>
          (case fence l (Some []) False (sy_clock s) (sy_jobs s) of (res, rows) \<Rightarrow>
             set_worker w (Holding l a (phase_after res Prepared))
               (s\<lparr>sy_history := sy_history s @ acted l (res = Inr ()) CanonicalWrite\<rparr>))
      | _ \<Rightarrow> s)"

lemma reachable_tick: "reachable lite like s \<Longrightarrow> reachable lite like (do_tick d s)"
  unfolding do_tick_def by (erule reachable.step) (rule sys_step.tick, simp)

lemma reachable_enqueue: "reachable lite like s \<Longrightarrow> reachable lite like (do_enqueue u ra s)"
  unfolding do_enqueue_def by (auto intro!: reachable.step [OF _ sys_step.enqueue])

lemma reachable_write: "reachable lite like s \<Longrightarrow> reachable lite like (do_write op s)"
  unfolding do_write_def Let_def by (erule reachable.step) (rule sys_step.other_writer, simp)

lemma reachable_claim:
  assumes "reachable lite like s"
  shows "reachable lite like (do_claim lite w token s)"
proof (cases "sy_workers s w")
  case Idle
  obtain res rows where c: "claim_extraction lite {} w token 10 (sy_clock s) (sy_jobs s) = (res, rows)"
    by (cases "claim_extraction lite {} w token 10 (sy_clock s) (sy_jobs s)")
  show ?thesis
  proof (cases res)
    case None
    with reachable.step [OF assms sys_step.claim_nothing [OF Idle c [unfolded None]]] c Idle show ?thesis
      by (simp add: do_claim_def)
  next
    case (Some j)
    let ?l = "\<lparr>ls_job = j, ls_worker = w, ls_seconds = 10, ls_expected = []\<rparr>"
    from reachable.step [OF assms sys_step.claim [OF Idle c [unfolded Some] refl [of ?l]]] c Some Idle
    show ?thesis by (simp add: do_claim_def)
  qed
qed (simp add: do_claim_def assms)

lemma reachable_work: "reachable True like s \<Longrightarrow> reachable True like (do_work w s)"
proof -
  assume r: "reachable True like s"
  show ?thesis
  proof (cases "sy_workers s w")
    case (Holding l a p)
    show ?thesis
    proof (cases p)
      case Claimed
      obtain res rows where f: "fence l (Some []) True (sy_clock s) (sy_jobs s) = (res, rows)"
        by (cases "fence l (Some []) True (sy_clock s) (sy_jobs s)")
      from reachable.step [OF r sys_step.guard [OF Holding _ _ f]] Claimed Holding f r show ?thesis
        by (cases a) (simp_all add: do_work_def)
    next
      case Guarded
      with reachable.step [OF r sys_step.prepare [OF Holding [unfolded Guarded]]] Holding show ?thesis
        by (cases a) (simp_all add: do_work_def)
    next
      case Prepared
      obtain res rows where f: "fence l (Some []) False (sy_clock s) (sy_jobs s) = (res, rows)"
        by (cases "fence l (Some []) False (sy_clock s) (sy_jobs s)")
      from reachable.step [OF r sys_step.canonical_write [OF Holding [unfolded Prepared] f]] Prepared Holding f
      show ?thesis by (cases a) (simp_all add: do_work_def)
    next
      case (Failing e)
      with Holding r show ?thesis by (cases a) (simp_all add: do_work_def)
    qed
  qed (simp add: do_work_def r)
qed

text \<open>A SQLite run: worker \<open>a\<close> claims and stalls past its lease, worker \<open>b\<close> claims again and writes.\<close>

definition demo_sys :: sys where
  "demo_sys = do_work ''b'' (do_work ''b'' (do_work ''b'' (do_claim True ''b'' ''t2'' (do_tick 20000000
     (do_claim True ''a'' ''t1'' (do_enqueue ''j'' None empty_sys))))))"

lemma reachable_demo: "reachable True no_like demo_sys"
  unfolding demo_sys_def
  by (intro reachable_work reachable_claim reachable_tick reachable_enqueue reachable.start)

lemma demo_history:
  "sy_history demo_sys = [Queued ''j'' None, Took ''j'' ''a'' 1, Took ''j'' ''b'' 2, Acted ''j'' ''b'' 2 Renewal] @
     Acted ''j'' ''b'' 2 CanonicalWrite # []"
  by code_simp

theorem fenced_writes_monotone_witness:
  "last (claims (job_history ''j'' (take 4 (sy_history demo_sys)))) = (''b'', 2)"
proof -
  have "take 4 (sy_history demo_sys) = [Queued ''j'' None, Took ''j'' ''a'' 1, Took ''j'' ''b'' 2, Acted ''j'' ''b'' 2 Renewal]"
    by (simp add: demo_history)
  then show ?thesis using fenced_writes_monotone [OF reachable_demo demo_history] by simp
qed

definition held_lease :: "string \<Rightarrow> sys \<Rightarrow> lease option" where
  "held_lease w s = lease_of (sy_workers s w)"

lemma held_lease_Some: "held_lease w s = Some l \<Longrightarrow> \<exists>a p. sy_workers s w = Holding l a p"
  by (cases "sy_workers s w") (auto simp: held_lease_def)

lemma demo_leases:
  "case held_lease ''b'' demo_sys of None \<Rightarrow> False | Some l \<Rightarrow>
     jb_uuid (ls_job l) = ''j'' \<and> fst (fence l (Some []) True 20000000 (sy_jobs demo_sys)) = Inr ()"
  "case held_lease ''a'' demo_sys of None \<Rightarrow> False | Some l \<Rightarrow> jb_uuid (ls_job l) = ''j''"
  by code_simp+

theorem one_lease_holder_witness:
  "\<exists>l. held_lease ''a'' demo_sys = Some l \<and>
     fence l (Some []) True 20000000 (sy_jobs demo_sys) = (Inl NotOwned, sy_jobs demo_sys)"
proof -
  from demo_leases(1) obtain l where l: "held_lease ''b'' demo_sys = Some l" "jb_uuid (ls_job l) = ''j''"
    "fst (fence l (Some []) True 20000000 (sy_jobs demo_sys)) = Inr ()" by (auto split: option.splits)
  from demo_leases(2) obtain l' where l': "held_lease ''a'' demo_sys = Some l'" "jb_uuid (ls_job l') = ''j''"
    by (auto split: option.splits)
  from held_lease_Some [OF l(1)] held_lease_Some [OF l'(1)] obtain a p a' p' where
    w: "sy_workers demo_sys ''b'' = Holding l a p" "sy_workers demo_sys ''a'' = Holding l' a' p'" by blast
  from one_lease_holder [OF reachable_demo w(1) l(3) w(2)] l(2) l' show ?thesis by simp
qed

lemma demo_row:
  "map (\<lambda>r. (jb_uuid r, jb_attempts r, jb_max_attempts r)) (sy_jobs demo_sys) = [(''j'', 2, 3)]"
  by code_simp

theorem job_claims_bounded_witness:
  "length (claims (job_history ''j'' (sy_history demo_sys))) = 2 \<and>
     int (length (claims (job_history ''j'' (sy_history demo_sys)))) \<le> 3"
proof -
  from demo_row obtain r where r: "r \<in> set (sy_jobs demo_sys)" "jb_uuid r = ''j''" "jb_attempts r = 2"
    "jb_max_attempts r = 3" by (auto simp: map_eq_Cons_conv)
  have "requeues (job_history ''j'' (sy_history demo_sys)) = 0" "starts (job_history ''j'' (sy_history demo_sys)) = 0"
    by (simp_all add: demo_history job_history_def requeues_def starts_def)
  with job_claims_bounded [OF reachable_demo r(1) refl] r(2-4) show ?thesis by simp
qed

theorem stale_lease_powerless_witness:
  "\<exists>l. held_lease ''a'' demo_sys = Some l \<and> fst (fence l (Some []) True 0 (sy_jobs demo_sys)) = Inl NotOwned"
proof -
  have "case held_lease ''a'' demo_sys of None \<Rightarrow> False | Some l \<Rightarrow>
      jb_uuid (ls_job l) = ''j'' \<and> jb_lease_generation (ls_job l) = 1" by code_simp
  then obtain l where l: "held_lease ''a'' demo_sys = Some l" "jb_uuid (ls_job l) = ''j''"
    "jb_lease_generation (ls_job l) = 1" by (auto split: option.splits)
  have "map (\<lambda>r. (jb_uuid r, jb_lease_generation r)) (sy_jobs demo_sys) = [(''j'', 2)]" by code_simp
  then obtain r where r: "sy_jobs demo_sys = [r]" "jb_uuid r = ''j''" "jb_lease_generation r = 2"
    by (auto simp: map_eq_Cons_conv)
  from stale_lease_powerless [of "sy_jobs demo_sys" r l "Some []" True 0] l r show ?thesis by simp
qed

text \<open>
  A PostgreSQL run: a job queued without a due time is passed over, import processing starts it and
  fails with a retryable error, and the due time it sets makes the claim succeed.
\<close>

definition passed_over :: sys where
  "passed_over = do_claim False ''a'' ''t1'' (do_tick 20000000 (do_enqueue ''j'' None empty_sys))"

definition demo_full :: sys where
  "demo_full = do_claim False ''a'' ''t2'' (do_tick 20000000
     (do_write (FailProcessing ''i'' ''j'' 0 5 True ''timeout'') (do_write (StartProcessing ''i'' ''j'') passed_over)))"

lemma reachable_full: "reachable False no_like demo_full"
  unfolding demo_full_def passed_over_def
  by (intro reachable_claim reachable_tick reachable_write reachable_enqueue reachable.start)

lemma demo_full_history:
  "sy_history passed_over = [Queued ''j'' None]"
  "sy_history demo_full = [Queued ''j'' None, Started ''j'', Requeued ''j'', Rescheduled ''j'' 30000000] @ Took ''j'' ''a'' 1 # []"
  by code_simp+

theorem default_job_never_claimed_full_witness:
  "claims (sy_history passed_over) = [] \<and>
     (\<exists>d. Rescheduled ''j'' d \<in> set (take 4 (sy_history demo_full)))"
proof -
  let ?xs = "[Queued ''j'' None, Started ''j'', Requeued ''j'', Rescheduled ''j'' 30000000]"
  have "take 4 (sy_history demo_full) = ?xs" by (simp add: demo_full_history)
  moreover have "Queued ''j'' None \<in> set ?xs" by simp
  ultimately show ?thesis
    using default_job_never_claimed_full [OF reachable_full demo_full_history(2)]
    by (simp add: demo_full_history(1))
qed

theorem default_job_claimed_lite_witness:
  "fst (claim_next_extraction_job_sqlite ''w'' ''t'' 60 0
     [new_job ''j'' 0 MEMORY_EXTRACTION_JOB (JObj []) 50 None None 3]) \<noteq> None"
  by (rule default_job_claimed_lite [where r = "new_job ''j'' 0 MEMORY_EXTRACTION_JOB (JObj []) 50 None None 3"])
    (simp_all add: new_job_def counted_def)

end
