(* ===== verification/MessageSemantics.thy ===== *)
theory MessageSemantics
  imports RuntimeTables
begin

text \<open>
  The ledger of what the model said of a message (\<open>memory_worker/message_semantics.py\<close>), over the
  tables of migrations 0038 and 0039.  A row is a dictionary by column name; \<open>put_row\<close> inserts one
  under the unique keys of its table, where a NULL differs from everything.
\<close>

section \<open>Dictionary tables\<close>

definition same_key :: "dict_row \<Rightarrow> dict_row \<Rightarrow> string list \<Rightarrow> bool" where
  "same_key r x cols \<longleftrightarrow> list_all (\<lambda>c. jget r c \<noteq> JNull \<and> jget x c = jget r c) cols"

definition key_taken :: "dict_row list \<Rightarrow> dict_row \<Rightarrow> string list \<Rightarrow> bool" where
  "key_taken t r cols \<longleftrightarrow> list_ex (\<lambda>x. same_key r x cols) t"

definition put_row :: "string list list \<Rightarrow> dict_row \<Rightarrow> dict_row list \<Rightarrow> (runtime_error, dict_row list) result" where
  "put_row keys r t =
     rbind (raise_if (list_ex (key_taken t r) keys) (DbIntegrity ''unique'')) (\<lambda>_. Inr (t @ [r]))"

text \<open>\<open>ON CONFLICT (cols) DO NOTHING\<close>.\<close>

definition put_unless ::
  "string list \<Rightarrow> string list list \<Rightarrow> dict_row \<Rightarrow> dict_row list \<Rightarrow> (runtime_error, dict_row list) result" where
  "put_unless cols keys r t = (if key_taken t r cols then Inr t else put_row keys r t)"

fun put_rows :: "string list list \<Rightarrow> dict_row list \<Rightarrow> dict_row list \<Rightarrow> (runtime_error, dict_row list) result" where
  "put_rows keys [] t = Inr t"
| "put_rows keys (r # rs) t = rbind (put_row keys r t) (put_rows keys rs)"

fun put_all_unless ::
  "string list \<Rightarrow> string list list \<Rightarrow> dict_row list \<Rightarrow> dict_row list \<Rightarrow> (runtime_error, dict_row list) result" where
  "put_all_unless cols keys [] t = Inr t"
| "put_all_unless cols keys (r # rs) t = rbind (put_unless cols keys r t) (put_all_unless cols keys rs)"

section \<open>Labels and identities\<close>

text \<open>Library functions over arbitrary text: UUIDv5 of a text name and NFKC.\<close>

record label_library =
  ll_uuid5 :: "string \<Rightarrow> ustr \<Rightarrow> string"
  ll_nfkc :: "ustr \<Rightarrow> ustr"

definition ANALYSIS_NAMESPACE :: string where
  "ANALYSIS_NAMESPACE = ''7018f153-3202-5b3a-8e13-98248e397d61''"

definition UNIT_NAMESPACE :: string where
  "UNIT_NAMESPACE = ''38dab83c-00cb-58ba-a389-b04ab60eb816''"

definition CONCEPT_NAMESPACE :: string where
  "CONCEPT_NAMESPACE = ''091a2934-eb66-5a40-b915-0ac7f0375489''"

definition REFERENCE_NAMESPACE :: string where
  "REFERENCE_NAMESPACE = ''b0a099a9-4baa-50d2-ae4e-73a188c12db9''"

text \<open>\<open>" ".join(s.split())\<close>: white space outside is lost, a run inside becomes one space.\<close>

fun squeeze :: "unidb \<Rightarrow> bool \<Rightarrow> ustr \<Rightarrow> ustr" where
  "squeeze U pending [] = []"
| "squeeze U pending (c # s) =
     (if is_space U c then squeeze U True s else (if pending then [32, c] else [c]) @ squeeze U False s)"

definition normalize_label :: "unidb \<Rightarrow> label_library \<Rightarrow> ustr \<Rightarrow> ustr" where
  "normalize_label U L s = squeeze U False (dropWhile (is_space U) (py_casefold U (ll_nfkc L s)))"

definition analysis_status :: "semantic_analysis \<Rightarrow> outcome \<Rightarrow> string" where
  "analysis_status a oc = (if oc_fallback_used oc then ''failed_open''
     else if sa_status a = ''ok'' then ''succeeded'' else ''abstained'')"

definition semantic_outcome :: "semantic_analysis \<Rightarrow> outcome \<Rightarrow> string" where
  "semantic_outcome a oc = (if oc_fallback_used oc then ''succeeded_with_failed_open_stage''
     else if sa_status a = ''abstain'' then ''succeeded_with_abstention''
     else if sa_warnings a \<noteq> [] then ''succeeded_with_partial_semantics'' else ''succeeded_no_candidate'')"

definition source_authority_for :: "string \<Rightarrow> string" where
  "source_authority_for role =
     (case map_of [(''user'', ''user_explicit''), (''assistant'', ''assistant_claim''),
        (''tool'', ''tool_observation''), (''system'', ''system_instruction'')] role of
        None \<Rightarrow> ''untrusted_record'' | Some a \<Rightarrow> a)"

definition semantic_analysis_uuid :: "digests \<Rightarrow> string \<Rightarrow> string \<Rightarrow> string \<Rightarrow> string \<Rightarrow> string" where
  "semantic_analysis_uuid D m run contract_hash raw_hash =
     d_uuid5 D ANALYSIS_NAMESPACE (m @ '':'' @ run @ '':'' @ contract_hash @ '':'' @ raw_hash)"

section \<open>Rows\<close>

definition analysis_dict ::
  "string \<Rightarrow> string \<Rightarrow> string \<Rightarrow> string \<Rightarrow> string \<Rightarrow> string \<Rightarrow> context_scope \<Rightarrow> string \<Rightarrow> semantic_analysis \<Rightarrow> outcome
     \<Rightarrow> string \<Rightarrow> dict_row" where
  "analysis_dict uid m run prompt stage contract_hash sc raw_hash a oc now =
     [(''semantic_analysis_uuid'', jlit uid), (''message_uuid'', jlit m),
      (''message_version_uuid'', jopt jlit (sc_message_version_uuid sc)), (''processing_run_uuid'', jlit run),
      (''prompt_execution_uuid'', jlit prompt), (''stage_execution_uuid'', jlit stage),
      (''workspace_uuid'', jopt jlit (sc_workspace_uuid sc)), (''project_uuid'', jopt jlit (sc_project_uuid sc)),
      (''session_uuid'', jlit (sc_session_uuid sc)), (''user_uuid'', jopt jlit (sc_user_uuid sc)),
      (''source_role'', jlit (sc_role sc)), (''source_authority'', jlit (source_authority_for (sc_role sc))),
      (''contract_hash'', jlit contract_hash), (''raw_text_hash'', jlit raw_hash),
      (''status'', jlit (analysis_status a oc)), (''semantic_outcome'', jlit (semantic_outcome a oc)),
      (''summary_intent'', JStr (sa_intent a)), (''primary_topic'', JStr (sa_primary_topic a)),
      (''secondary_topic'', JStr (sa_secondary_topic a)), (''one_line_summary'', JStr (sa_one_line_summary a)),
      (''epistemic_status'', jlit (sa_epistemic_status a)), (''temporal_status'', JStr (sa_temporal_status a)),
      (''importance'', jfloat (sa_importance a)), (''explicit_memory_request'', JBool (sa_explicit_memory_request a)),
      (''warnings_ijson'', jstrs (sa_warnings a)), (''created_at'', jlit now), (''updated_at'', jlit now)]"

definition category_dict :: "string \<Rightarrow> category_tag \<Rightarrow> dict_row" where
  "category_dict uid c =
     [(''semantic_analysis_uuid'', jlit uid), (''category'', jlit (ct_category c)),
      (''normalized_label'', JStr (ct_normalized_label c)), (''confidence'', jfloat (ct_confidence c))]"

definition concept_dict :: "string \<Rightarrow> ustr \<Rightarrow> string \<Rightarrow> dict_row" where
  "concept_dict concept normalized now =
     [(''concept_uuid'', jlit concept), (''canonical_label'', JStr normalized), (''created_at'', jlit now)]"

definition alias_dict :: "string \<Rightarrow> ustr \<Rightarrow> ustr \<Rightarrow> dict_row" where
  "alias_dict concept alias normalized =
     [(''concept_uuid'', jlit concept), (''alias'', JStr alias), (''normalized_alias'', JStr normalized),
      (''language'', JNull)]"

definition tag_dict :: "string \<Rightarrow> string \<Rightarrow> nat \<Rightarrow> concept_tag \<Rightarrow> dict_row" where
  "tag_dict uid concept ordinal t =
     [(''semantic_analysis_uuid'', jlit uid), (''concept_uuid'', jlit concept), (''tag_ordinal'', jnat ordinal),
      (''confidence'', jfloat (cn_confidence t)), (''raw_start'', jopt jnat (cn_raw_start t)),
      (''raw_end'', jopt jnat (cn_raw_end t))]"

definition unit_dict :: "digests \<Rightarrow> label_library \<Rightarrow> string \<Rightarrow> nat \<Rightarrow> semantic_unit \<Rightarrow> string \<Rightarrow> dict_row" where
  "unit_dict D L uid ordinal u now =
     [(''semantic_unit_uuid'', jlit (ll_uuid5 L UNIT_NAMESPACE (lit (uid @ '':'') @ su_id u))),
      (''semantic_analysis_uuid'', jlit uid), (''semantic_unit_id'', JStr (su_id u)), (''unit_ordinal'', jnat ordinal),
      (''raw_start'', jnat (su_raw_start u)), (''raw_end'', jnat (su_raw_end u)),
      (''evidence_hash'', jlit (d_text D (su_evidence u))), (''proposition_text'', JStr (su_proposition u)),
      (''unit_type'', jlit (su_unit_type u)), (''memory_kind'', jopt jlit (su_memory_kind u)),
      (''durability'', jlit (su_durability u)), (''polarity'', jlit (su_polarity u)),
      (''epistemic_status'', jlit (su_epistemic_status u)), (''lifecycle_status'', JStr (su_lifecycle_status u)),
      (''created_at'', jlit now)]"

definition entity_dict :: "label_library \<Rightarrow> string \<Rightarrow> nat \<Rightarrow> message_entity \<Rightarrow> dict_row" where
  "entity_dict L uid i e =
     [(''entity_reference_uuid'', jlit (ll_uuid5 L REFERENCE_NAMESPACE
         (lit (''entity:'' @ uid @ '':'' @ AttemptAudit.nat_text i)))),
      (''semantic_analysis_uuid'', jlit uid), (''canonical_name'', JStr (en_canonical_name e)),
      (''entity_type'', JStr (en_entity_type e)), (''aliases_ijson'', jstrs (en_aliases e)),
      (''raw_start'', jopt jnat (en_raw_start e)), (''raw_end'', jopt jnat (en_raw_end e)),
      (''confidence'', jfloat (en_confidence e))]"

definition process_dict :: "label_library \<Rightarrow> string \<Rightarrow> nat \<Rightarrow> process_reference \<Rightarrow> dict_row" where
  "process_dict L uid i p =
     [(''process_reference_uuid'', jlit (ll_uuid5 L REFERENCE_NAMESPACE
         (lit (''process:'' @ uid @ '':'' @ AttemptAudit.nat_text i)))),
      (''semantic_analysis_uuid'', jlit uid), (''process_label'', JStr (pr_process_label p)),
      (''process_aliases_ijson'', jstrs (pr_aliases p)), (''stage_label'', jopt JStr (pr_stage_label p)),
      (''stage_ordinal'', jopt jnat (pr_stage_ordinal p)), (''raw_start'', jopt jnat (process_reference.pr_raw_start p)),
      (''raw_end'', jopt jnat (process_reference.pr_raw_end p)), (''confidence'', jfloat (pr_confidence p))]"

definition job_outcome_dict :: "label_library \<Rightarrow> string \<Rightarrow> string \<Rightarrow> string \<Rightarrow> semantic_analysis \<Rightarrow> outcome \<Rightarrow> string \<Rightarrow> dict_row" where
  "job_outcome_dict L uid m run a oc now =
     [(''semantic_job_outcome_uuid'', jlit (ll_uuid5 L REFERENCE_NAMESPACE (lit (''outcome:'' @ uid)))),
      (''semantic_analysis_uuid'', jlit uid), (''message_uuid'', jlit m), (''processing_run_uuid'', jlit run),
      (''job_uuid'', JNull), (''outcome'', jlit (semantic_outcome a oc)),
      (''reason_code'', jlit (case oc_fallback_reason oc of None \<Rightarrow> sa_status a
         | Some r \<Rightarrow> (if r = [] then sa_status a else r))),
      (''called_provider'', JBool (oc_called_provider oc)), (''provider_output_valid'', JBool (oc_provider_output_valid oc)),
      (''fallback_used'', JBool (oc_fallback_used oc)), (''candidate_count'', jnat 0), (''memory_count'', jnat 0),
      (''latency_ms'', jnat (oc_latency_ms oc)), (''created_at'', jlit now)]"

section \<open>Persisting\<close>

text \<open>One concept tag: the concept, its aliases, the tag of this message.\<close>

definition put_concept_tag ::
  "unidb \<Rightarrow> label_library \<Rightarrow> string \<Rightarrow> string \<Rightarrow> nat \<Rightarrow> concept_tag \<Rightarrow> semantics_tables
     \<Rightarrow> (runtime_error, semantics_tables) result" where
  "put_concept_tag U L uid now ordinal t tabs =
     (let normalized = normalize_label U L (cn_canonical_label t);
          concept = ll_uuid5 L CONCEPT_NAMESPACE normalized in
      rbind (put_unless [''concept_uuid''] [[''concept_uuid''], [''canonical_label'']]
        (concept_dict concept normalized now) (mt_concepts tabs)) (\<lambda>concepts.
      rbind (put_all_unless [''concept_uuid'', ''normalized_alias''] [[''concept_uuid'', ''normalized_alias'']]
        (map (\<lambda>al. alias_dict concept al (normalize_label U L al))
          (fromkeys (cn_canonical_label t # cn_aliases t))) (mt_aliases tabs)) (\<lambda>aliases.
      rbind (raise_if (\<not> (ordinal \<le> 4 \<and> span_complete (cn_raw_start t) (cn_raw_end t) \<and>
          \<not> span_inverted (cn_raw_start t) (cn_raw_end t))) (DbIntegrity ''check'')) (\<lambda>_.
      rbind (put_row [[''semantic_analysis_uuid'', ''concept_uuid''], [''semantic_analysis_uuid'', ''tag_ordinal'']]
        (tag_dict uid concept ordinal t) (mt_tags tabs)) (\<lambda>tags.
      Inr (tabs\<lparr>mt_concepts := concepts, mt_aliases := aliases, mt_tags := tags\<rparr>))))))"

fun put_concept_tags ::
  "unidb \<Rightarrow> label_library \<Rightarrow> string \<Rightarrow> string \<Rightarrow> nat \<Rightarrow> concept_tag list \<Rightarrow> semantics_tables
     \<Rightarrow> (runtime_error, semantics_tables) result" where
  "put_concept_tags U L uid now i [] tabs = Inr tabs"
| "put_concept_tags U L uid now i (t # ts) tabs =
     rbind (put_concept_tag U L uid now i t tabs) (put_concept_tags U L uid now (Suc i) ts)"

definition has_key :: "string \<Rightarrow> string \<Rightarrow> dict_row list \<Rightarrow> bool" where
  "has_key c k t \<longleftrightarrow> list_ex (\<lambda>x. jget x c = jlit k) t"

definition analysis_parents :: "runtime_db \<Rightarrow> string \<Rightarrow> context_scope \<Rightarrow> string \<Rightarrow> string \<Rightarrow> bool" where
  "analysis_parents db m sc run prompt \<longleftrightarrow>
     find_message db m \<noteq> None \<and> list_ex (\<lambda>p. pn_uuid p = run) (db_runs db) \<and>
     (case sc_message_version_uuid sc of None \<Rightarrow> True | Some v \<Rightarrow> list_ex (\<lambda>r. mv_uuid r = v) (db_versions db)) \<and>
     has_key ''prompt_execution_uuid'' prompt (db_prompts db)"

definition put_references ::
  "label_library \<Rightarrow> string \<Rightarrow> semantic_analysis \<Rightarrow> semantics_tables \<Rightarrow> (runtime_error, semantics_tables) result" where
  "put_references L uid a tabs =
     rbind (put_rows [[''entity_reference_uuid'']]
       (map (\<lambda>(i, e). entity_dict L uid i e) (enumerate 0 (sa_entities a))) (mt_entities tabs)) (\<lambda>entities.
     rbind (put_rows [[''process_reference_uuid'']]
       (map (\<lambda>(i, p). process_dict L uid i p) (enumerate 0 (sa_process_references a))) (mt_processes tabs)) (\<lambda>processes.
     Inr (tabs\<lparr>mt_entities := entities, mt_processes := processes\<rparr>)))"

definition put_semantics ::
  "digests \<Rightarrow> unidb \<Rightarrow> label_library \<Rightarrow> string \<Rightarrow> dict_row \<Rightarrow> dict_row \<Rightarrow> semantic_analysis \<Rightarrow> string
     \<Rightarrow> semantics_tables \<Rightarrow> (runtime_error, semantics_tables) result" where
  "put_semantics D U L uid analysis_row outcome_row a now tabs =
     rbind (put_row [[''semantic_analysis_uuid''],
         [''message_uuid'', ''processing_run_uuid'', ''contract_hash'', ''raw_text_hash'']]
       analysis_row (mt_analyses tabs)) (\<lambda>analyses.
     rbind (put_rows [[''semantic_analysis_uuid'', ''category'', ''normalized_label'']]
       (map (category_dict uid) (sa_message_categories a)) (mt_categories tabs)) (\<lambda>categories.
     rbind (put_concept_tags U L uid now 0 (sa_concept_tags a)
       (tabs\<lparr>mt_analyses := analyses, mt_categories := categories\<rparr>)) (\<lambda>tabs1.
     rbind (raise_if (\<not> list_all (\<lambda>u. su_raw_start u < su_raw_end u) (sa_semantic_units a)) (DbIntegrity ''check'')) (\<lambda>_.
     rbind (put_rows [[''semantic_unit_uuid''], [''semantic_analysis_uuid'', ''semantic_unit_id''],
         [''semantic_analysis_uuid'', ''unit_ordinal'']]
       (map (\<lambda>(i, u). unit_dict D L uid i u now) (enumerate 0 (sa_semantic_units a))) (mt_units tabs1)) (\<lambda>us.
     rbind (put_references L uid a (tabs1\<lparr>mt_units := us\<rparr>)) (\<lambda>tabs2.
     rbind (put_row [[''semantic_job_outcome_uuid'']] outcome_row (mt_outcomes tabs2)) (\<lambda>outcomes.
     Inr (tabs2\<lparr>mt_outcomes := outcomes\<rparr>))))))))"

text \<open>An analysis that is already there is not written again.\<close>

definition persist_message_semantics ::
  "digests \<Rightarrow> unidb \<Rightarrow> label_library \<Rightarrow> string \<Rightarrow> string \<Rightarrow> string \<Rightarrow> string \<Rightarrow> string \<Rightarrow> context_scope \<Rightarrow> ustr
     \<Rightarrow> semantic_analysis \<Rightarrow> outcome \<Rightarrow> string \<Rightarrow> runtime_db \<Rightarrow> (runtime_error, runtime_db) result" where
  "persist_message_semantics D U L m run prompt stage contract_hash sc raw a oc now db =
     (let raw_hash = d_text D raw; uid = semantic_analysis_uuid D m run contract_hash raw_hash in
      if has_key ''semantic_analysis_uuid'' uid (mt_analyses (db_semantics db)) then Inr db
      else rbind (raise_if (\<not> analysis_parents db m sc run prompt) (DbIntegrity ''foreign_key'')) (\<lambda>_.
           rbind (put_semantics D U L uid (analysis_dict uid m run prompt stage contract_hash sc raw_hash a oc now)
             (job_outcome_dict L uid m run a oc now) a now (db_semantics db)) (\<lambda>tabs.
           Inr (db\<lparr>db_semantics := tabs\<rparr>))))"

definition update_semantic_job_outcome ::
  "string \<Rightarrow> nat \<Rightarrow> nat \<Rightarrow> bool \<Rightarrow> semantics_tables \<Rightarrow> string \<times> semantics_tables" where
  "update_semantic_job_outcome run candidates memories partial tabs =
     (let oc = (if 0 < memories then ''succeeded_with_memory''
                else if 0 < candidates then ''succeeded_with_candidates_only''
                else if partial then ''succeeded_with_partial_semantics'' else ''succeeded_no_candidate'')
      in (oc, tabs\<lparr>mt_outcomes := map (\<lambda>r. if jget r ''processing_run_uuid'' = jlit run
            then dict_set ''outcome'' (jlit oc) (dict_set ''candidate_count'' (jnat candidates)
              (dict_set ''memory_count'' (jnat memories) r)) else r) (mt_outcomes tabs)\<rparr>))"

end
