(* ===== verification/SemanticExecution.thy ===== *)
theory SemanticExecution
  imports MessageSemantics
begin

text \<open>
  One recorded execution of the semantic contract: the model profile, the frozen identity of an
  execution (\<open>memory_worker/identity.py\<close>, \<open>semantic/orchestration.py\<close>), the contract with its
  validator, fallback and warnings (\<open>memory_worker/semantic_runtime.py\<close>) and the rows in which an
  execution is stored and found again (\<open>semantic/runtime_adapters.py\<close>).
\<close>

section \<open>Arguments of the service\<close>

text \<open>What is library code or configuration: digests, the Unicode tables, the text of a float, the
  timestamp check, parsing a mapping into the output model (pydantic), the text of a validation
  error and the hash of the active contract.\<close>

record runtime =
  rt_digests :: digests
  rt_unidb :: unidb
  rt_labels :: label_library
  rt_float :: "int \<Rightarrow> int \<Rightarrow> ustr"
  rt_ts_ok :: "ustr \<Rightarrow> bool"
  rt_parse :: "jdict \<Rightarrow> semantic_analysis option"
  rt_issue_text :: "jdict \<Rightarrow> ustr"
  rt_contract_hash :: string
  rt_norm :: norm_contract

section \<open>The model profile\<close>

datatype profile_value = PText string | PFlag bool | PInt int | PNull

type_synonym profile = "(string \<times> profile_value) list"

definition profile_get :: "profile \<Rightarrow> string \<Rightarrow> profile_value" where
  "profile_get p k = (case map_of p k of None \<Rightarrow> PNull | Some v \<Rightarrow> v)"

fun profile_truthy :: "profile_value \<Rightarrow> bool" where
  "profile_truthy (PText s) = (s \<noteq> [])"
| "profile_truthy (PFlag b) = b"
| "profile_truthy (PInt i) = (i \<noteq> 0)"
| "profile_truthy PNull = False"

definition int_string :: "int \<Rightarrow> string" where
  "int_string i = (if i < 0 then ''-'' @ AttemptAudit.nat_text (nat (- i)) else AttemptAudit.nat_text (nat i))"

fun profile_str :: "profile_value \<Rightarrow> string" where
  "profile_str (PText s) = s"
| "profile_str (PFlag b) = (if b then ''True'' else ''False'')"
| "profile_str (PInt i) = int_string i"
| "profile_str PNull = ''None''"

fun profile_json :: "profile_value \<Rightarrow> json" where
  "profile_json (PText s) = jlit s"
| "profile_json (PFlag b) = JBool b"
| "profile_json (PInt i) = JInt i"
| "profile_json PNull = JNull"

text \<open>\<open>str(p.get(k1) or p.get(k2) or default)\<close>.\<close>

fun first_text :: "profile \<Rightarrow> string list \<Rightarrow> string \<Rightarrow> string" where
  "first_text p [] dflt = dflt"
| "first_text p (k # ks) dflt =
     (if profile_truthy (profile_get p k) then profile_str (profile_get p k) else first_text p ks dflt)"

definition profile_optional :: "profile \<Rightarrow> string \<Rightarrow> string option" where
  "profile_optional p k =
     (if profile_get p k = PNull \<or> profile_get p k = PText [] then None else Some (profile_str (profile_get p k)))"

definition provider_type :: "profile \<Rightarrow> string" where
  "provider_type p = first_text p [''provider_type'', ''provider''] ''deterministic''"

definition REMOTE_PROVIDER_TYPES :: "string list" where
  "REMOTE_PROVIDER_TYPES = [''openai_compatible'', ''openai_compatible_llm'']"

definition capability_mode :: "profile \<Rightarrow> string" where
  "capability_mode p =
     (if profile_truthy (profile_get p ''supports_structured_output'') then ''json_schema''
      else if profile_truthy (profile_get p ''supports_json_mode'') then ''json'' else ''text'')"

text \<open>The client takes a missing \<open>supports_json_mode\<close> for true.\<close>

definition json_mode :: "profile \<Rightarrow> bool" where
  "json_mode p = (case map_of p ''supports_json_mode'' of None \<Rightarrow> True | Some v \<Rightarrow> profile_truthy v)"

definition provider_capability_mode :: "profile \<Rightarrow> string" where
  "provider_capability_mode p =
     (if profile_truthy (profile_get p ''supports_structured_output'') then ''json_schema''
      else if json_mode p then ''json_object'' else ''none'')"

definition fingerprint_fields :: "string list" where
  "fingerprint_fields = [''model_role'', ''role'', ''requested_role'', ''effective_role'', ''scope_source'',
     ''inheritance_source'', ''fallback_reason'', ''model_profile_uuid'', ''provider_type'', ''provider'',
     ''model_name'', ''endpoint_url'', ''endpoint_is_local'', ''secret_env_var_name'',
     ''supports_structured_output'', ''supports_json_mode'', ''supports_embeddings'', ''embedding_dimension'',
     ''is_enabled'', ''requires_privacy_acknowledgement'', ''privacy_acknowledged_at'', ''prompt_version'',
     ''schema_version'', ''updated_at'']"

definition execution_profile_fingerprint :: "digests \<Rightarrow> profile \<Rightarrow> string" where
  "execution_profile_fingerprint D p = canonical_hash D (JObj
     (map (\<lambda>k. (k, profile_json (profile_get p k))) (filter (\<lambda>k. map_of p k \<noteq> None) fingerprint_fields)))"

section \<open>Identity of an execution\<close>

definition SEMANTIC_ORCHESTRATION_VERSION :: string where
  "SEMANTIC_ORCHESTRATION_VERSION = ''memorist.semantic_candidate.orchestration.v1''"

definition SEMANTIC_PROMPT_ID :: string where
  "SEMANTIC_PROMPT_ID = ''memorist.semantic_candidate_analysis''"

definition SEMANTIC_PROMPT_VERSION :: string where
  "SEMANTIC_PROMPT_VERSION = ''1.1''"

definition SEMANTIC_STAGE :: string where
  "SEMANTIC_STAGE = ''semantic_candidate_analysis''"

record planning_request =
  rq_message :: string
  rq_processing_run :: string
  rq_profile :: profile
  rq_import_run :: "string option"
  rq_job :: "string option"
  rq_lease_fence :: bool          \<comment> \<open>is a lease fence given\<close>

definition context_item_json :: "context_item \<Rightarrow> json" where
  "context_item_json c = JObj
     [(''context_item_id'', JStr (ci_context_item_id c)), (''user_uuid'', jlit (ci_user_uuid c)),
      (''session_uuid'', jlit (ci_session_uuid c)), (''workspace_uuid'', jopt jlit (ci_workspace_uuid c)),
      (''project_uuid'', jopt jlit (ci_project_uuid c)), (''message_uuid'', jlit (ci_message_uuid c)),
      (''message_version_uuid'', jopt jlit (ci_message_version_uuid c)),
      (''text_unit_uuid'', jlit (ci_text_unit_uuid c)), (''role'', jlit (ci_role c)),
      (''turn_index'', jnat (ci_turn_index c)), (''unit_index'', jnat (ci_unit_index c)),
      (''raw_start'', jnat (ci_raw_start c)), (''raw_end'', jnat (ci_raw_end c)), (''text'', JStr (ci_text c)),
      (''raw_text_hash'', jlit (ci_raw_text_hash c)),
      (''source_authority_ceiling'', jlit (ci_source_authority_ceiling c))]"

definition boundary_json :: "context_boundary \<Rightarrow> json" where
  "boundary_json b = JObj
     [(''user_uuid'', jlit (cb_user_uuid b)), (''session_uuid'', jlit (cb_session_uuid b)),
      (''workspace_uuid'', jopt jlit (cb_workspace_uuid b)), (''project_uuid'', jopt jlit (cb_project_uuid b)),
      (''baseline_limit'', jnat (cb_baseline_limit b)), (''effective_limit'', jnat (cb_effective_limit b)),
      (''dependency_expansion'', JBool (cb_dependency_expansion b))]"

definition versions_json :: "contract_versions \<Rightarrow> json" where
  "versions_json v = JObj
     [(''semantic_input'', jlit (cv_semantic_input v)), (''semantic_prompt'', jlit (cv_semantic_prompt v)),
      (''jakobson'', jlit (cv_jakobson v)), (''text_envelope'', jlit (cv_text_envelope v)),
      (''evidence_validator'', jlit (cv_evidence_validator v))]"

definition input_json :: "semantic_input \<Rightarrow> json" where
  "input_json i = JObj
     [(''current_message_uuid'', jlit (si_message_uuid i)),
      (''current_message_version_uuid'', jopt jlit (si_message_version_uuid i)),
      (''current_raw_text'', JStr (si_raw_text i)), (''text_envelope'', JObj (si_text_envelope i)),
      (''bounded_context_items'', JList (map context_item_json (si_context_items i))),
      (''boundary'', boundary_json (si_boundary i)), (''contract_versions'', versions_json (si_contract_versions i))]"

definition hashed :: "runtime \<Rightarrow> json \<Rightarrow> (runtime_error, string) result" where
  "hashed R v = map_sum (\<lambda>e. ContractError (NotIJson e)) id
     (canonical_hash_ijson (rt_ts_ok R) (d_json (rt_digests R)) v)"

definition execution_identity ::
  "runtime \<Rightarrow> planning_request \<Rightarrow> string \<Rightarrow> string \<Rightarrow> (runtime_error, string) result" where
  "execution_identity R rq input_hash fingerprint = hashed R (JObj
     [(''orchestration_version'', jlit SEMANTIC_ORCHESTRATION_VERSION),
      (''processing_run_uuid'', jlit (rq_processing_run rq)), (''message_uuid'', jlit (rq_message rq)),
      (''prompt_id'', jlit SEMANTIC_PROMPT_ID), (''prompt_version'', jlit SEMANTIC_PROMPT_VERSION),
      (''contract_hash'', jlit (rt_contract_hash R)), (''input_hash'', jlit input_hash),
      (''profile_fingerprint'', jlit fingerprint)])"

definition requested_role :: "profile \<Rightarrow> string" where
  "requested_role p = first_text p [''requested_role'', ''model_role''] ''memory_extraction''"

definition effective_role :: "profile \<Rightarrow> string" where
  "effective_role p = first_text p [''effective_role'', ''model_role''] ''memory_extraction''"

definition model_name :: "profile \<Rightarrow> string" where
  "model_name p = first_text p [''model_name''] (provider_type p)"

definition frozen_provider_execution ::
  "runtime \<Rightarrow> planning_request \<Rightarrow> string \<Rightarrow> string \<Rightarrow> string \<Rightarrow> string \<Rightarrow> frozen_execution" where
  "frozen_provider_execution R rq stage input_hash fingerprint identity =
     (let p = rq_profile rq in
      \<lparr>fx_stage_execution_uuid = stage, fx_processing_run_uuid = rq_processing_run rq, fx_job_uuid = rq_job rq,
       fx_source_type = ''message'', fx_source_uuid = rq_message rq, fx_requested_role = requested_role p,
       fx_effective_role = effective_role p, fx_model_profile_uuid = profile_optional p ''model_profile_uuid'',
       fx_profile_fingerprint = fingerprint,
       fx_scope_source = first_text p [''scope_source''] ''runtime_profile'',
       fx_inheritance_source = profile_optional p ''inheritance_source'', fx_provider_type = provider_type p,
       fx_model_name = model_name p, fx_capability_mode = capability_mode p, fx_prompt_id = SEMANTIC_PROMPT_ID,
       fx_prompt_version = SEMANTIC_PROMPT_VERSION, fx_contract_hash = rt_contract_hash R,
       fx_input_hash = input_hash, fx_idempotency_identity = identity,
       fx_deterministic_fallback_version = ''semantic-abstention-v1''\<rparr>)"

section \<open>The semantic contract\<close>

definition safe_code_char :: "unidb \<Rightarrow> codepoint \<Rightarrow> bool" where
  "safe_code_char U c \<longleftrightarrow> is_alnum U c \<or> c = 95 \<or> c = 45"

definition safe_reason :: "unidb \<Rightarrow> ustr \<Rightarrow> ustr" where
  "safe_reason U reason =
     take 80 (filter (safe_code_char U) (map (\<lambda>c. if c = 32 then 95 else c) (py_lower U reason)))"

definition abstention :: "unidb \<Rightarrow> string \<Rightarrow> semantic_analysis" where
  "abstention U reason =
     \<lparr>sa_schema_version = ''1.0'', sa_prompt_id = SEMANTIC_PROMPT_ID, sa_prompt_version = SEMANTIC_PROMPT_VERSION,
      sa_status = ''abstain'',
      sa_warnings = [if safe_reason U (lit reason) = [] then lit ''semantic_analysis_unavailable''
        else safe_reason U (lit reason)],
      sa_intent = lit ''unknown'', sa_primary_topic = lit ''unknown'', sa_secondary_topic = lit ''unknown'',
      sa_one_line_summary = lit ''unknown > unknown > unknown'', sa_message_categories = [], sa_concept_tags = [],
      sa_entities = [], sa_process_references = [], sa_epistemic_status = ''unknown'',
      sa_temporal_status = lit ''unknown'', sa_importance = (0, 0), sa_explicit_memory_request = False,
      sa_semantic_units = [], sa_references = [], sa_relations = []\<rparr>"

definition semantic_abstention :: "unidb \<Rightarrow> string \<Rightarrow> jdict" where
  "semantic_abstention U reason = analysis_json (abstention U reason)"

definition semantic_validate :: "runtime \<Rightarrow> semantic_input \<Rightarrow> jdict \<Rightarrow> issue list" where
  "semantic_validate R i out =
     (case rt_parse R out of
        None \<Rightarrow> [(Some (lit ''(semantic)''), Some (lit ''invalid''), Some (rt_issue_text R out))]
      | Some a \<Rightarrow>
          (case validate_semantic_binding (d_text (rt_digests R)) (text_rank (rt_unidb R)) i a of
             Inl _ \<Rightarrow> [(Some (lit ''(semantic)''), Some (lit ''invalid''), Some (rt_issue_text R out))]
           | Inr _ \<Rightarrow> []))"

definition semantic_context :: "runtime \<Rightarrow> profile \<Rightarrow> semantic_input \<Rightarrow> frozen_execution \<Rightarrow> run_context" where
  "semantic_context R p i fx =
     \<lparr>cx_provider = (if provider_type p \<in> set REMOTE_PROVIDER_TYPES then Some (provider_capability_mode p) else None),
      cx_schema_name = Some ''memorist_semantic_candidate_analysis_v1'', cx_validate = semantic_validate R i,
      cx_deterministic = semantic_abstention (rt_unidb R) ''semantic_analysis_unavailable'',
      cx_revalidates = True, cx_allow_fallback = True, cx_audit = Some fx,
      cx_hash = d_json (rt_digests R), cx_ts_ok = rt_ts_ok R, cx_uuid5 = d_uuid5 (rt_digests R),
      cx_unidb = rt_unidb R\<rparr>"

definition provider_configured :: "profile \<Rightarrow> bool" where
  "provider_configured p \<longleftrightarrow>
     provider_type p \<notin> set REMOTE_PROVIDER_TYPES \<or> dropWhile (\<lambda>c. c = CHR ''/'') (rev (first_text p [''endpoint_url''] '''')) \<noteq> []"

text \<open>\<open>_with_content_free_warnings\<close>; the items are strings after validation.\<close>

definition warning_code :: "unidb \<Rightarrow> nat \<times> json \<Rightarrow> ustr" where
  "warning_code U w =
     (let code = (case snd w of JStr s \<Rightarrow> py_lower U s | _ \<Rightarrow> []) in
      if code \<noteq> [] \<and> length code \<le> 80 \<and> list_all (safe_code_char U) code \<and> classify_sensitivity U code = NORMAL
      then code else lit (''provider_warning_'' @ AttemptAudit.nat_text (Suc (fst w))))"

definition free_warnings :: "unidb \<Rightarrow> jdict \<Rightarrow> ustr list" where
  "free_warnings U out =
     fromkeys (map (warning_code U) (enumerate 0 (case jget out ''warnings'' of JList ws \<Rightarrow> ws | _ \<Rightarrow> [])))"

definition with_content_free_warnings :: "unidb \<Rightarrow> outcome \<Rightarrow> outcome" where
  "with_content_free_warnings U oc =
     (let ws = jstrs (free_warnings U (oc_output oc)) in
      if jget (oc_output oc) ''warnings'' = ws then oc
      else oc\<lparr>oc_output := dict_set ''warnings'' ws (oc_output oc)\<rparr>)"

definition execute_semantic_candidate_contract ::
  "runtime \<Rightarrow> profile \<Rightarrow> semantic_input \<Rightarrow> frozen_execution \<Rightarrow> outcome exec" where
  "execute_semantic_candidate_contract R p i fx =
     ebind (run_contract_execution (semantic_context R p i fx)) (\<lambda>oc.
       eret (with_content_free_warnings (rt_unidb R) oc))"

section \<open>Recorded executions\<close>

definition semantic_prompt_uuid :: "digests \<Rightarrow> string \<Rightarrow> string" where
  "semantic_prompt_uuid D stage = stable_stage_execution_uuid (d_uuid5 D) (''semantic-prompt:'' @ stage)"

definition semantic_usage_uuid :: "digests \<Rightarrow> string \<Rightarrow> string" where
  "semantic_usage_uuid D stage = stable_stage_execution_uuid (d_uuid5 D) (''semantic-usage:'' @ stage)"

definition recorded_row :: "runtime_db \<Rightarrow> string \<Rightarrow> string \<Rightarrow> (dict_row \<times> dict_row) option" where
  "recorded_row db prompt stage =
     (case (List.find (\<lambda>r. jget r ''prompt_execution_uuid'' = jlit prompt \<and>
               jget r ''prompt_id'' = jlit SEMANTIC_PROMPT_ID \<and>
               jget r ''prompt_version'' = jlit SEMANTIC_PROMPT_VERSION) (db_prompts db),
            List.find (\<lambda>r. jget r ''stage_execution_uuid'' = jlit stage \<and> jget r ''stage'' = jlit SEMANTIC_STAGE)
              (db_stages db)) of
        (Some p, Some s) \<Rightarrow> Some (p, s)
      | _ \<Rightarrow> None)"

definition load_semantic_execution ::
  "digests \<Rightarrow> runtime_db \<Rightarrow> string \<Rightarrow> string \<Rightarrow> string \<Rightarrow> (runtime_error, (string \<times> jdict) option) result" where
  "load_semantic_execution D db stage input_hash contract_hash =
     (let prompt = semantic_prompt_uuid D stage in
      case recorded_row db prompt stage of
        None \<Rightarrow> Inr None
      | Some (p, s) \<Rightarrow>
          rbind (raise_if (jget p ''input_hash'' \<noteq> jlit input_hash \<or> jget s ''contract_hash'' \<noteq> jlit contract_hash)
            ExecutionIdentityConflict) (\<lambda>_.
          case jget p ''validated_output_ijson'' of
            JObj out \<Rightarrow> Inr (Some (prompt, out))
          | _ \<Rightarrow> Inl ExecutionOutputMissing))"

definition safe_codes :: "unidb \<Rightarrow> json \<Rightarrow> ustr list" where
  "safe_codes U v =
     (case v of
        JList ws \<Rightarrow> filter (\<lambda>s. s \<noteq> []) (map (\<lambda>w. case w of JStr s \<Rightarrow> safe_reason U s | _ \<Rightarrow> []) (take 20 ws))
      | _ \<Rightarrow> [])"

definition prompt_dict ::
  "runtime \<Rightarrow> planning_request \<Rightarrow> context_scope \<Rightarrow> string \<Rightarrow> string \<Rightarrow> string \<Rightarrow> ustr \<Rightarrow> outcome \<Rightarrow> string \<Rightarrow> dict_row" where
  "prompt_dict R rq sc prompt input_hash out_hash raw oc now =
     (let p = rq_profile rq in
      [(''prompt_execution_uuid'', jlit prompt), (''prompt_id'', jlit SEMANTIC_PROMPT_ID),
       (''prompt_version'', jlit SEMANTIC_PROMPT_VERSION), (''stage'', jlit SEMANTIC_STAGE),
       (''model_profile_uuid'', jopt jlit (profile_optional p ''model_profile_uuid'')),
       (''model_role'', jlit ''memory_extraction''), (''provider_type'', jlit (provider_type p)),
       (''model_name'', jlit (model_name p)), (''workspace_uuid'', jopt jlit (sc_workspace_uuid sc)),
       (''project_uuid'', jopt jlit (sc_project_uuid sc)), (''session_uuid'', jlit (sc_session_uuid sc)),
       (''message_uuid'', jlit (rq_message rq)), (''import_run_uuid'', jopt jlit (rq_import_run rq)),
       (''job_uuid'', jopt jlit (rq_job rq)), (''input_hash'', jlit input_hash), (''output_hash'', jlit out_hash),
       (''input_ref'', jlit (''message:'' @ rq_message rq @ '':text-envelope:'' @ d_text (rt_digests R) raw)),
       (''raw_output_ijson'', JObj (oc_output oc)), (''validated_output_ijson'', JObj (oc_output oc)),
       (''status'', jlit (stage_status_value (oc_status oc))),
       (''warnings_ijson'', jstrs (safe_codes (rt_unidb R) (jget (oc_output oc) ''warnings''))),
       (''error_sanitized'', JNull), (''latency_ms'', jnat (oc_latency_ms oc)),
       (''input_tokens'', jnat (oc_input_tokens oc)), (''output_tokens'', jnat (oc_output_tokens oc)),
       (''created_at'', jlit now)])"

definition stage_values ::
  "runtime \<Rightarrow> planning_request \<Rightarrow> string \<Rightarrow> string \<Rightarrow> string \<Rightarrow> string \<Rightarrow> outcome \<Rightarrow> string \<Rightarrow> dict_row" where
  "stage_values R rq stage fingerprint input_hash out_hash oc now =
     (let p = rq_profile rq in
      [(''stage_execution_uuid'', jlit stage), (''processing_run_uuid'', jlit (rq_processing_run rq)),
       (''job_uuid'', jopt jlit (rq_job rq)), (''source_type'', jlit ''message''),
       (''source_uuid'', jlit (rq_message rq)), (''requested_role'', jlit (requested_role p)),
       (''effective_role'', jlit (effective_role p)), (''stage'', jlit SEMANTIC_STAGE),
       (''model_profile_uuid'', jopt jlit (profile_optional p ''model_profile_uuid'')),
       (''provider_type'', jlit (provider_type p)), (''model_name'', jlit (model_name p)),
       (''prompt_id'', jlit SEMANTIC_PROMPT_ID), (''prompt_version'', jlit SEMANTIC_PROMPT_VERSION),
       (''contract_hash'', jlit (rt_contract_hash R)), (''profile_fingerprint'', jlit fingerprint),
       (''input_hash'', jlit input_hash), (''output_hash'', jlit out_hash),
       (''status'', jlit (stage_status_value (oc_status oc))), (''called_provider'', JBool (oc_called_provider oc)),
       (''fallback_used'', JBool (oc_fallback_used oc)),
       (''scope_source'', jlit (first_text p [''scope_source''] ''runtime_profile'')),
       (''inheritance_source'', jopt jlit (profile_optional p ''inheritance_source'')),
       (''fallback_reason'', jopt jlit (oc_fallback_reason oc)), (''detail_sanitized'', JNull),
       (''validation_errors_ijson'', jstrs (oc_validation_error_paths oc)),
       (''input_tokens'', jnat (oc_input_tokens oc)), (''output_tokens'', jnat (oc_output_tokens oc)),
       (''embedding_count'', jnat 0), (''latency_ms'', jnat (oc_latency_ms oc)),
       (''idempotency_key'', jlit (''semantic:'' @ rq_processing_run rq @ '':'' @ rq_message rq @ '':'' @
          rt_contract_hash R)),
       (''created_at'', jlit now), (''completed_at'', jlit now), (''schema_version'', jnat 1),
       (''provider_output_valid'', JBool (oc_provider_output_valid oc)),
       (''repair_attempted'', JBool (oc_repair_attempted oc)), (''repair_succeeded'', JBool (oc_repair_succeeded oc)),
       (''parse_status'', jlit (oc_parse_status oc)), (''capability_mode'', jlit (oc_capability_mode oc)),
       (''provider_response_id'', jopt jlit (oc_provider_response_id oc)),
       (''canonicalized'', JBool (oc_canonicalized oc)), (''attempt_count'', jnat (oc_attempt_count oc)),
       (''total_provider_latency_ms'', jnat (oc_latency_ms oc))])"

definition usage_dict :: "runtime \<Rightarrow> planning_request \<Rightarrow> context_scope \<Rightarrow> string \<Rightarrow> outcome \<Rightarrow> string \<Rightarrow> dict_row" where
  "usage_dict R rq sc stage oc now =
     (let p = rq_profile rq in
      [(''usage_uuid'', jlit (semantic_usage_uuid (rt_digests R) stage)),
       (''model_profile_uuid'', jopt jlit (profile_optional p ''model_profile_uuid'')),
       (''role'', jlit ''memory_extraction''), (''input_tokens'', jnat (oc_input_tokens oc)),
       (''output_tokens'', jnat (oc_output_tokens oc)), (''created_at'', jlit now), (''schema_version'', jnat 1),
       (''stage'', jlit SEMANTIC_STAGE), (''provider_type'', jlit (provider_type p)),
       (''model_name'', jlit (model_name p)), (''workspace_uuid'', jopt jlit (sc_workspace_uuid sc)),
       (''project_uuid'', jopt jlit (sc_project_uuid sc)), (''session_uuid'', jlit (sc_session_uuid sc)),
       (''message_uuid'', jlit (rq_message rq)), (''import_run_uuid'', jopt jlit (rq_import_run rq)),
       (''job_uuid'', jopt jlit (rq_job rq)), (''latency_ms'', jnat (oc_latency_ms oc)),
       (''status'', jlit (stage_status_value (oc_status oc)))])"

definition execution_parents :: "runtime_db \<Rightarrow> planning_request \<Rightarrow> context_scope \<Rightarrow> bool" where
  "execution_parents db rq sc \<longleftrightarrow>
     find_message db (rq_message rq) \<noteq> None \<and> find_session db (sc_session_uuid sc) \<noteq> None \<and>
     list_ex (\<lambda>p. pn_uuid p = rq_processing_run rq) (db_runs db) \<and>
     refers (db_coverage db) ''model_profiles'' (profile_optional (rq_profile rq) ''model_profile_uuid'') \<and>
     refers (db_coverage db) ''workspaces'' (sc_workspace_uuid sc) \<and>
     refers (db_coverage db) ''projects'' (sc_project_uuid sc) \<and>
     refers (db_coverage db) ''import_runs'' (rq_import_run rq) \<and> refers (db_coverage db) ''jobs'' (rq_job rq)"

definition add_parent :: "string \<Rightarrow> string \<Rightarrow> 'c coverage_store \<Rightarrow> 'c coverage_store" where
  "add_parent table key st = st\<lparr>st_parent := (\<lambda>t k. (t = table \<and> k = key) \<or> st_parent st t k)\<rparr>"

text \<open>The three rows and the ledger go in together or not at all.\<close>

definition insert_execution ::
  "runtime \<Rightarrow> planning_request \<Rightarrow> context_scope \<Rightarrow> string \<Rightarrow> string \<Rightarrow> string \<Rightarrow> string \<Rightarrow> string \<Rightarrow> ustr
     \<Rightarrow> semantic_analysis \<Rightarrow> outcome \<Rightarrow> string \<Rightarrow> runtime_db \<Rightarrow> (runtime_error, runtime_db) result" where
  "insert_execution R rq sc prompt stage fingerprint input_hash out_hash raw a oc now db =
     rbind (put_row [[''prompt_execution_uuid'']] (prompt_dict R rq sc prompt input_hash out_hash raw oc now)
       (db_prompts db)) (\<lambda>prompts.
     rbind (put_row [[''stage_execution_uuid''], [''idempotency_key'']]
       (stage_values R rq stage fingerprint input_hash out_hash oc now) (db_stages db)) (\<lambda>stages.
     rbind (raise_if (\<not> execution_parents db rq sc) (DbIntegrity ''foreign_key'')) (\<lambda>_.
     rbind (persist_message_semantics (rt_digests R) (rt_unidb R) (rt_labels R) (rq_message rq)
       (rq_processing_run rq) prompt stage (rt_contract_hash R) sc raw a oc now
       (db\<lparr>db_prompts := prompts, db_stages := stages,
           db_coverage := add_parent ''prompt_execution_runs'' prompt (db_coverage db)\<rparr>)) (\<lambda>db'.
     rbind (put_unless [''usage_uuid''] [[''usage_uuid'']] (usage_dict R rq sc stage oc now) (db_usage db')) (\<lambda>usage.
     Inr (db'\<lparr>db_usage := usage\<rparr>))))))"

definition record_semantic_execution ::
  "runtime \<Rightarrow> planning_request \<Rightarrow> string \<Rightarrow> string \<Rightarrow> string \<Rightarrow> semantic_input \<Rightarrow> string \<Rightarrow> outcome \<Rightarrow> string
     \<Rightarrow> runtime_db \<Rightarrow> (runtime_error, runtime_db) result" where
  "record_semantic_execution R rq prompt stage fingerprint i input_hash oc now db =
     rbind (load_current_context_scope db (rq_message rq)) (\<lambda>sc.
     rbind (hashed R (JObj (oc_output oc))) (\<lambda>out_hash.
     rbind (load_semantic_execution (rt_digests R) db stage input_hash (rt_contract_hash R)) (\<lambda>existing.
     if existing \<noteq> None then Inr db
     else (case rt_parse R (oc_output oc) of
             None \<Rightarrow> Inl OutputInvalid
           | Some a \<Rightarrow> insert_execution R rq sc prompt stage fingerprint input_hash out_hash
               (si_raw_text i) a oc now db))))"

end
