(* ===== verification/CompletedPlanning.thy ===== *)
theory CompletedPlanning
  imports SemanticExecution
begin

text \<open>
  The replay of a message that was planned before (\<open>load_completed_semantic_planning\<close> and
  \<open>_validate_completed_replay\<close> of \<open>semantic/runtime_adapters.py\<close>): the stored plan is read back from
  its column, its items are compared with their rows and its candidates with the current authorities.
\<close>

section \<open>Reading a stored plan\<close>

text \<open>\<open>CoveragePlan.model_validate_json\<close>: strict types, the literals, no extra members.  That a hash
  is 64 hexadecimal digits is a fact about the digest functions and is not checked here.\<close>

definition as_text :: "json \<Rightarrow> ustr option" where
  "as_text v = (case v of JStr s \<Rightarrow> Some s | _ \<Rightarrow> None)"

definition as_string :: "json \<Rightarrow> string option" where
  "as_string v = (case v of JStr s \<Rightarrow> (if list_all (\<lambda>c. c < 256) s then Some (map char_of s) else None) | _ \<Rightarrow> None)"

definition as_nat :: "json \<Rightarrow> nat option" where
  "as_nat v = (case v of JInt i \<Rightarrow> (if 0 \<le> i then Some (nat i) else None) | _ \<Rightarrow> None)"

definition as_optional :: "(json \<Rightarrow> 'a option) \<Rightarrow> json \<Rightarrow> 'a option option" where
  "as_optional f v = (if v = JNull then Some None else map_option Some (f v))"

definition as_tuple :: "(json \<Rightarrow> 'a option) \<Rightarrow> json \<Rightarrow> 'a list option" where
  "as_tuple f v = (case v of JList xs \<Rightarrow> those (map f xs) | _ \<Rightarrow> None)"

definition all_dispositions :: "disposition list" where
  "all_dispositions = [DURABLE_CANDIDATE, CONTEXT_ONLY, TRANSIENT_INSTRUCTION, UNRESOLVED_REFERENCE,
     REJECTED_BY_GATE, NEEDS_REVIEW_ITEM, UNSUPPORTED]"

definition as_disposition :: "json \<Rightarrow> disposition option" where
  "as_disposition v = Option.bind (as_string v) (enum_parse disposition_value all_dispositions)"

definition item_members :: "string list" where
  "item_members = [''coverage_item_id'', ''semantic_unit_id'', ''raw_start'', ''raw_end'', ''disposition'',
     ''reason_codes'', ''gate_decision_uuid'', ''route_uuid'', ''proposal_id'']"

definition plan_members :: "string list" where
  "plan_members = [''coverage_plan_version'', ''message_uuid'', ''raw_text_hash'', ''processing_run_uuid'',
     ''semantic_prompt_execution_uuid'', ''semantic_contract_hash'', ''status'', ''items'', ''warnings'',
     ''coverage_hash'']"

definition item_fields_ok :: "coverage_item \<Rightarrow> bool" where
  "item_fields_ok i \<longleftrightarrow> it_id i \<noteq> [] \<and> 0 < it_raw_end i"

definition as_item :: "json \<Rightarrow> coverage_item option" where
  "as_item v =
     (case v of
        JObj d \<Rightarrow>
          (if set (map fst d) \<noteq> set item_members then None
           else case (as_string (jget d ''coverage_item_id''), as_optional as_text (jget d ''semantic_unit_id''),
                  as_nat (jget d ''raw_start''), as_nat (jget d ''raw_end''), as_disposition (jget d ''disposition''),
                  as_tuple as_string (jget d ''reason_codes''), as_optional as_string (jget d ''gate_decision_uuid''),
                  as_optional as_string (jget d ''route_uuid''), as_optional as_string (jget d ''proposal_id'')) of
               (Some i, Some u, Some s, Some e, Some disp, Some rs, Some g, Some r, Some p) \<Rightarrow>
                 (let item = \<lparr>it_id = i, it_semantic_unit_id = u, it_raw_start = s, it_raw_end = e,
                    it_disposition = disp, it_reason_codes = rs, it_gate_decision_uuid = g, it_route_uuid = r,
                    it_proposal_id = p\<rparr>
                  in if item_fields_ok item then Some item else None)
             | _ \<Rightarrow> None)
      | _ \<Rightarrow> None)"

definition plan_fields_ok :: "coverage_plan \<Rightarrow> bool" where
  "plan_fields_ok p \<longleftrightarrow>
     cp_version p = COVERAGE_PLAN_VERSION \<and> cp_message_uuid p \<noteq> [] \<and> cp_processing_run_uuid p \<noteq> [] \<and>
     cp_status p \<in> {''complete'', ''abstain'', ''retain_raw_only'', ''needs_review''} \<and>
     list_all item_fields_ok (cp_items p)"

definition coverage_plan_of_json :: "json \<Rightarrow> coverage_plan option" where
  "coverage_plan_of_json v =
     (case v of
        JObj d \<Rightarrow>
          (if set (map fst d) \<noteq> set plan_members then None
           else case (as_string (jget d ''coverage_plan_version''), as_string (jget d ''message_uuid''),
                  as_string (jget d ''raw_text_hash''), as_string (jget d ''processing_run_uuid''),
                  as_optional as_string (jget d ''semantic_prompt_execution_uuid''),
                  as_string (jget d ''semantic_contract_hash''), as_string (jget d ''status''),
                  as_tuple as_item (jget d ''items''), as_tuple as_string (jget d ''warnings''),
                  as_string (jget d ''coverage_hash'')) of
               (Some v, Some m, Some h, Some run, Some prompt, Some ch, Some st, Some is, Some ws, Some cov) \<Rightarrow>
                 (let plan = \<lparr>cp_version = v, cp_message_uuid = m, cp_raw_text_hash = h,
                    cp_processing_run_uuid = run, cp_prompt_execution_uuid = prompt, cp_contract_hash = ch,
                    cp_status = st, cp_items = is, cp_warnings = ws, cp_coverage_hash = cov\<rparr>
                  in if plan_fields_ok plan then Some plan else None)
             | _ \<Rightarrow> None)
      | _ \<Rightarrow> None)"

definition canon_members :: "(string \<times> json) list \<Rightarrow> (string \<times> json) list" where
  "canon_members d = sort_key fst (map (\<lambda>(k, v). (k, canon v)) d)"

lemma canon_object: "canon (JObj d) = JObj (canon_members d)"
  by (simp add: canon_members_def)

lemma keys_canon_members: "fst ` set (canon_members d) = fst ` set d"
  unfolding canon_members_def by force

lemma jget_canon_members:
  assumes "distinct (map fst d)"
  shows "jget (canon_members d) k = canon (jget d k)"
proof -
  let ?d = "map (\<lambda>(k, v). (k, canon v)) d"
  have k: "map fst ?d = map fst d" by (induction d) auto
  have dist: "distinct (map fst ?d)" using assms unfolding k .
  have "map_of (canon_members d) = map_of ?d"
    unfolding canon_members_def
  proof (rule map_of_inject_set [THEN iffD2])
    show "distinct (map fst ?d)" by (rule dist)
    show "distinct (map fst (sort_key fst ?d))"
      using dist by (metis distinct_map_mset mset_sort)
  qed simp
  moreover have "map_of ?d k = map_option canon (map_of d k)" by (induction d) auto
  ultimately show ?thesis by (simp add: jget_def split: option.split)
qed

lemma as_string_lit [simp]: "as_string (jlit s) = Some s"
proof -
  have "map char_of (lit s) = s" by (induction s) (simp_all add: lit_simps)
  moreover have "list_all (\<lambda>c. c < 256) (lit s)"
    by (induction s) (simp_all add: lit_simps)
  ultimately show ?thesis by (simp add: as_string_def)
qed

lemma as_simple [simp]:
  "as_text (JStr t) = Some t" "as_nat (jnat n) = Some n" "as_optional f JNull = Some None"
  "as_optional as_string (jlit s) = Some (Some s)" "as_optional as_text (JStr t) = Some (Some t)"
  by (simp_all add: as_text_def as_nat_def as_optional_def)

lemma as_optional_opt [simp]:
  "as_optional as_string (jopt jlit v) = Some v" "as_optional as_text (jopt JStr w) = Some w"
  by (cases v; simp) (cases w; simp)

lemma canon_opt [simp]: "canon (jopt jlit v) = jopt jlit v" "canon (jopt JStr w) = jopt JStr w"
  by (cases v; simp) (cases w; simp)

lemma those_map_id: "\<forall>x \<in> set xs. f (g x) = Some x \<Longrightarrow> those (map f (map g xs)) = Some xs"
  by (induction xs) auto

lemma as_disposition_value [simp]: "as_disposition (jlit (disposition_value d)) = Some d"
  by (cases d) (simp_all add: as_disposition_def enum_parse_def all_dispositions_def)

lemma those_jlits [simp]: "those (map as_string (map jlit xs)) = Some xs"
  by (rule those_map_id) simp

lemma canon_jlits [simp]: "map canon (map jlit xs) = map jlit xs"
  by simp

lemma stored_item_read:
  assumes "item_fields_ok i"
  shows "as_item (canon (item_json i)) = Some i"
proof -
  define d where "d =
     [(''coverage_item_id'', jlit (it_id i)), (''semantic_unit_id'', jopt JStr (it_semantic_unit_id i)),
      (''raw_start'', jnat (it_raw_start i)), (''raw_end'', jnat (it_raw_end i)),
      (''disposition'', jlit (disposition_value (it_disposition i))),
      (''reason_codes'', JList (map jlit (it_reason_codes i))),
      (''gate_decision_uuid'', jopt jlit (it_gate_decision_uuid i)),
      (''route_uuid'', jopt jlit (it_route_uuid i)), (''proposal_id'', jopt jlit (it_proposal_id i))]"
  have "distinct (map fst d)" by (simp add: d_def)
  note get = jget_canon_members [OF this]
  have keys: "fst ` set (canon_members d) = set item_members"
    by (simp add: keys_canon_members) (simp add: d_def item_members_def)
  have vals: "as_string (jget (canon_members d) ''coverage_item_id'') = Some (it_id i)"
    "as_optional as_text (jget (canon_members d) ''semantic_unit_id'') = Some (it_semantic_unit_id i)"
    "as_nat (jget (canon_members d) ''raw_start'') = Some (it_raw_start i)"
    "as_nat (jget (canon_members d) ''raw_end'') = Some (it_raw_end i)"
    "as_disposition (jget (canon_members d) ''disposition'') = Some (it_disposition i)"
    "as_tuple as_string (jget (canon_members d) ''reason_codes'') = Some (it_reason_codes i)"
    "as_optional as_string (jget (canon_members d) ''gate_decision_uuid'') = Some (it_gate_decision_uuid i)"
    "as_optional as_string (jget (canon_members d) ''route_uuid'') = Some (it_route_uuid i)"
    "as_optional as_string (jget (canon_members d) ''proposal_id'') = Some (it_proposal_id i)"
    unfolding get by (simp_all add: d_def as_tuple_def del: map_map)
  have "as_item (JObj (canon_members d)) = Some i"
    using assms by (cases i) (simp add: as_item_def keys vals Let_def)
  then show ?thesis by (simp add: item_json_def d_def canon_object del: canon.simps(2))
qed

lemma stored_plan_read:
  assumes "plan_fields_ok p"
  shows "coverage_plan_of_json (canon (plan_json p)) = Some p"
proof -
  define d where "d =
     [(''coverage_plan_version'', jlit (cp_version p)), (''message_uuid'', jlit (cp_message_uuid p)),
      (''raw_text_hash'', jlit (cp_raw_text_hash p)), (''processing_run_uuid'', jlit (cp_processing_run_uuid p)),
      (''semantic_prompt_execution_uuid'', jopt jlit (cp_prompt_execution_uuid p)),
      (''semantic_contract_hash'', jlit (cp_contract_hash p)), (''status'', jlit (cp_status p)),
      (''items'', JList (map item_json (cp_items p))), (''warnings'', JList (map jlit (cp_warnings p))),
      (''coverage_hash'', jlit (cp_coverage_hash p))]"
  have "distinct (map fst d)" by (simp add: d_def)
  note get = jget_canon_members [OF this]
  have keys: "fst ` set (canon_members d) = set plan_members"
    by (simp add: keys_canon_members) (simp add: d_def plan_members_def)
  have "\<forall>i \<in> set (cp_items p). as_item (canon (item_json i)) = Some i"
    using assms by (auto simp: plan_fields_ok_def list_all_iff stored_item_read)
  then have items: "those (map as_item (map canon (map item_json (cp_items p)))) = Some (cp_items p)"
    using those_map_id [of "cp_items p" as_item "\<lambda>i. canon (item_json i)"] by (simp add: comp_def)
  have vals: "as_string (jget (canon_members d) ''coverage_plan_version'') = Some (cp_version p)"
    "as_string (jget (canon_members d) ''message_uuid'') = Some (cp_message_uuid p)"
    "as_string (jget (canon_members d) ''raw_text_hash'') = Some (cp_raw_text_hash p)"
    "as_string (jget (canon_members d) ''processing_run_uuid'') = Some (cp_processing_run_uuid p)"
    "as_optional as_string (jget (canon_members d) ''semantic_prompt_execution_uuid'') = Some (cp_prompt_execution_uuid p)"
    "as_string (jget (canon_members d) ''semantic_contract_hash'') = Some (cp_contract_hash p)"
    "as_string (jget (canon_members d) ''status'') = Some (cp_status p)"
    "as_tuple as_string (jget (canon_members d) ''warnings'') = Some (cp_warnings p)"
    "as_string (jget (canon_members d) ''coverage_hash'') = Some (cp_coverage_hash p)"
    unfolding get by (simp_all add: d_def as_tuple_def del: map_map)
  have "as_tuple as_item (jget (canon_members d) ''items'') = Some (cp_items p)"
    unfolding get using items by (simp add: d_def as_tuple_def del: map_map)
  then have "coverage_plan_of_json (JObj (canon_members d)) = Some p"
    using assms by (cases p) (simp add: coverage_plan_of_json_def keys vals Let_def)
  then show ?thesis by (simp add: plan_json_def d_def canon_object del: canon.simps(2))
qed

section \<open>Finding a completed run\<close>

definition planning_key_matches ::
  "string \<Rightarrow> string \<Rightarrow> string \<Rightarrow> string option \<Rightarrow> string \<Rightarrow> string \<Rightarrow> string \<Rightarrow> string \<Rightarrow> run_row \<Rightarrow> bool" where
  "planning_key_matches m raw_hash contract_hash version mapping provenance privacy run r \<longleftrightarrow>
     rr_message r = m \<and> rr_raw_text_hash r = raw_hash \<and> rr_contract_hash r = contract_hash \<and>
     rr_mapping_version r = mapping \<and> rr_provenance_version r = provenance \<and> rr_privacy_version r = privacy \<and>
     rr_message_version r = version \<and> (version \<noteq> None \<or> rr_processing_run r = run)"

text \<open>The run of this processing run first, then the latest.\<close>

definition select_completed :: "string \<Rightarrow> run_row list \<Rightarrow> run_row option" where
  "select_completed run rs =
     (let own = filter (\<lambda>r. rr_processing_run r = run) rs in
      case sort_key (\<lambda>r. (rr_created_at r, rr_uuid r)) (if own = [] then rs else own) of
        [] \<Rightarrow> None | x # xs \<Rightarrow> Some (last (x # xs)))"

definition same_identity_error ::
  "string option \<Rightarrow> string \<Rightarrow> string \<Rightarrow> string \<Rightarrow> run_row \<Rightarrow> runtime_error" where
  "same_identity_error version mapping provenance privacy r =
     (if optional_string (rr_message_version r) = version \<and>
         (rr_mapping_version r \<noteq> mapping \<or> rr_provenance_version r \<noteq> provenance \<or> rr_privacy_version r \<noteq> privacy)
      then ReplayPolicyChanged else ReplayVersionConflict)"

record replay_row =
  yr_item :: item_row
  yr_link :: "link_row option"
  yr_candidate :: "memory_candidate option"

definition replay_row_of :: "memory_candidate coverage_store \<Rightarrow> item_row \<Rightarrow> replay_row" where
  "replay_row_of st i =
     (let link = List.find (\<lambda>l. lk_item l = cr_uuid i) (st_links st) in
      \<lparr>yr_item = i, yr_link = link,
       yr_candidate = (case link of None \<Rightarrow> None | Some l \<Rightarrow>
         List.find (\<lambda>c. Some (mc_uuid c) = lk_candidate l) (st_candidates st))\<rparr>)"

definition row_content_same :: "item_row \<Rightarrow> coverage_item \<Rightarrow> bool" where
  "row_content_same r i \<longleftrightarrow> cr_start r = it_raw_start i \<and> cr_end r = it_raw_end i \<and>
     cr_disposition r = disposition_value (it_disposition i) \<and>
     optional_string (cr_proposal r) = it_proposal_id i"

definition row_linked :: "replay_row \<Rightarrow> bool" where
  "row_linked y \<longleftrightarrow> (case yr_link y of None \<Rightarrow> False
     | Some l \<Rightarrow> lk_state l = CANDIDATE_LINKED \<and> lk_candidate l = cr_proposal (yr_item y))"

definition authority_at :: "unit_authority list \<Rightarrow> coverage_item \<Rightarrow> unit_authority option" where
  "authority_at as i =
     (case filter (inside_authority (it_raw_start i) (it_raw_end i)) as of [a] \<Rightarrow> Some a | _ \<Rightarrow> None)"

definition authority_unchanged :: "unit_authority option \<Rightarrow> replay_row \<Rightarrow> bool" where
  "authority_unchanged a y \<longleftrightarrow>
     (case (a, yr_candidate y) of
        (Some x, Some c) \<Rightarrow> pa_privacy_storage_allowed x \<and> pa_privacy_ceiling x = sensitivity_value (mc_sensitivity c)
      | _ \<Rightarrow> False)"

fun replay_items ::
  "(string \<Rightarrow> replay_row option) \<Rightarrow> unit_authority list \<Rightarrow> coverage_item list
     \<Rightarrow> (runtime_error, string list option) result" where
  "replay_items by_id as [] = Inr (Some [])"
| "replay_items by_id as (i # is) =
     (case by_id (it_id i) of
        None \<Rightarrow> Inl ReplayItemsChanged
      | Some y \<Rightarrow>
          rbind (raise_if (\<not> row_content_same (yr_item y) i) ReplayContentChanged) (\<lambda>_.
          (case it_proposal_id i of
             None \<Rightarrow> replay_items by_id as is
           | Some p \<Rightarrow>
               rbind (raise_if (authority_at as i = None) ReplayAuthorityIncomplete) (\<lambda>_.
               if \<not> row_linked y then Inr None
               else rbind (raise_if (\<not> authority_unchanged (authority_at as i) y) ReplayAuthorityChanged) (\<lambda>_.
                    rbind (replay_items by_id as is) (\<lambda>rest. Inr (map_option (Cons p) rest)))))))"

definition validate_completed_replay ::
  "coverage_plan \<Rightarrow> replay_row list \<Rightarrow> unit_authority list \<Rightarrow> (runtime_error, string list option) result" where
  "validate_completed_replay plan rows as =
     rbind (raise_if ((\<lambda>y. cr_uuid (yr_item y)) ` set rows \<noteq> it_id ` set (cp_items plan)) ReplayItemsChanged) (\<lambda>_.
       replay_items (index_by (\<lambda>y. cr_uuid (yr_item y)) rows) as (cp_items plan))"

definition load_completed_semantic_planning ::
  "runtime_db \<Rightarrow> string \<Rightarrow> string \<Rightarrow> string option \<Rightarrow> string \<Rightarrow> string \<Rightarrow> string \<Rightarrow> string \<Rightarrow> string
     \<Rightarrow> unit_authority list \<Rightarrow> (runtime_error, (coverage_plan \<times> string list) option) result" where
  "load_completed_semantic_planning db m run version raw_hash contract_hash mapping provenance privacy as =
     (let st = db_coverage db in
      case select_completed run (filter (planning_key_matches m raw_hash contract_hash version mapping provenance
             privacy run) (st_runs st)) of
        None \<Rightarrow>
          (case List.find (\<lambda>r. rr_message r = m \<and> rr_raw_text_hash r = raw_hash \<and> rr_contract_hash r = contract_hash)
                  (st_runs st) of
             Some r \<Rightarrow> Inl (same_identity_error version mapping provenance privacy r)
           | None \<Rightarrow> Inr None)
      | Some row \<Rightarrow>
          (case coverage_plan_of_json (rr_plan row) of
             None \<Rightarrow> Inl PlanUnreadable
           | Some plan \<Rightarrow>
               rbind (validate_completed_replay plan (map (replay_row_of st) (run_items st (rr_uuid row))) as) (\<lambda>complete.
               case complete of
                 Some ids \<Rightarrow> Inr (Some (plan, ids))
               | None \<Rightarrow> rbind (raise_if (rr_processing_run row \<noteq> run) ReplayCrossRun) (\<lambda>_. Inr None))))"

end
