(* ===== verification/Orchestration.thy ===== *)
theory Orchestration
  imports CompletedPlanning
begin

text \<open>
  The orchestration service (\<open>semantic/orchestration.py\<close>) over the Lite adapter.  Every call of the
  adapter is one effect: it happens only in a living process, after whatever other processes did to
  the database meanwhile, and an error leaves the database as it found it.
\<close>

section \<open>Effects\<close>

record orc_env =
  oe_env :: env
  oe_other :: "nat \<Rightarrow> runtime_db \<Rightarrow> runtime_db"    \<comment> \<open>what others do before the n-th effect\<close>
  oe_fence :: "nat \<Rightarrow> string option"                \<comment> \<open>does the lease fence raise\<close>
  oe_now :: "nat \<Rightarrow> string"
  oe_fresh :: "nat \<Rightarrow> string"

record orc_state =
  os_db :: runtime_db
  os_world :: world

type_synonym 'a orc = "orc_env \<Rightarrow> orc_state \<Rightarrow> (runtime_error, 'a) result \<times> orc_state"

definition oret :: "'a \<Rightarrow> 'a orc" where
  "oret x = (\<lambda>_ s. (Inr x, s))"

definition olift :: "(runtime_error, 'a) result \<Rightarrow> 'a orc" where
  "olift r = (\<lambda>_ s. (r, s))"

definition obind :: "'a orc \<Rightarrow> ('a \<Rightarrow> 'b orc) \<Rightarrow> 'b orc" where
  "obind m f = (\<lambda>E s. case m E s of (Inl e, s') \<Rightarrow> (Inl e, s') | (Inr x, s') \<Rightarrow> f x E s')"

definition oeffect ::
  "(orc_env \<Rightarrow> nat \<Rightarrow> runtime_db \<Rightarrow> (runtime_error, 'a \<times> runtime_db) result) \<Rightarrow> 'a orc" where
  "oeffect f = (\<lambda>E s.
     let n = w_tick (os_world s) in
     if \<not> ev_alive (oe_env E) n then (Inl ProcessDied, s)
     else (let db = oe_other E n (os_db s); w = (os_world s)\<lparr>w_tick := Suc n\<rparr> in
           case f E n db of
             Inl e \<Rightarrow> (Inl e, \<lparr>os_db = db, os_world = w\<rparr>)
           | Inr (x, db') \<Rightarrow> (Inr x, \<lparr>os_db = db', os_world = w\<rparr>)))"

definition oread :: "(runtime_db \<Rightarrow> (runtime_error, 'a) result) \<Rightarrow> 'a orc" where
  "oread q = oeffect (\<lambda>_ _ db. rbind (q db) (\<lambda>x. Inr (x, db)))"

definition owrite :: "(string \<Rightarrow> runtime_db \<Rightarrow> (runtime_error, 'a \<times> runtime_db) result) \<Rightarrow> 'a orc" where
  "owrite f = oeffect (\<lambda>E n db. f (oe_now E n) db)"

definition oclock :: "(string \<times> string) orc" where
  "oclock = oeffect (\<lambda>E n db. Inr ((oe_fresh E n, oe_now E n), db))"

definition olease :: "orc_env \<Rightarrow> nat \<Rightarrow> planning_request \<Rightarrow> string option" where
  "olease E n rq = (if rq_lease_fence rq then oe_fence E n else None)"

definition fence_and_revalidate :: "runtime \<Rightarrow> planning_request \<Rightarrow> string \<Rightarrow> unit orc" where
  "fence_and_revalidate R rq raw_hash =
     obind (oeffect (\<lambda>E n db. case olease E n rq of Some e \<Rightarrow> Inl (Fenced e) | None \<Rightarrow> Inr ((), db))) (\<lambda>_.
       oread (\<lambda>db. assert_runtime_snapshot (rt_digests R) db (rq_message rq) (rq_processing_run rq) raw_hash))"

text \<open>Inside the contract execution the revalidation reads the database as others left it.\<close>

definition contract_env :: "runtime \<Rightarrow> planning_request \<Rightarrow> string \<Rightarrow> orc_env \<Rightarrow> runtime_db \<Rightarrow> env" where
  "contract_env R rq raw_hash E db = (oe_env E)\<lparr>ev_revalidate := (\<lambda>n.
     case olease E n rq of
       Some e \<Rightarrow> Some e
     | None \<Rightarrow> (case assert_runtime_snapshot (rt_digests R) (oe_other E n db) (rq_message rq) (rq_processing_run rq)
                  raw_hash of Inl _ \<Rightarrow> Some ''snapshot_changed'' | Inr _ \<Rightarrow> None))\<rparr>"

definition ocontract ::
  "runtime \<Rightarrow> planning_request \<Rightarrow> string \<Rightarrow> semantic_input \<Rightarrow> frozen_execution \<Rightarrow> outcome orc" where
  "ocontract R rq raw_hash i fx = (\<lambda>E s.
     case execute_semantic_candidate_contract R (rq_profile rq) i fx (contract_env R rq raw_hash E (os_db s))
            (os_world s) of
       (r, w) \<Rightarrow> (map_sum ContractError id r, s\<lparr>os_world := w\<rparr>))"

section \<open>Decisions\<close>

definition SEMANTIC_PRIVACY_POLICY_VERSION :: string where
  "SEMANTIC_PRIVACY_POLICY_VERSION = ''wp02-privacy-ceiling-v1''"

definition is_remote :: "profile \<Rightarrow> bool" where
  "is_remote p \<longleftrightarrow> provider_type p \<in> {''openai_compatible'', ''openai_compatible_llm''} \<and>
     \<not> (profile_truthy (profile_get p ''endpoint_is_local'') \<or> profile_truthy (profile_get p ''is_local''))"

definition sensitive_authority :: "unit_authority \<Rightarrow> bool" where
  "sensitive_authority a \<longleftrightarrow> \<not> pa_privacy_storage_allowed a \<or> pa_privacy_ceiling a \<in> {''sensitive'', ''secret''}"

definition remote_semantic_transfer_forbidden :: "unidb \<Rightarrow> profile \<Rightarrow> unit_authority list \<Rightarrow> ustr \<Rightarrow> bool" where
  "remote_semantic_transfer_forbidden U p as raw \<longleftrightarrow>
     is_remote p \<and> (list_ex sensitive_authority as \<or> classify_sensitivity U raw \<noteq> NORMAL)"

definition planner_role :: "string \<Rightarrow> string" where
  "planner_role v = (if v \<in> {''user'', ''assistant'', ''tool'', ''system''} then v else ''system'')"

definition mark_conflicting :: "unit_authority \<Rightarrow> unit_authority" where
  "mark_conflicting a = a\<lparr>pa_conflicting_authority := True\<rparr>"

definition annotation_for_item :: "unit_authority list \<Rightarrow> coverage_item \<Rightarrow> string option" where
  "annotation_for_item as i =
     (case filter (inside_authority (it_raw_start i) (it_raw_end i)) as of
        [a] \<Rightarrow> pa_annotation_uuid a | _ \<Rightarrow> None)"

definition candidate_authority_binding ::
  "string \<Rightarrow> candidate_proposal \<Rightarrow> unit_authority \<Rightarrow> authority_binding option" where
  "candidate_authority_binding run p a =
     (case (pa_gate_decision_uuid a, pa_gate_decision a, pa_annotation_uuid a, pa_route_uuid a, pa_route_type a,
            pa_route_status a) of
        (Some g, Some gd, Some an, Some r, Some rt, Some rs) \<Rightarrow>
          Some \<lparr>ab_processing_run = run, ab_text_unit = pp_text_unit_uuid p, ab_gate_uuid = g,
                ab_gate_decision = gd, ab_annotation = an, ab_route = r, ab_route_type = rt, ab_route_status = rs\<rparr>
      | _ \<Rightarrow> None)"

section \<open>One semantic execution\<close>

record semantic_execution =
  se_output :: semantic_analysis
  se_prompt :: "string option"
  se_stage :: "string option"
  se_status :: string
  se_called_provider :: bool
  se_fallback_used :: bool

definition bind_output :: "runtime \<Rightarrow> semantic_input \<Rightarrow> semantic_analysis \<Rightarrow> (runtime_error, validation_report) result" where
  "bind_output R i a = map_sum (\<lambda>_. BindingInvalid) id
     (validate_semantic_binding (d_text (rt_digests R)) (text_rank (rt_unidb R)) i a)"

definition parse_output :: "runtime \<Rightarrow> jdict \<Rightarrow> (runtime_error, semantic_analysis) result" where
  "parse_output R out = (case rt_parse R out of None \<Rightarrow> Inl OutputInvalid | Some a \<Rightarrow> Inr a)"

definition replayed_execution ::
  "runtime \<Rightarrow> semantic_input \<Rightarrow> string \<Rightarrow> string \<times> jdict \<Rightarrow> (runtime_error, semantic_execution) result" where
  "replayed_execution R i stage found =
     rbind (parse_output R (snd found)) (\<lambda>a. rbind (bind_output R i a) (\<lambda>_.
       Inr \<lparr>se_output = a, se_prompt = Some (fst found), se_stage = Some stage, se_status = ''replayed'',
            se_called_provider = False, se_fallback_used = False\<rparr>))"

definition fresh_execution ::
  "runtime \<Rightarrow> planning_request \<Rightarrow> semantic_input \<Rightarrow> string \<Rightarrow> string \<Rightarrow> string \<Rightarrow> string \<Rightarrow> string
     \<Rightarrow> semantic_execution orc" where
  "fresh_execution R rq i raw_hash input_hash fingerprint identity stage =
     obind (olift (raise_if (\<not> provider_configured (rq_profile rq)) ProviderMisconfigured)) (\<lambda>_.
     obind (ocontract R rq raw_hash i (frozen_provider_execution R rq stage input_hash fingerprint identity)) (\<lambda>oc.
     obind (olift (parse_output R (oc_output oc))) (\<lambda>a.
     obind (olift (bind_output R i a)) (\<lambda>_.
     obind (fence_and_revalidate R rq raw_hash) (\<lambda>_.
     let prompt = semantic_prompt_uuid (rt_digests R) stage in
     obind (owrite (\<lambda>now db. rbind (record_semantic_execution R rq prompt stage fingerprint i input_hash oc now db)
         (\<lambda>db'. Inr ((), db')))) (\<lambda>_.
     oret \<lparr>se_output = a, se_prompt = Some prompt, se_stage = Some stage,
           se_status = stage_status_value (oc_status oc), se_called_provider = oc_called_provider oc,
           se_fallback_used = oc_fallback_used oc\<rparr>))))))"

definition execute_or_replay_semantic ::
  "runtime \<Rightarrow> planning_request \<Rightarrow> semantic_input \<Rightarrow> string \<Rightarrow> semantic_execution orc" where
  "execute_or_replay_semantic R rq i raw_hash =
     (let fingerprint = execution_profile_fingerprint (rt_digests R) (rq_profile rq) in
      obind (olift (hashed R (input_json i))) (\<lambda>input_hash.
      obind (olift (execution_identity R rq input_hash fingerprint)) (\<lambda>identity.
      let stage = stable_stage_execution_uuid (d_uuid5 (rt_digests R)) identity in
      obind (oread (\<lambda>db. load_semantic_execution (rt_digests R) db stage input_hash (rt_contract_hash R))) (\<lambda>found.
      case found of
        Some f \<Rightarrow> olift (replayed_execution R i stage f)
      | None \<Rightarrow> fresh_execution R rq i raw_hash input_hash fingerprint identity stage))))"

section \<open>Planning a message\<close>

record planning_result =
  rs_plan :: coverage_plan
  rs_proposals :: "candidate_proposal list"
  rs_candidates :: "memory_candidate list"
  rs_prompt :: "string option"
  rs_stage :: "string option"
  rs_status :: string
  rs_called_provider :: bool
  rs_fallback_used :: bool
  rs_context_count :: nat
  rs_terminal_short_circuit :: bool
  rs_candidate_uuids :: "string list"

definition proposal_count :: "planning_result \<Rightarrow> nat" where
  "proposal_count r = length (filter (\<lambda>i. it_proposal_id i \<noteq> None) (cp_items (rs_plan r)))"

definition replayed_result :: "coverage_plan \<Rightarrow> string list \<Rightarrow> planning_result" where
  "replayed_result plan ids =
     \<lparr>rs_plan = plan, rs_proposals = [], rs_candidates = [], rs_prompt = cp_prompt_execution_uuid plan,
      rs_stage = None, rs_status = ''replayed'', rs_called_provider = False, rs_fallback_used = False,
      rs_context_count = 0, rs_terminal_short_circuit = (cp_status plan = ''retain_raw_only''),
      rs_candidate_uuids = ids\<rparr>"

definition skipped_execution :: "runtime \<Rightarrow> semantic_execution" where
  "skipped_execution R =
     \<lparr>se_output = abstention (rt_unidb R) ''privacy_ceiling_before_semantic_analysis'', se_prompt = None,
      se_stage = None, se_status = ''skipped_by_privacy'', se_called_provider = False, se_fallback_used = False\<rparr>"

definition planner_input_of ::
  "runtime \<Rightarrow> planning_request \<Rightarrow> context_scope \<Rightarrow> jdict \<Rightarrow> semantic_execution \<Rightarrow> validation_report
     \<Rightarrow> unit_authority list \<Rightarrow> context_item list \<Rightarrow> planner_input" where
  "planner_input_of R rq sc env se report as items =
     \<lparr>pi_message_uuid = sc_message_uuid sc, pi_message_version_uuid = sc_message_version_uuid sc,
      pi_message_role = planner_role (sc_role sc), pi_processing_run_uuid = rq_processing_run rq,
      pi_raw_text = sc_raw_text sc, pi_text_envelope = env, pi_analysis = se_output se,
      pi_accepted_unit_ids = accepted_unit_ids report,
      pi_accepted_reference_indexes = accepted_reference_indexes report,
      pi_accepted_relation_indexes = accepted_relation_indexes report, pi_authorities = as,
      pi_prompt_execution_uuid = se_prompt se, pi_contract_hash = rt_contract_hash R, pi_context_items = items,
      pi_imported_record = (rq_import_run rq \<noteq> None),
      pi_route_mapping_version = ROUTE_CANDIDATE_MAPPING_VERSION,
      pi_provenance_policy_version = PROVENANCE_POLICY_VERSION,
      pi_privacy_policy_version = SEMANTIC_PRIVACY_POLICY_VERSION\<rparr>"

definition plan_message ::
  "runtime \<Rightarrow> planner_input \<Rightarrow> (runtime_error, coverage_plan \<times> candidate_proposal list) result" where
  "plan_message R inp =
     rbind (raise_if (pi_message_uuid inp = [] \<or> pi_processing_run_uuid inp = []) PlanningFailed) (\<lambda>_.
       map_sum (\<lambda>_. PlanningFailed) id (plan_candidate_coverage (rt_digests R) (rt_unidb R) inp))"

definition on_coverage ::
  "runtime \<Rightarrow> coverage_command \<Rightarrow> string \<Rightarrow> runtime_db \<Rightarrow> (runtime_error, (string \<times> target_state) \<times> runtime_db) result" where
  "on_coverage R c now db =
     (case sqlite_exec (rt_digests R) (rt_float R) c now (db_coverage db) of
        Inl e \<Rightarrow> Inl (Persistence e)
      | Inr (x, st) \<Rightarrow> Inr (x, db\<lparr>db_coverage := st\<rparr>))"

definition reserve_and_link_candidate ::
  "runtime \<Rightarrow> candidate_proposal \<Rightarrow> string \<Rightarrow> memory_candidate \<Rightarrow> candidate_evidence \<Rightarrow> authority_binding option
     \<Rightarrow> unit orc" where
  "reserve_and_link_candidate R p item c e authority =
     (let payload_hash = candidate_payload_hash (rt_digests R) (rt_float R) c [e] in
      obind (owrite (on_coverage R (ReserveCandidate (pp_proposal_id p) item payload_hash))) (\<lambda>_.
      obind (owrite (on_coverage R (CreateAndLink p c [e] authority))) (\<lambda>_. oret ())))"

definition store_proposal ::
  "runtime \<Rightarrow> planning_request \<Rightarrow> string \<Rightarrow> coverage_plan \<Rightarrow> unit_authority list \<Rightarrow> candidate_proposal
     \<Rightarrow> memory_candidate orc" where
  "store_proposal R rq raw_hash plan as p =
     (case index_by it_proposal_id (filter (\<lambda>i. it_proposal_id i \<noteq> None) (cp_items plan)) (Some (pp_proposal_id p)) of
        None \<Rightarrow> olift (Inl PlanningFailed)
      | Some item \<Rightarrow>
          (case index_by pa_text_unit_uuid as (pp_text_unit_uuid p) of
             None \<Rightarrow> olift (Inl AuthorityLost)
           | Some a \<Rightarrow>
               obind oclock (\<lambda>(fresh, now).
               obind (olift (map_sum Persistence id
                 (build_candidate_from_proposal fresh now p (rq_processing_run rq)))) (\<lambda>(c, e).
               obind (fence_and_revalidate R rq raw_hash) (\<lambda>_.
               obind (reserve_and_link_candidate R p (it_id item) c e
                 (candidate_authority_binding (rq_processing_run rq) p a)) (\<lambda>_. oret c))))))"

fun store_proposals ::
  "runtime \<Rightarrow> planning_request \<Rightarrow> string \<Rightarrow> coverage_plan \<Rightarrow> unit_authority list \<Rightarrow> candidate_proposal list
     \<Rightarrow> memory_candidate list orc" where
  "store_proposals R rq raw_hash plan as [] = oret []"
| "store_proposals R rq raw_hash plan as (p # ps) =
     obind (store_proposal R rq raw_hash plan as p) (\<lambda>c.
     obind (store_proposals R rq raw_hash plan as ps) (\<lambda>cs. oret (c # cs)))"

definition bindings_of ::
  "runtime \<Rightarrow> context_scope \<Rightarrow> semantic_execution \<Rightarrow> validation_report \<Rightarrow> unit_authority list \<Rightarrow> context_item list
     \<Rightarrow> coverage_plan \<Rightarrow> persistence_bindings" where
  "bindings_of R sc se report as items plan =
     \<lparr>pb_message_version = sc_message_version_uuid sc, pb_envelope_version = TEXT_SEMANTICS_CONTRACT_VERSION,
      pb_fingerprints = map (\<lambda>u. (su_id u, semantic_unit_fingerprint (rt_digests R) u (se_output se)
          (accepted_reference_indexes report) (accepted_relation_indexes report) items))
        (filter (\<lambda>u. su_id u \<in> set (accepted_unit_ids report)) (sa_semantic_units (se_output se))),
      pb_annotations = map (\<lambda>i. (it_id i, annotation_for_item as i)) (cp_items plan),
      pb_mapping_version = ROUTE_CANDIDATE_MAPPING_VERSION, pb_provenance_version = PROVENANCE_POLICY_VERSION,
      pb_privacy_version = SEMANTIC_PRIVACY_POLICY_VERSION\<rparr>"

text \<open>From the output of the model to the stored candidates.\<close>

definition plan_and_store ::
  "runtime \<Rightarrow> planning_request \<Rightarrow> context_scope \<Rightarrow> text_envelope \<Rightarrow> semantic_input \<Rightarrow> context_item list
     \<Rightarrow> unit_authority list \<Rightarrow> semantic_execution \<Rightarrow> planning_result orc" where
  "plan_and_store R rq sc env i items as se =
     (let D = rt_digests R; raw_hash = d_text D (sc_raw_text sc) in
      obind (olift (bind_output R i (se_output se))) (\<lambda>report.
      obind (fence_and_revalidate R rq raw_hash) (\<lambda>_.
      obind (owrite (\<lambda>now db. rbind (insert_missing_semantic_text_units D sc (se_output se) as now db)
          (\<lambda>db'. Inr ((), db')))) (\<lambda>_.
      obind (oread (\<lambda>db. load_persisted_authorities (rt_unidb R) db (sc_message_uuid sc) (rq_processing_run rq))) (\<lambda>as'.
      obind (olift (plan_message R (planner_input_of R rq sc (envelope_dict env) se report as' items))) (\<lambda>(plan, ps).
      obind (fence_and_revalidate R rq raw_hash) (\<lambda>_.
      obind (owrite (on_coverage R (PersistPlan plan (bindings_of R sc se report as' items plan)))) (\<lambda>_.
      obind (store_proposals R rq raw_hash plan as' ps) (\<lambda>cs.
      oret \<lparr>rs_plan = plan, rs_proposals = ps, rs_candidates = cs, rs_prompt = se_prompt se, rs_stage = se_stage se,
            rs_status = se_status se, rs_called_provider = se_called_provider se,
            rs_fallback_used = se_fallback_used se, rs_context_count = length items,
            rs_terminal_short_circuit = False, rs_candidate_uuids = map mc_uuid cs\<rparr>)))))))))"

definition analyse_and_store ::
  "runtime \<Rightarrow> planning_request \<Rightarrow> context_scope \<Rightarrow> text_envelope \<Rightarrow> unit_authority list \<Rightarrow> planning_result orc" where
  "analyse_and_store R rq sc env as =
     (let D = rt_digests R; raw_hash = d_text D (sc_raw_text sc) in
      obind (oread (\<lambda>db. load_current_context_scope db (rq_message rq))) (\<lambda>sc'.
      obind (oread (\<lambda>db. map_sum ContextError id
          (resolve_context D (rt_unidb R) (list_prior_context_records db) sc' env))) (\<lambda>context.
      obind (olift (map_sum InputError id (build_semantic_input (d_text D) (sc_message_uuid sc)
          (sc_message_version_uuid sc) (sc_raw_text sc) (envelope_dict env) (context_resolution.cr_items context)
          (cr_boundary context)))) (\<lambda>i.
      let as' = (if cr_authority_complete context then as else map mark_conflicting as) in
      obind (if remote_semantic_transfer_forbidden (rt_unidb R) (rq_profile rq) as' (sc_raw_text sc)
             then oret (skipped_execution R)
             else execute_or_replay_semantic R rq i raw_hash) (\<lambda>se.
      plan_and_store R rq sc env i (context_resolution.cr_items context) as' se)))))"

definition execute :: "runtime \<Rightarrow> planning_request \<Rightarrow> planning_result orc" where
  "execute R rq =
     obind (oread (\<lambda>db. load_current_context_scope db (rq_message rq))) (\<lambda>sc.
     obind (olift (assert_current_scope_eligible sc)) (\<lambda>_.
     let env = build_envelope (rt_digests R) (rt_unidb R) (rt_norm R) (sc_raw_text sc) in
     obind (oread (\<lambda>db. load_persisted_authorities (rt_unidb R) db (rq_message rq) (rq_processing_run rq))) (\<lambda>as.
     obind (oread (\<lambda>db. load_completed_semantic_planning db (rq_message rq) (rq_processing_run rq)
         (sc_message_version_uuid sc) (d_text (rt_digests R) (sc_raw_text sc)) (rt_contract_hash R)
         ROUTE_CANDIDATE_MAPPING_VERSION PROVENANCE_POLICY_VERSION SEMANTIC_PRIVACY_POLICY_VERSION as)) (\<lambda>done.
     case done of
       Some (plan, ids) \<Rightarrow> oret (replayed_result plan ids)
     | None \<Rightarrow> analyse_and_store R rq sc env as))))"

end
