(* ===== verification/OrchestrationSafety.thy ===== *)
theory OrchestrationSafety
  imports Orchestration
begin

text \<open>
  What the orchestration service keeps, whatever other processes do to the database between its
  effects: which texts are sent, what a fenced worker may still do, which recorded stage blocks a
  later run, and what the marks of an incomplete authority change.
\<close>

section \<open>Rules for the service\<close>

text \<open>\<open>okeeps E I m Q\<close>: the invariant I survives m, on errors too, and a result satisfies Q.\<close>

definition okeeps :: "orc_env \<Rightarrow> (orc_state \<Rightarrow> bool) \<Rightarrow> 'a orc \<Rightarrow> ('a \<Rightarrow> bool) \<Rightarrow> bool" where
  "okeeps E I m Q \<longleftrightarrow> (\<forall>s r s'. I s \<longrightarrow> m E s = (r, s') \<longrightarrow> I s' \<and> (\<forall>x. r = Inr x \<longrightarrow> Q x))"

named_theorems orc_rules

lemma obind_run:
  "obind m f E s = (r, s') \<longleftrightarrow>
     (\<exists>e. m E s = (Inl e, s') \<and> r = Inl e) \<or> (\<exists>x s1. m E s = (Inr x, s1) \<and> f x E s1 = (r, s'))"
  by (cases "m E s"; cases "fst (m E s)") (auto simp: obind_def)

lemma okeepsI:
  "(\<And>s r s'. I s \<Longrightarrow> m E s = (r, s') \<Longrightarrow> I s' \<and> (\<forall>x. r = Inr x \<longrightarrow> Q x)) \<Longrightarrow> okeeps E I m Q"
  by (simp add: okeeps_def)

lemma okeepsD: "okeeps E I m Q \<Longrightarrow> I s \<Longrightarrow> m E s = (r, s') \<Longrightarrow> I s' \<and> (\<forall>x. r = Inr x \<longrightarrow> Q x)"
  unfolding okeeps_def by blast

lemma okeeps_ret [orc_rules]: "Q x \<Longrightarrow> okeeps E I (oret x) Q"
  by (simp add: okeeps_def oret_def)

lemma okeeps_lift: "(\<And>x. r = Inr x \<Longrightarrow> Q x) \<Longrightarrow> okeeps E I (olift r) Q"
  by (simp add: okeeps_def olift_def)

lemma okeeps_bind: "okeeps E I m P \<Longrightarrow> (\<And>x. P x \<Longrightarrow> okeeps E I (f x) Q) \<Longrightarrow> okeeps E I (obind m f) Q"
  unfolding okeeps_def obind_run by blast

lemma okeeps_true: "okeeps E I m Q \<Longrightarrow> okeeps E I m (\<lambda>_. True)"
  unfolding okeeps_def by blast

lemma okeeps_weaken: "okeeps E I m P \<Longrightarrow> (\<And>x. P x \<Longrightarrow> Q x) \<Longrightarrow> okeeps E I m Q"
  unfolding okeeps_def by blast

text \<open>An effect: the invariant must survive the interference, the tick and the write.\<close>

definition rely :: "orc_env \<Rightarrow> (orc_state \<Rightarrow> bool) \<Rightarrow> bool" where
  "rely E I \<longleftrightarrow> (\<forall>s n k. I s \<longrightarrow>
     I \<lparr>os_db = oe_other E n (os_db s), os_world = (os_world s)\<lparr>w_tick := k\<rparr>\<rparr>)"

definition after_others :: "orc_env \<Rightarrow> orc_state \<Rightarrow> orc_state" where
  "after_others E s = \<lparr>os_db = oe_other E (w_tick (os_world s)) (os_db s),
     os_world = (os_world s)\<lparr>w_tick := Suc (w_tick (os_world s))\<rparr>\<rparr>"

lemma oeffect_run:
  "oeffect f E s =
     (if \<not> ev_alive (oe_env E) (w_tick (os_world s)) then (Inl ProcessDied, s)
      else case f E (w_tick (os_world s)) (os_db (after_others E s)) of
             Inl e \<Rightarrow> (Inl e, after_others E s)
           | Inr (x, db') \<Rightarrow> (Inr x, (after_others E s)\<lparr>os_db := db'\<rparr>))"
  by (simp add: oeffect_def after_others_def Let_def split: sum.split)

lemma okeeps_effect:
  assumes "rely E I"
    and "\<And>n db w x db'. I \<lparr>os_db = db, os_world = w\<rparr> \<Longrightarrow> f E n db = Inr (x, db') \<Longrightarrow>
      I \<lparr>os_db = db', os_world = w\<rparr> \<and> Q x"
  shows "okeeps E I (oeffect f) Q"
proof (rule okeepsI)
  fix s r s' assume I: "I s" and run: "oeffect f E s = (r, s')"
  let ?n = "w_tick (os_world s)" let ?s = "after_others E s"
  have I': "I ?s" using assms(1) I unfolding rely_def after_others_def by blast
  show "I s' \<and> (\<forall>x. r = Inr x \<longrightarrow> Q x)"
  proof (cases "ev_alive (oe_env E) ?n")
    case True
    show ?thesis
    proof (cases "f E ?n (os_db ?s)")
      case (Inl e)
      with run True I' show ?thesis by (auto simp: oeffect_run)
    next
      case (Inr y)
      obtain x db' where y: "y = (x, db')" by (cases y)
      with run True Inr have r: "r = Inr x" "s' = ?s\<lparr>os_db := db'\<rparr>" by (simp_all add: oeffect_run)
      have "f E ?n (os_db ?s) = Inr (x, db')" using Inr y by simp
      moreover have "I \<lparr>os_db = os_db ?s, os_world = os_world ?s\<rparr>" using I' by (cases ?s) simp
      ultimately have "I \<lparr>os_db = db', os_world = os_world ?s\<rparr> \<and> Q x" by (intro assms(2))
      with r show ?thesis by (cases ?s) simp
    qed
  next
    case False
    with run I show ?thesis by (auto simp: oeffect_run)
  qed
qed

lemma okeeps_read:
  assumes "rely E I" "\<And>db w x. I \<lparr>os_db = db, os_world = w\<rparr> \<Longrightarrow> q db = Inr x \<Longrightarrow> Q x"
  shows "okeeps E I (oread q) Q"
  unfolding oread_def by (rule okeeps_effect [OF assms(1)]) (auto simp: rbind_eq_Inr dest: assms(2))

lemma okeeps_write:
  assumes "rely E I"
    and "\<And>now db w x db'. I \<lparr>os_db = db, os_world = w\<rparr> \<Longrightarrow> f now db = Inr (x, db') \<Longrightarrow>
      I \<lparr>os_db = db', os_world = w\<rparr> \<and> Q x"
  shows "okeeps E I (owrite f) Q"
  unfolding owrite_def by (rule okeeps_effect [OF assms(1)]) (rule assms(2))

lemma okeeps_clock: "rely E I \<Longrightarrow> okeeps E I oclock (\<lambda>_. True)"
  unfolding oclock_def by (rule okeeps_effect) auto

lemma okeeps_fence: "rely E I \<Longrightarrow> okeeps E I (fence_and_revalidate R rq h) (\<lambda>_. True)"
  unfolding fence_and_revalidate_def
  by (intro okeeps_bind [where P = "\<lambda>_. True"] okeeps_effect okeeps_read) (auto split: option.splits)


text \<open>What the service keeps, once: from what its fence, its writes and its execution keep.
  F says whether the fence can pass at all.\<close>

definition sendable :: "runtime \<Rightarrow> planning_request \<Rightarrow> semantic_input \<Rightarrow> bool" where
  "sendable R rq i \<longleftrightarrow>
     si_message_uuid i = rq_message rq \<and>
     (is_remote (rq_profile rq) \<longrightarrow> classify_sensitivity (rt_unidb R) (si_raw_text i) = NORMAL) \<and>
     (\<forall>c \<in> set (si_context_items i). same_authority (si_boundary i) c \<and> ci_message_uuid c \<noteq> rq_message rq \<and>
        classify_sensitivity (rt_unidb R) (ci_text c) = NORMAL)"

definition writes_kept :: "(orc_state \<Rightarrow> bool) \<Rightarrow> runtime \<Rightarrow> bool" where
  "writes_kept I R \<longleftrightarrow>
     (\<forall>sc out as now db db' w. I \<lparr>os_db = db, os_world = w\<rparr> \<longrightarrow>
        insert_missing_semantic_text_units (rt_digests R) sc out as now db = Inr db' \<longrightarrow>
        I \<lparr>os_db = db', os_world = w\<rparr>) \<and>
     (\<forall>c now x db db' w. I \<lparr>os_db = db, os_world = w\<rparr> \<longrightarrow> on_coverage R c now db = Inr (x, db') \<longrightarrow>
        I \<lparr>os_db = db', os_world = w\<rparr>)"

definition fence_says :: "orc_env \<Rightarrow> (orc_state \<Rightarrow> bool) \<Rightarrow> runtime \<Rightarrow> planning_request \<Rightarrow> bool \<Rightarrow> bool" where
  "fence_says E I R rq F \<longleftrightarrow> (\<forall>h. okeeps E I (fence_and_revalidate R rq h) (\<lambda>_. F))"

lemma keeps_unit_writes:
  assumes "rely E I" "writes_kept I R"
  shows "okeeps E I (owrite (\<lambda>now db. rbind (insert_missing_semantic_text_units (rt_digests R) sc out as now db)
      (\<lambda>db'. Inr ((), db')))) (\<lambda>_. True)"
    and "okeeps E I (owrite (on_coverage R c)) (\<lambda>_. True)"
proof -
  show "okeeps E I (owrite (\<lambda>now db. rbind (insert_missing_semantic_text_units (rt_digests R) sc out as now db)
      (\<lambda>db'. Inr ((), db')))) (\<lambda>_. True)"
  proof (rule okeeps_write [OF assms(1)])
    fix now db w x db'
    assume "I \<lparr>os_db = db, os_world = w\<rparr>"
      and "rbind (insert_missing_semantic_text_units (rt_digests R) sc out as now db) (\<lambda>db'. Inr ((), db')) = Inr (x, db')"
    then show "I \<lparr>os_db = db', os_world = w\<rparr> \<and> True"
      using assms(2) unfolding writes_kept_def rbind_eq_Inr by blast
  qed
  show "okeeps E I (owrite (on_coverage R c)) (\<lambda>_. True)"
    by (rule okeeps_write [OF assms(1)]) (use assms(2) in \<open>unfold writes_kept_def, blast\<close>)
qed

lemma keeps_store_proposal:
  assumes "rely E I" "fence_says E I R rq F" "F \<Longrightarrow> writes_kept I R"
  shows "okeeps E I (store_proposal R rq h plan as p) (\<lambda>_. True)"
proof -
  have link: "okeeps E I (reserve_and_link_candidate R p item c e b) (\<lambda>_. True)" if F for item c e b
    unfolding reserve_and_link_candidate_def Let_def
    by (intro okeeps_bind [where P = "\<lambda>_. True"] keeps_unit_writes [OF assms(1) assms(3)] okeeps_ret that) simp
  have fence: "okeeps E I (fence_and_revalidate R rq h) (\<lambda>_. F)" using assms(2) by (simp add: fence_says_def)
  show ?thesis
    unfolding store_proposal_def
    by (auto simp: split_beta split: option.split
        intro!: okeeps_lift okeeps_bind [OF okeeps_clock [OF assms(1)]] okeeps_bind [OF fence]
          okeeps_bind [OF okeeps_lift [where Q = "\<lambda>_. True"]] okeeps_bind [OF link] okeeps_ret)
qed

lemma keeps_store_proposals:
  assumes "rely E I" "fence_says E I R rq F" "F \<Longrightarrow> writes_kept I R"
  shows "okeeps E I (store_proposals R rq h plan as ps) (\<lambda>_. True)"
  by (induction ps) (auto intro!: okeeps_ret okeeps_bind [OF keeps_store_proposal [OF assms]]
      intro: okeeps_bind)

lemma keeps_plan_and_store:
  assumes "rely E I" "fence_says E I R rq F" "F \<Longrightarrow> writes_kept I R"
  shows "okeeps E I (plan_and_store R rq sc env i items as se) (\<lambda>r. F \<and> rs_status r = se_status se)"
proof -
  have fence: "okeeps E I (fence_and_revalidate R rq h) (\<lambda>_. F)" for h using assms(2) by (simp add: fence_says_def)
  note writes = keeps_unit_writes [OF assms(1) assms(3)]
  show ?thesis
    unfolding plan_and_store_def Let_def
    by (auto simp: split_beta intro!: okeeps_bind [OF okeeps_lift [where Q = "\<lambda>_. True"]] okeeps_bind [OF fence]
        okeeps_bind [OF writes(1)] okeeps_bind [OF writes(2)] okeeps_bind [OF okeeps_read [OF assms(1), where Q = "\<lambda>_. True"]]
        okeeps_bind [OF keeps_store_proposals [OF assms]] okeeps_ret)
qed


lemma resolve_normal:
  assumes "resolve_context D U lp sc env = Inr cr" "c \<in> set (context_resolution.cr_items cr)"
  shows "classify_sensitivity U (ci_text c) = NORMAL"
proof -
  let ?limit = "if requires_conversation_context (te_hints env) then 6 else 2"
  define rs where "rs = eligible_records U sc (lp sc (max 32 (?limit * 8)))"
  have "list_all2 (\<lambda>r c. to_item D sc r = Inr c) (last_n ?limit rs) (context_resolution.cr_items cr) \<or>
      context_resolution.cr_items cr = []"
    using resolve_Inr [OF assms(1)] unfolding rs_def by (auto split: if_splits)
  with assms(2) obtain r where r: "r \<in> set (last_n ?limit rs)" "to_item D sc r = Inr c"
    by (auto dest!: list_all2_partner_left)
  from r(1) last_n_facts(2) [of ?limit rs] have "r \<in> set rs" by blast
  then have "admissible U sc r" unfolding rs_def eligible_records_facts by simp
  with to_item_Inr [OF r(2)] show ?thesis by (simp add: admissible_def item_of_def)
qed

lemma input_Inr:
  assumes "build_semantic_input hash_text m v raw env items b = Inr i"
  shows "si_message_uuid i = m \<and> si_raw_text i = raw \<and> si_context_items i = items \<and> si_boundary i = b \<and>
    (\<forall>c \<in> set items. same_authority b c \<and> ci_message_uuid c \<noteq> m)"
  using assms by (auto simp: build_semantic_input_def validate_input_def manifest_integrity_def Let_def
      check_context_items_iff raise_if_def
      split: if_splits)

lemma scope_message: "load_current_context_scope db m = Inr sc \<Longrightarrow> sc_message_uuid sc = m"
  by (auto simp: load_current_context_scope_def find_message_def Let_def dest: find_SomeD split: option.splits)


lemma keeps_execution_choice:
  assumes exec: "\<And>i h. sendable R rq i \<Longrightarrow> okeeps E I (execute_or_replay_semantic R rq i h) Q"
    and skip: "Q (skipped_execution R)"
    and i: "si_message_uuid i = rq_message rq \<and> si_raw_text i = raw \<and>
      (\<forall>c \<in> set (si_context_items i). same_authority (si_boundary i) c \<and> ci_message_uuid c \<noteq> rq_message rq \<and>
        classify_sensitivity (rt_unidb R) (ci_text c) = NORMAL)"
  shows "okeeps E I (if remote_semantic_transfer_forbidden (rt_unidb R) (rq_profile rq) as raw
      then oret (skipped_execution R) else execute_or_replay_semantic R rq i h) Q"
proof (cases "remote_semantic_transfer_forbidden (rt_unidb R) (rq_profile rq) as raw")
  case False
  then have "sendable R rq i" using i by (auto simp: sendable_def remote_semantic_transfer_forbidden_def)
  with False show ?thesis by (simp add: exec)
qed (simp add: okeeps_ret skip)

lemma keeps_analyse_and_store:
  assumes "rely E I" "fence_says E I R rq F" "F \<Longrightarrow> writes_kept I R"
    and exec: "\<And>i h. sendable R rq i \<Longrightarrow> okeeps E I (execute_or_replay_semantic R rq i h) Q"
    and skip: "Q (skipped_execution R)" and sc: "sc_message_uuid sc = rq_message rq"
  shows "okeeps E I (analyse_and_store R rq sc env as) (\<lambda>r. F \<and> (\<exists>se. Q se \<and> rs_status r = se_status se))"
proof -
  have scope: "okeeps E I (oread (\<lambda>db. load_current_context_scope db (rq_message rq))) (\<lambda>_. True)"
    by (rule okeeps_read [OF assms(1)]) simp
  define normal where "normal cr \<longleftrightarrow>
      (\<forall>c \<in> set (context_resolution.cr_items cr). classify_sensitivity (rt_unidb R) (ci_text c) = NORMAL)" for cr :: context_resolution
  have ctx: "okeeps E I (oread (\<lambda>db. map_sum ContextError id
      (resolve_context (rt_digests R) (rt_unidb R) (list_prior_context_records db) sc' env))) normal" for sc'
  proof (rule okeeps_read [OF assms(1)])
    fix db w cr
    assume "map_sum ContextError id (resolve_context (rt_digests R) (rt_unidb R) (list_prior_context_records db) sc' env) = Inr cr"
    then have "resolve_context (rt_digests R) (rt_unidb R) (list_prior_context_records db) sc' env = Inr cr"
      by (cases "resolve_context (rt_digests R) (rt_unidb R) (list_prior_context_records db) sc' env") auto
    then show "normal cr" unfolding normal_def by (blast intro: resolve_normal)
  qed
  have input: "okeeps E I (olift (map_sum InputError id (build_semantic_input hash_text (sc_message_uuid sc) v raw d
      (context_resolution.cr_items cr) b))) (\<lambda>i. si_message_uuid i = rq_message rq \<and> si_raw_text i = raw \<and>
      (\<forall>c \<in> set (si_context_items i). same_authority (si_boundary i) c \<and> ci_message_uuid c \<noteq> rq_message rq \<and>
        classify_sensitivity (rt_unidb R) (ci_text c) = NORMAL))" if "normal cr" for cr hash_text v raw d b
  proof (rule okeeps_lift, goal_cases)
    case (1 i)
    then have "build_semantic_input hash_text (sc_message_uuid sc) v raw d (context_resolution.cr_items cr) b = Inr i"
      by (cases "build_semantic_input hash_text (sc_message_uuid sc) v raw d (context_resolution.cr_items cr) b") auto
    from input_Inr [OF this] that sc show ?case by (simp add: normal_def)
  qed
  note choice = keeps_execution_choice [OF exec skip]
  have store: "okeeps E I (plan_and_store R rq sc env i items as' se)
      (\<lambda>r. F \<and> (\<exists>se. Q se \<and> rs_status r = se_status se))" if "Q se" for i items as' se
    by (rule okeeps_weaken [OF keeps_plan_and_store [OF assms(1-3)]]) (use that in auto)
  show ?thesis
    unfolding analyse_and_store_def Let_def
    by (rule okeeps_bind [OF scope], rule okeeps_bind [OF ctx], rule okeeps_bind [OF input], assumption,
        rule okeeps_bind [OF choice], assumption+, rule store)
qed

lemma keeps_execute:
  assumes "rely E I" "fence_says E I R rq F" "F \<Longrightarrow> writes_kept I R"
    and exec: "\<And>i h. sendable R rq i \<Longrightarrow> okeeps E I (execute_or_replay_semantic R rq i h) Q"
    and skip: "Q (skipped_execution R)"
  shows "okeeps E I (execute R rq) (\<lambda>r. (\<exists>plan ids. r = replayed_result plan ids) \<or>
    F \<and> (\<exists>se. Q se \<and> rs_status r = se_status se))"
proof -
  have scope: "okeeps E I (oread (\<lambda>db. load_current_context_scope db (rq_message rq)))
      (\<lambda>sc. sc_message_uuid sc = rq_message rq)"
    by (rule okeeps_read [OF assms(1)]) (rule scope_message)
  note read = okeeps_read [OF assms(1), where Q = "\<lambda>_. True"]
  note analyse = okeeps_weaken [OF keeps_analyse_and_store [OF assms]]
  show ?thesis
    unfolding execute_def Let_def
    by (rule okeeps_bind [OF scope], rule okeeps_bind [OF okeeps_lift [where Q = "\<lambda>_. True"]], simp,
        rule okeeps_bind [OF read], simp, rule okeeps_bind [OF read], simp)
      (auto split: option.split intro!: okeeps_ret analyse)
qed


section \<open>What a run may send\<close>

lemma keeps_calls_effect:
  "(\<And>ev w r w'. f ev w = (r, w') \<Longrightarrow> w_calls w' = w_calls w) \<Longrightarrow>
     keeps (\<lambda>w. set (w_calls w) \<subseteq> C) (effect f)"
  by (rule keeps_effect) (metis world.select_convs(3) world.surjective world.update_convs(1))

lemma calls_quiet [run_rules]:
  "keeps (\<lambda>w. set (w_calls w) \<subseteq> C) (do_revalidate cx)"
  "keeps (\<lambda>w. set (w_calls w) \<subseteq> C) (do_reserve cx i kind)"
  "keeps (\<lambda>w. set (w_calls w) \<subseteq> C) (do_finalize cx i a v c is)"
  "keeps (\<lambda>w. set (w_calls w) \<subseteq> C) (do_finalize_error cx i e)"
  "keeps (\<lambda>w. set (w_calls w) \<subseteq> C) (with_fallback cx reason mode att ps us n eps)"
  "keeps (\<lambda>w. set (w_calls w) \<subseteq> C) (do_count cx n)"
proof -
  note defs = do_revalidate_def do_reserve_def reserve_def do_finalize_def finalize_def output_hash_def ijson_check_def
    do_finalize_error_def finalize_error_def update_attempt_def do_count_def attempt_total_def insert_row_def
  show "keeps (\<lambda>w. set (w_calls w) \<subseteq> C) (do_revalidate cx)"
    by (auto simp: defs run_rules intro!: keeps_calls_effect)
  show "keeps (\<lambda>w. set (w_calls w) \<subseteq> C) (do_reserve cx i kind)"
    by (auto simp: defs run_rules intro!: keeps_calls_effect split: option.splits if_splits)
  show "keeps (\<lambda>w. set (w_calls w) \<subseteq> C) (do_finalize cx i a v c is)"
    by (auto simp: defs run_rules intro!: keeps_calls_effect run_rules split: option.split)
  show "keeps (\<lambda>w. set (w_calls w) \<subseteq> C) (do_finalize_error cx i e)"
    by (auto simp: defs run_rules intro!: keeps_calls_effect split: option.split)
  show count: "keeps (\<lambda>w. set (w_calls w) \<subseteq> C) (do_count cx n)" for n
    by (auto simp: defs run_rules intro!: keeps_calls_effect split: option.split)
  show "keeps (\<lambda>w. set (w_calls w) \<subseteq> C) (with_fallback cx reason mode att ps us n eps)"
    by (simp add: with_fallback_def run_rules count)
qed

lemma calls_within [run_rules]:
  "call_record cx i c \<in> C \<Longrightarrow> keeps (\<lambda>w. set (w_calls w) \<subseteq> C) (do_call cx i c)"
  unfolding do_call_def by (rule keeps_effect) (auto simp: log_call_def)

lemma keeps_calls_run:
  assumes "\<And>i c. i \<in> {1, 2} \<Longrightarrow> call_record cx i c \<in> C"
  shows "keeps (\<lambda>w. set (w_calls w) \<subseteq> C) (run_contract_execution cx)"
proof -
  have c: "call_record cx (Suc 0) x \<in> C" "call_record cx 2 x \<in> C" for x using assms by simp_all
  have "keeps (\<lambda>w. set (w_calls w) \<subseteq> C) (first_attempt cx mode)" for mode
    unfolding first_attempt_def first_parsed_def Let_def
    by (auto intro!: run_rules c split: provider_reply.split option.split)
  moreover have "keeps (\<lambda>w. set (w_calls w) \<subseteq> C) (bounded_repair cx mode a is ps)" for mode a "is" ps
    unfolding bounded_repair_def repair_parsed_def invalid_fallback_def Let_def
    by (auto intro!: run_rules c split: provider_reply.split option.split)
  ultimately show ?thesis
    unfolding run_contract_execution_def by (auto intro!: run_rules split: option.split sum.split)
qed


text \<open>A call of this planning: made under an attempt of the execution whose input is i.\<close>

definition call_for :: "runtime \<Rightarrow> planning_request \<Rightarrow> semantic_input \<Rightarrow> provider_call \<Rightarrow> bool" where
  "call_for R rq i c \<longleftrightarrow> (\<exists>input_hash identity j.
     let fp = execution_profile_fingerprint (rt_digests R) (rq_profile rq);
         stage = stable_stage_execution_uuid (d_uuid5 (rt_digests R)) identity in
     hashed R (input_json i) = Inr input_hash \<and> execution_identity R rq input_hash fp = Inr identity \<and>
     pc_identity c = Some (attempt_identity (frozen_provider_execution R rq stage input_hash fp identity) j))"

lemma keeps_contract:
  assumes "\<And>j c. call_record (semantic_context R p i fx) j c \<in> C"
  shows "keeps (\<lambda>w. set (w_calls w) \<subseteq> C) (execute_semantic_candidate_contract R p i fx)"
  unfolding execute_semantic_candidate_contract_def by (intro keeps_bind keeps_calls_run keeps_ret assms)

lemma rely_calls: "rely E (\<lambda>s. set (w_calls (os_world s)) \<subseteq> C)"
  by (simp add: rely_def)

lemma writes_keep_calls: "writes_kept (\<lambda>s. set (w_calls (os_world s)) \<subseteq> C) R"
  by (simp add: writes_kept_def)

lemma fence_any: "rely E I \<Longrightarrow> fence_says E I R rq True"
  by (simp add: fence_says_def okeeps_fence)

lemma execution_calls:
  assumes "{c. call_for R rq i c} \<subseteq> C"
  shows "okeeps E (\<lambda>s. set (w_calls (os_world s)) \<subseteq> C) (execute_or_replay_semantic R rq i h) (\<lambda>_. True)"
proof -
  let ?I = "\<lambda>s. set (w_calls (os_world s)) \<subseteq> C"
  let ?fp = "execution_profile_fingerprint (rt_digests R) (rq_profile rq)"
  have contract: "okeeps E ?I (ocontract R rq h i (frozen_provider_execution R rq
      (stable_stage_execution_uuid (d_uuid5 (rt_digests R)) identity) input_hash ?fp identity)) (\<lambda>_. True)"
    if "hashed R (input_json i) = Inr input_hash" "execution_identity R rq input_hash ?fp = Inr identity"
    for input_hash identity
  proof (rule okeepsI)
    let ?fx = "frozen_provider_execution R rq (stable_stage_execution_uuid (d_uuid5 (rt_digests R)) identity)
      input_hash ?fp identity"
    fix s r s' assume I: "?I s" and run: "ocontract R rq h i ?fx E s = (r, s')"
    have "call_for R rq i (call_record (semantic_context R (rq_profile rq) i ?fx) j c)" for j c
      using that by (auto simp: call_for_def call_record_def semantic_context_def Let_def)
    then have "call_record (semantic_context R (rq_profile rq) i ?fx) j c \<in> C" for j c using assms by blast
    then have k: "keeps (\<lambda>w. set (w_calls w) \<subseteq> C) (execute_semantic_candidate_contract R (rq_profile rq) i ?fx)"
      by (rule keeps_contract)
    obtain x w where e: "execute_semantic_candidate_contract R (rq_profile rq) i ?fx (contract_env R rq h E (os_db s))
        (os_world s) = (x, w)" by fastforce
    from keeps_runD [OF k I e] run e show "?I s' \<and> (\<forall>x. r = Inr x \<longrightarrow> True)" by (auto simp: ocontract_def)
  qed
  note read = okeeps_read [OF rely_calls, where Q = "\<lambda>_. True"]
    and lifted = okeeps_lift [where Q = "\<lambda>_. True"]
    and fence = okeeps_fence [OF rely_calls]
  have wr: "okeeps E ?I (owrite f) (\<lambda>_. True)" for f :: "string \<Rightarrow> runtime_db \<Rightarrow> (runtime_error, unit \<times> runtime_db) result"
    by (rule okeeps_write [OF rely_calls]) simp
  have fresh: "okeeps E ?I (fresh_execution R rq i h input_hash ?fp identity
      (stable_stage_execution_uuid (d_uuid5 (rt_digests R)) identity)) (\<lambda>_. True)"
    if "hashed R (input_json i) = Inr input_hash" "execution_identity R rq input_hash ?fp = Inr identity"
    for input_hash identity
    unfolding fresh_execution_def Let_def
    by (intro okeeps_bind [OF lifted] okeeps_bind [OF contract [OF that]] okeeps_bind [OF fence]
        okeeps_bind [OF wr] okeeps_ret TrueI)
  show ?thesis
    unfolding execute_or_replay_semantic_def Let_def
    by (rule okeeps_bind [OF okeeps_lift [where Q = "\<lambda>x. hashed R (input_json i) = Inr x"]], assumption,
        rule okeeps_bind [OF okeeps_lift], assumption, rule okeeps_bind [OF read], simp)
      (auto split: option.split intro!: okeeps_lift fresh)
qed

text \<open>
  Property C9 (sensitive_text_stays_local): every provider call that planning a message adds is
  made under an attempt of an execution whose input may be sent: it is this message's, its
  context is earlier text of the same authority and carries nothing sensitive, and if the provider
  is remote the message's text is classified normal as well.  It holds whatever other processes do
  to the database meanwhile and wherever the process dies.
\<close>

theorem sensitive_text_stays_local:
  "set (w_calls (os_world (snd (execute R rq E s)))) \<subseteq>
     set (w_calls (os_world s)) \<union> {c. \<exists>i. sendable R rq i \<and> call_for R rq i c}"
proof -
  let ?C = "set (w_calls (os_world s)) \<union> {c. \<exists>i. sendable R rq i \<and> call_for R rq i c}"
  have exec: "okeeps E (\<lambda>s. set (w_calls (os_world s)) \<subseteq> ?C) (execute_or_replay_semantic R rq i h) (\<lambda>_. True)"
    if "sendable R rq i" for i h
    by (rule execution_calls) (use that in blast)
  note kept = keeps_execute [where F = True and Q = "\<lambda>_. True", OF rely_calls fence_any [OF rely_calls]
      writes_keep_calls exec TrueI]
  obtain r s' where run: "execute R rq E s = (r, s')" by fastforce
  from okeepsD [OF kept _ run] show ?thesis by (simp add: run)
qed


section \<open>A worker that lost its lease\<close>

lemma revalidation_first:
  assumes "\<And>n. ev_revalidate ev n \<noteq> None" "cx_revalidates cx" "run_contract_execution cx ev w = (r, w')"
  shows "w_rows w' = w_rows w \<and> w_calls w' = w_calls w"
proof (cases "cx_provider cx")
  case None
  with assms(3) show ?thesis by (simp add: run_contract_execution_def elift_def)
next
  case (Some mode)
  have "\<exists>e. do_revalidate cx ev w = (Inl e, if ev_alive ev (w_tick w) then w\<lparr>w_tick := Suc (w_tick w)\<rparr> else w)"
    using assms(1) [of "Suc (w_tick w)"] assms(2) by (auto simp: do_revalidate_def effect_def)
  with assms(3) Some show ?thesis by (auto simp: run_contract_execution_def first_attempt_def ebind_def split: if_splits)
qed

text \<open>
  Property C10 (fenced_worker_powerless): a worker whose lease fence always raises writes nothing
  and calls nobody, whatever it does next: every predicate of the database that other processes
  keep is kept, no attempt is reserved, no call is made, and all it can return is the replay of a
  plan that was already complete.
\<close>

theorem fenced_worker_powerless:
  assumes "rq_lease_fence rq" "\<And>n. oe_fence E n \<noteq> None"
    and "\<And>n db. P db \<Longrightarrow> P (oe_other E n db)" "P (os_db s)"
  shows "let (r, s') = execute R rq E s in P (os_db s') \<and> w_rows (os_world s') = w_rows (os_world s) \<and> w_calls (os_world s') = w_calls (os_world s) \<and>
    (\<forall>x. r = Inr x \<longrightarrow> (\<exists>plan ids. x = replayed_result plan ids))"
proof -
  define I where "I = (\<lambda>t :: orc_state. P (os_db t) \<and> w_rows (os_world t) = w_rows (os_world s) \<and>
      w_calls (os_world t) = w_calls (os_world s))"
  have rely: "rely E I" using assms(3) by (simp add: rely_def I_def)
  have lease: "olease E n rq \<noteq> None" for n using assms(1,2) by (simp add: olease_def)
  have "okeeps E I (fence_and_revalidate R rq h) (\<lambda>_. False)" for h
    unfolding fence_and_revalidate_def
    by (intro okeeps_bind [where P = "\<lambda>_. False"] okeeps_effect [OF rely]) (simp_all add: lease split: option.splits)
  then have fence: "fence_says E I R rq False" by (simp add: fence_says_def)
  have contract: "okeeps E I (ocontract R rq h i fx) (\<lambda>_. True)" for h i fx
  proof (rule okeepsI)
    fix t x t' assume I: "I t" and run: "ocontract R rq h i fx E t = (x, t')"
    let ?cx = "semantic_context R (rq_profile rq) i fx" and ?ev = "contract_env R rq h E (os_db t)"
    obtain y w where y: "run_contract_execution ?cx ?ev (os_world t) = (y, w)" by fastforce
    have "w_rows w = w_rows (os_world t) \<and> w_calls w = w_calls (os_world t)"
      by (rule revalidation_first [OF _ _ y]) (auto simp: contract_env_def semantic_context_def lease split: option.split)
    moreover have "t' = t\<lparr>os_world := w\<rparr>"
      using run y by (cases y) (auto simp: ocontract_def execute_semantic_candidate_contract_def ebind_def eret_def)
    ultimately show "I t' \<and> (\<forall>z. x = Inr z \<longrightarrow> True)" using I by (simp add: I_def)
  qed
  have fresh: "okeeps E I (fresh_execution R rq i h ih fp idn st) (\<lambda>_. True)" for i h ih fp idn st
    unfolding fresh_execution_def Let_def
    by (intro okeeps_bind [OF okeeps_lift [where Q = "\<lambda>_. True"]] okeeps_bind [OF contract]
        okeeps_bind [OF fence [unfolded fence_says_def, rule_format]] TrueI) simp
  have exec: "okeeps E I (execute_or_replay_semantic R rq i h) (\<lambda>_. True)" for i h
    unfolding execute_or_replay_semantic_def Let_def
    by (intro okeeps_bind [OF okeeps_lift [where Q = "\<lambda>_. True"]] okeeps_bind [OF okeeps_read [OF rely, where Q = "\<lambda>_. True"]] TrueI)
      (auto split: option.split intro!: okeeps_lift fresh)
  have "I s" using assms(4) by (simp add: I_def)
  moreover obtain r s' where run: "execute R rq E s = (r, s')" by fastforce
  ultimately have I': "I s'" and x: "\<forall>x. r = Inr x \<longrightarrow> (\<exists>plan ids. x = replayed_result plan ids)"
    using okeepsD [OF keeps_execute [OF rely fence FalseE exec TrueI]] by blast+
  show ?thesis unfolding run Let_def prod.case using I' x by (simp add: I_def)
qed

section \<open>A recorded stage\<close>

definition semantic_stage_key :: "runtime \<Rightarrow> planning_request \<Rightarrow> string" where
  "semantic_stage_key R rq = ''semantic:'' @ rq_processing_run rq @ '':'' @ rq_message rq @ '':'' @ rt_contract_hash R"

lemma insert_units_stages:
  "insert_units D sc now i us db = Inr db' \<Longrightarrow> db_stages db' = db_stages db \<and> db_prompts db' = db_prompts db"
  by (induction us arbitrary: i db) (auto simp: insert_or_ignore_unit_def split: if_splits, (fastforce+)?)

lemma writes_keep_stages:
  "writes_kept (\<lambda>s. db_stages (os_db s) = S \<and> db_prompts (os_db s) = T) R"
  by (auto simp: writes_kept_def insert_missing_semantic_text_units_def on_coverage_def
      dest!: insert_units_stages split: sum.splits prod.splits)

lemma recording_refused:
  assumes "x \<in> set (db_stages db)" "jget x ''idempotency_key'' = jlit (semantic_stage_key R rq)"
    and "recorded_row db prompt stage = None" "prompt = semantic_prompt_uuid (rt_digests R) stage"
  shows "\<exists>e. record_semantic_execution R rq prompt stage fp i ih oc now db = Inl e"
proof -
  have "\<nexists>t. put_row [[''stage_execution_uuid''], [''idempotency_key'']]
      (stage_values R rq stage fp ih oh oc now) (db_stages db) = Inr t" for oh
    using assms(1,2) by (auto simp: put_row_def raise_if_def key_taken_def same_key_def list_ex_iff stage_values_def
        Let_def semantic_stage_key_def)
  moreover have "load_semantic_execution (rt_digests R) db stage ih (rt_contract_hash R) = Inr None"
    using assms(3,4) by (simp add: load_semantic_execution_def Let_def)
  ultimately have "\<nexists>db'. record_semantic_execution R rq prompt stage fp i ih oc now db = Inr db'"
    by (auto simp: record_semantic_execution_def insert_execution_def split: option.splits)
  then show ?thesis by (metis sum.exhaust)
qed


text \<open>
  Property C11 (recorded_stage_blocks_other_execution): the stage row of the semantic step is
  unique per processing run, message and contract, but its identity also depends on the input and
  the model profile.  Once such a row is there (and others leave the recorded executions alone), a
  run of the message can only return as a replay or without asking the model: an execution with a
  changed input or profile is never recorded, after its provider call.
\<close>

theorem recorded_stage_blocks_other_execution:
  assumes "x \<in> set (db_stages (os_db s))" "jget x ''idempotency_key'' = jlit (semantic_stage_key R rq)"
    and "\<And>n db. db_stages (oe_other E n db) = db_stages db \<and> db_prompts (oe_other E n db) = db_prompts db"
  shows "case fst (execute R rq E s) of
      Inl e \<Rightarrow> True | Inr res \<Rightarrow> rs_status res \<in> {''replayed'', ''skipped_by_privacy''}"
proof (rule sum.split [THEN iffD2], intro conjI allI impI)
  fix res assume res: "fst (execute R rq E s) = Inr res"
  define I where "I = (\<lambda>t :: orc_state. db_stages (os_db t) = db_stages (os_db s) \<and> db_prompts (os_db t) = db_prompts (os_db s))"
  have rely: "rely E I" using assms(3) by (simp add: rely_def I_def)
  have writes: "writes_kept I R" unfolding I_def by (rule writes_keep_stages)
  have contract: "okeeps E I (ocontract R rq h i fx) (\<lambda>_. True)" for h i fx
    by (rule okeepsI) (auto simp: ocontract_def I_def split: prod.splits)
  have rec: "okeeps E I (owrite (\<lambda>now db. rbind (record_semantic_execution R rq
      (semantic_prompt_uuid (rt_digests R) st) st fp i ih oc now db) (\<lambda>db'. Inr ((), db')))) (\<lambda>_. False)"
    if "recorded_row (os_db s) (semantic_prompt_uuid (rt_digests R) st) st = None" for st fp i ih oc
  proof (rule okeeps_write [OF rely])
    fix now db w y db'
    assume "I \<lparr>os_db = db, os_world = w\<rparr>" and run: "rbind (record_semantic_execution R rq
      (semantic_prompt_uuid (rt_digests R) st) st fp i ih oc now db) (\<lambda>db'. Inr ((), db')) = Inr (y, db')"
    then have "x \<in> set (db_stages db)" "recorded_row db (semantic_prompt_uuid (rt_digests R) st) st = None"
      using assms(1) that by (simp_all add: I_def recorded_row_def)
    from recording_refused [OF this(1) assms(2) this(2) refl] run
    show "I \<lparr>os_db = db', os_world = w\<rparr> \<and> False" by (metis rbind_simps(1) sum.distinct(1))
  qed
  have fresh: "okeeps E I (fresh_execution R rq i h ih fp idn st) (\<lambda>_. False)"
    if "recorded_row (os_db s) (semantic_prompt_uuid (rt_digests R) st) st = None" for i h ih fp idn st
    unfolding fresh_execution_def Let_def
    by (intro okeeps_bind [OF okeeps_lift [where Q = "\<lambda>_. True"]] okeeps_bind [OF contract]
        okeeps_bind [OF okeeps_fence [OF rely]] okeeps_bind [OF rec [OF that]] TrueI) simp
  have found: "okeeps E I (oread (\<lambda>db. load_semantic_execution (rt_digests R) db st ih ch))
      (\<lambda>f. f = None \<longrightarrow> recorded_row (os_db s) (semantic_prompt_uuid (rt_digests R) st) st = None)" for st ih ch
    by (rule okeeps_read [OF rely])
      (auto simp: load_semantic_execution_def I_def recorded_row_def Let_def split: option.splits json.splits)
  have exec: "okeeps E I (execute_or_replay_semantic R rq i h)
      (\<lambda>se. se_status se \<in> {''replayed'', ''skipped_by_privacy''})" for i h
    unfolding execute_or_replay_semantic_def Let_def
    by (rule okeeps_bind [OF okeeps_lift [where Q = "\<lambda>_. True"]], simp,
        rule okeeps_bind [OF okeeps_lift [where Q = "\<lambda>_. True"]], simp, rule okeeps_bind [OF found])
      (auto simp: replayed_execution_def split: option.split intro!: okeeps_lift okeeps_weaken [OF fresh])
  note kept = keeps_execute [OF rely fence_any [OF rely] writes exec]
  have "I s" by (simp add: I_def)
  moreover have "execute R rq E s = (Inr res, snd (execute R rq E s))" using res by (cases "execute R rq E s") simp
  ultimately show "rs_status res \<in> {''replayed'', ''skipped_by_privacy''}"
    using okeepsD [OF kept] by (fastforce simp: skipped_execution_def replayed_result_def)
qed simp

end
