(* ===== verification/CompletedReplay.thy ===== *)
theory CompletedReplay
  imports OrchestrationSafety CoverageAudit
begin

text \<open>
  Planning a message twice.  The rows that a finished run of the service leaves behind pass every
  check that a later run makes before it replays them.
\<close>

section \<open>A completed run in the tables\<close>

lemma index_by_map: "(\<And>x. x \<in> set xs \<Longrightarrow> f (g x) = h x) \<Longrightarrow> index_by f (map g
    xs) k = map_option g (index_by h xs k)"
proof -
  assume h: "\<And>x. x \<in> set xs \<Longrightarrow> f (g x) = h x"
  have "map (\<lambda>x. (f x, x)) (map g xs) = map (\<lambda>(k, x). (k, g x)) (map (\<lambda>x. (h x, x)) xs)"
    using h by simp
  then have "index_by f (map g xs) k = map_of (map (\<lambda>(k, x). (k, g x)) (rev (map (\<lambda>x. (h x, x)) xs))) k"
    unfolding index_by_def by (simp only: rev_map)
  then show ?thesis unfolding index_by_def by (simp only: map_of_map comp_def)
qed

lemma rmap_memberD: "rmap g xs = Inr ys \<Longrightarrow> x \<in> set xs \<Longrightarrow> \<exists>y. g x = Inr y"
  by (auto simp: rmap_eq_Inr dest: list_all2_partner_right)

text \<open>The rows of a plan whose replay check passes.\<close>

lemma stored_rows:
  assumes "assert_plan_replay D plan b st = Inr u"
  defines "run \<equiv> coverage_run_uuid D (cp_coverage_hash plan)"
  obtains now where "find_run st run = Some (run_values D plan b now)"
    "cr_uuid ` set (run_items st run) = it_id ` set (cp_items plan)"
    "\<forall>i \<in> set (cp_items plan). \<exists>t. index_by cr_uuid (run_items st run) (it_id i) = Some
        (item_row_of i run b t)"
proof -
  from assms(1) obtain row where row: "find_run st run = Some row" "row = run_values D plan b (rr_created_at row)"
    and items: "\<exists>u. assert_items_replay (\<lambda>r i. rbind (item_values i run b (cr_created_at r))
      (\<lambda>x. raise_if (r \<noteq> x) PlanReplayDiffers)) plan (run_items st run) = Inr u"
    by (auto simp: assert_plan_replay_def Let_def run_def split: option.splits)
  from items obtain us where img: "cr_uuid ` set (run_items st run) = it_id ` set (cp_items plan)"
    and each: "rmap (\<lambda>i. case index_by cr_uuid (run_items st run) (it_id i) of None \<Rightarrow> Inl
        ItemSetDiffers
      | Some r \<Rightarrow> rbind (item_values i run b (cr_created_at r)) (\<lambda>x. raise_if (r \<noteq> x)
          PlanReplayDiffers)) (cp_items plan) = Inr us"
    by (auto simp: assert_items_replay_def)
  have "\<forall>i \<in> set (cp_items plan). \<exists>t. index_by cr_uuid (run_items st run) (it_id i) = Some
      (item_row_of i run b t)"
  proof
    fix i assume "i \<in> set (cp_items plan)"
    from rmap_memberD [OF each this] obtain r where r: "index_by cr_uuid (run_items st run) (it_id i) = Some r"
      "\<exists>y. rbind (item_values i run b (cr_created_at r)) (\<lambda>x. raise_if (r \<noteq> x)
          PlanReplayDiffers) = Inr y"
      by (auto split: option.splits)
    then have "r = item_row_of i run b (cr_created_at r)" by (auto simp: item_values_def)
    with r(1) show "\<exists>t. index_by cr_uuid (run_items st run) (it_id i) = Some (item_row_of i run b t)" by metis
  qed
  with that row img show thesis by metis
qed

text \<open>The link of an item, found by the item.\<close>

lemma link_by_item:
  assumes inv: "store_inv sqlite_dialect D F st" and l: "find_link st p = Some l"
    and item: "lk_item l = k"
  shows "List.find (\<lambda>l. lk_item l = k) (st_links st) = Some l"
proof -
  note mem = find_link_Some [OF l]
  have ok: "link_ok sqlite_dialect D F st x" if "x \<in> set (st_links st)" for x
    using inv that by (auto simp: store_inv_def list_all_iff)
  have ditems: "distinct (map cr_uuid (st_items st))" and dlinks: "distinct (map lk_proposal (st_links st))"
    using inv by (simp_all add: store_inv_def)
  obtain l' where l': "List.find (\<lambda>l. lk_item l = k) (st_links st) = Some l'"
    using mem item by (cases "List.find (\<lambda>l. lk_item l = k) (st_links st)") (auto simp: find_None_iff)
  note m' = find_SomeD [OF l']
  from ok [OF conjunct1 [OF mem]] item obtain i where i: "i \<in> set (st_items st)" "cr_uuid i = k" "cr_proposal i
      = Some p"
    using mem by (auto simp: link_ok_def)
  from ok [OF conjunct1 [OF m']] m' obtain j where j: "j \<in> set (st_items st)" "cr_uuid j = k" "cr_proposal j =
      Some (lk_proposal l')"
    by (auto simp: link_ok_def)
  from distinct_key_eq [OF ditems i(1) j(1)] i(2,3) j(2,3) have "lk_proposal l' = p" by simp
  with distinct_key_eq [OF dlinks conjunct1 [OF m'] conjunct1 [OF mem]] mem have "l' = l" by simp
  with l' show ?thesis by simp
qed

text \<open>What the service has stored for a proposal.\<close>

definition proposal_stored ::
  "digests \<Rightarrow> (int \<Rightarrow> int \<Rightarrow> ustr) \<Rightarrow> coverage_plan \<Rightarrow>
      string \<Rightarrow> memory_candidate coverage_store \<Rightarrow> candidate_proposal \<Rightarrow> bool" where
  "proposal_stored D F plan run st p \<longleftrightarrow>
     (\<exists>i fresh now c e b. i \<in> set (cp_items plan) \<and> it_proposal_id i = Some (pp_proposal_id p) \<and>
        build_candidate_from_proposal fresh now p run = Inr (c, e) \<and>
        (\<exists>h. link_reserved st (pp_proposal_id p) (it_id i) h) \<and>
        lite.candidate_settled D F p c [e] b st)"

lemma built_sensitivity:
  "build_candidate_from_proposal fresh now p run = Inr (c, e) \<Longrightarrow>
     sensitivity_value (mc_sensitivity c) = pp_privacy_ceiling p \<and> mc_uuid c = pp_proposal_id p"
  by (auto simp: build_candidate_from_proposal_def enum_parse_def Let_def dest!: find_SomeD split: option.splits
      if_splits)

lemma settled_row_replayed:
  assumes inv: "store_inv sqlite_dialect D F st" and p: "proposal_stored D F plan run st p"
    and i: "i \<in> set (cp_items plan)" "it_proposal_id i = Some (pp_proposal_id p)"
    and once: "\<And>i j. i \<in> set (cp_items plan) \<Longrightarrow> j \<in> set (cp_items plan)
        \<Longrightarrow> it_proposal_id i \<noteq> None \<Longrightarrow>
       it_proposal_id i = it_proposal_id j \<Longrightarrow> i = j"
    and a: "pa_privacy_storage_allowed a" "pa_privacy_ceiling a = pp_privacy_ceiling p"
  shows "row_linked (replay_row_of st (item_row_of i u b t))"
    and "authority_unchanged (Some a) (replay_row_of st (item_row_of i u b t))"
proof -
  from p obtain j fresh now c e bd h where j: "j \<in> set (cp_items plan)" "it_proposal_id j = Some (pp_proposal_id p)"
    and built: "build_candidate_from_proposal fresh now p run = Inr (c, e)"
    and res: "link_reserved st (pp_proposal_id p) (it_id j) h"
    and settled: "lite.candidate_settled D F p c [e] bd st"
    unfolding proposal_stored_def by blast
  from once [OF i(1) j(1)] i(2) j(2) have ij: "j = i" by simp
  from settled obtain es l row r where s: "find_link st (pp_proposal_id p) = Some l" "lk_state l = CANDIDATE_LINKED"
    "find_candidate sqlite_dialect st (pp_proposal_id p) = Some row" "assert_existing_candidate sqlite_dialect st
        row c es = Inr r"
    unfolding lite.candidate_settled_def by blast
  from res s(1) ij have item: "lk_item l = it_id i" by (auto simp: link_reserved_def)
  note found = link_by_item [OF inv s(1) item]
  note mem = find_link_Some [OF s(1)]
  have "link_ok sqlite_dialect D F st l" using inv mem by (auto simp: store_inv_def list_all_iff)
  with s(2) mem have cand: "lk_candidate l = Some (pp_proposal_id p)" by (simp add: link_ok_def)
  from s(4) have "row = c\<lparr>mc_created_at := mc_created_at row\<rparr>"
    by (auto simp: assert_existing_candidate_def Let_def sqlite_dialect_def)
  then have "mc_sensitivity row = mc_sensitivity (c\<lparr>mc_created_at := mc_created_at row\<rparr>)" by (rule
      arg_cong)
  then have sens: "mc_sensitivity row = mc_sensitivity c" by simp
  show "row_linked (replay_row_of st (item_row_of i u b t))"
    using found cand s(2) i(2) by (simp add: row_linked_def replay_row_of_def Let_def)
  show "authority_unchanged (Some a) (replay_row_of st (item_row_of i u b t))"
    using found cand s(3) a sens built_sensitivity [OF built]
    by (simp add: authority_unchanged_def replay_row_of_def Let_def find_candidate_def sqlite_dialect_def)
qed


lemma replay_items_complete:
  assumes "\<And>i. i \<in> set is \<Longrightarrow> \<exists>y. by_id (it_id i) = Some y \<and> row_content_same
      (yr_item y) i \<and>
      (it_proposal_id i \<noteq> None \<longrightarrow> (\<exists>a. authority_at as i = Some a \<and> row_linked y
          \<and> authority_unchanged (Some a) y))"
  shows "replay_items by_id as is = Inr (Some (List.map_filter it_proposal_id is))"
  using assms
proof (induction "is")
  case (Cons i "is")
  from Cons.prems [of i] obtain y where y: "by_id (it_id i) = Some y" "row_content_same (yr_item y) i"
    and linked: "it_proposal_id i \<noteq> None \<longrightarrow> (\<exists>a. authority_at as i = Some a \<and>
        row_linked y \<and> authority_unchanged (Some a) y)"
    by auto
  have "replay_items by_id as is = Inr (Some (List.map_filter it_proposal_id is))"
    by (rule Cons.IH) (use Cons.prems in simp)
  with y linked show ?case by (auto simp: raise_if_def List.map_filter_def split: option.splits)
qed (simp add: List.map_filter_def)

text \<open>The authorities around an item of a proposal are the one the planner saw.\<close>

definition grounded_at :: "unit_authority list \<Rightarrow> coverage_plan \<Rightarrow> candidate_proposal
    \<Rightarrow> bool" where
  "grounded_at as plan p \<longleftrightarrow> (\<forall>i \<in> set (cp_items plan). it_proposal_id i = Some
      (pp_proposal_id p) \<longrightarrow>
     (\<exists>a. authority_at as i = Some a \<and> pa_privacy_storage_allowed a \<and> pa_privacy_ceiling a =
         pp_privacy_ceiling p))"

lemma completed_run_valid:
  assumes inv: "store_inv sqlite_dialect D F st"
    and stored: "assert_plan_replay D plan b st = Inr u" "\<And>p. p \<in> set ps \<Longrightarrow> proposal_stored
        D F plan run st p"
    and once: "\<And>i j. i \<in> set (cp_items plan) \<Longrightarrow> j \<in> set (cp_items plan)
        \<Longrightarrow> it_proposal_id i \<noteq> None \<Longrightarrow>
       it_proposal_id i = it_proposal_id j \<Longrightarrow> i = j"
    and linked: "\<And>i q. i \<in> set (cp_items plan) \<Longrightarrow> it_proposal_id i = Some q
        \<Longrightarrow> \<exists>p \<in> set ps. pp_proposal_id p = q"
    and nonempty: "\<And>p. p \<in> set ps \<Longrightarrow> pp_proposal_id p \<noteq> []"
    and ground: "\<And>p. p \<in> set ps \<Longrightarrow> grounded_at as plan p"
  shows "validate_completed_replay plan (map (replay_row_of st) (run_items st (coverage_run_uuid D
      (cp_coverage_hash plan)))) as =
     Inr (Some (List.map_filter it_proposal_id (cp_items plan)))"
proof -
  let ?run = "coverage_run_uuid D (cp_coverage_hash plan)"
  let ?by = "index_by (\<lambda>y. cr_uuid (yr_item y)) (map (replay_row_of st) (run_items st ?run))"
  have item: "yr_item (replay_row_of st r) = r" for r by (simp add: replay_row_of_def Let_def)
  from stored_rows [OF stored(1)] have img: "cr_uuid ` set (run_items st ?run) = it_id ` set (cp_items plan)"
    and rows: "\<forall>i \<in> set (cp_items plan). \<exists>t. index_by cr_uuid (run_items st ?run) (it_id i) =
        Some (item_row_of i ?run b t)"
    by metis+
  have "replay_items ?by as (cp_items plan) = Inr (Some (List.map_filter it_proposal_id (cp_items plan)))"
  proof (rule replay_items_complete)
    fix i assume i: "i \<in> set (cp_items plan)"
    from rows i obtain t where "index_by cr_uuid (run_items st ?run) (it_id i) = Some (item_row_of i ?run b t)" by blast
    then have y: "?by (it_id i) = Some (replay_row_of st (item_row_of i ?run b t))"
      by (simp add: index_by_map [where h = cr_uuid] item)
    have "\<exists>a. authority_at as i = Some a \<and> row_linked (replay_row_of st (item_row_of i ?run b t)) \<and>
        authority_unchanged (Some a) (replay_row_of st (item_row_of i ?run b t))" if "it_proposal_id i \<noteq> None"
    proof -
      from that linked [OF i] obtain p where p: "p \<in> set ps" "it_proposal_id i = Some (pp_proposal_id p)" by auto
      from ground [OF p(1)] i p(2) obtain a where a: "authority_at as i = Some a" "pa_privacy_storage_allowed a"
        "pa_privacy_ceiling a = pp_privacy_ceiling p" by (auto simp: grounded_at_def)
      from settled_row_replayed [OF inv stored(2) [OF p(1)] i p(2) once a(2,3)] a(1) show ?thesis by blast
    qed
    moreover have "row_content_same (item_row_of i ?run b t) i"
      using linked [OF i] nonempty
      by (auto simp: row_content_same_def item_row_of_def optional_string_def split: option.split)
    ultimately show "\<exists>y. ?by (it_id i) = Some y \<and> row_content_same (yr_item y) i \<and>
      (it_proposal_id i \<noteq> None \<longrightarrow> (\<exists>a. authority_at as i = Some a \<and> row_linked y
          \<and> authority_unchanged (Some a) y))"
      using y item by auto
  qed
  moreover have "(\<lambda>y. cr_uuid (yr_item y)) ` set (map (replay_row_of st) (run_items st ?run)) = it_id ` set
      (cp_items plan)"
    using img by (simp add: image_image item)
  ultimately show ?thesis by (simp add: validate_completed_replay_def raise_if_def)
qed


section \<open>What the planner promises of its proposals\<close>

lemma filter_sort_single: "filter P (sort_key f xs) = [a] \<Longrightarrow> filter P xs = [a]"
proof -
  assume a: "filter P (sort_key f xs) = [a]"
  have "mset (filter P xs) = mset (filter P (sort_key f xs))" by (simp add: mset_filter)
  then have "mset (filter P xs) = {#a#}" unfolding a by (simp del: mset_filter)
  then show ?thesis by (simp only: mset_single_iff)
qed

lemma planned_once:
  assumes "distinct (map f (List.map_filter snd planned))" "(i, Some p) \<in> set planned" "(j, Some q) \<in> set
      planned" "f p = f q"
  shows "i = j"
  using assms
proof (induction planned)
  case (Cons x xs)
  obtain k po where x: "x = (k, po)" by (cases x)
  have mem: "r \<in> set (List.map_filter snd xs)" if "(l, Some r) \<in> set xs" for l r
    using that by (auto simp: in_map_filter_snd)
  show ?case
  proof (cases po)
    case None
    with Cons x show ?thesis by (auto simp: List.map_filter_def)
  next
    case (Some r)
    with Cons.prems(1) x have d: "f r \<notin> f ` set (List.map_filter snd xs)" "distinct (map f (List.map_filter
        snd xs))"
      by (auto simp: List.map_filter_def)
    show ?thesis
    proof (cases "(i, Some p) = x \<or> (j, Some q) = x")
      case True
      have "f p' \<noteq> f r" if "(l, Some p') \<in> set xs" for l p' using mem [OF that] d(1) by (metis imageI)
      with True Cons.prems(2-4) x Some show ?thesis by (metis Pair_inject option.inject set_ConsD)
    next
      case False
      with Cons.prems Cons.IH [OF d(2)] show ?thesis by auto
    qed
  qed
qed simp

lemma plan_links:
  assumes run: "plan_candidate_coverage D U inp = Inr (plan, ps)"
  shows "\<And>i q. i \<in> set (cp_items plan) \<Longrightarrow> it_proposal_id i = Some q \<Longrightarrow>
      \<exists>p \<in> set ps. pp_proposal_id p = q"
    and "\<And>p. p \<in> set ps \<Longrightarrow> \<exists>i \<in> set (cp_items plan). it_proposal_id i = Some
        (pp_proposal_id p)"
    and "\<And>i j. distinct (map pp_proposal_id ps) \<Longrightarrow> i \<in> set (cp_items plan)
        \<Longrightarrow> j \<in> set (cp_items plan) \<Longrightarrow>
       it_proposal_id i \<noteq> None \<Longrightarrow> it_proposal_id i = it_proposal_id j \<Longrightarrow> i = j"
    and "\<And>p. distinct (map pp_proposal_id ps) \<Longrightarrow> \<forall>a \<in> set (pi_authorities inp).
        pa_raw_start a < pa_raw_end a \<Longrightarrow>
       \<forall>u \<in> set (sa_semantic_units (pi_analysis inp)). su_raw_start u < su_raw_end u \<Longrightarrow>
       p \<in> set ps \<Longrightarrow> grounded_at (pi_authorities inp) plan p"
proof -
  let ?us = "sa_semantic_units (pi_analysis inp)" and ?ix = "make_index (pi_authorities inp)"
  let ?rd = "indexes_by_source (\<lambda>i. sr_source_unit_id (ref_at inp i)) [0..<length (sa_references
      (pi_analysis inp))]"
  let ?ld = "indexes_by_source (\<lambda>i. sl_source_unit_id (rel_at inp i)) [0..<length (sa_relations
      (pi_analysis inp))]"
  obtain planned extra where parts:
    "list_all2 (\<lambda>u x. plan_unit D U inp (d_text D (pi_raw_text inp)) ?ix ?rd ?ld u = Inr x) ?us planned"
    "uncovered_items D U inp (d_text D (pi_raw_text inp)) ?ix ?us = Inr extra"
    "cp_items plan = sort_key item_key (map fst planned @ extra)" "ps = List.map_filter snd planned"
    by (rule plan_parts [OF run])
  have none: "it_proposal_id i = None" if "i \<in> set extra" for i
    by (rule uncovered_items_Inr [OF parts(2)]) (use that in \<open>auto simp: list_all2_conv_all_nth
        in_set_conv_nth\<close>)
  have of_unit: "\<exists>u \<in> set ?us. it_raw_start i = su_raw_start u \<and> it_raw_end i = su_raw_end u \<and>
      (case po of None \<Rightarrow> it_proposal_id i = None
       | Some p \<Rightarrow> it_proposal_id i = Some (pp_proposal_id p) \<and>
           durable_ground U inp ?ix (indexes_of ?rd (su_id u)) (indexes_of ?ld (su_id u)) u p)"
    if x: "(i, po) \<in> set planned" for i po
  proof -
    from list_all2_partner_left [OF parts(1) x] obtain u where u: "u \<in> set ?us"
      "plan_unit D U inp (d_text D (pi_raw_text inp)) ?ix ?rd ?ld u = Inr (i, po)" by blast
    from plan_unit_cases [OF u(2)] u(1) show ?thesis by (cases po) auto
  qed
  have item: "\<exists>p. (i, Some p) \<in> set planned \<and> pp_proposal_id p = q"
    if i: "i \<in> set (cp_items plan)" "it_proposal_id i = Some q" for i q
  proof -
    from i none obtain po where x: "(i, po) \<in> set planned" unfolding parts(3) by auto
    from of_unit [OF x] i(2) x show ?thesis by (cases po) auto
  qed
  show linked: "\<exists>p \<in> set ps. pp_proposal_id p = q" if "i \<in> set (cp_items plan)" "it_proposal_id i =
      Some q" for i q
    using item [OF that] unfolding parts(4) Bex_def in_map_filter_snd by blast
  show "\<exists>i \<in> set (cp_items plan). it_proposal_id i = Some (pp_proposal_id p)" if "p \<in> set ps" for p
  proof -
    from that obtain i where x: "(i, Some p) \<in> set planned" by (auto simp: parts(4) in_map_filter_snd)
    then have "i \<in> set (cp_items plan)" unfolding parts(3) by force
    with of_unit [OF x] show ?thesis by auto
  qed
  show once: "i = j" if d: "distinct (map pp_proposal_id ps)" and ij: "i \<in> set (cp_items plan)" "j \<in> set
      (cp_items plan)"
      "it_proposal_id i \<noteq> None" "it_proposal_id i = it_proposal_id j" for i j
  proof -
    from ij obtain q where q: "it_proposal_id i = Some q" "it_proposal_id j = Some q" by auto
    obtain p1 where p1: "(i, Some p1) \<in> set planned" "pp_proposal_id p1 = q" using item [OF ij(1) q(1)] by auto
    obtain p2 where p2: "(j, Some p2) \<in> set planned" "pp_proposal_id p2 = q" using item [OF ij(2) q(2)] by auto
    show ?thesis by (rule planned_once [OF d [unfolded parts(4)] p1(1) p2(1)]) (simp add: p1(2) p2(2))
  qed
  show "grounded_at (pi_authorities inp) plan p" if d: "distinct (map pp_proposal_id ps)"
    and as: "\<forall>a \<in> set (pi_authorities inp). pa_raw_start a < pa_raw_end a"
    and us: "\<forall>u \<in> set ?us. su_raw_start u < su_raw_end u" and p: "p \<in> set ps" for p
    unfolding grounded_at_def
  proof (intro ballI impI)
    fix i assume i: "i \<in> set (cp_items plan)" "it_proposal_id i = Some (pp_proposal_id p)"
    from p obtain j where x: "(j, Some p) \<in> set planned" by (auto simp: parts(4) in_map_filter_snd)
    then have j: "j \<in> set (cp_items plan)" unfolding parts(3) by force
    from of_unit [OF x] obtain u where u: "u \<in> set ?us" "it_raw_start j = su_raw_start u" "it_raw_end j =
        su_raw_end u"
      "it_proposal_id j = Some (pp_proposal_id p)"
      "durable_ground U inp ?ix (indexes_of ?rd (su_id u)) (indexes_of ?ld (su_id u)) u p" by auto
    from once [OF d i(1) j] i(2) u(4) have ij: "i = j" by simp
    from u(5) obtain a where a: "containing ?ix (su_raw_start u) (su_raw_end u) = [a]" "pa_privacy_storage_allowed a"
      "pp_privacy_ceiling p = pa_privacy_ceiling a" unfolding durable_ground_def by blast
    from a(1) us u(1) as have "filter (\<lambda>a. pa_raw_start a \<le> su_raw_start u \<and> su_raw_end u \<le>
        pa_raw_end a)
        (sort_key CoverageIndex.authority_key (pi_authorities inp)) = [a]"
      by (simp add: containing_make_index)
    from filter_sort_single [OF this] have "authority_at (pi_authorities inp) i = Some a"
      by (simp add: authority_at_def inside_authority_def [abs_def] ij u(2,3))
    with a(2,3) show "\<exists>a. authority_at (pi_authorities inp) i = Some a \<and> pa_privacy_storage_allowed a
        \<and>
        pa_privacy_ceiling a = pp_privacy_ceiling p" by auto
  qed
qed


section \<open>One run of the service, alone\<close>

definition alone :: "orc_env \<Rightarrow> bool" where
  "alone E \<longleftrightarrow> oe_other E = (\<lambda>_ db. db)"

lemma effect_alone:
  assumes "oeffect f E s = (Inr x, s')" "alone E"
  obtains n where "f E n (os_db s) = Inr (x, os_db s')"
  using assms by (auto simp: oeffect_run alone_def after_others_def split: if_splits sum.splits prod.splits)

lemma read_alone: "oread q E s = (Inr x, s') \<Longrightarrow> alone E \<Longrightarrow> q (os_db s) = Inr x \<and>
    os_db s' = os_db s"
  unfolding oread_def by (erule effect_alone) auto

lemma write_alone: "owrite f E s = (Inr x, s') \<Longrightarrow> alone E \<Longrightarrow> \<exists>now. f now
    (os_db s) = Inr (x, os_db s')"
  unfolding owrite_def by (erule effect_alone) auto

lemma clock_alone: "oclock E s = (Inr x, s') \<Longrightarrow> alone E \<Longrightarrow> os_db s' = os_db s"
  unfolding oclock_def by (erule effect_alone) auto

lemma lift_alone: "olift r E s = (Inr x, s') \<longleftrightarrow> r = Inr x \<and> s' = s"
  by (auto simp: olift_def)

lemma fence_alone: "fence_and_revalidate R rq h E s = (Inr x, s') \<Longrightarrow> alone E \<Longrightarrow> os_db
    s' = os_db s"
  unfolding fence_and_revalidate_def obind_run
  by (auto dest!: read_alone elim!: effect_alone split: option.splits)

lemma bind_Inr: "obind m f E s = (Inr y, s') \<longleftrightarrow> (\<exists>x s1. m E s = (Inr x, s1) \<and> f x E
    s1 = (Inr y, s'))"
  by (auto simp: obind_run)

lemma map_err_Inr: "map_sum f id r = Inr x \<longleftrightarrow> r = Inr x"
  by (cases r) auto

lemma insert_evidence_frame:
  "insert_all_evidence di es st = Inr st' \<Longrightarrow> st_gates st' = st_gates st \<and> st_routes st' =
      st_routes st"
  by (auto dest: insert_all_evidence_Inr)

lemma sqlite_exec_frame:
  assumes "sqlite_exec D F c now st = Inr (r, st')"
  shows "st_gates st' = st_gates st \<and> st_routes st' = st_routes st"
proof (cases c)
  case (PersistPlan plan b)
  with assms show ?thesis
    by (auto simp: sqlite_persist_plan_def Let_def dest!: insert_run_Inr insert_items_Inr split: option.splits)
next
  case (ReserveCandidate pid item h)
  with assms show ?thesis by (auto simp: sqlite_reserve_def insert_link_def split: option.splits)
next
  case (CreateAndLink p cand items a)
  with assms show ?thesis
    by (auto simp: create_and_link_def Let_def insert_candidate_def link_candidate_def dest!: insert_evidence_frame
        split: option.splits if_splits)
qed

lemma candidate_commands_keep_runs:
  "sqlite_exec D F (ReserveCandidate pid item h) now st = Inr (r, st') \<Longrightarrow> st_runs st' = st_runs st"
  "sqlite_exec D F (CreateAndLink p c es a) now st = Inr (r, st') \<Longrightarrow> st_runs st' = st_runs st"
  by (auto simp: sqlite_reserve_def insert_link_def create_and_link_def Let_def insert_candidate_def link_candidate_def
      dest!: insert_all_evidence_Inr split: option.splits if_splits)

text \<open>The store behind a database, and what later commands keep of it.\<close>

definition advanced :: "runtime \<Rightarrow> runtime_db \<Rightarrow> runtime_db \<Rightarrow> bool" where
  "advanced R db db' \<longleftrightarrow> (\<exists>st'. db' = db\<lparr>db_coverage := st'\<rparr> \<and>
     store_inv sqlite_dialect (rt_digests R) (rt_float R) st' \<and>
     store_grows sqlite_dialect (db_coverage db) st' \<and>
     st_gates st' = st_gates (db_coverage db) \<and> st_routes st' = st_routes (db_coverage db))"

lemma advanced_refl: "store_inv sqlite_dialect (rt_digests R) (rt_float R) (db_coverage db) \<Longrightarrow>
    advanced R db db"
  by (auto simp: advanced_def intro!: exI [of _ "db_coverage db"])

lemma advanced_trans: "advanced R a b \<Longrightarrow> advanced R b c \<Longrightarrow> advanced R a c"
proof -
  assume "advanced R a b" "advanced R b c"
  then obtain x y where xy: "b = a\<lparr>db_coverage := x\<rparr>" "c = b\<lparr>db_coverage := y\<rparr>"
    "store_inv sqlite_dialect (rt_digests R) (rt_float R) y" "store_grows sqlite_dialect (db_coverage a) x"
    "store_grows sqlite_dialect x y" "st_gates y = st_gates (db_coverage a)" "st_routes y = st_routes (db_coverage a)"
    by (auto simp: advanced_def)
  from store_grows_trans [OF xy(4,5)] xy show "advanced R a c" unfolding advanced_def by (intro exI [of _ y]) simp
qed

lemma advanced_coverage:
  assumes "on_coverage R c now db = Inr (x, db')" "store_inv sqlite_dialect (rt_digests R) (rt_float R)
      (db_coverage db)"
  shows "advanced R db db' \<and> sqlite_exec (rt_digests R) (rt_float R) c now (db_coverage db) = Inr (x,
      db_coverage db')"
proof -
  from assms(1) obtain st where st: "sqlite_exec (rt_digests R) (rt_float R) c now (db_coverage db) = Inr (x, st)"
    "db' = db\<lparr>db_coverage := st\<rparr>" by (auto simp: on_coverage_def split: sum.splits prod.splits)
  have "store_inv sqlite_dialect (rt_digests R) (rt_float R) st \<and> store_grows sqlite_dialect (db_coverage db) st"
    using sqlite_command_step [OF assms(2) st(1)] by blast
  with st sqlite_exec_frame [OF st(1)] show ?thesis by (auto simp: advanced_def)
qed

lemma advanced_inv: "advanced R db db' \<Longrightarrow> store_inv sqlite_dialect (rt_digests R) (rt_float R)
    (db_coverage db')"
  by (auto simp: advanced_def)

lemma advanced_grows: "advanced R db db' \<Longrightarrow> store_grows sqlite_dialect (db_coverage db) (db_coverage
    db')"
  by (auto simp: advanced_def)

lemma proposal_stored_grows:
  "proposal_stored D F plan run st p \<Longrightarrow> store_grows sqlite_dialect st st' \<Longrightarrow>
      proposal_stored D F plan run st' p"
  unfolding proposal_stored_def by (meson link_reserved_grows lite.settled_grows)

lemma store_proposal_alone:
  assumes run: "store_proposal R rq h plan as p E s = (Inr c, s')" and E: "alone E"
    and inv: "store_inv sqlite_dialect (rt_digests R) (rt_float R) (db_coverage (os_db s))"
  shows "advanced R (os_db s) (os_db s') \<and> mc_uuid c = pp_proposal_id p \<and>
    st_runs (db_coverage (os_db s')) = st_runs (db_coverage (os_db s)) \<and>
    proposal_stored (rt_digests R) (rt_float R) plan (rq_processing_run rq) (db_coverage (os_db s')) p"
proof -
  from run obtain item a fresh now e b s1 s2 s3 where
      item: "index_by it_proposal_id (filter (\<lambda>i. it_proposal_id i \<noteq> None) (cp_items plan)) (Some
          (pp_proposal_id p)) = Some item"
    and clock: "oclock E s = (Inr (fresh, now), s1)"
    and built: "build_candidate_from_proposal fresh now p (rq_processing_run rq) = Inr (c, e)"
    and fence: "fence_and_revalidate R rq h E s1 = (Inr (), s2)"
    and link: "reserve_and_link_candidate R p (it_id item) c e b E s2 = (Inr (), s')"
    by (auto simp: store_proposal_def bind_Inr lift_alone oret_def map_err_Inr split: option.splits prod.splits)
  have db: "os_db s2 = os_db s" using clock_alone [OF clock E] fence_alone [OF fence E] by simp
  let ?h = "candidate_payload_hash (rt_digests R) (rt_float R) c [e]"
  from link obtain x s4 y s5 where
      1: "owrite (on_coverage R (ReserveCandidate (pp_proposal_id p) (it_id item) ?h)) E s2 = (Inr x, s4)"
    and 2: "owrite (on_coverage R (CreateAndLink p c [e] b)) E s4 = (Inr y, s')"
    by (auto simp: reserve_and_link_candidate_def Let_def bind_Inr oret_def)
  from write_alone [OF 1 E] obtain now1 where
    "on_coverage R (ReserveCandidate (pp_proposal_id p) (it_id item) ?h) now1 (os_db s) = Inr (x, os_db s4)" by
        (auto simp: db)
  note a1 = advanced_coverage [OF this inv]
  from write_alone [OF 2 E] obtain now2 where "on_coverage R (CreateAndLink p c [e] b) now2 (os_db s4) = Inr (y,
      os_db s')" by auto
  note a2 = advanced_coverage [OF this advanced_inv [OF conjunct1 [OF a1]]]
  have res: "link_reserved (db_coverage (os_db s4)) (pp_proposal_id p) (it_id item) ?h"
    using sqlite_reserve_step [OF inv] a1 by (cases x) auto
  from a2 have "lite.candidate_settled (rt_digests R) (rt_float R) p c [e] b (db_coverage (os_db s'))"
    using lite.created_settled [OF advanced_inv [OF conjunct1 [OF a1]]] by (cases y) auto
  moreover have "link_reserved (db_coverage (os_db s')) (pp_proposal_id p) (it_id item) ?h"
    by (rule link_reserved_grows [OF res advanced_grows [OF conjunct1 [OF a2]]])
  moreover have "item \<in> set (cp_items plan)" "it_proposal_id item = Some (pp_proposal_id p)"
    using item by (auto simp: index_by_def dest!: map_of_SomeD)
  moreover have "st_runs (db_coverage (os_db s')) = st_runs (db_coverage (os_db s))"
    using candidate_commands_keep_runs(1) [OF conjunct2 [OF a1]] candidate_commands_keep_runs(2) [OF conjunct2 [OF
        a2]] by simp
  ultimately show ?thesis using built_sensitivity [OF built] built advanced_trans a1 a2
    unfolding proposal_stored_def by blast
qed

lemma store_proposals_alone:
  assumes "store_proposals R rq h plan as ps E s = (Inr cs, s')" "alone E"
    and "store_inv sqlite_dialect (rt_digests R) (rt_float R) (db_coverage (os_db s))"
  shows "advanced R (os_db s) (os_db s') \<and> map mc_uuid cs = map pp_proposal_id ps \<and>
    st_runs (db_coverage (os_db s')) = st_runs (db_coverage (os_db s)) \<and>
    (\<forall>p \<in> set ps. proposal_stored (rt_digests R) (rt_float R) plan (rq_processing_run rq) (db_coverage
        (os_db s')) p)"
  using assms
proof (induction ps arbitrary: cs s)
  case Nil
  then show ?case by (auto simp: oret_def intro: advanced_refl)
next
  case (Cons p ps)
  from Cons.prems(1) obtain c s1 cs' where 1: "store_proposal R rq h plan as p E s = (Inr c, s1)"
    and 2: "store_proposals R rq h plan as ps E s1 = (Inr cs', s')" and cs: "cs = c # cs'"
    by (auto simp: bind_Inr oret_def)
  note a = store_proposal_alone [OF 1 Cons.prems(2,3)]
  note b = Cons.IH [OF 2 Cons.prems(2) advanced_inv [OF conjunct1 [OF a]]]
  have "proposal_stored (rt_digests R) (rt_float R) plan (rq_processing_run rq) (db_coverage (os_db s')) p"
    using a b proposal_stored_grows advanced_grows by blast
  with a b cs advanced_trans show ?case by auto
qed

end
