(* ===== verification/SecondRun.thy ===== *)
theory SecondRun
  imports CompletedReplay
begin

text \<open>
  Planning a message twice: what one run of the service leaves in the tables, and the second run.
\<close>

section \<open>What a run reads, and what it changes besides the coverage tables\<close>

definition same_sources :: "runtime_db \<Rightarrow> runtime_db \<Rightarrow> bool" where
  "same_sources db db' \<longleftrightarrow> db_messages db' = db_messages db \<and> db_sessions db' = db_sessions
      db \<and>
     db_actors db' = db_actors db \<and> db_versions db' = db_versions db \<and> db_analyses db' = db_analyses db \<and>
     db_annotations db' = db_annotations db"

definition beside_coverage :: "runtime_db \<Rightarrow> runtime_db \<Rightarrow> bool" where
  "beside_coverage db db' \<longleftrightarrow> same_sources db db' \<and>
     (\<exists>p. db_coverage db' = (db_coverage db)\<lparr>st_parent := p\<rparr>)"

lemma beside_refl [simp]: "beside_coverage db db"
  by (auto simp: beside_coverage_def same_sources_def intro: exI [of _ "st_parent (db_coverage db)"])

lemma beside_trans: "beside_coverage a b \<Longrightarrow> beside_coverage b c \<Longrightarrow> beside_coverage a c"
  by (auto simp: beside_coverage_def same_sources_def)

lemma beside_facts:
  assumes "beside_coverage db db'"
  shows "store_inv sqlite_dialect D F (db_coverage db') = store_inv sqlite_dialect D F (db_coverage db)"
    and "st_runs (db_coverage db') = st_runs (db_coverage db)"
  using assms by (auto simp: beside_coverage_def)

lemma same_refl: "same_sources db db"
  by (simp add: same_sources_def)

lemma same_trans: "same_sources a b \<Longrightarrow> same_sources b c \<Longrightarrow> same_sources a c"
  by (simp add: same_sources_def)

lemma scope_sources:
  assumes "same_sources db db'"
  shows "load_current_context_scope db' m = load_current_context_scope db m"
proof -
  have "find_message db' m = find_message db m" "find_session db' u = find_session db u"
    "find_actor db' u = find_actor db u" "latest_version db' u = latest_version db u" for u
    using assms by (simp_all add: same_sources_def find_message_def find_session_def find_actor_def latest_version_def)
  then show ?thesis by (simp add: load_current_context_scope_def split: option.split)
qed

lemma advanced_sources: "advanced R db db' \<Longrightarrow> same_sources db db'"
  by (auto simp: advanced_def same_sources_def)

lemma advanced_authorities:
  "advanced R db db' \<Longrightarrow> load_persisted_authorities U db' m run = load_persisted_authorities U db m run"
  by (auto simp: advanced_def load_persisted_authorities_def authority_joins_def selected_analysis_def)

lemma insert_unit_beside: "insert_or_ignore_unit r db = Inr db' \<Longrightarrow> beside_coverage db db'"
  by (auto simp: insert_or_ignore_unit_def beside_coverage_def same_sources_def split: if_splits
      intro: exI [of _ "st_parent (db_coverage db)"])

lemma insert_units_beside: "insert_units D sc now i us db = Inr db' \<Longrightarrow> beside_coverage db db'"
proof (induction us arbitrary: i db)
  case (Cons u us)
  from Cons.prems obtain db1 where 1: "insert_or_ignore_unit (span_unit D sc now i u) db = Inr db1"
    and 2: "insert_units D sc now (i + 1) us db1 = Inr db'" by auto
  show ?case by (rule beside_trans [OF insert_unit_beside [OF 1] Cons.IH [OF 2]])
qed simp

lemma semantics_beside:
  assumes "persist_message_semantics D U L m run prompt stage ch sc raw a oc now db = Inr db'"
  shows "same_sources db db' \<and> db_coverage db' = db_coverage db"
  using assms by (auto simp: persist_message_semantics_def Let_def same_sources_def split: if_splits)

lemma insert_execution_beside:
  assumes "insert_execution R rq sc prompt stage fp ih oh raw a oc now db = Inr db'"
  shows "beside_coverage db db'"
proof -
  let ?db = "\<lambda>p s. db\<lparr>db_prompts := p, db_stages := s, db_coverage := add_parent
      ''prompt_execution_runs'' prompt (db_coverage db)\<rparr>"
  from assms obtain p s db1 us where
      1: "persist_message_semantics (rt_digests R) (rt_unidb R) (rt_labels R) (rq_message rq) (rq_processing_run rq)
         prompt stage (rt_contract_hash R) sc raw a oc now (?db p s) = Inr db1"
    and 2: "db' = db1\<lparr>db_usage := us\<rparr>"
    unfolding insert_execution_def rbind_eq_Inr by blast
  from semantics_beside [OF 1] have "same_sources (?db p s) db1"
    "db_coverage db1 = add_parent ''prompt_execution_runs'' prompt (db_coverage db)" by simp_all
  then show ?thesis unfolding 2 beside_coverage_def by (auto simp: same_sources_def add_parent_def)
qed

lemma record_beside:
  assumes "record_semantic_execution R rq prompt stage fp i ih oc now db = Inr db'"
  shows "beside_coverage db db'"
  using assms unfolding record_semantic_execution_def
  by (auto dest: insert_execution_beside split: if_splits option.splits)

lemma contract_alone: "ocontract R rq h i fx E s = (r, s') \<Longrightarrow> os_db s' = os_db s"
  by (auto simp: ocontract_def split: prod.splits)

lemma fresh_alone:
  assumes run: "fresh_execution R rq i h ih fp idn st E s = (Inr se, s')" and E: "alone E"
  shows "beside_coverage (os_db s) (os_db s')"
proof -
  from run obtain oc s2 s3 where c: "ocontract R rq h i (frozen_provider_execution R rq st ih fp idn) E s = (Inr
      oc, s2)"
    and f: "fence_and_revalidate R rq h E s2 = (Inr (), s3)"
    and w: "owrite (\<lambda>now db. rbind (record_semantic_execution R rq (semantic_prompt_uuid (rt_digests R) st)
        st fp i ih oc now db)
      (\<lambda>db'. Inr ((), db'))) E s3 = (Inr (), s')"
    by (auto simp: fresh_execution_def Let_def bind_Inr lift_alone oret_def)
  from write_alone [OF w E] obtain now where
    "record_semantic_execution R rq (semantic_prompt_uuid (rt_digests R) st) st fp i ih oc now (os_db s3) = Inr
        (os_db s')" by auto
  from record_beside [OF this] contract_alone [OF c] fence_alone [OF f E] show ?thesis by simp
qed

lemma execution_alone:
  assumes run: "execute_or_replay_semantic R rq i h E s = (Inr se, s')" and E: "alone E"
  shows "beside_coverage (os_db s) (os_db s')"
proof -
  from run obtain ih idn st found s1 where r: "oread (\<lambda>db. load_semantic_execution (rt_digests R) db st ih
      (rt_contract_hash R)) E s = (Inr found, s1)"
    and rest: "(case found of Some f \<Rightarrow> olift (replayed_execution R i st f)
      | None \<Rightarrow> fresh_execution R rq i h ih (execution_profile_fingerprint (rt_digests R) (rq_profile
          rq)) idn st) E s1 = (Inr se, s')"
    unfolding execute_or_replay_semantic_def Let_def bind_Inr lift_alone by blast
  have db: "os_db s1 = os_db s" using read_alone [OF r E] by simp
  show ?thesis
  proof (cases found)
    case None
    with rest have "fresh_execution R rq i h ih (execution_profile_fingerprint (rt_digests R) (rq_profile rq)) idn
        st E s1 = (Inr se, s')" by simp
    from fresh_alone [OF this E] show ?thesis by (simp add: db)
  next
    case (Some f)
    with rest show ?thesis by (simp add: lift_alone db)
  qed
qed


section \<open>The plan of a bound output\<close>

lemma plan_unit_named:
  assumes "plan_unit D U inp rh ix rd ld u = Inr (i, Some p)"
  shows "\<exists>n x. pp_proposal_id p = d_uuid5 D n x"
proof -
  define auth where "auth = effective_authority U inp u (indexes_of rd (su_id u)) (indexes_of ld (su_id u))
    (containing ix (su_raw_start u) (su_raw_end u))"
  define mapping where "mapping = unit_mapping U inp u auth"
  from assms obtain unresolved where un: "unit_unresolved inp u (indexes_of rd (su_id u)) = Inr unresolved"
    by (auto simp: plan_unit_def Let_def)
  let ?d = "\<lambda>a n x. disposition_for_unit u a n x (mapping \<noteq> None)"
  obtain disp reasons where d: "?d auth (length (containing ix (su_raw_start u) (su_raw_end u))) unresolved =
      (disp, reasons)"
    by (cases "?d auth (length (containing ix (su_raw_start u) (su_raw_end u))) unresolved")
  note run = assms [unfolded plan_unit_def Let_def, folded auth_def, folded mapping_def, unfolded un rbind_simps d
      prod.case]
  obtain a where a: "auth = Some a" using run by (auto split: if_splits option.splits)
  obtain m where m: "mapping = Some m" using run a by (auto split: if_splits option.splits)
  have named: "\<exists>n x. pp_proposal_id (make_proposal D U inp rh u refs a m prov fp reasons) = d_uuid5 D n x"
    for refs prov fp reasons by (auto simp: make_proposal_def proposal_identity_def Let_def)
  show ?thesis using run named unfolding a m option.case by (auto split: if_splits prod.splits)
qed

lemma planned_fields:
  assumes run: "plan_candidate_coverage D U inp = Inr (plan, ps)" and uuid: "\<forall>n x. d_uuid5 D n x \<noteq> []"
    and ids: "pi_message_uuid inp \<noteq> []" "pi_processing_run_uuid inp \<noteq> []"
    and us: "\<forall>u \<in> set (sa_semantic_units (pi_analysis inp)). su_raw_start u < su_raw_end u"
  shows "plan_fields_ok plan" and "\<forall>p \<in> set ps. pp_proposal_id p \<noteq> []"
proof -
  let ?us = "sa_semantic_units (pi_analysis inp)" and ?ix = "make_index (pi_authorities inp)"
  let ?rd = "indexes_by_source (\<lambda>i. sr_source_unit_id (ref_at inp i)) [0..<length (sa_references
      (pi_analysis inp))]"
  let ?ld = "indexes_by_source (\<lambda>i. sl_source_unit_id (rel_at inp i)) [0..<length (sa_relations
      (pi_analysis inp))]"
  obtain planned extra where parts:
    "list_all2 (\<lambda>u x. plan_unit D U inp (d_text D (pi_raw_text inp)) ?ix ?rd ?ld u = Inr x) ?us planned"
    "uncovered_items D U inp (d_text D (pi_raw_text inp)) ?ix ?us = Inr extra"
    "cp_items plan = sort_key item_key (map fst planned @ extra)" "ps = List.map_filter snd planned"
    "plan = make_plan D inp (d_text D (pi_raw_text inp)) (cp_items plan)"
    by (rule plan_parts [OF run])
  have named: "it_id i \<noteq> []" if "item_identified D i" for i
  proof -
    from that obtain m where "it_id i = coverage_item_identity D m" unfolding item_identified_def by blast
    with uuid show ?thesis by (simp add: coverage_item_identity_def)
  qed
  have "item_fields_ok i" if x: "(i, po) \<in> set planned" for i po
  proof -
    from list_all2_partner_left [OF parts(1) x] obtain u where u: "u \<in> set ?us"
      "plan_unit D U inp (d_text D (pi_raw_text inp)) ?ix ?rd ?ld u = Inr (i, po)" by blast
    have "it_raw_end i = su_raw_end u" "item_identified D i" using plan_unit_cases [OF u(2)] by simp_all
    with named us u(1) show ?thesis by (auto simp: item_fields_ok_def)
  qed
  moreover have "item_fields_ok i" if "i \<in> set extra" for i
  proof -
    from parts(2) that obtain g where "uncovered_item D inp (d_text D (pi_raw_text inp)) ?ix g = Inr i"
      by (auto simp: uncovered_items_def Let_def rmap_eq_Inr dest: list_all2_partner_left)
    then have "0 < it_raw_end i \<and> item_identified D i"
      by (auto simp: uncovered_item_def Let_def split: prod.splits dest!: coverage_item_of_InrD)
    with named show ?thesis by (simp add: item_fields_ok_def)
  qed
  ultimately have "list_all item_fields_ok (cp_items plan)" by (auto simp: parts(3) list_all_iff)
  then show "plan_fields_ok plan"
    using ids by (subst parts(5)) (simp add: plan_fields_ok_def make_plan_def Let_def plan_status_def)
  show "\<forall>p \<in> set ps. pp_proposal_id p \<noteq> []"
  proof
    fix p assume "p \<in> set ps"
    then obtain i where "(i, Some p) \<in> set planned" by (auto simp: parts(4) in_map_filter_snd)
    from list_all2_partner_left [OF parts(1) this] obtain u where
      "plan_unit D U inp (d_text D (pi_raw_text inp)) ?ix ?rd ?ld u = Inr (i, Some p)" by blast
    from plan_unit_named [OF this] uuid show "pp_proposal_id p \<noteq> []" by metis
  qed
qed

lemma planned_identity:
  assumes "plan_candidate_coverage D U inp = Inr (plan, ps)"
  shows "cp_message_uuid plan = pi_message_uuid inp \<and> cp_raw_text_hash plan = d_text D (pi_raw_text inp) \<and>
    cp_processing_run_uuid plan = pi_processing_run_uuid inp \<and> cp_contract_hash plan = pi_contract_hash inp"
  by (rule plan_parts [OF assms], erule ssubst) (simp add: make_plan_def Let_def)

lemma persisted_runs:
  assumes "sqlite_persist_plan D plan b now st = Inr (r, st')" "\<forall>row \<in> set (st_runs st). rr_message row
      \<noteq> cp_message_uuid plan"
  shows "st_runs st' = st_runs st @ [run_values D plan b now]"
proof (cases "find_run st (coverage_run_uuid D (cp_coverage_hash plan))")
  case None
  with assms(1) show ?thesis by (auto simp: sqlite_persist_plan_def Let_def dest!: insert_run_Inr insert_items_Inr)
next
  case (Some row)
  with assms(1) have "row = run_values D plan b (rr_created_at row)"
    by (auto simp: sqlite_persist_plan_def assert_plan_replay_def Let_def)
  then have "rr_message row = rr_message (run_values D plan b (rr_created_at row))" by (rule arg_cong)
  moreover have "row \<in> set (st_runs st)" using Some by (auto simp: find_run_def dest: find_SomeD)
  ultimately show ?thesis using assms(2) by (simp add: run_values_def)
qed

lemma persisted_idle:
  assumes "sqlite_persist_plan D plan b now st = Inr (r, st)"
  shows "\<exists>u. assert_plan_replay D plan b st = Inr u"
  using assms
  by (cases "find_run st (coverage_run_uuid D (cp_coverage_hash plan))")
    (auto simp: sqlite_persist_plan_def Let_def dest!: insert_run_Inr insert_items_Inr dest: arg_cong [where f =
        st_runs])


section \<open>A finished run\<close>

lemma exec_persist:
  assumes "on_coverage R (PersistPlan plan b) now db = Inr (x, db')"
    and "store_inv sqlite_dialect (rt_digests R) (rt_float R) (db_coverage db)"
    and "\<forall>row \<in> set (st_runs (db_coverage db)). rr_message row \<noteq> cp_message_uuid plan"
    and "store_grows sqlite_dialect (db_coverage db') st"
  shows "st_runs (db_coverage db') = st_runs (db_coverage db) @ [run_values (rt_digests R) plan b now]"
    and "\<exists>u. assert_plan_replay (rt_digests R) plan b st = Inr u"
proof -
  from assms(1) have p: "sqlite_persist_plan (rt_digests R) plan b now (db_coverage db) = Inr (x, db_coverage db')"
    by (auto simp: on_coverage_def split: sum.splits prod.splits)
  from persisted_runs [OF p assms(3)]
  show "st_runs (db_coverage db') = st_runs (db_coverage db) @ [run_values (rt_digests R) plan b now]" .
  from sqlite_persist_step [OF assms(2) p] assms(4) obtain r where
    "sqlite_persist_plan (rt_digests R) plan b now st = Inr (r, st)" by blast
  from persisted_idle [OF this] show "\<exists>u. assert_plan_replay (rt_digests R) plan b st = Inr u" .
qed

text \<open>The tables after a run of the service alone.\<close>

definition finished :: "runtime \<Rightarrow> planning_request \<Rightarrow> context_scope \<Rightarrow> runtime_db
    \<Rightarrow> runtime_db \<Rightarrow> planning_result \<Rightarrow> bool" where
  "finished R rq sc db0 db res \<longleftrightarrow>
     (\<exists>inp b now u. same_sources db0 db \<and>
        store_inv sqlite_dialect (rt_digests R) (rt_float R) (db_coverage db) \<and>
        plan_candidate_coverage (rt_digests R) (rt_unidb R) inp = Inr (rs_plan res, rs_proposals res) \<and>
        pi_message_uuid inp = sc_message_uuid sc \<and> pi_processing_run_uuid inp = rq_processing_run rq \<and>
        pi_message_uuid inp \<noteq> [] \<and> pi_processing_run_uuid inp \<noteq> [] \<and>
        pi_raw_text inp = sc_raw_text sc \<and> pi_contract_hash inp = rt_contract_hash R \<and>
        (\<forall>u \<in> set (sa_semantic_units (pi_analysis inp)). su_raw_start u < su_raw_end u) \<and>
        load_persisted_authorities (rt_unidb R) db (sc_message_uuid sc) (rq_processing_run rq) = Inr
            (pi_authorities inp) \<and>
        assert_plan_replay (rt_digests R) (rs_plan res) b (db_coverage db) = Inr u \<and>
        pb_message_version b = sc_message_version_uuid sc \<and> pb_mapping_version b =
            ROUTE_CANDIDATE_MAPPING_VERSION \<and>
        pb_provenance_version b = PROVENANCE_POLICY_VERSION \<and> pb_privacy_version b =
            SEMANTIC_PRIVACY_POLICY_VERSION \<and>
        st_runs (db_coverage db) = st_runs (db_coverage db0) @ [run_values (rt_digests R) (rs_plan res) b now] \<and>
        rs_candidate_uuids res = map pp_proposal_id (rs_proposals res) \<and>
        (\<forall>p \<in> set (rs_proposals res).
           proposal_stored (rt_digests R) (rt_float R) (rs_plan res) (rq_processing_run rq) (db_coverage db) p))"

lemma plan_and_store_alone:
  assumes run: "plan_and_store R rq sc env i items as se E s = (Inr res, s')" and E: "alone E"
    and inv: "store_inv sqlite_dialect (rt_digests R) (rt_float R) (db_coverage (os_db s))"
    and new: "\<forall>row \<in> set (st_runs (db_coverage (os_db s))). rr_message row \<noteq> sc_message_uuid sc"
  shows "finished R rq sc (os_db s) (os_db s') res"
proof -
  let ?D = "rt_digests R" and ?F = "rt_float R" and ?h = "d_text (rt_digests R) (sc_raw_text sc)"
  from run obtain report s1 s2 as' s3 plan ps s4 pr s5 cs where
      bound: "bind_output R i (se_output se) = Inr report"
    and f1: "fence_and_revalidate R rq ?h E s = (Inr (), s1)"
    and w1: "owrite (\<lambda>now db. rbind (insert_missing_semantic_text_units ?D sc (se_output se) as now db)
          (\<lambda>db'. Inr ((), db'))) E s1 = (Inr (), s2)"
    and r1: "oread (\<lambda>db. load_persisted_authorities (rt_unidb R) db (sc_message_uuid sc) (rq_processing_run
        rq)) E s2 = (Inr as', s3)"
    and plan: "plan_message R (planner_input_of R rq sc (envelope_dict env) se report as' items) = Inr (plan, ps)"
    and f2: "fence_and_revalidate R rq ?h E s3 = (Inr (), s4)"
    and w2: "owrite (on_coverage R (PersistPlan plan (bindings_of R sc se report as' items plan))) E s4 = (Inr pr, s5)"
    and st: "store_proposals R rq ?h plan as' ps E s5 = (Inr cs, s')"
    and res: "rs_plan res = plan" "rs_proposals res = ps" "rs_candidate_uuids res = map mc_uuid cs"
    by (auto simp: plan_and_store_def Let_def bind_Inr lift_alone oret_def)
  let ?inp = "planner_input_of R rq sc (envelope_dict env) se report as' items"
  let ?b = "bindings_of R sc se report as' items plan"
  from write_alone [OF w1 E] obtain now1 where
    "insert_missing_semantic_text_units ?D sc (se_output se) as now1 (os_db s1) = Inr (os_db s2)" by auto
  then have "beside_coverage (os_db s1) (os_db s2)" unfolding insert_missing_semantic_text_units_def by (rule
      insert_units_beside)
  moreover have db: "os_db s1 = os_db s" "os_db s4 = os_db s2"
    using fence_alone [OF f1 E] fence_alone [OF f2 E] read_alone [OF r1 E] by simp_all
  ultimately have beside: "beside_coverage (os_db s) (os_db s2)" by simp
  have inv2: "store_inv sqlite_dialect ?D ?F (db_coverage (os_db s4))" using beside_facts(1) [OF beside] inv db by simp
  have auth: "load_persisted_authorities (rt_unidb R) (os_db s2) (sc_message_uuid sc) (rq_processing_run rq) = Inr as'"
    using read_alone [OF r1 E] by simp
  from plan have planned: "plan_candidate_coverage ?D (rt_unidb R) ?inp = Inr (plan, ps)"
    and ids: "pi_message_uuid ?inp \<noteq> []" "pi_processing_run_uuid ?inp \<noteq> []"
    by (auto simp: plan_message_def map_err_Inr)
  from write_alone [OF w2 E] obtain now2 where p: "on_coverage R (PersistPlan plan ?b) now2 (os_db s4) = Inr (pr,
      os_db s5)" by auto
  note a1 = advanced_coverage [OF p inv2]
  note a2 = store_proposals_alone [OF st E advanced_inv [OF conjunct1 [OF a1]]]
  have adv: "advanced R (os_db s2) (os_db s')" by (rule advanced_trans [OF conjunct1 [OF a1, unfolded db] conjunct1
      [OF a2]])
  have "\<forall>row \<in> set (st_runs (db_coverage (os_db s4))). rr_message row \<noteq> cp_message_uuid plan"
    using new planned_identity [OF planned] beside_facts(2) [OF beside] db by (simp add: planner_input_of_def)
  note stored = exec_persist [OF p inv2 this advanced_grows [OF conjunct1 [OF a2]]]
  have units: "\<forall>u \<in> set (sa_semantic_units (pi_analysis ?inp)). su_raw_start u < su_raw_end u"
    using bound bound_units by (auto simp: bind_output_def map_err_Inr planner_input_of_def unit_exact_def)
  from stored(2) obtain us where checked: "assert_plan_replay ?D plan ?b (db_coverage (os_db s')) = Inr us" by blast
  show ?thesis
    unfolding finished_def res
  proof (intro exI conjI)
    show "same_sources (os_db s) (os_db s')"
      using beside advanced_sources [OF adv] by (auto simp: beside_coverage_def same_sources_def)
    show "store_inv sqlite_dialect ?D ?F (db_coverage (os_db s'))" by (rule advanced_inv [OF adv])
    show "plan_candidate_coverage ?D (rt_unidb R) ?inp = Inr (plan, ps)" by (rule planned)
    show "load_persisted_authorities (rt_unidb R) (os_db s') (sc_message_uuid sc) (rq_processing_run rq) =
      Inr (pi_authorities ?inp)" using auth advanced_authorities [OF adv] by (simp add: planner_input_of_def)
    show "assert_plan_replay ?D plan ?b (db_coverage (os_db s')) = Inr us" by (rule checked)
    show "st_runs (db_coverage (os_db s')) = st_runs (db_coverage (os_db s)) @ [run_values ?D plan ?b now2]"
      using stored(1) a2 beside_facts(2) [OF beside] db by simp
    show "map mc_uuid cs = map pp_proposal_id ps"
      "\<forall>p \<in> set ps. proposal_stored ?D ?F plan (rq_processing_run rq) (db_coverage (os_db s')) p" using
          a2 by simp_all
  qed (use ids units in \<open>simp_all add: planner_input_of_def bindings_of_def\<close>)
qed


lemma scope_names_message: "load_current_context_scope db m = Inr sc \<Longrightarrow> sc_message_uuid sc = m"
  by (auto simp: load_current_context_scope_def find_message_def Let_def dest: find_SomeD split: option.splits)

lemma select_simps:
  "select_completed run [] = None" "rr_processing_run r = run \<Longrightarrow> select_completed run [r] = Some r"
  by (simp_all add: select_completed_def Let_def)

lemma finished_beside:
  assumes "beside_coverage a b" "finished R rq sc b db res"
  shows "finished R rq sc a db res"
proof -
  have "same_sources a db" if "same_sources b db" using assms(1) that by (auto simp: beside_coverage_def
      same_sources_def)
  with assms beside_facts(2) [OF assms(1)] show ?thesis unfolding finished_def by metis
qed

lemma execute_alone:
  assumes run: "execute R rq E s = (Inr res, s')" and E: "alone E"
    and inv: "store_inv sqlite_dialect (rt_digests R) (rt_float R) (db_coverage (os_db s))"
    and new: "\<forall>row \<in> set (st_runs (db_coverage (os_db s))). rr_message row \<noteq> rq_message rq"
  obtains sc where "load_current_context_scope (os_db s) (rq_message rq) = Inr sc"
    "assert_current_scope_eligible sc = Inr ()" "finished R rq sc (os_db s) (os_db s') res"
proof -
  let ?D = "rt_digests R"
  let ?load = "\<lambda>sc as db. load_completed_semantic_planning db (rq_message rq) (rq_processing_run rq)
         (sc_message_version_uuid sc) (d_text ?D (sc_raw_text sc)) (rt_contract_hash R)
         ROUTE_CANDIDATE_MAPPING_VERSION PROVENANCE_POLICY_VERSION SEMANTIC_PRIVACY_POLICY_VERSION as"
  from run obtain sc s1 as s2 found s3 where
      r1: "oread (\<lambda>db. load_current_context_scope db (rq_message rq)) E s = (Inr sc, s1)"
    and ok: "assert_current_scope_eligible sc = Inr ()"
    and r2: "oread (\<lambda>db. load_persisted_authorities (rt_unidb R) db (rq_message rq) (rq_processing_run rq))
        E s1 = (Inr as, s2)"
    and r3: "oread (?load sc as) E s2 = (Inr found, s3)"
    and rest: "(case found of Some (plan, ids) \<Rightarrow> oret (replayed_result plan ids)
      | None \<Rightarrow> analyse_and_store R rq sc (build_envelope ?D (rt_unidb R) (rt_norm R) (sc_raw_text sc))
          as) E s3 = (Inr res, s')"
    unfolding execute_def Let_def bind_Inr lift_alone
    by (elim exE conjE, hypsubst) (rule that, assumption, simp, assumption+)
  have db: "os_db s1 = os_db s" "os_db s2 = os_db s" "os_db s3 = os_db s"
    using read_alone [OF r1 E] read_alone [OF r2 E] read_alone [OF r3 E] by simp_all
  have sc: "load_current_context_scope (os_db s) (rq_message rq) = Inr sc" using read_alone [OF r1 E] by simp
  have "found = None"
  proof -
    have "?load sc as (os_db s) = Inr found" using read_alone [OF r3 E] db by simp
    moreover have "filter (planning_key_matches (rq_message rq) h c v m p q n) (st_runs (db_coverage (os_db s))) = []"
      for h c v m p q n using new by (auto simp: filter_empty_conv planning_key_matches_def)
    moreover have "List.find (\<lambda>r. rr_message r = rq_message rq \<and> rr_raw_text_hash r = h \<and>
        rr_contract_hash r = c)
        (st_runs (db_coverage (os_db s))) = None" for h c using new by (auto simp: find_None_iff)
    ultimately show ?thesis by (simp add: load_completed_semantic_planning_def select_simps Let_def)
  qed
  with rest have "analyse_and_store R rq sc (build_envelope ?D (rt_unidb R) (rt_norm R) (sc_raw_text sc)) as E s3 =
      (Inr res, s')" by simp
  then obtain sc' s4 ctx s5 i s6 se where
      r4: "oread (\<lambda>db. load_current_context_scope db (rq_message rq)) E s3 = (Inr sc', s4)"
    and r5: "oread (\<lambda>db. map_sum ContextError id (resolve_context ?D (rt_unidb R)
        (list_prior_context_records db) sc'
        (build_envelope ?D (rt_unidb R) (rt_norm R) (sc_raw_text sc)))) E s4 = (Inr ctx, s5)"
    and an: "(if remote_semantic_transfer_forbidden (rt_unidb R) (rq_profile rq)
          (if cr_authority_complete ctx then as else map mark_conflicting as) (sc_raw_text sc)
        then oret (skipped_execution R) else execute_or_replay_semantic R rq i (d_text ?D (sc_raw_text sc))) E s5 =
            (Inr se, s6)"
    and st: "plan_and_store R rq sc (build_envelope ?D (rt_unidb R) (rt_norm R) (sc_raw_text sc)) i
        (context_resolution.cr_items ctx) (if cr_authority_complete ctx then as else map mark_conflicting as) se E
            s6 = (Inr res, s')"
    unfolding analyse_and_store_def Let_def bind_Inr lift_alone
    by (elim exE conjE, hypsubst) (rule that, assumption+)
  have "os_db s5 = os_db s" using read_alone [OF r4 E] read_alone [OF r5 E] db by simp
  moreover have "beside_coverage (os_db s5) (os_db s6)"
    using an execution_alone [OF _ E] by (auto simp: oret_def split: if_splits)
  ultimately have beside: "beside_coverage (os_db s) (os_db s6)" by simp
  have "finished R rq sc (os_db s6) (os_db s') res"
    by (rule plan_and_store_alone [OF st E])
      (use beside_facts [OF beside] inv new scope_names_message [OF sc] in simp_all)
  from that [OF sc ok finished_beside [OF beside this]] show thesis .
qed


section \<open>The second run\<close>

text \<open>What the second run loads: the plan and its candidates.\<close>

lemma finished_loads:
  assumes fin: "finished R rq sc db0 db res" and sc: "sc_message_uuid sc = rq_message rq"
    and uuid: "\<forall>n x. d_uuid5 (rt_digests R) n x \<noteq> []" and dist: "distinct (map pp_proposal_id
        (rs_proposals res))"
    and new: "\<forall>row \<in> set (st_runs (db_coverage db0)). rr_message row \<noteq> rq_message rq"
  obtains as where "load_persisted_authorities (rt_unidb R) db (rq_message rq) (rq_processing_run rq) = Inr as"
    "load_completed_semantic_planning db (rq_message rq) (rq_processing_run rq) (sc_message_version_uuid sc)
       (d_text (rt_digests R) (sc_raw_text sc)) (rt_contract_hash R) ROUTE_CANDIDATE_MAPPING_VERSION
       PROVENANCE_POLICY_VERSION SEMANTIC_PRIVACY_POLICY_VERSION as =
     Inr (Some (rs_plan res, List.map_filter it_proposal_id (cp_items (rs_plan res))))"
    "set (List.map_filter it_proposal_id (cp_items (rs_plan res))) = set (rs_candidate_uuids res)"
proof -
  let ?D = "rt_digests R" and ?plan = "rs_plan res" and ?ps = "rs_proposals res"
  from fin [unfolded finished_def] obtain inp b now u where
      inv: "store_inv sqlite_dialect ?D (rt_float R) (db_coverage db)"
    and planned: "plan_candidate_coverage ?D (rt_unidb R) inp = Inr (?plan, ?ps)"
    and inp: "pi_message_uuid inp = rq_message rq" "pi_processing_run_uuid inp = rq_processing_run rq"
      "pi_message_uuid inp \<noteq> []" "pi_processing_run_uuid inp \<noteq> []"
      "pi_raw_text inp = sc_raw_text sc" "pi_contract_hash inp = rt_contract_hash R"
    and us: "\<forall>u \<in> set (sa_semantic_units (pi_analysis inp)). su_raw_start u < su_raw_end u"
    and as: "load_persisted_authorities (rt_unidb R) db (rq_message rq) (rq_processing_run rq) = Inr
        (pi_authorities inp)"
    and chk: "assert_plan_replay ?D ?plan b (db_coverage db) = Inr u"
    and b: "pb_message_version b = sc_message_version_uuid sc" "pb_mapping_version b = ROUTE_CANDIDATE_MAPPING_VERSION"
      "pb_provenance_version b = PROVENANCE_POLICY_VERSION" "pb_privacy_version b = SEMANTIC_PRIVACY_POLICY_VERSION"
    and runs: "st_runs (db_coverage db) = st_runs (db_coverage db0) @ [run_values ?D ?plan b now]"
    and cands: "rs_candidate_uuids res = map pp_proposal_id ?ps"
    and stored: "\<forall>p \<in> set ?ps. proposal_stored ?D (rt_float R) ?plan (rq_processing_run rq)
        (db_coverage db) p"
    unfolding sc by blast
  note id = planned_identity [OF planned]
  note fields = planned_fields [OF planned uuid inp(3,4) us]
  note links = plan_links [OF planned]
  have auth: "\<forall>a \<in> set (pi_authorities inp). pa_raw_start a < pa_raw_end a"
    using as by (auto simp: load_persisted_authorities_def Let_def list_all_iff authority_fields_ok_def)
  let ?row = "run_values ?D ?plan b now"
  have valid: "validate_completed_replay ?plan (map (replay_row_of (db_coverage db)) (run_items (db_coverage db)
      (rr_uuid ?row)))
      (pi_authorities inp) = Inr (Some (List.map_filter it_proposal_id (cp_items ?plan)))"
    unfolding run_values_def run_row.simps
    by (rule completed_run_valid [OF inv chk bspec [OF stored] links(3) [OF dist] links(1) bspec [OF fields(2)]
          links(4) [OF dist auth us]])
  have "filter (planning_key_matches (rq_message rq) (d_text ?D (sc_raw_text sc)) (rt_contract_hash R)
      (sc_message_version_uuid sc) ROUTE_CANDIDATE_MAPPING_VERSION PROVENANCE_POLICY_VERSION
      SEMANTIC_PRIVACY_POLICY_VERSION (rq_processing_run rq)) (st_runs (db_coverage db)) = [?row]"
    using new id inp b by (simp add: runs filter_empty_conv planning_key_matches_def run_values_def)
  moreover have "select_completed (rq_processing_run rq) [?row] = Some ?row"
    by (rule select_simps(2)) (simp add: run_values_def id inp)
  moreover have "coverage_plan_of_json (rr_plan ?row) = Some ?plan"
    using stored_plan_read [OF fields(1)] by (simp add: run_values_def)
  ultimately have load: "load_completed_semantic_planning db (rq_message rq) (rq_processing_run rq)
      (sc_message_version_uuid sc)
       (d_text ?D (sc_raw_text sc)) (rt_contract_hash R) ROUTE_CANDIDATE_MAPPING_VERSION
       PROVENANCE_POLICY_VERSION SEMANTIC_PRIVACY_POLICY_VERSION (pi_authorities inp) =
     Inr (Some (?plan, List.map_filter it_proposal_id (cp_items ?plan)))"
    using valid by (simp add: load_completed_semantic_planning_def Let_def)
  have "q \<in> set (List.map_filter it_proposal_id (cp_items ?plan)) \<longleftrightarrow> q \<in> pp_proposal_id
      ` set ?ps" for q
  proof
    assume "q \<in> set (List.map_filter it_proposal_id (cp_items ?plan))"
    then obtain i where "i \<in> set (cp_items ?plan)" "it_proposal_id i = Some q" by (auto simp: List.map_filter_def)
    from links(1) [OF this] show "q \<in> pp_proposal_id ` set ?ps" by auto
  next
    assume "q \<in> pp_proposal_id ` set ?ps"
    then obtain p where "p \<in> set ?ps" "q = pp_proposal_id p" by auto
    with links(2) [OF this(1)] show "q \<in> set (List.map_filter it_proposal_id (cp_items ?plan))"
      by (force simp: List.map_filter_def)
  qed
  then have "set (List.map_filter it_proposal_id (cp_items ?plan)) = set (rs_candidate_uuids res)"
    by (auto simp: cands)
  from that [OF as load this] show thesis .
qed

definition ticked :: "nat \<Rightarrow> orc_state \<Rightarrow> orc_state" where
  "ticked k s = s\<lparr>os_world := (os_world s)\<lparr>w_tick := w_tick (os_world s) + k\<rparr>\<rparr>"

lemma read_ticked:
  assumes "alone E" "\<forall>n. ev_alive (oe_env E) n" "q (os_db s) = Inr x"
  shows "oread q E s = (Inr x, ticked 1 s)"
  using assms by (simp add: oread_def oeffect_run alone_def after_others_def ticked_def)

lemma ticked_simps: "os_db (ticked k s) = os_db s" "ticked j (ticked k s) = ticked (k + j) s"
  by (simp_all add: ticked_def)

text \<open>
  Property C8 (completed_planning_replays): when one run of the service has planned a message and
  stored its candidates, another run for the same message and processing run - whatever the profile
  it is given - returns that plan and those candidates as replayed: it calls no provider, writes
  nothing and reads the tables three times.
\<close>

theorem completed_planning_replays:
  assumes run: "execute R rq E s = (Inr res, s')" and first: "alone E"
    and inv: "store_inv sqlite_dialect (rt_digests R) (rt_float R) (db_coverage (os_db s))"
    and new: "\<forall>row \<in> set (st_runs (db_coverage (os_db s))). rr_message row \<noteq> rq_message rq"
    and uuid: "\<forall>n x. d_uuid5 (rt_digests R) n x \<noteq> []"
    and dist: "distinct (map pp_proposal_id (rs_proposals res))"
    and second: "alone E'" "\<forall>n. ev_alive (oe_env E') n" "os_db t = os_db s'"
    and same: "rq_message rq' = rq_message rq" "rq_processing_run rq' = rq_processing_run rq"
  shows "\<exists>ids. execute R rq' E' t =
       (Inr (replayed_result (rs_plan res) ids), t\<lparr>os_world := (os_world t)\<lparr>w_tick := w_tick
           (os_world t) + 3\<rparr>\<rparr>) \<and>
     set ids = set (rs_candidate_uuids res)"
proof -
  from execute_alone [OF run first inv new] obtain sc where
      sc: "load_current_context_scope (os_db s) (rq_message rq) = Inr sc"
    and ok: "assert_current_scope_eligible sc = Inr ()" and fin: "finished R rq sc (os_db s) (os_db s') res" by blast
  have "same_sources (os_db s) (os_db s')" using fin unfolding finished_def by blast
  from scope_sources [OF this] sc have sc': "load_current_context_scope (os_db t) (rq_message rq) = Inr sc"
    by (simp add: second(3))
  from finished_loads [OF fin scope_names_message [OF sc] uuid dist new] obtain as where
      as: "load_persisted_authorities (rt_unidb R) (os_db t) (rq_message rq) (rq_processing_run rq) = Inr as"
    and load: "load_completed_semantic_planning (os_db t) (rq_message rq) (rq_processing_run rq)
        (sc_message_version_uuid sc)
       (d_text (rt_digests R) (sc_raw_text sc)) (rt_contract_hash R) ROUTE_CANDIDATE_MAPPING_VERSION
       PROVENANCE_POLICY_VERSION SEMANTIC_PRIVACY_POLICY_VERSION as =
     Inr (Some (rs_plan res, List.map_filter it_proposal_id (cp_items (rs_plan res))))"
    and ids: "set (List.map_filter it_proposal_id (cp_items (rs_plan res))) = set (rs_candidate_uuids res)"
    unfolding second(3) by blast
  note read = read_ticked [OF second(1,2)]
  have "execute R rq' E' t = (Inr (replayed_result (rs_plan res)
      (List.map_filter it_proposal_id (cp_items (rs_plan res)))), ticked 3 t)"
    by (simp add: execute_def obind_def olift_def oret_def same read sc' ok as load ticked_simps Let_def numeral_3_eq_3)
  with ids show ?thesis unfolding ticked_def by blast
qed

end
