(* ===== verification/OrchestrationWitness.thy ===== *)
theory OrchestrationWitness
  imports OrchestrationSafety
begin

text \<open>
  What the ledger and the planning refuse or ignore, and closed instances of the properties of the
  orchestration service.
\<close>

section \<open>A message of unknown authority\<close>

lemma marked_spans [simp]:
  "inside_authority a b (mark_conflicting x) = inside_authority a b x"
  "sensitive_authority (mark_conflicting x) = sensitive_authority x"
  by (simp_all add: inside_authority_def mark_conflicting_def sensitive_authority_def)

text \<open>
  Property C12 (incomplete_authority_ignored): a message whose session has no complete authority
  gets every text unit marked as conflicting, to stop its candidates; the marks change neither the
  privacy decision nor anything that is planned or stored, since the units are loaded again before
  the planner sees them.
\<close>

theorem incomplete_authority_ignored:
  "remote_semantic_transfer_forbidden U p (map mark_conflicting as) raw =
     remote_semantic_transfer_forbidden U p as raw \<and>
   plan_and_store R rq sc env i items (map mark_conflicting as) se = plan_and_store R rq sc env i items as se"
proof -
  have "insert_missing_semantic_text_units D sc out (map mark_conflicting as) now db =
      insert_missing_semantic_text_units D sc out as now db" for D out now db
    by (simp add: insert_missing_semantic_text_units_def missing_units_def list_ex_iff)
  then show ?thesis
    by (simp add: remote_semantic_transfer_forbidden_def plan_and_store_def list_ex_iff)
qed

section \<open>Concepts named twice\<close>

definition tagged :: "string \<Rightarrow> string \<Rightarrow> dict_row list \<Rightarrow> bool" where
  "tagged uid concept tags \<longleftrightarrow> (\<exists>x \<in> set tags. jget x ''semantic_analysis_uuid'' = jlit uid \<and>
     jget x ''concept_uuid'' = jlit concept)"

lemma put_row_Inr: "put_row keys r t = Inr t' \<Longrightarrow> t' = t @ [r] \<and> \<not> list_ex (key_taken t r) keys"
  by (auto simp: put_row_def raise_if_def split: if_splits)

lemma tag_key:
  "jget (tag_dict uid concept n t) ''semantic_analysis_uuid'' = jlit uid"
  "jget (tag_dict uid concept n t) ''concept_uuid'' = jlit concept"
  by (simp_all add: tag_dict_def)

lemma put_concept_tag_Inr:
  assumes "put_concept_tag U L uid now n t tabs = Inr tabs'"
  defines "concept \<equiv> ll_uuid5 L CONCEPT_NAMESPACE (normalize_label U L (cn_canonical_label t))"
  shows "\<not> tagged uid concept (mt_tags tabs) \<and> mt_tags tabs' = mt_tags tabs @ [tag_dict uid concept n t]"
proof -
  from assms obtain tags where "put_row [[''semantic_analysis_uuid'', ''concept_uuid''],
      [''semantic_analysis_uuid'', ''tag_ordinal'']] (tag_dict uid concept n t) (mt_tags tabs) = Inr tags"
    and tags: "mt_tags tabs' = tags"
    by (auto simp: put_concept_tag_def Let_def)
  note put_row_Inr [OF this(1)]
  then show ?thesis unfolding tags by (auto simp: tagged_def key_taken_def same_key_def list_ex_iff tag_key)
qed

lemma put_concept_tags_distinct:
  "put_concept_tags U L uid now n ts tabs = Inr tabs' \<Longrightarrow>
     distinct (map (\<lambda>t. ll_uuid5 L CONCEPT_NAMESPACE (normalize_label U L (cn_canonical_label t))) ts) \<and>
     (\<forall>t \<in> set ts. \<not> tagged uid (ll_uuid5 L CONCEPT_NAMESPACE (normalize_label U L (cn_canonical_label t))) (mt_tags tabs))"
proof (induction ts arbitrary: n tabs)
  case (Cons t ts)
  let ?c = "\<lambda>t. ll_uuid5 L CONCEPT_NAMESPACE (normalize_label U L (cn_canonical_label t))"
  from Cons.prems obtain tabs1 where put: "put_concept_tag U L uid now n t tabs = Inr tabs1"
    and rest: "put_concept_tags U L uid now (Suc n) ts tabs1 = Inr tabs'" by auto
  note first = put_concept_tag_Inr [OF put] and ih = Cons.IH [OF rest]
  from first have "tagged uid (?c t) (mt_tags tabs1)" by (simp add: tagged_def tag_key)
  with ih have "?c t \<notin> ?c ` set ts" by auto
  moreover have "tagged uid c (mt_tags tabs) \<Longrightarrow> tagged uid c (mt_tags tabs1)" for c
    using first by (auto simp: tagged_def)
  ultimately show ?case using first ih by auto
qed simp

lemma persist_concepts:
  assumes "persist_message_semantics D U L m run prompt stage ch sc raw a oc now db = Inr db'"
    and "\<not> has_key ''semantic_analysis_uuid'' (semantic_analysis_uuid D m run ch (d_text D raw)) (mt_analyses (db_semantics db))"
  shows "distinct (map (\<lambda>t. normalize_label U L (cn_canonical_label t)) (sa_concept_tags a))"
proof -
  from assms obtain tabs tabs' where "put_concept_tags U L (semantic_analysis_uuid D m run ch (d_text D raw)) now 0
      (sa_concept_tags a) tabs = Inr tabs'"
    by (auto simp: persist_message_semantics_def put_semantics_def Let_def)
  from put_concept_tags_distinct [OF this] show ?thesis by (auto simp: distinct_map inj_on_def)
qed

text \<open>
  Property C13 (repeated_concept_refused): an answer that names the same concept twice, after
  normalisation of its labels, is accepted by the contract but cannot be recorded: the ledger's
  key admits one tag per concept, and the whole recording fails with the tag.
\<close>

theorem repeated_concept_refused:
  assumes "\<not> has_key ''semantic_analysis_uuid'' (semantic_analysis_uuid D m run ch (d_text D raw)) (mt_analyses (db_semantics db))"
    and "\<not> distinct (map (\<lambda>t. normalize_label U L (cn_canonical_label t)) (sa_concept_tags a))"
  shows "\<exists>e. persist_message_semantics D U L m run prompt stage ch sc raw a oc now db = Inl e"
  using persist_concepts [OF _ assms(1)] assms(2)
  by (cases "persist_message_semantics D U L m run prompt stage ch sc raw a oc now db") blast+

section \<open>Closed instances\<close>

definition empty_semantics :: semantics_tables where
  "empty_semantics = \<lparr>mt_analyses = [], mt_categories = [], mt_concepts = [], mt_aliases = [], mt_tags = [],
     mt_units = [], mt_entities = [], mt_processes = [], mt_outcomes = []\<rparr>"

definition empty_coverage :: "memory_candidate coverage_store" where
  "empty_coverage = \<lparr>st_parent = (\<lambda>_ _. True), st_gates = [], st_routes = [], st_runs = [], st_items = [],
     st_links = [], st_candidates = [], st_evidence = []\<rparr>"

definition demo_db :: runtime_db where
  "demo_db = \<lparr>
     db_messages = [\<lparr>ms_uuid = ''m1'', ms_session = ''s1'', ms_role = ''user'', ms_turn = Some 1,
       ms_raw_text = Some (lit ''!''), ms_visibility = ''visible'', ms_is_deleted = False, ms_redaction = ''none''\<rparr>],
     db_sessions = [\<lparr>ss_uuid = ''s1'', ss_workspace = None, ss_project = None\<rparr>],
     db_actors = [\<lparr>sa_session = ''s1'', sa_user = ''u1'', sa_workspace = ''''\<rparr>],
     db_versions = [], db_units = [], db_runs = [\<lparr>pn_uuid = ''r1'', pn_message = ''m1''\<rparr>],
     db_analyses = [], db_annotations = [], db_prompts = [], db_stages = [], db_usage = [],
     db_semantics = empty_semantics, db_coverage = empty_coverage\<rparr>"

definition demo_runtime :: runtime where
  "demo_runtime = \<lparr>rt_digests = demo_context_digests, rt_unidb = demo_unidb,
     rt_labels = \<lparr>ll_uuid5 = (\<lambda>ns s. ns @ map char_of s), ll_nfkc = id\<rparr>, rt_float = (\<lambda>_ _. []),
     rt_ts_ok = (\<lambda>_. True), rt_parse = (\<lambda>_. None), rt_issue_text = (\<lambda>_. []), rt_contract_hash = ''c1'',
     rt_norm = default_contract\<rparr>"

definition demo_request :: planning_request where
  "demo_request = \<lparr>rq_message = ''m1'', rq_processing_run = ''r1'', rq_profile = [], rq_import_run = None,
     rq_job = Some ''j1'', rq_lease_fence = True\<rparr>"

definition demo_orc_env :: "string option \<Rightarrow> orc_env" where
  "demo_orc_env fence = \<lparr>oe_env = null_env, oe_other = (\<lambda>_ db. db), oe_fence = (\<lambda>_. fence),
     oe_now = (\<lambda>_. ''now''), oe_fresh = (\<lambda>_. ''fresh'')\<rparr>"

definition demo_state :: "runtime_db \<Rightarrow> orc_state" where
  "demo_state db = \<lparr>os_db = db, os_world = empty_world\<rparr>"

theorem fenced_worker_powerless_witness:
  "let (r, s') = execute demo_runtime demo_request (demo_orc_env (Some ''lost'')) (demo_state demo_db) in
     os_db s' = demo_db \<and> w_calls (os_world s') = []"
proof -
  have "let (r, s') = execute demo_runtime demo_request (demo_orc_env (Some ''lost'')) (demo_state demo_db) in
      os_db s' = demo_db \<and> w_rows (os_world s') = w_rows (os_world (demo_state demo_db)) \<and>
      w_calls (os_world s') = w_calls (os_world (demo_state demo_db)) \<and>
      (\<forall>x. r = Inr x \<longrightarrow> (\<exists>plan ids. x = replayed_result plan ids))"
    by (rule fenced_worker_powerless [where P = "\<lambda>db. db = demo_db"])
      (simp_all add: demo_request_def demo_orc_env_def demo_state_def)
  then show ?thesis by (auto simp: Let_def demo_state_def empty_world_def split: prod.splits)
qed

theorem recorded_stage_blocks_other_execution_witness:
  "case fst (execute demo_runtime demo_request (demo_orc_env None) (demo_state (demo_db\<lparr>db_stages :=
       [[(''stage_execution_uuid'', jlit ''other''), (''idempotency_key'', jlit ''semantic:r1:m1:c1'')]]\<rparr>))) of
     Inl e \<Rightarrow> True | Inr res \<Rightarrow> rs_status res \<in> {''replayed'', ''skipped_by_privacy''}"
  by (rule recorded_stage_blocks_other_execution
      [where x = "[(''stage_execution_uuid'', jlit ''other''), (''idempotency_key'', jlit ''semantic:r1:m1:c1'')]"])
    (simp_all add: demo_state_def demo_db_def demo_orc_env_def semantic_stage_key_def demo_request_def demo_runtime_def)

definition demo_tag :: "string \<Rightarrow> concept_tag" where
  "demo_tag label = \<lparr>cn_canonical_label = lit label, cn_aliases = [], cn_confidence = (9, -1),
     cn_raw_start = None, cn_raw_end = None\<rparr>"

definition demo_two_tags :: semantic_analysis where
  "demo_two_tags = (abstention demo_unidb ''x'')\<lparr>sa_status := ''ok'', sa_concept_tags := [demo_tag ''Tea'', demo_tag ''tea'']\<rparr>"


definition demo_outcome :: outcome where
  "demo_outcome = projr (deterministic_profile demo_context)"

lemma demo_same_concept:
  "map (\<lambda>t. normalize_label demo_unidb (rt_labels demo_runtime) (cn_canonical_label t)) (sa_concept_tags demo_two_tags) =
     [lit ''tea'', lit ''tea'']"
  by code_simp

theorem repeated_concept_refused_witness:
  "\<exists>e. persist_message_semantics demo_context_digests demo_unidb (rt_labels demo_runtime) ''m1'' ''r1'' ''p1'' ''t1'' ''c1''
     demo_scope (lit ''!'') demo_two_tags demo_outcome ''now'' demo_db = Inl e"
proof (rule repeated_concept_refused)
  show "\<not> has_key ''semantic_analysis_uuid'' (semantic_analysis_uuid demo_context_digests ''m1'' ''r1'' ''c1''
      (d_text demo_context_digests (lit ''!''))) (mt_analyses (db_semantics demo_db))"
    by (simp add: demo_db_def empty_semantics_def has_key_def)
  show "\<not> distinct (map (\<lambda>t. normalize_label demo_unidb (rt_labels demo_runtime) (cn_canonical_label t))
      (sa_concept_tags demo_two_tags))"
    unfolding demo_same_concept by simp
qed

end
