(* ===== verification/ReplayWitness.thy ===== *)
theory ReplayWitness
  imports SecondRun OrchestrationWitness
begin

text \<open>
  A closed instance of the second run: a message whose one text unit is secret, planned for a remote
  profile.  The first run skips the provider, plans an abstention with one uncovered span and stores
  it; the second replays it.
\<close>

section \<open>The message\<close>

definition replay_digests :: digests where
  "replay_digests = demo_context_digests\<lparr>d_uuid5 := (\<lambda>ns name. ns @ name @ '':'')\<rparr>"

definition replay_runtime :: runtime where
  "replay_runtime = demo_runtime\<lparr>rt_digests := replay_digests\<rparr>"

definition secret_text :: ustr where "secret_text = lit ''password''"

definition secret_unit :: text_unit_row where
  "secret_unit = \<lparr>tu_uuid = ''t1'', tu_message = ''m1'', tu_session = ''s1'', tu_index = 0, tu_type =
      ''fragment'',
    tu_text = secret_text, tu_start = 0, tu_end = 8, tu_role = ''user'', tu_hash = ''h'', tu_created_at =
        ''now''\<rparr>"

definition secret_db :: runtime_db where "secret_db = demo_db\<lparr>
  db_messages := [\<lparr>ms_uuid = ''m1'', ms_session = ''s1'', ms_role = ''user'', ms_turn = Some 1,
       ms_raw_text = Some secret_text, ms_visibility = ''visible'', ms_is_deleted = False, ms_redaction =
           ''none''\<rparr>],
  db_units := [secret_unit]\<rparr>"

definition remote_request :: planning_request where
  "remote_request = demo_request\<lparr>rq_profile := [(''provider_type'', PText ''openai_compatible'')]\<rparr>"

definition secret_scope :: context_scope where "secret_scope = demo_scope\<lparr>sc_message_uuid := ''m1'',
    sc_turn_index := Some 1, sc_raw_text := secret_text\<rparr>"

definition secret_authority :: unit_authority where
  "secret_authority = \<lparr>pa_text_unit_uuid = ''t1'', pa_raw_start = 0, pa_raw_end = 8, pa_annotation_uuid = None,
     pa_gate_decision_uuid = None, pa_gate_decision = None, pa_route_uuid = None, pa_route_type = None,
     pa_route_status = None, pa_privacy_ceiling = ''secret'', pa_privacy_storage_allowed = False,
         pa_conflicting_authority = False\<rparr>"

definition secret_envelope :: text_envelope where "secret_envelope = build_envelope replay_digests demo_unidb
    default_contract secret_text"

definition secret_context :: context_resolution where
  "secret_context = projr (resolve_context replay_digests demo_unidb (list_prior_context_records secret_db)
      secret_scope secret_envelope)"

definition secret_input :: semantic_input where
  "secret_input = projr (build_semantic_input (d_text replay_digests) ''m1'' None secret_text (envelope_dict
      secret_envelope)
     (context_resolution.cr_items secret_context) (cr_boundary secret_context))"

definition secret_report :: validation_report where "secret_report = projr (bind_output replay_runtime secret_input
    (se_output (skipped_execution replay_runtime)))"

lemma lexicon_hit:
  assumes "p \<in> set (lx_phrases lx)" "match_tokens U n (tokenize U n code) (phrase_tokens U p) \<noteq> None"
  shows "lexicon_search U lx n code \<noteq> None"
proof -
  let ?f = "\<lambda>best p. better_match best (match_tokens U n (tokenize U n code) (phrase_tokens U p))"
  have keep: "foldl ?f b ps \<noteq> None" if "b \<noteq> None" for b ps
    using that by (induction ps arbitrary: b) (auto simp: better_match_def split: option.splits)
  have "foldl ?f b ps \<noteq> None" if "p \<in> set ps" for b ps
    using that
  proof (induction ps arbitrary: b)
    case (Cons q ps)
    then show ?case using keep assms(2) by (cases "q = p") (auto simp: better_match_def split: option.splits)
  qed simp
  with assms(1) show ?thesis by (simp add: lexicon_search_def find_any_phrase_def Let_def)
qed

lemma secret_text_secret: "classify_sensitivity demo_unidb secret_text = SECRET"
proof -
  let ?n = "resolve_text demo_unidb secret_text"
  have "match_tokens demo_unidb ?n (tokenize demo_unidb ?n True) (phrase_tokens demo_unidb (lit ''password''))
      \<noteq> None" by code_simp
  then have "lexicon_search demo_unidb SECRET_LEXICON ?n True \<noteq> None"
    by (rule lexicon_hit [rotated]) (simp add: SECRET_LEXICON_def)
  then show ?thesis by (simp add: classify_sensitivity_def Let_def)
qed

lemma secret_scope_loaded: "load_current_context_scope secret_db ''m1'' = Inr secret_scope" by code_simp

lemma secret_scope_eligible: "assert_current_scope_eligible secret_scope = Inr ()" by code_simp

lemma secret_context_resolved: "case resolve_context replay_digests demo_unidb (list_prior_context_records
    secret_db) secret_scope secret_envelope of Inl _ \<Rightarrow> False | Inr cr \<Rightarrow>
    context_resolution.cr_items cr = []" by code_simp

lemma secret_input_built: "case build_semantic_input (d_text replay_digests) ''m1'' None secret_text (envelope_dict
    secret_envelope)
     (context_resolution.cr_items secret_context) (cr_boundary secret_context) of Inl _ \<Rightarrow> False | Inr
         cr \<Rightarrow> True" by code_simp

lemma secret_output_bound: "case bind_output replay_runtime secret_input (se_output (skipped_execution
    replay_runtime)) of Inl _ \<Rightarrow> False | Inr cr \<Rightarrow> True" by code_simp

lemma secret_authority_loaded: "load_persisted_authorities demo_unidb secret_db ''m1'' ''r1'' = Inr [secret_authority]"
  by (simp add: load_persisted_authorities_def authorities_from_rows_def authority_joins_def Let_def secret_db_def
      secret_unit_def demo_db_def empty_coverage_def
     unit_authority_of_def left_join_def selected_analysis_def secret_text_secret secret_authority_def
         authority_fields_ok_def List.map_filter_def)

definition secret_se :: semantic_execution where "secret_se = skipped_execution replay_runtime"

definition secret_planner_input :: planner_input where "secret_planner_input = planner_input_of replay_runtime
    remote_request secret_scope (envelope_dict secret_envelope) secret_se secret_report
   [secret_authority] []"

lemma secret_tokens: "envelope_spans (envelope_dict secret_envelope) ''tokens'' = Inr [(0, 8)]" by code_simp

lemma secret_text_hash: "jget (envelope_dict secret_envelope) ''raw_text_hash'' = jlit (d_text replay_digests
    secret_text)" by code_simp

lemma secret_report_empty: "accepted_unit_ids secret_report = [] \<and> accepted_reference_indexes secret_report =
    [] \<and> accepted_relation_indexes secret_report = []" by code_simp

lemma one_token_group: "token_groups U raw ix [(0, 8)] = [(token_authority_key ix (0, 8), [(0, 8)])]"
  by (simp add: token_groups_def group_step_def)

lemma secret_containing: "containing (make_index [secret_authority]) 0 8 = [secret_authority]"
  by (subst containing_make_index) (simp_all add: secret_authority_def)

lemma secret_uncovered: "tokens_outside_intervals [(0, 8)] (merge_intervals []) = [(0, 8)]" by code_simp

lemma secret_planned: "\<exists>item. plan_message replay_runtime secret_planner_input =
    Inr (make_plan replay_digests secret_planner_input (d_text replay_digests secret_text) [item], []) \<and>
  it_raw_start item = 0 \<and> it_raw_end item = 8 \<and> it_disposition item = UNSUPPORTED \<and> it_proposal_id
      item = None \<and>
  it_semantic_unit_id item = None \<and> it_gate_decision_uuid item = None \<and> it_route_uuid item = None"
proof -
  have f: "pi_analysis secret_planner_input = se_output secret_se" "pi_text_envelope secret_planner_input =
      envelope_dict secret_envelope"
    "pi_raw_text secret_planner_input = secret_text" "pi_authorities secret_planner_input = [secret_authority]"
    "pi_message_uuid secret_planner_input = ''m1''" "pi_processing_run_uuid secret_planner_input = ''r1''"
    "pi_accepted_unit_ids secret_planner_input = []" "pi_accepted_reference_indexes secret_planner_input = []"
    "pi_accepted_relation_indexes secret_planner_input = []"
    by (simp_all add: secret_planner_input_def planner_input_of_def secret_scope_def demo_scope_def
        secret_report_empty remote_request_def demo_request_def)
  have g: "sa_semantic_units (se_output secret_se) = []" "sa_references (se_output secret_se) = []" "sa_relations
      (se_output secret_se) = []"
    by (simp_all add: secret_se_def skipped_execution_def abstention_def)
  have c: "check_planner_input replay_digests secret_planner_input = Inr ()"
    by (simp add: check_planner_input_def f g secret_text_hash Let_def)
  obtain item where i: "uncovered_item replay_digests secret_planner_input (d_text replay_digests secret_text)
      (make_index [secret_authority]) (k, [(0, 8)]) = Inr item"
    and i2: "it_raw_start item = 0 \<and> it_raw_end item = 8 \<and> it_disposition item = UNSUPPORTED \<and>
        it_proposal_id item = None \<and>
      it_semantic_unit_id item = None \<and> it_gate_decision_uuid item = None \<and> it_route_uuid item = None" for k
    by (simp add: uncovered_item_def group_span_def secret_containing coverage_item_of_def) (simp add:
        secret_authority_def)
  have D: "rt_digests replay_runtime = replay_digests" "rt_unidb replay_runtime = demo_unidb" by (simp_all add:
      replay_runtime_def demo_runtime_def)
  have u: "uncovered_items replay_digests demo_unidb secret_planner_input (d_text replay_digests secret_text)
      (make_index [secret_authority]) [] = Inr [item]"
    unfolding uncovered_items_def Let_def f secret_tokens list.map secret_uncovered rbind_simps by (simp add:
        one_token_group i secret_uncovered)
  have ac: "assert_complete secret_planner_input [item] [] = Inr ()" using i2 by (simp add: assert_complete_def f)
  have "plan_candidate_coverage replay_digests demo_unidb secret_planner_input =
    Inr (make_plan replay_digests secret_planner_input (d_text replay_digests secret_text) [item], [])"
    using u ac by (simp add: plan_candidate_coverage_def c f g Let_def List.map_filter_def)
  then show ?thesis using i2 by (auto simp: plan_message_def D f raise_if_def)
qed

lemma nothing_missing: "insert_missing_semantic_text_units replay_digests secret_scope (se_output secret_se) as now
    db = Inr db"
  by (simp add: insert_missing_semantic_text_units_def missing_units_def secret_se_def skipped_execution_def
      abstention_def)

lemma secret_snapshot: "assert_runtime_snapshot replay_digests secret_db ''m1'' ''r1'' (d_text replay_digests
    secret_text) = Inr ()"
  by code_simp

lemma secret_stays_local: "remote_semantic_transfer_forbidden U (rq_profile remote_request) [secret_authority] raw"
  by (simp add: remote_semantic_transfer_forbidden_def is_remote_def remote_request_def sensitive_authority_def
      secret_authority_def provider_type_def profile_get_def)

lemma secret_authority_complete: "cr_authority_complete secret_context" by code_simp

section \<open>What a part of the service comes to\<close>

definition comes_to :: "orc_env \<Rightarrow> 'a orc \<Rightarrow> runtime_db \<Rightarrow> 'a \<Rightarrow>
    runtime_db \<Rightarrow> bool" where
  "comes_to E m db x db' \<longleftrightarrow> (\<forall>s. os_db s = db \<longrightarrow> (\<exists>s'. m E s = (Inr
      x, s') \<and> os_db s' = db'))"

lemma comes_to_bind: "comes_to E m db x db1 \<Longrightarrow> comes_to E (f x) db1 y db2 \<Longrightarrow> comes_to E
    (obind m f) db y db2"
  unfolding comes_to_def by (fastforce simp: obind_def)

lemma comes_to_ret: "comes_to E (oret x) db x db"
  by (simp add: comes_to_def oret_def)

lemma comes_to_lift: "r = Inr x \<Longrightarrow> comes_to E (olift r) db x db"
  by (simp add: comes_to_def olift_def)

lemma comes_to_read: "q db = Inr x \<Longrightarrow> comes_to (demo_orc_env None) (oread q) db x db"
  by (auto simp: comes_to_def oread_def oeffect_run demo_orc_env_def null_env_def after_others_def)

lemma comes_to_write: "f ''now'' db = Inr (x, db') \<Longrightarrow> comes_to (demo_orc_env None) (owrite f) db x db'"
  by (auto simp: comes_to_def owrite_def oeffect_run demo_orc_env_def null_env_def after_others_def)

lemma comes_to_fence: "assert_runtime_snapshot (rt_digests R) db (rq_message rq) (rq_processing_run rq) h = Inr ()
    \<Longrightarrow>
   comes_to (demo_orc_env None) (fence_and_revalidate R rq h) db () db"
  unfolding fence_and_revalidate_def
  by (rule comes_to_bind [OF _ comes_to_read])
    (auto simp: comes_to_def oeffect_run demo_orc_env_def null_env_def after_others_def olease_def)

lemma one_item_persisted:
  assumes "plan = make_plan D secret_planner_input h [item]" "it_raw_start item = 0" "it_raw_end item = 8"
      "it_disposition item = UNSUPPORTED" "it_proposal_id item = None"
  "it_semantic_unit_id item = None" "it_gate_decision_uuid item = None" "it_route_uuid item = None"
  shows "\<exists>x db'. on_coverage replay_runtime (PersistPlan plan b) now secret_db = Inr (x, db')"
proof -
  have st: "db_coverage secret_db = empty_coverage" by (simp add: secret_db_def demo_db_def)
  have p: "cp_items plan = [item]" "cp_status plan = ''abstain''"
    by (simp_all add: assms(1) make_plan_def Let_def plan_status_def secret_planner_input_def planner_input_of_def
        secret_se_def skipped_execution_def abstention_def)
  have parents: "refers st' table k" if "st_parent st' = (\<lambda>_ _. True)" for st' :: "memory_candidate
      coverage_store" and table k
    using that by (cases k) (simp_all add: refers_def)
  note q = assms(2-)
  have "\<exists>x st'. sqlite_persist_plan D plan b now empty_coverage = Inr (x, st')" for D
  proof -
    let ?r = "run_values D plan b now"
    have 1: "insert_run ?r empty_coverage = Inr (empty_coverage\<lparr>st_runs := [?r]\<rparr>)"
      by (simp add: insert_run_def parents empty_coverage_def RUN_STATUSES_def raise_if_def)
        (simp add: run_values_def p)
    have 2: "insert_item (item_row_of item u b now) (empty_coverage\<lparr>st_runs := [?r]\<rparr>) =
        Inr (empty_coverage\<lparr>st_runs := [?r], st_items := [item_row_of item u b now]\<rparr>)" if "u =
            rr_uuid ?r" for u
      using q that by (simp add: insert_item_def parents empty_coverage_def item_row_ok_def raise_if_def) (simp
          add: item_row_of_def)
    have "find_run empty_coverage u = None" for u by (simp add: find_run_def empty_coverage_def)
    then show ?thesis using 1 2 q by (simp add: sqlite_persist_plan_def Let_def p item_values_def
        fingerprint_missing_def raise_if_def)
  qed
  then obtain x st' where "sqlite_persist_plan replay_digests plan b now empty_coverage = Inr (x, st')" by blast
  then show ?thesis by (simp add: on_coverage_def st replay_runtime_def demo_runtime_def)
qed

lemma request_fields: "rq_message remote_request = ''m1''" "rq_processing_run remote_request = ''r1''"
  "rt_digests replay_runtime = replay_digests" "rt_unidb replay_runtime = demo_unidb" "rt_norm replay_runtime =
      default_contract"
  "sc_message_uuid secret_scope = ''m1''" "sc_raw_text secret_scope = secret_text" "sc_message_version_uuid
      secret_scope = None"
  by (simp_all add: remote_request_def demo_request_def replay_runtime_def demo_runtime_def secret_scope_def
      demo_scope_def)

lemma secret_stored: "\<exists>res db'. comes_to (demo_orc_env None) (plan_and_store replay_runtime remote_request
    secret_scope secret_envelope secret_input [] [secret_authority] secret_se) secret_db res db' \<and>
    rs_proposals res = []"
proof -
  obtain item where i: "plan_message replay_runtime secret_planner_input =
    Inr (make_plan replay_digests secret_planner_input (d_text replay_digests secret_text) [item], [])"
  "it_raw_start item = 0" "it_raw_end item = 8" "it_disposition item = UNSUPPORTED" "it_proposal_id item = None"
  "it_semantic_unit_id item = None" "it_gate_decision_uuid item = None" "it_route_uuid item = None" using
      secret_planned by blast
  define plan where "plan = make_plan replay_digests secret_planner_input (d_text replay_digests secret_text) [item]"
  have i1: "plan_message replay_runtime secret_planner_input = Inr (plan, [])" using i(1) by (simp add: plan_def)
  from one_item_persisted [OF plan_def i(2-8)] obtain x db' where p: "on_coverage replay_runtime (PersistPlan plan
      (bindings_of replay_runtime secret_scope secret_se secret_report [secret_authority] [] plan)) ''now''
      secret_db = Inr (x, db')" by blast
  have b: "bind_output replay_runtime secret_input (se_output secret_se) = Inr secret_report"
    using secret_output_bound by (simp add: secret_report_def secret_se_def split: sum.splits)
  have f: "comes_to (demo_orc_env None) (fence_and_revalidate replay_runtime remote_request (d_text replay_digests
      secret_text)) secret_db () secret_db"
    by (rule comes_to_fence) (simp add: request_fields secret_snapshot)
  show ?thesis
    unfolding plan_and_store_def Let_def request_fields
    apply (intro exI conjI)
     apply (rule comes_to_bind, rule comes_to_lift, rule b)
     apply (rule comes_to_bind, rule f)
     apply (rule comes_to_bind, rule comes_to_write, simp add: nothing_missing)
     apply (rule comes_to_bind, rule comes_to_read, rule secret_authority_loaded)
     apply (rule comes_to_bind, rule comes_to_lift, rule i1 [unfolded secret_planner_input_def])
     apply (simp only: prod.case)
     apply (rule comes_to_bind, rule f)
     apply (rule comes_to_bind, rule comes_to_write, rule p)
     apply (simp only: store_proposals.simps)
     apply (rule comes_to_bind, rule comes_to_ret)
     apply (rule comes_to_ret)
    apply simp
    done
qed

lemma secret_executed: "\<exists>res db'. comes_to (demo_orc_env None) (execute replay_runtime remote_request)
    secret_db res db' \<and> rs_proposals res = []"
proof -
  obtain res db' where r: "comes_to (demo_orc_env None) (plan_and_store replay_runtime remote_request secret_scope
      secret_envelope secret_input [] [secret_authority] secret_se) secret_db res db'"
    and res: "rs_proposals res = []" using secret_stored by blast
  have c: "resolve_context replay_digests demo_unidb (list_prior_context_records secret_db) secret_scope
      secret_envelope = Inr secret_context"
    and ci: "context_resolution.cr_items secret_context = []"
    using secret_context_resolved by (simp_all add: secret_context_def split: sum.splits)
  have i: "build_semantic_input (d_text replay_digests) ''m1'' None secret_text (envelope_dict secret_envelope)
     (context_resolution.cr_items secret_context) (cr_boundary secret_context) = Inr secret_input"
    using secret_input_built by (simp add: secret_input_def split: sum.splits)
  have "comes_to (demo_orc_env None) (analyse_and_store replay_runtime remote_request secret_scope secret_envelope
      [secret_authority]) secret_db res db'"
    unfolding analyse_and_store_def Let_def request_fields
    apply (rule comes_to_bind, rule comes_to_read, rule secret_scope_loaded)
    apply (rule comes_to_bind, rule comes_to_read, simp add: c)
    apply (rule comes_to_bind, rule comes_to_lift, simp add: i request_fields)
    apply (simp only: secret_authority_complete if_True secret_stays_local)
    apply (rule comes_to_bind, rule comes_to_ret)
    apply (simp only: ci)
    apply (rule r [unfolded secret_se_def])
    done
  then have "comes_to (demo_orc_env None) (execute replay_runtime remote_request) secret_db res db'"
    unfolding execute_def Let_def request_fields
    apply -
    apply (rule comes_to_bind, rule comes_to_read, rule secret_scope_loaded)
    apply (rule comes_to_bind, rule comes_to_lift, rule secret_scope_eligible)
    apply (rule comes_to_bind, rule comes_to_read, rule secret_authority_loaded)
    apply (rule comes_to_bind, rule comes_to_read)
     apply (simp add: load_completed_semantic_planning_def select_simps secret_db_def demo_db_def
         empty_coverage_def Let_def)
    apply (simp add: secret_envelope_def request_fields)
    done
  with res show ?thesis by blast
qed

theorem completed_planning_replays_witness:
  "\<exists>res s' ids t'. execute replay_runtime remote_request (demo_orc_env None) (demo_state secret_db) = (Inr
      res, s') \<and>
     execute replay_runtime demo_request (demo_orc_env None) s' = (Inr (replayed_result (rs_plan res) ids), t') \<and>
     set ids = set (rs_candidate_uuids res)"
proof -
  from secret_executed obtain res db' where y: "comes_to (demo_orc_env None) (execute replay_runtime remote_request)
      secret_db res db'"
    and none: "rs_proposals res = []" by blast
  then obtain s' where run: "execute replay_runtime remote_request (demo_orc_env None) (demo_state secret_db) =
      (Inr res, s')"
  proof -
    have "os_db (demo_state secret_db) = secret_db" by (simp add: demo_state_def)
    with y that show thesis unfolding comes_to_def by blast
  qed
  have cov: "db_coverage secret_db = empty_coverage" by (simp add: secret_db_def demo_db_def)
  have "\<exists>ids. execute replay_runtime demo_request (demo_orc_env None) s' = (Inr (replayed_result (rs_plan
      res) ids),
      s'\<lparr>os_world := (os_world s')\<lparr>w_tick := w_tick (os_world s') + 3\<rparr>\<rparr>) \<and> set ids
          = set (rs_candidate_uuids res)"
  proof (rule completed_planning_replays [OF run])
    show "store_inv sqlite_dialect (rt_digests replay_runtime) (rt_float replay_runtime) (db_coverage (os_db
        (demo_state secret_db)))"
      unfolding demo_state_def orc_state.simps cov by (rule empty_inv) (simp add: empty_tables_def empty_coverage_def)
  qed (use none in \<open>simp_all add: alone_def demo_orc_env_def null_env_def demo_state_def cov empty_coverage_def
      replay_runtime_def demo_runtime_def replay_digests_def demo_digests_def remote_request_def\<close>)
  with run show ?thesis by blast
qed

end
