(* ===== verification/WriteActor.thy ===== *)
theory WriteActor
  imports HotScheduler
begin

text \<open>
  The single SQLite writer (\<open>storage/write_actor.py\<close>, \<open>storage/commands.py\<close>): commands with
  priorities, the execution of one command with its idempotency record, budget and busy retries,
  and the threads around it.  The database is the table of idempotency records and the rest, on
  which a command acts through its \<open>execute\<close>, an argument.  The threads are steps of a relation,
  one step per critical section, so that the interleavings the code allows are the model's.
\<close>

section \<open>Commands\<close>

record write_result =
  wr_command_type :: string
  wr_target_type :: "string option"
  wr_target_uuid :: "string option"
  wr_result :: "(string \<times> json) list"
  wr_idempotent_replay :: bool
  wr_queue_wait_ms :: int
  wr_transaction_ms :: int

datatype actor_error =
    WeightExceeded int | InvalidBudget | Busy | CommandError string | ResultNotIJson ijson_error
  | ReplayRejected string | BudgetExceeded int | UnreachableRetry

text \<open>A missing attribute of a command is the default of \<open>commands.py\<close>.\<close>

record 'd write_command =
  wc_type :: string
  wc_key :: "string option"
  wc_priority_attr :: "int option"
  wc_weight_attr :: "int option"
  wc_max_ms_attr :: "int option"
  wc_can_batch_attr :: "bool option"
  wc_validate_replay :: "('d \<Rightarrow> (actor_error, unit) result) option"
  wc_execute :: "'d \<Rightarrow> (actor_error, write_result) result \<times> 'd"

definition command_priority :: "'d write_command \<Rightarrow> int" where
  "command_priority c = (case wc_priority_attr c of None \<Rightarrow> 50 | Some p \<Rightarrow> p)"

definition command_estimated_write_weight :: "'d write_command \<Rightarrow> int" where
  "command_estimated_write_weight c = (case wc_weight_attr c of None \<Rightarrow> 1 | Some w \<Rightarrow> w)"

definition command_max_transaction_ms :: "'d write_command \<Rightarrow> int" where
  "command_max_transaction_ms c = (case wc_max_ms_attr c of None \<Rightarrow> 30000 | Some m \<Rightarrow> m)"

definition command_can_batch :: "'d write_command \<Rightarrow> bool" where
  "command_can_batch c = (case wc_can_batch_attr c of None \<Rightarrow> True | Some b \<Rightarrow> b)"

definition DEFAULT_MAX_WRITE_WEIGHT :: int where
  "DEFAULT_MAX_WRITE_WEIGHT = 20000"

text \<open>\<open>FunctionWriteCommand\<close>: a handler whose value is wrapped unless it is an object.\<close>

definition function_command ::
  "string \<Rightarrow> ('d \<Rightarrow> (actor_error, json) result \<times> 'd) \<Rightarrow> string option \<Rightarrow> string option \<Rightarrow> string option
     \<Rightarrow> int \<Rightarrow> int \<Rightarrow> int \<Rightarrow> bool \<Rightarrow> 'd write_command" where
  "function_command ty handler key target_type target_uuid priority weight max_ms batch =
     \<lparr>wc_type = ty, wc_key = key, wc_priority_attr = Some priority, wc_weight_attr = Some weight,
      wc_max_ms_attr = Some max_ms, wc_can_batch_attr = Some batch, wc_validate_replay = None,
      wc_execute = (\<lambda>d. case handler d of
          (Inl e, d') \<Rightarrow> (Inl e, d')
        | (Inr v, d') \<Rightarrow> (Inr \<lparr>wr_command_type = ty, wr_target_type = target_type, wr_target_uuid = target_uuid,
             wr_result = (case v of JObj o' \<Rightarrow> o' | _ \<Rightarrow> [(''value'', v)]), wr_idempotent_replay = False,
             wr_queue_wait_ms = 0, wr_transaction_ms = 0\<rparr>, d'))\<rparr>"

section \<open>The idempotency table\<close>

text \<open>The key alone is the primary key of \<open>write_idempotency_records\<close>.\<close>

record idempotency_row =
  ir_key :: string
  ir_command_type :: string
  ir_target_type :: "string option"
  ir_target_uuid :: "string option"
  ir_result :: json

record 'd database =
  db_idempotency :: "idempotency_row list"
  db_rest :: 'd

definition effective_key :: "'d write_command \<Rightarrow> string option" where
  "effective_key c = (case wc_key c of None \<Rightarrow> None | Some k \<Rightarrow> (if k = '''' then None else Some k))"

definition loaded_result :: "json \<Rightarrow> (string \<times> json) list" where
  "loaded_result v =
     (let r = (case v of JObj d \<Rightarrow> d | _ \<Rightarrow> [(''value'', v)]) in
      if ''duplicate'' \<in> fst ` set r then dict_set ''duplicate'' (JBool True) r else r)"

definition idempotency_lookup :: "'d write_command \<Rightarrow> 'd database \<Rightarrow> write_result option" where
  "idempotency_lookup c db =
     (case effective_key c of None \<Rightarrow> None
      | Some k \<Rightarrow>
          map_option (\<lambda>r. \<lparr>wr_command_type = ir_command_type r, wr_target_type = ir_target_type r,
              wr_target_uuid = ir_target_uuid r, wr_result = loaded_result (ir_result r),
              wr_idempotent_replay = True, wr_queue_wait_ms = 0, wr_transaction_ms = 0\<rparr>)
            (List.find (\<lambda>r. ir_key r = k \<and> ir_command_type r = wc_type c) (db_idempotency db)))"

text \<open>\<open>INSERT OR IGNORE\<close> after \<open>dump_ijson\<close>, in a transaction of its own.\<close>

definition record_idempotency ::
  "(ustr \<Rightarrow> bool) \<Rightarrow> 'd write_command \<Rightarrow> write_result \<Rightarrow> 'd database \<Rightarrow> (actor_error, unit) result \<times> 'd database" where
  "record_idempotency ts_ok c res db =
     (case effective_key c of None \<Rightarrow> (Inr (), db)
      | Some k \<Rightarrow>
          (case validate_ijson_value ts_ok (JObj (wr_result res)) of
             Inl e \<Rightarrow> (Inl (ResultNotIJson e), db)
           | Inr _ \<Rightarrow>
               (Inr (), if list_ex (\<lambda>r. ir_key r = k) (db_idempotency db) then db
                  else db\<lparr>db_idempotency := db_idempotency db @
                    [\<lparr>ir_key = k, ir_command_type = wc_type c, ir_target_type = wr_target_type res,
                      ir_target_uuid = wr_target_uuid res, ir_result = canon (JObj (wr_result res))\<rparr>]\<rparr>)))"

section \<open>Executing one command\<close>

text \<open>\<open>busy i\<close>: attempt \<open>i\<close> finds the database locked.  The result carries the retries made.\<close>

fun execute_with_busy_retry ::
  "(nat \<Rightarrow> bool) \<Rightarrow> 'd write_command \<Rightarrow> nat \<Rightarrow> nat \<Rightarrow> 'd \<Rightarrow> (actor_error, write_result \<times> nat) result \<times> 'd" where
  "execute_with_busy_retry busy c attempt 0 d = (Inl UnreachableRetry, d)"
| "execute_with_busy_retry busy c attempt (Suc left) d =
     (if busy attempt then
        (if left = 0 then (Inl Busy, d) else execute_with_busy_retry busy c (Suc attempt) left d)
      else (case wc_execute c d of (r, d') \<Rightarrow> (map_sum id (\<lambda>x. (x, attempt)) r, d')))"

definition MAX_BUSY_ATTEMPTS :: nat where
  "MAX_BUSY_ATTEMPTS = 4"

text \<open>The part between the checks and the budget: a cached result, or the command and its record.\<close>

definition run_command ::
  "(ustr \<Rightarrow> bool) \<Rightarrow> (nat \<Rightarrow> bool) \<Rightarrow> 'd write_command \<Rightarrow> 'd database
     \<Rightarrow> (actor_error, write_result) result \<times> nat \<times> 'd database" where
  "run_command ts_ok busy c db =
     (case idempotency_lookup c db of
        Some cached \<Rightarrow>
          (case wc_validate_replay c of
             None \<Rightarrow> (Inr cached, 0, db)
           | Some validate \<Rightarrow> (map_sum id (\<lambda>_. cached) (validate (db_rest db)), 0, db))
      | None \<Rightarrow>
          (case execute_with_busy_retry busy c 0 MAX_BUSY_ATTEMPTS (db_rest db) of
             (Inl e, d') \<Rightarrow> (Inl e, 0, db\<lparr>db_rest := d'\<rparr>)
           | (Inr (res, retries), d') \<Rightarrow>
               (case record_idempotency ts_ok c res (db\<lparr>db_rest := d'\<rparr>) of
                  (Inl e, db') \<Rightarrow> (Inl e, retries, db')
                | (Inr _, db') \<Rightarrow> (Inr res, retries, db'))))"

text \<open>\<open>wait\<close> and \<open>ms\<close> are the measured queue wait and transaction time.  The last component says
  whether the metrics of a completed command are written.\<close>

definition execute_envelope ::
  "(ustr \<Rightarrow> bool) \<Rightarrow> (nat \<Rightarrow> bool) \<Rightarrow> int \<Rightarrow> int \<Rightarrow> 'd write_command \<Rightarrow> 'd database
     \<Rightarrow> (actor_error, write_result) result \<times> nat \<times> 'd database" where
  "execute_envelope ts_ok busy wait ms c db =
     (if DEFAULT_MAX_WRITE_WEIGHT < command_estimated_write_weight c
      then (Inl (WeightExceeded (command_estimated_write_weight c)), 0, db)
      else if command_max_transaction_ms c \<le> 0 then (Inl InvalidBudget, 0, db)
      else (case run_command ts_ok busy c db of
              (Inl e, n, db') \<Rightarrow> (Inl e, n, db')
            | (Inr res, n, db') \<Rightarrow>
                (if command_max_transaction_ms c < ms then (Inl (BudgetExceeded ms), n, db')
                 else (Inr (res\<lparr>wr_queue_wait_ms := wait, wr_transaction_ms := ms\<rparr>), n, db'))))"

section \<open>Idempotency\<close>

text \<open>
  What the actor needs of the record table: a key recorded under its own type is found again.
\<close>

definition recorded :: "'d write_command \<Rightarrow> 'd database \<Rightarrow> bool" where
  "recorded c db \<longleftrightarrow> idempotency_lookup c db \<noteq> None"

text \<open>The key of \<open>c\<close> is not recorded under another command type.\<close>

definition key_free :: "'d write_command \<Rightarrow> 'd database \<Rightarrow> bool" where
  "key_free c db \<longleftrightarrow> (\<forall>r \<in> set (db_idempotency db). effective_key c = Some (ir_key r) \<longrightarrow> ir_command_type r = wc_type c)"

lemma find_iff: "List.find P xs \<noteq> None \<longleftrightarrow> (\<exists>x \<in> set xs. P x)"
  by (induction xs) auto

lemma recorded_iff:
  "recorded c db \<longleftrightarrow>
     (\<exists>r \<in> set (db_idempotency db). effective_key c = Some (ir_key r) \<and> ir_command_type r = wc_type c)"
  using find_iff [of "\<lambda>r. effective_key c = Some (ir_key r) \<and> ir_command_type r = wc_type c" "db_idempotency db"]
  by (cases "effective_key c") (auto simp: recorded_def idempotency_lookup_def find_None_iff)

lemma record_extends:
  "record_idempotency ts c res db = (r, db') \<Longrightarrow>
     db_rest db' = db_rest db \<and> (\<exists>new. db_idempotency db' = db_idempotency db @ new)"
  by (auto simp: record_idempotency_def split: option.splits sum.splits if_splits)

lemma record_records:
  assumes "record_idempotency ts c res db = (Inr u, db')" "effective_key c \<noteq> None" "key_free c db"
  shows "recorded c db'"
  using assms by (auto simp: record_idempotency_def recorded_iff key_free_def list_ex_iff
      split: option.splits sum.splits if_splits)

lemma run_extends:
  assumes "run_command ts busy c db = (r, n, db')"
  shows "\<exists>new. db_idempotency db' = db_idempotency db @ new"
proof (cases "idempotency_lookup c db")
  case None
  obtain e d where x: "execute_with_busy_retry busy c 0 MAX_BUSY_ATTEMPTS (db_rest db) = (e, d)"
    by (cases "execute_with_busy_retry busy c 0 MAX_BUSY_ATTEMPTS (db_rest db)")
  show ?thesis
  proof (cases e)
    case (Inl err)
    with assms None x show ?thesis by (auto simp: run_command_def)
  next
    case (Inr p)
    obtain q db1 where q: "record_idempotency ts c (fst p) (db\<lparr>db_rest := d\<rparr>) = (q, db1)"
      by (cases "record_idempotency ts c (fst p) (db\<lparr>db_rest := d\<rparr>)")
    with assms None x Inr have "db' = db1" by (auto simp: run_command_def split: prod.splits sum.splits)
    with record_extends [OF q] show ?thesis by simp
  qed
next
  case (Some cached)
  with assms show ?thesis by (auto simp: run_command_def split: option.splits)
qed

lemma envelope_extends:
  "execute_envelope ts busy wait ms c db = (r, n, db') \<Longrightarrow> \<exists>new. db_idempotency db' = db_idempotency db @ new"
  by (auto simp: execute_envelope_def split: if_splits prod.splits sum.splits dest: run_extends)

lemma recorded_mono:
  "recorded c db \<Longrightarrow> db_idempotency db' = db_idempotency db @ new \<Longrightarrow> recorded c db'"
  by (auto simp: recorded_iff)

text \<open>A history of the writer: environments and commands one after the other.\<close>

type_synonym 'd envelope_run = "(nat \<Rightarrow> bool) \<times> int \<times> int \<times> 'd write_command"

fun actor_history :: "(ustr \<Rightarrow> bool) \<Rightarrow> 'd envelope_run list \<Rightarrow> 'd database \<Rightarrow> 'd database" where
  "actor_history ts [] db = db"
| "actor_history ts ((busy, wait, ms, c) # es) db =
     actor_history ts es (snd (snd (execute_envelope ts busy wait ms c db)))"

lemma history_extends: "\<exists>new. db_idempotency (actor_history ts es db) = db_idempotency db @ new"
proof (induction es arbitrary: db)
  case (Cons e es)
  obtain busy wait ms c where e: "e = (busy, wait, ms, c)" by (cases e)
  obtain r n db1 where x: "execute_envelope ts busy wait ms c db = (r, n, db1)"
    by (cases "execute_envelope ts busy wait ms c db")
  from envelope_extends [OF x] Cons.IH [of db1] show ?case by (auto simp: e x)
qed simp

lemma run_records:
  assumes "run_command ts busy c db = (Inr res, n, db')" "effective_key c \<noteq> None" "key_free c db"
  shows "recorded c db'"
proof (cases "idempotency_lookup c db")
  case None
  with assms(1) obtain d' where "record_idempotency ts c res (db\<lparr>db_rest := d'\<rparr>) = (Inr (), db')"
    by (auto simp: run_command_def split: prod.splits sum.splits)
  from record_records [OF this assms(2)] assms(3) show ?thesis by (simp add: key_free_def)
next
  case (Some cached)
  with assms(1) have "db' = db" by (auto simp: run_command_def split: option.splits)
  with Some show ?thesis by (simp add: recorded_def)
qed

text \<open>A recorded command touches nothing.\<close>

lemma run_recorded:
  "recorded c db \<Longrightarrow> run_command ts busy c db = (r, n, db') \<Longrightarrow>
     db' = db \<and> (\<forall>res. r = Inr res \<longrightarrow> wr_idempotent_replay res)"
  by (auto simp: recorded_def run_command_def idempotency_lookup_def map_sum_def
      split: option.splits sum.splits)

lemma same_key_recorded:
  "effective_key c = effective_key c' \<Longrightarrow> wc_type c = wc_type c' \<Longrightarrow> recorded c db \<Longrightarrow> recorded c' db"
  by (simp add: recorded_iff)

text \<open>A command that adds one to a counter and answers with an empty object.\<close>

definition tick :: "string \<Rightarrow> string option \<Rightarrow> int \<Rightarrow> nat write_command" where
  "tick ty key priority = function_command ty (\<lambda>n. (Inr (JObj []), Suc n)) key None None priority 1 30000 True"

definition empty_database :: "nat database" where
  "empty_database = \<lparr>db_idempotency = [], db_rest = 0\<rparr>"

lemmas actor_eval = tick_def function_command_def empty_database_def run_command_def execute_envelope_def
  idempotency_lookup_def effective_key_def record_idempotency_def MAX_BUSY_ATTEMPTS_def numeral_eq_Suc
  validate_ijson_value_def key_free_def recorded_def DEFAULT_MAX_WRITE_WEIGHT_def
  command_estimated_write_weight_def command_max_transaction_ms_def loaded_result_def

text \<open>
  Property C33 (command_applied_once): once a command with an idempotency key has been executed on a
  database where that key is not already recorded under another command type, even if the caller
  was told that it exceeded its time budget, no later command of the same key and type changes the
  database, whatever other commands ran in between; a result it returns is marked as a replay.  The
  condition on the key is needed: \<open>key_of_other_type_reexecutes\<close> below is the case where it fails.
\<close>

theorem command_applied_once:
  assumes "run_command ts busy c db = (Inr res, n, db1)"
    and "effective_key c \<noteq> None" "key_free c db"
    and "effective_key c' = effective_key c" "wc_type c' = wc_type c"
    and "execute_envelope ts busy' wait ms c' (actor_history ts es db1) = (r, n', db2)"
  shows "db2 = actor_history ts es db1 \<and> (\<forall>res'. r = Inr res' \<longrightarrow> wr_idempotent_replay res')"
proof -
  let ?db = "actor_history ts es db1"
  from history_extends [of ts es db1] obtain new where "db_idempotency ?db = db_idempotency db1 @ new" by blast
  from recorded_mono [OF run_records [OF assms(1-3)] this] have "recorded c ?db" .
  with assms(4,5) have rec: "recorded c' ?db" by (metis same_key_recorded)
  obtain q k db3 where q: "run_command ts busy' c' ?db = (q, k, db3)" by (cases "run_command ts busy' c' ?db")
  from run_recorded [OF rec q] have "db3 = ?db" "\<forall>res. q = Inr res \<longrightarrow> wr_idempotent_replay res" by auto
  with q assms(6) show ?thesis by (auto simp: execute_envelope_def split: if_splits sum.splits)
qed

theorem command_applied_once_witness:
  "\<exists>res db1 db2. run_command (\<lambda>_. True) (\<lambda>n. n = 0) (tick ''inc'' (Some ''k'') 50) empty_database = (Inr res, 1, db1) \<and>
     db_rest db1 = 1 \<and>
     db2 = snd (snd (execute_envelope (\<lambda>_. True) (\<lambda>_. False) 3 4 (tick ''inc'' (Some ''k'') 50)
       (actor_history (\<lambda>_. True) [(\<lambda>_. False, 0, 1, tick ''other'' None 50)] db1))) \<and> db_rest db2 = 2"
proof -
  let ?ts = "\<lambda>_::ustr. True" and ?c = "tick ''inc'' (Some ''k'') 50" and ?es = "[(\<lambda>_::nat. False, 0, 1, tick ''other'' None 50)]"
  obtain res db1 where 1: "run_command ?ts (\<lambda>n. n = 0) ?c empty_database = (Inr res, 1, db1)" "db_rest db1 = 1"
    by (simp add: actor_eval)
  obtain r n db2 where 2: "execute_envelope ?ts (\<lambda>_. False) 3 4 ?c (actor_history ?ts ?es db1) = (r, n, db2)"
    by (cases "execute_envelope ?ts (\<lambda>_. False) 3 4 ?c (actor_history ?ts ?es db1)")
  have "effective_key ?c \<noteq> None" "key_free ?c empty_database" by (simp_all add: actor_eval)
  from command_applied_once [OF 1(1) this refl refl 2]
  have "db2 = actor_history ?ts ?es db1" by blast
  moreover have "db_rest (actor_history ?ts ?es db1) = 2" using 1(2) by (simp add: actor_eval)
  ultimately show ?thesis using 1 2 by (metis snd_conv)
qed

text \<open>
  Also proved (key_of_other_type_reexecutes): a key already recorded under another command type
  protects nothing: the record of the new command is ignored, and the same command runs again.
\<close>

theorem key_of_other_type_reexecutes:
  assumes "r \<in> set (db_idempotency db)" "effective_key c = Some (ir_key r)" "\<not> recorded c db"
    and "run_command ts (\<lambda>_. False) c db = (Inr res, n, db1)"
    and "run_command ts (\<lambda>_. False) c db1 = (Inr res', n', db2)"
  shows "db_idempotency db2 = db_idempotency db \<and> db_rest db1 = snd (wc_execute c (db_rest db)) \<and>
    db_rest db2 = snd (wc_execute c (snd (wc_execute c (db_rest db))))"
proof -
  have once: "db_idempotency y = db_idempotency x \<and> db_rest y = snd (wc_execute c (db_rest x))"
    if x: "r \<in> set (db_idempotency x)" "\<not> recorded c x" "run_command ts (\<lambda>_. False) c x = (Inr q, k, y)" for x y q k
  proof -
    from x(2) have none: "idempotency_lookup c x = None" by (simp add: recorded_def)
    obtain e d where ex: "wc_execute c (db_rest x) = (e, d)" by (cases "wc_execute c (db_rest x)")
    have "execute_with_busy_retry (\<lambda>_. False) c 0 MAX_BUSY_ATTEMPTS (db_rest x) = (map_sum id (\<lambda>v. (v, 0)) e, d)"
      by (simp add: MAX_BUSY_ATTEMPTS_def numeral_eq_Suc ex)
    with x(3) none obtain res where "e = Inr res" "record_idempotency ts c res (x\<lparr>db_rest := d\<rparr>) = (Inr (), y)"
      by (cases e) (auto simp: run_command_def split: prod.splits sum.splits)
    with x(1) assms(2) have "y = x\<lparr>db_rest := d\<rparr>"
      by (auto simp: record_idempotency_def list_ex_iff split: sum.splits if_splits)
    with ex show ?thesis by simp
  qed
  from once [OF assms(1,3,4)] have 1: "db_idempotency db1 = db_idempotency db"
    "db_rest db1 = snd (wc_execute c (db_rest db))" by blast+
  from once [of db1] assms(1,3,5) 1 show ?thesis by (simp add: recorded_iff)
qed

theorem key_of_other_type_reexecutes_witness:
  "\<exists>db1 db2 n res res'. run_command (\<lambda>_. True) (\<lambda>_. False) (tick ''b'' (Some ''k'') 50)
      (snd (snd (run_command (\<lambda>_. True) (\<lambda>_. False) (tick ''a'' (Some ''k'') 50) empty_database))) = (Inr res, n, db1) \<and>
     run_command (\<lambda>_. True) (\<lambda>_. False) (tick ''b'' (Some ''k'') 50) db1 = (Inr res', n, db2) \<and> db_rest db2 = 3"
proof -
  let ?ts = "\<lambda>_::ustr. True" and ?c = "tick ''b'' (Some ''k'') 50"
  define db where "db = snd (snd (run_command ?ts (\<lambda>_. False) (tick ''a'' (Some ''k'') 50) empty_database))"
  obtain r where r: "db_idempotency db = [r]" "ir_key r = ''k''" "ir_command_type r = ''a''" and rest: "db_rest db = 1"
    by (simp add: db_def actor_eval)
  have c: "effective_key ?c = Some (ir_key r)" "wc_type ?c = ''b''" "snd (wc_execute ?c n) = Suc n" for n
    by (simp_all add: actor_eval r)
  obtain res db1 where 1: "run_command ?ts (\<lambda>_. False) ?c db = (Inr res, 0, db1)"
    by (simp add: actor_eval r(1) r(2) r(3) [unfolded numeral_eq_Suc])
  then have i: "db_idempotency db1 = [r]" by (auto simp: actor_eval r)
  obtain res' db2 where 2: "run_command ?ts (\<lambda>_. False) ?c db1 = (Inr res', 0, db2)"
    by (simp add: actor_eval i r)
  have "\<not> recorded ?c db" by (simp add: recorded_iff r c)
  from key_of_other_type_reexecutes [OF _ c(1) this 1 2] have "db_rest db2 = 3" by (simp add: r(1) c rest)
  with 1 2 show ?thesis unfolding db_def by blast
qed

section \<open>The actor and its callers\<close>

record 'd envelope =
  en_command :: "'d write_command"
  en_submitted_at :: int
  en_priority :: int
  en_sequence :: nat

text \<open>A queued entry: sort priority, sequence, and no envelope for a request to stop.\<close>

type_synonym 'd entry = "int \<times> nat \<times> 'd envelope option"

datatype 'd actor_pc = Waiting | Got "'d envelope" | Running "'d envelope" | Stopped

record actor_metrics =
  wm_queue_depth :: nat
  wm_submitted_count :: nat
  wm_completed_count :: nat
  wm_error_count :: nat
  wm_sqlite_busy_count :: nat
  wm_last_command_type :: "string option"
  wm_last_queue_wait_ms :: int
  wm_last_transaction_ms :: int
  wm_max_queue_depth_seen :: nat
  wm_depth_by_priority :: "(int \<times> int) list"
  wm_oldest_age_ms :: int
  wm_p50_wait :: int
  wm_p95_wait :: int
  wm_p50_transaction :: int
  wm_p95_transaction :: int
  wm_import_state :: string

record 'd actor =
  wa_queue :: "'d entry list"
  wa_sequence :: nat
  wa_compat_sequence :: nat
  wa_putting :: "'d envelope list"       \<comment> \<open>callers between \<open>_next_sequence\<close> and \<open>_queue.put\<close>\<close>
  wa_unaccounted :: "'d envelope list"   \<comment> \<open>callers between \<open>_queue.put\<close> and the accounting\<close>
  wa_pc :: "'d actor_pc"
  wa_priorities :: "(int, int) dict"
  wa_submitted_at :: "(nat, int) dict"
  wa_waits :: "int list"
  wa_transactions :: "int list"
  wa_metrics :: actor_metrics
  wa_db :: "'d database"
  wa_responses :: "(nat \<times> (actor_error, write_result) result) list"

definition new_metrics :: actor_metrics where
  "new_metrics = \<lparr>wm_queue_depth = 0, wm_submitted_count = 0, wm_completed_count = 0, wm_error_count = 0,
     wm_sqlite_busy_count = 0, wm_last_command_type = None, wm_last_queue_wait_ms = 0,
     wm_last_transaction_ms = 0, wm_max_queue_depth_seen = 0, wm_depth_by_priority = [],
     wm_oldest_age_ms = 0, wm_p50_wait = 0, wm_p95_wait = 0, wm_p50_transaction = 0,
     wm_p95_transaction = 0, wm_import_state = ''idle''\<rparr>"

definition new_actor :: "'d database \<Rightarrow> 'd actor" where
  "new_actor db = \<lparr>wa_queue = [], wa_sequence = 0, wa_compat_sequence = 0, wa_putting = [],
     wa_unaccounted = [], wa_pc = Waiting, wa_priorities = [], wa_submitted_at = [], wa_waits = [],
     wa_transactions = [], wa_metrics = new_metrics, wa_db = db, wa_responses = []\<rparr>"

definition refresh_sample_metrics :: "'d actor \<Rightarrow> 'd actor" where
  "refresh_sample_metrics a = a\<lparr>wa_metrics := (wa_metrics a)\<lparr>
     wm_p50_wait := percentile (wa_waits a) 50, wm_p95_wait := percentile (wa_waits a) 95,
     wm_p50_transaction := percentile (wa_transactions a) 50,
     wm_p95_transaction := percentile (wa_transactions a) 95\<rparr>\<rparr>"

text \<open>\<open>ms\<close> converts a difference of clock readings to milliseconds, as in the scheduler.\<close>

definition refresh_queue_metrics :: "(int \<Rightarrow> int) \<Rightarrow> int \<Rightarrow> 'd actor \<Rightarrow> 'd actor" where
  "refresh_queue_metrics ms now a = (let depth = length (wa_queue a) in
     refresh_sample_metrics (a\<lparr>wa_metrics := (wa_metrics a)\<lparr>
       wm_queue_depth := depth,
       wm_max_queue_depth_seen := max (wm_max_queue_depth_seen (wa_metrics a)) depth,
       wm_depth_by_priority := sort_key fst (wa_priorities a),
       wm_oldest_age_ms := (case min_key id (map snd (wa_submitted_at a)) of
          None \<Rightarrow> 0 | Some t \<Rightarrow> ms (now - t)),
       wm_import_state := (if list_ex (\<lambda>e. fst e \<le> 40) (wa_priorities a) then ''import_queued''
          else if 100 \<le> depth then ''queue_pressure'' else ''idle'')\<rparr>\<rparr>))"

definition counter_get :: "int \<Rightarrow> (int, int) dict \<Rightarrow> int" where
  "counter_get p d = (case dict_get d p of None \<Rightarrow> 0 | Some n \<Rightarrow> n)"

definition priority_of_entry :: "'d entry \<Rightarrow> int \<times> nat" where
  "priority_of_entry e = (fst e, fst (snd e))"

text \<open>\<open>PriorityQueue.get\<close> hands out the least entry by sort priority and sequence.\<close>

fun remove_first :: "('a \<Rightarrow> bool) \<Rightarrow> 'a list \<Rightarrow> 'a list" where
  "remove_first P [] = []"
| "remove_first P (x # xs) = (if P x then xs else x # remove_first P xs)"

definition queue_get :: "'d entry list \<Rightarrow> ('d entry \<times> 'd entry list) option" where
  "queue_get q = map_option (\<lambda>e. (e, remove_first (\<lambda>x. priority_of_entry x = priority_of_entry e) q))
     (min_key priority_of_entry q)"

text \<open>
  One critical section of one thread.  \<open>submit_sync\<close> is \<open>Start\<close> (\<open>start_sync\<close>: a dead thread is
  replaced, a live one is kept), \<open>Allocate\<close>, \<open>Put\<close> and \<open>Account\<close>; the loop of the actor is \<open>Take\<close>, \<open>Unaccount\<close> and \<open>Execute\<close>; \<open>Stop\<close> is \<open>stop_sync\<close> and \<open>PutNone\<close> the queue's
  treatment of a bare \<open>None\<close>.  A section that is not at its turn changes nothing.
\<close>

datatype 'd actor_op =
    Allocate "'d write_command" int | Put nat | Account nat int | Stop | PutNone
  | Take | Unaccount int | Execute "nat \<Rightarrow> bool" int int int | Start

definition account :: "(int \<Rightarrow> int) \<Rightarrow> int \<Rightarrow> 'd envelope \<Rightarrow> 'd actor \<Rightarrow> 'd actor" where
  "account ms now e a = refresh_queue_metrics ms now (a\<lparr>
     wa_unaccounted := filter (\<lambda>x. en_sequence x \<noteq> en_sequence e) (wa_unaccounted a),
     wa_priorities := dict_set (en_priority e) (counter_get (en_priority e) (wa_priorities a) + 1) (wa_priorities a),
     wa_submitted_at := dict_set (en_sequence e) (en_submitted_at e) (wa_submitted_at a),
     wa_metrics := (wa_metrics a)\<lparr>wm_submitted_count := Suc (wm_submitted_count (wa_metrics a))\<rparr>\<rparr>)"

definition unaccount :: "(int \<Rightarrow> int) \<Rightarrow> int \<Rightarrow> 'd envelope \<Rightarrow> 'd actor \<Rightarrow> 'd actor" where
  "unaccount ms now e a =
     (let n = counter_get (en_priority e) (wa_priorities a) - 1;
          ps = (if n \<le> 0 then dict_pop (en_priority e) (wa_priorities a)
                else dict_set (en_priority e) n (wa_priorities a)) in
      refresh_queue_metrics ms now (a\<lparr>wa_pc := Running e, wa_priorities := ps,
        wa_submitted_at := dict_pop (en_sequence e) (wa_submitted_at a)\<rparr>))"

definition execute_and_respond ::
  "(ustr \<Rightarrow> bool) \<Rightarrow> (int \<Rightarrow> int) \<Rightarrow> (nat \<Rightarrow> bool) \<Rightarrow> int \<Rightarrow> int \<Rightarrow> int \<Rightarrow> 'd envelope \<Rightarrow> 'd actor \<Rightarrow> 'd actor" where
  "execute_and_respond ts_ok ms busy wait tx now e a =
     (case execute_envelope ts_ok busy wait tx (en_command e) (wa_db a) of
        (r, retries, db) \<Rightarrow>
          (let a1 = a\<lparr>wa_db := db, wa_pc := Waiting, wa_responses := wa_responses a @ [(en_sequence e, r)],
                 wa_metrics := (wa_metrics a)\<lparr>wm_sqlite_busy_count := wm_sqlite_busy_count (wa_metrics a) + retries\<rparr>\<rparr>;
               a2 = (case r of
                   Inl _ \<Rightarrow> a1\<lparr>wa_metrics := (wa_metrics a1)\<lparr>wm_error_count := Suc (wm_error_count (wa_metrics a1))\<rparr>\<rparr>
                 | Inr _ \<Rightarrow> refresh_sample_metrics (a1\<lparr>
                     wa_waits := record_wait wait (wa_waits a1), wa_transactions := record_wait tx (wa_transactions a1),
                     wa_metrics := (wa_metrics a1)\<lparr>
                       wm_completed_count := Suc (wm_completed_count (wa_metrics a1)),
                       wm_last_command_type := Some (wc_type (en_command e)),
                       wm_last_queue_wait_ms := wait, wm_last_transaction_ms := tx\<rparr>\<rparr>))
           in refresh_queue_metrics ms now a2))"

fun actor_step :: "(ustr \<Rightarrow> bool) \<Rightarrow> (int \<Rightarrow> int) \<Rightarrow> 'd actor_op \<Rightarrow> 'd actor \<Rightarrow> 'd actor" where
  "actor_step ts_ok ms (Allocate c now) a =
     (let n = Suc (wa_sequence a) in
      a\<lparr>wa_sequence := n, wa_putting := wa_putting a @
        [\<lparr>en_command = c, en_submitted_at = now, en_priority = command_priority c, en_sequence = n\<rparr>]\<rparr>)"
| "actor_step ts_ok ms (Put n) a =
     (case List.find (\<lambda>e. en_sequence e = n) (wa_putting a) of None \<Rightarrow> a
      | Some e \<Rightarrow> a\<lparr>wa_putting := filter (\<lambda>x. en_sequence x \<noteq> n) (wa_putting a),
          wa_queue := wa_queue a @ [(- en_priority e, n, Some e)], wa_unaccounted := wa_unaccounted a @ [e]\<rparr>)"
| "actor_step ts_ok ms (Account n now) a =
     (case List.find (\<lambda>e. en_sequence e = n) (wa_unaccounted a) of None \<Rightarrow> a | Some e \<Rightarrow> account ms now e a)"
| "actor_step ts_ok ms Stop a =
     (let n = Suc (wa_sequence a) in a\<lparr>wa_sequence := n, wa_queue := wa_queue a @ [(10000, n, None)]\<rparr>)"
| "actor_step ts_ok ms PutNone a =
     (let n = Suc (wa_compat_sequence a) in
      a\<lparr>wa_compat_sequence := n, wa_queue := wa_queue a @ [(9000, n, None)]\<rparr>)"
| "actor_step ts_ok ms Take a =
     (case wa_pc a of
        Waiting \<Rightarrow>
          (case queue_get (wa_queue a) of None \<Rightarrow> a
           | Some (e, q) \<Rightarrow> a\<lparr>wa_queue := q,
               wa_pc := (case snd (snd e) of None \<Rightarrow> Stopped | Some env \<Rightarrow> Got env)\<rparr>)
      | _ \<Rightarrow> a)"
| "actor_step ts_ok ms (Unaccount now) a = (case wa_pc a of Got e \<Rightarrow> unaccount ms now e a | _ \<Rightarrow> a)"
| "actor_step ts_ok ms (Execute busy wait tx now) a =
     (case wa_pc a of Running e \<Rightarrow> execute_and_respond ts_ok ms busy wait tx now e a | _ \<Rightarrow> a)"
| "actor_step ts_ok ms Start a = (case wa_pc a of Stopped \<Rightarrow> a\<lparr>wa_pc := Waiting\<rparr> | _ \<Rightarrow> a)"

definition actor_run :: "(ustr \<Rightarrow> bool) \<Rightarrow> (int \<Rightarrow> int) \<Rightarrow> 'd actor_op list \<Rightarrow> 'd actor \<Rightarrow> 'd actor" where
  "actor_run ts_ok ms ops a = fold (actor_step ts_ok ms) ops a"

lemma refresh_metrics_frame [frame_simps]:
  "wa_queue (refresh_queue_metrics ms now a) = wa_queue a" "wa_sequence (refresh_queue_metrics ms now a) = wa_sequence a"
  "wa_putting (refresh_queue_metrics ms now a) = wa_putting a" "wa_pc (refresh_queue_metrics ms now a) = wa_pc a"
  "wa_unaccounted (refresh_queue_metrics ms now a) = wa_unaccounted a"
  "wa_priorities (refresh_queue_metrics ms now a) = wa_priorities a"
  "wa_responses (refresh_queue_metrics ms now a) = wa_responses a" "wa_db (refresh_queue_metrics ms now a) = wa_db a"
  "wa_queue (refresh_sample_metrics a) = wa_queue a" "wa_sequence (refresh_sample_metrics a) = wa_sequence a"
  "wa_putting (refresh_sample_metrics a) = wa_putting a" "wa_pc (refresh_sample_metrics a) = wa_pc a"
  "wa_unaccounted (refresh_sample_metrics a) = wa_unaccounted a"
  "wa_priorities (refresh_sample_metrics a) = wa_priorities a"
  "wa_responses (refresh_sample_metrics a) = wa_responses a" "wa_db (refresh_sample_metrics a) = wa_db a"
  by (simp_all add: refresh_queue_metrics_def refresh_sample_metrics_def Let_def)

section \<open>The threads refine a serial writer\<close>

text \<open>
  The abstract writer executes one command after the other.  \<open>submissions\<close> numbers the commands
  handed in; what has been handed in and not answered is with a caller, in the queue or running.
\<close>

type_synonym 'd executed = "nat \<times> 'd envelope_run"

fun serial ::
  "(ustr \<Rightarrow> bool) \<Rightarrow> 'd executed list \<Rightarrow> 'd database \<Rightarrow> (nat \<times> (actor_error, write_result) result) list \<times> 'd database" where
  "serial ts [] db = ([], db)"
| "serial ts ((n, busy, wait, tx, c) # es) db =
     (case execute_envelope ts busy wait tx c db of
        (r, _, db') \<Rightarrow> (case serial ts es db' of (rs, d) \<Rightarrow> ((n, r) # rs, d)))"

fun submissions :: "nat \<Rightarrow> 'd actor_op list \<Rightarrow> (nat \<times> 'd write_command) list" where
  "submissions n [] = []"
| "submissions n (Allocate c now # ops) = (Suc n, c) # submissions (Suc n) ops"
| "submissions n (Stop # ops) = submissions (Suc n) ops"
| "submissions n (_ # ops) = submissions n ops"

definition queued :: "'d entry list \<Rightarrow> 'd envelope list" where
  "queued q = List.map_filter (\<lambda>e. snd (snd e)) q"

fun running :: "'d actor_pc \<Rightarrow> 'd envelope list" where
  "running (Got e) = [e]"
| "running (Running e) = [e]"
| "running _ = []"

definition outstanding :: "'d actor \<Rightarrow> 'd envelope multiset" where
  "outstanding a = mset (wa_putting a) + mset (queued (wa_queue a)) + mset (running (wa_pc a))"

definition label :: "'d envelope \<Rightarrow> nat \<times> 'd write_command" where
  "label e = (en_sequence e, en_command e)"

definition executed_label :: "'d executed \<Rightarrow> nat \<times> 'd write_command" where
  "executed_label x = (case x of (n, _, _, _, c) \<Rightarrow> (n, c))"

lemma serial_append:
  "serial ts (es @ es') db = (case serial ts es db of (rs, d) \<Rightarrow> (case serial ts es' d of (rs', d') \<Rightarrow> (rs @ rs', d')))"
  by (induction ts es db rule: serial.induct) (simp_all split: prod.split)

lemma min_key_first: "min_key f q = Some e \<Longrightarrow> \<exists>xs ys. q = xs @ e # ys \<and> (\<forall>x \<in> set xs. f x \<noteq> f e)"
proof (induction q arbitrary: e)
  case (Cons x q)
  show ?case
  proof (cases "min_key f q")
    case None
    with Cons.prems show ?thesis by (intro exI [of _ "[]"]) auto
  next
    case (Some y)
    show ?thesis
    proof (cases "f y < f x")
      case True
      with Cons.prems Some have "e = y" by simp
      with Cons.IH [OF Some] obtain xs ys where "q = xs @ e # ys" "\<forall>z \<in> set xs. f z \<noteq> f e" by blast
      with True \<open>e = y\<close> show ?thesis by (intro exI [of _ "x # xs"] exI [of _ ys]) auto
    next
      case False
      with Cons.prems Some show ?thesis by (intro exI [of _ "[]"] exI [of _ q]) auto
    qed
  qed
qed simp

lemma remove_first_middle: "\<forall>x \<in> set xs. \<not> P x \<Longrightarrow> P e \<Longrightarrow> remove_first P (xs @ e # ys) = xs @ ys"
  by (induction xs) auto

lemma queue_get_mset: "queue_get q = Some (e, q') \<Longrightarrow> mset q = add_mset e (mset q')"
  using min_key_first [of priority_of_entry q e]
  by (auto simp: queue_get_def remove_first_middle)

lemma queued_mset: "mset (queued q) = image_mset the (filter_mset (\<lambda>x. x \<noteq> None) (image_mset (\<lambda>e. snd (snd e)) (mset q)))"
  by (induction q) (auto simp: queued_def List.map_filter_simps split: option.split)

text \<open>The refinement relation, for the operations \<open>ops\<close> so far.\<close>

definition refines ::
  "(ustr \<Rightarrow> bool) \<Rightarrow> 'd database \<Rightarrow> nat \<Rightarrow> (nat \<times> 'd write_command) multiset \<Rightarrow> 'd executed list \<Rightarrow> 'd actor \<Rightarrow> bool" where
  "refines ts db n subs es a \<longleftrightarrow> wa_sequence a = n \<and> serial ts es db = (wa_responses a, wa_db a) \<and>
     subs = mset (map executed_label es) + image_mset label (outstanding a) \<and>
     distinct (map en_sequence (wa_putting a)) \<and> (\<forall>e \<in> set (wa_putting a). en_sequence e \<le> n)"

lemma find_filter_mset:
  assumes "List.find (\<lambda>e. f e = n) xs = Some x" "distinct (map f xs)"
  shows "mset xs = add_mset x (mset (filter (\<lambda>y. f y \<noteq> n) xs)) \<and> f x = n"
  using assms
proof (induction xs)
  case (Cons y ys)
  show ?case
  proof (cases "f y = n")
    case True
    with Cons.prems have "filter (\<lambda>y. f y \<noteq> n) ys = ys" by (intro filter_True) (auto simp: image_iff)
    with True Cons.prems show ?thesis by simp
  qed (use Cons in auto)
qed simp

lemma queued_append: "queued (q @ [e]) = queued q @ (case snd (snd e) of None \<Rightarrow> [] | Some x \<Rightarrow> [x])"
  by (simp add: queued_def List.map_filter_def split: option.split)

lemma queued_get:
  assumes "queue_get q = Some (e, q')"
  shows "mset (queued q) = mset (queued q') + (case snd (snd e) of None \<Rightarrow> {#} | Some x \<Rightarrow> {#x#})"
  using queue_get_mset [OF assms] by (simp add: queued_mset split: option.split)

fun sequence_after :: "nat \<Rightarrow> 'd actor_op \<Rightarrow> nat" where
  "sequence_after n (Allocate c now) = Suc n"
| "sequence_after n Stop = Suc n"
| "sequence_after n _ = n"

lemma submissions_Cons: "submissions n (p # ops) = submissions n [p] @ submissions (sequence_after n p) ops"
  by (cases p) simp_all

lemma step_refines:
  assumes "refines ts db n subs es a"
  shows "\<exists>es'. refines ts db (sequence_after n p) (subs + mset (submissions n [p])) es' (actor_step ts ms p a)"
proof -
  note r = assms [unfolded refines_def]
  have same: "refines ts db n subs es a'" if "wa_sequence a' = wa_sequence a" "wa_responses a' = wa_responses a"
    "wa_db a' = wa_db a" "wa_putting a' = wa_putting a" "outstanding a' = outstanding a" for a'
    using r that by (simp add: refines_def)
  show ?thesis
  proof (cases p)
    case (Allocate c now)
    with r show ?thesis
      by (intro exI [of _ es]) (auto simp: refines_def outstanding_def label_def Let_def)
  next
    case (Put k)
    show ?thesis
    proof (cases "List.find (\<lambda>e. en_sequence e = k) (wa_putting a)")
      case None
      with same [of a] Put show ?thesis by auto
    next
      case (Some e)
      from find_filter_mset [OF Some] r have m: "mset (wa_putting a) = add_mset e (mset (filter (\<lambda>x. en_sequence x \<noteq> k) (wa_putting a)))"
        by blast
      have d: "distinct (map en_sequence (filter P (wa_putting a)))" for P
        using r by (simp add: distinct_map inj_on_def)
      have a': "actor_step ts ms p a = a\<lparr>wa_putting := filter (\<lambda>x. en_sequence x \<noteq> k) (wa_putting a),
          wa_queue := wa_queue a @ [(- en_priority e, k, Some e)], wa_unaccounted := wa_unaccounted a @ [e]\<rparr>"
        by (simp add: Put Some)
      have "outstanding (actor_step ts ms p a) = outstanding a"
        by (simp add: a' outstanding_def queued_append m del: mset_filter)
      with r d have "refines ts db n subs es (actor_step ts ms p a)"
        unfolding refines_def by (simp add: a')
      with Put show ?thesis by auto
    qed
  next
    case (Account k now)
    have "refines ts db n subs es (actor_step ts ms p a)"
      by (rule same) (simp_all add: Account account_def outstanding_def frame_simps split: option.split)
    with Account show ?thesis by auto
  next
    case Stop
    with r show ?thesis
      by (intro exI [of _ es]) (auto simp: refines_def outstanding_def queued_append Let_def)
  next
    case PutNone
    have "refines ts db n subs es (actor_step ts ms p a)"
      by (rule same) (simp_all add: PutNone outstanding_def queued_append Let_def)
    with PutNone show ?thesis by auto
  next
    case Take
    have "refines ts db n subs es (actor_step ts ms p a)"
      by (rule same) (auto simp: Take outstanding_def dest: queued_get split: actor_pc.split option.split)
    with Take show ?thesis by auto
  next
    case (Unaccount now)
    have "refines ts db n subs es (actor_step ts ms p a)"
      by (rule same) (auto simp: Unaccount unaccount_def outstanding_def frame_simps Let_def split: actor_pc.split)
    with Unaccount show ?thesis by auto
  next
    case (Execute busy wait tx now)
    show ?thesis
    proof (cases "wa_pc a")
      case (Running e)
      obtain res retries db' where x: "execute_envelope ts busy wait tx (en_command e) (wa_db a) = (res, retries, db')"
        by (cases "execute_envelope ts busy wait tx (en_command e) (wa_db a)")
      let ?es = "es @ [(en_sequence e, busy, wait, tx, en_command e)]"
      have "refines ts db n subs ?es (actor_step ts ms p a)"
        using r x Execute Running
        by (auto simp: refines_def serial_append execute_and_respond_def outstanding_def frame_simps Let_def
            executed_label_def label_def split: sum.split)
      with Execute show ?thesis by auto
    qed (use same [of a] Execute in auto)
  next
    case Start
    have "refines ts db n subs es (actor_step ts ms p a)"
      by (rule same) (auto simp: Start outstanding_def split: actor_pc.split)
    with Start show ?thesis by auto
  qed
qed

lemma run_refines:
  "refines ts db n subs es a \<Longrightarrow>
     \<exists>n' es'. refines ts db n' (subs + mset (submissions n ops)) es' (actor_run ts ms ops a)"
proof (induction ops arbitrary: n subs es a)
  case Nil
  then show ?case by (auto simp: actor_run_def)
next
  case (Cons p ops)
  from step_refines [OF Cons.prems, of p ms] obtain es' where
    "refines ts db (sequence_after n p) (subs + mset (submissions n [p])) es' (actor_step ts ms p a)" by blast
  from Cons.IH [OF this] show ?case by (simp add: actor_run_def submissions_Cons [of n p ops] add.assoc)
qed

lemma submissions_distinct: "distinct (map fst (submissions n ops)) \<and> (\<forall>x \<in> set (submissions n ops). n < fst x)"
  by (induction n ops rule: submissions.induct) (force simp: Suc_lessD)+

text \<open>
  Property C36 (actor_refines_serial_writer): whatever the callers, the stops and the actor do in
  whatever order, the database and the answers are those of a serial writer that executes some of
  the submitted commands one after the other; each submitted command is either answered, exactly
  once and under its own number, or still with its caller, in the queue or running.
\<close>

theorem actor_refines_serial_writer:
  "\<exists>es. serial ts es db = (wa_responses (actor_run ts ms ops (new_actor db)), wa_db (actor_run ts ms ops (new_actor db))) \<and>
     mset (submissions 0 ops) =
       mset (map executed_label es) + image_mset label (outstanding (actor_run ts ms ops (new_actor db))) \<and>
     distinct (map fst (submissions 0 ops)) \<and> map fst es = map fst (wa_responses (actor_run ts ms ops (new_actor db)))"
proof -
  have "refines ts db 0 {#} [] (new_actor db)"
    by (simp add: refines_def new_actor_def outstanding_def queued_def List.map_filter_simps)
  from run_refines [OF this, of ops ms] obtain n es where
    r: "refines ts db n (mset (submissions 0 ops)) es (actor_run ts ms ops (new_actor db))" by auto
  have "map fst (fst (serial ts es db)) = map fst es" for es :: "'a executed list" and db
    by (induction es arbitrary: db) (auto simp: case_prod_beta)
  from this [of es db] r submissions_distinct [of 0 ops] show ?thesis
    by (intro exI [of _ es]) (simp add: refines_def)
qed

text \<open>
  Also proved (accounting_race): the caller accounts for a command after it has put it on the
  queue.  If the actor takes, executes and answers it in between, the accounting is never undone:
  with nothing queued, running or pending the counter still says one command, and for an import
  command the actor reports import backpressure.
\<close>

theorem accounting_race:
  "let a = actor_run ts ms [Allocate c t, Put 1, Take, Unaccount t1, Execute busy wait tx t2, Account 1 t3] (new_actor db) in
     wa_queue a = [] \<and> wa_putting a = [] \<and> wa_unaccounted a = [] \<and> wa_pc a = Waiting \<and>
     length (wa_responses a) = 1 \<and> wa_priorities a = [(command_priority c, 1)] \<and>
     (command_priority c \<le> 40 \<longrightarrow> wm_import_state (wa_metrics a) = ''import_queued'')"
proof -
  define e where "e = \<lparr>en_command = c, en_submitted_at = t, en_priority = command_priority c, en_sequence = 1\<rparr>"
  define s1 where "s1 = actor_run ts ms [Allocate c t, Put 1, Take] (new_actor db)"
  have s1: "wa_queue s1 = []" "wa_putting s1 = []" "wa_unaccounted s1 = [e]" "wa_pc s1 = Got e"
    "wa_responses s1 = []" "wa_priorities s1 = []"
    by (simp_all add: s1_def e_def actor_run_def new_actor_def queue_get_def priority_of_entry_def)
  define s2 where "s2 = actor_step ts ms (Unaccount t1) s1"
  have s2: "wa_queue s2 = []" "wa_putting s2 = []" "wa_unaccounted s2 = [e]" "wa_pc s2 = Running e"
    "wa_responses s2 = []" "wa_priorities s2 = []"
    by (simp_all add: s2_def s1 unaccount_def Let_def counter_get_def dict_pop_def frame_simps)
  define s3 where "s3 = actor_step ts ms (Execute busy wait tx t2) s2"
  have s3: "wa_queue s3 = []" "wa_putting s3 = []" "wa_unaccounted s3 = [e]" "wa_pc s3 = Waiting"
    "length (wa_responses s3) = 1" "wa_priorities s3 = []"
    by (simp_all add: s3_def s2 execute_and_respond_def Let_def frame_simps split: prod.split sum.split)
  have e: "en_sequence e = 1" "en_priority e = command_priority c" by (simp_all add: e_def)
  have "actor_run ts ms [Allocate c t, Put 1, Take, Unaccount t1, Execute busy wait tx t2, Account 1 t3] (new_actor db) =
      actor_step ts ms (Account 1 t3) s3"
    by (simp only: actor_run_def s1_def s2_def s3_def fold_simps comp_apply id_apply)
  also have "\<dots> = account ms t3 e s3" by (simp add: s3 e)
  finally show ?thesis using s3
    by (simp add: account_def Let_def counter_get_def frame_simps e)
      (simp add: refresh_queue_metrics_def refresh_sample_metrics_def Let_def)
qed

theorem accounting_race_witness:
  "wm_import_state (wa_metrics (actor_run (\<lambda>_. True) (\<lambda>t. t)
      [Allocate (tick ''import'' None 30) 0, Put 1, Take, Unaccount 1, Execute (\<lambda>_. False) 0 1 2, Account 1 3]
      (new_actor empty_database))) = ''import_queued''"
  using accounting_race [of "\<lambda>_. True" "\<lambda>t. t" "tick ''import'' None 30" 0 1 "\<lambda>_. False" 0 1 2 3 empty_database]
  by (simp add: Let_def command_priority_def tick_def function_command_def)

end
