(* ===== verification/Spec2Isabelle.thy ===== *)
theory Spec2Isabelle
  imports BoundedContext CorrectionProperties CoverageAudit CoverageTotality ContractExecution HotScheduler LeaseService ReplayWitness WriteActor
begin

text \<open>
  Memorist, the long-term memory service beside Open WebUI (\<open>src/memorist-core/src/memcore\<close>).

  A chat message is captured, a durable job is queued, a worker leases the job, the text is
  described exactly (blocks, tokens, sentences, offsets), a model is asked once for a semantic
  analysis, the answer is bound to the message, and a pure planner decides for every proposition
  and every uncovered token what may become a memory candidate.  The theories follow that path.
  Paths below are relative to \<open>src/memorist-core/src/memcore\<close>.

  \<^bold>\<open>Shared.\<close>  \<open>Prelude\<close> has errors as sums (\<open>rbind\<close>, \<open>raise_if\<close>), Python dictionaries as association
  lists, \<open>dict.fromkeys\<close>, \<open>min\<close> with a key, slices and ranges, and the collections \<open>guard_simps\<close> and
  \<open>frame_simps\<close>.  \<open>PyText\<close> is \<open>str\<close> as a list of code points, \<open>Bisect\<close> and \<open>Heapq\<close> the two library
  modules the code relies on, \<open>Json\<close> the I-JSON value profile (\<open>validators/ijson.py\<close>).

  \<^bold>\<open>Text.\<close>  \<open>TextBlocks\<close> (\<open>textsemantics/blocks.py\<close>), \<open>TextNormalize\<close> (\<open>contract.py\<close>, \<open>normalize.py\<close>),
  \<open>TextTokens\<close> (\<open>tokens.py\<close>, \<open>lexicon.py\<close>, \<open>polarity.py\<close>), \<open>TextSegments\<close> (\<open>segmentation.py\<close>) and
  \<open>TextEnvelope\<close> (\<open>referential.py\<close>, \<open>result.py\<close>).  The lemmas show that blocks tile the text, that the
  offset map is well-formed and inverts, that fenced code survives, that tokens are the maximal runs
  and sentences lose nothing but white space.

  \<^bold>\<open>What may accompany a message.\<close>  \<open>PyRegex\<close> is the part of Python's \<open>re\<close> in use (match positions
  in backtracking order), \<open>Sensitivity\<close> the classification of \<open>memory_worker/extraction/sensitivity.py\<close>,
  \<open>BoundedContext\<close> the resolver of \<open>memory_worker/semantic/bounded_context.py\<close>: what it returns is
  admissible, and the input of the analysis accepts it unless two items share turn and unit index.

  \<^bold>\<open>Admission of the model's answer.\<close>  \<open>EvidenceValidation\<close> (\<open>textsemantics/validation.py\<close>),
  \<open>SemanticContract\<close> (\<open>memory_worker/prompts/contracts.py\<close> and the input of
  \<open>memory_worker/semantic_contract.py\<close>), \<open>SemanticBinding\<close> (\<open>validate_semantic_binding\<close>): what is
  accepted quotes the message exactly, does not overlap, stays inside one authority boundary.

  \<^bold>\<open>Policy and coverage.\<close>  \<open>CandidatePolicy\<close> (gate, provenance, mapping and authority policies of
  \<open>memory_worker/semantic\<close>), \<open>CoverageIdentity\<close>, \<open>CoverageIndex\<close>, \<open>CoveragePlanner\<close>
  (\<open>semantic/coverage/*.py\<close>), \<open>CoverageProperties\<close> and \<open>CoverageTotality\<close>: every unit has exactly one
  item, every meaningful token is covered or recorded, a durable proposal is grounded, a bound
  output always gets a plan.

  \<^bold>\<open>Persisting a plan.\<close>  \<open>JsonText\<close> (\<open>dump_ijson\<close>: equal texts are equal values), \<open>CoverageRows\<close>
  (\<open>memory_worker/semantic_coverage_persistence.py\<close>, the adapter of \<open>semantic/candidate_service.py\<close> and
  the rows), \<open>CoverageStore\<close> (\<open>repositories/semantic_coverage.py\<close> and
  \<open>memory_worker/postgres/semantic_coverage.py\<close> over the tables and constraints of their migrations),
  \<open>CoverageReplay\<close> (what a command that succeeded keeps, as the locales \<open>replayable\<close> and
  \<open>candidate_dialect\<close>, interpreted for both databases) and \<open>CoverageAudit\<close>: a crashed worker resumes,
  every candidate is the one its proposal reserved, and PostgreSQL accepts what SQLite accepts.  The
  histories hold the persistence commands only; later stages that change a candidate's status are
  not part of them.  Foreign keys into tables without a theory are the predicate \<open>st_parent\<close>.
  Confidence and importance are thousandths; \<open>double\<close> is the float they stand for in a hash, and the
  argument \<open>F\<close> is the text Python prints for a float.

  \<^bold>\<open>Paying for one call.\<close>  \<open>AttemptAudit\<close> (\<open>memory_worker/attempt_audit.py\<close>) and
  \<open>ContractExecution\<close> (\<open>memory_worker/execution.py\<close>): over all histories of crashes and restarts an
  execution identity pays at most twice and no outcome is unvalidated.

  \<^bold>\<open>Planning one message.\<close>  \<open>RuntimeTables\<close> (what the Lite adapter of
  \<open>memory_worker/semantic/runtime_adapters.py\<close> reads: message, earlier text, authorities, snapshot),
  \<open>MessageSemantics\<close> (\<open>memory_worker/message_semantics.py\<close>, the ledger of what the model said),
  \<open>SemanticExecution\<close> (\<open>memory_worker/semantic_runtime.py\<close>, the identity of an execution and its rows),
  \<open>CompletedPlanning\<close> (finding and validating a complete plan) and \<open>Orchestration\<close>
  (\<open>memory_worker/semantic/orchestration.py\<close>), which composes them with the resolver, the contract, the
  planner and the persistence commands.  The service is a state monad over the database and the
  world of the contract execution; before its n-th effect \<open>oe_other\<close> says what other processes did to
  the database, \<open>oe_fence\<close> whether the lease fence raises, \<open>ev_alive\<close> whether the process still lives.
  \<open>OrchestrationSafety\<close> has one calculus of invariants for it (\<open>okeeps\<close>, with a rely condition) and what
  follows: which texts are sent, what a fenced worker can do, which stage row blocks a retry;
  \<open>OrchestrationWitness\<close> has what is refused or ignored and the closed instances.  \<open>CompletedReplay\<close> and
  \<open>SecondRun\<close> follow one run of the service through the tables and show that a second run finds its plan
  complete and replays it; \<open>ReplayWitness\<close> executes both runs on a message with a secret text unit.

  \<^bold>\<open>The canonical memory.\<close>  \<open>MemoryTables\<close> (\<open>repositories/memory_worker.py\<close> over migration 0002),
  \<open>Consolidation\<close> (\<open>memory_worker/consolidation/*.py\<close>) and \<open>Correction\<close> (\<open>governance/correction.py\<close>):
  candidates become memories with numbered versions, a change request of the user adds one.  What a
  caller has read or decided to write is a value, so \<open>MemoryHistory\<close> can let it commit to a database that
  others have changed since; each public operation is a sequence of its steps.  \<open>MemoryLifecycle\<close> and
  \<open>CorrectionProperties\<close> show that versions never fork and a candidate is decided once, and what
  canonical keys, the outbox of the graph and corrections do to other facts.

  \<^bold>\<open>Jobs and writes.\<close>  \<open>HotScheduler\<close> (\<open>scheduler/*.py\<close>), \<open>JobStore\<close> (\<open>repositories/domain.py\<close>,
  \<open>storage/postgres/jobs.py\<close>, \<open>outbox.py\<close>), \<open>JobWriters\<close> (the statements on the job table of
  \<open>imports/processing.py\<close>, \<open>imports/service.py\<close> and \<open>reliability/recovery.py\<close>), \<open>LeaseService\<close>
  (\<open>memory_worker/service.py\<close>) and \<open>WriteActor\<close> (\<open>storage/commands.py\<close>, \<open>write_actor.py\<close>): queues keep
  their jobs; workers, the other writers and crashes interleave over a history of events, in which
  whatever is accepted under a lease belongs to the latest claim and claims stay within their
  budget; and the actor's threads refine a serial writer.

  \<^bold>\<open>Arguments and hypotheses.\<close>  What is not source of this repository is an argument: SHA-256 and
  UUIDv5 (record \<open>digests\<close>; collision freedom is the locale \<open>fingerprinting\<close>, used where named), the
  Unicode character database (record \<open>unidb\<close>, instance \<open>demo_unidb\<close>), the RFC 3339 check, clocks, the
  provider's replies, parsing an answer into the output model and the text of its validation errors
  (pydantic), UUIDv5 and NFKC over labels, and the callbacks of a contract execution.  SQL statements are updates and
  selections over lists of rows; a lock or a transaction makes an operation one step.  Python
  integers are unbounded (\<open>nat\<close>, \<open>int\<close>); floats occur as mantissa and exponent where the code only
  compares them.  Loops are structural or have a measure;
  the only fuel is the bound on greedy repetition in \<open>PyRegex\<close>, the length of the text, which is
  enough because a round that makes no progress is not taken.

  \<^bold>\<open>Known differences.\<close>  Hashing raw text with unpaired surrogates raises in Python, \<open>d_text\<close> is total.
  A busy attempt of \<open>execute_with_busy_retry\<close> has no effect.  Error texts, the start and stop of the
  worker threads, write batches and log lines are not represented.  Which import job a writer of
  \<open>JobWriters\<close> names, and when, is arbitrary.  The attempt audit has the unique identity of a row,
  not the second unique key of migration 0035 (stage execution and attempt index).  Of the two runtime adapters the Lite one is
  modelled; its PostgreSQL twin runs the same statements in another dialect.  A row of the stage,
  prompt, usage and ledger tables is a dictionary by column name with the unique keys of its table.

  \<^bold>\<open>Not modelled.\<close>  HTTP routes, providers' clients, configuration, migrations and installers are
  input/output and glue.  The import, graph, retrieval and compaction services, privacy erasure and the
  Lite and Full pipelines are mostly SQL over tables that no theory here has; they are listed in
  the manifest with their reasons.
\<close>

end
